(* ===== verification/Prelude.thy ===== *)
theory Prelude
  imports Main "HOL-Library.Multiset"
begin

text \<open>
  The vocabulary every component shares: machine integers read as natural numbers with
  Rust's saturating and wrapping subtraction written out, the Rust \<open>HashMap\<close> as a
  keyed list with distinct keys, the interface of a keyed store as a locale, and the
  generic notion of a step system with reachable states.
\<close>

named_theorems keyed_simps "rewrite rules for the keyed store"
named_theorems inv_intros "introduction rules that split an invariant into its parts"

section \<open>Rust integers\<close>

text \<open>
  \<open>usize\<close>, \<open>u64\<close> and \<open>Instant\<close> values are natural numbers.
  \<open>saturating_sub\<close> stops at zero, which is subtraction of naturals; the plain \<open>-=\<close> of a
  release build wraps at \<open>2 ^ 64\<close>, so a component that uses it proves that it never does.
\<close>

type_synonym usize = nat
type_synonym u64 = nat
type_synonym instant = nat

definition saturating_sub :: "nat \<Rightarrow> nat \<Rightarrow> nat" where
  "saturating_sub a b = a - b"

definition saturating_add_u64 :: "nat \<Rightarrow> nat \<Rightarrow> nat" where
  "saturating_add_u64 a b = min (a + b) (2 ^ 64 - 1)"

definition wrapping_sub :: "nat \<Rightarrow> nat \<Rightarrow> nat" where
  "wrapping_sub a b = (if b \<le> a then a - b else a + 2 ^ 64 - b)"

lemma wrapping_sub_exact [simp]: "b \<le> a \<Longrightarrow> wrapping_sub a b = a - b"
  by (simp add: wrapping_sub_def)

lemma wrapping_sub_underflow: "a < b \<Longrightarrow> b < 2 ^ 64 \<Longrightarrow> 0 < wrapping_sub a b"
  by (simp add: wrapping_sub_def)

section \<open>Hash maps as keyed lists\<close>

text \<open>
  A Rust \<open>HashMap\<close> is a list of entries with distinct keys. The order of the list
  stands for the iteration order, which the standard library leaves open.
  \<open>hm_insert\<close> replaces, \<open>hm_adjust\<close> is \<open>get_mut\<close> on one key,
  \<open>hm_adjust_where\<close> is \<open>values_mut().filter(..)\<close>, \<open>hm_retain\<close> is \<open>retain\<close>.
\<close>

type_synonym ('k, 'v) hmap = "('k \<times> 'v) list"

definition hm_get :: "('k, 'v) hmap \<Rightarrow> 'k \<Rightarrow> 'v option" where
  "hm_get m k = map_of m k"

definition hm_keys :: "('k, 'v) hmap \<Rightarrow> 'k list" where
  "hm_keys m = map fst m"

definition hm_values :: "('k, 'v) hmap \<Rightarrow> 'v list" where
  "hm_values m = map snd m"

definition hm_contains :: "('k, 'v) hmap \<Rightarrow> 'k \<Rightarrow> bool" where
  "hm_contains m k = (hm_get m k \<noteq> None)"

definition hm_retain :: "('k \<Rightarrow> 'v \<Rightarrow> bool) \<Rightarrow> ('k, 'v) hmap \<Rightarrow> ('k, 'v) hmap" where
  "hm_retain p m = filter (\<lambda>kv. p (fst kv) (snd kv)) m"

definition hm_remove :: "'k \<Rightarrow> ('k, 'v) hmap \<Rightarrow> ('k, 'v) hmap" where
  "hm_remove k m = hm_retain (\<lambda>k' _. k' \<noteq> k) m"

definition hm_insert :: "'k \<Rightarrow> 'v \<Rightarrow> ('k, 'v) hmap \<Rightarrow> ('k, 'v) hmap" where
  "hm_insert k v m = (k, v) # hm_remove k m"

definition hm_adjust_where ::
    "('k \<Rightarrow> 'v \<Rightarrow> bool) \<Rightarrow> ('v \<Rightarrow> 'v) \<Rightarrow> ('k, 'v) hmap \<Rightarrow> ('k, 'v) hmap" where
  "hm_adjust_where p f m = map (\<lambda>(k, v). (k, if p k v then f v else v)) m"

definition hm_adjust :: "'k \<Rightarrow> ('v \<Rightarrow> 'v) \<Rightarrow> ('k, 'v) hmap \<Rightarrow> ('k, 'v) hmap" where
  "hm_adjust k f m = hm_adjust_where (\<lambda>k' _. k' = k) f m"

definition hm_wf :: "('k, 'v) hmap \<Rightarrow> bool" where
  "hm_wf m = distinct (map fst m)"

lemma hm_get_Nil [simp]: "hm_get [] k = None"
  by (simp add: hm_get_def)

lemma hm_get_Cons [simp]:
  "hm_get ((k', v) # m) k = (if k' = k then Some v else hm_get m k)"
  by (simp add: hm_get_def)

lemma hm_get_adjust_where [keyed_simps]:
  "hm_get (hm_adjust_where p f m) k =
     map_option (\<lambda>v. if p k v then f v else v) (hm_get m k)"
  by (induction m) (auto simp: hm_get_def hm_adjust_where_def)

lemma hm_get_adjust [keyed_simps]:
  "hm_get (hm_adjust k' f m) k = (if k = k' then map_option f (hm_get m k) else hm_get m k)"
  by (auto simp: hm_adjust_def hm_get_adjust_where option.map_ident)

lemma hm_get_retain:
  "hm_wf m \<Longrightarrow> hm_get (hm_retain p m) k =
     (case hm_get m k of None \<Rightarrow> None | Some v \<Rightarrow> if p k v then Some v else None)"
proof (induction m)
  case Nil
  then show ?case by (simp add: hm_retain_def)
next
  case (Cons kv m)
  then show ?case
    by (cases kv) (force simp: hm_retain_def hm_wf_def hm_get_def split: option.splits dest: map_of_SomeD)
qed

lemma hm_get_remove [keyed_simps]:
  "hm_get (hm_remove k' m) k = (if k = k' then None else hm_get m k)"
  by (induction m) (auto simp: hm_remove_def hm_retain_def hm_get_def)

lemma hm_get_insert [keyed_simps]:
  "hm_get (hm_insert k' v m) k = (if k = k' then Some v else hm_get m k)"
  by (auto simp: hm_insert_def keyed_simps)

lemma hm_keys_adjust_where [simp]: "map fst (hm_adjust_where p f m) = map fst m"
  by (induction m) (auto simp: hm_adjust_where_def)

lemma hm_wf_adjust_where [simp]: "hm_wf (hm_adjust_where p f m) = hm_wf m"
  by (simp add: hm_wf_def)

lemma hm_wf_adjust [simp]: "hm_wf (hm_adjust k f m) = hm_wf m"
  by (simp add: hm_adjust_def)

lemma hm_wf_retain [intro]: "hm_wf m \<Longrightarrow> hm_wf (hm_retain p m)"
  by (simp add: hm_wf_def hm_retain_def distinct_map inj_on_def)

lemma hm_wf_remove [intro]: "hm_wf m \<Longrightarrow> hm_wf (hm_remove k m)"
  by (auto simp: hm_remove_def)

lemma hm_wf_insert [intro]: "hm_wf m \<Longrightarrow> hm_wf (hm_insert k v m)"
  by (auto simp: hm_insert_def hm_wf_def hm_remove_def hm_retain_def distinct_map inj_on_def)

lemma hm_wf_Nil [simp]: "hm_wf []"
  by (simp add: hm_wf_def)

lemma hm_get_mem: "hm_get m k = Some v \<Longrightarrow> (k, v) \<in> set m"
  by (simp add: hm_get_def map_of_SomeD)

lemma hm_mem_get: "hm_wf m \<Longrightarrow> (k, v) \<in> set m \<Longrightarrow> hm_get m k = Some v"
  by (simp add: hm_wf_def hm_get_def)

lemma hm_get_iff_mem: "hm_wf m \<Longrightarrow> hm_get m k = Some v \<longleftrightarrow> (k, v) \<in> set m"
  using hm_get_mem hm_mem_get by metis

lemma hm_get_None_iff: "hm_get m k = None \<longleftrightarrow> k \<notin> fst ` set m"
  by (simp add: hm_get_def map_of_eq_None_iff)

lemma set_adjust_where:
  "set (hm_adjust_where p f m) = (\<lambda>(k, v). (k, if p k v then f v else v)) ` set m"
  by (simp add: hm_adjust_where_def)

lemma length_adjust_where [simp]: "length (hm_adjust_where p f m) = length m"
  by (simp add: hm_adjust_where_def)

lemma length_adjust [simp]: "length (hm_adjust k f m) = length m"
  by (simp add: hm_adjust_def)

lemma length_retain_le: "length (hm_retain p m) \<le> length m"
  by (simp add: hm_retain_def)

lemma set_retain [simp]: "set (hm_retain p m) = {(k, v) \<in> set m. p k v}"
  by (auto simp: hm_retain_def)

lemma hm_remove_absent: "hm_get m k = None \<Longrightarrow> hm_remove k m = m"
  by (auto simp: hm_get_None_iff hm_remove_def hm_retain_def filter_id_conv)

lemma hm_insert_absent: "hm_get m k = None \<Longrightarrow> hm_insert k v m = (k, v) # m"
  by (simp add: hm_insert_def hm_remove_absent)

section \<open>The interface of a keyed store\<close>

text \<open>
  What the registries rely on when they use a map: a lookup after an insert or a removal,
  and that both keep the keys distinct. The clients' facts are proved once here and reach
  each component through the interpretation below.
\<close>

locale keyed_store =
  fixes lookup :: "'m \<Rightarrow> 'k \<Rightarrow> 'v option"
    and insert_at :: "'k \<Rightarrow> 'v \<Rightarrow> 'm \<Rightarrow> 'm"
    and remove_at :: "'k \<Rightarrow> 'm \<Rightarrow> 'm"
    and wf :: "'m \<Rightarrow> bool"
    and empty_store :: "'m"
  assumes wf_empty: "wf empty_store"
    and wf_insert: "wf m \<Longrightarrow> wf (insert_at k v m)"
    and wf_remove: "wf m \<Longrightarrow> wf (remove_at k m)"
    and lookup_empty: "lookup empty_store k = None"
    and lookup_insert: "wf m \<Longrightarrow> lookup (insert_at k v m) k' = (if k' = k then Some v else lookup m k')"
    and lookup_remove: "wf m \<Longrightarrow> lookup (remove_at k m) k' = (if k' = k then None else lookup m k')"
begin

lemma register_unregister:
  "wf m \<Longrightarrow> lookup m k = None \<Longrightarrow> lookup (remove_at k (insert_at k v m)) = lookup m"
  by (auto simp: fun_eq_iff lookup_insert lookup_remove wf_insert)

lemma register_other:
  "wf m \<Longrightarrow> k' \<noteq> k \<Longrightarrow> lookup (insert_at k v m) k' = lookup m k'"
  by (simp add: lookup_insert)

lemma unregister_twice:
  "wf m \<Longrightarrow> lookup (remove_at k (remove_at k m)) = lookup (remove_at k m)"
  by (auto simp: fun_eq_iff lookup_remove wf_remove)

end

interpretation hm: keyed_store hm_get hm_insert hm_remove hm_wf "[]"
  by unfold_locales (auto simp: keyed_simps)

section \<open>Step systems\<close>

text \<open>
  A component with state is an initial state and a step relation. The reachable states are
  the least set that holds the initial states and is closed under steps; a predicate that
  the initial states satisfy and every step keeps holds in all of them.
\<close>

inductive reach :: "('s \<Rightarrow> bool) \<Rightarrow> ('s \<Rightarrow> 's \<Rightarrow> bool) \<Rightarrow> 's \<Rightarrow> bool"
  for init :: "'s \<Rightarrow> bool" and step :: "'s \<Rightarrow> 's \<Rightarrow> bool" where
  reach_init: "init s \<Longrightarrow> reach init step s"
| reach_step: "reach init step s \<Longrightarrow> step s t \<Longrightarrow> reach init step t"

locale step_system =
  fixes init :: "'s \<Rightarrow> bool" and step :: "'s \<Rightarrow> 's \<Rightarrow> bool" and inv :: "'s \<Rightarrow> bool"
  assumes inv_init: "init s \<Longrightarrow> inv s"
    and inv_step: "inv s \<Longrightarrow> step s t \<Longrightarrow> inv t"
begin

lemma reach_inv: "reach init step s \<Longrightarrow> inv s"
  by (induction rule: reach.induct) (auto intro: inv_init inv_step)

lemma steps_inv: "step\<^sup>*\<^sup>* s t \<Longrightarrow> inv s \<Longrightarrow> inv t"
  by (induction rule: rtranclp_induct) (auto intro: inv_step)

lemma reach_steps: "reach init step s \<Longrightarrow> step\<^sup>*\<^sup>* s t \<Longrightarrow> reach init step t"
  by (rotate_tac, induction rule: rtranclp_induct) (auto intro: reach_step)

end

section \<open>Sums over keyed lists\<close>

lemma sum_list_adjust_where_same:
  "(\<And>k v. (k, v) \<in> set m \<Longrightarrow> p k v \<Longrightarrow> g (f v) = g v) \<Longrightarrow>
     sum_list (map (\<lambda>kv. g (snd kv)) (hm_adjust_where p f m)) =
     (sum_list (map (\<lambda>kv. g (snd kv)) m) :: nat)"
proof (induction m)
  case Nil
  then show ?case by (simp add: hm_adjust_where_def)
next
  case (Cons kv m)
  obtain k v where kv: "kv = (k, v)" by (cases kv)
  have "sum_list (map (\<lambda>kv. g (snd kv)) (hm_adjust_where p f m)) =
      sum_list (map (\<lambda>kv. g (snd kv)) m)"
    by (rule Cons.IH) (use Cons.prems in \<open>auto simp: kv\<close>)
  moreover have "p k v \<Longrightarrow> g (f v) = g v" using Cons.prems by (auto simp: kv)
  ultimately show ?case by (auto simp: kv hm_adjust_where_def)
qed

lemma sum_list_filter_zero:
  "(\<And>x. x \<in> set xs \<Longrightarrow> \<not> p x \<Longrightarrow> g x = (0::nat)) \<Longrightarrow>
     sum_list (map g (filter p xs)) = sum_list (map g xs)"
  by (induction xs) auto

lemma sum_list_filter_split:
  "sum_list (map g xs) =
     sum_list (map g (filter p xs)) + (sum_list (map g (filter (\<lambda>x. \<not> p x) xs)) :: nat)"
  by (induction xs) auto

lemma sum_list_adjust_one:
  assumes "hm_wf m" and "hm_get m k = Some v"
  shows "sum_list (map (\<lambda>kv. g (snd kv)) (hm_adjust k f m)) + g v =
     (sum_list (map (\<lambda>kv. g (snd kv)) m) + g (f v) :: nat)"
  using assms
proof (induction m)
  case Nil
  then show ?case by simp
next
  case (Cons kv m)
  obtain k' v' where kv: "kv = (k', v')" by (cases kv)
  show ?case
  proof (cases "k' = k")
    case True
    have "hm_adjust k f m = m"
      using Cons.prems(1) True
      by (auto simp: kv hm_adjust_def hm_adjust_where_def hm_wf_def intro!: map_idI) (force)
    with True Cons.prems(2) show ?thesis
      by (simp add: kv hm_adjust_def hm_adjust_where_def)
  next
    case False
    with Cons.prems have "hm_wf m" "hm_get m k = Some v"
      by (auto simp: kv hm_wf_def)
    from Cons.IH [OF this] False show ?thesis
      by (simp add: kv hm_adjust_def hm_adjust_where_def)
  qed
qed

end
