(* ===== verification/Capacity.thy ===== *)
theory Capacity
  imports Prelude
begin

text \<open>
  Admission control: the Active Turn limiter (\<open>session/interaction/turn.rs\<close>), the shared
  Voice/diagnostic capacity of a provider runtime (\<open>workers/admission/mod.rs\<close>), the
  deployment-wide pilot envelope (\<open>session/admission/pilot.rs\<close>) and the generation gate
  (\<open>session/interaction/generation_gate.rs\<close>). A permit is released by \<open>Drop\<close>, so the
  state of each system is the counters and the permits that are alive.
\<close>

section \<open>The interface of a slot pool\<close>

text \<open>
  A pool hands out at most \<open>cap\<close> slots. A client acquires slots and gives back the ones it
  holds; \<open>pool_run\<close> is such a client, with the number of slots it holds as its own state.
\<close>

datatype pool_op = Acquire | GiveBack

fun pool_run :: "('s \<Rightarrow> 's option) \<Rightarrow> ('s \<Rightarrow> 's) \<Rightarrow> pool_op list \<Rightarrow> 's \<times> nat \<Rightarrow> 's \<times> nat" where
  "pool_run acq rel [] (s, held) = (s, held)"
| "pool_run acq rel (Acquire # ops) (s, held) =
     (case acq s of None \<Rightarrow> pool_run acq rel ops (s, held)
                  | Some t \<Rightarrow> pool_run acq rel ops (t, Suc held))"
| "pool_run acq rel (GiveBack # ops) (s, held) =
     (if held = 0 then pool_run acq rel ops (s, held)
      else pool_run acq rel ops (rel s, held - 1))"

locale slot_pool =
  fixes acquire :: "'s \<Rightarrow> 's option" and release :: "'s \<Rightarrow> 's"
    and used :: "'s \<Rightarrow> nat" and cap :: "'s \<Rightarrow> nat"
  assumes acquire_Some: "acquire s = Some t \<Longrightarrow> used t = Suc (used s) \<and> cap t = cap s"
    and acquire_iff: "acquire s = None \<longleftrightarrow> cap s \<le> used s"
    and release_used: "0 < used s \<Longrightarrow> used (release s) = used s - 1 \<and> cap (release s) = cap s"
begin

lemma acquire_below: "acquire s = Some t \<Longrightarrow> used s < cap s"
  using acquire_iff [of s] by (cases "cap s \<le> used s") auto

lemma run_exact:
  "pool_run acquire release ops (s, held) = (s', held') \<Longrightarrow> used s = held + k \<Longrightarrow>
     used s' = held' + k \<and> cap s' = cap s"
proof (induction ops arbitrary: s held)
  case (Cons op ops)
  show ?case
  proof (cases op)
    case Acquire
    with Cons show ?thesis by (cases "acquire s") (auto dest: acquire_Some)
  next
    case GiveBack
    with Cons release_used [of s] show ?thesis by (cases held) auto
  qed
qed simp

lemma run_bounded:
  "pool_run acquire release ops (s, held) = (s', held') \<Longrightarrow> used s \<le> cap s \<Longrightarrow> held \<le> used s \<Longrightarrow>
     used s' \<le> cap s'"
proof (induction ops arbitrary: s held)
  case (Cons op ops)
  show ?case
  proof (cases op)
    case Acquire
    show ?thesis
    proof (cases "acquire s")
      case None
      with Cons Acquire show ?thesis by simp
    next
      case (Some t)
      with acquire_Some [OF Some] acquire_below [OF Some] Cons Acquire show ?thesis by simp
    qed
  next
    case GiveBack
    with Cons release_used [of s] show ?thesis by (cases held) auto
  qed
qed simp

lemma acquire_release: "acquire s = Some t \<Longrightarrow> used (release t) = used s"
  using acquire_Some release_used [of t] by fastforce

end

section \<open>Active Turn limiter\<close>

record turn_limiter =
  tl_capacity :: usize
  tl_active :: usize

text \<open>\<open>new\<close> asserts a positive capacity; a failed assertion is \<open>None\<close>.\<close>

definition limiter_new :: "usize \<Rightarrow> turn_limiter option" where
  "limiter_new capacity =
     (if 0 < capacity then Some \<lparr>tl_capacity = capacity, tl_active = 0\<rparr> else None)"

definition limiter_try_acquire :: "turn_limiter \<Rightarrow> turn_limiter option" where
  "limiter_try_acquire l =
     (if tl_active l < tl_capacity l then Some (l\<lparr>tl_active := tl_active l + 1\<rparr>) else None)"

definition limiter_release :: "turn_limiter \<Rightarrow> turn_limiter" where
  "limiter_release l = l\<lparr>tl_active := wrapping_sub (tl_active l) 1\<rparr>"

interpretation turn_pool: slot_pool limiter_try_acquire limiter_release tl_active tl_capacity
  by unfold_locales (auto simp: limiter_try_acquire_def limiter_release_def split: if_splits)

section \<open>Counting semaphores\<close>

text \<open>
  The tokio \<open>Semaphore\<close> as the runtime manager uses it: a fixed number of permits,
  \<open>try_acquire_owned\<close>, and release when the permit is dropped.
\<close>

record semaphore =
  sem_total :: usize
  sem_available :: usize

definition sem_new :: "usize \<Rightarrow> semaphore" where
  "sem_new n = \<lparr>sem_total = n, sem_available = n\<rparr>"

definition sem_try_acquire :: "semaphore \<Rightarrow> semaphore option" where
  "sem_try_acquire s =
     (if sem_available s = 0 then None else Some (s\<lparr>sem_available := sem_available s - 1\<rparr>))"

definition sem_release :: "semaphore \<Rightarrow> semaphore" where
  "sem_release s = s\<lparr>sem_available := sem_available s + 1\<rparr>"

definition sem_used :: "semaphore \<Rightarrow> nat" where
  "sem_used s = sem_total s - sem_available s"

text \<open>Every permit that is out came from the semaphore, so it never holds more than its total.\<close>

definition sem_ok :: "semaphore \<Rightarrow> nat \<Rightarrow> bool" where
  "sem_ok s out = (sem_available s + out = sem_total s)"

lemma sem_ok_new [simp]: "sem_ok (sem_new n) 0"
  by (simp add: sem_ok_def sem_new_def)

lemma sem_ok_acquire: "sem_ok s out \<Longrightarrow> sem_try_acquire s = Some t \<Longrightarrow> sem_ok t (Suc out)"
  by (auto simp: sem_ok_def sem_try_acquire_def split: if_splits)

lemma sem_ok_release: "sem_ok s (Suc out) \<Longrightarrow> sem_ok (sem_release s) out"
  by (auto simp: sem_ok_def sem_release_def)

section \<open>Generation gate\<close>

text \<open>One atomic \<open>u64\<close>: \<open>fetch_max\<close> on invalidation, a strict comparison on delivery.\<close>

record generation_gate =
  invalidated_through :: u64

definition gate_new :: generation_gate where
  "gate_new = \<lparr>invalidated_through = 0\<rparr>"

definition gate_invalidate :: "u64 \<Rightarrow> generation_gate \<Rightarrow> generation_gate" where
  "gate_invalidate g gate = gate\<lparr>invalidated_through := max (invalidated_through gate) g\<rparr>"

definition gate_admits :: "generation_gate \<Rightarrow> u64 \<Rightarrow> bool" where
  "gate_admits gate g = (invalidated_through gate < g)"

lemma fold_invalidate:
  "invalidated_through (fold gate_invalidate gs gate) =
     Max (insert (invalidated_through gate) (set gs))"
proof (induction gs arbitrary: gate)
  case Nil
  then show ?case by simp
next
  case (Cons g gs)
  have "Max (insert (max (invalidated_through gate) g) (set gs)) =
      Max (insert (invalidated_through gate) (insert g (set gs)))"
    by (cases "set gs = {}") (simp_all add: max.assoc max.commute max.left_commute)
  moreover have "invalidated_through (gate_invalidate g gate) = max (invalidated_through gate) g"
    by (simp add: gate_invalidate_def)
  ultimately show ?case by (simp add: Cons.IH)
qed

section \<open>Shared provider capacity\<close>

text \<open>
  \<open>ProviderRuntimeAdmission\<close> is a vector of \<open>Arc<Mutex<State>>\<close>. The states live in a store
  and an \<open>Arc\<close> is an index into it; the address order that \<open>composed\<close> sorts by is the order
  of the indices. \<open>idle_epoch\<close> counts the \<open>notify_waiters\<close> of the \<open>idle\<close> notifier.
\<close>

datatype workload_class = Voice | Diagnostic | Background

record adm_state =
  total_slots :: usize
  reserved_voice :: usize
  voice_work :: usize
  diagnostic_work :: usize
  idle_epoch :: nat

type_synonym adm_store = "adm_state list"
type_synonym admission = "nat list"

record capacity_permit =
  permit_admission :: admission
  permit_workload :: workload_class

definition adm_used :: "adm_state \<Rightarrow> nat" where
  "adm_used st = voice_work st + diagnostic_work st"

definition admission_new :: "usize \<Rightarrow> usize \<Rightarrow> adm_store \<Rightarrow> (adm_store \<times> admission) option" where
  "admission_new slots reserved store =
     (if 0 < slots \<and> 0 < reserved \<and> reserved \<le> slots
      then Some (store @ [\<lparr>total_slots = slots, reserved_voice = reserved, voice_work = 0,
                           diagnostic_work = 0, idle_epoch = 0\<rparr>], [length store])
      else None)"

definition composed :: "admission \<Rightarrow> admission \<Rightarrow> admission" where
  "composed a b = remdups_adj (sort (a @ b))"

definition has_background_capacity :: "adm_store \<Rightarrow> admission \<Rightarrow> bool" where
  "has_background_capacity store adm =
     list_all (\<lambda>i. reserved_voice (store ! i) < total_slots (store ! i)) adm"

definition view_usage :: "adm_store \<Rightarrow> admission \<Rightarrow> nat" where
  "view_usage store adm =
     (case map (\<lambda>i. adm_used (store ! i)) adm of [] \<Rightarrow> 0 | u # us \<Rightarrow> fold min us u)"

definition active_work :: "adm_store \<Rightarrow> admission \<Rightarrow> nat" where
  "active_work store adm = sum_list (map (\<lambda>i. adm_used (store ! i)) adm)"

text \<open>One pass of \<open>wait_until_idle\<close>: it returns, or it waits for the next notification.\<close>

definition idle_pass :: "adm_store \<Rightarrow> admission \<Rightarrow> bool" where
  "idle_pass store adm = (list_ex (\<lambda>i. adm_used (store ! i) = 0) adm \<or> adm = [])"

definition adm_full :: "workload_class \<Rightarrow> adm_state \<Rightarrow> bool" where
  "adm_full w st =
     (case w of
        Voice \<Rightarrow> total_slots st \<le> adm_used st
      | Diagnostic \<Rightarrow>
          if total_slots st = 1 then total_slots st \<le> adm_used st
          else total_slots st - reserved_voice st \<le> adm_used st
      | Background \<Rightarrow> total_slots st - reserved_voice st \<le> adm_used st)"

definition adm_take :: "workload_class \<Rightarrow> adm_state \<Rightarrow> adm_state" where
  "adm_take w st =
     (case w of
        Voice \<Rightarrow> st\<lparr>voice_work := voice_work st + 1\<rparr>
      | Diagnostic \<Rightarrow> st\<lparr>diagnostic_work := diagnostic_work st + 1\<rparr>
      | Background \<Rightarrow> st\<lparr>diagnostic_work := diagnostic_work st + 1\<rparr>)"

definition adm_give :: "workload_class \<Rightarrow> adm_state \<Rightarrow> adm_state" where
  "adm_give w st =
     (let st' = (case w of
          Voice \<Rightarrow> st\<lparr>voice_work := wrapping_sub (voice_work st) 1\<rparr>
        | Diagnostic \<Rightarrow> st\<lparr>diagnostic_work := wrapping_sub (diagnostic_work st) 1\<rparr>
        | Background \<Rightarrow> st\<lparr>diagnostic_work := wrapping_sub (diagnostic_work st) 1\<rparr>)
      in if adm_used st' = 0 then st'\<lparr>idle_epoch := idle_epoch st' + 1\<rparr> else st')"

text \<open>\<open>update_at\<close> applies a change to every state a view names, as the loops over its guards do.\<close>

definition update_at :: "(adm_state \<Rightarrow> adm_state) \<Rightarrow> admission \<Rightarrow> adm_store \<Rightarrow> adm_store" where
  "update_at f adm store = foldl (\<lambda>st i. st[i := f (st ! i)]) store adm"

definition try_admit ::
    "adm_store \<Rightarrow> admission \<Rightarrow> workload_class \<Rightarrow> (adm_store \<times> capacity_permit) option" where
  "try_admit store adm w =
     (if list_ex (\<lambda>i. adm_full w (store ! i)) adm then None
      else Some (update_at (adm_take w) adm store,
                 \<lparr>permit_admission = adm, permit_workload = w\<rparr>))"

definition drop_permit :: "capacity_permit \<Rightarrow> adm_store \<Rightarrow> adm_store" where
  "drop_permit p store = update_at (adm_give (permit_workload p)) (permit_admission p) store"

section \<open>The pilot envelope\<close>

datatype pilot_work = PilotVoice | PilotEnrollment | PilotCold

record pilot =
  pilot_enabled :: bool
  pilot_voice :: bool
  pilot_enrollment :: bool
  pilot_cold :: bool

definition pilot_new :: "bool \<Rightarrow> pilot" where
  "pilot_new enabled = \<lparr>pilot_enabled = enabled, pilot_voice = False,
     pilot_enrollment = False, pilot_cold = False\<rparr>"

definition pilot_busy :: "pilot \<Rightarrow> pilot_work \<Rightarrow> bool" where
  "pilot_busy p w =
     (pilot_cold p \<or>
      (case w of PilotVoice \<Rightarrow> pilot_voice p
               | PilotEnrollment \<Rightarrow> pilot_enrollment p
               | PilotCold \<Rightarrow> pilot_voice p \<or> pilot_enrollment p))"

definition pilot_mark :: "bool \<Rightarrow> pilot_work \<Rightarrow> pilot \<Rightarrow> pilot" where
  "pilot_mark b w p =
     (case w of PilotVoice \<Rightarrow> p\<lparr>pilot_voice := b\<rparr>
              | PilotEnrollment \<Rightarrow> p\<lparr>pilot_enrollment := b\<rparr>
              | PilotCold \<Rightarrow> p\<lparr>pilot_cold := b\<rparr>)"

definition pilot_try_admit :: "pilot_work \<Rightarrow> pilot \<Rightarrow> pilot option" where
  "pilot_try_admit w p =
     (if pilot_enabled p
      then (if pilot_busy p w then None else Some (pilot_mark True w p))
      else Some p)"

definition pilot_drop :: "pilot_work \<Rightarrow> pilot \<Rightarrow> pilot" where
  "pilot_drop w p = (if \<not> pilot_enabled p then p else pilot_mark False w p)"


section \<open>The admission system and its invariant\<close>

lemma update_at_length [simp]: "length (update_at f adm store) = length store"
  unfolding update_at_def by (induction adm arbitrary: store) auto

lemma update_at_nth:
  "distinct adm \<Longrightarrow> \<forall>j\<in>set adm. j < length store \<Longrightarrow> i < length store \<Longrightarrow>
     update_at f adm store ! i = (if i \<in> set adm then f (store ! i) else store ! i)"
  unfolding update_at_def
  by (induction adm arbitrary: store) (auto simp: nth_list_update)

text \<open>
  The states, the views made of them and the permits that are alive. A view comes from
  \<open>new\<close> or from \<open>composed\<close>; a permit is admitted on a view and dropped once.
\<close>

record adm_sys =
  sys_store :: adm_store
  sys_views :: "admission list"
  sys_live :: "capacity_permit list"

definition adm_sys_init :: "adm_sys \<Rightarrow> bool" where
  "adm_sys_init s = (s = \<lparr>sys_store = [], sys_views = [], sys_live = []\<rparr>)"

inductive adm_step :: "adm_sys \<Rightarrow> adm_sys \<Rightarrow> bool" where
  adm_create: "admission_new n r (sys_store s) = Some (store', v) \<Longrightarrow>
     adm_step s (s\<lparr>sys_store := store', sys_views := v # sys_views s\<rparr>)"
| adm_compose: "v \<in> set (sys_views s) \<Longrightarrow> w \<in> set (sys_views s) \<Longrightarrow>
     adm_step s (s\<lparr>sys_views := composed v w # sys_views s\<rparr>)"
| adm_admit: "v \<in> set (sys_views s) \<Longrightarrow> try_admit (sys_store s) v w = Some (store', p) \<Longrightarrow>
     adm_step s (s\<lparr>sys_store := store', sys_live := p # sys_live s\<rparr>)"
| adm_drop: "p \<in> set (sys_live s) \<Longrightarrow>
     adm_step s (s\<lparr>sys_store := drop_permit p (sys_store s), sys_live := remove1 p (sys_live s)\<rparr>)"

definition view_ok :: "adm_store \<Rightarrow> admission \<Rightarrow> bool" where
  "view_ok store v = (distinct v \<and> (\<forall>i\<in>set v. i < length store))"

definition voice_permits :: "nat \<Rightarrow> capacity_permit list \<Rightarrow> nat" where
  "voice_permits i ps =
     length (filter (\<lambda>p. i \<in> set (permit_admission p) \<and> permit_workload p = Voice) ps)"

definition other_permits :: "nat \<Rightarrow> capacity_permit list \<Rightarrow> nat" where
  "other_permits i ps =
     length (filter (\<lambda>p. i \<in> set (permit_admission p) \<and> permit_workload p \<noteq> Voice) ps)"

definition adm_state_ok :: "adm_state \<Rightarrow> bool" where
  "adm_state_ok st =
     (0 < reserved_voice st \<and> reserved_voice st \<le> total_slots st \<and>
      adm_used st \<le> total_slots st \<and>
      (total_slots st \<noteq> 1 \<longrightarrow> diagnostic_work st \<le> total_slots st - reserved_voice st))"

definition adm_inv :: "adm_sys \<Rightarrow> bool" where
  "adm_inv s =
     ((\<forall>v\<in>set (sys_views s). view_ok (sys_store s) v) \<and>
      (\<forall>p\<in>set (sys_live s). view_ok (sys_store s) (permit_admission p)) \<and>
      (\<forall>i<length (sys_store s).
         adm_state_ok (sys_store s ! i) \<and>
         voice_work (sys_store s ! i) = voice_permits i (sys_live s) \<and>
         diagnostic_work (sys_store s ! i) = other_permits i (sys_live s)))"

lemma sort_remdups_adj_distinct: "sorted xs \<Longrightarrow> distinct (remdups_adj xs)"
  by (induction xs rule: remdups_adj.induct) (auto simp: order.order_iff_strict)

lemma composed_distinct: "distinct (composed a b)"
  by (simp add: composed_def sort_remdups_adj_distinct)

lemma composed_set: "set (composed a b) = set a \<union> set b"
  by (simp add: composed_def)

lemma composed_sorted: "sorted (composed a b)"
  by (simp add: composed_def)

lemma permits_Cons:
  "voice_permits i (p # ps) =
     (if i \<in> set (permit_admission p) \<and> permit_workload p = Voice then Suc else id) (voice_permits i ps)"
  "other_permits i (p # ps) =
     (if i \<in> set (permit_admission p) \<and> permit_workload p \<noteq> Voice then Suc else id) (other_permits i ps)"
  by (auto simp: voice_permits_def other_permits_def)

lemma permits_remove1:
  "p \<in> set ps \<Longrightarrow> voice_permits i ps = voice_permits i (p # remove1 p ps)"
  "p \<in> set ps \<Longrightarrow> other_permits i ps = other_permits i (p # remove1 p ps)"
  by (induction ps) (auto simp: permits_Cons)

lemma adm_take_ok:
  "adm_state_ok st \<Longrightarrow> \<not> adm_full w st \<Longrightarrow> adm_state_ok (adm_take w st)"
  by (cases w) (auto simp: adm_state_ok_def adm_full_def adm_take_def adm_used_def split: if_splits)

lemma adm_take_counts:
  "voice_work (adm_take w st) = (if w = Voice then Suc (voice_work st) else voice_work st)"
  "diagnostic_work (adm_take w st) = (if w \<noteq> Voice then Suc (diagnostic_work st) else diagnostic_work st)"
  by (cases w; simp add: adm_take_def)+

lemma adm_give_counts:
  "voice_work (adm_give w st) = (if w = Voice then wrapping_sub (voice_work st) 1 else voice_work st)"
  "diagnostic_work (adm_give w st) =
     (if w \<noteq> Voice then wrapping_sub (diagnostic_work st) 1 else diagnostic_work st)"
  by (cases w; simp add: adm_give_def Let_def)+

lemma adm_give_ok:
  assumes "adm_state_ok st" and "if w = Voice then 0 < voice_work st else 0 < diagnostic_work st"
  shows "adm_state_ok (adm_give w st)"
  using assms
  by (cases w) (auto simp: adm_state_ok_def adm_give_def adm_used_def Let_def)

lemma adm_inv_init: "adm_sys_init s \<Longrightarrow> adm_inv s"
  by (simp add: adm_sys_init_def adm_inv_def)

lemma adm_inv_create:
  "adm_inv s \<Longrightarrow> admission_new n r (sys_store s) = Some (store', v) \<Longrightarrow>
     adm_inv (s\<lparr>sys_store := store', sys_views := v # sys_views s\<rparr>)"
proof -
  assume inv: "adm_inv s" and new: "admission_new n r (sys_store s) = Some (store', v)"
  have "p \<in> set (sys_live s) \<Longrightarrow> length (sys_store s) \<notin> set (permit_admission p)" for p
    using inv by (fastforce simp: adm_inv_def view_ok_def)
  then have "voice_permits (length (sys_store s)) (sys_live s) = 0"
      "other_permits (length (sys_store s)) (sys_live s) = 0"
    by (auto simp: voice_permits_def other_permits_def filter_empty_conv)
  with inv new show ?thesis
    by (fastforce simp: adm_inv_def view_ok_def admission_new_def adm_state_ok_def adm_used_def
        nth_append less_Suc_eq split: if_splits)
qed

lemma adm_inv_compose:
  "adm_inv s \<Longrightarrow> v \<in> set (sys_views s) \<Longrightarrow> w \<in> set (sys_views s) \<Longrightarrow>
     adm_inv (s\<lparr>sys_views := composed v w # sys_views s\<rparr>)"
  by (auto simp: adm_inv_def view_ok_def composed_distinct composed_set)

lemma adm_inv_admit:
  assumes inv: "adm_inv s" and v: "v \<in> set (sys_views s)"
    and adm: "try_admit (sys_store s) v w = Some (store', p)"
  shows "adm_inv (s\<lparr>sys_store := store', sys_live := p # sys_live s\<rparr>)"
proof -
  have ok: "view_ok (sys_store s) v" using inv v by (simp add: adm_inv_def)
  have st: "store' = update_at (adm_take w) v (sys_store s)"
    and p: "p = \<lparr>permit_admission = v, permit_workload = w\<rparr>"
    and free: "i \<in> set v \<Longrightarrow> \<not> adm_full w (sys_store s ! i)" for i
    using adm by (auto simp: try_admit_def list_ex_iff split: if_splits)
  have nth: "i < length (sys_store s) \<Longrightarrow>
      store' ! i = (if i \<in> set v then adm_take w (sys_store s ! i) else sys_store s ! i)" for i
    using ok by (simp add: st view_ok_def update_at_nth)
  show ?thesis
    using inv ok free
    by (auto simp: adm_inv_def st p nth [unfolded st] permits_Cons adm_take_counts adm_take_ok view_ok_def)
qed

lemma adm_inv_drop:
  assumes inv: "adm_inv s" and p: "p \<in> set (sys_live s)"
  shows "adm_inv (s\<lparr>sys_store := drop_permit p (sys_store s), sys_live := remove1 p (sys_live s)\<rparr>)"
proof -
  let ?w = "permit_workload p" and ?v = "permit_admission p"
  have ok: "view_ok (sys_store s) ?v" using inv p by (simp add: adm_inv_def)
  have nth: "i < length (sys_store s) \<Longrightarrow> drop_permit p (sys_store s) ! i =
      (if i \<in> set ?v then adm_give ?w (sys_store s ! i) else sys_store s ! i)" for i
    using ok by (simp add: drop_permit_def view_ok_def update_at_nth)
  have len: "length (drop_permit p (sys_store s)) = length (sys_store s)"
    by (simp add: drop_permit_def)
  have state: "adm_state_ok (drop_permit p (sys_store s) ! i) \<and>
      voice_work (drop_permit p (sys_store s) ! i) = voice_permits i (remove1 p (sys_live s)) \<and>
      diagnostic_work (drop_permit p (sys_store s) ! i) = other_permits i (remove1 p (sys_live s))"
    if i: "i < length (sys_store s)" for i
  proof -
    have "voice_work (sys_store s ! i) = voice_permits i (p # remove1 p (sys_live s))"
        "diagnostic_work (sys_store s ! i) = other_permits i (p # remove1 p (sys_live s))"
        "adm_state_ok (sys_store s ! i)"
      using inv i permits_remove1 [OF p, of i] by (auto simp: adm_inv_def)
    then show ?thesis
      using i by (auto simp: nth permits_Cons adm_give_counts intro!: adm_give_ok)
  qed
  show ?thesis
    using inv state
    by (auto simp: adm_inv_def len view_ok_def dest: notin_set_remove1 set_remove1_subset [THEN subsetD])
qed

lemma adm_inv_step: "adm_inv s \<Longrightarrow> adm_step s t \<Longrightarrow> adm_inv t"
  by (erule adm_step.cases)
    (auto intro: adm_inv_create adm_inv_compose adm_inv_admit adm_inv_drop)

interpretation adm: step_system adm_sys_init adm_step adm_inv
  by unfold_locales (auto intro: adm_inv_init adm_inv_step)

section \<open>The pilot system\<close>

record pilot_sys =
  ps_pilot :: pilot
  ps_live :: "pilot_work list"

definition pilot_sys_init :: "pilot_sys \<Rightarrow> bool" where
  "pilot_sys_init s = (\<exists>b. s = \<lparr>ps_pilot = pilot_new b, ps_live = []\<rparr>)"

inductive pilot_step :: "pilot_sys \<Rightarrow> pilot_sys \<Rightarrow> bool" where
  pilot_take: "pilot_try_admit w (ps_pilot s) = Some p \<Longrightarrow>
     pilot_step s \<lparr>ps_pilot = p, ps_live = w # ps_live s\<rparr>"
| pilot_give: "w \<in> set (ps_live s) \<Longrightarrow>
     pilot_step s \<lparr>ps_pilot = pilot_drop w (ps_pilot s), ps_live = remove1 w (ps_live s)\<rparr>"

definition pilot_flag :: "pilot_work \<Rightarrow> pilot \<Rightarrow> bool" where
  "pilot_flag w p = (case w of PilotVoice \<Rightarrow> pilot_voice p
                             | PilotEnrollment \<Rightarrow> pilot_enrollment p | PilotCold \<Rightarrow> pilot_cold p)"

definition pilot_inv :: "pilot_sys \<Rightarrow> bool" where
  "pilot_inv s =
     (pilot_enabled (ps_pilot s) \<longrightarrow>
        distinct (ps_live s) \<and>
        (\<forall>w. pilot_flag w (ps_pilot s) \<longleftrightarrow> w \<in> set (ps_live s)) \<and>
        (PilotCold \<in> set (ps_live s) \<longrightarrow> ps_live s = [PilotCold]))"

lemma pilot_flag_mark:
  "pilot_flag v (pilot_mark b w p) = (if v = w then b else pilot_flag v p)"
  by (cases v; cases w) (auto simp: pilot_flag_def pilot_mark_def)

lemma pilot_enabled_mark [simp]: "pilot_enabled (pilot_mark b w p) = pilot_enabled p"
  by (cases w) (auto simp: pilot_mark_def)

lemma pilot_busy_flag:
  "pilot_busy p w =
     (pilot_flag PilotCold p \<or> (if w = PilotCold then pilot_flag PilotVoice p \<or> pilot_flag PilotEnrollment p
                                else pilot_flag w p))"
  by (cases w) (auto simp: pilot_busy_def pilot_flag_def)

lemma pilot_inv_init: "pilot_sys_init s \<Longrightarrow> pilot_inv s"
  by (auto simp: pilot_sys_init_def pilot_inv_def pilot_new_def pilot_flag_def split: pilot_work.splits)

lemma pilot_inv_step: "pilot_inv s \<Longrightarrow> pilot_step s t \<Longrightarrow> pilot_inv t"
proof (erule pilot_step.cases)
  fix w s' p
  assume "pilot_inv s" and "s = s'" and t: "t = \<lparr>ps_pilot = p, ps_live = w # ps_live s'\<rparr>"
    and adm: "pilot_try_admit w (ps_pilot s') = Some p"
  then have inv: "pilot_inv s'" by simp
  show "pilot_inv t"
  proof (cases "pilot_enabled (ps_pilot s')")
    case False
    with adm show ?thesis by (auto simp: t pilot_inv_def pilot_try_admit_def)
  next
    case True
    with adm have nb: "\<not> pilot_busy (ps_pilot s') w" and p: "p = pilot_mark True w (ps_pilot s')"
      by (auto simp: pilot_try_admit_def split: if_splits)
    from inv True have d: "distinct (ps_live s')"
      and fl: "\<And>v. pilot_flag v (ps_pilot s') \<longleftrightarrow> v \<in> set (ps_live s')"
      by (auto simp: pilot_inv_def)
    from nb fl have new: "w \<notin> set (ps_live s')" and cold: "PilotCold \<notin> set (ps_live s')"
      by (auto simp: pilot_busy_flag split: if_splits)
    have "ps_live s' = []" if "w = PilotCold"
    proof -
      have "v \<notin> set (ps_live s')" for v
        using nb fl that by (cases v) (auto simp: pilot_busy_flag)
      then show ?thesis by (cases "ps_live s'") auto
    qed
    with d fl new cold show ?thesis
      by (auto simp: t p pilot_inv_def pilot_flag_mark)
  qed
next
  fix w s'
  assume "pilot_inv s" and "s = s'" and w: "w \<in> set (ps_live s')"
    and t: "t = \<lparr>ps_pilot = pilot_drop w (ps_pilot s'), ps_live = remove1 w (ps_live s')\<rparr>"
  then have inv: "pilot_inv s'" by simp
  show "pilot_inv t"
    using inv w
    by (auto simp: t pilot_inv_def pilot_drop_def pilot_flag_mark split: if_splits
        dest: notin_set_remove1)
qed

interpretation pil: step_system pilot_sys_init pilot_step pilot_inv
  by unfold_locales (auto intro: pilot_inv_init pilot_inv_step)

section \<open>Properties of admission control\<close>

text \<open>
  However turns are started and finished, the number of turn permits that are alive is
  exactly the limiter's active count and never exceeds the capacity it was created with, and
  the release in \<open>Drop\<close> never wraps.
\<close>

lemma turn_permits_exact:
  assumes "limiter_new n = Some l"
    and "pool_run limiter_try_acquire limiter_release ops (l, 0) = (l', live)"
  shows "tl_active l' = live \<and> live \<le> n \<and> tl_capacity l' = n"
proof -
  have l: "tl_active l = 0" "tl_capacity l = n"
    using assms(1) by (auto simp: limiter_new_def split: if_splits)
  have "tl_active l' = live + 0 \<and> tl_capacity l' = tl_capacity l"
    by (rule turn_pool.run_exact [OF assms(2)]) (simp add: l)
  moreover have "tl_active l' \<le> tl_capacity l'"
    by (rule turn_pool.run_bounded [OF assms(2)]) (simp_all add: l)
  ultimately show ?thesis using l by simp
qed

text \<open>
  C28: In every reachable state of the provider admission, for each underlying capacity: the
  counters are the numbers of live Voice and non-Voice permits on it, so they never underflow on
  a drop; the work in flight never exceeds the slots; and on a capacity of more than one slot
  diagnostic and background work never eats into the slots reserved for Voice. A capacity of a
  single slot is the exception the code makes (\<open>admission/mod.rs\<close>): a diagnostic may take that
  slot although it is reserved, and then no Voice work runs beside it.
\<close>

theorem provider_capacity_respected:
  assumes "reach adm_sys_init adm_step s" and "i < length (sys_store s)"
  shows "voice_work (sys_store s ! i) = voice_permits i (sys_live s) \<and>
    diagnostic_work (sys_store s ! i) = other_permits i (sys_live s) \<and>
    adm_used (sys_store s ! i) \<le> total_slots (sys_store s ! i) \<and>
    (total_slots (sys_store s ! i) = 1 \<or>
     diagnostic_work (sys_store s ! i) + reserved_voice (sys_store s ! i) \<le> total_slots (sys_store s ! i)) \<and>
    (total_slots (sys_store s ! i) = 1 \<and> 0 < diagnostic_work (sys_store s ! i) \<longrightarrow> voice_permits i (sys_live s) = 0)"
  using adm.reach_inv [OF assms(1)] assms(2) by (auto simp: adm_inv_def adm_state_ok_def adm_used_def)

text \<open>A capacity of three slots, one of them reserved, with a Voice and a background permit alive.\<close>

definition sample_permits :: adm_sys where
  "sample_permits =
     \<lparr>sys_store = [\<lparr>total_slots = 3, reserved_voice = 1, voice_work = 1, diagnostic_work = 1, idle_epoch = 0\<rparr>],
      sys_views = [[0]],
      sys_live = [\<lparr>permit_admission = [0], permit_workload = Background\<rparr>,
                  \<lparr>permit_admission = [0], permit_workload = Voice\<rparr>]\<rparr>"

lemma reach_sample_permits: "reach adm_sys_init adm_step sample_permits"
proof -
  let ?st = "\<lambda>v d. \<lparr>total_slots = 3, reserved_voice = 1, voice_work = v, diagnostic_work = d, idle_epoch = 0\<rparr>"
  let ?v = "\<lparr>permit_admission = [0], permit_workload = Voice\<rparr>"
  let ?s = "\<lparr>sys_store = [], sys_views = [], sys_live = []\<rparr>"
  let ?s1 = "\<lparr>sys_store = [?st 0 0], sys_views = [[0]], sys_live = []\<rparr>"
  let ?s2 = "\<lparr>sys_store = [?st 1 0], sys_views = [[0]], sys_live = [?v]\<rparr>"
  have "reach adm_sys_init adm_step ?s" by (rule reach_init) (simp add: adm_sys_init_def)
  then have "reach adm_sys_init adm_step ?s1"
    by (rule reach_step) (use adm_create [of 3 1 ?s "[?st 0 0]" "[0]"] in \<open>simp add: admission_new_def\<close>)
  then have "reach adm_sys_init adm_step ?s2"
    by (rule reach_step) (use adm_admit [of "[0]" ?s1 Voice "[?st 1 0]" ?v] in
      \<open>simp add: try_admit_def adm_full_def adm_used_def update_at_def adm_take_def\<close>)
  then show ?thesis unfolding sample_permits_def
    by (rule reach_step) (use adm_admit [of "[0]" ?s2 Background "[?st 1 1]" "\<lparr>permit_admission = [0], permit_workload = Background\<rparr>"] in
      \<open>simp add: try_admit_def adm_full_def adm_used_def update_at_def adm_take_def\<close>)
qed

lemma provider_capacity_respected_witness:
  "voice_work (sys_store sample_permits ! 0) = 1 \<and> voice_permits 0 (sys_live sample_permits) = 1 \<and>
    other_permits 0 (sys_live sample_permits) = 1 \<and>
    diagnostic_work (sys_store sample_permits ! 0) + reserved_voice (sys_store sample_permits ! 0) \<le> 3"
  using provider_capacity_respected [OF reach_sample_permits, of 0] by (simp add: sample_permits_def)

text \<open>
  The Voice reservation is a promise: on a capacity of more than one slot, as long as fewer
  Voice permits than the reservation are alive, a Voice turn is admitted whatever diagnostic
  and background work is running.
\<close>

lemma voice_reservation_kept:
  assumes "reach adm_sys_init adm_step s" and "i < length (sys_store s)"
    and "total_slots (sys_store s ! i) \<noteq> 1"
    and "voice_permits i (sys_live s) < reserved_voice (sys_store s ! i)"
  shows "\<exists>store' p. try_admit (sys_store s) [i] Voice = Some (store', p)"
proof -
  have inv: "adm_inv s" by (rule adm.reach_inv [OF assms(1)])
  then have "adm_state_ok (sys_store s ! i)"
      "voice_work (sys_store s ! i) < reserved_voice (sys_store s ! i)"
    using assms(2,4) by (auto simp: adm_inv_def)
  then have "\<not> adm_full Voice (sys_store s ! i)"
    using assms(3) by (auto simp: adm_state_ok_def adm_full_def adm_used_def)
  then show ?thesis by (simp add: try_admit_def)
qed

text \<open>
  In a pilot deployment a cold start runs alone: whatever sequence of admissions and drops
  happened, a live cold permit is the only live permit, and each kind of work is admitted at
  most once at a time.
\<close>

lemma pilot_cold_exclusive:
  assumes "reach pilot_sys_init pilot_step s" and "pilot_enabled (ps_pilot s)"
  shows "distinct (ps_live s) \<and> (PilotCold \<in> set (ps_live s) \<longrightarrow> ps_live s = [PilotCold])"
  using pil.reach_inv [OF assms(1)] assms(2) by (simp add: pilot_inv_def)

text \<open>
  After any sequence of invalidations, from any number of owners and in any order, the gate
  admits a generation exactly when it is newer than every invalidated one (generations start
  at 1, so a fresh gate admits all of them).
\<close>

lemma gate_admits_iff_newer:
  "gate_admits (fold gate_invalidate gs gate_new) g \<longleftrightarrow> 0 < g \<and> (\<forall>g'\<in>set gs. g' < g)"
  by (simp add: gate_admits_def fold_invalidate gate_new_def)

end
