(* ===== verification/Lifecycle.thy ===== *)
theory Lifecycle
  imports Prelude
begin

text \<open>
  The application lifecycle of \<open>lifecycle.rs\<close>: readiness, the admission gate, the drain
  registry with one completion handle per Voice Session, and the ordered shutdown. Time is a
  natural number of milliseconds. What happens while shutdown waits (sessions that finish or
  register, the archive that settles) is an argument of the model: a list of timed events and
  a predicate on instants.
\<close>

section \<open>Readiness\<close>

datatype readiness =
    ReadinessReady | ReadinessShuttingDown | StartupIncomplete
  | RequiredRuntimeUnavailable | DatabaseUnreachable

fun readiness_as_str :: "readiness \<Rightarrow> string" where
  "readiness_as_str ReadinessReady = ''ready''"
| "readiness_as_str ReadinessShuttingDown = ''shutting_down''"
| "readiness_as_str StartupIncomplete = ''startup_incomplete''"
| "readiness_as_str RequiredRuntimeUnavailable = ''required_runtime_unavailable''"
| "readiness_as_str DatabaseUnreachable = ''database_unreachable''"

definition readiness_is_ready :: "readiness \<Rightarrow> bool" where
  "readiness_is_ready r = (case r of ReadinessReady \<Rightarrow> True | _ \<Rightarrow> False)"

section \<open>The admission gate\<close>

record admission_gate =
  gate_open :: bool

definition admission_gate_open :: admission_gate where
  "admission_gate_open = \<lparr>gate_open = True\<rparr>"

text \<open>\<open>close\<close> is an atomic swap: it returns whether this call closed the gate.\<close>

definition admission_gate_close :: "admission_gate \<Rightarrow> bool \<times> admission_gate" where
  "admission_gate_close g = (gate_open g, g\<lparr>gate_open := False\<rparr>)"

section \<open>The drain registry\<close>

text \<open>
  A session's cancellation token is a flag kept with its registration; \<open>dr_active\<close> is the
  value the watch channel was last sent.
\<close>

record drain_registry =
  dr_sessions :: "(u64, bool) hmap"
  dr_next_id :: u64
  dr_active :: usize

definition drain_new :: drain_registry where
  "drain_new = \<lparr>dr_sessions = [], dr_next_id = 1, dr_active = 0\<rparr>"

definition drain_register :: "drain_registry \<Rightarrow> u64 \<times> drain_registry" where
  "drain_register r =
     (let sid = dr_next_id r; sessions = hm_insert sid False (dr_sessions r)
      in (sid, r\<lparr>dr_sessions := sessions, dr_next_id := sid + 1, dr_active := length sessions\<rparr>))"

definition drain_unregister :: "u64 \<Rightarrow> drain_registry \<Rightarrow> drain_registry" where
  "drain_unregister sid r =
     (if hm_get (dr_sessions r) sid = None then r
      else let sessions = hm_remove sid (dr_sessions r)
           in r\<lparr>dr_sessions := sessions, dr_active := length sessions\<rparr>)"

definition controlled_close_all :: "drain_registry \<Rightarrow> nat \<times> drain_registry" where
  "controlled_close_all r =
     (length (dr_sessions r),
      r\<lparr>dr_sessions := hm_adjust_where (\<lambda>_ _. True) (\<lambda>_. True) (dr_sessions r)\<rparr>)"

section \<open>The ordered shutdown\<close>

datatype drain_outcome = Drained | DeadlineReached nat

record shutdown_report =
  provider_resources_drained :: "bool option"
  sr_outcome :: drain_outcome
  controlled_closes :: nat
  history_flushed :: bool

record runtime_lifecycle =
  rl_gate :: admission_gate
  rl_drain :: drain_registry
  rl_listening_cancelled :: bool
  rl_stopping_cancelled :: bool
  rl_manager_closed :: bool
  rl_grace :: nat
  rl_shutdown_drops :: nat

definition lifecycle_new :: "nat \<Rightarrow> runtime_lifecycle" where
  "lifecycle_new grace =
     \<lparr>rl_gate = admission_gate_open, rl_drain = drain_new, rl_listening_cancelled = False,
      rl_stopping_cancelled = False, rl_manager_closed = False, rl_grace = grace,
      rl_shutdown_drops = 0\<rparr>"

text \<open>
  \<open>begin_shutdown\<close>: stop listening, close the gate, and close the provider runtime manager
  when one is registered and alive.
\<close>

definition begin_shutdown :: "bool \<Rightarrow> runtime_lifecycle \<Rightarrow> bool \<times> runtime_lifecycle" where
  "begin_shutdown has_manager l =
     (let (closed, g) = admission_gate_close (rl_gate l)
      in (closed, l\<lparr>rl_gate := g, rl_listening_cancelled := True,
                    rl_manager_closed := (rl_manager_closed l \<or> has_manager)\<rparr>))"

text \<open>What sessions do while the drain waits.\<close>

datatype drain_event = SessionRegistered | SessionFinished u64

fun apply_drain_event :: "drain_event \<Rightarrow> drain_registry \<Rightarrow> drain_registry" where
  "apply_drain_event SessionRegistered r = snd (drain_register r)"
| "apply_drain_event (SessionFinished sid) r = drain_unregister sid r"

text \<open>
  \<open>drain_until\<close> returns at once on an empty registry, otherwise when the count first reaches
  zero or at the deadline, where it reads the count once more.
\<close>

fun drain_until :: "instant \<Rightarrow> (instant \<times> drain_event) list \<Rightarrow> drain_registry \<Rightarrow>
    drain_outcome \<times> drain_registry" where
  "drain_until deadline [] r =
     (if dr_active r = 0 then (Drained, r) else (DeadlineReached (dr_active r), r))"
| "drain_until deadline ((t, e) # es) r =
     (if dr_active r = 0 then (Drained, r)
      else if deadline \<le> t then (DeadlineReached (dr_active r), r)
      else drain_until deadline es (apply_drain_event e r))"

text \<open>
  \<open>flush_until\<close> re-reads the archive's counters every \<open>HISTORY_FLUSH_POLL\<close> milliseconds. It
  returns the answer and the instant of the last read.
\<close>

definition HISTORY_FLUSH_POLL :: nat where
  "HISTORY_FLUSH_POLL = 20"

function flush_until :: "instant \<Rightarrow> (instant \<Rightarrow> bool) \<Rightarrow> instant \<Rightarrow> bool \<times> instant" where
  "flush_until deadline settled now =
     (if settled now then (True, now)
      else if deadline \<le> now then (False, now)
      else flush_until deadline settled (now + min HISTORY_FLUSH_POLL (deadline - now)))"
  by pat_completeness auto
termination
  by (relation "measure (\<lambda>(deadline, settled, now). deadline - now)")
    (auto simp: HISTORY_FLUSH_POLL_def)

declare flush_until.simps [simp del]

text \<open>
  The whole shutdown: \<open>history\<close> is the archive's settle predicate when a writer was started,
  \<open>manager\<close> the answer of the provider runtime's own \<open>shutdown_until\<close> when one is alive, and
  \<open>drain_end\<close> the instant at which the drain returned.
\<close>

definition lifecycle_shutdown ::
    "instant \<Rightarrow> (instant \<times> drain_event) list \<Rightarrow> instant \<Rightarrow> (instant \<Rightarrow> bool) option \<Rightarrow>
     (instant \<Rightarrow> bool) option \<Rightarrow> runtime_lifecycle \<Rightarrow> shutdown_report \<times> runtime_lifecycle" where
  "lifecycle_shutdown now events drain_end history manager l =
     (let l1 = snd (begin_shutdown (manager \<noteq> None) l);
          deadline = now + rl_grace l1;
          (outcome, drain1) = drain_until deadline events (rl_drain l1);
          (closes, drain2) = (case outcome of Drained \<Rightarrow> (0, drain1)
                                | DeadlineReached _ \<Rightarrow> controlled_close_all drain1);
          flushed = (case history of None \<Rightarrow> True
                       | Some settled \<Rightarrow> fst (flush_until deadline settled drain_end));
          drops = (if flushed then rl_shutdown_drops l1 else rl_shutdown_drops l1 + 1);
          drained = map_option (\<lambda>f. f deadline) manager
      in (\<lparr>provider_resources_drained = drained, sr_outcome = outcome,
           controlled_closes = closes, history_flushed = flushed\<rparr>,
          l1\<lparr>rl_drain := drain2, rl_stopping_cancelled := True, rl_shutdown_drops := drops\<rparr>))"

section \<open>Facts about the registry\<close>

definition drain_inv :: "drain_registry \<Rightarrow> bool" where
  "drain_inv r =
     (hm_wf (dr_sessions r) \<and> dr_active r = length (dr_sessions r) \<and>
      (\<forall>sid\<in>set (map fst (dr_sessions r)). sid < dr_next_id r))"

lemma drain_inv_new [simp]: "drain_inv drain_new"
  by (simp add: drain_inv_def drain_new_def)

lemma drain_fresh: "drain_inv r \<Longrightarrow> hm_get (dr_sessions r) (dr_next_id r) = None"
  by (force simp: drain_inv_def hm_get_None_iff)

lemma drain_register_sessions:
  "drain_inv r \<Longrightarrow> dr_sessions (snd (drain_register r)) = (dr_next_id r, False) # dr_sessions r"
  by (simp add: drain_register_def Let_def hm_insert_absent drain_fresh)

lemma drain_inv_register: "drain_inv r \<Longrightarrow> drain_inv (snd (drain_register r))"
  using drain_fresh [of r]
  by (auto simp: drain_inv_def drain_register_def Let_def hm_insert_absent hm_wf_def hm_get_None_iff)

lemma drain_inv_unregister: "drain_inv r \<Longrightarrow> drain_inv (drain_unregister sid r)"
  by (auto simp: drain_inv_def drain_unregister_def Let_def hm_remove_def)

lemma drain_inv_event: "drain_inv r \<Longrightarrow> drain_inv (apply_drain_event e r)"
  by (cases e) (auto intro: drain_inv_register drain_inv_unregister)

lemma drain_inv_until: "drain_inv r \<Longrightarrow> drain_inv (snd (drain_until d es r))"
  by (induction d es r rule: drain_until.induct) (auto intro: drain_inv_event)

text \<open>The registry as a system: sessions register, and each finishes once.\<close>

inductive drain_step :: "drain_registry \<Rightarrow> drain_registry \<Rightarrow> bool" where
  step_event: "drain_step r (apply_drain_event e r)"
| step_close: "drain_step r (snd (controlled_close_all r))"

lemma drain_inv_close: "drain_inv r \<Longrightarrow> drain_inv (snd (controlled_close_all r))"
  by (auto simp: drain_inv_def controlled_close_all_def set_adjust_where)

interpretation drain: step_system "\<lambda>r. r = drain_new" drain_step drain_inv
  by unfold_locales (auto elim!: drain_step.cases intro: drain_inv_event drain_inv_close)

lemma drain_until_outcome:
  "drain_until d es r = (Drained, r') \<Longrightarrow> dr_active r' = 0"
  "drain_until d es r = (DeadlineReached n, r') \<Longrightarrow> dr_active r' = n \<and> 0 < n"
  by (induction d es r rule: drain_until.induct) (auto split: if_splits)

lemma flush_until_bound:
  "now \<le> deadline \<Longrightarrow> snd (flush_until deadline settled now) \<le> deadline"
proof (induction deadline settled now rule: flush_until.induct)
  case (1 deadline settled now)
  show ?case
  proof (cases "settled now \<or> deadline \<le> now")
    case True
    then show ?thesis using "1.prems" by (subst flush_until.simps) auto
  next
    case False
    then have "snd (flush_until deadline settled (now + min HISTORY_FLUSH_POLL (deadline - now))) \<le> deadline"
      by (intro "1.IH") auto
    with False show ?thesis by (subst flush_until.simps) auto
  qed
qed

lemma flush_until_answer:
  "flush_until deadline settled now = (b, t) \<Longrightarrow> b = settled t \<and> now \<le> t \<and> (\<not> b \<longrightarrow> deadline \<le> t)"
proof (induction deadline settled now rule: flush_until.induct)
  case (1 deadline settled now)
  show ?case
  proof (cases "settled now \<or> deadline \<le> now")
    case True
    then show ?thesis using "1.prems" by (subst (asm) flush_until.simps) (auto split: if_splits)
  next
    case False
    then have "flush_until deadline settled (now + min HISTORY_FLUSH_POLL (deadline - now)) = (b, t)"
      using "1.prems" by (subst (asm) flush_until.simps) (auto split: if_splits)
    with False "1.IH" show ?thesis by auto
  qed
qed

section \<open>Properties of the lifecycle\<close>

text \<open>
  After \<open>shutdown\<close> the admission gate is closed and both cancellation tokens have fired;
  when the deadline was reached, every session still registered was sent exactly one controlled
  close and the report counts them; when the sessions drained, none is left and none was closed.
\<close>

lemma shutdown_accounts_for_sessions:
  assumes "drain_inv (rl_drain l)"
    and "lifecycle_shutdown now events t history manager l = (report, l')"
  shows "\<not> gate_open (rl_gate l') \<and> rl_listening_cancelled l' \<and> rl_stopping_cancelled l' \<and>
    (case sr_outcome report of
       Drained \<Rightarrow> dr_sessions (rl_drain l') = [] \<and> controlled_closes report = 0
     | DeadlineReached n \<Rightarrow> 0 < n \<and> controlled_closes report = n \<and>
         length (dr_sessions (rl_drain l')) = n \<and> (\<forall>(sid, cancelled)\<in>set (dr_sessions (rl_drain l')). cancelled))"
proof -
  obtain outcome d where run: "drain_until (now + rl_grace l) events (rl_drain l) = (outcome, d)"
    by (metis prod.collapse)
  have inv: "drain_inv d" using drain_inv_until [OF assms(1), of "now + rl_grace l" events] run by simp
  have report: "report = fst (lifecycle_shutdown now events t history manager l)"
    and l': "l' = snd (lifecycle_shutdown now events t history manager l)"
    using assms(2) by simp_all
  have state: "rl_gate l' = \<lparr>gate_open = False\<rparr>" "rl_listening_cancelled l'" "rl_stopping_cancelled l'"
      "sr_outcome report = outcome"
      "controlled_closes report = (case outcome of Drained \<Rightarrow> 0 | DeadlineReached _ \<Rightarrow> length (dr_sessions d))"
      "rl_drain l' = (case outcome of Drained \<Rightarrow> d | DeadlineReached _ \<Rightarrow> snd (controlled_close_all d))"
    unfolding report l'
    by (simp_all add: lifecycle_shutdown_def begin_shutdown_def admission_gate_close_def Let_def run
        controlled_close_all_def split: drain_outcome.splits)
  show ?thesis
  proof (cases outcome)
    case Drained
    with drain_until_outcome(1) run inv have "dr_sessions d = []" by (fastforce simp: drain_inv_def)
    with state Drained show ?thesis by simp
  next
    case (DeadlineReached n)
    with drain_until_outcome(2) run inv have "length (dr_sessions d) = n" "0 < n"
      by (fastforce simp: drain_inv_def)+
    with state DeadlineReached show ?thesis
      by (auto simp: controlled_close_all_def set_adjust_where)
  qed
qed

text \<open>
  The wait for the history archive is bounded and truthful: started before the deadline it
  reads the counters for the last time no later than the deadline, it reports that the archive
  settled exactly when it had at that last read, and it gives up only at the deadline.
\<close>

lemma history_flush_bounded_and_truthful:
  assumes "now \<le> deadline" and "flush_until deadline settled now = (flushed, t)"
  shows "now \<le> t \<and> t \<le> deadline \<and> flushed = settled t \<and> (\<not> flushed \<longrightarrow> t = deadline)"
  using flush_until_bound [OF assms(1), of settled] flush_until_answer [OF assms(2)] assms(2) by auto

text \<open>
  In every reachable state of the drain registry the count the watch channel publishes is
  the number of registered sessions, their ids are distinct, and a new registration gets an id
  no live session has.
\<close>

lemma drain_registry_exact:
  assumes "reach (\<lambda>r. r = drain_new) drain_step r"
  shows "dr_active r = length (dr_sessions r) \<and> distinct (map fst (dr_sessions r)) \<and>
    fst (drain_register r) \<notin> set (map fst (dr_sessions r)) \<and>
    dr_active (snd (drain_register r)) = dr_active r + 1"
proof -
  have inv: "drain_inv r" by (rule drain.reach_inv [OF assms])
  from drain_register_sessions [OF inv] drain_inv_register [OF inv]
  have "dr_active (snd (drain_register r)) = Suc (length (dr_sessions r))"
    by (simp add: drain_inv_def)
  with inv show ?thesis
    by (force simp: drain_inv_def hm_wf_def drain_register_def Let_def)
qed

end
