(* ===== verification/Text.thy ===== *)
theory Text
  imports Prelude
begin

text \<open>
  Rust text. A \<open>char\<close> is a Unicode scalar value, written as a natural number, and a \<open>String\<close>
  is a list of them; \<open>byte_len\<close> is \<open>str::len\<close>, the length of the UTF-8 encoding. \<open>lit\<close> reads
  an ASCII literal of the source. The Unicode property tables that have a short definition
  (white space, control characters) are written out; \<open>char::is_alphanumeric\<close>, whose table
  grows with every Unicode release, is an argument of the definitions that use it.
\<close>

type_synonym rchar = nat
type_synonym rstr = "rchar list"

definition lit :: "string \<Rightarrow> rstr" where
  "lit s = map of_char s"

definition chr :: "char \<Rightarrow> rchar" where
  "chr c = of_char c"

definition len_utf8 :: "rchar \<Rightarrow> nat" where
  "len_utf8 c = (if c < 128 then 1 else if c < 2048 then 2 else if c < 65536 then 3 else 4)"

definition byte_len :: "rstr \<Rightarrow> nat" where
  "byte_len s = sum_list (map len_utf8 s)"

definition is_whitespace :: "rchar \<Rightarrow> bool" where
  "is_whitespace c =
     ((9 \<le> c \<and> c \<le> 13) \<or> c = 32 \<or> c = 133 \<or> c = 160 \<or> c = 5760 \<or> (8192 \<le> c \<and> c \<le> 8202) \<or>
      c = 8232 \<or> c = 8233 \<or> c = 8239 \<or> c = 8287 \<or> c = 12288)"

definition is_control :: "rchar \<Rightarrow> bool" where
  "is_control c = (c < 32 \<or> (127 \<le> c \<and> c < 160))"

definition is_ascii_digit :: "rchar \<Rightarrow> bool" where
  "is_ascii_digit c = (48 \<le> c \<and> c \<le> 57)"

definition is_ascii_alphanumeric :: "rchar \<Rightarrow> bool" where
  "is_ascii_alphanumeric c = (is_ascii_digit c \<or> (65 \<le> c \<and> c \<le> 90) \<or> (97 \<le> c \<and> c \<le> 122))"

definition is_ascii_punctuation :: "rchar \<Rightarrow> bool" where
  "is_ascii_punctuation c =
     ((33 \<le> c \<and> c \<le> 47) \<or> (58 \<le> c \<and> c \<le> 64) \<or> (91 \<le> c \<and> c \<le> 96) \<or> (123 \<le> c \<and> c \<le> 126))"

definition trim_start_by :: "(rchar \<Rightarrow> bool) \<Rightarrow> rstr \<Rightarrow> rstr" where
  "trim_start_by p s = dropWhile p s"

definition trim_end_by :: "(rchar \<Rightarrow> bool) \<Rightarrow> rstr \<Rightarrow> rstr" where
  "trim_end_by p s = rev (dropWhile p (rev s))"

definition trim_by :: "(rchar \<Rightarrow> bool) \<Rightarrow> rstr \<Rightarrow> rstr" where
  "trim_by p s = trim_end_by p (trim_start_by p s)"

definition trim :: "rstr \<Rightarrow> rstr" where
  "trim s = trim_by is_whitespace s"

fun starts_with :: "rstr \<Rightarrow> rstr \<Rightarrow> bool" where
  "starts_with [] s = True"
| "starts_with (p # ps) [] = False"
| "starts_with (p # ps) (c # cs) = (p = c \<and> starts_with ps cs)"

definition ends_with :: "rstr \<Rightarrow> rstr \<Rightarrow> bool" where
  "ends_with p s = starts_with (rev p) (rev s)"

text \<open>\<open>str::find\<close> gives the text before the first match and the text after it.\<close>

fun split_at_first :: "rstr \<Rightarrow> rstr \<Rightarrow> (rstr \<times> rstr) option" where
  "split_at_first pat [] = (if pat = [] then Some ([], []) else None)"
| "split_at_first pat (c # cs) =
     (if starts_with pat (c # cs) then Some ([], drop (length pat) (c # cs))
      else map_option (\<lambda>(a, b). (c # a, b)) (split_at_first pat cs))"

definition contains_str :: "rstr \<Rightarrow> rstr \<Rightarrow> bool" where
  "contains_str pat s = (split_at_first pat s \<noteq> None)"

lemma byte_len_Nil [simp]: "byte_len [] = 0"
  by (simp add: byte_len_def)

lemma byte_len_Cons [simp]: "byte_len (c # s) = len_utf8 c + byte_len s"
  by (simp add: byte_len_def)

lemma byte_len_append [simp]: "byte_len (s @ t) = byte_len s + byte_len t"
  by (simp add: byte_len_def)

lemma len_utf8_pos [simp]: "0 < len_utf8 c"
  by (simp add: len_utf8_def)

lemma len_utf8_bounds: "1 \<le> len_utf8 c \<and> len_utf8 c \<le> 4"
  by (simp add: len_utf8_def)

lemma length_le_byte_len: "length s \<le> byte_len s"
  by (induction s) (auto simp: len_utf8_def)

lemma byte_len_le: "byte_len s \<le> 4 * length s"
proof (induction s)
  case (Cons c s)
  have "len_utf8 c \<le> 4" by (simp add: len_utf8_def)
  with Cons show ?case by simp
qed simp

lemma byte_len_eq_0 [simp]: "byte_len s = 0 \<longleftrightarrow> s = []"
  using length_le_byte_len [of s] by (cases s) auto

lemma starts_with_iff: "starts_with p s \<longleftrightarrow> (\<exists>t. s = p @ t)"
  by (induction p s rule: starts_with.induct) auto

lemma split_at_first_Some:
  "split_at_first pat s = Some (a, b) \<Longrightarrow> s = a @ pat @ b"
proof (induction pat s arbitrary: a rule: split_at_first.induct)
  case (2 pat c cs)
  show ?case
  proof (cases "starts_with pat (c # cs)")
    case True
    then obtain t where "c # cs = pat @ t" by (auto simp: starts_with_iff)
    then have "drop (length pat) (c # cs) = t" by simp
    with True 2 have "a = []" "b = t" by auto
    with \<open>c # cs = pat @ t\<close> show ?thesis by simp
  next
    case False
    with 2 show ?thesis by auto
  qed
qed (auto split: if_splits)

lemma split_at_first_length:
  "split_at_first pat s = Some (a, b) \<Longrightarrow> length b + length pat \<le> length s"
  by (drule split_at_first_Some) simp

lemma split_at_first_None_append:
  "split_at_first pat (a @ pat @ b) \<noteq> None"
proof (induction a)
  case Nil
  have "starts_with pat (pat @ b)" by (auto simp: starts_with_iff)
  then show ?case by (cases "pat @ b") auto
next
  case (Cons c a)
  then show ?case by auto
qed

lemma contains_str_iff: "contains_str pat s \<longleftrightarrow> (\<exists>a b. s = a @ pat @ b)"
proof
  assume "contains_str pat s"
  then show "\<exists>a b. s = a @ pat @ b"
    unfolding contains_str_def using split_at_first_Some by fastforce
next
  assume "\<exists>a b. s = a @ pat @ b"
  then show "contains_str pat s"
    unfolding contains_str_def using split_at_first_None_append by blast
qed

lemma set_trim_by: "set (trim_by p s) \<subseteq> set s"
  unfolding trim_by_def trim_end_by_def trim_start_by_def
  by (auto dest!: set_dropWhileD)

lemma trim_by_Nil [simp]: "trim_by p [] = []"
  by (simp add: trim_by_def trim_end_by_def trim_start_by_def)

lemma trim_Nil [simp]: "trim [] = []"
  by (simp add: trim_def)

lemma dropWhile_all_iff: "(\<forall>c\<in>set (dropWhile p s). p c) \<longleftrightarrow> (\<forall>c\<in>set s. p c)"
  by (metis dropWhile_eq_Nil_conv hd_dropWhile hd_in_set set_dropWhileD)

lemma trim_by_empty_iff: "trim_by p s = [] \<longleftrightarrow> (\<forall>c\<in>set s. p c)"
  by (simp add: trim_by_def trim_end_by_def trim_start_by_def dropWhile_eq_Nil_conv dropWhile_all_iff)

lemma trim_empty_iff: "trim s = [] \<longleftrightarrow> (\<forall>c\<in>set s. is_whitespace c)"
  by (simp add: trim_def trim_by_empty_iff)

lemma hd_dropWhile_not: "dropWhile p s \<noteq> [] \<Longrightarrow> \<not> p (hd (dropWhile p s))"
  by (rule hd_dropWhile)

lemma trim_by_ends:
  assumes "trim_by p s \<noteq> []"
  shows "\<not> p (hd (trim_by p s)) \<and> \<not> p (last (trim_by p s))"
proof -
  let ?d = "dropWhile p s"
  let ?e = "dropWhile p (rev ?d)"
  have e: "trim_by p s = rev ?e"
    by (simp add: trim_by_def trim_end_by_def trim_start_by_def)
  with assms have ne: "?e \<noteq> []" by simp
  then have d: "?d \<noteq> []" by (metis dropWhile.simps(1) rev.simps(1))
  have "last ?e = last (rev ?d)"
    using ne by (metis last_appendR takeWhile_dropWhile_id)
  then have "hd (trim_by p s) = hd ?d"
    by (simp add: e hd_rev last_rev)
  moreover have "last (trim_by p s) = hd ?e" by (simp add: e last_rev)
  ultimately show ?thesis using hd_dropWhile [of p] ne d by metis
qed

lemma trim_by_id: "s = [] \<or> (\<not> p (hd s) \<and> \<not> p (last s)) \<Longrightarrow> trim_by p s = s"
proof (cases "s = []")
  case False
  assume "s = [] \<or> (\<not> p (hd s) \<and> \<not> p (last s))"
  with False have h: "\<not> p (hd s)" and l: "\<not> p (hd (rev s))" by (auto simp: hd_rev)
  from h have "dropWhile p s = s" by (cases s) auto
  moreover from l have "dropWhile p (rev s) = rev s" by (cases "rev s") auto
  ultimately show ?thesis by (simp add: trim_by_def trim_end_by_def trim_start_by_def)
qed simp

lemma trim_idem [simp]: "trim (trim s) = trim s"
  unfolding trim_def by (rule trim_by_id) (use trim_by_ends in blast)

end
