(* ===== verification/Json.thy ===== *)
theory Json
  imports Text
begin

text \<open>
  The JSON value of \<open>serde_json\<close> as data, with the accessors the source calls on it. Parsing
  and printing belong to that crate: where a definition needs them they are its arguments.
\<close>

datatype json_number = PosInt nat | NegInt int | JsonFloat nat

datatype json =
    JNull
  | JBool bool
  | JNumber json_number
  | JString rstr
  | JArray "json list"
  | JObject "(rstr \<times> json) list"

text \<open>\<open>Value::get\<close> with a string key: \<open>None\<close> on anything but an object.\<close>

fun json_get :: "json \<Rightarrow> rstr \<Rightarrow> json option" where
  "json_get (JObject kvs) k = hm_get kvs k"
| "json_get _ k = None"

fun as_str :: "json \<Rightarrow> rstr option" where
  "as_str (JString s) = Some s"
| "as_str _ = None"

fun as_bool :: "json \<Rightarrow> bool option" where
  "as_bool (JBool b) = Some b"
| "as_bool _ = None"

fun as_array :: "json \<Rightarrow> json list option" where
  "as_array (JArray vs) = Some vs"
| "as_array _ = None"

fun as_object :: "json \<Rightarrow> (rstr \<times> json) list option" where
  "as_object (JObject kvs) = Some kvs"
| "as_object _ = None"

text \<open>\<open>serde_json\<close> keeps a non-negative integer as \<open>PosInt\<close> and a negative one as \<open>NegInt\<close>.\<close>

fun as_u64 :: "json \<Rightarrow> nat option" where
  "as_u64 (JNumber (PosInt n)) = Some n"
| "as_u64 _ = None"

fun as_i64 :: "json \<Rightarrow> int option" where
  "as_i64 (JNumber (PosInt n)) = (if n < 2 ^ 63 then Some (int n) else None)"
| "as_i64 (JNumber (NegInt i)) = Some i"
| "as_i64 _ = None"

definition get_str :: "json \<Rightarrow> rstr \<Rightarrow> rstr option" where
  "get_str v k = Option.bind (json_get v k) as_str"

end
