(* ===== verification/Dialogue.thy ===== *)
theory Dialogue
  imports Json
begin

text \<open>
  The RAM-only dialogue history of a Voice Session (\<open>session/interaction/turn.rs\<close>): exchanges
  with their completed tool rounds, eviction of whole exchanges and the message list an LLM
  request is built from. The chat vocabulary is the one of \<open>providers/llm/mod.rs\<close>.
\<close>

section \<open>Turn identities\<close>

text \<open>A \<open>NonZeroU64\<close>; \<open>Ord\<close> is derived from the number.\<close>

datatype turn_id = TurnId (turn_num: nat)

definition turn_id_new :: "u64 \<Rightarrow> turn_id option" where
  "turn_id_new v = (if v = 0 then None else Some (TurnId v))"

definition turn_id_get :: "turn_id \<Rightarrow> u64" where
  "turn_id_get t = turn_num t"

instantiation turn_id :: linorder
begin

definition less_eq_turn_id :: "turn_id \<Rightarrow> turn_id \<Rightarrow> bool" where
  "less_eq_turn_id a b = (turn_num a \<le> turn_num b)"

definition less_turn_id :: "turn_id \<Rightarrow> turn_id \<Rightarrow> bool" where
  "less_turn_id a b = (turn_num a < turn_num b)"

instance
  by standard (auto simp: less_eq_turn_id_def less_turn_id_def turn_id.expand)

end

section \<open>Chat messages\<close>

record tool_call =
  call_id :: rstr
  call_name :: rstr
  call_arguments :: json

datatype chat_message =
    System rstr
  | User rstr
  | AssistantText rstr
  | AssistantToolCalls "tool_call list"
  | ToolResult rstr rstr

definition is_tool_result :: "chat_message \<Rightarrow> bool" where
  "is_tool_result m = (case m of ToolResult _ _ \<Rightarrow> True | _ \<Rightarrow> False)"

section \<open>The history\<close>

record completed_round =
  round_calls :: "tool_call list"
  round_results :: "chat_message list"

record dialogue_exchange =
  ex_turn :: turn_id
  ex_user :: chat_message
  ex_rounds :: "completed_round list"
  ex_assistant :: "rstr option"

record dialogue_history =
  exchanges :: "dialogue_exchange list"
  max_messages :: usize
  legacy_messages :: "rstr list"

definition history_new :: "usize \<Rightarrow> dialogue_history" where
  "history_new n = \<lparr>exchanges = [], max_messages = n, legacy_messages = []\<rparr>"

definition exchange_count :: "dialogue_exchange \<Rightarrow> nat" where
  "exchange_count e =
     1 + sum_list (map (\<lambda>r. 1 + length (round_results r)) (ex_rounds e)) +
     (if ex_assistant e = None then 0 else 1)"

definition message_count :: "dialogue_exchange list \<Rightarrow> nat" where
  "message_count es = sum_list (map exchange_count es)"

text \<open>
  The eviction loop on the deque and the legacy list: it stops at the bound, at a single
  exchange, or when the front exchange is the current one.
\<close>

fun evict_loop :: "usize \<Rightarrow> turn_id \<Rightarrow> dialogue_exchange list \<Rightarrow> rstr list \<Rightarrow>
    dialogue_exchange list \<times> rstr list" where
  "evict_loop bound current (e # e' # es) legacy =
     (if bound < message_count (e # e' # es) then
        (if ex_turn e = current then (e # e' # es, legacy)
         else let remove_count = 1 + (if ex_assistant e = None then 0 else 1)
              in evict_loop bound current (e' # es)
                   (drop (min remove_count (length legacy)) legacy))
      else (e # e' # es, legacy))"
| "evict_loop bound current es legacy = (es, legacy)"

definition evict :: "turn_id \<Rightarrow> dialogue_history \<Rightarrow> dialogue_history" where
  "evict current h =
     (let (es, legacy) = evict_loop (max_messages h) current (exchanges h) (legacy_messages h)
      in h\<lparr>exchanges := es, legacy_messages := legacy\<rparr>)"

definition commit_user :: "turn_id \<Rightarrow> rstr \<Rightarrow> dialogue_history \<Rightarrow> dialogue_history" where
  "commit_user turn text h =
     evict turn (h\<lparr>exchanges := exchanges h @
         [\<lparr>ex_turn = turn, ex_user = User text, ex_rounds = [], ex_assistant = None\<rparr>],
       legacy_messages := legacy_messages h @ [text]\<rparr>)"

text \<open>\<open>iter_mut().find(..)\<close>: the first exchange of the turn is changed.\<close>

fun update_exchange :: "turn_id \<Rightarrow> (dialogue_exchange \<Rightarrow> dialogue_exchange) \<Rightarrow>
    dialogue_exchange list \<Rightarrow> dialogue_exchange list option" where
  "update_exchange turn f [] = None"
| "update_exchange turn f (e # es) =
     (if ex_turn e = turn then Some (f e # es)
      else map_option (Cons e) (update_exchange turn f es))"

definition commit_assistant :: "turn_id \<Rightarrow> rstr \<Rightarrow> dialogue_history \<Rightarrow> dialogue_history" where
  "commit_assistant turn text h =
     (case update_exchange turn (\<lambda>e. e\<lparr>ex_assistant := Some text\<rparr>) (exchanges h) of
        None \<Rightarrow> h
      | Some es \<Rightarrow> evict turn (h\<lparr>exchanges := es, legacy_messages := legacy_messages h @ [text]\<rparr>))"

definition append_completed_round :: "turn_id \<Rightarrow> tool_call list \<Rightarrow> chat_message list \<Rightarrow>
    dialogue_history \<Rightarrow> bool \<times> dialogue_history" where
  "append_completed_round turn calls results h =
     (if calls = [] \<or> length calls \<noteq> length results \<or> list_ex (\<lambda>m. \<not> is_tool_result m) results
      then (False, h)
      else case update_exchange turn
             (\<lambda>e. e\<lparr>ex_rounds := ex_rounds e @ [\<lparr>round_calls = calls, round_results = results\<rparr>]\<rparr>)
             (exchanges h) of
             None \<Rightarrow> (False, h)
           | Some es \<Rightarrow> (True, evict turn (h\<lparr>exchanges := es\<rparr>)))"

definition exchange_messages :: "dialogue_exchange \<Rightarrow> chat_message list" where
  "exchange_messages e =
     ex_user e #
     concat (map (\<lambda>r. AssistantToolCalls (round_calls r) # round_results r) (ex_rounds e)) @
     (case ex_assistant e of None \<Rightarrow> [] | Some a \<Rightarrow> [AssistantText a])"

definition messages_for_prompt :: "turn_id \<Rightarrow> dialogue_history \<Rightarrow> chat_message list option" where
  "messages_for_prompt turn h =
     (if exchanges h = [] then None
      else if ex_turn (last (exchanges h)) \<noteq> turn then None
      else Some (concat (map exchange_messages (exchanges h))))"

section \<open>Sequences of operations\<close>

datatype history_op =
    CommitUser turn_id rstr
  | CommitAssistant turn_id rstr
  | AppendRound turn_id "tool_call list" "chat_message list"

fun history_apply :: "history_op \<Rightarrow> dialogue_history \<Rightarrow> dialogue_history" where
  "history_apply (CommitUser t s) h = commit_user t s h"
| "history_apply (CommitAssistant t s) h = commit_assistant t s h"
| "history_apply (AppendRound t cs rs) h = snd (append_completed_round t cs rs h)"

definition history_run :: "usize \<Rightarrow> history_op list \<Rightarrow> dialogue_history" where
  "history_run n ops = fold history_apply ops (history_new n)"

section \<open>Well-formed exchanges\<close>

text \<open>
  The history stores a round when it has as many results as calls and every result is a tool
  result. It does not compare the ids: that a result carries the id of its call is what the
  session that runs the calls guarantees. Both facts are the same invariant, with a different
  relation between a call and its result.
\<close>

definition answered_by :: "tool_call \<Rightarrow> chat_message \<Rightarrow> bool" where
  "answered_by c m = (case m of ToolResult i _ \<Rightarrow> i = call_id c | _ \<Rightarrow> False)"

definition any_result :: "tool_call \<Rightarrow> chat_message \<Rightarrow> bool" where
  "any_result c m = is_tool_result m"

definition round_ok :: "(tool_call \<Rightarrow> chat_message \<Rightarrow> bool) \<Rightarrow> completed_round \<Rightarrow> bool" where
  "round_ok P r = (round_calls r \<noteq> [] \<and> list_all2 P (round_calls r) (round_results r))"

definition exchange_ok :: "(tool_call \<Rightarrow> chat_message \<Rightarrow> bool) \<Rightarrow> dialogue_exchange \<Rightarrow> bool" where
  "exchange_ok P e = ((\<exists>s. ex_user e = User s) \<and> list_all (round_ok P) (ex_rounds e))"

definition history_ok :: "(tool_call \<Rightarrow> chat_message \<Rightarrow> bool) \<Rightarrow> dialogue_history \<Rightarrow> bool" where
  "history_ok P h = list_all (exchange_ok P) (exchanges h)"

text \<open>An operation fits the relation when the round it offers does, should the history accept it.\<close>

definition op_fits :: "(tool_call \<Rightarrow> chat_message \<Rightarrow> bool) \<Rightarrow> history_op \<Rightarrow> bool" where
  "op_fits P op = (case op of
       AppendRound t cs rs \<Rightarrow> length cs = length rs \<and> list_all is_tool_result rs \<longrightarrow> list_all2 P cs rs
     | _ \<Rightarrow> True)"

definition answering :: "history_op \<Rightarrow> bool" where
  "answering op = (case op of AppendRound t cs rs \<Rightarrow> list_all2 answered_by cs rs | _ \<Rightarrow> True)"

lemma answered_any: "answered_by c m \<Longrightarrow> any_result c m"
  by (simp add: answered_by_def any_result_def is_tool_result_def split: chat_message.splits)

lemma op_fits_any [simp]: "op_fits any_result op"
  by (cases op) (auto simp: op_fits_def any_result_def list_all2_conv_all_nth list_all_length)

lemma op_fits_answering: "answering op \<Longrightarrow> op_fits answered_by op"
  by (cases op) (auto simp: op_fits_def answering_def)

text \<open>
  The shape providers require. \<open>balanced n\<close>: every assistant message with tool calls is followed
  by as many tool results as it has calls, and a tool result stands nowhere else; \<open>n\<close> results are
  still due. \<open>paired cs\<close> is stronger: the results come in the order of the calls and each carries
  the id of its call; the calls \<open>cs\<close> still wait for theirs.
\<close>

fun balanced :: "nat \<Rightarrow> chat_message list \<Rightarrow> bool" where
  "balanced n [] = (n = 0)"
| "balanced n (ToolResult _ _ # ms) = (n \<noteq> 0 \<and> balanced (n - 1) ms)"
| "balanced n (AssistantToolCalls cs # ms) = (n = 0 \<and> cs \<noteq> [] \<and> balanced (length cs) ms)"
| "balanced n (_ # ms) = (n = 0 \<and> balanced 0 ms)"

fun paired :: "tool_call list \<Rightarrow> chat_message list \<Rightarrow> bool" where
  "paired [] [] = True"
| "paired (c # cs) [] = False"
| "paired (c # cs) (m # ms) = (answered_by c m \<and> paired cs ms)"
| "paired [] (ToolResult _ _ # ms) = False"
| "paired [] (AssistantToolCalls cs # ms) = (cs \<noteq> [] \<and> paired cs ms)"
| "paired [] (_ # ms) = paired [] ms"

lemma balanced_results:
  "list_all2 any_result cs rs \<Longrightarrow> balanced (length cs) (rs @ ms) = balanced 0 ms"
  by (induction rule: list_all2_induct) (auto simp: any_result_def is_tool_result_def split: chat_message.splits)

lemma paired_results: "list_all2 answered_by cs rs \<Longrightarrow> paired cs (rs @ ms) = paired [] ms"
  by (induction rule: list_all2_induct) auto

lemma balanced_rounds:
  "list_all (round_ok any_result) rounds \<Longrightarrow>
     balanced 0 (concat (map (\<lambda>r. AssistantToolCalls (round_calls r) # round_results r) rounds) @ ms) =
     balanced 0 ms"
  by (induction rounds) (auto simp: round_ok_def balanced_results)

lemma paired_rounds:
  "list_all (round_ok answered_by) rounds \<Longrightarrow>
     paired [] (concat (map (\<lambda>r. AssistantToolCalls (round_calls r) # round_results r) rounds) @ ms) =
     paired [] ms"
  by (induction rounds) (auto simp: round_ok_def paired_results)

lemma balanced_exchanges:
  "list_all (exchange_ok any_result) es \<Longrightarrow> balanced 0 (concat (map exchange_messages es))"
  by (induction es) (auto simp: exchange_ok_def exchange_messages_def balanced_rounds split: option.splits)

lemma paired_exchanges:
  "list_all (exchange_ok answered_by) es \<Longrightarrow> paired [] (concat (map exchange_messages es))"
  by (induction es) (auto simp: exchange_ok_def exchange_messages_def paired_rounds split: option.splits)

section \<open>Eviction\<close>

lemma evict_loop_suffix:
  "evict_loop b t es l = (es', l') \<Longrightarrow> \<exists>n. es' = drop n es"
proof (induction b t es l rule: evict_loop.induct)
  case (1 b t e e' es l)
  show ?case
  proof (cases "b < message_count (e # e' # es) \<and> ex_turn e \<noteq> t")
    case True
    with 1 obtain n where "es' = drop n (e' # es)" by (auto simp: Let_def)
    then have "es' = drop (Suc n) (e # e' # es)" by simp
    then show ?thesis by blast
  next
    case False
    with "1.prems" have "es' = drop 0 (e # e' # es)" by (auto split: if_splits)
    then show ?thesis by blast
  qed
qed (auto intro: exI [of _ 0])

lemma evict_loop_last: "es \<noteq> [] \<Longrightarrow> fst (evict_loop b t es l) \<noteq> [] \<and> last (fst (evict_loop b t es l)) = last es"
  by (induction b t es l rule: evict_loop.induct) (auto simp: Let_def)

lemma evict_loop_all: "list_all P es \<Longrightarrow> list_all P (fst (evict_loop b t es l))"
  by (induction b t es l rule: evict_loop.induct) (auto simp: Let_def)

lemma evict_loop_bound:
  "evict_loop b t es l = (es', l') \<Longrightarrow>
     message_count es' \<le> b \<or> length es' \<le> 1 \<or> (es' \<noteq> [] \<and> ex_turn (hd es') = t)"
  by (induction b t es l rule: evict_loop.induct) (auto simp: Let_def split: if_splits)

lemma evict_exchanges:
  "exchanges (evict t h) = fst (evict_loop (max_messages h) t (exchanges h) (legacy_messages h))"
  "legacy_messages (evict t h) = snd (evict_loop (max_messages h) t (exchanges h) (legacy_messages h))"
  "max_messages (evict t h) = max_messages h"
  by (simp_all add: evict_def split_beta)

lemma history_ok_evict: "history_ok P h \<Longrightarrow> history_ok P (evict t h)"
  by (simp add: history_ok_def evict_exchanges evict_loop_all)

lemma update_exchange_all:
  "update_exchange t f es = Some es' \<Longrightarrow> list_all P es \<Longrightarrow> (\<And>e. P e \<Longrightarrow> P (f e)) \<Longrightarrow> list_all P es'"
  by (induction es arbitrary: es') (auto split: if_splits)

lemma update_exchange_turns:
  "update_exchange t f es = Some es' \<Longrightarrow> (\<And>e. ex_turn (f e) = ex_turn e) \<Longrightarrow> map ex_turn es' = map ex_turn es"
  by (induction es arbitrary: es') (auto split: if_splits)

lemma update_exchange_None_iff: "update_exchange t f es = None \<longleftrightarrow> t \<notin> set (map ex_turn es)"
  by (induction es) auto

lemma update_exchange_Some_mem: "update_exchange t f es = Some es' \<Longrightarrow> t \<in> set (map ex_turn es)"
  using update_exchange_None_iff [of t f es] by (cases "t \<in> set (map ex_turn es)") auto

lemma update_exchange_split:
  "update_exchange t f es = Some es' \<Longrightarrow>
     \<exists>pre e post. es = pre @ e # post \<and> ex_turn e = t \<and> t \<notin> ex_turn ` set pre \<and> es' = pre @ f e # post"
proof (induction es arbitrary: es')
  case (Cons e es)
  show ?case
  proof (cases "ex_turn e = t")
    case True
    with Cons.prems show ?thesis by (intro exI [of _ "[]"]) auto
  next
    case False
    with Cons.prems obtain es1 where u: "update_exchange t f es = Some es1" and es': "es' = e # es1" by auto
    from Cons.IH [OF u] obtain pre e' post where
        "es = pre @ e' # post" "ex_turn e' = t" "t \<notin> ex_turn ` set pre" "es1 = pre @ f e' # post" by blast
    with False es' show ?thesis by (intro exI [of _ "e # pre"]) auto
  qed
qed simp

lemma history_ok_apply: "history_ok P h \<Longrightarrow> op_fits P op \<Longrightarrow> history_ok P (history_apply op h)"
proof (cases op)
  case (CommitUser t s)
  assume "history_ok P h"
  then show ?thesis
    by (auto simp: CommitUser commit_user_def history_ok_def exchange_ok_def intro!: history_ok_evict [unfolded history_ok_def])
next
  case (CommitAssistant t s)
  assume h: "history_ok P h"
  show ?thesis
  proof (cases "update_exchange t (\<lambda>e. e\<lparr>ex_assistant := Some s\<rparr>) (exchanges h)")
    case None
    with h show ?thesis by (simp add: CommitAssistant commit_assistant_def)
  next
    case (Some es)
    from Some have "list_all (exchange_ok P) es"
      by (rule update_exchange_all) (use h in \<open>auto simp: history_ok_def exchange_ok_def\<close>)
    with Some show ?thesis
      by (auto simp: CommitAssistant commit_assistant_def history_ok_def
          intro!: history_ok_evict [unfolded history_ok_def])
  qed
next
  case (AppendRound t cs rs)
  assume h: "history_ok P h" and fits: "op_fits P op"
  show ?thesis
  proof (cases "fst (append_completed_round t cs rs h)")
    case False
    with h show ?thesis
      by (auto simp: AppendRound append_completed_round_def split: if_splits option.splits)
  next
    case True
    then obtain es where ok: "round_ok P \<lparr>round_calls = cs, round_results = rs\<rparr>"
      and up: "update_exchange t (\<lambda>e. e\<lparr>ex_rounds := ex_rounds e @
                [\<lparr>round_calls = cs, round_results = rs\<rparr>]\<rparr>) (exchanges h) = Some es"
      and res: "append_completed_round t cs rs h = (True, evict t (h\<lparr>exchanges := es\<rparr>))"
      using fits
      by (auto simp: append_completed_round_def round_ok_def op_fits_def AppendRound list_all_iff list_ex_iff
          split: if_splits option.splits)
    from up have "list_all (exchange_ok P) es"
      by (rule update_exchange_all) (use h ok in \<open>auto simp: history_ok_def exchange_ok_def\<close>)
    then show ?thesis
      by (auto simp: AppendRound res history_ok_def intro!: history_ok_evict [unfolded history_ok_def])
  qed
qed

lemma history_ok_fold:
  "history_ok P h \<Longrightarrow> list_all (op_fits P) ops \<Longrightarrow> history_ok P (fold history_apply ops h)"
  by (induction ops arbitrary: h) (auto intro: history_ok_apply)

lemma history_ok_run: "list_all (op_fits P) ops \<Longrightarrow> history_ok P (history_run n ops)"
  unfolding history_run_def by (rule history_ok_fold) (simp_all add: history_ok_def history_new_def)

text \<open>The histories that operations build, as a step system.\<close>

inductive history_step :: "dialogue_history \<Rightarrow> dialogue_history \<Rightarrow> bool" where
  "history_step h (history_apply op h)"

interpretation history: step_system "\<lambda>h. \<exists>n. h = history_new n" history_step "history_ok any_result"
  by unfold_locales (auto simp: history_ok_def history_new_def elim!: history_step.cases
      intro: history_ok_apply [unfolded history_ok_def])

section \<open>Properties of the dialogue history\<close>

text \<open>
  C29: Whatever sequence of user commits, assistant commits and tool rounds a session runs, with
  whatever bound, a prompt built from its history is balanced: every assistant message with
  tool calls is followed by as many results as it has calls, and no tool result stands alone,
  for the history refuses a round of any other shape and evicts whole exchanges. And when each
  round that is offered answers its calls in their order, as the session's rounds do, every
  result of the prompt stands in the place of its call and carries its id.
\<close>

theorem prompt_well_paired:
  assumes "messages_for_prompt turn (history_run n ops) = Some ms"
  shows "balanced 0 ms \<and> (list_all answering ops \<longrightarrow> paired [] ms)"
proof -
  have ms: "ms = concat (map exchange_messages (exchanges (history_run n ops)))"
    using assms by (auto simp: messages_for_prompt_def split: if_splits)
  have "history_ok any_result (history_run n ops)" by (rule history_ok_run) (simp add: list_all_iff)
  moreover have "history_ok answered_by (history_run n ops)" if "list_all answering ops"
    by (rule history_ok_run) (use that in \<open>auto simp: list_all_iff op_fits_answering\<close>)
  ultimately show ?thesis by (auto simp: ms history_ok_def balanced_exchanges paired_exchanges)
qed

lemma prompt_well_paired_witness:
  "paired [] [User [104],
     AssistantToolCalls [\<lparr>call_id = [99], call_name = [110], call_arguments = JNull\<rparr>,
                         \<lparr>call_id = [100], call_name = [110], call_arguments = JNull\<rparr>],
     ToolResult [99] [111], ToolResult [100] [112], AssistantText [98]]"
  using prompt_well_paired [where turn = "TurnId 2" and n = 4 and
        ops = "[CommitUser (TurnId 1) [97], CommitAssistant (TurnId 1) [97], CommitUser (TurnId 2) [104],
                AppendRound (TurnId 2)
                  [\<lparr>call_id = [99], call_name = [110], call_arguments = JNull\<rparr>,
                   \<lparr>call_id = [100], call_name = [110], call_arguments = JNull\<rparr>]
                  [ToolResult [99] [111], ToolResult [100] [112]],
                AppendRound (TurnId 2) [] [],
                CommitAssistant (TurnId 2) [98]]"]
  by (simp add: messages_for_prompt_def history_run_def history_new_def commit_user_def commit_assistant_def
      append_completed_round_def evict_def message_count_def exchange_count_def exchange_messages_def
      is_tool_result_def answering_def answered_by_def)

text \<open>
  Committing a user turn drops whole exchanges from the front and nothing else: what is
  left is a suffix of the history with the new exchange at its end, the new exchange is never
  dropped, and the message bound holds unless the new exchange is alone.
\<close>

lemma commit_user_evicts_oldest_first:
  assumes "turn \<notin> set (map ex_turn (exchanges h))"
  shows "\<exists>k. exchanges (commit_user turn text h) =
      drop k (exchanges h) @ [\<lparr>ex_turn = turn, ex_user = User text, ex_rounds = [], ex_assistant = None\<rparr>] \<and>
    (message_count (exchanges (commit_user turn text h)) \<le> max_messages h \<or>
     length (exchanges (commit_user turn text h)) = 1)"
proof -
  let ?new = "\<lparr>ex_turn = turn, ex_user = User text, ex_rounds = [], ex_assistant = None\<rparr>"
  let ?h = "h\<lparr>exchanges := exchanges h @ [?new], legacy_messages := legacy_messages h @ [text]\<rparr>"
  obtain es l where run: "evict_loop (max_messages h) turn (exchanges h @ [?new]) (legacy_messages h @ [text]) = (es, l)"
    by (metis prod.collapse)
  then have es: "exchanges (commit_user turn text h) = es"
    by (simp add: commit_user_def evict_exchanges)
  from evict_loop_suffix [OF run] obtain k where k: "es = drop k (exchanges h @ [?new])" by blast
  have ne: "es \<noteq> []" using evict_loop_last [of "exchanges h @ [?new]" "max_messages h" turn "legacy_messages h @ [text]"] run by simp
  then have suffix: "es = drop k (exchanges h) @ [?new]"
    using k by (cases "k \<le> length (exchanges h)") auto
  have "ex_turn (hd es) = turn \<Longrightarrow> length es = 1"
  proof (cases "drop k (exchanges h)")
    case (Cons e r)
    then have "e \<in> set (exchanges h)" by (metis in_set_dropD list.set_intros(1))
    with assms have "ex_turn e \<noteq> turn" by auto
    moreover assume "ex_turn (hd es) = turn"
    ultimately show ?thesis using suffix Cons by simp
  qed (simp add: suffix)
  moreover have "length es \<le> 1 \<Longrightarrow> length es = 1" using ne by (cases es) auto
  ultimately have "message_count es \<le> max_messages h \<or> length es = 1"
    using evict_loop_bound [OF run] by blast
  with suffix show ?thesis unfolding es by (intro exI [of _ k] conjI)
qed

text \<open>
  A tool round is refused without any change to the history when it has no calls, when the
  number of results differs from the number of calls, when a result is not a tool result, or
  when the turn has no exchange; otherwise it is appended to the first exchange of the turn and
  the history is evicted on behalf of that turn.
\<close>

lemma append_round_all_or_nothing:
  assumes "append_completed_round turn calls results h = (ok, h')"
  shows "(ok \<longleftrightarrow> calls \<noteq> [] \<and> length calls = length results \<and> list_all is_tool_result results \<and>
            turn \<in> set (map ex_turn (exchanges h))) \<and>
    (if ok then \<exists>pre e post. exchanges h = pre @ e # post \<and> ex_turn e = turn \<and> turn \<notin> ex_turn ` set pre \<and>
         h' = evict turn (h\<lparr>exchanges := pre @
           e\<lparr>ex_rounds := ex_rounds e @ [\<lparr>round_calls = calls, round_results = results\<rparr>]\<rparr> # post\<rparr>)
     else h' = h)"
proof (cases ok)
  case True
  then obtain es where up: "update_exchange turn (\<lambda>e. e\<lparr>ex_rounds := ex_rounds e @
        [\<lparr>round_calls = calls, round_results = results\<rparr>]\<rparr>) (exchanges h) = Some es"
    and h': "h' = evict turn (h\<lparr>exchanges := es\<rparr>)"
    and ok: "calls \<noteq> []" "length calls = length results" "list_all is_tool_result results"
    using assms
    by (auto simp: append_completed_round_def list_ex_iff list_all_iff split: if_splits option.splits)
  from update_exchange_split [OF up] obtain pre e post where
      "exchanges h = pre @ e # post" "ex_turn e = turn" "turn \<notin> ex_turn ` set pre"
      "es = pre @ e\<lparr>ex_rounds := ex_rounds e @ [\<lparr>round_calls = calls, round_results = results\<rparr>]\<rparr> # post"
    by blast
  with True ok h' show ?thesis by auto
next
  case False
  with assms show ?thesis
    by (auto simp: append_completed_round_def list_ex_iff list_all_iff update_exchange_None_iff
        simp del: set_map split: if_splits option.splits)
qed

end
