(* ===== verification/Audio.thy ===== *)
theory Audio
  imports Complex_Main Prelude
begin

text \<open>
  The capture side of the audio pipeline: the probability-level VAD segmenter
  (\<open>audio/vad_segmenter.rs\<close>), frames and the manual capture buffer (\<open>audio/mod.rs\<close>) and the
  packet checks around the Opus codec (\<open>audio/opus.rs\<close>). The codec itself is the \<open>opus2\<close>
  crate and is an argument of the definitions that call it. A sample is an integer.
\<close>

section \<open>Comparisons of f32 values\<close>

text \<open>
  Every finite \<open>f32\<close> is a rational, and the segmenter only compares, so comparisons on
  rationals with NaN and the infinities are exact.
\<close>

datatype f32 = NaN | PosInf | NegInf | Finite rat

fun f32_le :: "f32 \<Rightarrow> f32 \<Rightarrow> bool" where
  "f32_le NaN _ = False"
| "f32_le _ NaN = False"
| "f32_le NegInf _ = True"
| "f32_le _ PosInf = True"
| "f32_le (Finite x) (Finite y) = (x \<le> y)"
| "f32_le _ _ = False"

fun f32_lt :: "f32 \<Rightarrow> f32 \<Rightarrow> bool" where
  "f32_lt NaN _ = False"
| "f32_lt _ NaN = False"
| "f32_lt NegInf y = (y \<noteq> NegInf)"
| "f32_lt x PosInf = (x \<noteq> PosInf)"
| "f32_lt (Finite x) (Finite y) = (x < y)"
| "f32_lt _ _ = False"

definition is_finite :: "f32 \<Rightarrow> bool" where
  "is_finite x = (case x of Finite _ \<Rightarrow> True | _ \<Rightarrow> False)"

section \<open>The VAD segmenter\<close>

record vad_config =
  speech_threshold :: f32
  exit_threshold :: f32
  min_speech_samples :: u64
  end_silence_samples :: u64

record vad_probability =
  probability :: f32
  start_sample :: u64
  end_sample :: u64

datatype vad_boundary = SpeechStart u64 | SpeechEnd u64

datatype vad_error = StreamIntegrity

record vad_segmenter =
  vad_cfg :: vad_config
  expected_start :: "u64 option"
  speech_candidate :: "u64 option"
  silence_candidate :: "u64 option"
  speech_active :: bool

definition vad_default_config :: vad_config where
  "vad_default_config =
     \<lparr>speech_threshold = Finite (1/2), exit_threshold = Finite (11744051 / 2 ^ 25),
      min_speech_samples = 2880, end_silence_samples = 9600\<rparr>"

text \<open>\<open>new\<close> asserts the configuration; a failed assertion is \<open>None\<close>.\<close>

definition vad_config_valid :: "vad_config \<Rightarrow> bool" where
  "vad_config_valid c =
     (f32_lt (exit_threshold c) (speech_threshold c) \<and> f32_le (speech_threshold c) (Finite 1) \<and>
      f32_le (Finite 0) (exit_threshold c) \<and> 0 < min_speech_samples c \<and> 0 < end_silence_samples c)"

definition vad_new :: "vad_config \<Rightarrow> vad_segmenter option" where
  "vad_new c =
     (if vad_config_valid c
      then Some \<lparr>vad_cfg = c, expected_start = None, speech_candidate = None,
                 silence_candidate = None, speech_active = False\<rparr>
      else None)"

definition vad_integrity :: "vad_segmenter \<Rightarrow> vad_probability \<Rightarrow> bool" where
  "vad_integrity s p =
     (is_finite (probability p) \<and>
      f32_le (Finite 0) (probability p) \<and> f32_le (probability p) (Finite 1) \<and>
      start_sample p < end_sample p \<and>
      (case expected_start s of None \<Rightarrow> True | Some x \<Rightarrow> x = start_sample p))"

definition get_or_insert :: "'a option \<Rightarrow> 'a \<Rightarrow> 'a" where
  "get_or_insert opt d = (case opt of None \<Rightarrow> d | Some x \<Rightarrow> x)"

definition vad_observe ::
    "vad_segmenter \<Rightarrow> vad_probability \<Rightarrow> vad_error + (vad_boundary option \<times> vad_segmenter)" where
  "vad_observe s0 p =
     (if \<not> vad_integrity s0 p then Inl StreamIntegrity
      else let s = s0\<lparr>expected_start := Some (end_sample p)\<rparr>; c = vad_cfg s in
        if \<not> speech_active s then
          if f32_le (speech_threshold c) (probability p) then
            let onset = get_or_insert (speech_candidate s) (start_sample p) in
            if min_speech_samples c \<le> wrapping_sub (end_sample p) onset
            then Inr (Some (SpeechStart onset), s\<lparr>speech_active := True, speech_candidate := None\<rparr>)
            else Inr (None, s\<lparr>speech_candidate := Some onset\<rparr>)
          else if f32_lt (probability p) (exit_threshold c)
          then Inr (None, s\<lparr>speech_candidate := None\<rparr>)
          else Inr (None, s)
        else
          if f32_lt (probability p) (exit_threshold c) then
            let onset = get_or_insert (silence_candidate s) (start_sample p) in
            if end_silence_samples c \<le> wrapping_sub (end_sample p) onset
            then Inr (Some (SpeechEnd onset), s\<lparr>speech_active := False, silence_candidate := None\<rparr>)
            else Inr (None, s\<lparr>silence_candidate := Some onset\<rparr>)
          else if f32_le (speech_threshold c) (probability p)
          then Inr (None, s\<lparr>silence_candidate := None\<rparr>)
          else Inr (None, s))"

definition vad_reset :: "vad_segmenter \<Rightarrow> vad_segmenter" where
  "vad_reset s = s\<lparr>expected_start := None, speech_candidate := None,
     silence_candidate := None, speech_active := False\<rparr>"

text \<open>The boundaries of a run; the caller stops at the first integrity error.\<close>

fun vad_run :: "vad_segmenter \<Rightarrow> vad_probability list \<Rightarrow> vad_error + (vad_boundary list \<times> vad_segmenter)" where
  "vad_run s [] = Inr ([], s)"
| "vad_run s (p # ps) =
     (case vad_observe s p of
        Inl e \<Rightarrow> Inl e
      | Inr (b, s') \<Rightarrow>
          (case vad_run s' ps of
             Inl e \<Rightarrow> Inl e
           | Inr (bs, s'') \<Rightarrow> Inr (case b of None \<Rightarrow> bs | Some x \<Rightarrow> x # bs, s'')))"

text \<open>
  The contract of the boundary stream: starts and ends alternate, an utterance is at least
  \<open>min_speech\<close> samples long and the pause after it at least \<open>end_silence\<close> samples.
\<close>

fun boundaries_ok :: "vad_config \<Rightarrow> nat \<Rightarrow> bool \<Rightarrow> vad_boundary list \<Rightarrow> bool" where
  "boundaries_ok c lower active [] = True"
| "boundaries_ok c lower False (SpeechStart s # bs) =
     (lower \<le> s \<and> boundaries_ok c (s + min_speech_samples c) True bs)"
| "boundaries_ok c lower True (SpeechEnd e # bs) =
     (lower \<le> e \<and> boundaries_ok c (e + end_silence_samples c) False bs)"
| "boundaries_ok c lower active (b # bs) = False"

definition vad_candidate :: "vad_segmenter \<Rightarrow> u64 option" where
  "vad_candidate s = (if speech_active s then silence_candidate s else speech_candidate s)"

definition vad_inv :: "vad_segmenter \<Rightarrow> bool" where
  "vad_inv s =
     (case vad_candidate s of None \<Rightarrow> True
      | Some x \<Rightarrow> (case expected_start s of None \<Rightarrow> False | Some e \<Rightarrow> x \<le> e)) "

definition vad_other_clear :: "vad_segmenter \<Rightarrow> bool" where
  "vad_other_clear s =
     ((if speech_active s then speech_candidate s else silence_candidate s) = None)"

definition vad_lower :: "nat \<Rightarrow> vad_segmenter \<Rightarrow> bool" where
  "vad_lower l s =
     (case vad_candidate s of
        Some x \<Rightarrow> l \<le> x
      | None \<Rightarrow> (case expected_start s of Some e \<Rightarrow> l \<le> e | None \<Rightarrow> l = 0))"

lemmas vad_defs = vad_candidate_def vad_inv_def vad_other_clear_def vad_lower_def get_or_insert_def

lemma vad_observe_keeps:
  "vad_observe s p = Inr (b, s') \<Longrightarrow> vad_inv s \<Longrightarrow> vad_other_clear s \<Longrightarrow>
     vad_inv s' \<and> vad_other_clear s' \<and> vad_cfg s' = vad_cfg s \<and> expected_start s' = Some (end_sample p)"
  by (auto simp: vad_observe_def vad_integrity_def vad_defs Let_def
      split: if_splits option.splits)

lemma vad_observe_quiet:
  "vad_observe s p = Inr (None, s') \<Longrightarrow> vad_inv s \<Longrightarrow> vad_other_clear s \<Longrightarrow> vad_lower l s \<Longrightarrow>
     vad_lower l s' \<and> speech_active s' = speech_active s"
  by (auto simp: vad_observe_def vad_integrity_def vad_defs Let_def
      split: if_splits option.splits)

lemma vad_observe_boundary:
  assumes "vad_observe s p = Inr (Some b, s')" and "vad_inv s" and "vad_other_clear s" and "vad_lower l s"
  shows "(\<not> speech_active s \<and> speech_active s' \<and>
            (\<exists>o'. b = SpeechStart o' \<and> l \<le> o' \<and> vad_lower (o' + min_speech_samples (vad_cfg s)) s')) \<or>
         (speech_active s \<and> \<not> speech_active s' \<and>
            (\<exists>o'. b = SpeechEnd o' \<and> l \<le> o' \<and> vad_lower (o' + end_silence_samples (vad_cfg s)) s'))"
  using assms
  by (auto simp: vad_observe_def vad_integrity_def vad_defs Let_def
      split: if_splits option.splits)

lemma vad_run_boundaries:
  "vad_run s ps = Inr (bs, s') \<Longrightarrow> vad_inv s \<Longrightarrow> vad_other_clear s \<Longrightarrow> vad_lower l s \<Longrightarrow>
     boundaries_ok (vad_cfg s) l (speech_active s) bs"
proof (induction ps arbitrary: s l bs s')
  case Nil
  then show ?case by simp
next
  case (Cons p ps)
  from Cons.prems(1) obtain b s1 bs1 where obs: "vad_observe s p = Inr (b, s1)"
    and run: "vad_run s1 ps = Inr (bs1, s')" and bs: "bs = (case b of None \<Rightarrow> bs1 | Some x \<Rightarrow> x # bs1)"
    by (auto split: sum.splits)
  from vad_observe_keeps [OF obs Cons.prems(2,3)]
  have inv1: "vad_inv s1" "vad_other_clear s1" and cfg: "vad_cfg s1 = vad_cfg s" by auto
  show ?case
  proof (cases b)
    case None
    with vad_observe_quiet Cons.prems obs have "vad_lower l s1" "speech_active s1 = speech_active s" by auto
    with Cons.IH [OF run inv1] cfg None bs show ?thesis by simp
  next
    case (Some x)
    with vad_observe_boundary Cons.prems obs Cons.IH [OF run inv1] cfg bs show ?thesis by fastforce
  qed
qed

text \<open>The onset subtraction never wraps.\<close>

lemma vad_no_underflow:
  "vad_inv s \<Longrightarrow> vad_integrity s p \<Longrightarrow>
     get_or_insert (vad_candidate s) (start_sample p) \<le> end_sample p"
  by (auto simp: vad_defs vad_integrity_def split: option.splits)

section \<open>Frames and the manual capture\<close>

definition UPLINK_FRAME_SAMPLES :: nat where
  "UPLINK_FRAME_SAMPLES = 960"

definition DOWNLINK_FRAME_SAMPLES :: nat where
  "DOWNLINK_FRAME_SAMPLES = 1440"

datatype audio_error =
    InvalidUplinkFrameSamples nat
  | InvalidDownlinkFrameSamples nat
  | CaptureCapacityOverflow
  | CaptureAllocation
  | DecoderInit
  | EncoderInit
  | EncodeFailed
  | EmptyEncodedPacket
  | EncodedPacketTooLarge nat nat
  | InvalidDownlinkPcm
  | InvalidProviderPcm

type_synonym pcm16 = "int list"

definition uplink_frame :: "pcm16 \<Rightarrow> audio_error + pcm16" where
  "uplink_frame pcm =
     (if length pcm \<noteq> UPLINK_FRAME_SAMPLES then Inl (InvalidUplinkFrameSamples (length pcm)) else Inr pcm)"

definition downlink_frame :: "pcm16 \<Rightarrow> audio_error + pcm16" where
  "downlink_frame pcm =
     (if length pcm \<noteq> DOWNLINK_FRAME_SAMPLES then Inl (InvalidDownlinkFrameSamples (length pcm)) else Inr pcm)"

datatype capture_outcome = Utterance pcm16 | CaptureEmpty | Overflowed

record manual_capture =
  mc_samples :: pcm16
  mc_max_frames :: usize
  mc_received :: usize
  mc_active :: bool
  mc_overflowed :: bool

text \<open>\<open>allocated\<close> is the answer of \<open>try_reserve_exact\<close>.\<close>

definition capture_new :: "bool \<Rightarrow> usize \<Rightarrow> audio_error + manual_capture" where
  "capture_new allocated max_frames =
     (if 2 ^ 64 \<le> max_frames * UPLINK_FRAME_SAMPLES then Inl CaptureCapacityOverflow
      else if \<not> allocated then Inl CaptureAllocation
      else Inr \<lparr>mc_samples = [], mc_max_frames = max_frames, mc_received = 0,
                mc_active = False, mc_overflowed = False\<rparr>)"

definition capture_reset :: "manual_capture \<Rightarrow> manual_capture" where
  "capture_reset c = c\<lparr>mc_samples := [], mc_received := 0, mc_overflowed := False, mc_active := False\<rparr>"

definition capture_start :: "manual_capture \<Rightarrow> manual_capture" where
  "capture_start c = (capture_reset c)\<lparr>mc_active := True\<rparr>"

definition capture_push :: "pcm16 \<Rightarrow> manual_capture \<Rightarrow> bool \<times> manual_capture" where
  "capture_push frame c =
     (if \<not> mc_active c \<or> mc_overflowed c then (False, c)
      else if mc_received c = mc_max_frames c
      then (False, c\<lparr>mc_samples := [], mc_overflowed := True\<rparr>)
      else (True, c\<lparr>mc_samples := mc_samples c @ frame, mc_received := mc_received c + 1\<rparr>))"

definition capture_stop :: "manual_capture \<Rightarrow> capture_outcome \<times> manual_capture" where
  "capture_stop c0 =
     (if \<not> mc_active c0 then (CaptureEmpty, c0)
      else let c = c0\<lparr>mc_active := False\<rparr> in
        if mc_overflowed c then (Overflowed, capture_reset c)
        else if mc_samples c = [] then (CaptureEmpty, c)
        else (Utterance (mc_samples c), c\<lparr>mc_received := 0, mc_samples := []\<rparr>))"

definition capture_recycle :: "pcm16 \<Rightarrow> manual_capture \<Rightarrow> manual_capture" where
  "capture_recycle utterance c = (if mc_samples c = [] then c\<lparr>mc_samples := []\<rparr> else c)"

definition capture_pushes :: "pcm16 list \<Rightarrow> manual_capture \<Rightarrow> manual_capture" where
  "capture_pushes fs c = fold (\<lambda>f c. snd (capture_push f c)) fs c"

lemma capture_pushes_fits:
  "mc_active c \<Longrightarrow> \<not> mc_overflowed c \<Longrightarrow> mc_received c + length fs \<le> mc_max_frames c \<Longrightarrow>
     capture_pushes fs c = c\<lparr>mc_samples := mc_samples c @ concat fs, mc_received := mc_received c + length fs\<rparr>"
  by (induction fs arbitrary: c) (auto simp: capture_pushes_def capture_push_def)

lemma capture_pushes_stuck:
  "mc_overflowed c \<Longrightarrow> capture_pushes fs c = c"
  by (induction fs) (auto simp: capture_pushes_def capture_push_def)

lemma capture_pushes_append: "capture_pushes (fs @ gs) c = capture_pushes gs (capture_pushes fs c)"
  by (simp add: capture_pushes_def)

lemma capture_pushes_overflow:
  assumes "mc_active c" and "\<not> mc_overflowed c" and "mc_max_frames c < mc_received c + length fs"
    and "mc_received c \<le> mc_max_frames c"
  shows "mc_overflowed (capture_pushes fs c) \<and> mc_active (capture_pushes fs c) \<and> mc_samples (capture_pushes fs c) = []"
proof -
  let ?k = "mc_max_frames c - mc_received c"
  obtain g gs where d: "drop ?k fs = g # gs"
    using assms by (cases "drop ?k fs") auto
  then have fs: "fs = take ?k fs @ g # gs" by (metis append_take_drop_id)
  have "capture_pushes (take ?k fs) c =
      c\<lparr>mc_samples := mc_samples c @ concat (take ?k fs), mc_received := mc_max_frames c\<rparr>"
    using assms by (subst capture_pushes_fits) auto
  then have "capture_pushes fs c = capture_pushes gs (snd (capture_push g
      (c\<lparr>mc_samples := mc_samples c @ concat (take ?k fs), mc_received := mc_max_frames c\<rparr>)))"
    by (subst fs, subst capture_pushes_append) (simp add: capture_pushes_def)
  with assms(1,2) show ?thesis by (simp add: capture_push_def capture_pushes_stuck)
qed

section \<open>Packets around the codec\<close>

type_synonym packet = "nat list"

definition MAX_UPLINK_OPUS_PACKET_BYTES :: nat where
  "MAX_UPLINK_OPUS_PACKET_BYTES = 4000"

definition MAX_DOWNLINK_OPUS_PACKET_BYTES :: nat where
  "MAX_DOWNLINK_OPUS_PACKET_BYTES = 4000"

datatype frame_drop = EmptyPacket | PacketTooLarge | DecodeError | InvalidSampleCount

datatype decode_outcome = Frame pcm16 | Dropped frame_drop

definition uplink_decode :: "(packet \<Rightarrow> pcm16 option) \<Rightarrow> packet \<Rightarrow> decode_outcome" where
  "uplink_decode opus_decode pkt =
     (if pkt = [] then Dropped EmptyPacket
      else if MAX_UPLINK_OPUS_PACKET_BYTES < length pkt then Dropped PacketTooLarge
      else case opus_decode pkt of
             None \<Rightarrow> Dropped DecodeError
           | Some samples \<Rightarrow>
               if length samples \<noteq> UPLINK_FRAME_SAMPLES then Dropped InvalidSampleCount
               else (case uplink_frame samples of Inr f \<Rightarrow> Frame f | Inl _ \<Rightarrow> Dropped InvalidSampleCount))"

definition downlink_encode :: "(pcm16 \<Rightarrow> packet option) \<Rightarrow> nat \<Rightarrow> pcm16 \<Rightarrow> audio_error + packet" where
  "downlink_encode opus_encode max_bytes frame =
     (case opus_encode frame of
        None \<Rightarrow> Inl EncodeFailed
      | Some p \<Rightarrow>
          if p = [] then Inl EmptyEncodedPacket
          else if max_bytes < length p then Inl (EncodedPacketTooLarge (length p) max_bytes)
          else Inr p)"

section \<open>Properties of the capture side\<close>

text \<open>
  The boundaries a freshly created segmenter emits over any stream of window probabilities
  alternate start, end, start, ...; an utterance is at least \<open>min_speech_samples\<close> long, the
  pause before the next one at least \<open>end_silence_samples\<close>, and onsets never go back in time.
\<close>

lemma vad_boundaries_alternate:
  assumes "vad_new c = Some s" and "vad_run s ps = Inr (bs, s')"
  shows "boundaries_ok c 0 False bs"
proof -
  have "vad_cfg s = c" "\<not> speech_active s" "vad_inv s" "vad_other_clear s" "vad_lower 0 s"
    using assms(1) by (auto simp: vad_new_def vad_defs split: if_splits)
  with vad_run_boundaries [OF assms(2)] show ?thesis by fastforce
qed

definition vad_sample_config :: vad_config where
  "vad_sample_config = \<lparr>speech_threshold = Finite (1/2), exit_threshold = Finite (1/4),
     min_speech_samples = 20, end_silence_samples = 10\<rparr>"

definition vad_sample_stream :: "vad_probability list" where
  "vad_sample_stream =
     [\<lparr>probability = Finite (3/4), start_sample = 0, end_sample = 10\<rparr>,
      \<lparr>probability = Finite (3/4), start_sample = 10, end_sample = 20\<rparr>,
      \<lparr>probability = Finite (1/8), start_sample = 20, end_sample = 30\<rparr>]"

text \<open>
  The manual capture is exact: after a start, pushing frames and stopping gives the
  concatenation of all frames when they fit, and an overflow (with no samples kept) when there
  is one frame too many; the capture is then inactive and empty.
\<close>

lemma manual_capture_exact:
  assumes "\<forall>f\<in>set frames. f \<noteq> []"
  shows "fst (capture_stop (capture_pushes frames (capture_start c))) =
      (if mc_max_frames c < length frames then Overflowed
       else if frames = [] then CaptureEmpty else Utterance (concat frames)) \<and>
    \<not> mc_active (snd (capture_stop (capture_pushes frames (capture_start c)))) \<and>
    mc_samples (snd (capture_stop (capture_pushes frames (capture_start c)))) = []"
proof (cases "mc_max_frames c < length frames")
  case True
  then have "mc_overflowed (capture_pushes frames (capture_start c)) \<and>
      mc_active (capture_pushes frames (capture_start c)) \<and>
      mc_samples (capture_pushes frames (capture_start c)) = []"
    by (intro capture_pushes_overflow) (auto simp: capture_start_def capture_reset_def)
  with True show ?thesis by (simp add: capture_stop_def Let_def capture_reset_def)
next
  case False
  then have "capture_pushes frames (capture_start c) =
      (capture_start c)\<lparr>mc_samples := concat frames, mc_received := length frames\<rparr>"
    by (subst capture_pushes_fits) (auto simp: capture_start_def capture_reset_def)
  with False assms show ?thesis
    by (auto simp: capture_stop_def capture_start_def capture_reset_def)
qed

end
