(* ===== verification/Downlink.thy ===== *)
theory Downlink
  imports Audio
begin

text \<open>
  The downlink path of synthesised speech: the stateful 48 kHz to 24 kHz decimator
  (\<open>audio/resampler.rs\<close>) and the pipeline that turns provider PCM into Opus packets
  (\<open>audio/canonical_downlink.rs\<close>). The operations of \<open>f32\<close> and the Opus encoder are arguments;
  every formula, the samples it is applied to, the order and the state are written out.
\<close>

section \<open>Operations of f32\<close>

text \<open>
  \<open>f_dec m k\<close> is the literal \<open>m / 10 ^ k\<close>; \<open>f_sum_start\<close> is the value an empty \<open>f32\<close> iterator sums to;
  \<open>f_round_i16\<close> is \<open>round\<close> followed by the saturating cast to \<open>i16\<close>.
\<close>

record 'f f32_ops =
  f_zero :: 'f
  f_dec :: "nat \<Rightarrow> nat \<Rightarrow> 'f"
  f_pi :: 'f
  f_of_int :: "int \<Rightarrow> 'f"
  f_add :: "'f \<Rightarrow> 'f \<Rightarrow> 'f"
  f_sub :: "'f \<Rightarrow> 'f \<Rightarrow> 'f"
  f_mul :: "'f \<Rightarrow> 'f \<Rightarrow> 'f"
  f_div :: "'f \<Rightarrow> 'f \<Rightarrow> 'f"
  f_sin :: "'f \<Rightarrow> 'f"
  f_cos :: "'f \<Rightarrow> 'f"
  f_is_zero :: "'f \<Rightarrow> bool"
  f_finite :: "'f \<Rightarrow> bool"
  f_clamp1 :: "'f \<Rightarrow> 'f"
  f_round_i16 :: "'f \<Rightarrow> int"
  f_sum_start :: 'f

section \<open>The decimator\<close>

definition TAPS :: nat where
  "TAPS = 63"

definition CUTOFF :: "'f f32_ops \<Rightarrow> 'f" where
  "CUTOFF ops = f_dec ops 225 3"

record 'f resampler =
  rs_coefficients :: "'f list"
  rs_history :: "'f list"
  rs_input_index :: usize

definition raw_coefficient :: "'f f32_ops \<Rightarrow> nat \<Rightarrow> 'f" where
  "raw_coefficient ops index =
     (let midpoint = f_div ops (f_of_int ops (int (TAPS - 1))) (f_dec ops 2 0);
          offset = f_sub ops (f_of_int ops (int index)) midpoint;
          two_pi = f_mul ops (f_dec ops 2 0) (f_pi ops);
          sinc = (if f_is_zero ops offset then f_mul ops (f_dec ops 2 0) (CUTOFF ops)
                  else f_div ops (f_sin ops (f_mul ops (f_mul ops two_pi (CUTOFF ops)) offset))
                         (f_mul ops (f_pi ops) offset));
          hamming = f_sub ops (f_dec ops 54 2) (f_mul ops (f_dec ops 46 2)
                     (f_cos ops (f_div ops (f_mul ops two_pi (f_of_int ops (int index)))
                                           (f_of_int ops (int (TAPS - 1))))))
      in f_mul ops sinc hamming)"

definition coefficients :: "'f f32_ops \<Rightarrow> 'f list" where
  "coefficients ops =
     (let raw = map (raw_coefficient ops) [0..<TAPS];
          sum = foldl (f_add ops) (f_zero ops) raw
      in map (\<lambda>c. f_div ops c sum) raw)"

definition resampler_new :: "'f f32_ops \<Rightarrow> 'f resampler" where
  "resampler_new ops =
     \<lparr>rs_coefficients = coefficients ops, rs_history = replicate TAPS (f_zero ops), rs_input_index = 0\<rparr>"

text \<open>The weighted sum of a window of samples.\<close>

definition filtered :: "'f f32_ops \<Rightarrow> 'f list \<Rightarrow> 'f list \<Rightarrow> 'f" where
  "filtered ops h cs = foldl (f_add ops) (f_sum_start ops) (map (\<lambda>(s, c). f_mul ops s c) (zip h cs))"

definition resample_one :: "'f f32_ops \<Rightarrow> 'f \<Rightarrow> 'f resampler \<Rightarrow> 'f list \<times> 'f resampler" where
  "resample_one ops x r =
     (let h = tl (rs_history r) @ [x]
      in (if rs_input_index r mod 2 = 0 then [filtered ops h (rs_coefficients r)] else [],
          r\<lparr>rs_history := h, rs_input_index := rs_input_index r + 1\<rparr>))"

fun resample :: "'f f32_ops \<Rightarrow> 'f list \<Rightarrow> 'f resampler \<Rightarrow> (audio_error + 'f list) \<times> 'f resampler" where
  "resample ops [] r = (Inr [], r)"
| "resample ops (x # xs) r =
     (if \<not> f_finite ops x then (Inl InvalidDownlinkPcm, r)
      else let (out, r1) = resample_one ops x r in
        (case resample ops xs r1 of
           (Inl e, r2) \<Rightarrow> (Inl e, r2)
         | (Inr ys, r2) \<Rightarrow> (Inr (out @ ys), r2)))"

definition resample_flush :: "'f resampler \<Rightarrow> 'f list \<times> 'f resampler" where
  "resample_flush r = ([], r)"

text \<open>
  The reference: the convolution of the whole input, preceded by silence, sampled at the even
  positions.
\<close>

definition window :: "'f f32_ops \<Rightarrow> 'f list \<Rightarrow> nat \<Rightarrow> 'f list" where
  "window ops xs i = take TAPS (drop (Suc i) (replicate TAPS (f_zero ops) @ xs))"

definition decimated :: "'f f32_ops \<Rightarrow> 'f list \<Rightarrow> 'f list" where
  "decimated ops xs = map (\<lambda>k. filtered ops (window ops xs (2 * k)) (coefficients ops)) [0..<(length xs + 1) div 2]"

text \<open>The state after the finite input \<open>xs\<close>.\<close>

definition resampler_after :: "'f f32_ops \<Rightarrow> 'f list \<Rightarrow> 'f resampler" where
  "resampler_after ops xs =
     \<lparr>rs_coefficients = coefficients ops,
      rs_history = drop (length xs) (replicate TAPS (f_zero ops) @ xs), rs_input_index = length xs\<rparr>"

lemma resampler_after_Nil: "resampler_after ops [] = resampler_new ops"
  by (simp add: resampler_after_def resampler_new_def)

lemma window_snoc: "i < length xs \<Longrightarrow> window ops (xs @ [x]) i = window ops xs i"
  by (simp add: window_def TAPS_def)

lemma shift_in: "n < length zs \<Longrightarrow> tl (drop n zs) @ [x] = drop (Suc n) (zs @ [x])"
  by (simp add: drop_Suc drop_tl [symmetric])

lemma shift_history:
  "tl (drop (length xs) (replicate TAPS z @ xs)) @ [x] = drop (Suc (length xs)) (replicate TAPS z @ xs @ [x])"
  using shift_in [of "length xs" "replicate TAPS z @ xs" x] by (simp only: append_assoc) (simp add: TAPS_def)

lemma window_last: "window ops (xs @ [x]) (length xs) = tl (drop (length xs) (replicate TAPS (f_zero ops) @ xs)) @ [x]"
proof -
  note shift_history [of xs "f_zero ops" x]
  moreover have "length (tl (drop (length xs) (replicate TAPS (f_zero ops) @ xs)) @ [x]) = TAPS"
    by (simp add: TAPS_def)
  ultimately show ?thesis by (simp only: window_def take_all_iff order_refl)
qed

lemma decimated_snoc:
  "decimated ops (xs @ [x]) =
     decimated ops xs @ (if length xs mod 2 = 0 then [filtered ops (window ops (xs @ [x]) (length xs)) (coefficients ops)] else [])"
proof -
  have same: "map (\<lambda>k. filtered ops (window ops (xs @ [x]) (2 * k)) (coefficients ops)) [0..<(length xs + 1) div 2] = decimated ops xs"
    unfolding decimated_def by (rule map_cong [OF refl]) (auto simp: window_snoc)
  show ?thesis
  proof (cases "length xs mod 2 = 0")
    case True
    then have "(length (xs @ [x]) + 1) div 2 = Suc ((length xs + 1) div 2)" "2 * ((length xs + 1) div 2) = length xs"
      by simp_all presburger+
    with same True show ?thesis by (simp add: decimated_def)
  next
    case False
    then have "(length (xs @ [x]) + 1) div 2 = (length xs + 1) div 2" by simp presburger
    with same False show ?thesis by (simp add: decimated_def)
  qed
qed

lemma resample_one_after:
  "resample_one ops x (resampler_after ops xs) =
     (if length xs mod 2 = 0 then [filtered ops (window ops (xs @ [x]) (length xs)) (coefficients ops)] else [],
      resampler_after ops (xs @ [x]))"
proof -
  have "tl (drop (length xs) (replicate TAPS (f_zero ops) @ xs)) @ [x] =
      drop (length (xs @ [x])) (replicate TAPS (f_zero ops) @ xs @ [x])"
    using shift_history [of xs "f_zero ops" x] by (simp only: length_append_singleton)
  then show ?thesis by (simp add: resample_one_def resampler_after_def window_last Let_def)
qed

lemma resample_after:
  "list_all (f_finite ops) xs \<Longrightarrow>
     \<exists>out. resample ops xs (resampler_after ops ys) = (Inr out, resampler_after ops (ys @ xs)) \<and>
       decimated ops (ys @ xs) = decimated ops ys @ out"
proof (induction xs arbitrary: ys)
  case Nil
  then show ?case by simp
next
  case (Cons x xs)
  let ?o = "if length ys mod 2 = 0 then [filtered ops (window ops (ys @ [x]) (length ys)) (coefficients ops)] else []"
  from Cons.IH [of "ys @ [x]"] Cons.prems obtain out where
    o: "resample ops xs (resampler_after ops (ys @ [x])) = (Inr out, resampler_after ops ((ys @ [x]) @ xs))"
       "decimated ops ((ys @ [x]) @ xs) = decimated ops (ys @ [x]) @ out" by auto
  have "resample ops (x # xs) (resampler_after ops ys) = (Inr (?o @ out), resampler_after ops (ys @ x # xs))"
    using o(1) Cons.prems by (simp add: resample_one_after Let_def)
  moreover have "decimated ops (ys @ x # xs) = decimated ops ys @ ?o @ out"
    using o(2) by (simp add: decimated_snoc)
  ultimately show ?case by blast
qed

text \<open>A delivery in chunks: the state is carried from chunk to chunk.\<close>

fun resample_chunks :: "'f f32_ops \<Rightarrow> 'f list list \<Rightarrow> 'f resampler \<Rightarrow> (audio_error + 'f list) \<times> 'f resampler" where
  "resample_chunks ops [] r = (Inr [], r)"
| "resample_chunks ops (c # cs) r =
     (case resample ops c r of
        (Inl e, r1) \<Rightarrow> (Inl e, r1)
      | (Inr out, r1) \<Rightarrow>
          (case resample_chunks ops cs r1 of
             (Inl e, r2) \<Rightarrow> (Inl e, r2)
           | (Inr ys, r2) \<Rightarrow> (Inr (out @ ys), r2)))"

lemma resample_chunks_after:
  "list_all (list_all (f_finite ops)) cs \<Longrightarrow>
     \<exists>out. resample_chunks ops cs (resampler_after ops ys) = (Inr out, resampler_after ops (ys @ concat cs)) \<and>
       decimated ops (ys @ concat cs) = decimated ops ys @ out"
proof (induction cs arbitrary: ys)
  case Nil
  then show ?case by simp
next
  case (Cons c cs)
  from Cons.prems obtain o1 where o1: "resample ops c (resampler_after ops ys) = (Inr o1, resampler_after ops (ys @ c))"
      "decimated ops (ys @ c) = decimated ops ys @ o1" using resample_after [of ops c ys] by auto
  from Cons.IH [of "ys @ c"] Cons.prems obtain o2 where
      "resample_chunks ops cs (resampler_after ops (ys @ c)) = (Inr o2, resampler_after ops ((ys @ c) @ concat cs))"
      "decimated ops ((ys @ c) @ concat cs) = decimated ops (ys @ c) @ o2" by auto
  with o1 show ?case by auto
qed

text \<open>
  C30: the chunked decimator is the reference filter. However the provider's finite samples are cut
  into chunks, the decimator emits exactly the convolution of the whole input at the even positions:
  one output for every two inputs, rounded up, with no seam at a chunk boundary.
\<close>

theorem resampler_matches_convolution:
  assumes "list_all (list_all (f_finite ops)) cs"
  shows "fst (resample_chunks ops cs (resampler_new ops)) = Inr (decimated ops (concat cs))"
proof -
  have "decimated ops [] = []" by (simp add: decimated_def)
  with resample_chunks_after [OF assms, of "[]"] show ?thesis by (auto simp: resampler_after_Nil)
qed

definition int_ops :: "int f32_ops" where
  "int_ops = \<lparr>f_zero = 0, f_dec = (\<lambda>m k. int m div 10 ^ k), f_pi = 3, f_of_int = id, f_add = (+), f_sub = (-), f_mul = (*),
     f_div = (div), f_sin = id, f_cos = id, f_is_zero = (\<lambda>x. x = 0), f_finite = (\<lambda>_. True), f_clamp1 = id,
     f_round_i16 = id, f_sum_start = 0\<rparr>"

lemma resampler_matches_convolution_witness:
  "fst (resample_chunks int_ops [[1, 2], [3]] (resampler_new int_ops)) = Inr (decimated int_ops [1, 2, 3])"
  using resampler_matches_convolution [of int_ops "[[1, 2], [3]]"] by (simp add: int_ops_def)

section \<open>The canonical pipeline\<close>

definition FADE_IN_SAMPLES :: nat where
  "FADE_IN_SAMPLES = 48000 * 8 div 1000"

definition FADE_OUT_SAMPLES :: nat where
  "FADE_OUT_SAMPLES = 480"

record ('f, 'e) downlink =
  cd_encoder :: 'e
  cd_max_packet_bytes :: usize
  cd_resampler :: "'f resampler"
  cd_rate :: "nat option"
  cd_first :: bool
  cd_tail :: "int list"

definition downlink_new :: "'f f32_ops \<Rightarrow> 'e \<Rightarrow> usize \<Rightarrow> ('f, 'e) downlink" where
  "downlink_new ops encoder max_bytes = \<lparr>cd_encoder = encoder, cd_max_packet_bytes = max_bytes,
     cd_resampler = resampler_new ops, cd_rate = None, cd_first = True, cd_tail = []\<rparr>"

text \<open>One frame through the encoder, whose state advances even when it fails.\<close>

definition encode_frame ::
    "('e \<Rightarrow> pcm16 \<Rightarrow> packet option \<times> 'e) \<Rightarrow> int list \<Rightarrow> ('f, 'e) downlink \<Rightarrow>
     (audio_error + packet) \<times> ('f, 'e) downlink" where
  "encode_frame opus samples p =
     (case downlink_frame samples of
        Inl e \<Rightarrow> (Inl e, p)
      | Inr frame \<Rightarrow>
          (let (answer, enc) = opus (cd_encoder p) frame
           in (downlink_encode (\<lambda>_. answer) (cd_max_packet_bytes p) frame, p\<lparr>cd_encoder := enc\<rparr>)))"

lemma encode_frame_tail: "encode_frame opus s p = (out, q) \<Longrightarrow> cd_tail q = cd_tail p"
  by (auto simp: encode_frame_def split: sum.splits prod.splits)

function (sequential) take_complete_packets ::
    "('e \<Rightarrow> pcm16 \<Rightarrow> packet option \<times> 'e) \<Rightarrow> ('f, 'e) downlink \<Rightarrow>
     (audio_error + packet list) \<times> ('f, 'e) downlink" where
  "take_complete_packets opus p =
     (if DOWNLINK_FRAME_SAMPLES \<le> length (cd_tail p)
      then (case encode_frame opus (take DOWNLINK_FRAME_SAMPLES (cd_tail p))
                   (p\<lparr>cd_tail := drop DOWNLINK_FRAME_SAMPLES (cd_tail p)\<rparr>) of
              (Inl e, p1) \<Rightarrow> (Inl e, p1)
            | (Inr pkt, p1) \<Rightarrow>
                (case take_complete_packets opus p1 of
                   (Inl e, p2) \<Rightarrow> (Inl e, p2)
                 | (Inr pkts, p2) \<Rightarrow> (Inr (pkt # pkts), p2)))
      else (Inr [], p))"
  by pat_completeness auto

termination
  by (relation "measure (\<lambda>(opus, p). length (cd_tail p))")
    (auto simp: DOWNLINK_FRAME_SAMPLES_def dest!: sym [THEN encode_frame_tail])

declare take_complete_packets.simps [simp del]

definition float_to_i16 :: "'f f32_ops \<Rightarrow> 'f \<Rightarrow> int" where
  "float_to_i16 ops sample = f_round_i16 ops (f_mul ops (f_clamp1 ops sample) (f_of_int ops 32767))"

definition fade_in :: "'f f32_ops \<Rightarrow> 'f list \<Rightarrow> 'f list" where
  "fade_in ops xs =
     (let n = min FADE_IN_SAMPLES (length xs)
      in map (\<lambda>(i, x). if i < n then f_mul ops x (f_div ops (f_of_int ops (int i)) (f_of_int ops (int n))) else x)
           (enumerate 0 xs))"

definition fade_out_tail :: "'f f32_ops \<Rightarrow> int list \<Rightarrow> int list" where
  "fade_out_tail ops xs =
     (let n = min FADE_OUT_SAMPLES (length xs); start = length xs - n
      in if n \<le> 1 then xs
         else map (\<lambda>(i, x).
                if start \<le> i
                then f_round_i16 ops (f_mul ops (f_of_int ops x)
                       (f_sub ops (f_dec ops 1 0)
                          (f_div ops (f_of_int ops (int (i - start))) (f_of_int ops (int (n - 1))))))
                else x) (enumerate 0 xs))"

definition push_provider_pcm ::
    "'f f32_ops \<Rightarrow> ('e \<Rightarrow> pcm16 \<Rightarrow> packet option \<times> 'e) \<Rightarrow> nat \<Rightarrow> 'f list \<Rightarrow> ('f, 'e) downlink \<Rightarrow>
     (audio_error + packet list) \<times> ('f, 'e) downlink" where
  "push_provider_pcm ops opus rate samples p0 =
     (if rate \<notin> {48000, 24000} \<or> samples = [] \<or> (\<exists>r\<in>set_option (cd_rate p0). r \<noteq> rate)
      then (Inl InvalidProviderPcm, p0)
      else let xs = (if cd_first p0 then fade_in ops samples else samples);
               p = p0\<lparr>cd_rate := Some rate, cd_first := False\<rparr> in
        if rate = 48000
        then (case resample ops xs (cd_resampler p) of
                (Inl e, r) \<Rightarrow> (Inl e, p\<lparr>cd_resampler := r\<rparr>)
              | (Inr ys, r) \<Rightarrow>
                  take_complete_packets opus
                    (p\<lparr>cd_resampler := r, cd_tail := cd_tail p @ map (float_to_i16 ops) ys\<rparr>))
        else if \<not> list_all (f_finite ops) xs then (Inl InvalidProviderPcm, p)
        else take_complete_packets opus (p\<lparr>cd_tail := cd_tail p @ map (float_to_i16 ops) xs\<rparr>))"

definition downlink_finish ::
    "'f f32_ops \<Rightarrow> ('e \<Rightarrow> pcm16 \<Rightarrow> packet option \<times> 'e) \<Rightarrow> ('f, 'e) downlink \<Rightarrow>
     (audio_error + packet list) \<times> ('f, 'e) downlink" where
  "downlink_finish ops opus p0 =
     (let p = (if cd_rate p0 = Some 48000
               then p0\<lparr>cd_tail := cd_tail p0 @ map (float_to_i16 ops) (fst (resample_flush (cd_resampler p0)))\<rparr> else p0)
      in if cd_tail p = [] then (Inr [], p)
         else let tail = fade_out_tail ops (cd_tail p);
                  frame = take DOWNLINK_FRAME_SAMPLES tail @ replicate (DOWNLINK_FRAME_SAMPLES - length tail) 0
              in (case encode_frame opus frame (p\<lparr>cd_tail := []\<rparr>) of
                    (Inl e, q) \<Rightarrow> (Inl e, q)
                  | (Inr pkt, q) \<Rightarrow> (Inr [pkt], q)))"

section \<open>A whole delivery\<close>

text \<open>The complete frames of a sample sequence, and what is left over.\<close>

function full_frames :: "int list \<Rightarrow> int list list" where
  "full_frames xs =
     (if DOWNLINK_FRAME_SAMPLES \<le> length xs
      then take DOWNLINK_FRAME_SAMPLES xs # full_frames (drop DOWNLINK_FRAME_SAMPLES xs) else [])"
  by pat_completeness auto

termination
  by (relation "measure length") (auto simp: DOWNLINK_FRAME_SAMPLES_def)

declare full_frames.simps [simp del]

definition left_over :: "int list \<Rightarrow> int list" where
  "left_over xs = drop (length xs div DOWNLINK_FRAME_SAMPLES * DOWNLINK_FRAME_SAMPLES) xs"

lemma left_over_step:
  "DOWNLINK_FRAME_SAMPLES \<le> length xs \<Longrightarrow> left_over (drop DOWNLINK_FRAME_SAMPLES xs) = left_over xs"
  by (simp add: left_over_def DOWNLINK_FRAME_SAMPLES_def le_div_geq add.commute)

lemma left_over_short: "length xs < DOWNLINK_FRAME_SAMPLES \<Longrightarrow> left_over xs = xs"
  by (simp add: left_over_def)

lemma left_over_length: "length (left_over xs) < DOWNLINK_FRAME_SAMPLES"
  by (simp add: left_over_def DOWNLINK_FRAME_SAMPLES_def minus_div_mult_eq_mod)

lemma full_frames_short: "length xs < DOWNLINK_FRAME_SAMPLES \<Longrightarrow> full_frames xs = []"
  by (subst full_frames.simps) simp

lemma full_frames_step:
  "DOWNLINK_FRAME_SAMPLES \<le> length xs \<Longrightarrow>
     full_frames xs = take DOWNLINK_FRAME_SAMPLES xs # full_frames (drop DOWNLINK_FRAME_SAMPLES xs)"
  by (subst full_frames.simps) simp

lemma frames_append:
  "full_frames (xs @ ys) = full_frames xs @ full_frames (left_over xs @ ys) \<and>
   left_over (left_over xs @ ys) = left_over (xs @ ys)"
proof (induction xs rule: full_frames.induct)
  case (1 xs)
  show ?case
  proof (cases "DOWNLINK_FRAME_SAMPLES \<le> length xs")
    case True
    let ?n = DOWNLINK_FRAME_SAMPLES
    have "full_frames (xs @ ys) = take ?n xs # full_frames (drop ?n xs @ ys)"
      using True by (subst full_frames_step) auto
    moreover have "left_over (drop ?n xs @ ys) = left_over (xs @ ys)"
      using left_over_step [of "xs @ ys"] True by simp
    ultimately show ?thesis using 1 [OF True] True by (simp add: full_frames_step left_over_step)
  qed (simp add: left_over_short full_frames_short)
qed

text \<open>One encoder over a sequence of frames, stopping at the first frame it refuses.\<close>

fun encode_frames ::
    "('e \<Rightarrow> pcm16 \<Rightarrow> packet option \<times> 'e) \<Rightarrow> nat \<Rightarrow> 'e \<Rightarrow> int list list \<Rightarrow> (audio_error + packet list) \<times> 'e" where
  "encode_frames opus m e [] = (Inr [], e)"
| "encode_frames opus m e (f # fs) =
     (case downlink_encode (\<lambda>_. fst (opus e f)) m f of
        Inl err \<Rightarrow> (Inl err, snd (opus e f))
      | Inr pkt \<Rightarrow>
          (case encode_frames opus m (snd (opus e f)) fs of
             (Inl err, e2) \<Rightarrow> (Inl err, e2)
           | (Inr pkts, e2) \<Rightarrow> (Inr (pkt # pkts), e2)))"

lemma encode_frames_append:
  "encode_frames opus m e (fs @ gs) =
     (case encode_frames opus m e fs of
        (Inl err, e2) \<Rightarrow> (Inl err, e2)
      | (Inr pkts, e2) \<Rightarrow>
          (case encode_frames opus m e2 gs of
             (Inl err, e3) \<Rightarrow> (Inl err, e3)
           | (Inr rest, e3) \<Rightarrow> (Inr (pkts @ rest), e3)))"
  by (induction fs arbitrary: e) (auto split: sum.splits prod.splits)

lemma encode_frame_run:
  "length s = DOWNLINK_FRAME_SAMPLES \<Longrightarrow>
     encode_frame opus s p =
       (downlink_encode (\<lambda>_. fst (opus (cd_encoder p) s)) (cd_max_packet_bytes p) s,
        p\<lparr>cd_encoder := snd (opus (cd_encoder p) s)\<rparr>)"
  by (simp add: encode_frame_def downlink_frame_def split: prod.split)

lemma take_complete_run:
  "encode_frames opus (cd_max_packet_bytes p) (cd_encoder p) (full_frames (cd_tail p)) = (out, e) \<Longrightarrow>
     (case out of
        Inl err \<Rightarrow> fst (take_complete_packets opus p) = Inl err
      | Inr pkts \<Rightarrow>
          take_complete_packets opus p = (Inr pkts, p\<lparr>cd_encoder := e, cd_tail := left_over (cd_tail p)\<rparr>))"
proof (induction p arbitrary: out e rule: take_complete_packets.induct)
  case (1 opus p)
  let ?n = DOWNLINK_FRAME_SAMPLES
  show ?case
  proof (cases "?n \<le> length (cd_tail p)")
    case True
    let ?s = "take ?n (cd_tail p)" and ?q = "p\<lparr>cd_tail := drop ?n (cd_tail p)\<rparr>"
    let ?e = "snd (opus (cd_encoder p) ?s)"
    have run: "encode_frame opus ?s ?q = (downlink_encode (\<lambda>_. fst (opus (cd_encoder p) ?s)) (cd_max_packet_bytes p) ?s,
        ?q\<lparr>cd_encoder := ?e\<rparr>)"
      using encode_frame_run [of ?s opus ?q] True by simp
    show ?thesis
    proof (cases "downlink_encode (\<lambda>_. fst (opus (cd_encoder p) ?s)) (cd_max_packet_bytes p) ?s")
      case (Inl err)
      with run True 1(2) show ?thesis
        by (subst take_complete_packets.simps) (auto simp: full_frames_step)
    next
      case (Inr pkt)
      obtain out2 e2 where o2: "encode_frames opus (cd_max_packet_bytes p) ?e (full_frames (drop ?n (cd_tail p))) = (out2, e2)"
        by fastforce
      have ih: "case out2 of Inl err \<Rightarrow> fst (take_complete_packets opus (?q\<lparr>cd_encoder := ?e\<rparr>)) = Inl err
          | Inr pkts \<Rightarrow> take_complete_packets opus (?q\<lparr>cd_encoder := ?e\<rparr>) =
              (Inr pkts, ?q\<lparr>cd_encoder := e2, cd_tail := left_over (drop ?n (cd_tail p))\<rparr>)"
        using 1(1) [OF True run [unfolded Inr, symmetric] refl] o2 by (cases out2) simp_all
      show ?thesis
        using ih run Inr True 1(2) o2
        by (auto simp: full_frames_step left_over_step take_complete_packets.simps [of opus p]
            split: sum.splits prod.splits)
    qed
  next
    case False
    with 1(2) show ?thesis
      by (subst take_complete_packets.simps) (auto simp: full_frames_short left_over_short not_le)
  qed
qed

lemma take_complete_Inl:
  "encode_frames opus (cd_max_packet_bytes p) (cd_encoder p) (full_frames (cd_tail p)) = (Inl err, e) \<Longrightarrow>
     fst (take_complete_packets opus p) = Inl err"
  using take_complete_run [of opus p "Inl err" e] by simp

lemma take_complete_Inr:
  "encode_frames opus (cd_max_packet_bytes p) (cd_encoder p) (full_frames (cd_tail p)) = (Inr pkts, e) \<Longrightarrow>
     take_complete_packets opus p = (Inr pkts, p\<lparr>cd_encoder := e, cd_tail := left_over (cd_tail p)\<rparr>)"
  using take_complete_run [of opus p "Inr pkts" e] by simp

text \<open>Every chunk of a delivery in order, then the end of the delivery.\<close>

fun push_all ::
    "'f f32_ops \<Rightarrow> ('e \<Rightarrow> pcm16 \<Rightarrow> packet option \<times> 'e) \<Rightarrow> nat \<Rightarrow> 'f list list \<Rightarrow> ('f, 'e) downlink \<Rightarrow>
     (audio_error + packet list) \<times> ('f, 'e) downlink" where
  "push_all ops opus rate [] p = (Inr [], p)"
| "push_all ops opus rate (c # cs) p =
     (case push_provider_pcm ops opus rate c p of
        (Inl e, q) \<Rightarrow> (Inl e, q)
      | (Inr pkts, q) \<Rightarrow>
          (case push_all ops opus rate cs q of
             (Inl e, q2) \<Rightarrow> (Inl e, q2)
           | (Inr rest, q2) \<Rightarrow> (Inr (pkts @ rest), q2)))"

definition deliver ::
    "'f f32_ops \<Rightarrow> ('e \<Rightarrow> pcm16 \<Rightarrow> packet option \<times> 'e) \<Rightarrow> nat \<Rightarrow> 'f list list \<Rightarrow> ('f, 'e) downlink \<Rightarrow>
     audio_error + packet list" where
  "deliver ops opus rate cs p =
     (case push_all ops opus rate cs p of
        (Inl e, q) \<Rightarrow> Inl e
      | (Inr pkts, q) \<Rightarrow>
          (case fst (downlink_finish ops opus q) of
             Inl e \<Rightarrow> Inl e
           | Inr rest \<Rightarrow> Inr (pkts @ rest)))"

text \<open>
  The reference works on the whole reply \<open>xs\<close>: its first \<open>n\<close> samples faded in, at 24 kHz, cut into frames, the last
  one faded out and padded. The chunks the provider chose enter only through \<open>n\<close>: the code fades within the
  first chunk, over at most \<open>FADE_IN_SAMPLES\<close>.
\<close>

definition faded :: "'f f32_ops \<Rightarrow> nat \<Rightarrow> 'f list \<Rightarrow> 'f list" where
  "faded ops n xs =
     map (\<lambda>(i, x). if i < n then f_mul ops x (f_div ops (f_of_int ops (int i)) (f_of_int ops (int n))) else x) (enumerate 0 xs)"

definition fade_span :: "'f list list \<Rightarrow> nat" where
  "fade_span cs = (case cs of [] \<Rightarrow> 0 | c # _ \<Rightarrow> min FADE_IN_SAMPLES (length c))"

definition at_24k :: "'f f32_ops \<Rightarrow> nat \<Rightarrow> 'f list \<Rightarrow> int list" where
  "at_24k ops rate xs = map (float_to_i16 ops) (if rate = 48000 then decimated ops xs else xs)"

definition closing_frames :: "'f f32_ops \<Rightarrow> int list \<Rightarrow> int list list" where
  "closing_frames ops s =
     (if s = [] then [] else [fade_out_tail ops s @ replicate (DOWNLINK_FRAME_SAMPLES - length s) 0])"

definition delivered_frames :: "'f f32_ops \<Rightarrow> nat \<Rightarrow> nat \<Rightarrow> 'f list \<Rightarrow> int list list" where
  "delivered_frames ops rate n xs =
     (let s = at_24k ops rate (faded ops n xs) in full_frames s @ closing_frames ops (left_over s))"

definition faded_chunks :: "'f f32_ops \<Rightarrow> 'f list list \<Rightarrow> 'f list list" where
  "faded_chunks ops cs = (case cs of [] \<Rightarrow> [] | c # cs \<Rightarrow> fade_in ops c # cs)"

lemma faded_beyond: "n \<le> length xs \<Longrightarrow> faded ops n (xs @ ys) = faded ops n xs @ ys"
  by (rule nth_equalityI) (auto simp: faded_def enumerate_eq_zip nth_append)

lemma concat_faded_chunks: "concat (faded_chunks ops cs) = faded ops (fade_span cs) (concat cs)"
proof (cases cs)
  case Nil
  then show ?thesis by (simp add: faded_chunks_def faded_def)
next
  case (Cons c rest)
  have "fade_in ops c = faded ops (min FADE_IN_SAMPLES (length c)) c" by (simp add: fade_in_def faded_def Let_def)
  with Cons show ?thesis by (simp add: faded_chunks_def fade_span_def faded_beyond)
qed

definition tracks :: "'f f32_ops \<Rightarrow> nat \<Rightarrow> 'f list \<Rightarrow> ('f, 'e) downlink \<Rightarrow> bool" where
  "tracks ops rate xs p \<longleftrightarrow>
     cd_tail p = left_over (at_24k ops rate xs) \<and>
     (rate = 48000 \<longrightarrow> cd_resampler p = resampler_after ops xs) \<and> cd_rate p \<in> {None, Some rate}"

lemma decimated_prefix: "\<exists>t. decimated ops (xs @ ys) = decimated ops xs @ t"
proof (induction ys rule: rev_induct)
  case (snoc y ys)
  then show ?case using decimated_snoc [of ops "xs @ ys" y] by (metis append_assoc)
qed simp

lemma at_24k_prefix:
  "\<exists>t. at_24k ops rate (xs @ ys) = at_24k ops rate xs @ t"
  using decimated_prefix [of ops xs ys] by (cases "rate = 48000") (auto simp: at_24k_def)

lemma fade_in_Nil [simp]: "fade_in ops xs = [] \<longleftrightarrow> xs = []"
  by (auto simp: fade_in_def Let_def enumerate_eq_zip)

lemma fade_out_tail_length [simp]: "length (fade_out_tail ops s) = length s"
  by (simp add: fade_out_tail_def Let_def)

text \<open>One chunk: what was faded and converted is appended and every complete frame is encoded.\<close>

lemma push_run:
  assumes "tracks ops rate xs p" and rate: "rate \<in> {48000, 24000}" and "c \<noteq> []"
    and fade: "ys = (if cd_first p then fade_in ops c else c)" and "list_all (f_finite ops) ys"
  obtains s where "at_24k ops rate (xs @ ys) = at_24k ops rate xs @ s"
    and "\<And>out e. encode_frames opus (cd_max_packet_bytes p) (cd_encoder p)
             (full_frames (left_over (at_24k ops rate xs) @ s)) = (out, e) \<Longrightarrow>
           (case out of
              Inl err \<Rightarrow> fst (push_provider_pcm ops opus rate c p) = Inl err
            | Inr pkts \<Rightarrow> \<exists>q. push_provider_pcm ops opus rate c p = (Inr pkts, q) \<and> tracks ops rate (xs @ ys) q \<and>
                cd_encoder q = e \<and> cd_max_packet_bytes q = cd_max_packet_bytes p \<and> \<not> cd_first q \<and>
                cd_rate q = Some rate)"
proof (cases "rate = 48000")
  case True
  with assms obtain out where out: "resample ops ys (cd_resampler p) = (Inr out, resampler_after ops (xs @ ys))"
      "decimated ops (xs @ ys) = decimated ops xs @ out"
    using resample_after [of ops ys xs] by (auto simp: tracks_def)
  let ?s = "map (float_to_i16 ops) out"
  have s: "at_24k ops rate (xs @ ys) = at_24k ops rate xs @ ?s" using True out(2) by (simp add: at_24k_def)
  let ?q = "p\<lparr>cd_rate := Some rate, cd_first := False, cd_resampler := resampler_after ops (xs @ ys),
     cd_tail := left_over (at_24k ops rate xs) @ ?s\<rparr>"
  have "push_provider_pcm ops opus rate c p = take_complete_packets opus ?q"
    using assms True out by (auto simp: push_provider_pcm_def tracks_def Let_def)
  then show ?thesis
    using True frames_append [of "at_24k ops rate xs" ?s] s [unfolded True]
    by (intro that [OF s]) (auto simp: tracks_def take_complete_Inl take_complete_Inr split: sum.splits)
next
  case False
  let ?s = "map (float_to_i16 ops) ys"
  have s: "at_24k ops rate (xs @ ys) = at_24k ops rate xs @ ?s" using False by (simp add: at_24k_def)
  let ?q = "p\<lparr>cd_rate := Some rate, cd_first := False, cd_tail := left_over (at_24k ops rate xs) @ ?s\<rparr>"
  have "push_provider_pcm ops opus rate c p = take_complete_packets opus ?q"
    using assms False by (auto simp: push_provider_pcm_def tracks_def Let_def)
  then show ?thesis
    using False frames_append [of "at_24k ops rate xs" ?s]
    by (intro that [OF s]) (auto simp: tracks_def s take_complete_Inl take_complete_Inr split: sum.splits)
qed

lemma push_all_run:
  assumes "tracks ops rate xs p" and rate: "rate \<in> {48000, 24000}" and "list_all (\<lambda>c. c \<noteq> []) cs"
    and "ys = (if cd_first p then concat (faded_chunks ops cs) else concat cs)" and "list_all (f_finite ops) ys"
    and "encode_frames opus (cd_max_packet_bytes p) (cd_encoder p)
           (drop (length (full_frames (at_24k ops rate xs))) (full_frames (at_24k ops rate (xs @ ys)))) = (out, e)"
  shows "case out of
      Inl err \<Rightarrow> fst (push_all ops opus rate cs p) = Inl err
    | Inr pkts \<Rightarrow> \<exists>q. push_all ops opus rate cs p = (Inr pkts, q) \<and> tracks ops rate (xs @ ys) q \<and>
        cd_encoder q = e \<and> cd_max_packet_bytes q = cd_max_packet_bytes p"
  using assms
proof (induction cs arbitrary: xs ys p out e)
  case Nil
  then show ?case by (auto simp: faded_chunks_def)
next
  case (Cons c cs)
  let ?y = "if cd_first p then fade_in ops c else c" and ?z = "concat cs"
  let ?m = "cd_max_packet_bytes p" and ?a = "at_24k ops rate"
  have ys: "ys = ?y @ ?z" using Cons.prems(4) by (simp add: faded_chunks_def)
  have "c \<noteq> []" "list_all (f_finite ops) ?y" using Cons.prems(3) Cons.prems(5) [unfolded ys] by simp_all
  then obtain s where s: "?a (xs @ ?y) = ?a xs @ s"
    and run: "\<And>out e. encode_frames opus ?m (cd_encoder p) (full_frames (left_over (?a xs) @ s)) = (out, e) \<Longrightarrow>
           (case out of
              Inl err \<Rightarrow> fst (push_provider_pcm ops opus rate c p) = Inl err
            | Inr pkts \<Rightarrow> \<exists>q. push_provider_pcm ops opus rate c p = (Inr pkts, q) \<and> tracks ops rate (xs @ ?y) q \<and>
                cd_encoder q = e \<and> cd_max_packet_bytes q = ?m \<and> \<not> cd_first q \<and> cd_rate q = Some rate)"
    using push_run [OF Cons.prems(1) rate _ refl, of c opus] by blast
  obtain t where t: "?a (xs @ ?y @ ?z) = ?a (xs @ ?y) @ t"
    using at_24k_prefix [of ops rate "xs @ ?y" ?z] by auto
  let ?f1 = "full_frames (left_over (?a xs) @ s)" and ?f2 = "full_frames (left_over (?a (xs @ ?y)) @ t)"
  have f1: "full_frames (?a (xs @ ?y)) = full_frames (?a xs) @ ?f1" unfolding s using frames_append by blast
  have f2: "full_frames (?a (xs @ ?y @ ?z)) = full_frames (?a (xs @ ?y)) @ ?f2" unfolding t using frames_append by blast
  have enc: "encode_frames opus ?m (cd_encoder p) (?f1 @ ?f2) = (out, e)"
    using Cons.prems(6) ys f1 f2 by simp
  obtain o1 e1 where o1: "encode_frames opus ?m (cd_encoder p) ?f1 = (o1, e1)" by fastforce
  show ?case
  proof (cases o1)
    case (Inl err)
    then show ?thesis
      using enc run [OF o1] o1 by (auto simp: encode_frames_append split: prod.splits sum.splits)
  next
    case (Inr pkts)
    from run [OF o1] Inr obtain q where q: "push_provider_pcm ops opus rate c p = (Inr pkts, q)"
        "tracks ops rate (xs @ ?y) q" "cd_encoder q = e1" "cd_max_packet_bytes q = ?m" "\<not> cd_first q" by auto
    obtain o2 e2 where o2: "encode_frames opus ?m e1 ?f2 = (o2, e2)" by fastforce
    have "case o2 of
        Inl err \<Rightarrow> fst (push_all ops opus rate cs q) = Inl err
      | Inr more_pkts \<Rightarrow> \<exists>r. push_all ops opus rate cs q = (Inr more_pkts, r) \<and> tracks ops rate ((xs @ ?y) @ ?z) r \<and>
          cd_encoder r = e2 \<and> cd_max_packet_bytes r = cd_max_packet_bytes q"
      using Cons.prems(3,5) ys q f2 o2 by (intro Cons.IH rate) simp_all
    then show ?thesis
      using enc o1 o2 Inr q ys by (auto simp: encode_frames_append split: sum.splits prod.splits)
  qed
qed

lemma full_frames_length: "list_all (\<lambda>f. length f = DOWNLINK_FRAME_SAMPLES) (full_frames xs)"
proof (induction xs rule: full_frames.induct)
  case (1 xs)
  then show ?case by (subst full_frames.simps) simp
qed

lemma closing_frames_length:
  "length s < DOWNLINK_FRAME_SAMPLES \<Longrightarrow> list_all (\<lambda>f. length f = DOWNLINK_FRAME_SAMPLES) (closing_frames ops s)"
  by (simp add: closing_frames_def)

lemma delivered_frames_length: "list_all (\<lambda>f. length f = DOWNLINK_FRAME_SAMPLES) (delivered_frames ops rate n xs)"
  by (simp add: delivered_frames_def Let_def full_frames_length closing_frames_length left_over_length)

lemma deliver_run:
  assumes "rate \<in> {48000, 24000}" and "list_all (\<lambda>c. c \<noteq> []) cs"
    and "list_all (f_finite ops) (faded ops (fade_span cs) (concat cs))"
  shows "deliver ops opus rate cs (downlink_new ops encoder max_bytes) =
    fst (encode_frames opus max_bytes encoder (delivered_frames ops rate (fade_span cs) (concat cs)))"
proof -
  let ?p = "downlink_new ops encoder max_bytes" and ?xs = "faded ops (fade_span cs) (concat cs)"
  have dec0: "decimated ops [] = []" by (simp add: decimated_def)
  have start: "tracks ops rate [] ?p"
    by (simp add: tracks_def downlink_new_def at_24k_def dec0 left_over_def resampler_after_Nil)
  have none: "full_frames (at_24k ops rate []) = []"
    by (simp add: at_24k_def dec0 full_frames_short DOWNLINK_FRAME_SAMPLES_def)
  obtain out e where o: "encode_frames opus max_bytes encoder (full_frames (at_24k ops rate ?xs)) = (out, e)"
    by fastforce
  have all: "case out of
      Inl err \<Rightarrow> fst (push_all ops opus rate cs ?p) = Inl err
    | Inr pkts \<Rightarrow> \<exists>q. push_all ops opus rate cs ?p = (Inr pkts, q) \<and> tracks ops rate ([] @ ?xs) q \<and>
        cd_encoder q = e \<and> cd_max_packet_bytes q = cd_max_packet_bytes ?p"
    using o by (intro push_all_run [OF start assms(1,2) _ assms(3)]) (simp_all add: none downlink_new_def concat_faded_chunks)
  show ?thesis
  proof (cases out)
    case (Inl err)
    then show ?thesis using all o
      by (auto simp: deliver_def delivered_frames_def Let_def encode_frames_append split: prod.splits sum.splits)
  next
    case (Inr pkts)
    with all obtain q where q: "push_all ops opus rate cs ?p = (Inr pkts, q)" "tracks ops rate ?xs q"
        "cd_encoder q = e" "cd_max_packet_bytes q = max_bytes" by (auto simp: downlink_new_def)
    let ?s = "left_over (at_24k ops rate ?xs)"
    have "fst (downlink_finish ops opus q) = fst (encode_frames opus max_bytes e (closing_frames ops ?s))"
      using q(2-4) left_over_length [of "at_24k ops rate ?xs"]
      by (auto simp: downlink_finish_def closing_frames_def tracks_def resample_flush_def encode_frame_run Let_def
          split: sum.splits prod.splits)
    then show ?thesis using q o Inr
      by (auto simp: deliver_def delivered_frames_def Let_def encode_frames_append split: prod.splits sum.splits)
  qed
qed

text \<open>
  C31: the pipeline implements its reference. A delivery hands the encoder exactly the frames of the reference and
  nothing else: the samples of the whole reply, faded in over the first samples (384, or the first chunk when that is
  shorter), resampled as one convolution when the provider runs at 48 kHz, converted and cut into consecutive frames of
  1440 samples, the last one faded out and padded with silence. It returns the packets of all of them in order, or the
  first error the encoder gives. So two ways to cut the same finite audio into chunks give the same result when
  their first chunks make the same fade, as any two do whose first chunks have 384 samples or more.
\<close>

theorem delivery_refines_reference:
  assumes "rate \<in> {48000, 24000}" and "list_all (\<lambda>c. c \<noteq> []) cs"
    and "list_all (f_finite ops) (faded ops (fade_span cs) (concat cs))"
  shows "deliver ops opus rate cs (downlink_new ops encoder max_bytes) =
           fst (encode_frames opus max_bytes encoder (delivered_frames ops rate (fade_span cs) (concat cs))) \<and>
         list_all (\<lambda>f. length f = 1440) (delivered_frames ops rate (fade_span cs) (concat cs)) \<and>
         (\<forall>cs'. list_all (\<lambda>c. c \<noteq> []) cs' \<and> concat cs' = concat cs \<and> fade_span cs' = fade_span cs \<longrightarrow>
            deliver ops opus rate cs' (downlink_new ops encoder max_bytes) =
            deliver ops opus rate cs (downlink_new ops encoder max_bytes))"
proof -
  have "deliver ops opus rate cs' (downlink_new ops encoder max_bytes) =
      fst (encode_frames opus max_bytes encoder (delivered_frames ops rate (fade_span cs) (concat cs)))"
    if "list_all (\<lambda>c. c \<noteq> []) cs'" "concat cs' = concat cs" "fade_span cs' = fade_span cs" for cs'
    using deliver_run [OF assms(1) that(1), of ops opus encoder max_bytes] assms(3) that(2,3) by simp
  moreover have "list_all (\<lambda>f. length f = 1440) (delivered_frames ops rate (fade_span cs) (concat cs))"
    using delivered_frames_length [of ops rate "fade_span cs" "concat cs"] by (simp add: DOWNLINK_FRAME_SAMPLES_def)
  ultimately show ?thesis using assms(2) by auto
qed

lemma delivery_refines_reference_witness:
  "deliver int_ops (\<lambda>n _. (Some [7, 2], Suc n)) 24000 [[5, 6], [7], [8]] (downlink_new int_ops (0 :: nat) 100) =
     fst (encode_frames (\<lambda>n _. (Some [7, 2], Suc n)) 100 0 (delivered_frames int_ops 24000 2 [5, 6, 7, 8])) \<and>
   deliver int_ops (\<lambda>n _. (Some [7, 2], Suc n)) 24000 [[5, 6], [7, 8]] (downlink_new int_ops (0 :: nat) 100) =
     deliver int_ops (\<lambda>n _. (Some [7, 2], Suc n)) 24000 [[5, 6], [7], [8]] (downlink_new int_ops 0 100)"
proof -
  have span: "fade_span [[5, 6 :: int], [7], [8]] = 2" "fade_span [[5, 6 :: int], [7, 8]] = 2"
    by (simp_all add: fade_span_def FADE_IN_SAMPLES_def)
  have "list_all (f_finite int_ops) (faded int_ops (fade_span [[5, 6], [7], [8]]) (concat [[5, 6], [7], [8]]))"
    by (simp add: int_ops_def list_all_iff)
  from delivery_refines_reference [OF _ _ this, of 24000 "\<lambda>n _. (Some [7, 2], Suc n)" 0 100] span show ?thesis by simp
qed

end
