(* ===== verification/Provider_Registry.thy ===== *)
theory Provider_Registry
  imports Capacity Text
begin

text \<open>
  The data and the lock-protected operations of the provider runtime registry
  (\<open>services/provider/runtime\<close>): identities, limits, error codes, the entry of one provider
  version, and every section of \<open>registry.rs\<close> that runs under the registry mutex, each as one
  function on the registry. A resource is the number of its handle, a health flag the number of
  its \<open>AtomicBool\<close>, whose value is read from \<open>flags\<close>; the clock is the argument \<open>now\<close>.
\<close>

section \<open>Identities and snapshots\<close>

datatype provider_identity =
    Database int
  | Draft nat
  | Deployment rstr rstr

record provider_version =
  pv_identity :: provider_identity
  pv_revision :: int

definition version_database :: "int \<Rightarrow> int \<Rightarrow> provider_version" where
  "version_database i revision = \<lparr>pv_identity = Database i, pv_revision = revision\<rparr>"

type_synonym resource_key = "nat list"

record desired_provider =
  dp_id :: int
  dp_key :: rstr
  dp_kind :: rstr
  dp_adapter :: rstr
  dp_config :: rstr
  dp_secret :: "rstr option"
  dp_revision :: int

datatype secret_ref_error = SecretLength | SecretCharacter | SecretWhitespace

definition secret_ref_parse :: "rstr \<Rightarrow> secret_ref_error + rstr" where
  "secret_ref_parse value =
     (if value = [] \<or>
         (if starts_with (lit ''sealed:'') value then 98304 else 256) < byte_len value
      then Inl SecretLength
      else if list_ex (\<lambda>c. \<not> (32 \<le> c \<and> c \<le> 126)) value then Inl SecretCharacter
      else if list_all (\<lambda>c. c = 32) value \<or> hd value = 32 \<or> last value = 32
      then Inl SecretWhitespace
      else Inr value)"

definition bounded_snapshot :: "desired_provider \<Rightarrow> bool" where
  "bounded_snapshot s =
     (dp_key s \<noteq> [] \<and> byte_len (dp_key s) \<le> 128 \<and> byte_len (dp_kind s) \<le> 16 \<and>
      byte_len (dp_adapter s) \<le> 64 \<and> byte_len (dp_config s) \<le> 65536 \<and>
      (case dp_secret s of None \<Rightarrow> True
         | Some v \<Rightarrow> (case secret_ref_parse v of Inr _ \<Rightarrow> True | Inl _ \<Rightarrow> False)))"

definition valid_snapshot :: "desired_provider \<Rightarrow> bool" where
  "valid_snapshot s =
     (bounded_snapshot s \<and> 0 \<le> dp_id s \<and> 0 < dp_revision s \<and> (dp_id s \<noteq> 0 \<or> dp_revision s = 1))"

definition deployment_version :: "desired_provider \<Rightarrow> provider_version" where
  "deployment_version s =
     \<lparr>pv_identity = Deployment (dp_kind s) (dp_key s), pv_revision = dp_revision s\<rparr>"

section \<open>Limits, states and errors\<close>

datatype runtime_error =
    Busy | MemoryPressure | Timeout | Unavailable | QuarantinedError
  | ArtifactsNotReady | Configuration | ShuttingDown

fun runtime_error_code :: "runtime_error \<Rightarrow> string" where
  "runtime_error_code Busy = ''provider_runtime_busy''"
| "runtime_error_code MemoryPressure = ''provider_runtime_memory_pressure''"
| "runtime_error_code Timeout = ''provider_runtime_timeout''"
| "runtime_error_code Unavailable = ''provider_runtime_unavailable''"
| "runtime_error_code QuarantinedError = ''provider_runtime_quarantined''"
| "runtime_error_code ArtifactsNotReady = ''provider_artifacts_not_ready''"
| "runtime_error_code Configuration = ''provider_config_invalid''"
| "runtime_error_code ShuttingDown = ''server_is_shutting_down''"

record runtime_limits =
  max_parallel_loads :: usize
  max_pending_loads :: usize
  max_waiters :: usize
  max_resident_bytes :: u64
  max_resources :: usize
  max_version_entries :: usize
  admission_timeout_ms :: u64
  failure_cooldown_ms :: u64
  idle_ttl_ms :: u64

definition limits_validate :: "runtime_limits \<Rightarrow> runtime_error + unit" where
  "limits_validate l =
     (if \<not> (1 \<le> max_parallel_loads l \<and> max_parallel_loads l \<le> 16) \<or>
         256 < max_pending_loads l \<or>
         \<not> (1 \<le> max_waiters l \<and> max_waiters l \<le> 4096) \<or>
         max_resident_bytes l = 0 \<or>
         \<not> (1 \<le> max_resources l \<and> max_resources l \<le> 256) \<or>
         \<not> (max_resources l \<le> max_version_entries l \<and> max_version_entries l \<le> 4096) \<or>
         \<not> (1 \<le> admission_timeout_ms l \<and> admission_timeout_ms l \<le> 120000) \<or>
         \<not> (1 \<le> failure_cooldown_ms l \<and> failure_cooldown_ms l \<le> 60000) \<or>
         \<not> (1 \<le> idle_ttl_ms l \<and> idle_ttl_ms l \<le> 86400000)
      then Inl Configuration else Inr ())"

datatype runtime_state =
    Cold | Queued | Loading | Ready | Failed | Draining | Quarantined

section \<open>The registry\<close>

text \<open>
  A \<open>watch::Sender\<close> is the value last sent and the number of values sent: a receiver wakes when
  that number has moved since it last looked.
\<close>

record watch =
  w_value :: runtime_state
  w_epoch :: nat

definition watch_channel :: "runtime_state \<Rightarrow> watch" where
  "watch_channel s = \<lparr>w_value = s, w_epoch = 0\<rparr>"

definition send_replace :: "runtime_state \<Rightarrow> watch \<Rightarrow> watch" where
  "send_replace s w = \<lparr>w_value = s, w_epoch = w_epoch w + 1\<rparr>"

record 'c entry =
  e_owner :: provider_version
  e_key :: "resource_key option"
  e_retained :: bool
  e_physical :: "admission option"
  e_flags :: "nat list"
  e_capabilities :: "'c option"
  e_gen :: u64
  e_state :: runtime_state
  e_changed :: watch
  e_resource :: "nat option"
  e_error :: "runtime_error option"
  e_bytes :: u64
  e_leases :: usize
  e_waiters :: usize
  e_idle :: instant
  e_retry :: instant
  e_unload :: bool

record 'c registry =
  entries :: "(provider_version, 'c entry) hmap"
  evicted :: "(resource_key option \<times> provider_version) list"
  retained_deployments :: "provider_version list"
  next_generation :: u64
  reserved_bytes :: u64
  build_attempts :: u64
  quotas :: "(provider_identity, usize \<times> admission) hmap"
  global_quotas :: "(rstr, usize \<times> admission) hmap"

definition registry_new :: "'c registry" where
  "registry_new = \<lparr>entries = [], evicted = [], retained_deployments = [], next_generation = 1,
     reserved_bytes = 0, build_attempts = 0, quotas = [], global_quotas = []\<rparr>"

definition entry_alias :: "instant \<Rightarrow> 'c entry \<Rightarrow> 'c entry" where
  "entry_alias now e = \<lparr>e_owner = e_owner e, e_key = e_key e, e_retained = False,
     e_physical = e_physical e, e_flags = e_flags e, e_capabilities = e_capabilities e,
     e_gen = e_gen e, e_state = e_state e, e_changed = watch_channel (e_state e),
     e_resource = e_resource e, e_error = e_error e, e_bytes = 0, e_leases = 0, e_waiters = 0,
     e_idle = now, e_retry = e_retry e, e_unload = e_unload e\<rparr>"

definition healthy :: "(nat \<Rightarrow> bool) \<Rightarrow> 'c entry \<Rightarrow> bool" where
  "healthy flags e = list_all flags (e_flags e)"

text \<open>Loops over the entries that share one owner.\<close>

definition adjust_group ::
    "provider_version \<Rightarrow> ('c entry \<Rightarrow> 'c entry) \<Rightarrow> 'c registry \<Rightarrow> 'c registry" where
  "adjust_group owner f r = r\<lparr>entries := hm_adjust_where (\<lambda>_ e. e_owner e = owner) f (entries r)\<rparr>"

definition adjust_entry ::
    "provider_version \<Rightarrow> ('c entry \<Rightarrow> 'c entry) \<Rightarrow> 'c registry \<Rightarrow> 'c registry" where
  "adjust_entry v f r = r\<lparr>entries := hm_adjust v f (entries r)\<rparr>"

definition set_state :: "runtime_state \<Rightarrow> 'c entry \<Rightarrow> 'c entry" where
  "set_state s e = e\<lparr>e_state := s, e_changed := send_replace s (e_changed e)\<rparr>"

definition quarantine :: "provider_version \<Rightarrow> 'c registry \<Rightarrow> 'c registry" where
  "quarantine owner r =
     adjust_group owner (\<lambda>e. (set_state Quarantined e)\<lparr>e_error := Some QuarantinedError\<rparr>) r"

definition unreclaimable_bytes :: "'c registry \<Rightarrow> nat" where
  "unreclaimable_bytes r =
     sum_list (map (\<lambda>(v, e). e_bytes e)
       (filter (\<lambda>(v, e). v = e_owner e \<and> e_state e = Quarantined \<and> e_resource e = None) (entries r)))"

definition waiter_drop :: "provider_version \<Rightarrow> u64 \<Rightarrow> 'c registry \<Rightarrow> 'c registry" where
  "waiter_drop v g r =
     (case hm_get (entries r) v of
        None \<Rightarrow> r
      | Some e \<Rightarrow> if e_gen e = g
                  then adjust_entry v (\<lambda>e. e\<lparr>e_waiters := wrapping_sub (e_waiters e) 1\<rparr>) r else r)"

definition release :: "instant \<Rightarrow> provider_version \<Rightarrow> u64 \<Rightarrow> 'c registry \<Rightarrow> 'c registry" where
  "release now v g r =
     (case hm_get (entries r) v of
        None \<Rightarrow> r
      | Some e \<Rightarrow> if e_gen e = g
                  then adjust_entry v (\<lambda>e. let e' = e\<lparr>e_leases := wrapping_sub (e_leases e) 1\<rparr>
                         in if e_leases e' = 0 then e'\<lparr>e_idle := now\<rparr> else e') r
                  else r)"

section \<open>Admission of one version\<close>

text \<open>Failed entries without waiters leave once their cooldown is over.\<close>

definition purge_failed :: "instant \<Rightarrow> 'c registry \<Rightarrow> 'c registry" where
  "purge_failed now r = r\<lparr>entries :=
     hm_retain (\<lambda>_ e. \<not> (e_state e = Failed \<and> e_waiters e = 0 \<and> e_retry e \<le> now)) (entries r)\<rparr>"

definition retain_quotas :: "'c registry \<Rightarrow> 'c registry" where
  "retain_quotas r = r\<lparr>quotas :=
     hm_retain (\<lambda>i _. i \<in> set (map (\<lambda>ve. pv_identity (fst ve)) (entries r))) (quotas r)\<rparr>"

definition quota_conflict ::
    "provider_version \<Rightarrow> rstr \<Rightarrow> usize \<Rightarrow> usize option \<Rightarrow> 'c registry \<Rightarrow> bool" where
  "quota_conflict v kind slots global_capacity r =
     ((case hm_get (quotas r) (pv_identity v) of None \<Rightarrow> False | Some (existing, _) \<Rightarrow> existing \<noteq> slots) \<or>
      (case global_capacity of None \<Rightarrow> False
       | Some capacity \<Rightarrow> (case hm_get (global_quotas r) kind of None \<Rightarrow> False
                             | Some (existing, _) \<Rightarrow> existing \<noteq> capacity)))"

definition idle_aliases :: "'c registry \<Rightarrow> (provider_version \<times> instant) list" where
  "idle_aliases r =
     sort_key snd (map (\<lambda>(v, e). (v, e_idle e))
       (filter (\<lambda>(v, e). v \<noteq> e_owner e \<and> \<not> e_retained e \<and> e_leases e = 0 \<and> e_waiters e = 0)
         (entries r)))"

text \<open>At the entry limit the least recently used idle alias leaves.\<close>

definition make_room :: "runtime_limits \<Rightarrow> 'c registry \<Rightarrow> 'c registry" where
  "make_room limits r =
     (if max_version_entries limits \<le> length (entries r)
      then (case idle_aliases r of [] \<Rightarrow> r
              | (alias, _) # _ \<Rightarrow> r\<lparr>entries := hm_remove alias (entries r)\<rparr>)
      else r)"

definition find_shared ::
    "(nat \<Rightarrow> bool) \<Rightarrow> resource_key option \<Rightarrow> 'c registry \<Rightarrow> (provider_version \<times> 'c entry) option" where
  "find_shared flags key r =
     (case key of None \<Rightarrow> None
      | Some k \<Rightarrow> List.find (\<lambda>(v, e). v = e_owner e \<and> 0 < e_bytes e \<and>
           (e_state e = Queued \<or> e_state e = Loading \<or> e_state e = Ready) \<and>
           healthy flags e \<and> e_key e = Some k) (entries r))"

definition resource_count :: "'c registry \<Rightarrow> nat" where
  "resource_count r = length (filter (\<lambda>(v, e). 0 < e_bytes e) (entries r))"

definition entry_fresh ::
    "instant \<Rightarrow> provider_version \<Rightarrow> resource_key option \<Rightarrow> bool \<Rightarrow> u64 \<Rightarrow> u64 \<Rightarrow> 'c entry" where
  "entry_fresh now v key retained generation bytes =
     \<lparr>e_owner = v, e_key = key, e_retained = retained, e_physical = None, e_flags = [],
      e_capabilities = None, e_gen = generation, e_state = Queued,
      e_changed = watch_channel Queued, e_resource = None, e_error = None, e_bytes = bytes,
      e_leases = 0, e_waiters = 0, e_idle = now, e_retry = now, e_unload = False\<rparr>"

definition insert_alias :: "instant \<Rightarrow> provider_version \<Rightarrow> 'c entry \<Rightarrow> 'c registry \<Rightarrow> 'c registry" where
  "insert_alias now v e r =
     r\<lparr>entries := hm_insert v ((entry_alias now e)\<lparr>e_retained := v \<in> set (retained_deployments r)\<rparr>)
         (entries r)\<rparr>"

definition insert_fresh ::
    "instant \<Rightarrow> provider_version \<Rightarrow> resource_key option \<Rightarrow> u64 \<Rightarrow> 'c registry \<Rightarrow> 'c registry" where
  "insert_fresh now v key bytes r =
     r\<lparr>next_generation := next_generation r + 1,
       reserved_bytes := reserved_bytes r + bytes,
       entries := hm_insert v
         (entry_fresh now v key (v \<in> set (retained_deployments r)) (next_generation r) bytes)
         (entries r)\<rparr>"

definition memory_pressure :: "runtime_limits \<Rightarrow> u64 \<Rightarrow> 'c registry \<Rightarrow> bool" where
  "memory_pressure limits bytes r =
     (max_resources limits \<le> resource_count r \<or>
      saturating_sub (max_resident_bytes limits) (reserved_bytes r) < bytes)"

definition is_reload :: "resource_key option \<Rightarrow> provider_version \<Rightarrow> 'c registry \<Rightarrow> bool" where
  "is_reload key v r =
     list_ex (\<lambda>(k, old). case key of None \<Rightarrow> old = v | Some current \<Rightarrow> k = Some current) (evicted r)"

definition join_waiter :: "provider_version \<Rightarrow> 'c registry \<Rightarrow> 'c registry" where
  "join_waiter v r = adjust_entry v (\<lambda>e. e\<lparr>e_waiters := e_waiters e + 1\<rparr>) r"

section \<open>Waiting for an entry\<close>

datatype wait_outcome =
    Pending
  | GotLease nat
  | Readmit
  | WaitError runtime_error

text \<open>
  One pass of \<open>wait_for_ready\<close> under the lock. An unhealthy resource is quarantined, with its
  whole group, before the entry is read.
\<close>

definition quarantine_unhealthy ::
    "(nat \<Rightarrow> bool) \<Rightarrow> 'c entry \<Rightarrow> 'c registry \<Rightarrow> 'c registry" where
  "quarantine_unhealthy flags e r =
     (if e_state e = Ready \<and> \<not> healthy flags e then quarantine (e_owner e) r else r)"

definition wait_pass ::
    "bool \<Rightarrow> (nat \<Rightarrow> bool) \<Rightarrow> provider_version \<Rightarrow> u64 \<Rightarrow> 'c registry \<Rightarrow> wait_outcome \<times> 'c registry" where
  "wait_pass is_open flags v g r =
     (case hm_get (entries r) v of
        None \<Rightarrow> (Readmit, r)
      | Some e0 \<Rightarrow>
          if e_gen e0 \<noteq> g then (Readmit, r)
          else let r = quarantine_unhealthy flags e0 r in
            (case hm_get (entries r) v of
               None \<Rightarrow> (Readmit, r)
             | Some e \<Rightarrow>
                 (case e_state e of
                    Ready \<Rightarrow>
                      if \<not> is_open then (WaitError ShuttingDown, r)
                      else (case e_resource e of
                              None \<Rightarrow> (WaitError Unavailable, r)
                            | Some res \<Rightarrow>
                                (GotLease res, adjust_entry v (\<lambda>e. e\<lparr>e_leases := e_leases e + 1\<rparr>) r))
                  | Failed \<Rightarrow> (WaitError (case e_error e of None \<Rightarrow> Unavailable | Some x \<Rightarrow> x), r)
                  | Quarantined \<Rightarrow> (WaitError (case e_error e of None \<Rightarrow> Unavailable | Some x \<Rightarrow> x), r)
                  | Cold \<Rightarrow> (Readmit, r)
                  | _ \<Rightarrow> (Pending, r))))"

section \<open>Builds\<close>

definition build_start :: "provider_version \<Rightarrow> 'c registry \<Rightarrow> 'c registry" where
  "build_start v r = adjust_group v (set_state Loading) (r\<lparr>build_attempts := build_attempts r + 1\<rparr>)"

text \<open>
  What the completion reads from a built resource; \<open>None\<close> when reading it panicked.
\<close>

record 'c built_metadata =
  bm_capabilities :: "'c option"
  bm_flags :: "nat list"
  bm_key :: "resource_key option"
  bm_physical :: "admission option"

definition empty_metadata :: "'c built_metadata" where
  "empty_metadata = \<lparr>bm_capabilities = None, bm_flags = [], bm_key = None, bm_physical = None\<rparr>"

type_synonym 'c build_outcome = "runtime_error + nat \<times> 'c built_metadata option"

text \<open>\<open>completed_entry\<close> is the match on the outcome: the new entry and the bytes it gives back.\<close>

definition completed_entry ::
    "instant \<Rightarrow> u64 \<Rightarrow> 'c build_outcome \<Rightarrow> 'c entry \<Rightarrow> 'c entry \<times> u64" where
  "completed_entry now cooldown outcome e =
     (case outcome of
        Inr (res, metadata) \<Rightarrow>
          let m = (case metadata of None \<Rightarrow> empty_metadata | Some m \<Rightarrow> m);
              invalid = (metadata = None \<or> (bm_key m \<noteq> None \<and> bm_key m \<noteq> e_key e));
              e1 = e\<lparr>e_physical := bm_physical m, e_flags := bm_flags m,
                     e_capabilities := bm_capabilities m, e_resource := Some res\<rparr>;
              e2 = (if invalid then e1\<lparr>e_error := Some QuarantinedError, e_state := Quarantined\<rparr>
                    else e1\<lparr>e_state := Ready\<rparr>)
          in (e2\<lparr>e_idle := now\<rparr>, 0)
      | Inl QuarantinedError \<Rightarrow> (e\<lparr>e_state := Quarantined, e_error := Some QuarantinedError\<rparr>, 0)
      | Inl err \<Rightarrow> (e\<lparr>e_state := Failed, e_error := Some err, e_retry := now + cooldown, e_bytes := 0\<rparr>,
                    e_bytes e))"

definition publish :: "'c entry \<Rightarrow> 'c entry" where
  "publish e = e\<lparr>e_changed := send_replace (e_state e) (e_changed e)\<rparr>"

definition copy_outcome :: "'c entry \<Rightarrow> 'c entry \<Rightarrow> 'c entry" where
  "copy_outcome owner alias = publish (alias\<lparr>e_state := e_state owner, e_resource := e_resource owner,
     e_error := e_error owner, e_retry := e_retry owner, e_capabilities := e_capabilities owner,
     e_flags := e_flags owner, e_physical := e_physical owner\<rparr>)"

definition complete ::
    "instant \<Rightarrow> u64 \<Rightarrow> provider_version \<Rightarrow> u64 \<Rightarrow> 'c build_outcome \<Rightarrow> 'c registry \<Rightarrow> 'c registry" where
  "complete now cooldown v g outcome r =
     (case hm_get (entries r) v of
        None \<Rightarrow> r
      | Some e \<Rightarrow>
          if e_gen e \<noteq> g then r
          else let (e', released) = completed_entry now cooldown outcome e;
                   owner = publish e';
                   r1 = adjust_entry v (\<lambda>_. owner) r;
                   r2 = r1\<lparr>entries := hm_adjust_where (\<lambda>c a. c \<noteq> v \<and> e_owner a = v)
                           (copy_outcome owner) (entries r1)\<rparr>
               in r2\<lparr>reserved_bytes := wrapping_sub (reserved_bytes r2) released\<rparr>)"

section \<open>Draining\<close>

record idle_drain =
  id_version :: provider_version
  id_gen :: u64
  id_resource :: nat

definition group_entries :: "provider_version \<Rightarrow> 'c registry \<Rightarrow> 'c entry list" where
  "group_entries owner r = filter (\<lambda>e. e_owner e = owner) (hm_values (entries r))"

definition alias_idle :: "bool \<Rightarrow> bool \<Rightarrow> bool \<Rightarrow> instant \<Rightarrow> u64 \<Rightarrow> 'c entry \<Rightarrow> bool" where
  "alias_idle quarantined stopping expired_only now ttl e =
     (e_leases e = 0 \<and> e_waiters e = 0 \<and> (\<not> e_retained e \<or> quarantined \<or> stopping) \<and>
      (\<not> expired_only \<or> ttl \<le> saturating_sub now (e_idle e)))"

definition drainable ::
    "bool \<Rightarrow> bool \<Rightarrow> instant \<Rightarrow> u64 \<Rightarrow> 'c registry \<Rightarrow> provider_version \<Rightarrow> 'c entry \<Rightarrow> bool" where
  "drainable stopping expired_only now ttl r v e =
     (v = e_owner e \<and> e_resource e \<noteq> None \<and> \<not> e_unload e \<and>
      (e_state e = Ready \<or> e_state e = Quarantined) \<and>
      list_all (alias_idle (e_state e = Quarantined) stopping expired_only now ttl) (group_entries v r))"

definition unhealthy_owners :: "(nat \<Rightarrow> bool) \<Rightarrow> 'c registry \<Rightarrow> provider_version list" where
  "unhealthy_owners flags r =
     map fst (filter (\<lambda>(v, e). v = e_owner e \<and> e_state e = Ready \<and> \<not> healthy flags e) (entries r))"

definition latest_idle :: "provider_version \<Rightarrow> 'c registry \<Rightarrow> instant" where
  "latest_idle v r = fold max (map e_idle (group_entries v r)) 0"

definition drain_candidates ::
    "bool \<Rightarrow> bool \<Rightarrow> instant \<Rightarrow> u64 \<Rightarrow> 'c registry \<Rightarrow> provider_version list" where
  "drain_candidates stopping expired_only now ttl r =
     map fst (sort_key (\<lambda>(v, quarantined, idle). (if quarantined then 1 else 0 :: nat))
       (sort_key (\<lambda>(v, quarantined, idle). idle)
         (map (\<lambda>(v, e). (v, e_state e = Quarantined, latest_idle v r))
           (filter (\<lambda>(v, e). drainable stopping expired_only now ttl r v e) (entries r)))))"

definition start_unload :: "'c entry \<Rightarrow> 'c entry" where
  "start_unload e = (set_state Draining e)\<lparr>e_unload := True\<rparr>"

text \<open>
  The loop over the candidates. The \<open>expect\<close> on the owner and its resource is the \<open>None\<close> case;
  a candidate has both.
\<close>

fun start_drains :: "provider_version list \<Rightarrow> 'c registry \<Rightarrow> (idle_drain list \<times> 'c registry) option" where
  "start_drains [] r = Some ([], r)"
| "start_drains (v # vs) r =
     (case hm_get (entries r) v of
        None \<Rightarrow> None
      | Some e \<Rightarrow>
          (case e_resource e of
             None \<Rightarrow> None
           | Some res \<Rightarrow>
               (case start_drains vs (adjust_group v start_unload r) of
                  None \<Rightarrow> None
                | Some (ds, r') \<Rightarrow>
                    Some (\<lparr>id_version = v, id_gen = e_gen e, id_resource = res\<rparr> # ds, r'))))"

definition begin_drains ::
    "bool \<Rightarrow> (nat \<Rightarrow> bool) \<Rightarrow> bool \<Rightarrow> usize option \<Rightarrow> instant \<Rightarrow> u64 \<Rightarrow> 'c registry \<Rightarrow>
     (idle_drain list \<times> 'c registry) option" where
  "begin_drains stopping flags expired_only max_drains now ttl r0 =
     (let r = fold quarantine (unhealthy_owners flags r0) r0;
          candidates = drain_candidates stopping expired_only now ttl r
      in start_drains (case max_drains of None \<Rightarrow> candidates | Some n \<Rightarrow> take n candidates) r)"

definition push_evicted ::
    "runtime_limits \<Rightarrow> resource_key option \<times> provider_version \<Rightarrow> 'c registry \<Rightarrow> 'c registry" where
  "push_evicted limits kv r =
     r\<lparr>evicted := (if max_version_entries limits \<le> length (evicted r) then tl (evicted r) else evicted r) @ [kv]\<rparr>"

text \<open>The answer is whether an eviction was counted.\<close>

definition finish_drain ::
    "runtime_limits \<Rightarrow> instant \<Rightarrow> provider_version \<Rightarrow> u64 \<Rightarrow> bool \<Rightarrow> 'c registry \<Rightarrow> bool \<times> 'c registry" where
  "finish_drain limits now v g acknowledged r =
     (case hm_get (entries r) v of
        None \<Rightarrow> (False, r)
      | Some e \<Rightarrow>
          if e_gen e \<noteq> g then (False, r)
          else if \<not> acknowledged
          then (False, quarantine v (adjust_group v (\<lambda>e. e\<lparr>e_unload := False, e_idle := now\<rparr>) r))
          else let r1 = push_evicted limits (e_key e, v) r;
                   r2 = r1\<lparr>entries := hm_retain (\<lambda>_ e. e_owner e \<noteq> v) (entries r1)\<rparr>
               in (True, r2\<lparr>reserved_bytes := wrapping_sub (reserved_bytes r2) (e_bytes e)\<rparr>))"

definition drain_timeout :: "provider_version \<Rightarrow> u64 \<Rightarrow> 'c registry \<Rightarrow> 'c registry" where
  "drain_timeout v g r =
     (case hm_get (entries r) v of
        None \<Rightarrow> r
      | Some e \<Rightarrow> if e_gen e = g \<and> e_unload e then quarantine v r else r)"

definition only_unreclaimable_reserved :: "'c registry \<Rightarrow> bool" where
  "only_unreclaimable_reserved r = (reserved_bytes r = unreclaimable_bytes r)"

section \<open>Retention and inspection\<close>

definition retain_deployment ::
    "(nat \<Rightarrow> bool) \<Rightarrow> provider_version \<Rightarrow> 'c registry \<Rightarrow> (runtime_error + unit) \<times> 'c registry" where
  "retain_deployment flags v r =
     (case pv_identity v of
        Deployment _ _ \<Rightarrow>
          (case hm_get (entries r) v of
             None \<Rightarrow> (Inl Unavailable, r)
           | Some e \<Rightarrow>
               if e_state e \<noteq> Ready \<or> \<not> healthy flags e then (Inl Unavailable, r)
               else (Inr (), (adjust_entry v (\<lambda>e. e\<lparr>e_retained := True\<rparr>) r)
                       \<lparr>retained_deployments := List.insert v (retained_deployments r)\<rparr>))
      | _ \<Rightarrow> (Inl Configuration, r))"

definition usable :: "(nat \<Rightarrow> bool) \<Rightarrow> 'c entry \<Rightarrow> bool" where
  "usable flags e = (e_state e = Ready \<and> healthy flags e)"

definition deployment_ready :: "(nat \<Rightarrow> bool) \<Rightarrow> rstr \<Rightarrow> rstr \<Rightarrow> 'c registry \<Rightarrow> bool" where
  "deployment_ready flags kind key r =
     (case hm_get (entries r) \<lparr>pv_identity = Deployment kind key, pv_revision = 1\<rparr> of
        None \<Rightarrow> False | Some e \<Rightarrow> usable flags e)"

record inspection =
  in_desired_revision :: int
  in_desired_state :: runtime_state
  in_ready_revisions :: "int list"
  in_can_prepare :: bool
  in_failure_code :: "string option"

definition inspect_version ::
    "bool \<Rightarrow> bool \<Rightarrow> (nat \<Rightarrow> bool) \<Rightarrow> provider_version \<Rightarrow> 'c registry \<Rightarrow> inspection" where
  "inspect_version is_open stopping flags v r =
     (let desired = hm_get (entries r) v in
      \<lparr>in_desired_revision = pv_revision v,
       in_desired_state = (case desired of None \<Rightarrow> Cold
          | Some e \<Rightarrow> if e_state e = Ready \<and> \<not> healthy flags e then Quarantined else e_state e),
       in_ready_revisions = sort (map (\<lambda>(c, e). pv_revision c)
          (filter (\<lambda>(c, e). pv_identity c = pv_identity v \<and> usable flags e) (entries r))),
       in_can_prepare = (is_open \<and> \<not> stopping),
       in_failure_code = (case desired of None \<Rightarrow> None
          | Some e \<Rightarrow> if e_state e = Ready \<and> \<not> healthy flags e
                      then Some (runtime_error_code QuarantinedError)
                      else map_option runtime_error_code (e_error e))\<rparr>)"

definition ready_capabilities_version :: "(nat \<Rightarrow> bool) \<Rightarrow> provider_version \<Rightarrow> 'c registry \<Rightarrow> 'c option" where
  "ready_capabilities_version flags v r =
     (case hm_get (entries r) v of
        None \<Rightarrow> None | Some e \<Rightarrow> if usable flags e then e_capabilities e else None)"

definition version_state :: "provider_version \<Rightarrow> 'c registry \<Rightarrow> runtime_state" where
  "version_state v r = (case hm_get (entries r) v of None \<Rightarrow> Cold | Some e \<Rightarrow> e_state e)"

definition tracked_database_ids :: "'c registry \<Rightarrow> int list" where
  "tracked_database_ids r =
     remdups_adj (sort (List.map_filter
       (\<lambda>(v, _). case pv_identity v of Database i \<Rightarrow> Some i | _ \<Rightarrow> None) (entries r)))"

record accounting =
  ac_reserved_bytes :: u64
  ac_resources :: usize
  ac_version_entries :: usize
  ac_logical_usage :: usize
  ac_global_usage :: usize
  ac_physical_usage :: usize
  ac_build_bytes :: u64
  ac_draining_bytes :: u64
  ac_quarantined_bytes :: u64
  ac_active_leases :: usize
  ac_waiters :: usize
  ac_build_attempts :: u64

definition bytes_where :: "('c entry \<Rightarrow> bool) \<Rightarrow> 'c registry \<Rightarrow> nat" where
  "bytes_where p r = sum_list (map e_bytes (filter p (hm_values (entries r))))"

definition registry_accounting :: "adm_store \<Rightarrow> 'c registry \<Rightarrow> accounting" where
  "registry_accounting store r =
     \<lparr>ac_reserved_bytes = reserved_bytes r,
      ac_resources = resource_count r,
      ac_version_entries = length (entries r),
      ac_logical_usage = sum_list (map (\<lambda>(_, q). view_usage store q) (hm_values (quotas r))),
      ac_global_usage = sum_list (map (\<lambda>(_, q). view_usage store q) (hm_values (global_quotas r))),
      ac_physical_usage = sum_list (map (view_usage store) (List.map_filter e_physical
         (map snd (filter (\<lambda>(v, e). v = e_owner e) (entries r))))),
      ac_build_bytes = bytes_where (\<lambda>e. e_state e = Queued \<or> e_state e = Loading) r,
      ac_draining_bytes = bytes_where (\<lambda>e. e_state e = Draining) r,
      ac_quarantined_bytes = bytes_where (\<lambda>e. e_state e = Quarantined) r,
      ac_active_leases = sum_list (map e_leases (hm_values (entries r))),
      ac_waiters = sum_list (map e_waiters (hm_values (entries r))),
      ac_build_attempts = build_attempts r\<rparr>"

end
