(* ===== verification/Provider_Safety.thy ===== *)
theory Provider_Safety
  imports Provider_Registry
begin

text \<open>
  The invariant of the provider registry and its preservation by every locked section: each
  entry is consistent with its state, the aliases of a resource agree with its owner, the
  reserved bytes are the sum of the entries' bytes and stay within the deployment's limits.
\<close>

section \<open>The invariant\<close>

definition root_of :: "'c registry \<Rightarrow> provider_version \<Rightarrow> 'c entry option" where
  "root_of r v = (case hm_get (entries r) v of
     None \<Rightarrow> None | Some e \<Rightarrow> if e_owner e = v then Some e else None)"

definition synced :: "'c entry \<Rightarrow> 'c entry \<Rightarrow> bool" where
  "synced a b = (e_state a = e_state b \<and> e_resource a = e_resource b \<and>
     e_flags a = e_flags b \<and> e_unload a = e_unload b)"

definition idle_entry :: "'c entry \<Rightarrow> bool" where
  "idle_entry e = (e_resource e = None \<and> e_flags e = [] \<and> e_leases e = 0 \<and> \<not> e_unload e)"

definition state_ok :: "'c entry \<Rightarrow> bool" where
  "state_ok e = (case e_state e of
     Cold \<Rightarrow> False
   | Queued \<Rightarrow> idle_entry e
   | Loading \<Rightarrow> idle_entry e
   | Failed \<Rightarrow> idle_entry e \<and> e_bytes e = 0 \<and> e_error e \<noteq> None
   | Ready \<Rightarrow> e_resource e \<noteq> None \<and> \<not> e_unload e
   | Draining \<Rightarrow> e_resource e \<noteq> None \<and> e_leases e = 0 \<and> e_unload e
   | Quarantined \<Rightarrow> e_error e \<noteq> None \<and> (e_unload e \<longrightarrow> e_resource e \<noteq> None \<and> e_leases e = 0))"

definition entry_ok :: "u64 \<Rightarrow> provider_version \<Rightarrow> 'c entry \<Rightarrow> bool" where
  "entry_ok n v e =
     (e_gen e < n \<and> state_ok e \<and> w_value (e_changed e) = e_state e \<and>
      (if v = e_owner e then e_state e \<noteq> Failed \<longrightarrow> 0 < e_bytes e else e_bytes e = 0))"

definition alias_ok :: "'c registry \<Rightarrow> provider_version \<Rightarrow> 'c entry \<Rightarrow> bool" where
  "alias_ok r v e =
     (v = e_owner e \<or>
      (case root_of r (e_owner e) of
         None \<Rightarrow> e_state e = Failed
       | Some b \<Rightarrow> synced e b \<or> (e_state e = Failed \<and> e_state b = Queued)))"

definition gens_ok :: "'c registry \<Rightarrow> bool" where
  "gens_ok r = (\<forall>v e v' e'. hm_get (entries r) v = Some e \<longrightarrow> hm_get (entries r) v' = Some e' \<longrightarrow>
     e_gen e = e_gen e' \<longrightarrow> e_owner e = e_owner e')"

definition bytes_list :: "'c registry \<Rightarrow> nat list" where
  "bytes_list r = map (\<lambda>kv. e_bytes (snd kv)) (entries r)"

definition limits_ok :: "runtime_limits \<Rightarrow> 'c registry \<Rightarrow> bool" where
  "limits_ok limits r =
     (reserved_bytes r = sum_list (bytes_list r) \<and> reserved_bytes r \<le> max_resident_bytes limits \<and>
      resource_count r \<le> max_resources limits \<and> length (entries r) \<le> max_version_entries limits)"

definition reg_inv :: "runtime_limits \<Rightarrow> 'c registry \<Rightarrow> bool" where
  "reg_inv limits r =
     (hm_wf (entries r) \<and>
      (\<forall>v e. hm_get (entries r) v = Some e \<longrightarrow> entry_ok (next_generation r) v e \<and> alias_ok r v e) \<and>
      gens_ok r \<and> limits_ok limits r)"

lemma reg_invI [inv_intros]:
  assumes "hm_wf (entries r)"
    and "\<And>v e. hm_get (entries r) v = Some e \<Longrightarrow> entry_ok (next_generation r) v e"
    and "\<And>v e. hm_get (entries r) v = Some e \<Longrightarrow> alias_ok r v e"
    and "\<And>v e v' e'. hm_get (entries r) v = Some e \<Longrightarrow> hm_get (entries r) v' = Some e' \<Longrightarrow>
      e_gen e = e_gen e' \<Longrightarrow> e_owner e = e_owner e'"
    and "limits_ok limits r"
  shows "reg_inv limits r"
  using assms unfolding reg_inv_def gens_ok_def by blast

lemma reg_invD:
  assumes "reg_inv limits r"
  shows "hm_wf (entries r)"
    and "hm_get (entries r) v = Some e \<Longrightarrow> entry_ok (next_generation r) v e"
    and "hm_get (entries r) v = Some e \<Longrightarrow> alias_ok r v e"
    and "hm_get (entries r) v = Some e \<Longrightarrow> hm_get (entries r) v' = Some e' \<Longrightarrow>
      e_gen e = e_gen e' \<Longrightarrow> e_owner e = e_owner e'"
    and "limits_ok limits r"
  using assms unfolding reg_inv_def gens_ok_def by blast+

lemma reg_inv_new: "reg_inv limits registry_new"
  by (simp add: reg_inv_def registry_new_def gens_ok_def limits_ok_def bytes_list_def resource_count_def)

section \<open>Lookups and bytes after the elementary updates\<close>

lemma get_adjust_group [keyed_simps]:
  "hm_get (entries (adjust_group w f r)) v =
     map_option (\<lambda>e. if e_owner e = w then f e else e) (hm_get (entries r) v)"
  by (simp add: adjust_group_def keyed_simps)

lemma get_adjust_entry [keyed_simps]:
  "hm_get (entries (adjust_entry w f r)) v =
     (if v = w then map_option f (hm_get (entries r) v) else hm_get (entries r) v)"
  by (simp add: adjust_entry_def keyed_simps)

lemma adjust_group_twice:
  "(\<And>e. e_owner (f e) = e_owner e) \<Longrightarrow>
     adjust_group w g (adjust_group w f r) = adjust_group w (\<lambda>e. g (f e)) r"
  by (simp add: adjust_group_def hm_adjust_where_def comp_def case_prod_unfold)

lemma adjust_simps [simp]:
  "next_generation (adjust_group w f r) = next_generation r"
  "next_generation (adjust_entry w f r) = next_generation r"
  "reserved_bytes (adjust_group w f r) = reserved_bytes r"
  "reserved_bytes (adjust_entry w f r) = reserved_bytes r"
  "hm_wf (entries (adjust_group w f r)) = hm_wf (entries r)"
  "hm_wf (entries (adjust_entry w f r)) = hm_wf (entries r)"
  "length (entries (adjust_group w f r)) = length (entries r)"
  "length (entries (adjust_entry w f r)) = length (entries r)"
  by (simp_all add: adjust_group_def adjust_entry_def)

lemma bytes_adjust_where:
  "(\<And>v e. e_bytes (f e) = e_bytes e) \<Longrightarrow>
     map (\<lambda>kv. e_bytes (snd kv)) (hm_adjust_where p f m) = map (\<lambda>kv. e_bytes (snd kv)) m"
  by (induction m) (auto simp: hm_adjust_where_def)

lemma resource_count_list: "resource_count r = length (filter (\<lambda>b. 0 < b) (bytes_list r))"
  by (simp add: resource_count_def bytes_list_def filter_map case_prod_unfold comp_def)

lemma length_filter_pos:
  "length (filter (\<lambda>b. 0 < b) (map f xs)) = sum_list (map (\<lambda>x. if 0 < f x then 1 else 0 :: nat) xs)"
  for f :: "'a \<Rightarrow> nat"
  by (induction xs) auto

lemma limits_ok_cong:
  "bytes_list r' = bytes_list r \<Longrightarrow> reserved_bytes r' = reserved_bytes r \<Longrightarrow>
     limits_ok limits r' = limits_ok limits r"
  by (auto simp: limits_ok_def resource_count_list bytes_list_def dest: map_eq_imp_length_eq)

lemma limits_ok_adjust_group:
  "(\<And>e. e_bytes (f e) = e_bytes e) \<Longrightarrow> limits_ok limits (adjust_group w f r) = limits_ok limits r"
  by (rule limits_ok_cong) (simp_all add: bytes_list_def adjust_group_def bytes_adjust_where)

lemma limits_ok_adjust_entry:
  "(\<And>e. e_bytes (f e) = e_bytes e) \<Longrightarrow> limits_ok limits (adjust_entry w f r) = limits_ok limits r"
  by (rule limits_ok_cong) (simp_all add: bytes_list_def adjust_entry_def hm_adjust_def bytes_adjust_where)

lemma bytes_filter_zero:
  "(\<And>x. x \<in> set m \<Longrightarrow> \<not> p x \<Longrightarrow> b x = (0::nat)) \<Longrightarrow>
     sum_list (map b (filter p m)) = sum_list (map b m) \<and>
     length (filter (\<lambda>n. 0 < n) (map b (filter p m))) = length (filter (\<lambda>n. 0 < n) (map b m))"
  by (induction m) auto

lemma limits_ok_retain:
  assumes "limits_ok limits r"
    and "\<And>v e. (v, e) \<in> set (entries r) \<Longrightarrow> \<not> p v e \<Longrightarrow> e_bytes e = 0"
  shows "limits_ok limits (r\<lparr>entries := hm_retain p (entries r)\<rparr>)"
proof -
  have "sum_list (bytes_list (r\<lparr>entries := hm_retain p (entries r)\<rparr>)) = sum_list (bytes_list r) \<and>
      resource_count (r\<lparr>entries := hm_retain p (entries r)\<rparr>) = resource_count r"
    unfolding resource_count_list
    using bytes_filter_zero [of "entries r" "\<lambda>kv. p (fst kv) (snd kv)" "\<lambda>kv. e_bytes (snd kv)"] assms(2)
    by (auto simp: bytes_list_def hm_retain_def)
  with assms(1) length_retain_le [of p "entries r"] show ?thesis
    by (simp add: limits_ok_def)
qed

lemma bytes_retain_group:
  assumes "hm_wf m" and "hm_get m v = Some c" and "\<not> p v c"
    and "\<And>x e. (x, e) \<in> set m \<Longrightarrow> \<not> p x e \<Longrightarrow> x \<noteq> v \<Longrightarrow> e_bytes e = 0"
  shows "sum_list (map (\<lambda>kv. e_bytes (snd kv)) (hm_retain p m)) + e_bytes c =
      sum_list (map (\<lambda>kv. e_bytes (snd kv)) m) \<and>
    length (filter (\<lambda>b. 0 < b) (map (\<lambda>kv. e_bytes (snd kv)) (hm_retain p m))) \<le>
      length (filter (\<lambda>b. 0 < b) (map (\<lambda>kv. e_bytes (snd kv)) m))"
  using assms
proof (induction m)
  case (Cons kv m)
  obtain x e where kv: "kv = (x, e)" by (cases kv)
  show ?case
  proof (cases "x = v")
    case True
    have "\<And>y. y \<in> set m \<Longrightarrow> \<not> p (fst y) (snd y) \<Longrightarrow> e_bytes (snd y) = 0"
      using Cons.prems True by (force simp: kv hm_wf_def)
    from bytes_filter_zero [of m "\<lambda>y. p (fst y) (snd y)" "\<lambda>y. e_bytes (snd y)", OF this]
    show ?thesis using Cons.prems True by (auto simp: kv hm_retain_def)
  next
    case False
    with Cons.prems have "hm_wf m" "hm_get m v = Some c" by (auto simp: kv hm_wf_def)
    moreover have "(y, d) \<in> set m \<Longrightarrow> \<not> p y d \<Longrightarrow> y \<noteq> v \<Longrightarrow> e_bytes d = 0" for y d
      using Cons.prems(4) [of y d] by (simp add: kv)
    ultimately have ih: "sum_list (map (\<lambda>kv. e_bytes (snd kv)) (hm_retain p m)) + e_bytes c =
        sum_list (map (\<lambda>kv. e_bytes (snd kv)) m) \<and>
      length (filter (\<lambda>b. 0 < b) (map (\<lambda>kv. e_bytes (snd kv)) (hm_retain p m))) \<le>
        length (filter (\<lambda>b. 0 < b) (map (\<lambda>kv. e_bytes (snd kv)) m))"
      using Cons.IH Cons.prems(3) by blast
    have "\<not> p x e \<Longrightarrow> e_bytes e = 0" using Cons.prems(4) [of x e] False by (simp add: kv)
    with ih show ?thesis by (cases "p x e") (simp_all add: kv hm_retain_def)
  qed
qed simp

lemma root_of_adjust_group:
  "(\<And>e. e_owner (f e) = e_owner e) \<Longrightarrow>
     root_of (adjust_group w f r) v = (if v = w then map_option f (root_of r v) else root_of r v)"
  by (auto simp: root_of_def keyed_simps split: option.splits)

lemma root_of_adjust_entry:
  "(\<And>e. e_owner (f e) = e_owner e) \<Longrightarrow>
     root_of (adjust_entry w f r) v = (if v = w then map_option f (root_of r v) else root_of r v)"
  by (auto simp: root_of_def keyed_simps split: option.splits)

lemma root_of_Some: "root_of r v = Some e \<longleftrightarrow> hm_get (entries r) v = Some e \<and> e_owner e = v"
  by (auto simp: root_of_def split: option.splits if_splits)

text \<open>An alias that is not a leftover of a failed build has an owner in the same state.\<close>

lemma alias_synced:
  "reg_inv limits r \<Longrightarrow> hm_get (entries r) v = Some e \<Longrightarrow> v \<noteq> e_owner e \<Longrightarrow> e_state e \<noteq> Failed \<Longrightarrow>
     \<exists>b. root_of r (e_owner e) = Some b \<and> synced e b"
  by (drule (1) reg_invD(3)) (auto simp: alias_ok_def split: option.splits)

lemma group_synced:
  "reg_inv limits r \<Longrightarrow> root_of r w = Some b \<Longrightarrow> e_state b \<noteq> Queued \<Longrightarrow>
     hm_get (entries r) v = Some e \<Longrightarrow> e_owner e = w \<Longrightarrow> synced e b"
proof (cases "v = w")
  case True
  assume "root_of r w = Some b" "hm_get (entries r) v = Some e"
  with True show ?thesis by (simp add: root_of_Some synced_def)
next
  case False
  assume inv: "reg_inv limits r" and b: "root_of r w = Some b" "e_state b \<noteq> Queued"
    and e: "hm_get (entries r) v = Some e" "e_owner e = w"
  from reg_invD(3) [OF inv e(1)] b e(2) False show ?thesis by (simp add: alias_ok_def)
qed

lemma alias_ok_transfer:
  assumes "alias_ok r v e" and "e_owner e' = e_owner e" and "synced e' e"
    and "\<And>b. root_of r (e_owner e) = Some b \<Longrightarrow> \<exists>b'. root_of r' (e_owner e) = Some b' \<and> synced b' b"
    and "root_of r (e_owner e) = None \<Longrightarrow> root_of r' (e_owner e) = None"
  shows "alias_ok r' v e'"
proof (cases "root_of r (e_owner e)")
  case None
  with assms show ?thesis by (auto simp: alias_ok_def synced_def)
next
  case (Some b)
  with assms(4) obtain b' where "root_of r' (e_owner e) = Some b'" "synced b' b" by blast
  with Some assms(1-3) show ?thesis by (auto simp: alias_ok_def synced_def)
qed

lemma reg_inv_cong:
  "entries r' = entries r \<Longrightarrow> next_generation r' = next_generation r \<Longrightarrow>
     reserved_bytes r' = reserved_bytes r \<Longrightarrow> reg_inv limits r' = reg_inv limits r"
  by (simp add: reg_inv_def gens_ok_def limits_ok_def alias_ok_def root_of_def bytes_list_def
      resource_count_def)

section \<open>Updates of one entry that keep its life cycle\<close>

definition same_life :: "('c entry \<Rightarrow> 'c entry) \<Rightarrow> bool" where
  "same_life f = (\<forall>e. e_owner (f e) = e_owner e \<and> e_gen (f e) = e_gen e \<and> e_bytes (f e) = e_bytes e \<and>
     e_state (f e) = e_state e \<and> e_resource (f e) = e_resource e \<and> e_flags (f e) = e_flags e \<and>
     e_unload (f e) = e_unload e)"

lemma reg_inv_adjust_entry:
  assumes inv: "reg_inv limits r" and f: "same_life f"
    and ok: "\<And>e. hm_get (entries r) w = Some e \<Longrightarrow> entry_ok (next_generation r) w (f e)"
  shows "reg_inv limits (adjust_entry w f r)"
proof (rule reg_invI)
  have root: "root_of (adjust_entry w f r) v = (if v = w then map_option f (root_of r v) else root_of r v)" for v
    using f by (intro root_of_adjust_entry) (simp add: same_life_def)
  fix v e assume "hm_get (entries (adjust_entry w f r)) v = Some e"
  then obtain e0 where e0: "hm_get (entries r) v = Some e0" and e: "e = (if v = w then f e0 else e0)"
    by (auto simp: keyed_simps split: if_splits)
  show "entry_ok (next_generation (adjust_entry w f r)) v e"
    using reg_invD(2) [OF inv e0] ok e0 e by auto
  show "alias_ok (adjust_entry w f r) v e"
    by (rule alias_ok_transfer [OF reg_invD(3) [OF inv e0]])
      (use f in \<open>auto simp: e root same_life_def synced_def\<close>)
next
  fix v e v' e'
  assume "hm_get (entries (adjust_entry w f r)) v = Some e"
    and "hm_get (entries (adjust_entry w f r)) v' = Some e'" and gen: "e_gen e = e_gen e'"
  then obtain d d' where d: "hm_get (entries r) v = Some d" "hm_get (entries r) v' = Some d'"
    and e: "e = (if v = w then f d else d)" "e' = (if v' = w then f d' else d')"
    by (auto simp: keyed_simps split: if_splits)
  from reg_invD(4) [OF inv d] gen f show "e_owner e = e_owner e'"
    by (auto simp: e same_life_def split: if_splits)
next
  show "limits_ok limits (adjust_entry w f r)"
    using reg_invD(5) [OF inv] f by (subst limits_ok_adjust_entry) (simp_all add: same_life_def)
qed (use reg_invD(1) [OF inv] in simp)

lemmas entry_ok_defs = entry_ok_def state_ok_def idle_entry_def

lemma unloading_entry:
  "entry_ok n v e \<Longrightarrow> e_unload e \<Longrightarrow>
     e_state e \<in> {Draining, Quarantined} \<and> e_leases e = 0 \<and> e_resource e \<noteq> None"
  by (auto simp: entry_ok_defs split: runtime_state.splits)

lemma reg_inv_join: "reg_inv limits r \<Longrightarrow> reg_inv limits (join_waiter v r)"
  unfolding join_waiter_def
  by (rule reg_inv_adjust_entry)
    (auto simp: same_life_def entry_ok_defs dest!: reg_invD(2) split: runtime_state.splits)

lemma reg_inv_waiter_drop: "reg_inv limits r \<Longrightarrow> reg_inv limits (waiter_drop v g r)"
  by (auto simp: waiter_drop_def split: option.splits intro!: reg_inv_adjust_entry)
    (auto simp: same_life_def entry_ok_defs dest!: reg_invD(2) split: runtime_state.splits)

lemma reg_inv_release:
  assumes inv: "reg_inv limits r" and l: "hm_get (entries r) v = Some e" "0 < e_leases e"
  shows "reg_inv limits (release now v g r)"
proof -
  have "reg_inv limits (adjust_entry v (\<lambda>e. let e' = e\<lparr>e_leases := wrapping_sub (e_leases e) 1\<rparr>
                         in if e_leases e' = 0 then e'\<lparr>e_idle := now\<rparr> else e') r)"
    by (rule reg_inv_adjust_entry [OF inv])
      (use l reg_invD(2) [OF inv l(1)] in
        \<open>auto simp: same_life_def entry_ok_defs Let_def split: runtime_state.splits\<close>)
  with inv l show ?thesis by (simp add: release_def)
qed

lemma reg_inv_retain_deployment:
  "reg_inv limits r \<Longrightarrow> reg_inv limits (snd (retain_deployment flags v r))"
proof -
  assume inv: "reg_inv limits r"
  have "reg_inv limits (adjust_entry v (\<lambda>e. e\<lparr>e_retained := True\<rparr>) r)"
    by (rule reg_inv_adjust_entry [OF inv])
      (auto simp: same_life_def entry_ok_defs dest!: reg_invD(2) [OF inv] split: runtime_state.splits)
  then have "reg_inv limits ((adjust_entry v (\<lambda>e. e\<lparr>e_retained := True\<rparr>) r)\<lparr>retained_deployments := vs\<rparr>)" for vs
    by (subst reg_inv_cong) simp_all
  with inv show ?thesis
    by (cases "pv_identity v") (simp_all add: retain_deployment_def split: option.splits)
qed

section \<open>Updates of a whole group\<close>

lemma reg_inv_adjust_group:
  assumes inv: "reg_inv limits r"
    and f: "\<And>e. e_owner (f e) = e_owner e \<and> e_gen (f e) = e_gen e \<and> e_bytes (f e) = e_bytes e"
    and b: "root_of r w = Some b"
    and ok: "\<And>v e. hm_get (entries r) v = Some e \<Longrightarrow> e_owner e = w \<Longrightarrow>
      entry_ok (next_generation r) v (f e) \<and> synced (f e) (f b)"
  shows "reg_inv limits (adjust_group w f r)"
proof (rule reg_invI)
  have root: "root_of (adjust_group w f r) v = (if v = w then map_option f (root_of r v) else root_of r v)" for v
    using f by (intro root_of_adjust_group) simp
  fix v e assume "hm_get (entries (adjust_group w f r)) v = Some e"
  then obtain d where d: "hm_get (entries r) v = Some d" and e: "e = (if e_owner d = w then f d else d)"
    by (auto simp: keyed_simps)
  show "entry_ok (next_generation (adjust_group w f r)) v e"
    using reg_invD(2) [OF inv d] ok [OF d] e by auto
  show "alias_ok (adjust_group w f r) v e"
  proof (cases "e_owner d = w")
    case True
    with ok [OF d] f [of d] b show ?thesis by (simp add: alias_ok_def e root)
  next
    case False
    with reg_invD(3) [OF inv d] show ?thesis by (simp add: alias_ok_def e root)
  qed
next
  fix v e v' e'
  assume "hm_get (entries (adjust_group w f r)) v = Some e"
    and "hm_get (entries (adjust_group w f r)) v' = Some e'" and gen: "e_gen e = e_gen e'"
  then obtain d d' where d: "hm_get (entries r) v = Some d" "hm_get (entries r) v' = Some d'"
    and e: "e = (if e_owner d = w then f d else d)" "e' = (if e_owner d' = w then f d' else d')"
    by (auto simp: keyed_simps)
  from reg_invD(4) [OF inv d] gen f show "e_owner e = e_owner e'"
    by (auto simp: e split: if_splits)
next
  show "limits_ok limits (adjust_group w f r)"
    using reg_invD(5) [OF inv] f by (subst limits_ok_adjust_group) simp_all
qed (use reg_invD(1) [OF inv] in simp)

lemma set_state_fields [simp]:
  "e_owner (set_state s e) = e_owner e" "e_gen (set_state s e) = e_gen e"
  "e_bytes (set_state s e) = e_bytes e" "e_state (set_state s e) = s"
  "e_resource (set_state s e) = e_resource e" "e_flags (set_state s e) = e_flags e"
  "e_unload (set_state s e) = e_unload e" "e_leases (set_state s e) = e_leases e"
  "e_waiters (set_state s e) = e_waiters e" "e_error (set_state s e) = e_error e"
  "w_value (e_changed (set_state s e)) = s" "e_key (set_state s e) = e_key e"
  "e_idle (set_state s e) = e_idle e" "e_retained (set_state s e) = e_retained e"
  by (simp_all add: set_state_def send_replace_def)

lemma reg_inv_quarantine:
  assumes inv: "reg_inv limits r" and b: "root_of r w = Some b" and "e_state b \<notin> {Queued, Failed}"
  shows "reg_inv limits (quarantine w r)"
  unfolding quarantine_def
proof (rule reg_inv_adjust_group [OF inv _ b])
  fix v e assume e: "hm_get (entries r) v = Some e" "e_owner e = w"
  with group_synced [OF inv b _ e] assms(3) have "synced e b" by simp
  with reg_invD(2) [OF inv e(1)] assms(3)
  show "entry_ok (next_generation r) v ((set_state Quarantined e)\<lparr>e_error := Some QuarantinedError\<rparr>) \<and>
      synced ((set_state Quarantined e)\<lparr>e_error := Some QuarantinedError\<rparr>)
        ((set_state Quarantined b)\<lparr>e_error := Some QuarantinedError\<rparr>)"
    by (auto simp: entry_ok_defs synced_def split: runtime_state.splits if_splits)
qed simp

lemma reg_inv_quarantine_unhealthy:
  assumes inv: "reg_inv limits r" and e: "hm_get (entries r) v = Some e"
  shows "reg_inv limits (quarantine_unhealthy flags e r)"
proof (cases "e_state e = Ready \<and> \<not> healthy flags e")
  case True
  then have "\<exists>b. root_of r (e_owner e) = Some b \<and> synced e b"
    using alias_synced [OF inv e] e by (cases "v = e_owner e") (auto simp: root_of_Some synced_def)
  with True reg_inv_quarantine [OF inv] show ?thesis
    by (auto simp: quarantine_unhealthy_def synced_def)
qed (auto simp: quarantine_unhealthy_def inv)

lemma reg_inv_wait:
  assumes inv: "reg_inv limits r"
  shows "reg_inv limits (snd (wait_pass is_open flags v g r))"
proof (cases "hm_get (entries r) v")
  case (Some e0)
  let ?r = "quarantine_unhealthy flags e0 r"
  have q: "reg_inv limits ?r" by (rule reg_inv_quarantine_unhealthy [OF inv Some])
  have lease: "reg_inv limits (adjust_entry v (\<lambda>e. e\<lparr>e_leases := e_leases e + 1\<rparr>) ?r)"
    if e: "hm_get (entries ?r) v = Some e" "e_state e = Ready" for e
    by (rule reg_inv_adjust_entry [OF q])
      (use reg_invD(2) [OF q e(1)] e in \<open>simp_all add: same_life_def entry_ok_defs\<close>)
  show ?thesis
    using q inv Some lease by (auto simp: wait_pass_def Let_def split: option.splits runtime_state.splits)
qed (simp add: wait_pass_def inv)

lemma reg_inv_build_start:
  assumes inv: "reg_inv limits r" and b: "root_of r w = Some b" and q: "e_state b = Queued"
  shows "reg_inv limits (build_start w r)"
proof -
  have "reg_inv limits (adjust_group w (set_state Loading) r)"
  proof (rule reg_inv_adjust_group [OF inv _ b])
    fix v e assume e: "hm_get (entries r) v = Some e" "e_owner e = w"
    from reg_invD(3) [OF inv e(1)] b q e have "e_state e = Queued \<or> e_state e = Failed"
      by (auto simp: alias_ok_def synced_def root_of_Some split: if_splits)
    moreover have "v = w \<Longrightarrow> e = b" using e b by (auto simp: root_of_Some)
    moreover have "entry_ok (next_generation r) w b" using reg_invD(2) [OF inv] b by (auto simp: root_of_Some)
    ultimately show "entry_ok (next_generation r) v (set_state Loading e) \<and>
        synced (set_state Loading e) (set_state Loading b)"
      using reg_invD(2) [OF inv e(1)] q e b
      by (auto simp: entry_ok_defs synced_def root_of_Some split: if_splits)
  qed simp
  then show ?thesis
    unfolding build_start_def by (subst reg_inv_cong [of _ "adjust_group w (set_state Loading) r"])
      (simp_all add: adjust_group_def)
qed

section \<open>Completion of a build\<close>

lemma get_complete:
  assumes "hm_get (entries r) v = Some e" and "e_gen e = g"
    and "completed_entry now cd outcome e = (e', released)"
  shows "hm_get (entries (complete now cd v g outcome r)) c =
     (if c = v then Some (publish e')
      else map_option (\<lambda>a. if e_owner a = v then copy_outcome (publish e') a else a) (hm_get (entries r) c))"
  using assms by (auto simp: complete_def Let_def keyed_simps option.map_ident)

lemma completed_entry_fields:
  assumes "completed_entry now cd outcome e = (e', released)"
  shows "e_owner e' = e_owner e" "e_gen e' = e_gen e" "e_leases e' = e_leases e"
    "e_waiters e' = e_waiters e" "e_unload e' = e_unload e"
    "released = e_bytes e - e_bytes e'" "released \<le> e_bytes e" "e_bytes e' = e_bytes e - released"
    "e_state e' \<in> {Ready, Failed, Quarantined}"
  using assms
  by (auto simp: completed_entry_def Let_def split: sum.splits prod.splits runtime_error.splits if_splits)

lemma publish_fields [simp]:
  "e_owner (publish e) = e_owner e" "e_gen (publish e) = e_gen e" "e_bytes (publish e) = e_bytes e"
  "e_state (publish e) = e_state e" "e_resource (publish e) = e_resource e"
  "e_flags (publish e) = e_flags e" "e_unload (publish e) = e_unload e"
  "e_leases (publish e) = e_leases e" "e_waiters (publish e) = e_waiters e"
  "e_error (publish e) = e_error e" "w_value (e_changed (publish e)) = e_state e"
  by (simp_all add: publish_def send_replace_def)

lemma copy_outcome_fields [simp]:
  "e_owner (copy_outcome b a) = e_owner a" "e_gen (copy_outcome b a) = e_gen a"
  "e_bytes (copy_outcome b a) = e_bytes a" "e_state (copy_outcome b a) = e_state b"
  "e_resource (copy_outcome b a) = e_resource b" "e_flags (copy_outcome b a) = e_flags b"
  "e_unload (copy_outcome b a) = e_unload a" "e_leases (copy_outcome b a) = e_leases a"
  "e_waiters (copy_outcome b a) = e_waiters a" "e_error (copy_outcome b a) = e_error b"
  "w_value (e_changed (copy_outcome b a)) = e_state b"
  by (simp_all add: copy_outcome_def)

lemma completed_entry_cases:
  assumes "completed_entry now cd outcome e = (e', released)"
  obtains (ready) "e_state e' = Ready" "e_resource e' \<noteq> None" "e_bytes e' = e_bytes e"
  | (quarantined) "e_state e' = Quarantined" "e_error e' \<noteq> None" "e_bytes e' = e_bytes e"
  | (failed) "e_state e' = Failed" "e_error e' \<noteq> None" "e_bytes e' = 0"
      "e_resource e' = e_resource e" "e_flags e' = e_flags e"
proof (cases outcome)
  case (Inl err)
  have "(e_state e' = Quarantined \<and> e_error e' \<noteq> None \<and> e_bytes e' = e_bytes e) \<or>
      (e_state e' = Failed \<and> e_error e' \<noteq> None \<and> e_bytes e' = 0 \<and>
       e_resource e' = e_resource e \<and> e_flags e' = e_flags e)"
    using assms unfolding Inl by (cases err) (auto simp: completed_entry_def)
  then show ?thesis using quarantined failed by blast
next
  case (Inr built)
  have "(e_state e' = Ready \<and> e_resource e' \<noteq> None \<and> e_bytes e' = e_bytes e) \<or>
      (e_state e' = Quarantined \<and> e_error e' \<noteq> None \<and> e_bytes e' = e_bytes e)"
    using assms unfolding Inr by (cases built) (simp add: completed_entry_def Let_def split: if_splits, fastforce+)
  then show ?thesis using quarantined ready by blast
qed

lemma completed_entry_ok:
  assumes c: "completed_entry now cd outcome e = (e', released)" and "idle_entry e"
    and "entry_ok n v e" and "v = e_owner e" and "e_state e \<noteq> Failed"
  shows "entry_ok n v (publish e')"
proof -
  have e: "e_gen e < n" "0 < e_bytes e" "e_leases e = 0" "\<not> e_unload e" "e_resource e = None" "e_flags e = []"
    using assms by (auto simp: entry_ok_def idle_entry_def)
  have k: "e_owner e' = v" "e_gen e' = e_gen e" "e_leases e' = e_leases e" "e_unload e' = e_unload e"
    using completed_entry_fields [OF c] assms(4) by auto
  show ?thesis
    by (rule completed_entry_cases [OF c]) (simp_all add: entry_ok_defs e k)
qed

text \<open>Everything in the group of an entry that is being built is idle.\<close>

lemma building_group:
  assumes inv: "reg_inv limits r" and b: "root_of r w = Some b" and q: "e_state b \<in> {Queued, Loading}"
    and e: "hm_get (entries r) v = Some e" "e_owner e = w"
  shows "idle_entry e"
proof -
  from reg_invD(3) [OF inv e(1)] b q e have "e_state e \<in> {Queued, Loading, Failed}"
    by (auto simp: alias_ok_def synced_def root_of_Some split: if_splits)
  with reg_invD(2) [OF inv e(1)] show ?thesis by (auto simp: entry_ok_def state_ok_def)
qed

lemma limits_ok_complete:
  assumes inv: "reg_inv limits r" and v: "hm_get (entries r) v = Some e" "e_gen e = g"
    and c: "completed_entry now cd outcome e = (e', released)"
  shows "limits_ok limits (complete now cd v g outcome r)"
proof -
  let ?r1 = "adjust_entry v (\<lambda>_. publish e') r"
  have lim: "limits_ok limits r" and wf: "hm_wf (entries r)" using reg_invD [OF inv] by auto
  have bytes: "bytes_list (complete now cd v g outcome r) = bytes_list ?r1"
    using v c by (simp add: complete_def Let_def bytes_list_def bytes_adjust_where)
  have res: "reserved_bytes (complete now cd v g outcome r) = wrapping_sub (reserved_bytes r) released"
    using v c by (simp add: complete_def Let_def)
  have len: "length (entries (complete now cd v g outcome r)) = length (entries r)"
    using v c by (simp add: complete_def Let_def)
  have sum: "sum_list (bytes_list ?r1) + e_bytes e = sum_list (bytes_list r) + e_bytes e'"
    using sum_list_adjust_one [OF wf v(1), of e_bytes "\<lambda>_. publish e'"]
    by (simp add: bytes_list_def adjust_entry_def)
  have "sum_list (map (\<lambda>kv. if 0 < e_bytes (snd kv) then 1 else 0 :: nat) (entries ?r1)) + (if 0 < e_bytes e then 1 else 0) =
      sum_list (map (\<lambda>kv. if 0 < e_bytes (snd kv) then 1 else 0 :: nat) (entries r)) + (if 0 < e_bytes e' then 1 else 0)"
    using sum_list_adjust_one [OF wf v(1), of "\<lambda>x. if 0 < e_bytes x then 1 else 0" "\<lambda>_. publish e'"]
    by (simp add: adjust_entry_def)
  moreover have "length (filter (\<lambda>b. 0 < b) (bytes_list x)) =
      sum_list (map (\<lambda>kv. if 0 < e_bytes (snd kv) then 1 else 0 :: nat) (entries x))" for x :: "'a registry"
    unfolding bytes_list_def by (rule length_filter_pos)
  ultimately have cnt: "resource_count ?r1 + (if 0 < e_bytes e then 1 else 0) =
      resource_count r + (if 0 < e_bytes e' then 1 else 0)"
    by (simp add: resource_count_list)
  have le: "released \<le> e_bytes e" "e_bytes e' = e_bytes e - released"
    using completed_entry_fields [OF c] by auto
  have "e_bytes e \<le> reserved_bytes r"
    using lim member_le_sum_list [of "e_bytes e" "bytes_list r"] hm_get_mem [OF v(1)]
    by (force simp: limits_ok_def bytes_list_def)
  with le sum lim res have "reserved_bytes (complete now cd v g outcome r) = sum_list (bytes_list ?r1)"
    by (simp add: limits_ok_def)
  moreover have "sum_list (bytes_list ?r1) \<le> sum_list (bytes_list r)" using le sum by linarith
  moreover have "sum_list (bytes_list r) \<le> max_resident_bytes limits" using lim by (simp add: limits_ok_def)
  moreover have "resource_count (complete now cd v g outcome r) \<le> max_resources limits"
    using cnt le lim bytes by (simp add: limits_ok_def resource_count_list split: if_splits)
  ultimately show ?thesis using lim len bytes by (simp add: limits_ok_def)
qed

lemma reg_inv_complete:
  assumes inv: "reg_inv limits r" and b: "root_of r v = Some b" and q: "e_state b \<in> {Queued, Loading}"
    and g: "e_gen b = g"
  shows "reg_inv limits (complete now cd v g outcome r)"
proof -
  obtain b' released where c: "completed_entry now cd outcome b = (b', released)" by (metis prod.collapse)
  note f = completed_entry_fields [OF c]
  let ?r = "complete now cd v g outcome r"
  have v: "hm_get (entries r) v = Some b" "e_owner b = v" using b by (simp_all add: root_of_Some)
  note get = get_complete [OF v(1) g c]
  have idle: "hm_get (entries r) x = Some e \<Longrightarrow> e_owner e = v \<Longrightarrow> idle_entry e" for x e
    by (rule building_group [OF inv b q])
  have ok: "entry_ok (next_generation r) v (publish b')"
    using completed_entry_ok [OF c idle [OF v] reg_invD(2) [OF inv v(1)]] v q by auto
  have gen: "next_generation ?r = next_generation r" using v g c by (simp add: complete_def Let_def)
  have root: "root_of ?r x = (if x = v then Some (publish b') else root_of r x)" for x
    using v f by (auto simp: root_of_def get split: option.splits)
  show ?thesis
  proof (rule reg_invI)
    show "hm_wf (entries ?r)" using reg_invD(1) [OF inv] v g c by (simp add: complete_def Let_def)
    fix x e assume x: "hm_get (entries ?r) x = Some e"
    then obtain d where d: "hm_get (entries r) x = Some d"
      and e: "e = (if x = v then publish b' else if e_owner d = v then copy_outcome (publish b') d else d)"
      using v by (cases "x = v") (auto simp: get)
    show "entry_ok (next_generation ?r) x e"
    proof (cases "x \<noteq> v \<and> e_owner d = v")
      case True
      with idle [OF d] reg_invD(2) [OF inv d] v
      have k: "e_bytes d = 0" "e_gen d < next_generation r" "e_leases d = 0" "\<not> e_unload d"
        by (auto simp: entry_ok_def idle_entry_def split: if_splits)
      have st: "state_ok (copy_outcome (publish b') d)"
        by (rule completed_entry_cases [OF c])
          (use idle [OF v] k in \<open>simp_all add: state_ok_def idle_entry_def\<close>)
      from True k st show ?thesis by (simp add: e gen entry_ok_def)
    next
      case False
      with reg_invD(2) [OF inv d] ok e gen show ?thesis by auto
    qed
    show "alias_ok ?r x e"
    proof (cases "e_owner d = v")
      case True
      with idle [OF d] idle [OF v] f v d show ?thesis
        by (auto simp: alias_ok_def e root synced_def idle_entry_def)
    next
      case False
      with reg_invD(3) [OF inv d] v d show ?thesis by (auto simp: alias_ok_def e root)
    qed
  next
    fix x e x' e'
    assume "hm_get (entries ?r) x = Some e" "hm_get (entries ?r) x' = Some e'" and gen: "e_gen e = e_gen e'"
    then obtain d d' where d: "hm_get (entries r) x = Some d" "hm_get (entries r) x' = Some d'"
      and e: "e_owner e = e_owner d" "e_gen e = e_gen d" "e_owner e' = e_owner d'" "e_gen e' = e_gen d'"
      using v f by (auto simp: get split: if_splits)
    from reg_invD(4) [OF inv d] gen e show "e_owner e = e_owner e'" by simp
  next
    show "limits_ok limits ?r" by (rule limits_ok_complete [OF inv v(1) g c])
  qed
qed

section \<open>Removal and insertion of entries\<close>

lemma reg_inv_retain:
  assumes inv: "reg_inv limits r"
    and r': "entries r' = hm_retain p (entries r)" "next_generation r' = next_generation r"
    and lim: "limits_ok limits r'"
    and orphans: "\<And>v e b. hm_get (entries r) v = Some e \<Longrightarrow> p v e \<Longrightarrow> v \<noteq> e_owner e \<Longrightarrow>
      root_of r (e_owner e) = Some b \<Longrightarrow> \<not> p (e_owner e) b \<Longrightarrow> e_state e = Failed"
  shows "reg_inv limits r'"
proof -
  have get: "hm_get (entries r') v =
      (case hm_get (entries r) v of None \<Rightarrow> None | Some e \<Rightarrow> if p v e then Some e else None)" for v
    by (simp add: r' hm_get_retain [OF reg_invD(1) [OF inv]])
  have old: "hm_get (entries r) v = Some e" "p v e" if "hm_get (entries r') v = Some e" for v e
    using that by (auto simp: get split: option.splits if_splits)
  have root: "root_of r' v = (case root_of r v of None \<Rightarrow> None | Some b \<Rightarrow> if p v b then Some b else None)" for v
    by (auto simp: root_of_def get split: option.splits)
  show ?thesis
  proof (rule reg_invI)
    show "hm_wf (entries r')" using reg_invD(1) [OF inv] by (auto simp: r')
    show "limits_ok limits r'" by (rule lim)
    fix v e assume e': "hm_get (entries r') v = Some e"
    show "entry_ok (next_generation r') v e" using reg_invD(2) [OF inv old(1) [OF e']] by (simp add: r')
    show "alias_ok r' v e"
      using reg_invD(3) [OF inv old(1) [OF e']] orphans [OF old [OF e']]
      by (auto simp: alias_ok_def root split: option.splits)
    fix v' d assume "hm_get (entries r') v' = Some d" "e_gen e = e_gen d"
    then show "e_owner e = e_owner d" using reg_invD(4) [OF inv old(1) [OF e'] old(1)] by simp
  qed
qed

lemma reg_inv_purge: 
  assumes inv: "reg_inv limits r"
  shows "reg_inv limits (purge_failed now r)"
proof (rule reg_inv_retain [OF inv])
  let ?p = "\<lambda>_ e. \<not> (e_state e = Failed \<and> e_waiters e = 0 \<and> e_retry e \<le> now)"
  have "(v, e) \<in> set (entries r) \<Longrightarrow> \<not> ?p v e \<Longrightarrow> e_bytes e = 0" for v e
    using reg_invD(2) [OF inv hm_mem_get [OF reg_invD(1) [OF inv]]] by (fastforce simp: entry_ok_def state_ok_def)
  then show "limits_ok limits (purge_failed now r)"
    unfolding purge_failed_def by (intro limits_ok_retain reg_invD(5) [OF inv]) blast
next
  fix v e b
  assume e: "hm_get (entries r) v = Some e" "v \<noteq> e_owner e" and b: "root_of r (e_owner e) = Some b"
    and "\<not> \<not> (e_state b = Failed \<and> e_waiters b = 0 \<and> e_retry b \<le> now)"
  then show "e_state e = Failed"
    using reg_invD(3) [OF inv e(1)] by (auto simp: alias_ok_def synced_def)
qed (simp_all add: purge_failed_def)

lemma idle_aliases_mem:
  "(v, t) \<in> set (idle_aliases r) \<Longrightarrow> \<exists>e. (v, e) \<in> set (entries r) \<and> v \<noteq> e_owner e \<and> \<not> e_retained e \<and>
     e_leases e = 0 \<and> e_waiters e = 0"
  by (auto simp: idle_aliases_def)

text \<open>What leaves at the entry limit is one idle alias.\<close>

lemma make_room_cases [consumes 1, case_names same evicted]:
  assumes "hm_wf (entries r)"
  obtains (same) "make_room limits r = r"
  | (evicted) v e where "make_room limits r = r\<lparr>entries := hm_remove v (entries r)\<rparr>"
      "hm_get (entries r) v = Some e" "v \<noteq> e_owner e" "e_leases e = 0" "e_waiters e = 0" "\<not> e_retained e"
proof (cases "max_version_entries limits \<le> length (entries r) \<and> idle_aliases r \<noteq> []")
  case True
  then obtain v t vs where a: "idle_aliases r = (v, t) # vs" by (cases "idle_aliases r") auto
  then obtain e where "(v, e) \<in> set (entries r)" "v \<noteq> e_owner e" "\<not> e_retained e" "e_leases e = 0" "e_waiters e = 0"
    using idle_aliases_mem [of v t r] by auto
  with True a evicted [of v e] hm_mem_get [OF assms] show ?thesis by (simp add: make_room_def)
next
  case False
  then show ?thesis using same by (auto simp: make_room_def split: list.splits)
qed

lemma reg_inv_make_room:
  assumes inv: "reg_inv limits r"
  shows "reg_inv limits (make_room limits r)"
  using reg_invD(1) [OF inv]
proof (cases rule: make_room_cases [where limits = limits])
  case same
  with inv show ?thesis by simp
next
  case (evicted v e)
  have e0: "e_bytes e = 0" using reg_invD(2) [OF inv evicted(2)] evicted(3) by (simp add: entry_ok_def)
  show ?thesis
  proof (rule reg_inv_retain [OF inv])
    show "entries (make_room limits r) = hm_retain (\<lambda>k' _. k' \<noteq> v) (entries r)"
      by (simp add: evicted hm_remove_def)
    have "(v', e') \<in> set (entries r) \<Longrightarrow> v' = v \<Longrightarrow> e_bytes e' = 0" for v' e'
      using hm_mem_get [OF reg_invD(1) [OF inv]] evicted(2) e0 by fastforce
    then show "limits_ok limits (make_room limits r)"
      unfolding evicted hm_remove_def by (intro limits_ok_retain reg_invD(5) [OF inv]) blast
    fix v' e' b
    assume "root_of r (e_owner e') = Some b" "\<not> e_owner e' \<noteq> v"
    then show "e_state e' = Failed" using evicted by (auto simp: root_of_Some)
  qed (simp add: evicted)
qed

lemma find_Some_mem: "List.find P xs = Some x \<Longrightarrow> x \<in> set xs \<and> P x"
  by (induction xs) (auto split: if_splits)

lemma find_shared_mem:
  assumes "find_shared flags key r = Some (k, e)"
  shows "(k, e) \<in> set (entries r) \<and> e_owner e = k \<and> 0 < e_bytes e \<and>
    e_state e \<in> {Queued, Loading, Ready} \<and> healthy flags e \<and> key \<noteq> None \<and> e_key e = key"
  using assms by (auto simp: find_shared_def dest!: find_Some_mem split: option.splits)

lemma entry_alias_fields [simp]:
  "e_owner (entry_alias now e) = e_owner e" "e_gen (entry_alias now e) = e_gen e"
  "e_bytes (entry_alias now e) = 0" "e_state (entry_alias now e) = e_state e"
  "e_resource (entry_alias now e) = e_resource e" "e_flags (entry_alias now e) = e_flags e"
  "e_unload (entry_alias now e) = e_unload e" "e_leases (entry_alias now e) = 0"
  "e_waiters (entry_alias now e) = 0" "e_error (entry_alias now e) = e_error e"
  "e_changed (entry_alias now e) = watch_channel (e_state e)"
  by (simp_all add: entry_alias_def)

lemma reg_inv_insert_alias:
  assumes inv: "reg_inv limits r" and new: "hm_get (entries r) v = None"
    and f: "find_shared flags key r = Some (k, b)" and len: "length (entries r) < max_version_entries limits"
  shows "reg_inv limits (insert_alias now v b r)"
proof -
  let ?a = "(entry_alias now b)\<lparr>e_retained := v \<in> set (retained_deployments r)\<rparr>"
  have k: "hm_get (entries r) k = Some b" "e_owner b = k" "e_state b \<in> {Queued, Loading, Ready}"
    using find_shared_mem [OF f] hm_mem_get [OF reg_invD(1) [OF inv]] by auto
  have vk: "v \<noteq> k" using new k by auto
  have get: "hm_get (entries (insert_alias now v b r)) x = (if x = v then Some ?a else hm_get (entries r) x)" for x
    by (simp add: insert_alias_def keyed_simps)
  have next_gen: "next_generation (insert_alias now v b r) = next_generation r"
    by (simp add: insert_alias_def)
  have root: "root_of (insert_alias now v b r) x = root_of r x" for x
    using new k vk by (auto simp: root_of_def get split: option.splits)
  show ?thesis
  proof (rule reg_invI)
    show "hm_wf (entries (insert_alias now v b r))"
      using reg_invD(1) [OF inv] by (simp add: insert_alias_def hm_wf_insert)
    show "limits_ok limits (insert_alias now v b r)"
      using reg_invD(5) [OF inv] new len
      by (simp add: insert_alias_def limits_ok_def hm_insert_absent bytes_list_def resource_count_def)
    fix x e assume x: "hm_get (entries (insert_alias now v b r)) x = Some e"
    show "entry_ok (next_generation (insert_alias now v b r)) x e"
    proof (cases "x = v")
      case True
      with x have "e = ?a" by (simp add: get)
      with True k vk reg_invD(2) [OF inv k(1)] show ?thesis
        by (auto simp: next_gen entry_ok_defs watch_channel_def)
    next
      case False
      with x reg_invD(2) [OF inv] show ?thesis by (simp add: get next_gen)
    qed
    show "alias_ok (insert_alias now v b r) x e"
    proof (cases "x = v")
      case True
      with x have "e = ?a" by (simp add: get)
      moreover have "root_of r k = Some b" using k by (simp add: root_of_Some)
      ultimately show ?thesis using k by (simp add: alias_ok_def root synced_def)
    next
      case False
      with x reg_invD(3) [OF inv] show ?thesis by (simp add: get alias_ok_def root)
    qed
    fix x' e' assume x': "hm_get (entries (insert_alias now v b r)) x' = Some e'" and gen: "e_gen e = e_gen e'"
    have witness: "\<exists>y d. hm_get (entries r) y = Some d \<and> e_gen d = e_gen c \<and> e_owner d = e_owner c"
      if "hm_get (entries (insert_alias now v b r)) y = Some c" for y c
    proof (cases "y = v")
      case True
      with that k show ?thesis by (intro exI [of _ k] exI [of _ b]) (auto simp: get)
    next
      case False
      with that show ?thesis by (auto simp: get)
    qed
    from witness [OF x] witness [OF x'] gen show "e_owner e = e_owner e'"
      using reg_invD(4) [OF inv] by metis
  qed
qed

lemma reg_inv_insert_fresh:
  assumes inv: "reg_inv limits r" and new: "hm_get (entries r) v = None"
    and len: "length (entries r) < max_version_entries limits"
    and mem: "\<not> memory_pressure limits bytes r" and pos: "0 < bytes"
  shows "reg_inv limits (insert_fresh now v key bytes r)"
proof -
  let ?e = "entry_fresh now v key (v \<in> set (retained_deployments r)) (next_generation r) bytes"
  have get: "hm_get (entries (insert_fresh now v key bytes r)) x = (if x = v then Some ?e else hm_get (entries r) x)" for x
    by (simp add: insert_fresh_def keyed_simps)
  have root: "root_of (insert_fresh now v key bytes r) x = (if x = v then Some ?e else root_of r x)" for x
    by (auto simp: root_of_def get entry_fresh_def)
  have next_gen: "next_generation (insert_fresh now v key bytes r) = Suc (next_generation r)"
    by (simp add: insert_fresh_def)
  have old: "x \<noteq> v \<Longrightarrow> hm_get (entries r) x = Some e \<Longrightarrow> e_gen e < next_generation r" for x e
    using reg_invD(2) [OF inv] by (simp add: entry_ok_def)
  show ?thesis
  proof (rule reg_invI)
    show "hm_wf (entries (insert_fresh now v key bytes r))"
      using reg_invD(1) [OF inv] by (simp add: insert_fresh_def hm_wf_insert)
    show "limits_ok limits (insert_fresh now v key bytes r)"
      using reg_invD(5) [OF inv] new len mem pos
      by (auto simp: insert_fresh_def limits_ok_def hm_insert_absent bytes_list_def resource_count_def
          memory_pressure_def saturating_sub_def entry_fresh_def)
    fix x e assume x: "hm_get (entries (insert_fresh now v key bytes r)) x = Some e"
    show "entry_ok (next_generation (insert_fresh now v key bytes r)) x e"
    proof (cases "x = v")
      case True
      with x pos show ?thesis by (auto simp: get next_gen entry_ok_defs entry_fresh_def watch_channel_def)
    next
      case False
      with x reg_invD(2) [OF inv, of x e] show ?thesis by (auto simp: get next_gen entry_ok_def)
    qed
    show "alias_ok (insert_fresh now v key bytes r) x e"
    proof (cases "x = v")
      case True
      with x show ?thesis by (auto simp: get alias_ok_def entry_fresh_def)
    next
      case False
      with x have "alias_ok r x e" using reg_invD(3) [OF inv] by (simp add: get)
      moreover have "root_of r v = None" using new by (simp add: root_of_def)
      ultimately show ?thesis by (auto simp: alias_ok_def root entry_fresh_def)
    qed
    fix x' e' assume x': "hm_get (entries (insert_fresh now v key bytes r)) x' = Some e'" and gen: "e_gen e = e_gen e'"
    show "e_owner e = e_owner e'"
    proof (cases "x = v \<or> x' = v")
      case True
      with x x' gen old [of x e] old [of x' e'] have "x = x'" by (auto simp: get entry_fresh_def split: if_splits)
      with x x' show ?thesis by simp
    next
      case False
      with x x' have "hm_get (entries r) x = Some e" "hm_get (entries r) x' = Some e'" by (simp_all add: get)
      from reg_invD(4) [OF inv this gen] show ?thesis .
    qed
  qed
qed

section \<open>Draining\<close>

definition group_idle :: "provider_version \<Rightarrow> 'c registry \<Rightarrow> bool" where
  "group_idle w r = (\<forall>v e. hm_get (entries r) v = Some e \<longrightarrow> e_owner e = w \<longrightarrow> e_leases e = 0 \<and> e_waiters e = 0)"

text \<open>A resource whose unload may start.\<close>

definition may_unload :: "provider_version \<Rightarrow> 'c registry \<Rightarrow> bool" where
  "may_unload w r = (group_idle w r \<and>
     (case root_of r w of None \<Rightarrow> False
      | Some b \<Rightarrow> e_resource b \<noteq> None \<and> \<not> e_unload b \<and> e_state b \<in> {Ready, Quarantined}))"

lemma start_unload_fields [simp]:
  "e_owner (start_unload e) = e_owner e" "e_gen (start_unload e) = e_gen e"
  "e_bytes (start_unload e) = e_bytes e" "e_state (start_unload e) = Draining"
  "e_resource (start_unload e) = e_resource e" "e_flags (start_unload e) = e_flags e"
  "e_unload (start_unload e)" "e_leases (start_unload e) = e_leases e"
  "e_waiters (start_unload e) = e_waiters e" "w_value (e_changed (start_unload e)) = Draining"
  by (simp_all add: start_unload_def)

lemma reg_inv_start_unload:
  assumes inv: "reg_inv limits r" and m: "may_unload w r"
  shows "reg_inv limits (adjust_group w start_unload r)"
proof -
  obtain b where b: "root_of r w = Some b" "e_resource b \<noteq> None" "\<not> e_unload b" "e_state b \<in> {Ready, Quarantined}"
    using m by (auto simp: may_unload_def split: option.splits)
  show ?thesis
  proof (rule reg_inv_adjust_group [OF inv _ b(1)])
    fix v e assume e: "hm_get (entries r) v = Some e" "e_owner e = w"
    have "synced e b" by (rule group_synced [OF inv b(1) _ e]) (use b(4) in auto)
    moreover have "e_leases e = 0" using m e by (simp add: may_unload_def group_idle_def)
    ultimately show "entry_ok (next_generation r) v (start_unload e) \<and> synced (start_unload e) (start_unload b)"
      using reg_invD(2) [OF inv e(1)] b by (auto simp: entry_ok_defs synced_def split: runtime_state.splits if_splits)
  qed simp
qed

lemma may_unload_other:
  "w \<noteq> u \<Longrightarrow> may_unload u (adjust_group w start_unload r) = may_unload u r"
  by (auto simp: may_unload_def group_idle_def root_of_adjust_group keyed_simps split: if_splits)

lemma start_drains_inv:
  "reg_inv limits r \<Longrightarrow> distinct vs \<Longrightarrow> \<forall>v\<in>set vs. may_unload v r \<Longrightarrow>
     \<exists>ds r'. start_drains vs r = Some (ds, r') \<and> reg_inv limits r' \<and> map id_version ds = vs"
proof (induction vs arbitrary: r)
  case (Cons v vs)
  from Cons.prems have m: "may_unload v r" and vs: "v \<notin> set vs" "distinct vs" by simp_all
  from m obtain b res where b: "hm_get (entries r) v = Some b" "e_resource b = Some res"
    by (auto simp: may_unload_def root_of_Some split: option.splits)
  have "\<forall>u\<in>set vs. may_unload u (adjust_group v start_unload r)"
  proof
    fix u assume u: "u \<in> set vs"
    with vs have "v \<noteq> u" by blast
    with Cons.prems(3) u show "may_unload u (adjust_group v start_unload r)"
      by (simp add: may_unload_other)
  qed
  from Cons.IH [OF reg_inv_start_unload [OF Cons.prems(1) m] vs(2) this] obtain ds r' where
      "start_drains vs (adjust_group v start_unload r) = Some (ds, r')" "reg_inv limits r'" "map id_version ds = vs"
    by blast
  with b show ?case by simp
qed simp

lemma may_unload_drainable:
  assumes inv: "reg_inv limits r" and e: "(v, e) \<in> set (entries r)"
    and d: "drainable stopping expired now ttl r v e"
  shows "may_unload v r"
proof -
  have wf: "hm_wf (entries r)" by (rule reg_invD(1) [OF inv])
  have "hm_get (entries r) x = Some a \<Longrightarrow> e_owner a = v \<Longrightarrow> e_leases a = 0 \<and> e_waiters a = 0" for x a
    using d hm_get_mem [of "entries r" x a]
    by (force simp: drainable_def group_entries_def hm_values_def list_all_iff alias_idle_def)
  moreover have "root_of r v = Some e" using d hm_mem_get [OF wf e] by (simp add: root_of_Some drainable_def)
  ultimately show ?thesis using d by (auto simp: may_unload_def group_idle_def drainable_def)
qed

lemma drain_candidates_set:
  "set (drain_candidates stopping expired now ttl r) =
     {v. \<exists>e. (v, e) \<in> set (entries r) \<and> drainable stopping expired now ttl r v e}"
  by (force simp: drain_candidates_def)

lemma distinct_map_sort_key: "distinct (map g (sort_key f xs)) = distinct (map g xs)"
  by (rule mset_eq_imp_distinct_iff) simp

lemma drain_candidates_distinct:
  assumes "hm_wf (entries r)"
  shows "distinct (drain_candidates stopping expired now ttl r)"
  using assms unfolding drain_candidates_def distinct_map_sort_key
  by (simp add: comp_def case_prod_unfold hm_wf_def distinct_map_filter)

lemma fold_quarantine_inv:
  "reg_inv limits r \<Longrightarrow> \<forall>w\<in>set ws. \<exists>b. root_of r w = Some b \<and> e_state b \<in> {Ready, Quarantined} \<Longrightarrow>
     reg_inv limits (fold quarantine ws r)"
proof (induction ws arbitrary: r)
  case (Cons w ws)
  then obtain b where b: "root_of r w = Some b" "e_state b \<in> {Ready, Quarantined}" by auto
  have "reg_inv limits (quarantine w r)" by (rule reg_inv_quarantine [OF Cons.prems(1) b(1)]) (use b in auto)
  moreover have "\<forall>u\<in>set ws. \<exists>b. root_of (quarantine w r) u = Some b \<and> e_state b \<in> {Ready, Quarantined}"
    using Cons.prems(2) by (auto simp: quarantine_def root_of_adjust_group)
  ultimately show ?case using Cons.IH by simp
qed simp

lemma unhealthy_owners_roots:
  assumes inv: "reg_inv limits r" and "w \<in> set (unhealthy_owners flags r)"
  shows "\<exists>b. root_of r w = Some b \<and> e_state b = Ready \<and> \<not> healthy flags b"
  using assms hm_mem_get [OF reg_invD(1) [OF inv]]
  by (force simp: unhealthy_owners_def root_of_Some)

text \<open>\<open>begin_drains\<close> never hits its \<open>expect\<close>, and drains only idle resources.\<close>

lemma begin_drains_inv:
  assumes inv: "reg_inv limits r"
  obtains ds r1 r' where "begin_drains stopping flags expired n now ttl r = Some (ds, r')"
    and "r1 = fold quarantine (unhealthy_owners flags r) r" and "reg_inv limits r1" and "reg_inv limits r'"
    and "start_drains (map id_version ds) r1 = Some (ds, r')" and "distinct (map id_version ds)"
    and "\<forall>v\<in>set (map id_version ds). may_unload v r1"
proof -
  let ?r = "fold quarantine (unhealthy_owners flags r) r"
  let ?c = "drain_candidates stopping expired now ttl ?r"
  let ?vs = "case n of None \<Rightarrow> ?c | Some k \<Rightarrow> take k ?c"
  have q: "reg_inv limits ?r"
    by (rule fold_quarantine_inv [OF inv]) (use unhealthy_owners_roots [OF inv] in blast)
  have "distinct ?c" by (rule drain_candidates_distinct [OF reg_invD(1) [OF q]])
  then have d: "distinct ?vs" by (simp split: option.splits)
  have m: "\<forall>v\<in>set ?vs. may_unload v ?r"
    using may_unload_drainable [OF q]
    by (auto simp: drain_candidates_set dest!: in_set_takeD split: option.splits)
  from start_drains_inv [OF q d m] obtain ds r' where
      s: "start_drains ?vs ?r = Some (ds, r')" "reg_inv limits r'" "map id_version ds = ?vs" by blast
  show ?thesis by (rule that [of ds r' ?r]) (use s d m q in \<open>simp_all add: begin_drains_def Let_def\<close>)
qed

lemma reg_inv_finish_drain:
  assumes inv: "reg_inv limits r" and b: "root_of r v = Some b" and u: "e_unload b" and g: "e_gen b = g"
  shows "reg_inv limits (snd (finish_drain limits now v g ok r))"
proof (cases ok)
  case False
  let ?r = "adjust_group v (\<lambda>e. (set_state Quarantined (e\<lparr>e_unload := False, e_idle := now\<rparr>))\<lparr>e_error := Some QuarantinedError\<rparr>) r"
  have st: "e_state b \<in> {Draining, Quarantined}"
    using unloading_entry [OF reg_invD(2) [OF inv] u] b by (auto simp: root_of_Some)
  have "snd (finish_drain limits now v g ok r) = ?r"
    using False b g
    by (simp add: finish_drain_def root_of_Some quarantine_def adjust_group_twice)
  moreover have "reg_inv limits ?r"
  proof (rule reg_inv_adjust_group [OF inv _ b])
    fix x e assume e: "hm_get (entries r) x = Some e" "e_owner e = v"
    have "synced e b" by (rule group_synced [OF inv b _ e]) (use st in auto)
    with reg_invD(2) [OF inv e(1)] st show "entry_ok (next_generation r) x
        ((set_state Quarantined (e\<lparr>e_unload := False, e_idle := now\<rparr>))\<lparr>e_error := Some QuarantinedError\<rparr>) \<and>
        synced ((set_state Quarantined (e\<lparr>e_unload := False, e_idle := now\<rparr>))\<lparr>e_error := Some QuarantinedError\<rparr>)
          ((set_state Quarantined (b\<lparr>e_unload := False, e_idle := now\<rparr>))\<lparr>e_error := Some QuarantinedError\<rparr>)"
      by (auto simp: entry_ok_defs synced_def split: runtime_state.splits if_splits)
  qed simp
  ultimately show ?thesis by simp
next
  case True
  have wf: "hm_wf (entries r)" by (rule reg_invD(1) [OF inv])
  have v: "hm_get (entries r) v = Some b" "e_owner b = v" using b by (auto simp: root_of_Some)
  let ?r = "snd (finish_drain limits now v g ok r)"
  have r': "entries ?r = hm_retain (\<lambda>_ e. e_owner e \<noteq> v) (entries r)" "next_generation ?r = next_generation r"
      "reserved_bytes ?r = wrapping_sub (reserved_bytes r) (e_bytes b)"
    using True v g by (auto simp: finish_drain_def push_evicted_def Let_def)
  show ?thesis
  proof (rule reg_inv_retain [OF inv r'(1,2)])
    have z: "(x, e) \<in> set (entries r) \<Longrightarrow> e_owner e = v \<Longrightarrow> x \<noteq> v \<Longrightarrow> e_bytes e = 0" for x e
      using reg_invD(2) [OF inv hm_mem_get [OF wf]] by (auto simp: entry_ok_def)
    have "sum_list (bytes_list ?r) + e_bytes b = sum_list (bytes_list r) \<and>
        resource_count ?r \<le> resource_count r"
      unfolding resource_count_list bytes_list_def r'
      by (rule bytes_retain_group [OF wf v(1)]) (use z v in auto)
    then have "sum_list (bytes_list ?r) = sum_list (bytes_list r) - e_bytes b"
        "e_bytes b \<le> sum_list (bytes_list r)" "resource_count ?r \<le> resource_count r"
      by linarith+
    then show "limits_ok limits ?r"
      using reg_invD(5) [OF inv] length_retain_le [of "\<lambda>_ e. e_owner e \<noteq> v" "entries r"]
      by (auto simp: limits_ok_def r')
  next
    fix x e c assume "root_of r (e_owner e) = Some c" "\<not> e_owner c \<noteq> v" "e_owner e \<noteq> v"
    then show "e_state e = Failed" by (simp add: root_of_Some)
  qed
qed

lemma reg_inv_drain_timeout:
  assumes inv: "reg_inv limits r" and b: "root_of r v = Some b"
  shows "reg_inv limits (drain_timeout v g r)"
proof (cases "e_gen b = g \<and> e_unload b")
  case True
  have "e_state b \<notin> {Queued, Failed}"
    using unloading_entry [OF reg_invD(2) [OF inv], of v b] b True by (auto simp: root_of_Some)
  with reg_inv_quarantine [OF inv b] b True show ?thesis by (simp add: drain_timeout_def root_of_Some)
next
  case False
  with inv b show ?thesis by (auto simp: drain_timeout_def root_of_Some)
qed

end
