(* ===== verification/Provider_Manager.thy ===== *)
theory Provider_Manager
  imports Provider_Registry
begin

text \<open>
  The provider runtime manager (\<open>services/provider/runtime/registry.rs\<close>, \<open>lifecycle.rs\<close>): the
  registry with the three semaphores, the gate, the stopping token, the pilot envelope, the
  counters and the shared capacities, and the stages of an acquisition, a build, a drain and the
  shutdown. The materializer is the trait object the manager is generic over: a record of its
  metadata functions; what a build returns is an argument of the step that completes it.
\<close>

section \<open>State\<close>

datatype runtime_counter =
    Hit | Miss | Coalesced | BuildSuccess | BuildFailure | Eviction
  | ObsoleteIntent | DroppedIntent | Reload | SwitchFailure

record 'c manager =
  m_limits :: runtime_limits
  m_gate_open :: bool
  m_stopping :: bool
  m_loads :: semaphore
  m_attempts :: semaphore
  m_waiters :: semaphore
  m_registry :: "'c registry"
  m_pilot :: "pilot option"
  m_counters :: "runtime_counter \<Rightarrow> nat"
  m_store :: adm_store
  m_flags :: "nat \<Rightarrow> bool"

record materializer =
  mz_resource_key :: "desired_provider \<Rightarrow> runtime_error + resource_key option"
  mz_bytes :: "desired_provider \<Rightarrow> runtime_error + u64"
  mz_logical :: "desired_provider \<Rightarrow> runtime_error + usize"
  mz_physical :: "desired_provider \<Rightarrow> runtime_error + usize"
  mz_global :: "desired_provider \<Rightarrow> runtime_error + usize option"

definition manager_new ::
    "runtime_limits \<Rightarrow> bool \<Rightarrow> adm_store \<Rightarrow> (nat \<Rightarrow> bool) \<Rightarrow> runtime_error + 'c manager" where
  "manager_new limits is_open store flags =
     (case limits_validate limits of
        Inl e \<Rightarrow> Inl e
      | Inr _ \<Rightarrow> Inr \<lparr>m_limits = limits, m_gate_open = is_open, m_stopping = False,
          m_loads = sem_new (max_parallel_loads limits),
          m_attempts = sem_new (max_parallel_loads limits + max_pending_loads limits),
          m_waiters = sem_new (max_waiters limits),
          m_registry = registry_new, m_pilot = None, m_counters = (\<lambda>_. 0),
          m_store = store, m_flags = flags\<rparr>)"

definition increment :: "runtime_counter \<Rightarrow> 'c manager \<Rightarrow> 'c manager" where
  "increment c m = m\<lparr>m_counters := (m_counters m)(c := m_counters m c + 1)\<rparr>"

text \<open>\<open>OnceLock::set\<close>: the first pilot stays.\<close>

definition set_pilot_admission :: "pilot \<Rightarrow> 'c manager \<Rightarrow> 'c manager" where
  "set_pilot_admission p m = (if m_pilot m = None then m\<lparr>m_pilot := Some p\<rparr> else m)"

definition manager_close :: "'c manager \<Rightarrow> 'c manager" where
  "manager_close m = m\<lparr>m_gate_open := False, m_stopping := True\<rparr>"

section \<open>The first half of an acquisition\<close>

definition acquire_enter :: "instant \<Rightarrow> instant \<Rightarrow> 'c manager \<Rightarrow> runtime_error + 'c manager" where
  "acquire_enter now deadline m =
     (if deadline \<le> now then Inl Timeout
      else if \<not> m_gate_open m \<or> m_stopping m then Inl ShuttingDown
      else (case sem_try_acquire (m_waiters m) of
              None \<Rightarrow> Inl Busy
            | Some s \<Rightarrow> Inr (m\<lparr>m_waiters := s\<rparr>)))"

record acquire_plan =
  pl_key :: "resource_key option"
  pl_bytes :: u64
  pl_logical :: usize
  pl_physical :: usize
  pl_global :: "usize option"

definition in_capacity_range :: "usize \<Rightarrow> bool" where
  "in_capacity_range n = (1 \<le> n \<and> n \<le> 4096)"

definition plan_physical :: "materializer \<Rightarrow> desired_provider \<Rightarrow> resource_key option \<Rightarrow> usize \<Rightarrow>
    runtime_error + usize" where
  "plan_physical mz snap key logical =
     (if key \<noteq> None
      then (case mz_physical mz snap of
              Inl e \<Rightarrow> Inl e
            | Inr n \<Rightarrow> if \<not> in_capacity_range n then Inl Configuration else Inr n)
      else Inr logical)"

definition plan_global :: "materializer \<Rightarrow> desired_provider \<Rightarrow> runtime_error + usize option" where
  "plan_global mz snap =
     (case mz_global mz snap of
        Inl e \<Rightarrow> Inl e
      | Inr g \<Rightarrow> if (case g of None \<Rightarrow> False | Some n \<Rightarrow> \<not> in_capacity_range n)
                then Inl Configuration else Inr g)"

definition plan_acquire :: "materializer \<Rightarrow> desired_provider \<Rightarrow> runtime_error + acquire_plan" where
  "plan_acquire mz snap =
     (case mz_resource_key mz snap of Inl e \<Rightarrow> Inl e | Inr key \<Rightarrow>
      (case mz_bytes mz snap of Inl e \<Rightarrow> Inl e | Inr bytes \<Rightarrow>
       if bytes = 0 then Inl Configuration else
       (case mz_logical mz snap of Inl e \<Rightarrow> Inl e | Inr logical \<Rightarrow>
        if \<not> in_capacity_range logical then Inl Configuration else
        (case plan_physical mz snap key logical of Inl e \<Rightarrow> Inl e | Inr physical \<Rightarrow>
         (case plan_global mz snap of Inl e \<Rightarrow> Inl e | Inr g \<Rightarrow>
          Inr \<lparr>pl_key = key, pl_bytes = bytes, pl_logical = logical, pl_physical = physical,
               pl_global = g\<rparr>)))))"

section \<open>Admission under the registry lock\<close>

record admitted =
  ad_gen :: u64
  ad_start :: bool
  ad_cold :: bool
  ad_quota :: admission

text \<open>\<open>entry(..).or_insert_with(..)\<close> on a quota map; \<open>None\<close> is the failed assertion of \<open>new\<close>.\<close>

definition quota_or_insert ::
    "'k \<Rightarrow> usize \<Rightarrow> adm_store \<Rightarrow> ('k, usize \<times> admission) hmap \<Rightarrow>
     (admission \<times> adm_store \<times> ('k, usize \<times> admission) hmap) option" where
  "quota_or_insert k slots store m =
     (case hm_get m k of
        Some (_, q) \<Rightarrow> Some (q, store, m)
      | None \<Rightarrow> (case admission_new slots 1 store of
                   None \<Rightarrow> None
                 | Some (store', q) \<Rightarrow> Some (q, store', hm_insert k (slots, q) m)))"

definition join_quota ::
    "provider_version \<Rightarrow> rstr \<Rightarrow> acquire_plan \<Rightarrow> 'c manager \<Rightarrow> (admission \<times> 'c manager) option" where
  "join_quota v kind plan m =
     (case quota_or_insert (pv_identity v) (pl_logical plan) (m_store m) (quotas (m_registry m)) of
        None \<Rightarrow> None
      | Some (q, store, qs) \<Rightarrow>
          let m1 = m\<lparr>m_store := store, m_registry := (m_registry m)\<lparr>quotas := qs\<rparr>\<rparr> in
          (case pl_global plan of
             None \<Rightarrow> Some (q, m1)
           | Some capacity \<Rightarrow>
               (case quota_or_insert kind capacity (m_store m1) (global_quotas (m_registry m1)) of
                  None \<Rightarrow> None
                | Some (g, store', gs) \<Rightarrow>
                    Some (composed q g,
                          m1\<lparr>m_store := store', m_registry := (m_registry m1)\<lparr>global_quotas := gs\<rparr>\<rparr>))))"

definition join_entry ::
    "provider_version \<Rightarrow> rstr \<Rightarrow> acquire_plan \<Rightarrow> bool \<Rightarrow> bool \<Rightarrow> 'c manager \<Rightarrow>
     (admitted \<times> 'c manager) option" where
  "join_entry v kind plan start cold m =
     (case join_quota v kind plan m of
        None \<Rightarrow> None
      | Some (quota, m1) \<Rightarrow>
          (case hm_get (entries (m_registry m1)) v of
             None \<Rightarrow> None
           | Some e \<Rightarrow>
               let m2 = increment (if start then Miss else if e_state e = Ready then Hit else Coalesced) m1
               in Some (\<lparr>ad_gen = e_gen e, ad_start = start, ad_cold = cold, ad_quota = quota\<rparr>,
                        m2\<lparr>m_registry := join_waiter v (m_registry m2)\<rparr>)))"

text \<open>\<open>pilot.get()\<close>, then \<open>try_cold\<close>: whether a permit is held, and the envelope after it.\<close>

definition claim_cold :: "pilot option \<Rightarrow> (bool \<times> pilot option) option" where
  "claim_cold p =
     (case p of
        None \<Rightarrow> Some (False, None)
      | Some q \<Rightarrow> map_option (\<lambda>q'. (True, Some q')) (pilot_try_admit PilotCold q))"

definition admit_fresh ::
    "instant \<Rightarrow> provider_version \<Rightarrow> rstr \<Rightarrow> acquire_plan \<Rightarrow> 'c manager \<Rightarrow>
     ((runtime_error + admitted) \<times> 'c manager) option" where
  "admit_fresh now v kind plan m =
     (if memory_pressure (m_limits m) (pl_bytes plan) (m_registry m) then Some (Inl MemoryPressure, m)
      else (case sem_try_acquire (m_attempts m) of
              None \<Rightarrow> Some (Inl Busy, m)
            | Some attempts \<Rightarrow>
                (case claim_cold (m_pilot m) of
                   None \<Rightarrow> Some (Inl Busy, m)
                 | Some (cold, pilot) \<Rightarrow>
                     let m1 = m\<lparr>m_attempts := attempts, m_pilot := pilot\<rparr>;
                         m2 = (if is_reload (pl_key plan) v (m_registry m1) then increment Reload m1 else m1);
                         m3 = m2\<lparr>m_registry := insert_fresh now v (pl_key plan) (pl_bytes plan) (m_registry m2)\<rparr>
                     in map_option (\<lambda>(ad, m'). (Inr ad, m')) (join_entry v kind plan True cold m3))))"

definition admit ::
    "instant \<Rightarrow> provider_version \<Rightarrow> rstr \<Rightarrow> acquire_plan \<Rightarrow> 'c manager \<Rightarrow>
     ((runtime_error + admitted) \<times> 'c manager) option" where
  "admit now v kind plan m0 =
     (let m = m0\<lparr>m_registry := retain_quotas (purge_failed now (m_registry m0))\<rparr> in
      if quota_conflict v kind (pl_logical plan) (pl_global plan) (m_registry m)
      then Some (Inl Configuration, m)
      else if hm_contains (entries (m_registry m)) v
      then map_option (\<lambda>(ad, m'). (Inr ad, m')) (join_entry v kind plan False False m)
      else let m1 = m\<lparr>m_registry := make_room (m_limits m) (m_registry m)\<rparr> in
        if max_version_entries (m_limits m) \<le> length (entries (m_registry m1))
        then Some (Inl Busy, m1)
        else (case find_shared (m_flags m1) (pl_key plan) (m_registry m1) of
                Some (_, e) \<Rightarrow>
                  map_option (\<lambda>(ad, m'). (Inr ad, m')) (join_entry v kind plan False False
                    (m1\<lparr>m_registry := insert_alias now v e (m_registry m1)\<rparr>))
              | None \<Rightarrow> admit_fresh now v kind plan m1))"

section \<open>Waiting, leaving and releasing\<close>

definition manager_wait :: "provider_version \<Rightarrow> u64 \<Rightarrow> 'c manager \<Rightarrow> wait_outcome \<times> 'c manager" where
  "manager_wait v g m =
     (let (out, r) = wait_pass (m_gate_open m) (m_flags m) v g (m_registry m)
      in (out, m\<lparr>m_registry := r\<rparr>))"

definition manager_leave :: "provider_version \<Rightarrow> u64 \<Rightarrow> 'c manager \<Rightarrow> 'c manager" where
  "manager_leave v g m =
     m\<lparr>m_registry := waiter_drop v g (m_registry m), m_waiters := sem_release (m_waiters m)\<rparr>"

definition manager_release :: "instant \<Rightarrow> provider_version \<Rightarrow> u64 \<Rightarrow> 'c manager \<Rightarrow> 'c manager" where
  "manager_release now v g m = m\<lparr>m_registry := release now v g (m_registry m)\<rparr>"

section \<open>Builds\<close>

definition drop_cold :: "bool \<Rightarrow> 'c manager \<Rightarrow> 'c manager" where
  "drop_cold cold m = (if cold then m\<lparr>m_pilot := map_option (pilot_drop PilotCold) (m_pilot m)\<rparr> else m)"

definition drop_load :: "bool \<Rightarrow> 'c manager \<Rightarrow> 'c manager" where
  "drop_load load m = (if load then m\<lparr>m_loads := sem_release (m_loads m)\<rparr> else m)"

definition outcome_counter :: "'c entry \<Rightarrow> 'c build_outcome \<Rightarrow> runtime_counter" where
  "outcome_counter e outcome =
     (case outcome of
        Inr (_, Some m) \<Rightarrow> if bm_key m \<noteq> None \<and> bm_key m \<noteq> e_key e then BuildFailure else BuildSuccess
      | _ \<Rightarrow> BuildFailure)"

text \<open>
  \<open>complete\<close>: the cold permit goes first, then the registry changes, and the loader and attempt
  permits return before the terminal state is published. On the early returns the permits are
  dropped with the arguments.
\<close>

definition manager_complete ::
    "instant \<Rightarrow> provider_version \<Rightarrow> u64 \<Rightarrow> 'c build_outcome \<Rightarrow> bool \<Rightarrow> bool \<Rightarrow> 'c manager \<Rightarrow> 'c manager" where
  "manager_complete now v g outcome load cold m =
     (let m1 = drop_cold cold m;
          m2 = (case hm_get (entries (m_registry m1)) v of
                  None \<Rightarrow> m1
                | Some e \<Rightarrow> if e_gen e \<noteq> g then m1 else increment (outcome_counter e outcome) m1);
          m3 = m2\<lparr>m_registry := complete now (failure_cooldown_ms (m_limits m2)) v g outcome (m_registry m2)\<rparr>
      in (drop_load load m3)\<lparr>m_attempts := sem_release (m_attempts m3)\<rparr>)"

text \<open>
  \<open>build\<close> up to the native thread: with the gate closed or no loader permit it completes at
  once, otherwise the entries of the version become \<open>Loading\<close>. The answer is whether a native
  build started.
\<close>

definition manager_build ::
    "instant \<Rightarrow> provider_version \<Rightarrow> u64 \<Rightarrow> bool \<Rightarrow> bool \<Rightarrow> 'c manager \<Rightarrow> bool \<times> 'c manager" where
  "manager_build now v g load cold m =
     (if \<not> m_gate_open m \<or> \<not> load
      then (False, manager_complete now v g (Inl ShuttingDown) load cold m)
      else (True, m\<lparr>m_registry := build_start v (m_registry m)\<rparr>))"

text \<open>
  What the native thread answers: the gate is read again, then \<open>prepare_artifacts\<close> and \<open>build\<close>
  run; a panic is \<open>Quarantined\<close> (\<open>None\<close> here).
\<close>

definition native_outcome ::
    "bool \<Rightarrow> (runtime_error + unit) option \<Rightarrow> 'c build_outcome option \<Rightarrow> 'c build_outcome" where
  "native_outcome is_open prepared built =
     (if \<not> is_open then Inl ShuttingDown
      else (case prepared of
              None \<Rightarrow> Inl QuarantinedError
            | Some (Inl e) \<Rightarrow> Inl e
            | Some (Inr _) \<Rightarrow> (case built of None \<Rightarrow> Inl QuarantinedError | Some out \<Rightarrow> out)))"

section \<open>Drains\<close>

definition manager_begin_drains ::
    "bool \<Rightarrow> usize option \<Rightarrow> instant \<Rightarrow> 'c manager \<Rightarrow> (idle_drain list \<times> 'c manager) option" where
  "manager_begin_drains expired_only max_drains now m =
     map_option (\<lambda>(ds, r). (ds, m\<lparr>m_registry := r\<rparr>))
       (begin_drains (m_stopping m) (m_flags m) expired_only max_drains now (idle_ttl_ms (m_limits m))
          (m_registry m))"

definition manager_finish_drain :: "instant \<Rightarrow> provider_version \<Rightarrow> u64 \<Rightarrow> bool \<Rightarrow> 'c manager \<Rightarrow> 'c manager" where
  "manager_finish_drain now v g ack m =
     (let (counted, r) = finish_drain (m_limits m) now v g ack (m_registry m);
          m1 = m\<lparr>m_registry := r\<rparr>
      in if counted then increment Eviction m1 else m1)"

definition manager_drain_timeout :: "provider_version \<Rightarrow> u64 \<Rightarrow> 'c manager \<Rightarrow> 'c manager" where
  "manager_drain_timeout v g m = m\<lparr>m_registry := drain_timeout v g (m_registry m)\<rparr>"

definition manager_retain :: "provider_version \<Rightarrow> 'c manager \<Rightarrow> (runtime_error + unit) \<times> 'c manager" where
  "manager_retain v m =
     (let (out, r) = retain_deployment (m_flags m) v (m_registry m) in (out, m\<lparr>m_registry := r\<rparr>))"

definition manager_inspect :: "provider_version \<Rightarrow> 'c manager \<Rightarrow> inspection" where
  "manager_inspect v m = inspect_version (m_gate_open m) (m_stopping m) (m_flags m) v (m_registry m)"

definition manager_accounting :: "'c manager \<Rightarrow> accounting" where
  "manager_accounting m = registry_accounting (m_store m) (m_registry m)"

section \<open>Entry points\<close>

definition acquire_version :: "desired_provider \<Rightarrow> runtime_error + provider_version" where
  "acquire_version s =
     (if \<not> valid_snapshot s \<or> dp_id s = 0 then Inl Configuration
      else Inr (version_database (dp_id s) (dp_revision s)))"

definition acquire_deployment_version :: "desired_provider \<Rightarrow> runtime_error + provider_version" where
  "acquire_deployment_version s =
     (if \<not> valid_snapshot s \<or> dp_id s \<noteq> 0 then Inl Configuration else Inr (deployment_version s))"

definition acquire_draft_version :: "nat \<Rightarrow> desired_provider \<Rightarrow> runtime_error + provider_version" where
  "acquire_draft_version uuid s =
     (if \<not> valid_snapshot s \<or> dp_id s \<noteq> 0 then Inl Configuration
      else Inr \<lparr>pv_identity = Draft uuid, pv_revision = 1\<rparr>)"

text \<open>
  A speculative acquisition never queues: it refuses while anybody waits, and claims its loader
  permit before it enters.
\<close>

definition acquire_speculative ::
    "desired_provider \<Rightarrow> 'c manager \<Rightarrow> (runtime_error + provider_version) \<times> 'c manager" where
  "acquire_speculative s m =
     (if \<not> valid_snapshot s then (Inl Configuration, m)
      else if 0 < ac_waiters (manager_accounting m) then (Inl Busy, m)
      else (case sem_try_acquire (m_loads m) of
              None \<Rightarrow> (Inl Busy, m)
            | Some loads \<Rightarrow>
                (Inr (if dp_id s = 0 then deployment_version s
                      else version_database (dp_id s) (dp_revision s)), m\<lparr>m_loads := loads\<rparr>)))"

text \<open>
  The retry loop of \<open>acquire_admitted\<close> over the answers of its passes. \<open>attempt i\<close> is what
  \<open>acquire_version_until\<close> answers in pass \<open>i\<close> and \<open>evict i\<close> what \<open>evict_pressure_until\<close> answers
  after it; the answer is the result and the number of passes run.
\<close>

datatype joined = JLease nat | JReadmit

fun admitted_loop ::
    "nat \<Rightarrow> bool \<Rightarrow> bool \<Rightarrow> (nat \<Rightarrow> runtime_error + joined) \<Rightarrow> (nat \<Rightarrow> runtime_error + nat) \<Rightarrow>
     nat \<Rightarrow> runtime_error \<Rightarrow> (runtime_error + nat) \<times> nat" where
  "admitted_loop 0 evict_on_pressure speculative attempt evict i last_error = (Inl last_error, i)"
| "admitted_loop (Suc n) evict_on_pressure speculative attempt evict i last_error =
     (case attempt i of
        Inr (JLease l) \<Rightarrow> (Inr l, Suc i)
      | Inr JReadmit \<Rightarrow>
          if speculative then (Inl Busy, Suc i)
          else admitted_loop n evict_on_pressure speculative attempt evict (Suc i) Unavailable
      | Inl e \<Rightarrow>
          if e = MemoryPressure \<and> evict_on_pressure
          then (case evict i of
                  Inl e' \<Rightarrow> (Inl e', Suc i)
                | Inr 0 \<Rightarrow> (Inl MemoryPressure, Suc i)
                | Inr _ \<Rightarrow> admitted_loop n evict_on_pressure speculative attempt evict (Suc i) MemoryPressure)
          else (Inl e, Suc i))"

definition acquire_admitted ::
    "runtime_limits \<Rightarrow> bool \<Rightarrow> bool \<Rightarrow> (nat \<Rightarrow> runtime_error + joined) \<Rightarrow> (nat \<Rightarrow> runtime_error + nat) \<Rightarrow>
     (runtime_error + nat) \<times> nat" where
  "acquire_admitted limits evict_on_pressure speculative attempt evict =
     admitted_loop (max_resources limits + 2) evict_on_pressure speculative attempt evict 0 MemoryPressure"

text \<open>
  \<open>drain_idle_until\<close> waits for its drains in order: \<open>Some ack\<close> is an unload that answered before
  the deadline. The answer is the result and the drains whose timeout was reported.
\<close>

fun await_drains ::
    "(idle_drain \<times> bool option) list \<Rightarrow> nat \<Rightarrow> (runtime_error + nat) \<times> idle_drain list" where
  "await_drains [] n = (Inr n, [])"
| "await_drains ((d, Some True) # ds) n = await_drains ds (n + 1)"
| "await_drains ((d, Some False) # ds) n = (Inl QuarantinedError, [])"
| "await_drains ((d, None) # ds) n = (Inl Timeout, [d])"

text \<open>
  The loop of \<open>shutdown_until\<close>: \<open>reserved t\<close> and \<open>unreclaimable t\<close> are the accounting read at \<open>t\<close>,
  \<open>drained t\<close> the instant at which the drain pass started at \<open>t\<close> returned.
\<close>

function shutdown_loop ::
    "instant \<Rightarrow> (instant \<Rightarrow> u64) \<Rightarrow> (instant \<Rightarrow> bool) \<Rightarrow> (instant \<Rightarrow> instant) \<Rightarrow> instant \<Rightarrow> bool \<times> instant" where
  "shutdown_loop deadline reserved unreclaimable drained now =
     (let t = max now (drained now) in
      if reserved t = 0 then (True, t)
      else if deadline \<le> t \<or> unreclaimable t then (False, t)
      else shutdown_loop deadline reserved unreclaimable drained (min (t + 5) deadline))"
  by pat_completeness auto
termination
  by (relation "measure (\<lambda>(deadline, reserved, unreclaimable, drained, now). deadline - now)")
    (auto simp: Let_def)

declare shutdown_loop.simps [simp del]

end
