(* ===== verification/Provider_Tokens.thy ===== *)
theory Provider_Tokens
  imports Provider_Safety Provider_Manager
begin

text \<open>
  The registry against what is alive outside it: lease and waiter handles, build attempts and
  running unloads. Each predicate relates one kind of handle to the entries; the frame lemmas
  say which changes of the entries leave it alone, and every locked section is classified once.
\<close>

section \<open>Handles\<close>

type_synonym ticket = "provider_version \<times> u64"

record lease =
  l_version :: provider_version
  l_gen :: u64
  l_resource :: nat

record build =
  b_version :: provider_version
  b_gen :: u64
  b_native :: bool
  b_load :: bool
  b_cold :: bool

definition lease_count :: "provider_version \<Rightarrow> u64 \<Rightarrow> lease list \<Rightarrow> nat" where
  "lease_count v g ls = length (filter (\<lambda>l. l_version l = v \<and> l_gen l = g) ls)"

definition ticket_count :: "provider_version \<Rightarrow> u64 \<Rightarrow> ticket list \<Rightarrow> nat" where
  "ticket_count v g ts = length (filter (\<lambda>t. t = (v, g)) ts)"

definition leases_ok :: "'c registry \<Rightarrow> lease list \<Rightarrow> bool" where
  "leases_ok r ls =
     ((\<forall>v e. hm_get (entries r) v = Some e \<longrightarrow> e_leases e = lease_count v (e_gen e) ls) \<and>
      (\<forall>l\<in>set ls. \<exists>e. hm_get (entries r) (l_version l) = Some e \<and> e_gen e = l_gen l \<and>
         e_resource e = Some (l_resource l)))"

text \<open>A waiter whose entry is gone waits for a generation that never comes back.\<close>

definition ticket_ok :: "'c registry \<Rightarrow> ticket \<Rightarrow> bool" where
  "ticket_ok r t = (snd t < next_generation r \<and>
     ((\<exists>e. hm_get (entries r) (fst t) = Some e \<and> e_gen e = snd t) \<or>
      (\<forall>x b. root_of r x = Some b \<longrightarrow> e_gen b \<noteq> snd t)))"

definition waiters_ok :: "'c registry \<Rightarrow> ticket list \<Rightarrow> bool" where
  "waiters_ok r ts =
     ((\<forall>v e. hm_get (entries r) v = Some e \<longrightarrow> e_waiters e = ticket_count v (e_gen e) ts) \<and>
      (\<forall>t\<in>set ts. ticket_ok r t))"

definition building :: "'c entry \<Rightarrow> bool" where
  "building e = (e_state e = Queued \<or> e_state e = Loading)"

definition builds_ok :: "'c registry \<Rightarrow> build list \<Rightarrow> bool" where
  "builds_ok r bs =
     (distinct (map b_version bs) \<and>
      (\<forall>b\<in>set bs. (b_native b \<longrightarrow> b_load b) \<and>
         (\<exists>e. root_of r (b_version b) = Some e \<and> e_gen e = b_gen b \<and>
              e_state e = (if b_native b then Loading else Queued))) \<and>
      (\<forall>v e. root_of r v = Some e \<longrightarrow> building e \<longrightarrow> v \<in> b_version ` set bs))"

definition unloads_ok :: "'c registry \<Rightarrow> idle_drain list \<Rightarrow> bool" where
  "unloads_ok r ds =
     (distinct (map id_version ds) \<and>
      (\<forall>d\<in>set ds. \<exists>e. root_of r (id_version d) = Some e \<and> e_gen e = id_gen d \<and> e_unload e \<and>
         e_resource e = Some (id_resource d)) \<and>
      (\<forall>v e. root_of r v = Some e \<longrightarrow> e_unload e \<longrightarrow> v \<in> id_version ` set ds))"

text \<open>A generation that was ever drained belongs to the version it was drained for.\<close>

definition drained_ok :: "'c registry \<Rightarrow> ticket list \<Rightarrow> bool" where
  "drained_ok r hist = (\<forall>t\<in>set hist. snd t < next_generation r \<and>
     (\<forall>x e. hm_get (entries r) x = Some e \<longrightarrow> e_gen e = snd t \<longrightarrow> e_owner e = fst t))"

lemma ticket_count_pos: "0 < ticket_count v g ts \<longleftrightarrow> (v, g) \<in> set ts"
  by (auto simp: ticket_count_def filter_empty_conv)

lemma lease_count_pos: "0 < lease_count v g ls \<longleftrightarrow> (\<exists>l\<in>set ls. l_version l = v \<and> l_gen l = g)"
  by (auto simp: lease_count_def filter_empty_conv)

lemma ticket_count_simps [simp]:
  "ticket_count v g [] = 0"
  "ticket_count v g (t # ts) = (if t = (v, g) then Suc (ticket_count v g ts) else ticket_count v g ts)"
  "ticket_count v g (ts @ us) = ticket_count v g ts + ticket_count v g us"
  by (auto simp: ticket_count_def)

lemma lease_count_simps [simp]:
  "lease_count v g [] = 0"
  "lease_count v g (l # ls) =
     (if l_version l = v \<and> l_gen l = g then Suc (lease_count v g ls) else lease_count v g ls)"
  by (auto simp: lease_count_def)

lemma ticket_count_remove1:
  "t \<in> set ts \<Longrightarrow> ticket_count v g ts = ticket_count v g (t # remove1 t ts)"
  by (induction ts) auto

lemma lease_count_remove1:
  "l \<in> set ls \<Longrightarrow> lease_count v g ls = lease_count v g (l # remove1 l ls)"
  by (induction ls) auto

section \<open>Frames\<close>

text \<open>Two registries with the same keys whose entries are related pairwise.\<close>

definition entries_rel :: "('c entry \<Rightarrow> 'c entry \<Rightarrow> bool) \<Rightarrow> 'c registry \<Rightarrow> 'c registry \<Rightarrow> bool" where
  "entries_rel R r r' =
     ((\<forall>v. rel_option R (hm_get (entries r) v) (hm_get (entries r') v)) \<and>
      next_generation r' = next_generation r)"

definition same_id :: "'c entry \<Rightarrow> 'c entry \<Rightarrow> bool" where
  "same_id e e' = (e_owner e' = e_owner e \<and> e_gen e' = e_gen e)"

definition keeps_leases :: "'c entry \<Rightarrow> 'c entry \<Rightarrow> bool" where
  "keeps_leases e e' = (same_id e e' \<and> e_leases e' = e_leases e \<and> (0 < e_leases e \<longrightarrow> e_resource e' = e_resource e))"

definition keeps_waiters :: "'c entry \<Rightarrow> 'c entry \<Rightarrow> bool" where
  "keeps_waiters e e' = (same_id e e' \<and> e_waiters e' = e_waiters e)"

definition keeps_build :: "'c entry \<Rightarrow> 'c entry \<Rightarrow> bool" where
  "keeps_build e e' = (same_id e e' \<and> (e_state e' = e_state e \<or> \<not> building e \<and> \<not> building e'))"

definition keeps_unload :: "'c entry \<Rightarrow> 'c entry \<Rightarrow> bool" where
  "keeps_unload e e' = (same_id e e' \<and> e_unload e' = e_unload e \<and> (e_unload e \<longrightarrow> e_resource e' = e_resource e))"

lemma entries_rel_get:
  assumes "entries_rel R r r'"
  shows "hm_get (entries r) v = Some e \<Longrightarrow> \<exists>e'. hm_get (entries r') v = Some e' \<and> R e e'"
    and "hm_get (entries r') v = Some e' \<Longrightarrow> \<exists>e. hm_get (entries r) v = Some e \<and> R e e'"
    and "next_generation r' = next_generation r"
  using assms unfolding entries_rel_def by (metis option_rel_Some1 option_rel_Some2)+

lemma entries_rel_root:
  assumes rel: "entries_rel R r r'" and id: "\<And>e e'. R e e' \<Longrightarrow> same_id e e'"
  shows "root_of r v = Some e \<Longrightarrow> \<exists>e'. root_of r' v = Some e' \<and> R e e'"
    and "root_of r' v = Some e' \<Longrightarrow> \<exists>e. root_of r v = Some e \<and> R e e'"
proof -
  assume "root_of r v = Some e"
  then have e: "hm_get (entries r) v = Some e" "e_owner e = v" by (auto simp: root_of_Some)
  from entries_rel_get(1) [OF rel e(1)] obtain e' where "hm_get (entries r') v = Some e'" "R e e'" by blast
  with id [of e e'] e show "\<exists>e'. root_of r' v = Some e' \<and> R e e'" by (auto simp: root_of_Some same_id_def)
next
  assume "root_of r' v = Some e'"
  then have e: "hm_get (entries r') v = Some e'" "e_owner e' = v" by (auto simp: root_of_Some)
  from entries_rel_get(2) [OF rel e(1)] obtain e where "hm_get (entries r) v = Some e" "R e e'" by blast
  with id [of e e'] e show "\<exists>e. root_of r v = Some e \<and> R e e'" by (auto simp: root_of_Some same_id_def)
qed

lemma leases_frame:
  assumes rel: "entries_rel keeps_leases r r'" and ok: "leases_ok r ls"
  shows "leases_ok r' ls"
  unfolding leases_ok_def
proof (intro conjI allI impI ballI)
  fix v e' assume "hm_get (entries r') v = Some e'"
  with entries_rel_get(2) [OF rel] obtain e where "hm_get (entries r) v = Some e" "keeps_leases e e'" by blast
  with ok show "e_leases e' = lease_count v (e_gen e') ls"
    by (auto simp: leases_ok_def keeps_leases_def same_id_def)
next
  fix l assume l: "l \<in> set ls"
  with ok obtain e where e: "hm_get (entries r) (l_version l) = Some e" "e_gen e = l_gen l"
      "e_resource e = Some (l_resource l)" by (auto simp: leases_ok_def)
  with ok have "e_leases e = lease_count (l_version l) (l_gen l) ls" by (auto simp: leases_ok_def)
  then have "0 < e_leases e" using l lease_count_pos by metis
  with e entries_rel_get(1) [OF rel e(1)]
  show "\<exists>e. hm_get (entries r') (l_version l) = Some e \<and> e_gen e = l_gen l \<and> e_resource e = Some (l_resource l)"
    by (auto simp: keeps_leases_def same_id_def)
qed

lemma ticket_frame:
  assumes rel: "entries_rel same_id r r'" and t: "ticket_ok r t"
  shows "ticket_ok r' t"
proof (cases "\<exists>e. hm_get (entries r) (fst t) = Some e \<and> e_gen e = snd t")
  case True
  then obtain e where e: "hm_get (entries r) (fst t) = Some e" "e_gen e = snd t" by blast
  from entries_rel_get(1) [OF rel e(1)] e(2) t entries_rel_get(3) [OF rel]
  show ?thesis by (auto simp: ticket_ok_def same_id_def)
next
  case False
  with t have no: "root_of r x = Some b \<Longrightarrow> e_gen b \<noteq> snd t" for x b by (auto simp: ticket_ok_def)
  have "e_gen b \<noteq> snd t" if b: "root_of r' x = Some b" for x b
  proof -
    from entries_rel_root(2) [OF rel _ b] obtain e where "root_of r x = Some e" "same_id e b" by blast
    with no show ?thesis by (auto simp: same_id_def)
  qed
  with t entries_rel_get(3) [OF rel] show ?thesis by (simp add: ticket_ok_def)
qed

lemma waiters_frame:
  assumes rel: "entries_rel keeps_waiters r r'" and ok: "waiters_ok r ts"
  shows "waiters_ok r' ts"
  unfolding waiters_ok_def
proof (intro conjI allI impI ballI)
  fix v e' assume "hm_get (entries r') v = Some e'"
  with entries_rel_get(2) [OF rel] obtain e where "hm_get (entries r) v = Some e" "keeps_waiters e e'" by blast
  with ok show "e_waiters e' = ticket_count v (e_gen e') ts"
    by (auto simp: waiters_ok_def keeps_waiters_def same_id_def)
next
  have "entries_rel same_id r r'"
    using rel unfolding entries_rel_def keeps_waiters_def by (auto intro: option.rel_mono_strong)
  moreover fix t assume "t \<in> set ts"
  moreover from this have "ticket_ok r t" using ok by (simp add: waiters_ok_def)
  ultimately show "ticket_ok r' t" by (intro ticket_frame [of r r'])
qed

lemma builds_frame:
  assumes rel: "entries_rel keeps_build r r'" and ok: "builds_ok r bs"
  shows "builds_ok r' bs"
proof -
  have id: "\<And>e e'. keeps_build e e' \<Longrightarrow> same_id e e'" by (simp add: keeps_build_def)
  show ?thesis
    unfolding builds_ok_def
  proof (intro conjI allI impI ballI)
    show "distinct (map b_version bs)" using ok by (simp add: builds_ok_def)
    fix b assume b: "b \<in> set bs"
    with ok show "b_native b \<Longrightarrow> b_load b" by (simp add: builds_ok_def)
    from ok b obtain e where e: "root_of r (b_version b) = Some e" "e_gen e = b_gen b"
        "e_state e = (if b_native b then Loading else Queued)" unfolding builds_ok_def by blast
    from entries_rel_root(1) [OF rel id e(1)] e(2,3)
    show "\<exists>e. root_of r' (b_version b) = Some e \<and> e_gen e = b_gen b \<and> e_state e = (if b_native b then Loading else Queued)"
      by (auto simp: keeps_build_def same_id_def building_def split: if_splits)
  next
    fix v e' assume e': "root_of r' v = Some e'" "building e'"
    from entries_rel_root(2) [OF rel id e'(1)] obtain e where e: "root_of r v = Some e" "keeps_build e e'" by blast
    with e' have "building e" by (auto simp: keeps_build_def building_def)
    with ok e(1) show "v \<in> b_version ` set bs" by (simp add: builds_ok_def)
  qed
qed

lemma unloads_frame:
  assumes rel: "entries_rel keeps_unload r r'" and ok: "unloads_ok r ds"
  shows "unloads_ok r' ds"
proof -
  have id: "\<And>e e'. keeps_unload e e' \<Longrightarrow> same_id e e'" by (simp add: keeps_unload_def)
  show ?thesis
    unfolding unloads_ok_def
  proof (intro conjI allI impI ballI)
    show "distinct (map id_version ds)" using ok by (simp add: unloads_ok_def)
    fix d assume "d \<in> set ds"
    with ok obtain e where e: "root_of r (id_version d) = Some e" "e_gen e = id_gen d" "e_unload e"
        "e_resource e = Some (id_resource d)" unfolding unloads_ok_def by blast
    from entries_rel_root(1) [OF rel id e(1)] e(2-)
    show "\<exists>e. root_of r' (id_version d) = Some e \<and> e_gen e = id_gen d \<and> e_unload e \<and> e_resource e = Some (id_resource d)"
      by (auto simp: keeps_unload_def same_id_def)
  next
    fix v e' assume e': "root_of r' v = Some e'" "e_unload e'"
    from entries_rel_root(2) [OF rel id e'(1)] obtain e where e: "root_of r v = Some e" "keeps_unload e e'" by blast
    with e' ok show "v \<in> id_version ` set ds" by (auto simp: unloads_ok_def keeps_unload_def)
  qed
qed

lemma drained_frame:
  assumes rel: "entries_rel same_id r r'" and ok: "drained_ok r hist"
  shows "drained_ok r' hist"
  unfolding drained_ok_def
proof (intro ballI conjI allI impI)
  fix t assume t: "t \<in> set hist"
  with ok entries_rel_get(3) [OF rel] show "snd t < next_generation r'" by (simp add: drained_ok_def)
  fix x e' assume e': "hm_get (entries r') x = Some e'" "e_gen e' = snd t"
  from entries_rel_get(2) [OF rel e'(1)] obtain e where "hm_get (entries r) x = Some e" "same_id e e'" by blast
  with e' ok t show "e_owner e' = fst t" by (auto simp: drained_ok_def same_id_def)
qed

lemma entries_relI:
  assumes "next_generation r' = next_generation r"
    and "\<And>v. hm_get (entries r) v = None \<Longrightarrow> hm_get (entries r') v = None"
    and "\<And>v e. hm_get (entries r) v = Some e \<Longrightarrow> \<exists>e'. hm_get (entries r') v = Some e' \<and> R e e'"
  shows "entries_rel R r r'"
  unfolding entries_rel_def
proof (intro conjI allI)
  fix v show "rel_option R (hm_get (entries r) v) (hm_get (entries r') v)"
    using assms(2) [of v] assms(3) [of v] by (cases "hm_get (entries r) v") auto
qed (rule assms(1))

lemma entries_rel_mono:
  "entries_rel R r r' \<Longrightarrow> (\<And>e e'. R e e' \<Longrightarrow> Q e e') \<Longrightarrow> entries_rel Q r r'"
  unfolding entries_rel_def by (auto intro: option.rel_mono_strong)

lemma entries_rel_group:
  "(\<And>v e. hm_get (entries r) v = Some e \<Longrightarrow> e_owner e = w \<Longrightarrow> R e (f e)) \<Longrightarrow>
   (\<And>e. R e e) \<Longrightarrow> entries_rel R r (adjust_group w f r)"
  by (rule entries_relI) (auto simp: keyed_simps)

lemma entries_rel_entry:
  "(\<And>e. hm_get (entries r) w = Some e \<Longrightarrow> R e (f e)) \<Longrightarrow> (\<And>e. R e e) \<Longrightarrow>
     entries_rel R r (adjust_entry w f r)"
  by (rule entries_relI) (auto simp: keyed_simps)

lemma keeps_refl [simp]:
  "same_id e e" "keeps_leases e e" "keeps_waiters e e" "keeps_build e e" "keeps_unload e e"
  by (simp_all add: same_id_def keeps_leases_def keeps_waiters_def keeps_build_def keeps_unload_def)

lemmas keeps_defs = same_id_def keeps_leases_def keeps_waiters_def keeps_build_def keeps_unload_def building_def

text \<open>All the handles at once; most sections leave them all alone.\<close>

definition handles_ok ::
    "'c registry \<Rightarrow> lease list \<Rightarrow> ticket list \<Rightarrow> build list \<Rightarrow> idle_drain list \<Rightarrow> ticket list \<Rightarrow> bool" where
  "handles_ok r ls ts bs ds hist =
     (leases_ok r ls \<and> waiters_ok r ts \<and> builds_ok r bs \<and> unloads_ok r ds \<and> drained_ok r hist)"

definition keeps_all :: "'c entry \<Rightarrow> 'c entry \<Rightarrow> bool" where
  "keeps_all e e' = (keeps_leases e e' \<and> keeps_waiters e e' \<and> keeps_build e e' \<and> keeps_unload e e')"

lemma handles_frame:
  "entries_rel keeps_all r r' \<Longrightarrow> handles_ok r ls ts bs ds hist \<Longrightarrow> handles_ok r' ls ts bs ds hist"
proof -
  assume rel: "entries_rel keeps_all r r'" and ok: "handles_ok r ls ts bs ds hist"
  have "entries_rel keeps_leases r r'" "entries_rel keeps_waiters r r'" "entries_rel keeps_build r r'"
      "entries_rel keeps_unload r r'" "entries_rel same_id r r'"
    by (rule entries_rel_mono [OF rel], simp add: keeps_all_def keeps_leases_def)+
  then show ?thesis
    using ok leases_frame waiters_frame builds_frame unloads_frame drained_frame
    unfolding handles_ok_def by blast
qed

text \<open>All but one kind of handle are left alone.\<close>

lemma handles_but_waiters:
  assumes rel: "entries_rel (\<lambda>e e'. keeps_leases e e' \<and> keeps_build e e' \<and> keeps_unload e e') r r'"
    and ok: "handles_ok r ls ts bs ds hist" and w: "waiters_ok r' ts'"
  shows "handles_ok r' ls ts' bs ds hist"
proof -
  have "entries_rel keeps_leases r r'" "entries_rel keeps_build r r'"
      "entries_rel keeps_unload r r'" "entries_rel same_id r r'"
    by (rule entries_rel_mono [OF rel], simp add: keeps_leases_def)+
  then show ?thesis
    using ok w leases_frame builds_frame unloads_frame drained_frame unfolding handles_ok_def by blast
qed

lemma handles_but_leases:
  assumes rel: "entries_rel (\<lambda>e e'. keeps_waiters e e' \<and> keeps_build e e' \<and> keeps_unload e e') r r'"
    and ok: "handles_ok r ls ts bs ds hist" and l: "leases_ok r' ls'"
  shows "handles_ok r' ls' ts bs ds hist"
proof -
  have "entries_rel keeps_waiters r r'" "entries_rel keeps_build r r'"
      "entries_rel keeps_unload r r'" "entries_rel same_id r r'"
    by (rule entries_rel_mono [OF rel], simp add: keeps_waiters_def)+
  then show ?thesis
    using ok l waiters_frame builds_frame unloads_frame drained_frame unfolding handles_ok_def by blast
qed

section \<open>Quarantine\<close>

lemma quarantine_keeps_all:
  assumes inv: "reg_inv limits r" and b: "root_of r w = Some b" and st: "e_state b \<in> {Ready, Draining, Quarantined}"
  shows "entries_rel keeps_all r (quarantine w r)"
  unfolding quarantine_def
proof (rule entries_rel_group)
  fix v e assume e: "hm_get (entries r) v = Some e" "e_owner e = w"
  have "synced e b" by (rule group_synced [OF inv b _ e]) (use st in auto)
  with st show "keeps_all e ((set_state Quarantined e)\<lparr>e_error := Some QuarantinedError\<rparr>)"
    by (auto simp: keeps_all_def keeps_defs synced_def)
qed (simp add: keeps_all_def)

lemma quarantine_unhealthy_keeps_all:
  assumes inv: "reg_inv limits r" and e: "hm_get (entries r) v = Some e"
  shows "entries_rel keeps_all r (quarantine_unhealthy flags e r)"
proof (cases "e_state e = Ready \<and> \<not> healthy flags e")
  case True
  then obtain b where b: "root_of r (e_owner e) = Some b" "synced e b"
    using alias_synced [OF inv e] e by (cases "v = e_owner e") (auto simp: root_of_Some synced_def)
  with True quarantine_keeps_all [OF inv b(1)] show ?thesis by (auto simp: quarantine_unhealthy_def synced_def)
next
  case False
  then show ?thesis by (auto simp: quarantine_unhealthy_def keeps_all_def intro!: entries_relI)
qed

lemma handles_drain_timeout:
  assumes inv: "reg_inv limits r" and ok: "handles_ok r ls ts bs ds hist" and h: "(v, g) \<in> set hist"
  shows "reg_inv limits (drain_timeout v g r) \<and> handles_ok (drain_timeout v g r) ls ts bs ds hist"
proof (cases "\<exists>e. hm_get (entries r) v = Some e \<and> e_gen e = g \<and> e_unload e")
  case True
  then obtain e where e: "hm_get (entries r) v = Some e" "e_gen e = g" "e_unload e" by blast
  with ok h have "e_owner e = v" by (force simp: handles_ok_def drained_ok_def)
  with e have b: "root_of r v = Some e" by (simp add: root_of_Some)
  have "e_state e \<in> {Draining, Quarantined}" using unloading_entry [OF reg_invD(2) [OF inv e(1)] e(3)] by simp
  then have "entries_rel keeps_all r (quarantine v r)" by (intro quarantine_keeps_all [OF inv b]) auto
  with e ok reg_inv_drain_timeout [OF inv b, of g] show ?thesis by (simp add: drain_timeout_def handles_frame)
next
  case False
  then have "drain_timeout v g r = r" by (auto simp: drain_timeout_def split: option.splits)
  with inv ok show ?thesis by simp
qed

section \<open>Joining, leaving and releasing\<close>

lemma handles_join:
  assumes ok: "handles_ok r ls ts bs ds hist" and e: "hm_get (entries r) v = Some e"
    and inv: "reg_inv limits r"
  shows "handles_ok (join_waiter v r) ls ((v, e_gen e) # ts) bs ds hist"
proof -
  have rel: "entries_rel (\<lambda>e e'. keeps_leases e e' \<and> keeps_build e e' \<and> keeps_unload e e') r (join_waiter v r)"
    unfolding join_waiter_def by (rule entries_rel_entry) (simp_all add: keeps_defs)
  have get: "hm_get (entries (join_waiter v r)) x =
      (if x = v then map_option (\<lambda>e. e\<lparr>e_waiters := e_waiters e + 1\<rparr>) (hm_get (entries r) x) else hm_get (entries r) x)" for x
    by (simp add: join_waiter_def keyed_simps)
  have root: "root_of (join_waiter v r) x = (if x = v then map_option (\<lambda>e. e\<lparr>e_waiters := e_waiters e + 1\<rparr>) (root_of r x) else root_of r x)" for x
    unfolding join_waiter_def by (rule root_of_adjust_entry) simp
  have gen: "next_generation (join_waiter v r) = next_generation r" by (simp add: join_waiter_def)
  have tick: "ticket_ok r t \<Longrightarrow> ticket_ok (join_waiter v r) t" for t
    by (rule ticket_frame [OF entries_rel_mono [OF rel]]) (simp_all add: keeps_leases_def)
  have "waiters_ok (join_waiter v r) ((v, e_gen e) # ts)"
    unfolding waiters_ok_def
  proof (intro conjI allI impI ballI)
    fix x d assume "hm_get (entries (join_waiter v r)) x = Some d"
    with ok e show "e_waiters d = ticket_count x (e_gen d) ((v, e_gen e) # ts)"
      by (auto simp: get handles_ok_def waiters_ok_def split: if_splits)
  next
    fix t assume "t \<in> set ((v, e_gen e) # ts)"
    then show "ticket_ok (join_waiter v r) t"
    proof (cases "t = (v, e_gen e)")
      case True
      with e reg_invD(2) [OF inv e] show ?thesis by (auto simp: ticket_ok_def get gen entry_ok_def)
    next
      case False
      with \<open>t \<in> set ((v, e_gen e) # ts)\<close> ok tick show ?thesis by (auto simp: handles_ok_def waiters_ok_def)
    qed
  qed
  then show ?thesis by (rule handles_but_waiters [OF rel ok])
qed

lemma handles_waiter_drop:
  assumes ok: "handles_ok r ls ts bs ds hist" and t: "(v, g) \<in> set ts"
  shows "handles_ok (waiter_drop v g r) ls (remove1 (v, g) ts) bs ds hist"
proof -
  let ?f = "\<lambda>e. e\<lparr>e_waiters := wrapping_sub (e_waiters e) 1\<rparr>"
  let ?r = "waiter_drop v g r"
  have get: "hm_get (entries ?r) x =
      (if x = v then map_option (\<lambda>e. if e_gen e = g then ?f e else e) (hm_get (entries r) x) else hm_get (entries r) x)" for x
    by (auto simp: waiter_drop_def keyed_simps split: option.splits)
  have gen: "next_generation ?r = next_generation r"
    by (simp add: waiter_drop_def split: option.splits)
  have root: "root_of ?r x = (if x = v then map_option (\<lambda>e. if e_gen e = g then ?f e else e) (root_of r x) else root_of r x)" for x
    by (auto simp: root_of_def get split: option.splits)
  have rel: "entries_rel (\<lambda>e e'. keeps_leases e e' \<and> keeps_build e e' \<and> keeps_unload e e') r ?r"
  proof (rule entries_relI)
    fix x e assume e: "hm_get (entries r) x = Some e"
    show "\<exists>e'. hm_get (entries ?r) x = Some e' \<and> keeps_leases e e' \<and> keeps_build e e' \<and> keeps_unload e e'"
      using e by (intro exI [of _ "if x = v \<and> e_gen e = g then ?f e else e"]) (auto simp: get keeps_defs)
  next
    fix x assume "hm_get (entries r) x = None"
    then show "hm_get (entries ?r) x = None" by (auto simp: get)
  qed (rule gen)
  have tick: "ticket_ok r x \<Longrightarrow> ticket_ok ?r x" for x
    by (rule ticket_frame [OF entries_rel_mono [OF rel]]) (simp_all add: keeps_leases_def)
  have "waiters_ok ?r (remove1 (v, g) ts)"
    unfolding waiters_ok_def
  proof (intro conjI allI impI ballI)
    fix x d assume d: "hm_get (entries ?r) x = Some d"
    then obtain e where e: "hm_get (entries r) x = Some e" "e_gen d = e_gen e"
        "e_waiters d = (if x = v \<and> e_gen e = g then wrapping_sub (e_waiters e) 1 else e_waiters e)"
      by (cases "x = v") (force simp: get)+
    with ok have "e_waiters e = ticket_count x (e_gen e) ts" by (simp add: handles_ok_def waiters_ok_def)
    with e ticket_count_remove1 [OF t, of x "e_gen e"]
    show "e_waiters d = ticket_count x (e_gen d) (remove1 (v, g) ts)" by (auto split: if_splits)
  next
    fix x assume "x \<in> set (remove1 (v, g) ts)"
    then have "x \<in> set ts" by (metis notin_set_remove1)
    with ok tick show "ticket_ok ?r x" by (simp add: handles_ok_def waiters_ok_def)
  qed
  then show ?thesis by (rule handles_but_waiters [OF rel ok])
qed

lemma handles_release:
  assumes ok: "handles_ok r ls ts bs ds hist" and inv: "reg_inv limits r" and l: "l \<in> set ls"
  shows "handles_ok (release now (l_version l) (l_gen l) r) (remove1 l ls) ts bs ds hist \<and>
    reg_inv limits (release now (l_version l) (l_gen l) r)"
proof -
  let ?v = "l_version l" and ?g = "l_gen l"
  let ?f = "\<lambda>e. let e' = e\<lparr>e_leases := wrapping_sub (e_leases e) 1\<rparr>
                in if e_leases e' = 0 then e'\<lparr>e_idle := now\<rparr> else e'"
  let ?r = "release now ?v ?g r"
  from ok l obtain e where e: "hm_get (entries r) ?v = Some e" "e_gen e = ?g" "e_resource e = Some (l_resource l)"
    by (auto simp: handles_ok_def leases_ok_def)
  have cnt: "e_leases e = lease_count ?v ?g ls" using ok e by (auto simp: handles_ok_def leases_ok_def)
  then have pos: "0 < e_leases e" using l lease_count_pos by metis
  have r': "?r = adjust_entry ?v ?f r" using e by (simp add: release_def)
  have get: "hm_get (entries ?r) x = (if x = ?v then Some (?f e) else hm_get (entries r) x)" for x
    using e by (simp add: r' keyed_simps)
  have rel: "entries_rel (\<lambda>e e'. keeps_waiters e e' \<and> keeps_build e e' \<and> keeps_unload e e') r ?r"
    unfolding r' by (rule entries_rel_entry) (simp_all add: keeps_defs Let_def)
  have "leases_ok ?r (remove1 l ls)"
    unfolding leases_ok_def
  proof (intro conjI allI impI ballI)
    fix x d assume d: "hm_get (entries ?r) x = Some d"
    show "e_leases d = lease_count x (e_gen d) (remove1 l ls)"
    proof (cases "x = ?v")
      case True
      with d have "e_gen d = ?g" "e_leases d = e_leases e - 1"
        using e(2) pos by (auto simp: get Let_def)
      with cnt True lease_count_remove1 [OF l, of x "e_gen d"] show ?thesis by simp
    next
      case False
      with d ok lease_count_remove1 [OF l, of x "e_gen d"] show ?thesis
        by (auto simp: get handles_ok_def leases_ok_def)
    qed
  next
    fix k assume "k \<in> set (remove1 l ls)"
    then have "k \<in> set ls" by (metis notin_set_remove1)
    with ok obtain d where d: "hm_get (entries r) (l_version k) = Some d" "e_gen d = l_gen k"
        "e_resource d = Some (l_resource k)" by (auto simp: handles_ok_def leases_ok_def)
    with e show "\<exists>e. hm_get (entries ?r) (l_version k) = Some e \<and> e_gen e = l_gen k \<and> e_resource e = Some (l_resource k)"
      by (cases "l_version k = ?v") (auto simp: get Let_def)
  qed
  then show ?thesis using handles_but_leases [OF rel ok] reg_inv_release [OF inv e(1) pos] by simp
qed

section \<open>Waiting\<close>

lemma handles_lease:
  assumes ok: "handles_ok r ls ts bs ds hist"
    and e: "hm_get (entries r) v = Some e" "e_resource e = Some res"
  shows "handles_ok (adjust_entry v (\<lambda>e. e\<lparr>e_leases := e_leases e + 1\<rparr>) r)
    (\<lparr>l_version = v, l_gen = e_gen e, l_resource = res\<rparr> # ls) ts bs ds hist"
proof -
  let ?r = "adjust_entry v (\<lambda>e. e\<lparr>e_leases := e_leases e + 1\<rparr>) r"
  have rel: "entries_rel (\<lambda>e e'. keeps_waiters e e' \<and> keeps_build e e' \<and> keeps_unload e e') r ?r"
    by (rule entries_rel_entry) (simp_all add: keeps_defs)
  have "leases_ok ?r (\<lparr>l_version = v, l_gen = e_gen e, l_resource = res\<rparr> # ls)"
    unfolding leases_ok_def
  proof (intro conjI allI impI ballI)
    fix x d assume "hm_get (entries ?r) x = Some d"
    with ok e show "e_leases d = lease_count x (e_gen d) (\<lparr>l_version = v, l_gen = e_gen e, l_resource = res\<rparr> # ls)"
      by (auto simp: keyed_simps handles_ok_def leases_ok_def split: if_splits)
  next
    fix k assume "k \<in> set (\<lparr>l_version = v, l_gen = e_gen e, l_resource = res\<rparr> # ls)"
    then obtain d where "hm_get (entries r) (l_version k) = Some d" "e_gen d = l_gen k"
        "e_resource d = Some (l_resource k)"
      using ok e by (auto simp: handles_ok_def leases_ok_def)
    then show "\<exists>e. hm_get (entries ?r) (l_version k) = Some e \<and> e_gen e = l_gen k \<and> e_resource e = Some (l_resource k)"
      by (auto simp: keyed_simps)
  qed
  then show ?thesis by (rule handles_but_leases [OF rel ok])
qed

text \<open>A pass grants a lease on the very generation it joined, or leaves every handle alone.\<close>

lemma handles_wait:
  assumes ok: "handles_ok r ls ts bs ds hist" and inv: "reg_inv limits r"
    and w: "wait_pass is_open flags v g r = (out, r')"
  shows "handles_ok r' ((case out of GotLease res \<Rightarrow> [\<lparr>l_version = v, l_gen = g, l_resource = res\<rparr>] | _ \<Rightarrow> []) @ ls)
    ts bs ds hist"
proof (cases "hm_get (entries r) v")
  case None
  with w ok show ?thesis by (auto simp: wait_pass_def)
next
  case (Some e0)
  let ?r = "quarantine_unhealthy flags e0 r"
  show ?thesis
  proof (cases "e_gen e0 = g")
    case False
    with w ok Some show ?thesis by (auto simp: wait_pass_def)
  next
    case True
    have rel: "entries_rel keeps_all r ?r" by (rule quarantine_unhealthy_keeps_all [OF inv Some])
    then have q: "handles_ok ?r ls ts bs ds hist" by (rule handles_frame [OF _ ok])
    from entries_rel_get(1) [OF rel Some] True obtain e where e: "hm_get (entries ?r) v = Some e" "e_gen e = g"
      by (auto simp: keeps_all_def keeps_defs)
    have "e_resource e = Some res \<Longrightarrow> handles_ok (adjust_entry v (\<lambda>e. e\<lparr>e_leases := e_leases e + 1\<rparr>) ?r)
        (\<lparr>l_version = v, l_gen = g, l_resource = res\<rparr> # ls) ts bs ds hist" for res
      using handles_lease [OF q e(1)] e(2) by simp
    with w Some True e q show ?thesis
      by (auto simp: wait_pass_def Let_def split: runtime_state.splits option.splits if_splits)
  qed
qed

end
