(* ===== verification/Provider_Steps.thy ===== *)
theory Provider_Steps
  imports Provider_Tokens
begin

text \<open>
  The sections that add, remove or move whole entries, with their effect on the handles: the
  insertions of an admission, the purge of failed entries, the start and the completion of a
  build, and the start and the end of a drain.
\<close>

section \<open>Removal\<close>

lemma unload_root:
  assumes inv: "reg_inv limits r" and ok: "handles_ok r ls ts bs ds hist" and d: "d \<in> set ds"
  obtains e where "root_of r (id_version d) = Some e" and "e_gen e = id_gen d" and "e_unload e"
    and "e_resource e = Some (id_resource d)" and "e_state e \<in> {Draining, Quarantined}"
proof -
  from ok d obtain e where e: "root_of r (id_version d) = Some e" "e_gen e = id_gen d" "e_unload e"
      "e_resource e = Some (id_resource d)" unfolding handles_ok_def unloads_ok_def by blast
  then have "entry_ok (next_generation r) (id_version d) e" using reg_invD(2) [OF inv] by (simp add: root_of_Some)
  from unloading_entry [OF this e(3)] e that show ?thesis by blast
qed

lemma handles_retain:
  assumes inv: "reg_inv limits r" and ok: "handles_ok r ls ts bs ds hist"
    and r': "entries r' = hm_retain p (entries r)" "next_generation r' = next_generation r"
    and gone: "\<And>v e. hm_get (entries r) v = Some e \<Longrightarrow> \<not> p v e \<Longrightarrow> e_leases e = 0 \<and>
      (e_waiters e = 0 \<or> (\<forall>x b. root_of r x = Some b \<longrightarrow> e_gen b = e_gen e \<longrightarrow> \<not> p x b))"
    and b: "\<And>v e. root_of r v = Some e \<Longrightarrow> \<not> p v e \<Longrightarrow> \<not> building e"
    and ds': "\<And>d. d \<in> set ds' \<longleftrightarrow> d \<in> set ds \<and> (\<forall>e. root_of r (id_version d) = Some e \<longrightarrow> p (id_version d) e)"
    and dist: "distinct (map id_version ds')"
  shows "handles_ok r' ls ts bs ds' hist"
proof -
  have get: "hm_get (entries r') v =
      (case hm_get (entries r) v of None \<Rightarrow> None | Some e \<Rightarrow> if p v e then Some e else None)" for v
    by (simp add: r' hm_get_retain [OF reg_invD(1) [OF inv]])
  have old: "hm_get (entries r') v = Some e \<longleftrightarrow> hm_get (entries r) v = Some e \<and> p v e" for v e
    by (auto simp: get split: option.splits)
  have root: "root_of r' v = Some e \<longleftrightarrow> root_of r v = Some e \<and> p v e" for v e
    by (auto simp: root_of_Some old)
  have L: "leases_ok r ls" and W: "waiters_ok r ts" and B: "builds_ok r bs" and U: "unloads_ok r ds"
    and H: "drained_ok r hist" using ok by (simp_all add: handles_ok_def)
  have "leases_ok r' ls"
    unfolding leases_ok_def
  proof (intro conjI allI impI ballI)
    fix v e assume "hm_get (entries r') v = Some e"
    with L show "e_leases e = lease_count v (e_gen e) ls" by (simp add: old leases_ok_def)
  next
    fix l assume l: "l \<in> set ls"
    with L obtain e where e: "hm_get (entries r) (l_version l) = Some e" "e_gen e = l_gen l"
        "e_resource e = Some (l_resource l)" by (auto simp: leases_ok_def)
    with L have "e_leases e = lease_count (l_version l) (l_gen l) ls" by (auto simp: leases_ok_def)
    then have "0 < e_leases e" using l lease_count_pos by metis
    with gone [OF e(1)] have "p (l_version l) e" by auto
    with e show "\<exists>e. hm_get (entries r') (l_version l) = Some e \<and> e_gen e = l_gen l \<and> e_resource e = Some (l_resource l)"
      by (auto simp: old)
  qed
  moreover have "waiters_ok r' ts"
    unfolding waiters_ok_def
  proof (intro conjI allI impI ballI)
    fix v e assume "hm_get (entries r') v = Some e"
    with W show "e_waiters e = ticket_count v (e_gen e) ts" by (simp add: old waiters_ok_def)
  next
    fix t assume t: "t \<in> set ts"
    obtain v g where vg: "t = (v, g)" by (cases t)
    from W t have tok: "ticket_ok r t" by (simp add: waiters_ok_def)
    show "ticket_ok r' t"
    proof (cases "\<exists>e. hm_get (entries r) v = Some e \<and> e_gen e = g")
      case True
      then obtain e where e: "hm_get (entries r) v = Some e" "e_gen e = g" by blast
      with W have "e_waiters e = ticket_count v g ts" by (auto simp: waiters_ok_def)
      with t vg have pos: "0 < e_waiters e" using ticket_count_pos by metis
      show ?thesis
      proof (cases "p v e")
        case True
        with e tok show ?thesis by (auto simp: ticket_ok_def old r'(2) vg)
      next
        case False
        from gone [OF e(1) False] pos e(2) tok show ?thesis by (auto simp: ticket_ok_def root r'(2) vg)
      qed
    next
      case False
      with tok show ?thesis by (auto simp: ticket_ok_def root r'(2) vg)
    qed
  qed
  moreover have "builds_ok r' bs"
    unfolding builds_ok_def
  proof (intro conjI allI impI ballI)
    show "distinct (map b_version bs)" using B by (simp add: builds_ok_def)
    fix x assume x: "x \<in> set bs"
    with B show "b_native x \<Longrightarrow> b_load x" by (simp add: builds_ok_def)
    from B x obtain e where e: "root_of r (b_version x) = Some e" "e_gen e = b_gen x"
        "e_state e = (if b_native x then Loading else Queued)" unfolding builds_ok_def by blast
    then have "building e" by (simp add: building_def split: if_splits)
    with b [OF e(1)] e show "\<exists>e. root_of r' (b_version x) = Some e \<and> e_gen e = b_gen x \<and>
        e_state e = (if b_native x then Loading else Queued)" by (auto simp: root)
  next
    fix v e assume "root_of r' v = Some e" "building e"
    with B show "v \<in> b_version ` set bs" by (auto simp: root builds_ok_def)
  qed
  moreover have "unloads_ok r' ds'"
    unfolding unloads_ok_def
  proof (intro conjI allI impI ballI)
    show "distinct (map id_version ds')" by (rule dist)
    fix d assume "d \<in> set ds'"
    with ds' [of d] U show "\<exists>e. root_of r' (id_version d) = Some e \<and> e_gen e = id_gen d \<and> e_unload e \<and>
        e_resource e = Some (id_resource d)"
      unfolding unloads_ok_def root by blast
  next
    fix v e assume v: "root_of r' v = Some e" "e_unload e"
    then have "v \<in> id_version ` set ds" using U by (auto simp: root unloads_ok_def)
    then obtain d where "d \<in> set ds" "v = id_version d" by blast
    with v ds' [of d] show "v \<in> id_version ` set ds'" by (auto simp: root)
  qed
  moreover have "drained_ok r' hist" using H by (auto simp: drained_ok_def old r'(2))
  ultimately show ?thesis by (simp add: handles_ok_def)
qed

lemma handles_purge:
  assumes inv: "reg_inv limits r" and ok: "handles_ok r ls ts bs ds hist"
  shows "handles_ok (purge_failed now r) ls ts bs ds hist"
proof (rule handles_retain [OF inv ok])
  fix v e assume "hm_get (entries r) v = Some e" "\<not> \<not> (e_state e = Failed \<and> e_waiters e = 0 \<and> e_retry e \<le> now)"
  with reg_invD(2) [OF inv] show "e_leases e = 0 \<and> (e_waiters e = 0 \<or>
      (\<forall>x b. root_of r x = Some b \<longrightarrow> e_gen b = e_gen e \<longrightarrow> \<not> \<not> (e_state b = Failed \<and> e_waiters b = 0 \<and> e_retry b \<le> now)))"
    by (fastforce simp: entry_ok_defs)
next
  fix d
  have "e_state e \<noteq> Failed" if "d \<in> set ds" "root_of r (id_version d) = Some e" for e
    by (rule unload_root [OF inv ok that(1)]) (use that(2) in auto)
  then show "d \<in> set ds \<longleftrightarrow> d \<in> set ds \<and> (\<forall>e. root_of r (id_version d) = Some e \<longrightarrow>
      \<not> (e_state e = Failed \<and> e_waiters e = 0 \<and> e_retry e \<le> now))"
    by blast
qed (use ok in \<open>auto simp: purge_failed_def building_def handles_ok_def unloads_ok_def\<close>)

lemma handles_make_room:
  assumes inv: "reg_inv limits r" and ok: "handles_ok r ls ts bs ds hist"
  shows "handles_ok (make_room limits r) ls ts bs ds hist"
  using reg_invD(1) [OF inv]
proof (cases rule: make_room_cases [where limits = limits])
  case same
  with ok show ?thesis by simp
next
  case (evicted v e)
  show ?thesis
  proof (rule handles_retain [OF inv ok])
    show "entries (make_room limits r) = hm_retain (\<lambda>k' _. k' \<noteq> v) (entries r)"
      by (simp add: evicted hm_remove_def)
    show "d \<in> set ds \<longleftrightarrow> d \<in> set ds \<and> (\<forall>e. root_of r (id_version d) = Some e \<longrightarrow> id_version d \<noteq> v)" for d
      using evicted(2,3) by (auto simp: root_of_Some)
    show "distinct (map id_version ds)" using ok by (simp add: handles_ok_def unloads_ok_def)
  qed (use evicted in \<open>auto simp: root_of_Some\<close>)
qed

section \<open>Insertion\<close>

lemma absent_no_handles:
  assumes ok: "handles_ok r ls ts bs ds hist" and new: "hm_get (entries r) v = None"
  shows "lease_count v g ls = 0"
    and "(\<exists>x b. root_of r x = Some b \<and> e_gen b = g) \<or> next_generation r \<le> g \<Longrightarrow> ticket_count v g ts = 0"
proof -
  have "\<not> (\<exists>l\<in>set ls. l_version l = v \<and> l_gen l = g)"
    using ok new by (force simp: handles_ok_def leases_ok_def)
  then show "lease_count v g ls = 0" using lease_count_pos [of v g ls] by auto
next
  assume g: "(\<exists>x b. root_of r x = Some b \<and> e_gen b = g) \<or> next_generation r \<le> g"
  have "(v, g) \<notin> set ts"
  proof
    assume "(v, g) \<in> set ts"
    with ok have "ticket_ok r (v, g)" by (simp add: handles_ok_def waiters_ok_def)
    with g new show False by (auto simp: ticket_ok_def)
  qed
  then show "ticket_count v g ts = 0" using ticket_count_pos [of v g ts] by auto
qed

lemma handles_insert:
  assumes ok: "handles_ok r ls ts bs ds hist" and new: "hm_get (entries r) v = None"
    and get: "\<And>x. hm_get (entries r') x = (if x = v then Some a else hm_get (entries r) x)"
    and next_gen: "next_generation r \<le> next_generation r'"
    and a: "e_leases a = 0" "e_waiters a = 0" "\<not> e_unload a"
    and g: "(\<exists>x b. root_of r x = Some b \<and> e_gen b = e_gen a \<and> e_owner b = e_owner a \<and> v \<noteq> e_owner a \<and> bs' = bs) \<or>
      (e_gen a = next_generation r \<and> e_owner a = v \<and> e_state a = Queued \<and>
       (\<exists>load cold. bs' = \<lparr>b_version = v, b_gen = e_gen a, b_native = False, b_load = load, b_cold = cold\<rparr> # bs))"
  shows "handles_ok r' ls ts bs' ds hist"
proof -
  have L: "leases_ok r ls" and W: "waiters_ok r ts" and B: "builds_ok r bs" and U: "unloads_ok r ds"
    and H: "drained_ok r hist" using ok by (simp_all add: handles_ok_def)
  have root: "root_of r' x = (if x = v \<and> e_owner a = v then Some a else root_of r x)" for x
    using new by (auto simp: root_of_def get)
  have rv: "root_of r v = None" using new by (simp add: root_of_def)
  have "leases_ok r' ls"
    using L absent_no_handles(1) [OF ok new] new
    unfolding leases_ok_def by (simp add: get a) (metis option.distinct(1))
  moreover have tc: "ticket_count v (e_gen a) ts = 0"
    by (rule absent_no_handles(2) [OF ok new]) (use g in auto)
  have "waiters_ok r' ts"
    unfolding waiters_ok_def
  proof (intro conjI allI impI ballI)
    fix x e assume "hm_get (entries r') x = Some e"
    with W tc a show "e_waiters e = ticket_count x (e_gen e) ts" by (auto simp: get waiters_ok_def split: if_splits)
  next
    fix t assume "t \<in> set ts"
    with W have t: "ticket_ok r t" by (simp add: waiters_ok_def)
    have gen: "e_owner a = v \<Longrightarrow> e_gen a \<noteq> snd t" using g t rv by (auto simp: ticket_ok_def)
    show "ticket_ok r' t"
    proof (cases "\<exists>e. hm_get (entries r) (fst t) = Some e \<and> e_gen e = snd t")
      case True
      with new t next_gen show ?thesis by (auto simp: ticket_ok_def get)
    next
      case False
      with t gen next_gen show ?thesis by (auto simp: ticket_ok_def root)
    qed
  qed
  moreover have "builds_ok r' bs'"
    using g
  proof
    assume al: "\<exists>x b. root_of r x = Some b \<and> e_gen b = e_gen a \<and> e_owner b = e_owner a \<and> v \<noteq> e_owner a \<and> bs' = bs"
    then have "root_of r' = root_of r" by (auto simp: root fun_eq_iff)
    with B al show ?thesis by (auto simp: builds_ok_def)
  next
    assume fr: "e_gen a = next_generation r \<and> e_owner a = v \<and> e_state a = Queued \<and>
       (\<exists>load cold. bs' = \<lparr>b_version = v, b_gen = e_gen a, b_native = False, b_load = load, b_cold = cold\<rparr> # bs)"
    then obtain load cold where bs': "bs' = \<lparr>b_version = v, b_gen = e_gen a, b_native = False,
        b_load = load, b_cold = cold\<rparr> # bs" by blast
    have nv: "b_version b \<noteq> v" if "b \<in> set bs" for b
      using B rv that unfolding builds_ok_def by fastforce
    show ?thesis
      unfolding builds_ok_def
    proof (intro conjI allI impI ballI)
      show "distinct (map b_version bs')" using B nv by (auto simp: bs' builds_ok_def)
      fix b assume b: "b \<in> set bs'"
      then show "b_native b \<Longrightarrow> b_load b" using B by (auto simp: bs' builds_ok_def)
      show "\<exists>e. root_of r' (b_version b) = Some e \<and> e_gen e = b_gen b \<and>
          e_state e = (if b_native b then Loading else Queued)"
      proof (cases "b \<in> set bs")
        case True
        with B nv show ?thesis by (simp add: root builds_ok_def)
      next
        case False
        with b fr show ?thesis by (simp add: root bs')
      qed
    next
      fix x e assume "root_of r' x = Some e" "building e"
      with B show "x \<in> b_version ` set bs'" by (auto simp: root bs' builds_ok_def split: if_splits)
    qed
  qed
  moreover have "unloads_ok r' ds"
    using U rv a unfolding unloads_ok_def root by (auto split: if_splits)
  moreover have "drained_ok r' hist"
    unfolding drained_ok_def
  proof (intro ballI conjI allI impI)
    fix t assume t: "t \<in> set hist"
    with H have h: "snd t < next_generation r" "\<And>x e. hm_get (entries r) x = Some e \<Longrightarrow> e_gen e = snd t \<Longrightarrow> e_owner e = fst t"
      by (auto simp: drained_ok_def)
    with next_gen show "snd t < next_generation r'" by simp
    fix x e assume x: "hm_get (entries r') x = Some e" "e_gen e = snd t"
    show "e_owner e = fst t"
    proof (cases "x = v")
      case True
      with x have e: "e = a" by (simp add: get)
      with g x h(1) obtain y b where "root_of r y = Some b" "e_gen b = snd t" "e_owner b = e_owner e" by auto
      with h(2) show ?thesis by (auto simp: root_of_Some)
    next
      case False
      with x h(2) show ?thesis by (simp add: get)
    qed
  qed
  ultimately show ?thesis by (simp add: handles_ok_def)
qed

lemma handles_insert_alias:
  assumes inv: "reg_inv limits r" and ok: "handles_ok r ls ts bs ds hist"
    and new: "hm_get (entries r) v = None" and f: "find_shared flags key r = Some (k, b)"
  shows "handles_ok (insert_alias now v b r) ls ts bs ds hist"
proof -
  have k: "hm_get (entries r) k = Some b" "e_owner b = k" "e_state b \<in> {Queued, Loading, Ready}"
    using find_shared_mem [OF f] hm_mem_get [OF reg_invD(1) [OF inv]] by auto
  have "\<not> e_unload b" using reg_invD(2) [OF inv k(1)] k(3) by (auto simp: entry_ok_defs)
  moreover have "v \<noteq> k" using new k by auto
  ultimately show ?thesis
    using k by (intro handles_insert [OF ok new, of _ "(entry_alias now b)\<lparr>e_retained := v \<in> set (retained_deployments r)\<rparr>"])
      (auto simp: insert_alias_def keyed_simps root_of_Some)
qed

lemma handles_insert_fresh:
  assumes ok: "handles_ok r ls ts bs ds hist" and new: "hm_get (entries r) v = None"
  shows "handles_ok (insert_fresh now v key bytes r) ls ts
    (\<lparr>b_version = v, b_gen = next_generation r, b_native = False, b_load = load, b_cold = cold\<rparr> # bs) ds hist"
  by (rule handles_insert [OF ok new, of _ "entry_fresh now v key (v \<in> set (retained_deployments r)) (next_generation r) bytes"])
    (auto simp: insert_fresh_def keyed_simps entry_fresh_def)

section \<open>Builds\<close>

lemma build_root:
  assumes ok: "handles_ok r ls ts bs ds hist" and b: "b \<in> set bs"
  obtains e where "root_of r (b_version b) = Some e" and "e_gen e = b_gen b"
    and "e_state e = (if b_native b then Loading else Queued)"
  using ok b unfolding handles_ok_def builds_ok_def by blast

text \<open>The group of a build changes its state only, and nothing in it is leased or unloading.\<close>

lemma handles_build_change:
  assumes ok: "handles_ok r ls ts bs ds hist"
    and rel: "entries_rel (\<lambda>e e'. keeps_leases e e' \<and> keeps_waiters e e' \<and> keeps_unload e e') r r'"
    and b: "builds_ok r' bs'"
  shows "handles_ok r' ls ts bs' ds hist"
proof -
  have "entries_rel keeps_leases r r'" "entries_rel keeps_waiters r r'"
      "entries_rel keeps_unload r r'" "entries_rel same_id r r'"
    by (rule entries_rel_mono [OF rel], simp add: keeps_leases_def)+
  then show ?thesis
    using ok b leases_frame waiters_frame unloads_frame drained_frame unfolding handles_ok_def by blast
qed

definition replace_build :: "build \<Rightarrow> build \<Rightarrow> build list \<Rightarrow> build list" where
  "replace_build b b' bs = b' # remove1 b bs"

lemma remove_build:
  assumes "builds_ok r bs" and "b \<in> set bs"
  shows "distinct (map b_version (remove1 b bs))" and "set (remove1 b bs) = set bs - {b}"
    and "c \<in> set (remove1 b bs) \<Longrightarrow> b_version c \<noteq> b_version b"
proof -
  from assms have d: "distinct bs" "inj_on b_version (set bs)" by (auto simp: builds_ok_def distinct_map)
  then show set: "set (remove1 b bs) = set bs - {b}" by (simp add: set_remove1_eq)
  with d show "distinct (map b_version (remove1 b bs))"
    by (auto simp: distinct_map intro: inj_on_subset)
  from d assms(2) show "c \<in> set (remove1 b bs) \<Longrightarrow> b_version c \<noteq> b_version b"
    unfolding set by (auto dest: inj_onD)
qed

lemma handles_build_start:
  assumes inv: "reg_inv limits r" and ok: "handles_ok r ls ts bs ds hist" and b: "b \<in> set bs"
    and q: "\<not> b_native b" and load: "b_load b"
  shows "reg_inv limits (build_start (b_version b) r) \<and>
    handles_ok (build_start (b_version b) r) ls ts (replace_build b (b\<lparr>b_native := True\<rparr>) bs) ds hist"
proof -
  let ?v = "b_version b" and ?bs = "replace_build b (b\<lparr>b_native := True\<rparr>) bs"
  let ?r = "build_start ?v r"
  obtain e where e: "root_of r ?v = Some e" "e_gen e = b_gen b" "e_state e = Queued"
    using build_root [OF ok b] q by auto
  have get: "hm_get (entries ?r) x = map_option (\<lambda>e. if e_owner e = ?v then set_state Loading e else e) (hm_get (entries r) x)" for x
    unfolding build_start_def by (simp add: keyed_simps)
  have root: "root_of ?r x = (if x = ?v then map_option (set_state Loading) (root_of r x) else root_of r x)" for x
    by (auto simp: root_of_def get split: option.splits)
  have gen: "next_generation ?r = next_generation r" by (simp add: build_start_def)
  have rel: "entries_rel (\<lambda>e e'. keeps_leases e e' \<and> keeps_waiters e e' \<and> keeps_unload e e') r ?r"
    by (rule entries_relI) (auto simp: get gen keeps_defs)
  have B: "builds_ok r bs" using ok by (simp add: handles_ok_def)
  note rem = remove_build [OF B b]
  have "builds_ok ?r ?bs"
    unfolding builds_ok_def
  proof (intro conjI allI impI ballI)
    show "distinct (map b_version ?bs)" using rem(1) rem(3) by (simp add: replace_build_def image_iff) metis
  next
    fix c assume c: "c \<in> set ?bs"
    then show "b_native c \<Longrightarrow> b_load c" using B rem(2) load by (auto simp: replace_build_def builds_ok_def)
    show "\<exists>e. root_of ?r (b_version c) = Some e \<and> e_gen e = b_gen c \<and> e_state e = (if b_native c then Loading else Queued)"
    proof (cases "c = b\<lparr>b_native := True\<rparr>")
      case True
      with e show ?thesis by (simp add: root)
    next
      case False
      with c have "c \<in> set (remove1 b bs)" by (simp add: replace_build_def)
      with rem B show ?thesis by (simp add: root builds_ok_def)
    qed
  next
    fix x d assume "root_of ?r x = Some d" "building d"
    then have "x = ?v \<or> x \<in> b_version ` set bs" using B by (auto simp: root builds_ok_def split: if_splits)
    then show "x \<in> b_version ` set ?bs" using rem(2) by (auto simp: replace_build_def)
  qed
  with handles_build_change [OF ok rel] reg_inv_build_start [OF inv e(1,3)] show ?thesis by blast
qed

lemma handles_complete:
  assumes inv: "reg_inv limits r" and ok: "handles_ok r ls ts bs ds hist" and b: "b \<in> set bs"
  shows "reg_inv limits (complete now cd (b_version b) (b_gen b) outcome r) \<and>
    handles_ok (complete now cd (b_version b) (b_gen b) outcome r) ls ts (remove1 b bs) ds hist"
proof -
  let ?v = "b_version b" let ?r = "complete now cd ?v (b_gen b) outcome r"
  obtain e where e: "root_of r ?v = Some e" "e_gen e = b_gen b" and st: "e_state e \<in> {Queued, Loading}"
    using build_root [OF ok b] by (metis insertI1 insertI2)
  obtain e' released where c: "completed_entry now cd outcome e = (e', released)" by (metis prod.collapse)
  note f = completed_entry_fields [OF c]
  have v: "hm_get (entries r) ?v = Some e" "e_owner e = ?v" using e by (simp_all add: root_of_Some)
  note get = get_complete [OF v(1) e(2) c]
  have idle: "hm_get (entries r) x = Some a \<Longrightarrow> e_owner a = ?v \<Longrightarrow> e_leases a = 0 \<and> \<not> e_unload a" for x a
    using building_group [OF inv e(1) st] by (auto simp: idle_entry_def)
  have gen: "next_generation ?r = next_generation r" using v e c by (simp add: complete_def Let_def)
  have rel: "entries_rel (\<lambda>e e'. keeps_leases e e' \<and> keeps_waiters e e' \<and> keeps_unload e e') r ?r"
  proof (rule entries_relI)
    fix x assume "hm_get (entries r) x = None"
    then show "hm_get (entries ?r) x = None" using v by (auto simp: get)
  next
    fix x a assume a: "hm_get (entries r) x = Some a"
    show "\<exists>a'. hm_get (entries ?r) x = Some a' \<and> keeps_leases a a' \<and> keeps_waiters a a' \<and> keeps_unload a a'"
    proof (cases "x = ?v")
      case True
      with a v f idle [OF v] show ?thesis by (auto simp: get keeps_defs)
    next
      case False
      with a idle [OF a] show ?thesis by (auto simp: get keeps_defs)
    qed
  qed (rule gen)
  have root: "root_of ?r x = (if x = ?v then Some (publish e') else root_of r x)" for x
    using v f by (auto simp: root_of_def get split: option.splits)
  have B: "builds_ok r bs" using ok by (simp add: handles_ok_def)
  note rem = remove_build [OF B b]
  have "builds_ok ?r (remove1 b bs)"
    unfolding builds_ok_def
  proof (intro conjI allI impI ballI)
    show "distinct (map b_version (remove1 b bs))" by (rule rem(1))
    fix c assume c: "c \<in> set (remove1 b bs)"
    with B rem(2) show "b_native c \<Longrightarrow> b_load c" by (auto simp: builds_ok_def)
    from c rem B show "\<exists>e. root_of ?r (b_version c) = Some e \<and> e_gen e = b_gen c \<and>
        e_state e = (if b_native c then Loading else Queued)" by (simp add: root builds_ok_def)
  next
    fix x d assume d: "root_of ?r x = Some d" "building d"
    have "x \<noteq> ?v" using d f(9) by (auto simp: root building_def)
    moreover from this d B have "x \<in> b_version ` set bs" by (simp add: root builds_ok_def)
    ultimately show "x \<in> b_version ` set (remove1 b bs)" using rem(2) by auto
  qed
  with handles_build_change [OF ok rel] reg_inv_complete [OF inv e(1) st e(2)] show ?thesis by blast
qed

section \<open>Drains\<close>

definition drain_tickets :: "idle_drain list \<Rightarrow> ticket list" where
  "drain_tickets ds = map (\<lambda>d. (id_version d, id_gen d)) ds"

lemma handles_start_unload:
  assumes inv: "reg_inv limits r" and ok: "handles_ok r ls ts bs ds hist" and m: "may_unload v r"
    and b: "root_of r v = Some b" "e_resource b = Some res"
  shows "handles_ok (adjust_group v start_unload r) ls ts bs
    (\<lparr>id_version = v, id_gen = e_gen b, id_resource = res\<rparr> # ds) ((v, e_gen b) # hist)"
proof -
  let ?r = "adjust_group v start_unload r"
  have st: "e_state b \<in> {Ready, Quarantined}" "\<not> e_unload b" using m b by (auto simp: may_unload_def)
  have grp: "e_state e \<in> {Ready, Quarantined}" if "hm_get (entries r) x = Some e" "e_owner e = v" for x e
  proof -
    have "synced e b" by (rule group_synced [OF inv b(1) _ that]) (use st in auto)
    with st show ?thesis by (simp add: synced_def)
  qed
  have rel: "entries_rel (\<lambda>e e'. keeps_leases e e' \<and> keeps_waiters e e' \<and> keeps_build e e') r ?r"
    by (rule entries_rel_group) (auto simp: keeps_defs dest!: grp)
  have root: "root_of ?r x = (if x = v then map_option start_unload (root_of r x) else root_of r x)" for x
    by (rule root_of_adjust_group) simp
  have U: "unloads_ok r ds" using ok by (simp add: handles_ok_def)
  have new: "d \<in> set ds \<Longrightarrow> id_version d \<noteq> v" for d
    using U b st unfolding unloads_ok_def by fastforce
  have rels: "entries_rel keeps_leases r ?r" "entries_rel keeps_waiters r ?r" "entries_rel keeps_build r ?r"
      "entries_rel same_id r ?r"
    by (rule entries_rel_mono [OF rel], simp add: keeps_leases_def)+
  have "unloads_ok ?r (\<lparr>id_version = v, id_gen = e_gen b, id_resource = res\<rparr> # ds)"
    unfolding unloads_ok_def
  proof (intro conjI allI impI ballI)
    show "distinct (map id_version (\<lparr>id_version = v, id_gen = e_gen b, id_resource = res\<rparr> # ds))"
      using U new by (auto simp: unloads_ok_def)
    fix d assume "d \<in> set (\<lparr>id_version = v, id_gen = e_gen b, id_resource = res\<rparr> # ds)"
    then show "\<exists>e. root_of ?r (id_version d) = Some e \<and> e_gen e = id_gen d \<and> e_unload e \<and> e_resource e = Some (id_resource d)"
      using U new b by (auto simp: root unloads_ok_def)
  next
    fix x e assume "root_of ?r x = Some e" "e_unload e"
    with U show "x \<in> id_version ` set (\<lparr>id_version = v, id_gen = e_gen b, id_resource = res\<rparr> # ds)"
      by (auto simp: root unloads_ok_def split: if_splits)
  qed
  moreover have "drained_ok r ((v, e_gen b) # hist)"
  proof -
    have v: "hm_get (entries r) v = Some b" "e_owner b = v" using b by (auto simp: root_of_Some)
    have "e_gen b < next_generation r" using reg_invD(2) [OF inv v(1)] by (simp add: entry_ok_def)
    moreover have "e_owner e = v" if "hm_get (entries r) x = Some e" "e_gen e = e_gen b" for x e
      using reg_invD(4) [OF inv that(1) v(1) that(2)] v by simp
    ultimately show ?thesis using ok by (simp add: handles_ok_def drained_ok_def)
  qed
  ultimately show ?thesis
    using ok leases_frame [OF rels(1)] waiters_frame [OF rels(2)] builds_frame [OF rels(3)] drained_frame [OF rels(4)]
    by (simp add: handles_ok_def)
qed

lemma handles_start_drains:
  "reg_inv limits r \<Longrightarrow> handles_ok r ls ts bs ds hist \<Longrightarrow> distinct vs \<Longrightarrow> \<forall>v\<in>set vs. may_unload v r \<Longrightarrow>
     start_drains vs r = Some (new, r') \<Longrightarrow>
     handles_ok r' ls ts bs (rev new @ ds) (rev (drain_tickets new) @ hist)"
proof (induction vs arbitrary: r ds hist new)
  case Nil
  then show ?case by (simp add: drain_tickets_def)
next
  case (Cons v vs)
  from Cons.prems have m: "may_unload v r" and vs: "v \<notin> set vs" "distinct vs" by simp_all
  from m obtain b res where b: "root_of r v = Some b" "e_resource b = Some res"
    by (auto simp: may_unload_def split: option.splits)
  have rest: "\<forall>u\<in>set vs. may_unload u (adjust_group v start_unload r)"
  proof
    fix u assume "u \<in> set vs"
    moreover from this vs have "v \<noteq> u" by blast
    ultimately show "may_unload u (adjust_group v start_unload r)"
      using Cons.prems(4) by (simp add: may_unload_other)
  qed
  from Cons.prems(5) b obtain new' where s: "start_drains vs (adjust_group v start_unload r) = Some (new', r')"
    and new: "new = \<lparr>id_version = v, id_gen = e_gen b, id_resource = res\<rparr> # new'"
    by (auto simp: root_of_Some split: option.splits)
  from Cons.IH [OF reg_inv_start_unload [OF Cons.prems(1) m]
      handles_start_unload [OF Cons.prems(1,2) m b] vs(2) rest s]
  show ?case by (simp add: new drain_tickets_def)
qed

lemma handles_fold_quarantine:
  "reg_inv limits r \<Longrightarrow> handles_ok r ls ts bs ds hist \<Longrightarrow>
     \<forall>w\<in>set ws. \<exists>b. root_of r w = Some b \<and> e_state b \<in> {Ready, Quarantined} \<Longrightarrow>
     handles_ok (fold quarantine ws r) ls ts bs ds hist"
proof (induction ws arbitrary: r)
  case (Cons w ws)
  then obtain b where b: "root_of r w = Some b" "e_state b \<in> {Ready, Quarantined}" by auto
  have "reg_inv limits (quarantine w r)" by (rule reg_inv_quarantine [OF Cons.prems(1) b(1)]) (use b in auto)
  moreover have "handles_ok (quarantine w r) ls ts bs ds hist"
    by (rule handles_frame [OF quarantine_keeps_all [OF Cons.prems(1) b(1)] Cons.prems(2)]) (use b in auto)
  moreover have "\<forall>u\<in>set ws. \<exists>b. root_of (quarantine w r) u = Some b \<and> e_state b \<in> {Ready, Quarantined}"
    using Cons.prems(3) by (auto simp: quarantine_def root_of_adjust_group)
  ultimately show ?case using Cons.IH by simp
qed simp

lemma handles_begin_drains:
  assumes inv: "reg_inv limits r" and ok: "handles_ok r ls ts bs ds hist"
    and d: "begin_drains stopping flags expired n now ttl r = Some (new, r')"
  shows "reg_inv limits r' \<and> handles_ok r' ls ts bs (rev new @ ds) (rev (drain_tickets new) @ hist)"
proof (rule begin_drains_inv [OF inv, of stopping flags expired n now ttl])
  fix ds' r1 r2
  assume "begin_drains stopping flags expired n now ttl r = Some (ds', r2)"
    and r1: "r1 = fold quarantine (unhealthy_owners flags r) r" and inv1: "reg_inv limits r1"
    and inv2: "reg_inv limits r2" and s: "start_drains (map id_version ds') r1 = Some (ds', r2)"
    and "distinct (map id_version ds')" and "\<forall>v\<in>set (map id_version ds'). may_unload v r1"
  moreover have "handles_ok r1 ls ts bs ds hist"
    unfolding r1 by (rule handles_fold_quarantine [OF inv ok]) (use unhealthy_owners_roots [OF inv] in blast)
  ultimately show ?thesis using handles_start_drains [OF inv1] d by auto
qed

lemma handles_finish_drain:
  assumes inv: "reg_inv limits r" and ok: "handles_ok r ls ts bs ds hist" and d: "d \<in> set ds"
  shows "reg_inv limits (snd (finish_drain limits now (id_version d) (id_gen d) ack r)) \<and>
    handles_ok (snd (finish_drain limits now (id_version d) (id_gen d) ack r)) ls ts bs (remove1 d ds) hist"
proof -
  let ?v = "id_version d" let ?r = "snd (finish_drain limits now ?v (id_gen d) ack r)"
  obtain b where b: "root_of r ?v = Some b" "e_gen b = id_gen d" "e_unload b" "e_state b \<in> {Draining, Quarantined}"
    by (rule unload_root [OF inv ok d])
  have v: "hm_get (entries r) ?v = Some b" "e_owner b = ?v" using b by (auto simp: root_of_Some)
  have U: "unloads_ok r ds" using ok by (simp add: handles_ok_def)
  have dist: "distinct ds" "inj_on id_version (set ds)" using U by (auto simp: unloads_ok_def distinct_map)
  have rem: "set (remove1 d ds) = set ds - {d}" using dist by (simp add: set_remove1_eq)
  have dist': "distinct (map id_version (remove1 d ds))"
    using dist rem by (auto simp: distinct_map intro: inj_on_subset)
  have others: "c \<in> set (remove1 d ds) \<longleftrightarrow> c \<in> set ds \<and> id_version c \<noteq> ?v" for c
    using dist d rem by (auto dest: inj_onD)
  have grp: "synced e b" if "hm_get (entries r) x = Some e" "e_owner e = ?v" for x e
    by (rule group_synced [OF inv b(1) _ that]) (use b in auto)
  have "handles_ok ?r ls ts bs (remove1 d ds) hist"
  proof (cases ack)
    case True
    have r': "entries ?r = hm_retain (\<lambda>_ e. e_owner e \<noteq> ?v) (entries r)" "next_generation ?r = next_generation r"
      using True v b by (auto simp: finish_drain_def push_evicted_def Let_def)
    show ?thesis
    proof (rule handles_retain [OF inv ok r'])
      fix x e assume e: "hm_get (entries r) x = Some e" "\<not> e_owner e \<noteq> ?v"
      have "e_leases e = 0"
        using unloading_entry [OF reg_invD(2) [OF inv e(1)]] grp [OF e(1)] e b by (simp add: synced_def)
      moreover have "e_owner c = ?v" if "root_of r y = Some c" "e_gen c = e_gen e" for y c
        using reg_invD(4) [OF inv e(1), of y c] that e by (simp add: root_of_Some)
      ultimately show "e_leases e = 0 \<and> (e_waiters e = 0 \<or>
          (\<forall>x b. root_of r x = Some b \<longrightarrow> e_gen b = e_gen e \<longrightarrow> \<not> e_owner b \<noteq> ?v))" by blast
    next
      fix x e assume "root_of r x = Some e" "\<not> e_owner e \<noteq> ?v"
      with b show "\<not> building e" by (auto simp: root_of_Some building_def)
    next
      fix c
      have "\<exists>e. root_of r (id_version c) = Some e" if "c \<in> set ds" using U that by (auto simp: unloads_ok_def)
      then show "c \<in> set (remove1 d ds) \<longleftrightarrow>
          c \<in> set ds \<and> (\<forall>e. root_of r (id_version c) = Some e \<longrightarrow> e_owner e \<noteq> ?v)"
        by (auto simp: others root_of_Some)
    qed (rule dist')
  next
    case False
    let ?f = "\<lambda>e. (set_state Quarantined (e\<lparr>e_unload := False, e_idle := now\<rparr>))\<lparr>e_error := Some QuarantinedError\<rparr>"
    have r': "?r = adjust_group ?v ?f r"
      using False v b by (simp add: finish_drain_def quarantine_def adjust_group_twice)
    have rel: "entries_rel (\<lambda>e e'. keeps_leases e e' \<and> keeps_waiters e e' \<and> keeps_build e e') r (adjust_group ?v ?f r)"
    proof (rule entries_rel_group)
      fix x e assume e: "hm_get (entries r) x = Some e" "e_owner e = ?v"
      with grp [OF e] b show "keeps_leases e (?f e) \<and> keeps_waiters e (?f e) \<and> keeps_build e (?f e)"
        by (auto simp: keeps_defs synced_def)
    qed simp
    have root: "root_of (adjust_group ?v ?f r) x = (if x = ?v then map_option ?f (root_of r x) else root_of r x)" for x
      by (rule root_of_adjust_group) simp
    have "unloads_ok (adjust_group ?v ?f r) (remove1 d ds)"
      unfolding unloads_ok_def
    proof (intro conjI allI impI ballI)
      show "distinct (map id_version (remove1 d ds))" by (rule dist')
      fix c assume "c \<in> set (remove1 d ds)"
      with U show "\<exists>e. root_of (adjust_group ?v ?f r) (id_version c) = Some e \<and> e_gen e = id_gen c \<and> e_unload e \<and>
          e_resource e = Some (id_resource c)" by (simp add: others root unloads_ok_def)
    next
      fix x e assume x: "root_of (adjust_group ?v ?f r) x = Some e" "e_unload e"
      then have "x \<noteq> ?v" by (auto simp: root)
      with x U have "x \<in> id_version ` set ds" by (simp add: root unloads_ok_def)
      then obtain c where "c \<in> set ds" "x = id_version c" by blast
      with \<open>x \<noteq> ?v\<close> others [of c] show "x \<in> id_version ` set (remove1 d ds)" by blast
    qed
    moreover have "entries_rel keeps_leases r (adjust_group ?v ?f r)" "entries_rel keeps_waiters r (adjust_group ?v ?f r)"
        "entries_rel keeps_build r (adjust_group ?v ?f r)" "entries_rel same_id r (adjust_group ?v ?f r)"
      by (rule entries_rel_mono [OF rel], simp add: keeps_leases_def)+
    ultimately show ?thesis
      using ok leases_frame waiters_frame builds_frame drained_frame unfolding r' handles_ok_def by blast
  qed
  with reg_inv_finish_drain [OF inv b(1,3,2)] show ?thesis by blast
qed

end
