(* ===== verification/Provider_Runtime.thy ===== *)
theory Provider_Runtime
  imports Provider_Steps
begin

text \<open>
  The provider runtime as a system: the manager together with everything alive outside its lock
  (callers between their checks and the registry, waiters, leases, build attempts, unloads, the
  pilot permits of other work). Each step is one locked section or one semaphore operation of
  the code, so every interleaving of tasks and native threads is a run of the system.
\<close>

section \<open>The system\<close>

record caller =
  c_version :: provider_version
  c_preclaimed :: bool

record 'c sys =
  s_mgr :: "'c manager"
  s_speculative :: nat
  s_callers :: "caller list"
  s_waiting :: "ticket list"
  s_leaving :: "ticket list"
  s_leases :: "lease list"
  s_builds :: "build list"
  s_unloads :: "idle_drain list"
  s_drained :: "ticket list"
  s_pilot_env :: "pilot_work list"

definition sys_init :: "'c sys \<Rightarrow> bool" where
  "sys_init s = (\<exists>limits is_open store flags.
     manager_new limits is_open store flags = Inr (s_mgr s) \<and>
     s_speculative s = 0 \<and> s_callers s = [] \<and> s_waiting s = [] \<and> s_leaving s = [] \<and> s_leases s = [] \<and>
     s_builds s = [] \<and> s_unloads s = [] \<and> s_drained s = [] \<and> s_pilot_env s = [])"

text \<open>
  \<open>complete\<close> drops the cold permit before it takes the registry lock: \<open>step_cold\<close> is that drop on its
  own, so that other work may run between the two, and \<open>step_complete\<close> finds nothing left to drop. A waiter that
  leaves gives up its place under the lock and then its semaphore permit; that is one step, since no
  operation reads both counters.
\<close>

text \<open>A caller that gives up returns its waiter permit and its loader permit.\<close>

definition drop_caller :: "caller \<Rightarrow> 'c manager \<Rightarrow> 'c manager" where
  "drop_caller c m = drop_load (c_preclaimed c) (m\<lparr>m_waiters := sem_release (m_waiters m)\<rparr>)"

definition new_lease :: "ticket \<Rightarrow> wait_outcome \<Rightarrow> lease list" where
  "new_lease t out = (case out of
     GotLease res \<Rightarrow> [\<lparr>l_version = fst t, l_gen = snd t, l_resource = res\<rparr>] | _ \<Rightarrow> [])"

definition new_build :: "caller \<Rightarrow> admitted \<Rightarrow> build list" where
  "new_build c ad =
     (if ad_start ad
      then [\<lparr>b_version = c_version c, b_gen = ad_gen ad, b_native = False,
             b_load = c_preclaimed c, b_cold = ad_cold ad\<rparr>]
      else [])"

inductive sys_step :: "'c sys \<Rightarrow> 'c sys \<Rightarrow> bool" where
  step_claim: "sem_try_acquire (m_loads (s_mgr s)) = Some loads \<Longrightarrow>
     sys_step s (s\<lparr>s_mgr := (s_mgr s)\<lparr>m_loads := loads\<rparr>, s_speculative := s_speculative s + 1\<rparr>)"
| step_unclaim: "0 < s_speculative s \<Longrightarrow>
     sys_step s (s\<lparr>s_mgr := drop_load True (s_mgr s), s_speculative := s_speculative s - 1\<rparr>)"
| step_enter: "acquire_enter now deadline (s_mgr s) = Inr m \<Longrightarrow> \<not> c_preclaimed c \<Longrightarrow>
     sys_step s (s\<lparr>s_mgr := m, s_callers := c # s_callers s\<rparr>)"
| step_enter_preclaimed: "acquire_enter now deadline (s_mgr s) = Inr m \<Longrightarrow> c_preclaimed c \<Longrightarrow>
     0 < s_speculative s \<Longrightarrow>
     sys_step s (s\<lparr>s_mgr := m, s_callers := c # s_callers s, s_speculative := s_speculative s - 1\<rparr>)"
| step_plan_error: "c \<in> set (s_callers s) \<Longrightarrow> plan_acquire mz snap = Inl err \<Longrightarrow>
     sys_step s (s\<lparr>s_mgr := drop_caller c (s_mgr s), s_callers := remove1 c (s_callers s)\<rparr>)"
| step_refused: "c \<in> set (s_callers s) \<Longrightarrow> plan_acquire mz snap = Inr plan \<Longrightarrow>
     admit now (c_version c) (dp_kind snap) plan (s_mgr s) = Some (Inl err, m) \<Longrightarrow>
     sys_step s (s\<lparr>s_mgr := drop_caller c m, s_callers := remove1 c (s_callers s)\<rparr>)"
| step_admitted: "c \<in> set (s_callers s) \<Longrightarrow> plan_acquire mz snap = Inr plan \<Longrightarrow>
     admit now (c_version c) (dp_kind snap) plan (s_mgr s) = Some (Inr ad, m) \<Longrightarrow>
     sys_step s (s\<lparr>s_mgr := drop_load (c_preclaimed c \<and> \<not> ad_start ad) m,
       s_callers := remove1 c (s_callers s),
       s_waiting := (c_version c, ad_gen ad) # s_waiting s,
       s_builds := new_build c ad @ s_builds s\<rparr>)"
| step_wait: "t \<in> set (s_waiting s) \<Longrightarrow> manager_wait (fst t) (snd t) (s_mgr s) = (out, m) \<Longrightarrow>
     sys_step s (s\<lparr>s_mgr := m, s_leases := new_lease t out @ s_leases s,
       s_waiting := (if out = Pending then s_waiting s else remove1 t (s_waiting s)),
       s_leaving := (if out = Pending then s_leaving s else t # s_leaving s)\<rparr>)"
| step_cancel: "t \<in> set (s_waiting s) \<Longrightarrow>
     sys_step s (s\<lparr>s_waiting := remove1 t (s_waiting s), s_leaving := t # s_leaving s\<rparr>)"
| step_leave: "t \<in> set (s_leaving s) \<Longrightarrow>
     sys_step s (s\<lparr>s_mgr := manager_leave (fst t) (snd t) (s_mgr s), s_leaving := remove1 t (s_leaving s)\<rparr>)"
| step_release: "l \<in> set (s_leases s) \<Longrightarrow>
     sys_step s (s\<lparr>s_mgr := manager_release now (l_version l) (l_gen l) (s_mgr s),
       s_leases := remove1 l (s_leases s)\<rparr>)"
| step_retain: "manager_retain v (s_mgr s) = (out, m) \<Longrightarrow> sys_step s (s\<lparr>s_mgr := m\<rparr>)"
| step_load: "b \<in> set (s_builds s) \<Longrightarrow> \<not> b_load b \<Longrightarrow>
     sem_try_acquire (m_loads (s_mgr s)) = Some loads \<Longrightarrow>
     sys_step s (s\<lparr>s_mgr := (s_mgr s)\<lparr>m_loads := loads\<rparr>,
       s_builds := replace_build b (b\<lparr>b_load := True\<rparr>) (s_builds s)\<rparr>)"
| step_build: "b \<in> set (s_builds s) \<Longrightarrow> \<not> b_native b \<Longrightarrow> b_load b \<or> m_stopping (s_mgr s) \<Longrightarrow>
     manager_build now (b_version b) (b_gen b) (b_load b) (b_cold b) (s_mgr s) = (started, m) \<Longrightarrow>
     sys_step s (s\<lparr>s_mgr := m, s_builds := (if started then replace_build b (b\<lparr>b_native := True\<rparr>) (s_builds s)
       else remove1 b (s_builds s))\<rparr>)"
| step_cold: "b \<in> set (s_builds s) \<Longrightarrow> b_native b \<Longrightarrow>
     sys_step s (s\<lparr>s_mgr := drop_cold (b_cold b) (s_mgr s),
       s_builds := replace_build b (b\<lparr>b_cold := False\<rparr>) (s_builds s)\<rparr>)"
| step_complete: "b \<in> set (s_builds s) \<Longrightarrow> b_native b \<Longrightarrow>
     sys_step s (s\<lparr>s_mgr := manager_complete now (b_version b) (b_gen b)
         (native_outcome was_open prepared built) (b_load b) (b_cold b) (s_mgr s),
       s_builds := remove1 b (s_builds s)\<rparr>)"
| step_drains: "manager_begin_drains expired_only n now (s_mgr s) = Some (new, m) \<Longrightarrow>
     sys_step s (s\<lparr>s_mgr := m, s_unloads := rev new @ s_unloads s,
       s_drained := rev (drain_tickets new) @ s_drained s\<rparr>)"
| step_finish: "d \<in> set (s_unloads s) \<Longrightarrow>
     sys_step s (s\<lparr>s_mgr := manager_finish_drain now (id_version d) (id_gen d) ack (s_mgr s),
       s_unloads := remove1 d (s_unloads s)\<rparr>)"
| step_drain_timeout: "t \<in> set (s_drained s) \<Longrightarrow>
     sys_step s (s\<lparr>s_mgr := manager_drain_timeout (fst t) (snd t) (s_mgr s)\<rparr>)"
| step_close: "sys_step s (s\<lparr>s_mgr := manager_close (s_mgr s)\<rparr>)"
| step_health: "sys_step s (s\<lparr>s_mgr := (s_mgr s)\<lparr>m_flags := flags\<rparr>\<rparr>)"
| step_usage: "length store = length (m_store (s_mgr s)) \<Longrightarrow>
     sys_step s (s\<lparr>s_mgr := (s_mgr s)\<lparr>m_store := store\<rparr>\<rparr>)"
| step_set_pilot: "m_pilot (s_mgr s) = None \<Longrightarrow> pilot_inv \<lparr>ps_pilot = p, ps_live = env\<rparr> \<Longrightarrow>
     sys_step s (s\<lparr>s_mgr := set_pilot_admission p (s_mgr s), s_pilot_env := env\<rparr>)"
| step_pilot_take: "m_pilot (s_mgr s) = Some p \<Longrightarrow> pilot_try_admit w p = Some p' \<Longrightarrow>
     sys_step s (s\<lparr>s_mgr := (s_mgr s)\<lparr>m_pilot := Some p'\<rparr>, s_pilot_env := w # s_pilot_env s\<rparr>)"
| step_pilot_give: "m_pilot (s_mgr s) = Some p \<Longrightarrow> w \<in> set (s_pilot_env s) \<Longrightarrow>
     sys_step s (s\<lparr>s_mgr := (s_mgr s)\<lparr>m_pilot := Some (pilot_drop w p)\<rparr>,
       s_pilot_env := remove1 w (s_pilot_env s)\<rparr>)"

text \<open>The iteration order of the entries is free: a permutation of the map is a step of its own.\<close>

definition rehash :: "'c sys \<Rightarrow> (provider_version \<times> 'c entry) list \<Rightarrow> 'c sys" where
  "rehash s es = s\<lparr>s_mgr := (s_mgr s)\<lparr>m_registry := (m_registry (s_mgr s))\<lparr>entries := es\<rparr>\<rparr>\<rparr>"

inductive runtime_step :: "'c sys \<Rightarrow> 'c sys \<Rightarrow> bool" where
  run_step: "sys_step s t \<Longrightarrow> runtime_step s t"
| run_rehash: "mset es = mset (entries (m_registry (s_mgr s))) \<Longrightarrow> runtime_step s (rehash s es)"

section \<open>The invariant\<close>

definition sys_registry :: "'c sys \<Rightarrow> 'c registry" where
  "sys_registry s = m_registry (s_mgr s)"

definition pilot_live :: "pilot_work list \<Rightarrow> build list \<Rightarrow> pilot_work list" where
  "pilot_live env bs = env @ map (\<lambda>_. PilotCold) (filter b_cold bs)"

definition pilot_ok :: "pilot option \<Rightarrow> pilot_work list \<Rightarrow> build list \<Rightarrow> bool" where
  "pilot_ok p env bs = (case p of
     None \<Rightarrow> \<not> list_ex b_cold bs
   | Some q \<Rightarrow> pilot_inv \<lparr>ps_pilot = q, ps_live = pilot_live env bs\<rparr>)"

definition loads_out :: "nat \<Rightarrow> caller list \<Rightarrow> build list \<Rightarrow> nat" where
  "loads_out spec cs bs = spec + length (filter c_preclaimed cs) + length (filter b_load bs)"

definition sems_ok :: "'c sys \<Rightarrow> bool" where
  "sems_ok s =
     (sem_ok (m_waiters (s_mgr s)) (length (s_callers s) + length (s_waiting s) + length (s_leaving s)) \<and>
      sem_ok (m_attempts (s_mgr s)) (length (s_builds s)) \<and>
      sem_ok (m_loads (s_mgr s)) (loads_out (s_speculative s) (s_callers s) (s_builds s)) \<and>
      sem_total (m_waiters (s_mgr s)) = max_waiters (m_limits (s_mgr s)) \<and>
      sem_total (m_attempts (s_mgr s)) =
        max_parallel_loads (m_limits (s_mgr s)) + max_pending_loads (m_limits (s_mgr s)) \<and>
      sem_total (m_loads (s_mgr s)) = max_parallel_loads (m_limits (s_mgr s)))"

definition sys_handles :: "'c sys \<Rightarrow> bool" where
  "sys_handles s =
     (reg_inv (m_limits (s_mgr s)) (m_registry (s_mgr s)) \<and>
      handles_ok (m_registry (s_mgr s)) (s_leases s) (s_waiting s @ s_leaving s) (s_builds s)
        (s_unloads s) (s_drained s))"

definition sys_inv :: "'c sys \<Rightarrow> bool" where
  "sys_inv s = (sys_handles s \<and> sems_ok s \<and> pilot_ok (m_pilot (s_mgr s)) (s_pilot_env s) (s_builds s))"

section \<open>Handles up to their order\<close>

lemma handles_cong_tickets:
  assumes "mset ts' = mset ts" and "handles_ok r ls ts bs ds hist"
  shows "handles_ok r ls ts' bs ds hist"
proof -
  have "ticket_count v g ts' = ticket_count v g ts" for v g
    unfolding ticket_count_def using assms(1) by (metis mset_filter size_mset)
  moreover have "set ts' = set ts" using assms(1) by (rule mset_eq_setD)
  ultimately show ?thesis using assms(2) by (simp add: handles_ok_def waiters_ok_def)
qed

lemma handles_cong_registry:
  "entries r' = entries r \<Longrightarrow> next_generation r' = next_generation r \<Longrightarrow>
     handles_ok r' ls ts bs ds hist = handles_ok r ls ts bs ds hist"
  by (simp add: handles_ok_def leases_ok_def waiters_ok_def builds_ok_def unloads_ok_def drained_ok_def
      ticket_ok_def root_of_def)

lemma sys_handles_cong:
  assumes "sys_handles s" and "m_limits (s_mgr s') = m_limits (s_mgr s)"
    and "entries (m_registry (s_mgr s')) = entries (m_registry (s_mgr s))"
    and "next_generation (m_registry (s_mgr s')) = next_generation (m_registry (s_mgr s))"
    and "reserved_bytes (m_registry (s_mgr s')) = reserved_bytes (m_registry (s_mgr s))"
    and "s_leases s' = s_leases s"
    and t: "mset (s_waiting s' @ s_leaving s') = mset (s_waiting s @ s_leaving s)"
    and "s_builds s' = s_builds s" and "s_unloads s' = s_unloads s" and "s_drained s' = s_drained s"
  shows "sys_handles s'"
proof -
  from assms(1) have inv: "reg_inv (m_limits (s_mgr s)) (m_registry (s_mgr s))"
    and ok: "handles_ok (m_registry (s_mgr s)) (s_leases s) (s_waiting s @ s_leaving s) (s_builds s)
        (s_unloads s) (s_drained s)" by (simp_all add: sys_handles_def)
  have "reg_inv (m_limits (s_mgr s)) (m_registry (s_mgr s'))"
    using inv reg_inv_cong [OF assms(3-5)] by blast
  moreover have "handles_ok (m_registry (s_mgr s')) (s_leases s) (s_waiting s' @ s_leaving s') (s_builds s)
        (s_unloads s) (s_drained s)"
    using handles_cong_registry [OF assms(3,4)] handles_cong_tickets [OF t ok] by blast
  ultimately show ?thesis using assms by (simp add: sys_handles_def)
qed

section \<open>Admission\<close>

lemma join_quota_registry:
  assumes "join_quota v kind plan m = Some (q, m')"
  shows "entries (m_registry m') = entries (m_registry m) \<and>
    next_generation (m_registry m') = next_generation (m_registry m) \<and>
    reserved_bytes (m_registry m') = reserved_bytes (m_registry m) \<and> m_limits m' = m_limits m \<and>
    m_loads m' = m_loads m \<and> m_attempts m' = m_attempts m \<and> m_waiters m' = m_waiters m \<and> m_pilot m' = m_pilot m"
  using assms by (auto simp: join_quota_def Let_def split: option.splits prod.splits)

text \<open>What an admission leaves untouched, and what its answer says about the registry.\<close>

definition same_rest :: "'c manager \<Rightarrow> 'c manager \<Rightarrow> bool" where
  "same_rest m m' = (m_limits m' = m_limits m \<and> m_loads m' = m_loads m \<and> m_waiters m' = m_waiters m)"

lemma join_entry_ok:
  assumes j: "join_entry v kind plan start cold m = Some (ad, m')"
    and inv: "reg_inv (m_limits m) (m_registry m)"
    and ok: "handles_ok (m_registry m) ls ts bs ds hist"
  shows "reg_inv (m_limits m) (m_registry m') \<and>
    handles_ok (m_registry m') ls ((v, ad_gen ad) # ts) bs ds hist \<and> same_rest m m' \<and>
    m_attempts m' = m_attempts m \<and> m_pilot m' = m_pilot m \<and> ad_start ad = start \<and> ad_cold ad = cold \<and>
    (\<exists>e. hm_get (entries (m_registry m)) v = Some e \<and> ad_gen ad = e_gen e)"
proof -
  from j obtain q m1 e where q: "join_quota v kind plan m = Some (q, m1)"
    and e: "hm_get (entries (m_registry m1)) v = Some e"
    and ad: "ad = \<lparr>ad_gen = e_gen e, ad_start = start, ad_cold = cold, ad_quota = q\<rparr>"
    and m': "m_registry m' = join_waiter v (m_registry m1)" "m_limits m' = m_limits m1" "m_loads m' = m_loads m1"
      "m_waiters m' = m_waiters m1" "m_attempts m' = m_attempts m1" "m_pilot m' = m_pilot m1"
    by (auto simp: join_entry_def Let_def increment_def split: option.splits prod.splits)
  note k = join_quota_registry [OF q]
  have inv1: "reg_inv (m_limits m) (m_registry m1)" using inv k reg_inv_cong by blast
  have "handles_ok (m_registry m1) ls ts bs ds hist" using ok k handles_cong_registry by blast
  from handles_join [OF this e inv1] reg_inv_join [OF inv1] k e m' ad show ?thesis
    by (auto simp: same_rest_def)
qed

lemma plan_bytes: "plan_acquire mz snap = Inr plan \<Longrightarrow> 0 < pl_bytes plan"
  by (auto simp: plan_acquire_def split: sum.splits if_splits)

definition started_build :: "provider_version \<Rightarrow> admitted \<Rightarrow> bool \<Rightarrow> build list" where
  "started_build v ad load =
     (if ad_start ad
      then [\<lparr>b_version = v, b_gen = ad_gen ad, b_native = False, b_load = load, b_cold = ad_cold ad\<rparr>] else [])"

text \<open>The contract of an admission: refused without a trace, joined, or joined with a new attempt.\<close>

definition admit_contract ::
    "provider_version \<Rightarrow> 'c manager \<Rightarrow> runtime_error + admitted \<Rightarrow> 'c manager \<Rightarrow>
     lease list \<Rightarrow> ticket list \<Rightarrow> build list \<Rightarrow> idle_drain list \<Rightarrow> ticket list \<Rightarrow> bool \<Rightarrow> bool" where
  "admit_contract v m out m' ls ts bs ds hist load =
     (reg_inv (m_limits m) (m_registry m') \<and> same_rest m m' \<and>
      (case out of
         Inl _ \<Rightarrow> handles_ok (m_registry m') ls ts bs ds hist \<and> m_attempts m' = m_attempts m \<and> m_pilot m' = m_pilot m
       | Inr ad \<Rightarrow>
           handles_ok (m_registry m') ls ((v, ad_gen ad) # ts) (started_build v ad load @ bs) ds hist \<and>
           (if ad_start ad
            then sem_try_acquire (m_attempts m) = Some (m_attempts m') \<and>
                 claim_cold (m_pilot m) = Some (ad_cold ad, m_pilot m')
            else m_attempts m' = m_attempts m \<and> m_pilot m' = m_pilot m)))"

lemma join_contract:
  assumes j: "map_option (\<lambda>(ad, m'). (Inr ad, m')) (join_entry v kind plan False cold m1) = Some (out, m')"
    and inv: "reg_inv (m_limits m) (m_registry m1)" and ok: "handles_ok (m_registry m1) ls ts bs ds hist"
    and m1: "same_rest m m1" "m_attempts m1 = m_attempts m" "m_pilot m1 = m_pilot m"
  shows "admit_contract v m out m' ls ts bs ds hist load"
proof -
  from j obtain ad where j': "join_entry v kind plan False cold m1 = Some (ad, m')" and out: "out = Inr ad"
    by auto
  have "m_limits m1 = m_limits m" using m1 by (simp add: same_rest_def)
  with join_entry_ok [OF j', of ls ts bs ds hist] inv ok m1 show ?thesis
    by (auto simp: admit_contract_def out started_build_def same_rest_def)
qed

lemma fresh_contract:
  assumes f: "admit_fresh now v kind plan m1 = Some (out, m')" and pos: "0 < pl_bytes plan"
    and inv: "reg_inv (m_limits m) (m_registry m1)" and ok: "handles_ok (m_registry m1) ls ts bs ds hist"
    and new: "hm_get (entries (m_registry m1)) v = None"
    and len: "length (entries (m_registry m1)) < max_version_entries (m_limits m)"
    and m1: "same_rest m m1" "m_attempts m1 = m_attempts m" "m_pilot m1 = m_pilot m"
  shows "admit_contract v m out m' ls ts bs ds hist load"
proof (cases "memory_pressure (m_limits m1) (pl_bytes plan) (m_registry m1) \<or>
    sem_try_acquire (m_attempts m1) = None \<or> claim_cold (m_pilot m1) = None")
  case True
  with f have "(\<exists>e. out = Inl e) \<and> m' = m1"
    by (auto simp: admit_fresh_def split: if_splits option.splits)
  with inv ok m1 show ?thesis by (auto simp: admit_contract_def)
next
  case False
  then obtain attempts cold pilot where a: "sem_try_acquire (m_attempts m1) = Some attempts"
    and c: "claim_cold (m_pilot m1) = Some (cold, pilot)" by auto
  define m3 where "m3 = (let m1 = m1\<lparr>m_attempts := attempts, m_pilot := pilot\<rparr>;
      m2 = (if is_reload (pl_key plan) v (m_registry m1) then increment Reload m1 else m1)
    in m2\<lparr>m_registry := insert_fresh now v (pl_key plan) (pl_bytes plan) (m_registry m2)\<rparr>)"
  have m3: "m_registry m3 = insert_fresh now v (pl_key plan) (pl_bytes plan) (m_registry m1)"
      "same_rest m1 m3" "m_attempts m3 = attempts" "m_pilot m3 = pilot"
    by (simp_all add: m3_def Let_def increment_def same_rest_def)
  from f False a c obtain ad where j: "join_entry v kind plan True cold m3 = Some (ad, m')" and out: "out = Inr ad"
    by (auto simp: admit_fresh_def m3_def Let_def)
  have lim: "m_limits m1 = m_limits m" "m_limits m3 = m_limits m" using m1 m3 by (simp_all add: same_rest_def)
  let ?b = "\<lparr>b_version = v, b_gen = next_generation (m_registry m1), b_native = False, b_load = load, b_cold = cold\<rparr>"
  have inv3: "reg_inv (m_limits m3) (m_registry m3)"
    using reg_inv_insert_fresh [OF inv new len _ pos] False by (simp add: lim m3(1))
  have ok3: "handles_ok (m_registry m3) ls ts (?b # bs) ds hist"
    unfolding m3(1) by (rule handles_insert_fresh [OF ok new])
  have gen: "hm_get (entries (m_registry m3)) v = Some e \<Longrightarrow> e_gen e = next_generation (m_registry m1)" for e
    by (auto simp: m3(1) insert_fresh_def keyed_simps entry_fresh_def)
  from join_entry_ok [OF j inv3 ok3]
  have res: "reg_inv (m_limits m3) (m_registry m')" "handles_ok (m_registry m') ls ((v, ad_gen ad) # ts) (?b # bs) ds hist"
      "same_rest m3 m'" "m_attempts m' = attempts" "m_pilot m' = pilot" "ad_start ad" "ad_cold ad = cold"
      "ad_gen ad = next_generation (m_registry m1)"
    using gen m3(3,4) by auto
  then have "started_build v ad load = [?b]" by (simp add: started_build_def)
  with res a c m1 m3(2) lim show ?thesis
    by (simp add: admit_contract_def out same_rest_def)
qed

lemma admit_ok:
  assumes a: "admit now v kind plan m = Some (out, m')" and pos: "0 < pl_bytes plan"
    and inv: "reg_inv (m_limits m) (m_registry m)" and ok: "handles_ok (m_registry m) ls ts bs ds hist"
  shows "admit_contract v m out m' ls ts bs ds hist load"
proof -
  define r where "r = retain_quotas (purge_failed now (m_registry m))"
  define m0 where "m0 = m\<lparr>m_registry := r\<rparr>"
  have r: "entries r = entries (purge_failed now (m_registry m))"
      "next_generation r = next_generation (purge_failed now (m_registry m))"
      "reserved_bytes r = reserved_bytes (purge_failed now (m_registry m))"
    by (simp_all add: r_def retain_quotas_def)
  have inv0: "reg_inv (m_limits m) r" using reg_inv_purge [OF inv] reg_inv_cong [OF r] by blast
  have ok0: "handles_ok r ls ts bs ds hist"
    using handles_purge [OF inv ok] handles_cong_registry [OF r(1,2)] by blast
  have m0: "m_registry m0 = r" "same_rest m m0" "m_attempts m0 = m_attempts m" "m_pilot m0 = m_pilot m"
      "m_limits m0 = m_limits m" by (simp_all add: m0_def same_rest_def)
  define m1 where "m1 = m0\<lparr>m_registry := make_room (m_limits m0) r\<rparr>"
  have m1: "m_registry m1 = make_room (m_limits m) r" "same_rest m m1" "m_attempts m1 = m_attempts m"
      "m_pilot m1 = m_pilot m" "m_limits m1 = m_limits m" by (simp_all add: m1_def m0_def same_rest_def)
  have inv1: "reg_inv (m_limits m) (m_registry m1)" unfolding m1 by (rule reg_inv_make_room [OF inv0])
  have ok1: "handles_ok (m_registry m1) ls ts bs ds hist" unfolding m1 by (rule handles_make_room [OF inv0 ok0])
  have a0: "admit now v kind plan m =
     (if quota_conflict v kind (pl_logical plan) (pl_global plan) r then Some (Inl Configuration, m0)
      else if hm_contains (entries r) v
      then map_option (\<lambda>(ad, m'). (Inr ad, m')) (join_entry v kind plan False False m0)
      else if max_version_entries (m_limits m) \<le> length (entries (m_registry m1)) then Some (Inl Busy, m1)
      else (case find_shared (m_flags m1) (pl_key plan) (m_registry m1) of
              Some (_, e) \<Rightarrow> map_option (\<lambda>(ad, m'). (Inr ad, m')) (join_entry v kind plan False False
                    (m1\<lparr>m_registry := insert_alias now v e (m_registry m1)\<rparr>))
            | None \<Rightarrow> admit_fresh now v kind plan m1))"
    by (simp add: admit_def Let_def r_def [symmetric] m0_def m1_def split: option.split prod.split)
  show ?thesis
  proof (cases "quota_conflict v kind (pl_logical plan) (pl_global plan) r")
    case True
    with a a0 inv0 ok0 m0 show ?thesis by (auto simp: admit_contract_def)
  next
    case no_conflict: False
    show ?thesis
    proof (cases "hm_contains (entries r) v")
      case True
      with a a0 no_conflict have j: "map_option (\<lambda>(ad, m'). (Inr ad, m')) (join_entry v kind plan False False m0) = Some (out, m')"
        by simp
      show ?thesis by (rule join_contract [OF j]) (use inv0 ok0 m0 in auto)
    next
      case False
      then have new0: "hm_get (entries r) v = None" by (simp add: hm_contains_def)
      have new: "hm_get (entries (m_registry m1)) v = None"
        unfolding m1 using reg_invD(1) [OF inv0]
        by (cases rule: make_room_cases [where limits = "m_limits m"]) (simp_all add: new0 keyed_simps)
      show ?thesis
      proof (cases "max_version_entries (m_limits m) \<le> length (entries (m_registry m1))")
        case True
        with a a0 no_conflict False inv1 ok1 m1 show ?thesis by (auto simp: admit_contract_def)
      next
        case len: False
        show ?thesis
        proof (cases "find_shared (m_flags m1) (pl_key plan) (m_registry m1)")
          case None
          with a a0 no_conflict False len have "admit_fresh now v kind plan m1 = Some (out, m')" by simp
          then show ?thesis by (rule fresh_contract) (use pos inv1 ok1 new len m1 in auto)
        next
          case (Some ke)
          obtain k e where ke: "ke = (k, e)" by (cases ke)
          let ?m2 = "m1\<lparr>m_registry := insert_alias now v e (m_registry m1)\<rparr>"
          from a a0 no_conflict False len Some ke
          have j: "map_option (\<lambda>(ad, m'). (Inr ad, m')) (join_entry v kind plan False False ?m2) = Some (out, m')" by simp
          have "reg_inv (m_limits m) (m_registry ?m2)"
            using reg_inv_insert_alias [OF inv1 new Some [unfolded ke]] len by simp
          moreover have "handles_ok (m_registry ?m2) ls ts bs ds hist"
            using handles_insert_alias [OF inv1 ok1 new Some [unfolded ke]] by simp
          ultimately show ?thesis by (rule join_contract [OF j]) (use m1 in \<open>auto simp: same_rest_def\<close>)
        qed
      qed
    qed
  qed
qed

section \<open>The pilot permits\<close>

lemma pilot_inv_perm:
  assumes "mset l' = mset l" and "pilot_inv \<lparr>ps_pilot = p, ps_live = l\<rparr>"
  shows "pilot_inv \<lparr>ps_pilot = p, ps_live = l'\<rparr>"
proof -
  have "set l' = set l" using assms(1) by (rule mset_eq_setD)
  moreover have "distinct l' = distinct l" using assms(1) by (rule mset_eq_imp_distinct_iff)
  moreover have "l = [PilotCold] \<Longrightarrow> l' = [PilotCold]" using assms(1) by simp
  ultimately show ?thesis using assms(2) by (auto simp: pilot_inv_def)
qed

lemma pilot_inv_take:
  assumes "pilot_inv \<lparr>ps_pilot = p, ps_live = l\<rparr>" and "pilot_try_admit w p = Some p'"
  shows "pilot_inv \<lparr>ps_pilot = p', ps_live = w # l\<rparr>"
  using pilot_inv_step [OF assms(1) pilot_take [where s = "\<lparr>ps_pilot = p, ps_live = l\<rparr>"]] assms(2) by simp

lemma pilot_inv_give:
  assumes "pilot_inv \<lparr>ps_pilot = p, ps_live = l\<rparr>" and "w \<in> set l"
  shows "pilot_inv \<lparr>ps_pilot = pilot_drop w p, ps_live = remove1 w l\<rparr>"
  using pilot_inv_step [OF assms(1) pilot_give [where s = "\<lparr>ps_pilot = p, ps_live = l\<rparr>"]] assms(2) by simp

lemma pilot_ok_claim:
  assumes "pilot_ok p env bs" and "claim_cold p = Some (cold, p')"
  shows "pilot_ok p' env (\<lparr>b_version = v, b_gen = g, b_native = n, b_load = load, b_cold = cold\<rparr> # bs)"
proof (cases p)
  case None
  with assms show ?thesis by (auto simp: claim_cold_def pilot_ok_def)
next
  case (Some q)
  with assms(2) obtain q' where q': "pilot_try_admit PilotCold q = Some q'" "p' = Some q'" "cold"
    by (auto simp: claim_cold_def)
  have "pilot_inv \<lparr>ps_pilot = q', ps_live = PilotCold # pilot_live env bs\<rparr>"
    using assms(1) Some q'(1) by (intro pilot_inv_take) (auto simp: pilot_ok_def)
  then have "pilot_inv \<lparr>ps_pilot = q', ps_live =
      pilot_live env (\<lparr>b_version = v, b_gen = g, b_native = n, b_load = load, b_cold = cold\<rparr> # bs)\<rparr>"
    by (rule pilot_inv_perm [rotated]) (simp add: pilot_live_def q')
  with q' show ?thesis by (simp add: pilot_ok_def)
qed

lemma pilot_live_remove1:
  "b \<in> set bs \<Longrightarrow> mset (pilot_live env bs) =
     mset ((if b_cold b then [PilotCold] else []) @ pilot_live env (remove1 b bs))"
  by (induction bs) (auto simp: pilot_live_def)

lemma pilot_ok_drop:
  assumes "pilot_ok p env bs" and b: "b \<in> set bs"
  shows "pilot_ok (if b_cold b then map_option (pilot_drop PilotCold) p else p) env (remove1 b bs)"
proof (cases p)
  case None
  then show ?thesis using assms set_remove1_subset [of b bs] by (auto simp: pilot_ok_def list_ex_iff)
next
  case (Some q)
  then have inv: "pilot_inv \<lparr>ps_pilot = q, ps_live = pilot_live env bs\<rparr>" using assms by (simp add: pilot_ok_def)
  show ?thesis
  proof (cases "b_cold b")
    case True
    from inv have "pilot_inv \<lparr>ps_pilot = q, ps_live = PilotCold # pilot_live env (remove1 b bs)\<rparr>"
      by (rule pilot_inv_perm [rotated]) (use pilot_live_remove1 [OF b, of env] True in simp)
    from pilot_inv_give [OF this, of PilotCold] Some True show ?thesis by (simp add: pilot_ok_def)
  next
    case False
    from inv have "pilot_inv \<lparr>ps_pilot = q, ps_live = pilot_live env (remove1 b bs)\<rparr>"
      by (rule pilot_inv_perm [rotated]) (use pilot_live_remove1 [OF b, of env] False in simp)
    with Some False show ?thesis by (simp add: pilot_ok_def)
  qed
qed

lemma pilot_ok_replace:
  assumes "pilot_ok p env bs" and b: "b \<in> set bs" and "b_cold b' = b_cold b"
  shows "pilot_ok p env (replace_build b b' bs)"
proof -
  have "mset (pilot_live env (replace_build b b' bs)) = mset (pilot_live env bs)"
    unfolding pilot_live_remove1 [OF b, of env] using assms(3)
    by (cases "b_cold b") (simp_all add: pilot_live_def replace_build_def)
  moreover have "list_ex b_cold (replace_build b b' bs) = list_ex b_cold bs"
    using b assms(3) by (induction bs) (auto simp: replace_build_def)
  ultimately show ?thesis
    using assms(1) pilot_inv_perm by (cases p) (simp_all add: pilot_ok_def)
qed

section \<open>Every step keeps the invariant\<close>

lemma length_filter_remove1:
  "x \<in> set xs \<Longrightarrow> length (filter p xs) = (if p x then 1 else 0) + length (filter p (remove1 x xs))"
  by (induction xs) auto

lemma length_remove1_Suc: "x \<in> set xs \<Longrightarrow> length xs = Suc (length (remove1 x xs))"
  by (induction xs) auto

lemma sem_ok_acquire_total:
  "sem_ok s out \<Longrightarrow> sem_try_acquire s = Some t \<Longrightarrow> sem_ok t (Suc out) \<and> sem_total t = sem_total s"
  by (auto simp: sem_ok_def sem_try_acquire_def split: if_splits)

lemma sem_release_total [simp]: "sem_total (sem_release s) = sem_total s"
  by (simp add: sem_release_def)

lemma drop_load_fields [simp]:
  "m_registry (drop_load b m) = m_registry m" "m_limits (drop_load b m) = m_limits m"
  "m_waiters (drop_load b m) = m_waiters m" "m_attempts (drop_load b m) = m_attempts m"
  "m_pilot (drop_load b m) = m_pilot m"
  "m_loads (drop_load b m) = (if b then sem_release (m_loads m) else m_loads m)"
  by (simp_all add: drop_load_def)

lemma drop_caller_fields [simp]:
  "m_registry (drop_caller c m) = m_registry m" "m_limits (drop_caller c m) = m_limits m"
  "m_waiters (drop_caller c m) = sem_release (m_waiters m)" "m_attempts (drop_caller c m) = m_attempts m"
  "m_pilot (drop_caller c m) = m_pilot m"
  "m_loads (drop_caller c m) = (if c_preclaimed c then sem_release (m_loads m) else m_loads m)"
  by (simp_all add: drop_caller_def)

lemma manager_complete_fields [simp]:
  "m_registry (manager_complete now v g out load cold m) =
     complete now (failure_cooldown_ms (m_limits m)) v g out (m_registry m)"
  "m_limits (manager_complete now v g out load cold m) = m_limits m"
  "m_waiters (manager_complete now v g out load cold m) = m_waiters m"
  "m_attempts (manager_complete now v g out load cold m) = sem_release (m_attempts m)"
  "m_loads (manager_complete now v g out load cold m) = (if load then sem_release (m_loads m) else m_loads m)"
  "m_pilot (manager_complete now v g out load cold m) =
     (if cold then map_option (pilot_drop PilotCold) (m_pilot m) else m_pilot m)"
  by (simp_all add: manager_complete_def Let_def drop_cold_def increment_def split: option.splits)

lemma manager_new_fields:
  "manager_new limits is_open store flags = Inr m \<Longrightarrow>
     m_registry m = registry_new \<and> m_limits m = limits \<and> m_pilot m = None \<and>
     m_loads m = sem_new (max_parallel_loads limits) \<and>
     m_attempts m = sem_new (max_parallel_loads limits + max_pending_loads limits) \<and>
     m_waiters m = sem_new (max_waiters limits)"
  by (auto simp: manager_new_def split: sum.splits)

lemma handles_new: "handles_ok registry_new [] [] [] [] []"
  by (simp add: handles_ok_def leases_ok_def waiters_ok_def builds_ok_def unloads_ok_def drained_ok_def
      registry_new_def root_of_def)

lemma sys_init_inv:
  assumes "sys_init s"
  shows "sys_inv s"
proof -
  obtain limits is_open store flags where new: "manager_new limits is_open store flags = Inr (s_mgr s)"
    and e: "s_speculative s = 0" "s_callers s = []" "s_waiting s = []" "s_leaving s = []" "s_leases s = []"
      "s_builds s = []" "s_unloads s = []" "s_drained s = []"
    using assms by (auto simp: sys_init_def)
  from manager_new_fields [OF new] e show ?thesis
    by (simp add: sys_inv_def sys_handles_def sems_ok_def pilot_ok_def loads_out_def handles_new reg_inv_new)
      (simp add: sem_new_def)
qed

lemma sys_inv_complete:
  assumes inv: "sys_inv s" and b: "b \<in> set (s_builds s)"
  shows "sys_inv (s\<lparr>s_mgr := manager_complete now (b_version b) (b_gen b) out (b_load b) (b_cold b) (s_mgr s),
    s_builds := remove1 b (s_builds s)\<rparr>)"
proof -
  have h: "sys_handles s" and sm: "sems_ok s" and p: "pilot_ok (m_pilot (s_mgr s)) (s_pilot_env s) (s_builds s)"
    using inv by (simp_all add: sys_inv_def)
  have len: "length (s_builds s) = Suc (length (remove1 b (s_builds s)))" by (rule length_remove1_Suc [OF b])
  have lo: "length (filter b_load (s_builds s)) =
      (if b_load b then 1 else 0) + length (filter b_load (remove1 b (s_builds s)))"
    by (rule length_filter_remove1 [OF b])
  have "sys_handles (s\<lparr>s_mgr := manager_complete now (b_version b) (b_gen b) out (b_load b) (b_cold b) (s_mgr s),
      s_builds := remove1 b (s_builds s)\<rparr>)"
    using handles_complete [OF conjunct1 [OF h [unfolded sys_handles_def]] conjunct2 [OF h [unfolded sys_handles_def]] b]
    by (simp add: sys_handles_def)
  with sm pilot_ok_drop [OF p b] len lo show ?thesis
    by (auto simp: sys_inv_def sems_ok_def loads_out_def sem_ok_def sem_release_def)
qed

lemma sys_inv_callers:
  assumes inv: "sys_inv s" and c: "c \<in> set (s_callers s)"
    and m: "same_rest (s_mgr s) m" "m_attempts m = m_attempts (s_mgr s)" "m_pilot m = m_pilot (s_mgr s)"
    and h: "sys_handles (s\<lparr>s_mgr := m\<rparr>)"
  shows "sys_inv (s\<lparr>s_mgr := drop_caller c m, s_callers := remove1 c (s_callers s)\<rparr>)"
proof -
  have sm: "sems_ok s" and p: "pilot_ok (m_pilot (s_mgr s)) (s_pilot_env s) (s_builds s)"
    using inv by (simp_all add: sys_inv_def)
  have len: "length (s_callers s) = Suc (length (remove1 c (s_callers s)))" by (rule length_remove1_Suc [OF c])
  have lo: "length (filter c_preclaimed (s_callers s)) =
      (if c_preclaimed c then 1 else 0) + length (filter c_preclaimed (remove1 c (s_callers s)))"
    by (rule length_filter_remove1 [OF c])
  show ?thesis
    using h sm p m len lo
    by (auto simp: sys_inv_def sys_handles_def sems_ok_def loads_out_def sem_ok_def sem_release_def same_rest_def)
qed

lemma acquire_enter_fields:
  "acquire_enter now deadline m = Inr m' \<Longrightarrow>
     sem_try_acquire (m_waiters m) = Some (m_waiters m') \<and> m_registry m' = m_registry m \<and>
     m_limits m' = m_limits m \<and> m_loads m' = m_loads m \<and> m_attempts m' = m_attempts m \<and> m_pilot m' = m_pilot m"
  by (auto simp: acquire_enter_def split: if_splits option.splits)

lemma sys_inv_refused:
  assumes inv: "sys_inv s" and c: "c \<in> set (s_callers s)" and plan: "plan_acquire mz snap = Inr plan"
    and a: "admit now (c_version c) (dp_kind snap) plan (s_mgr s) = Some (Inl err, m)"
  shows "sys_inv (s\<lparr>s_mgr := drop_caller c m, s_callers := remove1 c (s_callers s)\<rparr>)"
proof -
  have h: "reg_inv (m_limits (s_mgr s)) (m_registry (s_mgr s))"
    "handles_ok (m_registry (s_mgr s)) (s_leases s) (s_waiting s @ s_leaving s) (s_builds s) (s_unloads s) (s_drained s)"
    using inv by (simp_all add: sys_inv_def sys_handles_def)
  from admit_ok [OF a plan_bytes [OF plan] h] have k: "reg_inv (m_limits (s_mgr s)) (m_registry m)"
      "same_rest (s_mgr s) m" "m_attempts m = m_attempts (s_mgr s)" "m_pilot m = m_pilot (s_mgr s)"
      "handles_ok (m_registry m) (s_leases s) (s_waiting s @ s_leaving s) (s_builds s) (s_unloads s) (s_drained s)"
    by (auto simp: admit_contract_def)
  show ?thesis
    by (rule sys_inv_callers [OF inv c k(2-4)]) (use k in \<open>simp add: sys_handles_def same_rest_def\<close>)
qed

lemma sys_inv_admitted:
  assumes inv: "sys_inv s" and c: "c \<in> set (s_callers s)" and plan: "plan_acquire mz snap = Inr plan"
    and a: "admit now (c_version c) (dp_kind snap) plan (s_mgr s) = Some (Inr ad, m)"
  shows "sys_inv (s\<lparr>s_mgr := drop_load (c_preclaimed c \<and> \<not> ad_start ad) m,
       s_callers := remove1 c (s_callers s), s_waiting := (c_version c, ad_gen ad) # s_waiting s,
       s_builds := new_build c ad @ s_builds s\<rparr>)"
proof -
  have h: "reg_inv (m_limits (s_mgr s)) (m_registry (s_mgr s))"
    "handles_ok (m_registry (s_mgr s)) (s_leases s) (s_waiting s @ s_leaving s) (s_builds s) (s_unloads s) (s_drained s)"
    and sm: "sems_ok s" and p: "pilot_ok (m_pilot (s_mgr s)) (s_pilot_env s) (s_builds s)"
    using inv by (simp_all add: sys_inv_def sys_handles_def)
  have nb: "new_build c ad = started_build (c_version c) ad (c_preclaimed c)"
    by (simp add: new_build_def started_build_def)
  from admit_ok [OF a plan_bytes [OF plan] h, of "c_preclaimed c"]
  have k: "reg_inv (m_limits (s_mgr s)) (m_registry m)" "same_rest (s_mgr s) m"
      "handles_ok (m_registry m) (s_leases s) ((c_version c, ad_gen ad) # s_waiting s @ s_leaving s)
         (new_build c ad @ s_builds s) (s_unloads s) (s_drained s)"
    and st: "if ad_start ad then sem_try_acquire (m_attempts (s_mgr s)) = Some (m_attempts m) \<and>
         claim_cold (m_pilot (s_mgr s)) = Some (ad_cold ad, m_pilot m)
       else m_attempts m = m_attempts (s_mgr s) \<and> m_pilot m = m_pilot (s_mgr s)"
    by (simp_all add: admit_contract_def nb)
  have len: "length (s_callers s) = Suc (length (remove1 c (s_callers s)))" by (rule length_remove1_Suc [OF c])
  have lo: "length (filter c_preclaimed (s_callers s)) =
      (if c_preclaimed c then 1 else 0) + length (filter c_preclaimed (remove1 c (s_callers s)))"
    by (rule length_filter_remove1 [OF c])
  have pil: "pilot_ok (m_pilot m) (s_pilot_env s) (new_build c ad @ s_builds s)"
    using st p pilot_ok_claim [OF p] by (auto simp: new_build_def split: if_splits)
  have att: "sem_ok (m_attempts m) (length (new_build c ad @ s_builds s)) \<and>
      sem_total (m_attempts m) = sem_total (m_attempts (s_mgr s))"
    using st sm sem_ok_acquire_total [of "m_attempts (s_mgr s)" "length (s_builds s)" "m_attempts m"]
    by (auto simp: new_build_def sems_ok_def split: if_splits)
  show ?thesis
    using k sm pil att len lo
    by (auto simp: sys_inv_def sys_handles_def sems_ok_def loads_out_def same_rest_def sem_ok_def sem_release_def
        new_build_def)
qed

lemma sys_inv_wait:
  assumes inv: "sys_inv s" and t: "t \<in> set (s_waiting s)"
    and w: "manager_wait (fst t) (snd t) (s_mgr s) = (out, m)"
  shows "sys_inv (s\<lparr>s_mgr := m, s_leases := new_lease t out @ s_leases s,
       s_waiting := (if out = Pending then s_waiting s else remove1 t (s_waiting s)),
       s_leaving := (if out = Pending then s_leaving s else t # s_leaving s)\<rparr>)"
proof -
  have h: "reg_inv (m_limits (s_mgr s)) (m_registry (s_mgr s))"
    "handles_ok (m_registry (s_mgr s)) (s_leases s) (s_waiting s @ s_leaving s) (s_builds s) (s_unloads s) (s_drained s)"
    and sm: "sems_ok s" and p: "pilot_ok (m_pilot (s_mgr s)) (s_pilot_env s) (s_builds s)"
    using inv by (simp_all add: sys_inv_def sys_handles_def)
  from w obtain r where r: "wait_pass (m_gate_open (s_mgr s)) (m_flags (s_mgr s)) (fst t) (snd t) (m_registry (s_mgr s)) = (out, r)"
    and m: "m = (s_mgr s)\<lparr>m_registry := r\<rparr>"
    by (auto simp: manager_wait_def Let_def split: prod.splits)
  have ri: "reg_inv (m_limits (s_mgr s)) r"
    using reg_inv_wait [OF h(1), of "m_gate_open (s_mgr s)" "m_flags (s_mgr s)" "fst t" "snd t"] r by simp
  have "handles_ok r (new_lease t out @ s_leases s) (s_waiting s @ s_leaving s) (s_builds s) (s_unloads s) (s_drained s)"
    using handles_wait [OF h(2,1) r] by (simp add: new_lease_def)
  moreover have "mset ((if out = Pending then s_waiting s else remove1 t (s_waiting s)) @
      (if out = Pending then s_leaving s else t # s_leaving s)) = mset (s_waiting s @ s_leaving s)"
    using t by simp
  ultimately have "handles_ok r (new_lease t out @ s_leases s)
      ((if out = Pending then s_waiting s else remove1 t (s_waiting s)) @
       (if out = Pending then s_leaving s else t # s_leaving s)) (s_builds s) (s_unloads s) (s_drained s)"
    using handles_cong_tickets by blast
  with ri sm p length_remove1_Suc [OF t] show ?thesis
    by (simp add: sys_inv_def sys_handles_def sems_ok_def m)
qed

lemma sys_inv_leave:
  assumes inv: "sys_inv s" and t: "t \<in> set (s_leaving s)"
  shows "sys_inv (s\<lparr>s_mgr := manager_leave (fst t) (snd t) (s_mgr s), s_leaving := remove1 t (s_leaving s)\<rparr>)"
proof -
  have h: "reg_inv (m_limits (s_mgr s)) (m_registry (s_mgr s))"
    "handles_ok (m_registry (s_mgr s)) (s_leases s) (s_waiting s @ s_leaving s) (s_builds s) (s_unloads s) (s_drained s)"
    and sm: "sems_ok s" and p: "pilot_ok (m_pilot (s_mgr s)) (s_pilot_env s) (s_builds s)"
    using inv by (simp_all add: sys_inv_def sys_handles_def)
  have "(fst t, snd t) \<in> set (s_waiting s @ s_leaving s)" using t by simp
  from handles_waiter_drop [OF h(2) this]
  have "handles_ok (waiter_drop (fst t) (snd t) (m_registry (s_mgr s))) (s_leases s)
      (s_waiting s @ remove1 t (s_leaving s)) (s_builds s) (s_unloads s) (s_drained s)"
    by (rule handles_cong_tickets [rotated]) (use t in simp)
  with reg_inv_waiter_drop [OF h(1)] sm p length_remove1_Suc [OF t] show ?thesis
    by (simp add: sys_inv_def sys_handles_def sems_ok_def manager_leave_def sem_ok_def sem_release_def)
qed

lemma sys_inv_build:
  assumes inv: "sys_inv s" and b: "b \<in> set (s_builds s)" "\<not> b_native b"
    and mb: "manager_build now (b_version b) (b_gen b) (b_load b) (b_cold b) (s_mgr s) = (started, m)"
  shows "sys_inv (s\<lparr>s_mgr := m, s_builds := (if started then replace_build b (b\<lparr>b_native := True\<rparr>) (s_builds s)
       else remove1 b (s_builds s))\<rparr>)"
proof (cases started)
  case False
  with mb have "m = manager_complete now (b_version b) (b_gen b) (Inl ShuttingDown) (b_load b) (b_cold b) (s_mgr s)"
    by (auto simp: manager_build_def split: if_splits)
  with sys_inv_complete [OF inv b(1)] False show ?thesis by simp
next
  case True
  with mb have m: "m = (s_mgr s)\<lparr>m_registry := build_start (b_version b) (m_registry (s_mgr s))\<rparr>" and l: "b_load b"
    by (auto simp: manager_build_def split: if_splits)
  have h: "reg_inv (m_limits (s_mgr s)) (m_registry (s_mgr s))"
    "handles_ok (m_registry (s_mgr s)) (s_leases s) (s_waiting s @ s_leaving s) (s_builds s) (s_unloads s) (s_drained s)"
    and sm: "sems_ok s" and p: "pilot_ok (m_pilot (s_mgr s)) (s_pilot_env s) (s_builds s)"
    using inv by (simp_all add: sys_inv_def sys_handles_def)
  have "pilot_ok (m_pilot (s_mgr s)) (s_pilot_env s) (replace_build b (b\<lparr>b_native := True\<rparr>) (s_builds s))"
    by (rule pilot_ok_replace [OF p b(1)]) simp
  with True handles_build_start [OF h b l] sm length_remove1_Suc [OF b(1)] length_filter_remove1 [OF b(1), of b_load] l
  show ?thesis
    by (simp add: sys_inv_def sys_handles_def sems_ok_def loads_out_def m replace_build_def)
qed

text \<open>A build whose permits change is the same build to the registry.\<close>

lemma handles_same_build:
  assumes ok: "handles_ok r ls ts bs ds hist" and b: "b \<in> set bs"
    and same: "b_version b' = b_version b" "b_gen b' = b_gen b" "b_native b' = b_native b" "b_native b' \<Longrightarrow> b_load b'"
  shows "handles_ok r ls ts (replace_build b b' bs) ds hist"
proof -
  have B: "builds_ok r bs" using ok by (simp add: handles_ok_def)
  note rem = remove_build [OF B b]
  have nv: "b_version ` set (replace_build b b' bs) = b_version ` set bs"
    using rem(2) b same(1) by (auto simp: replace_build_def)
  have "builds_ok r (replace_build b b' bs)"
    unfolding builds_ok_def nv
  proof (intro conjI ballI)
    show "distinct (map b_version (replace_build b b' bs))"
      using rem(1) rem(3) same(1) by (simp add: replace_build_def image_iff) metis
    show "\<forall>v e. root_of r v = Some e \<longrightarrow> building e \<longrightarrow> v \<in> b_version ` set bs"
      using B by (simp add: builds_ok_def)
    fix c assume c: "c \<in> set (replace_build b b' bs)"
    then show "b_native c \<longrightarrow> b_load c" using B rem(2) same(4) by (auto simp: replace_build_def builds_ok_def)
    have "\<exists>d\<in>set bs. b_version d = b_version c \<and> b_gen d = b_gen c \<and> b_native d = b_native c"
      using c rem(2) b same by (auto simp: replace_build_def)
    with B show "\<exists>e. root_of r (b_version c) = Some e \<and> e_gen e = b_gen c \<and> e_state e = (if b_native c then Loading else Queued)"
      unfolding builds_ok_def by metis
  qed
  with ok show ?thesis by (simp add: handles_ok_def)
qed

lemma sys_inv_load:
  assumes inv: "sys_inv s" and b: "b \<in> set (s_builds s)" "\<not> b_load b"
    and l: "sem_try_acquire (m_loads (s_mgr s)) = Some loads"
  shows "sys_inv (s\<lparr>s_mgr := (s_mgr s)\<lparr>m_loads := loads\<rparr>,
       s_builds := replace_build b (b\<lparr>b_load := True\<rparr>) (s_builds s)\<rparr>)"
proof -
  have h: "reg_inv (m_limits (s_mgr s)) (m_registry (s_mgr s))"
    "handles_ok (m_registry (s_mgr s)) (s_leases s) (s_waiting s @ s_leaving s) (s_builds s) (s_unloads s) (s_drained s)"
    and sm: "sems_ok s" and p: "pilot_ok (m_pilot (s_mgr s)) (s_pilot_env s) (s_builds s)"
    using inv by (simp_all add: sys_inv_def sys_handles_def)
  have "handles_ok (m_registry (s_mgr s)) (s_leases s) (s_waiting s @ s_leaving s)
      (replace_build b (b\<lparr>b_load := True\<rparr>) (s_builds s)) (s_unloads s) (s_drained s)"
    by (rule handles_same_build [OF h(2) b(1)]) simp_all
  moreover have "pilot_ok (m_pilot (s_mgr s)) (s_pilot_env s) (replace_build b (b\<lparr>b_load := True\<rparr>) (s_builds s))"
    by (rule pilot_ok_replace [OF p b(1)]) simp
  ultimately show ?thesis
    using h sm length_remove1_Suc [OF b(1)] length_filter_remove1 [OF b(1), of b_load] b(2)
      sem_ok_acquire_total [OF _ l]
    by (auto simp: sys_inv_def sys_handles_def sems_ok_def loads_out_def replace_build_def)
qed

lemma sys_inv_cold:
  assumes inv: "sys_inv s" and b: "b \<in> set (s_builds s)" "b_native b"
  shows "sys_inv (s\<lparr>s_mgr := drop_cold (b_cold b) (s_mgr s),
       s_builds := replace_build b (b\<lparr>b_cold := False\<rparr>) (s_builds s)\<rparr>)"
proof -
  have h: "reg_inv (m_limits (s_mgr s)) (m_registry (s_mgr s))"
    "handles_ok (m_registry (s_mgr s)) (s_leases s) (s_waiting s @ s_leaving s) (s_builds s) (s_unloads s) (s_drained s)"
    and sm: "sems_ok s" and p: "pilot_ok (m_pilot (s_mgr s)) (s_pilot_env s) (s_builds s)"
    using inv by (simp_all add: sys_inv_def sys_handles_def)
  have "b_load b" using h(2) b by (simp add: handles_ok_def builds_ok_def)
  then have "handles_ok (m_registry (s_mgr s)) (s_leases s) (s_waiting s @ s_leaving s)
      (replace_build b (b\<lparr>b_cold := False\<rparr>) (s_builds s)) (s_unloads s) (s_drained s)"
    by (intro handles_same_build [OF h(2) b(1)]) simp_all
  moreover have "pilot_ok (m_pilot (drop_cold (b_cold b) (s_mgr s))) (s_pilot_env s)
      (replace_build b (b\<lparr>b_cold := False\<rparr>) (s_builds s))"
    using pilot_ok_drop [OF p b(1)]
    by (cases "m_pilot (s_mgr s)")
      (auto simp: drop_cold_def replace_build_def pilot_ok_def pilot_live_def split: if_splits)
  ultimately show ?thesis
    using h sm length_remove1_Suc [OF b(1)] length_filter_remove1 [OF b(1), of b_load] \<open>b_load b\<close>
    by (auto simp: sys_inv_def sys_handles_def sems_ok_def loads_out_def replace_build_def drop_cold_def)
qed

lemma sys_inv_drains:
  assumes inv: "sys_inv s" and d: "manager_begin_drains expired_only n now (s_mgr s) = Some (new, m)"
  shows "sys_inv (s\<lparr>s_mgr := m, s_unloads := rev new @ s_unloads s,
       s_drained := rev (drain_tickets new) @ s_drained s\<rparr>)"
proof -
  have h: "reg_inv (m_limits (s_mgr s)) (m_registry (s_mgr s))"
    "handles_ok (m_registry (s_mgr s)) (s_leases s) (s_waiting s @ s_leaving s) (s_builds s) (s_unloads s) (s_drained s)"
    using inv by (simp_all add: sys_inv_def sys_handles_def)
  from d obtain r where r: "begin_drains (m_stopping (s_mgr s)) (m_flags (s_mgr s)) expired_only n now
      (idle_ttl_ms (m_limits (s_mgr s))) (m_registry (s_mgr s)) = Some (new, r)" and m: "m = (s_mgr s)\<lparr>m_registry := r\<rparr>"
    by (auto simp: manager_begin_drains_def)
  from handles_begin_drains [OF h r] inv show ?thesis
    by (simp add: sys_inv_def sys_handles_def sems_ok_def m)
qed

lemma sys_inv_finish:
  assumes inv: "sys_inv s" and d: "d \<in> set (s_unloads s)"
  shows "sys_inv (s\<lparr>s_mgr := manager_finish_drain now (id_version d) (id_gen d) ack (s_mgr s),
       s_unloads := remove1 d (s_unloads s)\<rparr>)"
proof -
  have h: "reg_inv (m_limits (s_mgr s)) (m_registry (s_mgr s))"
    "handles_ok (m_registry (s_mgr s)) (s_leases s) (s_waiting s @ s_leaving s) (s_builds s) (s_unloads s) (s_drained s)"
    using inv by (simp_all add: sys_inv_def sys_handles_def)
  let ?m = "manager_finish_drain now (id_version d) (id_gen d) ack (s_mgr s)"
  have m: "m_registry ?m = snd (finish_drain (m_limits (s_mgr s)) now (id_version d) (id_gen d) ack (m_registry (s_mgr s)))"
      "m_limits ?m = m_limits (s_mgr s)" "m_loads ?m = m_loads (s_mgr s)" "m_attempts ?m = m_attempts (s_mgr s)"
      "m_waiters ?m = m_waiters (s_mgr s)" "m_pilot ?m = m_pilot (s_mgr s)"
    by (simp_all add: manager_finish_drain_def Let_def increment_def split: prod.splits)
  from handles_finish_drain [OF h d] inv show ?thesis
    by (simp add: sys_inv_def sys_handles_def sems_ok_def m)
qed

lemma hm_get_perm:
  assumes "mset es = mset m" and "hm_wf m"
  shows "hm_wf es" and "hm_get es v = hm_get m v"
proof -
  have "mset (map fst es) = mset (map fst m)" using assms(1) by simp
  then show wf: "hm_wf es" using assms(2) mset_eq_imp_distinct_iff unfolding hm_wf_def by blast
  have "hm_get es v = Some e \<longleftrightarrow> hm_get m v = Some e" for e
    using hm_get_iff_mem [OF wf] hm_get_iff_mem [OF assms(2)] mset_eq_setD [OF assms(1)] by simp
  then show "hm_get es v = hm_get m v" by (metis option.exhaust)
qed

lemma sys_inv_rehash:
  assumes inv: "sys_inv s" and es: "mset es = mset (entries (m_registry (s_mgr s)))"
  shows "sys_inv (rehash s es)"
proof -
  let ?r = "m_registry (s_mgr s)" let ?r' = "?r\<lparr>entries := es\<rparr>"
  have h: "reg_inv (m_limits (s_mgr s)) ?r"
    "handles_ok ?r (s_leases s) (s_waiting s @ s_leaving s) (s_builds s) (s_unloads s) (s_drained s)"
    using inv by (simp_all add: sys_inv_def sys_handles_def)
  note g = hm_get_perm [OF es reg_invD(1) [OF h(1)]]
  have root: "root_of ?r' = root_of ?r" by (rule ext) (simp add: root_of_def g)
  have bytes: "mset (bytes_list ?r') = mset (bytes_list ?r)" using es by (simp add: bytes_list_def)
  then have "sum_list (bytes_list ?r') = sum_list (bytes_list ?r)" by (metis sum_mset_sum_list)
  moreover have "resource_count ?r' = resource_count ?r"
    unfolding resource_count_list using bytes by (metis mset_filter size_mset)
  moreover have "length es = length (entries ?r)" using es by (rule mset_eq_length)
  ultimately have lim: "limits_ok (m_limits (s_mgr s)) ?r'"
    using reg_invD(5) [OF h(1)] by (simp add: limits_ok_def)
  have "alias_ok ?r' = alias_ok ?r" by (intro ext) (simp add: alias_ok_def root)
  moreover have e: "entries ?r' = es" by simp
  have "gens_ok ?r' = gens_ok ?r" unfolding gens_ok_def by (simp only: e g(2))
  ultimately have "reg_inv (m_limits (s_mgr s)) ?r'"
    using h(1) lim g unfolding reg_inv_def by simp
  moreover have "ticket_ok ?r' = ticket_ok ?r" by (rule ext) (simp add: ticket_ok_def root g)
  then have "handles_ok ?r' (s_leases s) (s_waiting s @ s_leaving s) (s_builds s) (s_unloads s) (s_drained s)"
    using h(2) by (simp add: handles_ok_def leases_ok_def waiters_ok_def builds_ok_def unloads_ok_def drained_ok_def root g)
  ultimately show ?thesis
    using inv by (simp add: sys_inv_def sys_handles_def sems_ok_def rehash_def)
qed

lemma sys_inv_registry:
  assumes inv: "sys_inv s" and r: "reg_inv (m_limits (s_mgr s)) r"
    and h: "handles_ok r (s_leases s) (s_waiting s @ s_leaving s) (s_builds s) (s_unloads s) (s_drained s)"
  shows "sys_inv (s\<lparr>s_mgr := (s_mgr s)\<lparr>m_registry := r\<rparr>\<rparr>)"
  using inv r h by (simp add: sys_inv_def sys_handles_def sems_ok_def)

lemma sys_inv_retain:
  assumes inv: "sys_inv s"
  shows "sys_inv (s\<lparr>s_mgr := snd (manager_retain v (s_mgr s))\<rparr>)"
proof -
  let ?r = "m_registry (s_mgr s)" let ?r' = "snd (retain_deployment (m_flags (s_mgr s)) v ?r)"
  have h: "reg_inv (m_limits (s_mgr s)) ?r"
    "handles_ok ?r (s_leases s) (s_waiting s @ s_leaving s) (s_builds s) (s_unloads s) (s_drained s)"
    using inv by (simp_all add: sys_inv_def sys_handles_def)
  have "entries_rel keeps_all ?r (adjust_entry v (\<lambda>e. e\<lparr>e_retained := True\<rparr>) ?r)"
    by (rule entries_rel_entry) (simp_all add: keeps_all_def keeps_defs)
  moreover have "entries_rel keeps_all ?r ?r" by (rule entries_relI) (simp_all add: keeps_all_def)
  ultimately have rel: "entries_rel keeps_all ?r ?r'"
    by (cases "pv_identity v") (simp_all add: retain_deployment_def entries_rel_def split: option.splits)
  have "sys_inv (s\<lparr>s_mgr := (s_mgr s)\<lparr>m_registry := ?r'\<rparr>\<rparr>)"
    by (rule sys_inv_registry [OF inv reg_inv_retain_deployment [OF h(1)] handles_frame [OF rel h(2)]])
  then show ?thesis by (simp add: manager_retain_def Let_def split_beta)
qed

lemma sys_inv_release:
  assumes inv: "sys_inv s" and l: "l \<in> set (s_leases s)"
  shows "sys_inv (s\<lparr>s_mgr := manager_release now (l_version l) (l_gen l) (s_mgr s),
       s_leases := remove1 l (s_leases s)\<rparr>)"
proof -
  have h: "reg_inv (m_limits (s_mgr s)) (m_registry (s_mgr s))"
    "handles_ok (m_registry (s_mgr s)) (s_leases s) (s_waiting s @ s_leaving s) (s_builds s) (s_unloads s) (s_drained s)"
    using inv by (simp_all add: sys_inv_def sys_handles_def)
  from handles_release [OF h(2,1) l] inv show ?thesis
    by (simp add: sys_inv_def sys_handles_def sems_ok_def manager_release_def)
qed

lemma sys_inv_drain_timeout:
  assumes inv: "sys_inv s" and t: "t \<in> set (s_drained s)"
  shows "sys_inv (s\<lparr>s_mgr := manager_drain_timeout (fst t) (snd t) (s_mgr s)\<rparr>)"
proof -
  have h: "reg_inv (m_limits (s_mgr s)) (m_registry (s_mgr s))"
    "handles_ok (m_registry (s_mgr s)) (s_leases s) (s_waiting s @ s_leaving s) (s_builds s) (s_unloads s) (s_drained s)"
    using inv by (simp_all add: sys_inv_def sys_handles_def)
  have "(fst t, snd t) \<in> set (s_drained s)" using t by simp
  from handles_drain_timeout [OF h this] inv show ?thesis
    by (simp add: sys_inv_def sys_handles_def sems_ok_def manager_drain_timeout_def)
qed

text \<open>Semaphore and envelope steps leave the registry alone.\<close>

lemma sys_inv_enter:
  assumes inv: "sys_inv s" and e: "acquire_enter now deadline (s_mgr s) = Inr m"
    and k: "s_speculative s = k + (if c_preclaimed c then 1 else 0)"
  shows "sys_inv (s\<lparr>s_mgr := m, s_callers := c # s_callers s, s_speculative := k\<rparr>)"
  using inv acquire_enter_fields [OF e] k
    sem_ok_acquire_total [of "m_waiters (s_mgr s)" "length (s_callers s) + length (s_waiting s) + length (s_leaving s)" "m_waiters m"]
  by (cases "c_preclaimed c") (simp_all add: sys_inv_def sys_handles_def sems_ok_def loads_out_def)

lemma sys_inv_claim:
  assumes inv: "sys_inv s" and l: "sem_try_acquire (m_loads (s_mgr s)) = Some loads"
  shows "sys_inv (s\<lparr>s_mgr := (s_mgr s)\<lparr>m_loads := loads\<rparr>, s_speculative := s_speculative s + 1\<rparr>)"
  using inv sem_ok_acquire_total [OF _ l] by (auto simp: sys_inv_def sys_handles_def sems_ok_def loads_out_def)

lemma sys_inv_unclaim:
  assumes inv: "sys_inv s" and k: "0 < s_speculative s"
  shows "sys_inv (s\<lparr>s_mgr := drop_load True (s_mgr s), s_speculative := s_speculative s - 1\<rparr>)"
  using inv k by (simp add: sys_inv_def sys_handles_def sems_ok_def loads_out_def sem_ok_def sem_release_def)

lemma pilot_live_env: "mset (pilot_live (w # env) bs) = mset (w # pilot_live env bs)"
  by (simp add: pilot_live_def)

lemma sys_inv_pilot:
  assumes inv: "sys_inv s" and m: "m = (s_mgr s)\<lparr>m_pilot := p\<rparr>" and p: "pilot_ok p env (s_builds s)"
  shows "sys_inv (s\<lparr>s_mgr := m, s_pilot_env := env\<rparr>)"
  using inv p by (simp add: sys_inv_def sys_handles_def sems_ok_def m)

lemma sys_inv_set_pilot:
  assumes inv: "sys_inv s" and n: "m_pilot (s_mgr s) = None" and p: "pilot_inv \<lparr>ps_pilot = p, ps_live = env\<rparr>"
  shows "sys_inv (s\<lparr>s_mgr := set_pilot_admission p (s_mgr s), s_pilot_env := env\<rparr>)"
proof (rule sys_inv_pilot [OF inv, of _ "Some p"])
  show "set_pilot_admission p (s_mgr s) = (s_mgr s)\<lparr>m_pilot := Some p\<rparr>" using n by (simp add: set_pilot_admission_def)
  have "\<not> list_ex b_cold (s_builds s)" using inv n by (simp add: sys_inv_def pilot_ok_def)
  then have "filter b_cold (s_builds s) = []" by (simp add: list_ex_iff filter_empty_conv)
  with p show "pilot_ok (Some p) env (s_builds s)" by (simp add: pilot_ok_def pilot_live_def)
qed

lemma sys_inv_pilot_take:
  assumes inv: "sys_inv s" and q: "m_pilot (s_mgr s) = Some p" and t: "pilot_try_admit w p = Some p'"
  shows "sys_inv (s\<lparr>s_mgr := (s_mgr s)\<lparr>m_pilot := Some p'\<rparr>, s_pilot_env := w # s_pilot_env s\<rparr>)"
proof (rule sys_inv_pilot [OF inv refl])
  have "pilot_inv \<lparr>ps_pilot = p, ps_live = pilot_live (s_pilot_env s) (s_builds s)\<rparr>"
    using inv q by (simp add: sys_inv_def pilot_ok_def)
  from pilot_inv_perm [OF pilot_live_env pilot_inv_take [OF this t]]
  show "pilot_ok (Some p') (w # s_pilot_env s) (s_builds s)" by (simp add: pilot_ok_def)
qed

lemma sys_inv_pilot_give:
  assumes inv: "sys_inv s" and q: "m_pilot (s_mgr s) = Some p" and w: "w \<in> set (s_pilot_env s)"
  shows "sys_inv (s\<lparr>s_mgr := (s_mgr s)\<lparr>m_pilot := Some (pilot_drop w p)\<rparr>,
       s_pilot_env := remove1 w (s_pilot_env s)\<rparr>)"
proof (rule sys_inv_pilot [OF inv refl])
  have "pilot_inv \<lparr>ps_pilot = p, ps_live = pilot_live (s_pilot_env s) (s_builds s)\<rparr>"
    using inv q by (simp add: sys_inv_def pilot_ok_def)
  from pilot_inv_give [OF this, of w] w
  show "pilot_ok (Some (pilot_drop w p)) (remove1 w (s_pilot_env s)) (s_builds s)"
    by (simp add: pilot_ok_def pilot_live_def remove1_append)
qed

lemma sys_inv_step: "sys_step s t \<Longrightarrow> sys_inv s \<Longrightarrow> sys_inv t"
proof (induction rule: sys_step.induct)
  case (step_claim s loads) then show ?case by (intro sys_inv_claim)
next
  case (step_unclaim s) then show ?case by (intro sys_inv_unclaim)
next
  case (step_enter now deadline s m c)
  from sys_inv_enter [OF step_enter(3) step_enter(1), of "s_speculative s" c] step_enter(2) show ?case by simp
next
  case (step_enter_preclaimed now deadline s m c)
  from sys_inv_enter [OF step_enter_preclaimed(4) step_enter_preclaimed(1), of "s_speculative s - 1" c]
    step_enter_preclaimed(2,3) show ?case by simp
next
  case (step_plan_error c s mz snap err)
  show ?case
    by (rule sys_inv_callers [OF step_plan_error(3,1)])
      (use step_plan_error(3) in \<open>simp_all add: same_rest_def sys_inv_def\<close>)
next
  case (step_refused c s mz snap plan now err m)
  then show ?case by (intro sys_inv_refused)
next
  case (step_admitted c s mz snap plan now ad m)
  then show ?case by (intro sys_inv_admitted)
next
  case (step_wait t s out m)
  then show ?case by (intro sys_inv_wait)
next
  case (step_cancel t s)
  have "mset (remove1 t (s_waiting s) @ t # s_leaving s) = mset (s_waiting s @ s_leaving s)"
    using step_cancel(1) by simp
  with step_cancel(2) length_remove1_Suc [OF step_cancel(1)] show ?case
    by (auto simp: sys_inv_def sems_ok_def intro: sys_handles_cong [of s])
next
  case (step_leave t s) then show ?case by (intro sys_inv_leave)
next
  case (step_release l s now) then show ?case by (intro sys_inv_release)
next
  case (step_retain v s out m)
  from sys_inv_retain [OF step_retain(2), of v] step_retain(1) show ?case by simp
next
  case (step_load b s loads) then show ?case by (intro sys_inv_load)
next
  case (step_build b s now started m) then show ?case by (intro sys_inv_build)
next
  case (step_cold b s) then show ?case by (intro sys_inv_cold)
next
  case (step_complete b s now was_open prepared built) then show ?case by (intro sys_inv_complete)
next
  case (step_drains expired_only n now s new m) then show ?case by (intro sys_inv_drains)
next
  case (step_finish d s now ack) then show ?case by (intro sys_inv_finish)
next
  case (step_drain_timeout t s) then show ?case by (intro sys_inv_drain_timeout)
next
  case (step_close s)
  then show ?case by (simp add: sys_inv_def sys_handles_def sems_ok_def manager_close_def)
next
  case (step_health s flags)
  then show ?case by (simp add: sys_inv_def sys_handles_def sems_ok_def)
next
  case (step_usage store s)
  then show ?case by (simp add: sys_inv_def sys_handles_def sems_ok_def)
next
  case (step_set_pilot s p env) then show ?case by (intro sys_inv_set_pilot)
next
  case (step_pilot_take s p w p') then show ?case by (intro sys_inv_pilot_take)
next
  case (step_pilot_give s p w) then show ?case by (intro sys_inv_pilot_give)
qed

lemma runtime_inv_step: "sys_inv s \<Longrightarrow> runtime_step s t \<Longrightarrow> sys_inv t"
  by (auto elim!: runtime_step.cases intro: sys_inv_step sys_inv_rehash)

interpretation runtime: step_system sys_init runtime_step sys_inv
  by unfold_locales (auto intro: sys_init_inv runtime_inv_step)

end
