(* ===== verification/Provider_Theorems.thy ===== *)
theory Provider_Theorems
  imports Provider_Runtime
begin

text \<open>
  What the provider runtime guarantees in every reachable state, whatever the interleaving of
  admissions, waits, builds, health changes, drains and shutdown. The sample run at the start
  takes one provider from its first acquisition to a lease; the witnesses use it.
\<close>

section \<open>A sample run\<close>

definition sample_limits :: runtime_limits where
  "sample_limits = \<lparr>max_parallel_loads = 1, max_pending_loads = 1, max_waiters = 2,
     max_resident_bytes = 10, max_resources = 1, max_version_entries = 2,
     admission_timeout_ms = 1000, failure_cooldown_ms = 100, idle_ttl_ms = 1000\<rparr>"

definition sample_mz :: materializer where
  "sample_mz = \<lparr>mz_resource_key = (\<lambda>_. Inr None), mz_bytes = (\<lambda>_. Inr 5), mz_logical = (\<lambda>_. Inr 2),
     mz_physical = (\<lambda>_. Inr 2), mz_global = (\<lambda>_. Inr None)\<rparr>"

definition sample_snap :: desired_provider where
  "sample_snap = \<lparr>dp_id = 1, dp_key = [97], dp_kind = [98], dp_adapter = [99], dp_config = [],
     dp_secret = None, dp_revision = 1\<rparr>"

definition sample_caller :: caller where
  "sample_caller = \<lparr>c_version = version_database 1 1, c_preclaimed = False\<rparr>"

abbreviation sample_version :: provider_version where
  "sample_version \<equiv> \<lparr>pv_identity = Database 1, pv_revision = 1\<rparr>"

definition sample_plan :: acquire_plan where
  "sample_plan = \<lparr>pl_key = None, pl_bytes = 5, pl_logical = 2, pl_physical = 2, pl_global = None\<rparr>"

definition sample_mgr :: "nat \<Rightarrow> nat \<Rightarrow> nat \<Rightarrow> unit registry \<Rightarrow> (runtime_counter \<Rightarrow> nat) \<Rightarrow> adm_store \<Rightarrow> unit manager" where
  "sample_mgr loads attempts waiters r counters store =
     \<lparr>m_limits = sample_limits, m_gate_open = True, m_stopping = False,
      m_loads = \<lparr>sem_total = 1, sem_available = loads\<rparr>, m_attempts = \<lparr>sem_total = 2, sem_available = attempts\<rparr>,
      m_waiters = \<lparr>sem_total = 2, sem_available = waiters\<rparr>, m_registry = r, m_pilot = None,
      m_counters = counters, m_store = store, m_flags = (\<lambda>_. True)\<rparr>"

definition sample_sys :: "unit manager \<Rightarrow> caller list \<Rightarrow> ticket list \<Rightarrow> ticket list \<Rightarrow> lease list \<Rightarrow> build list \<Rightarrow> unit sys" where
  "sample_sys m cs ws lv ls bs = \<lparr>s_mgr = m, s_speculative = 0, s_callers = cs, s_waiting = ws,
     s_leaving = lv, s_leases = ls, s_builds = bs, s_unloads = [], s_drained = [], s_pilot_env = []\<rparr>"

definition sample_registry :: "unit entry \<Rightarrow> nat \<Rightarrow> unit registry" where
  "sample_registry e attempts = \<lparr>entries = [(sample_version, e)], evicted = [], retained_deployments = [],
     next_generation = 2, reserved_bytes = 5, build_attempts = attempts,
     quotas = [(Database 1, (2, [0]))], global_quotas = []\<rparr>"

definition sample_entry :: "runtime_state \<Rightarrow> nat \<Rightarrow> nat option \<Rightarrow> nat \<Rightarrow> nat \<Rightarrow> nat \<Rightarrow> unit entry" where
  "sample_entry st epoch res leases waiters idle = \<lparr>e_owner = sample_version, e_key = None,
     e_retained = False, e_physical = None, e_flags = [], e_capabilities = None, e_gen = 1, e_state = st,
     e_changed = \<lparr>w_value = st, w_epoch = epoch\<rparr>, e_resource = res, e_error = None, e_bytes = 5,
     e_leases = leases, e_waiters = waiters, e_idle = idle, e_retry = 0, e_unload = False\<rparr>"

definition sample_store :: adm_store where
  "sample_store = [\<lparr>total_slots = 2, reserved_voice = 1, voice_work = 0, diagnostic_work = 0, idle_epoch = 0\<rparr>]"

definition sample_build :: "bool \<Rightarrow> bool \<Rightarrow> build" where
  "sample_build native load =
     \<lparr>b_version = sample_version, b_gen = 1, b_native = native, b_load = load, b_cold = False\<rparr>"

definition sample_start :: "unit sys" where
  "sample_start = sample_sys (sample_mgr 1 2 2 registry_new (\<lambda>_. 0) []) [] [] [] [] []"

definition sample_entered :: "unit sys" where
  "sample_entered = sample_sys (sample_mgr 1 2 1 registry_new (\<lambda>_. 0) []) [sample_caller] [] [] [] []"

abbreviation sample_counters :: "runtime_counter \<Rightarrow> nat" where
  "sample_counters \<equiv> (\<lambda>_. 0)(Miss := 1)"

definition sample_queued :: "unit sys" where
  "sample_queued = sample_sys
     (sample_mgr 1 1 1 (sample_registry (sample_entry Queued 0 None 0 1 0) 0) sample_counters sample_store)
     [] [(sample_version, 1)] [] [] [sample_build False False]"

definition sample_loaded :: "unit sys" where
  "sample_loaded = sample_sys
     (sample_mgr 0 1 1 (sample_registry (sample_entry Queued 0 None 0 1 0) 0) sample_counters sample_store)
     [] [(sample_version, 1)] [] [] [sample_build False True]"

definition sample_native :: "unit sys" where
  "sample_native = sample_sys
     (sample_mgr 0 1 1 (sample_registry (sample_entry Loading 1 None 0 1 0) 1) sample_counters sample_store)
     [] [(sample_version, 1)] [] [] [sample_build True True]"

definition sample_outcome :: "unit build_outcome" where
  "sample_outcome = Inr (7, Some empty_metadata)"

definition sample_ready :: "unit sys" where
  "sample_ready = sample_sys
     (sample_mgr 1 2 1 (sample_registry (sample_entry Ready 2 (Some 7) 0 1 2) 1)
       (sample_counters(BuildSuccess := 1)) sample_store)
     [] [(sample_version, 1)] [] [] []"

definition sample_lease :: lease where
  "sample_lease = \<lparr>l_version = sample_version, l_gen = 1, l_resource = 7\<rparr>"

definition sample_leased :: "unit sys" where
  "sample_leased = sample_sys
     (sample_mgr 1 2 1 (sample_registry (sample_entry Ready 2 (Some 7) 1 1 2) 1)
       (sample_counters(BuildSuccess := 1)) sample_store)
     [] [] [(sample_version, 1)] [sample_lease] []"

lemmas sample_defs = sample_limits_def sample_mz_def sample_snap_def sample_caller_def sample_start_def
  sample_entered_def sample_plan_def sample_queued_def sample_build_def sample_mgr_def sample_sys_def
  sample_registry_def sample_entry_def sample_store_def sample_loaded_def sample_native_def
  sample_outcome_def sample_ready_def sample_lease_def sample_leased_def

lemma reach_sample_start: "reach sys_init runtime_step sample_start"
proof (rule reach_init)
  have "manager_new sample_limits True [] (\<lambda>_. True) = Inr (s_mgr sample_start)"
    by (simp add: manager_new_def limits_validate_def sem_new_def sample_defs)
  then show "sys_init sample_start"
    unfolding sys_init_def by (intro exI conjI) (simp_all add: sample_start_def sample_sys_def)
qed

lemma reach_sample_entered: "reach sys_init runtime_step sample_entered"
proof (rule reach_step [OF reach_sample_start run_step])
  have "acquire_enter 0 10 (s_mgr sample_start) = Inr (s_mgr sample_entered)"
    by (simp add: acquire_enter_def sem_try_acquire_def sample_defs)
  from step_enter [OF this, of sample_caller] show "sys_step sample_start sample_entered"
    by (simp add: sample_defs)
qed

lemma sample_admit:
  "admit 0 sample_version (dp_kind sample_snap) sample_plan (s_mgr sample_entered) =
     Some (Inr \<lparr>ad_gen = 1, ad_start = True, ad_cold = False, ad_quota = [0]\<rparr>, s_mgr sample_queued)"
  by (simp add: admit_def admit_fresh_def sample_defs registry_new_def purge_failed_def retain_quotas_def
      quota_conflict_def make_room_def find_shared_def memory_pressure_def resource_count_def
      saturating_sub_def sem_try_acquire_def claim_cold_def is_reload_def insert_fresh_def entry_fresh_def
      join_entry_def join_quota_def quota_or_insert_def admission_new_def increment_def join_waiter_def
      adjust_entry_def hm_contains_def hm_retain_def hm_insert_def hm_remove_def hm_adjust_def
      hm_adjust_where_def watch_channel_def Let_def)

lemma reach_sample_queued: "reach sys_init runtime_step sample_queued"
proof (rule reach_step [OF reach_sample_entered run_step])
  have plan: "plan_acquire sample_mz sample_snap = Inr sample_plan"
    by (simp add: plan_acquire_def plan_physical_def plan_global_def in_capacity_range_def sample_defs)
  have "c_version sample_caller = sample_version" by (simp add: sample_caller_def version_database_def)
  then have adm: "admit 0 (c_version sample_caller) (dp_kind sample_snap) sample_plan (s_mgr sample_entered) =
     Some (Inr \<lparr>ad_gen = 1, ad_start = True, ad_cold = False, ad_quota = [0]\<rparr>, s_mgr sample_queued)"
    by (simp only: sample_admit)
  have c: "sample_caller \<in> set (s_callers sample_entered)" by (simp add: sample_entered_def sample_sys_def)
  from step_admitted [OF c plan adm] show "sys_step sample_entered sample_queued"
    by (simp add: sample_queued_def sample_entered_def sample_sys_def new_build_def sample_build_def
        sample_caller_def version_database_def drop_load_def)
qed

lemma reach_sample_loaded: "reach sys_init runtime_step sample_loaded"
proof (rule reach_step [OF reach_sample_queued run_step])
  have "sem_try_acquire (m_loads (s_mgr sample_queued)) = Some \<lparr>sem_total = 1, sem_available = 0\<rparr>"
    by (simp add: sem_try_acquire_def sample_queued_def sample_sys_def sample_mgr_def)
  from step_load [OF _ _ this, of "sample_build False False"] show "sys_step sample_queued sample_loaded"
    by (simp add: sample_loaded_def sample_queued_def sample_sys_def sample_mgr_def replace_build_def sample_build_def)
qed

lemma reach_sample_native: "reach sys_init runtime_step sample_native"
proof (rule reach_step [OF reach_sample_loaded run_step])
  let ?b = "sample_build False True"
  have "manager_build 1 (b_version ?b) (b_gen ?b) (b_load ?b) (b_cold ?b) (s_mgr sample_loaded) =
      (True, s_mgr sample_native)"
    by (simp add: manager_build_def build_start_def adjust_group_def hm_adjust_where_def set_state_def
        send_replace_def sample_defs)
  from step_build [OF _ _ _ this] show "sys_step sample_loaded sample_native"
    by (simp add: sample_loaded_def sample_native_def sample_sys_def replace_build_def sample_build_def)
qed

lemma reach_sample_ready: "reach sys_init runtime_step sample_ready"
proof (rule reach_step [OF reach_sample_native run_step])
  let ?b = "sample_build True True"
  have m: "manager_complete 2 (b_version ?b) (b_gen ?b) (native_outcome True (Some (Inr ())) (Some sample_outcome))
      (b_load ?b) (b_cold ?b) (s_mgr sample_native) = s_mgr sample_ready"
    by (simp add: manager_complete_def drop_cold_def drop_load_def outcome_counter_def native_outcome_def
        complete_def completed_entry_def empty_metadata_def publish_def adjust_entry_def hm_adjust_def
        hm_adjust_where_def increment_def sem_release_def send_replace_def Let_def sample_defs)
  from step_complete [of ?b sample_native 2 True "Some (Inr ())" "Some sample_outcome"]
  show "sys_step sample_native sample_ready"
    unfolding m by (simp add: sample_native_def sample_ready_def sample_sys_def) (simp add: sample_build_def)
qed

lemma sample_wait:
  "manager_wait sample_version 1 (s_mgr sample_ready) = (GotLease 7, s_mgr sample_leased)"
  by (simp add: manager_wait_def wait_pass_def quarantine_unhealthy_def healthy_def adjust_entry_def
      hm_adjust_def hm_adjust_where_def Let_def sample_defs)

lemma reach_sample_leased: "reach sys_init runtime_step sample_leased"
proof (rule reach_step [OF reach_sample_ready run_step])
  have "manager_wait (fst (sample_version, 1 :: nat)) (snd (sample_version, 1)) (s_mgr sample_ready) =
      (GotLease 7, s_mgr sample_leased)" by (simp only: sample_wait fst_conv snd_conv)
  from step_wait [OF _ this] show "sys_step sample_ready sample_leased"
    by (simp add: sample_ready_def sample_leased_def sample_sys_def new_lease_def sample_lease_def)
qed

section \<open>Facts of every reachable state\<close>

lemma reach_parts:
  assumes "reach sys_init runtime_step s"
  shows "reg_inv (m_limits (s_mgr s)) (sys_registry s)"
    and "leases_ok (sys_registry s) (s_leases s)"
    and "waiters_ok (sys_registry s) (s_waiting s @ s_leaving s)"
    and "builds_ok (sys_registry s) (s_builds s)" and "unloads_ok (sys_registry s) (s_unloads s)"
    and "sems_ok s" and "pilot_ok (m_pilot (s_mgr s)) (s_pilot_env s) (s_builds s)"
  using runtime.reach_inv [OF assms]
  by (auto simp: sys_inv_def sys_handles_def handles_ok_def sys_registry_def)

text \<open>An entry whose owner is being unloaded has no lease.\<close>

lemma unloading_no_lease:
  assumes inv: "reg_inv limits r" and e: "hm_get (entries r) v = Some e" and l: "0 < e_leases e"
  shows "\<not> e_unload e \<and> e_state e \<noteq> Draining"
  using reg_invD(2) [OF inv e] l
  by (auto simp: entry_ok_def state_ok_def idle_entry_def split: runtime_state.splits)

lemma alias_of_unloading:
  assumes inv: "reg_inv limits r" and e: "hm_get (entries r) v = Some e"
    and b: "root_of r (e_owner e) = Some b" "e_unload b"
  shows "e_unload e"
proof (cases "v = e_owner e")
  case True
  with e b show ?thesis by (simp add: root_of_def)
next
  case False
  have "e_state b \<noteq> Queued"
    using reg_invD(2) [OF inv, of "e_owner e" b] b
    by (auto simp: root_of_Some entry_ok_def state_ok_def idle_entry_def)
  with reg_invD(3) [OF inv e] False b show ?thesis by (auto simp: alias_ok_def synced_def)
qed

section \<open>Leases and unloads\<close>

text \<open>
  C11: a live lease protects its resource. In every reachable state the entry a lease was taken
  from is still registered, under the same generation and with the leased resource, it is not
  draining, and no unload of the backing resource is running.
\<close>

theorem leased_resource_stays_loaded:
  assumes "reach sys_init runtime_step s" and "l \<in> set (s_leases s)"
  shows "\<exists>e. hm_get (entries (sys_registry s)) (l_version l) = Some e \<and> e_gen e = l_gen l \<and>
    e_resource e = Some (l_resource l) \<and> e_state e \<noteq> Draining \<and>
    e_owner e \<notin> id_version ` set (s_unloads s)"
proof -
  note p = reach_parts [OF assms(1)]
  from p(2) assms(2) obtain e where e: "hm_get (entries (sys_registry s)) (l_version l) = Some e"
      "e_gen e = l_gen l" "e_resource e = Some (l_resource l)" by (auto simp: leases_ok_def)
  have "0 < lease_count (l_version l) (e_gen e) (s_leases s)"
    using assms(2) e(2) by (auto simp: lease_count_pos)
  with p(2) e(1) have live: "0 < e_leases e" by (auto simp: leases_ok_def)
  note n = unloading_no_lease [OF p(1) e(1) live]
  have "e_owner e \<notin> id_version ` set (s_unloads s)"
  proof
    assume "e_owner e \<in> id_version ` set (s_unloads s)"
    then obtain b where "root_of (sys_registry s) (e_owner e) = Some b" "e_unload b"
      using p(5) by (auto simp: unloads_ok_def)
    from alias_of_unloading [OF p(1) e(1) this] n show False by simp
  qed
  with e n show ?thesis by blast
qed

lemma leased_resource_stays_loaded_witness:
  "\<exists>e. hm_get (entries (sys_registry sample_leased)) sample_version = Some e \<and> e_gen e = 1 \<and>
    e_resource e = Some 7 \<and> e_state e \<noteq> Draining \<and>
    e_owner e \<notin> id_version ` set (s_unloads sample_leased)"
proof -
  have "sample_lease \<in> set (s_leases sample_leased)" by (simp add: sample_leased_def sample_sys_def)
  from leased_resource_stays_loaded [OF reach_sample_leased this] show ?thesis
    by (simp only: sample_lease_def lease.select_convs)
qed

section \<open>Budgets\<close>

text \<open>
  C12: the memory and entry budgets hold in every reachable state. The reserved bytes are exactly
  the sum over the entries, never above the resident budget, and neither the resources nor the
  version entries exceed their limits, whatever the interleaving of admissions, completions,
  failures, drains and quarantines.
\<close>

theorem budgets_respected:
  assumes "reach sys_init runtime_step s"
  shows "reserved_bytes (sys_registry s) = sum_list (map e_bytes (hm_values (entries (sys_registry s)))) \<and>
    reserved_bytes (sys_registry s) \<le> max_resident_bytes (m_limits (s_mgr s)) \<and>
    resource_count (sys_registry s) \<le> max_resources (m_limits (s_mgr s)) \<and>
    length (entries (sys_registry s)) \<le> max_version_entries (m_limits (s_mgr s))"
proof -
  have "map e_bytes (hm_values (entries (sys_registry s))) = bytes_list (sys_registry s)"
    by (simp add: hm_values_def bytes_list_def)
  with reg_invD(5) [OF reach_parts(1) [OF assms]] show ?thesis by (simp add: limits_ok_def)
qed

lemma budgets_respected_witness:
  "reserved_bytes (sys_registry sample_leased) = sum_list (map e_bytes (hm_values (entries (sys_registry sample_leased)))) \<and>
    reserved_bytes (sys_registry sample_leased) \<le> max_resident_bytes (m_limits (s_mgr sample_leased)) \<and>
    resource_count (sys_registry sample_leased) \<le> max_resources (m_limits (s_mgr sample_leased)) \<and>
    length (entries (sys_registry sample_leased)) \<le> max_version_entries (m_limits (s_mgr sample_leased))"
  by (rule budgets_respected [OF reach_sample_leased])

text \<open>
  C13: the semaphores bound the concurrency and no permit leaks. At most \<open>max_parallel_loads\<close> native
  builds run, at most \<open>max_parallel_loads + max_pending_loads\<close> attempts are alive and at most
  \<open>max_waiters\<close> callers are inside. In every reachable state the free permits of each of the three
  semaphores and the permits held by what is alive (callers, waiters and leaving waiters; attempts;
  speculative claims, preclaimed callers and builds with a loader permit) add up to its size.
\<close>

theorem concurrency_bounded:
  assumes "reach sys_init runtime_step s"
  shows "let m = s_mgr s; limits = m_limits m in
    length (filter b_native (s_builds s)) \<le> max_parallel_loads limits \<and>
    length (s_builds s) \<le> max_parallel_loads limits + max_pending_loads limits \<and>
    length (s_callers s) + length (s_waiting s) + length (s_leaving s) \<le> max_waiters limits \<and>
    sem_available (m_attempts m) + length (s_builds s) = max_parallel_loads limits + max_pending_loads limits \<and>
    sem_available (m_waiters m) + (length (s_callers s) + length (s_waiting s) + length (s_leaving s)) = max_waiters limits \<and>
    sem_available (m_loads m) + (s_speculative s + length (filter c_preclaimed (s_callers s)) + length (filter b_load (s_builds s)))
      = max_parallel_loads limits"
proof -
  note p = reach_parts [OF assms]
  have "length (filter b_native (s_builds s)) \<le> length (filter b_load (s_builds s))"
  proof -
    have "filter b_native (s_builds s) = filter b_native (filter b_load (s_builds s))"
      using p(4) by (auto simp: builds_ok_def intro!: filter_cong)
    then show ?thesis by (metis length_filter_le)
  qed
  with p(6) show ?thesis by (auto simp: sems_ok_def sem_ok_def loads_out_def Let_def)
qed

lemma concurrency_bounded_witness:
  "let m = s_mgr sample_native; limits = m_limits m in
    length (filter b_native (s_builds sample_native)) \<le> max_parallel_loads limits \<and>
    sem_available (m_attempts m) + length (s_builds sample_native) = max_parallel_loads limits + max_pending_loads limits \<and>
    sem_available (m_waiters m) + (length (s_callers sample_native) + length (s_waiting sample_native) +
      length (s_leaving sample_native)) = max_waiters limits"
  using concurrency_bounded [OF reach_sample_native] unfolding Let_def by blast

end
