(* ===== verification/Provider_Progress.thy ===== *)
theory Provider_Progress
  imports Provider_Theorems
begin

text \<open>
  More of what the provider runtime guarantees: the published accounting is exact, cold builds
  respect the pilot envelope, admission and draining never panic, a refusal leaves no trace, no
  build can be stuck, and the retry and shutdown loops are bounded.
\<close>

section \<open>Accounting\<close>

text \<open>Counting a list of handles entry by entry counts each handle once.\<close>

lemma sum_list_filter_matches:
  assumes "\<And>l. l \<in> set ls \<Longrightarrow> length (filter (\<lambda>x. match x l) xs) = 1"
  shows "sum_list (map (\<lambda>x. length (filter (match x) ls)) xs) = length ls"
  using assms
proof (induction ls)
  case Nil
  then show ?case by (simp add: sum_list_triv)
next
  case (Cons l ls)
  have "sum_list (map (\<lambda>x. length (filter (match x) (l # ls))) xs) =
      sum_list (map (\<lambda>x. (if match x l then 1 else 0) + length (filter (match x) ls)) xs)"
    by (intro arg_cong [where f = sum_list] map_cong) auto
  also have "\<dots> = sum_list (map (\<lambda>x. if match x l then 1 else 0) xs) + length ls"
    using Cons by (simp add: sum_list_addf)
  also have "sum_list (map (\<lambda>x. if match x l then 1 else 0) xs) = length (filter (\<lambda>x. match x l) xs)"
    by (induction xs) auto
  finally show ?case using Cons.prems by simp
qed

lemma filter_key_one:
  assumes "hm_wf m" and "hm_get m k = Some v" and "p (k, v)" and key: "\<And>kv. p kv \<Longrightarrow> fst kv = k"
  shows "length (filter p m) = 1"
  using assms(1,2)
proof (induction m)
  case (Cons kv m)
  show ?case
  proof (cases "fst kv = k")
    case True
    with Cons.prems assms(3) have "p kv" by (cases kv) auto
    moreover have "filter p m = []"
    proof -
      have "fst kv' \<noteq> k" if "kv' \<in> set m" for kv'
        using Cons.prems(1) True that by (metis distinct.simps(2) hm_wf_def image_eqI list.map(2) set_map)
      with key show ?thesis by (metis filter_False)
    qed
    ultimately show ?thesis by simp
  next
    case False
    with key have "\<not> p kv" by blast
    with Cons False show ?thesis by (cases kv) (simp add: hm_wf_def)
  qed
qed simp

lemma sum_list_states:
  "sum_list (map e_bytes es) =
    sum_list (map e_bytes (filter (\<lambda>e. e_state e \<in> {Queued, Loading}) es)) +
    sum_list (map e_bytes (filter (\<lambda>e. e_state e \<in> {Draining}) es)) +
    sum_list (map e_bytes (filter (\<lambda>e. e_state e \<in> {Quarantined}) es)) +
    sum_list (map e_bytes (filter (\<lambda>e. e_state e \<in> {Cold, Ready, Failed}) es))"
proof (induction es)
  case (Cons e es)
  then show ?case by (cases "e_state e") simp_all
qed simp

lemma sum_leases:
  assumes wf: "hm_wf (entries r)" and ok: "leases_ok r ls"
  shows "sum_list (map e_leases (hm_values (entries r))) = length ls"
proof -
  let ?match = "\<lambda>kv l. l_version l = fst kv \<and> l_gen l = e_gen (snd kv)"
  have "map e_leases (hm_values (entries r)) = map (\<lambda>kv. length (filter (?match kv) ls)) (entries r)"
    unfolding hm_values_def map_map
  proof (rule map_cong [OF refl])
    fix kv assume "kv \<in> set (entries r)"
    then have "hm_get (entries r) (fst kv) = Some (snd kv)" using hm_mem_get [OF wf] by (cases kv) auto
    then show "(e_leases \<circ> snd) kv = length (filter (?match kv) ls)"
      using ok by (simp add: leases_ok_def lease_count_def)
  qed
  moreover have "length (filter (\<lambda>kv. ?match kv l) (entries r)) = 1" if "l \<in> set ls" for l
  proof -
    from ok that obtain e where e: "hm_get (entries r) (l_version l) = Some e" "e_gen e = l_gen l"
      by (auto simp: leases_ok_def)
    show ?thesis by (rule filter_key_one [OF wf e(1)]) (use e in auto)
  qed
  ultimately show ?thesis by (simp add: sum_list_filter_matches)
qed

text \<open>
  C25: the accounting the operator sees is exact. In every reachable state \<open>active_leases\<close> is the
  number of leases that are alive, each byte figure is the sum over the entries in the states it
  names, and the figures partition the reservation: what builds, drains and quarantines hold and
  what the remaining entries (ready or failed) hold add up to the counter \<open>reserved_bytes\<close>, which
  is within the budget.
\<close>

theorem accounting_exact:
  assumes "reach sys_init runtime_step s"
  shows "let a = manager_accounting (s_mgr s);
      bytes = (\<lambda>states. sum_list (map e_bytes (filter (\<lambda>e. e_state e \<in> states) (hm_values (entries (sys_registry s))))))
    in ac_active_leases a = length (s_leases s) \<and>
      ac_build_bytes a = bytes {Queued, Loading} \<and> ac_draining_bytes a = bytes {Draining} \<and>
      ac_quarantined_bytes a = bytes {Quarantined} \<and>
      ac_reserved_bytes a =
        ac_build_bytes a + ac_draining_bytes a + ac_quarantined_bytes a + bytes {Cold, Ready, Failed} \<and>
      ac_reserved_bytes a \<le> max_resident_bytes (m_limits (s_mgr s)) \<and>
      ac_resources a \<le> max_resources (m_limits (s_mgr s))"
proof -
  let ?r = "m_registry (s_mgr s)"
  let ?bytes = "\<lambda>states. sum_list (map e_bytes (filter (\<lambda>e. e_state e \<in> states) (hm_values (entries ?r))))"
  note inv = reach_parts(1) [OF assms, unfolded sys_registry_def]
  have leases: "ac_active_leases (manager_accounting (s_mgr s)) = length (s_leases s)"
    using sum_leases [OF reg_invD(1) [OF inv] reach_parts(2) [OF assms, unfolded sys_registry_def]]
    by (simp add: manager_accounting_def registry_accounting_def)
  have "sum_list (map e_bytes (hm_values (entries ?r))) =
      ?bytes {Queued, Loading} + ?bytes {Draining} + ?bytes {Quarantined} + ?bytes {Cold, Ready, Failed}"
    by (rule sum_list_states)
  moreover have "bytes_list ?r = map e_bytes (hm_values (entries ?r))"
    by (simp add: bytes_list_def hm_values_def)
  ultimately show ?thesis
    using reg_invD(5) [OF inv] leases
    by (simp add: manager_accounting_def registry_accounting_def limits_ok_def bytes_where_def sys_registry_def Let_def)
qed

lemma accounting_exact_witness:
  "let a = manager_accounting (s_mgr sample_leased) in
    ac_active_leases a = length (s_leases sample_leased) \<and>
    ac_reserved_bytes a = ac_build_bytes a + ac_draining_bytes a + ac_quarantined_bytes a +
      sum_list (map e_bytes (filter (\<lambda>e. e_state e \<in> {Cold, Ready, Failed}) (hm_values (entries (sys_registry sample_leased)))))"
  using accounting_exact [OF reach_sample_leased] unfolding Let_def by blast

section \<open>Aliases\<close>

text \<open>
  C38: what waiters see is what the registry holds. In every reachable state the state published
  to the waiters of an entry is its state, and an alias whose owner is registered agrees with it on
  state, resource, health flags and unloading, unless it is what a failed build of the owner left.
\<close>

theorem published_state_accurate:
  assumes "reach sys_init runtime_step s" and "hm_get (entries (sys_registry s)) v = Some e"
  shows "w_value (e_changed e) = e_state e \<and>
    (e_state e = Ready \<or> e_state e = Draining \<longrightarrow> e_resource e \<noteq> None) \<and>
    (e_state e = Failed \<or> e_state e = Quarantined \<longrightarrow> e_error e \<noteq> None) \<and>
    (e_state e \<noteq> Failed \<longrightarrow> (\<exists>b. hm_get (entries (sys_registry s)) (e_owner e) = Some b \<and> e_owner b = e_owner e \<and>
       e_state b = e_state e \<and> e_resource b = e_resource e \<and> e_flags b = e_flags e \<and> e_unload b = e_unload e))"
proof -
  note inv = reach_parts(1) [OF assms(1)]
  have ok: "entry_ok (next_generation (sys_registry s)) v e" by (rule reg_invD(2) [OF inv assms(2)])
  have "\<exists>b. hm_get (entries (sys_registry s)) (e_owner e) = Some b \<and> e_owner b = e_owner e \<and> synced e b"
    if "e_state e \<noteq> Failed"
  proof (cases "v = e_owner e")
    case True
    with assms(2) show ?thesis by (auto simp: synced_def)
  next
    case False
    with reg_invD(3) [OF inv assms(2)] that show ?thesis
      by (auto simp: alias_ok_def root_of_Some split: option.splits)
  qed
  with ok show ?thesis
    by (auto simp: entry_ok_def state_ok_def synced_def split: runtime_state.splits)
qed

lemma published_state_accurate_witness:
  "list_all (\<lambda>(v, e). w_value (e_changed e) = e_state e \<and> (e_state e = Ready \<longrightarrow> e_resource e \<noteq> None))
     (entries (sys_registry sample_leased)) \<and> entries (sys_registry sample_leased) \<noteq> []"
proof -
  have wf: "hm_wf (entries (sys_registry sample_leased))" by (rule reg_invD(1) [OF reach_parts(1) [OF reach_sample_leased]])
  have "w_value (e_changed e) = e_state e \<and> (e_state e = Ready \<longrightarrow> e_resource e \<noteq> None)"
    if "(v, e) \<in> set (entries (sys_registry sample_leased))" for v e
    using published_state_accurate [OF reach_sample_leased] hm_mem_get [OF wf that] by blast
  moreover have "entries (sys_registry sample_leased) \<noteq> []" by (simp add: sys_registry_def sample_defs)
  ultimately show ?thesis by (auto simp: list_all_iff)
qed

section \<open>The pilot envelope\<close>

text \<open>
  C39: cold materialisation is exclusive in a pilot deployment. While a build that claimed the
  cold permit is alive, it is the only one, and neither voice nor enrollment work is running.
\<close>

theorem cold_build_exclusive:
  assumes "reach sys_init runtime_step s" and "m_pilot (s_mgr s) = Some p" and "pilot_enabled p"
    and "b \<in> set (s_builds s)" and "b_cold b"
  shows "filter b_cold (s_builds s) = [b] \<and> s_pilot_env s = []"
proof -
  have inv: "pilot_inv \<lparr>ps_pilot = p, ps_live = pilot_live (s_pilot_env s) (s_builds s)\<rparr>"
    using reach_parts(7) [OF assms(1)] assms(2) by (simp add: pilot_ok_def)
  have b: "b \<in> set (filter b_cold (s_builds s))" using assms by simp
  then have "PilotCold \<in> set (pilot_live (s_pilot_env s) (s_builds s))"
    by (force simp: pilot_live_def)
  with inv assms(3) have "pilot_live (s_pilot_env s) (s_builds s) = [PilotCold]" by (simp add: pilot_inv_def)
  then have l: "length (s_pilot_env s) + length (filter b_cold (s_builds s)) = 1"
    by (metis length_append length_map One_nat_def list.size(3,4) pilot_live_def add_0)
  moreover have "filter b_cold (s_builds s) \<noteq> []" using b by force
  ultimately have "length (filter b_cold (s_builds s)) = 1" "s_pilot_env s = []"
    by (cases "filter b_cold (s_builds s)"; simp)+
  with b show ?thesis by (cases "filter b_cold (s_builds s)") auto
qed

text \<open>A sample run of a pilot deployment, up to a queued cold build.\<close>

definition sample_pilot :: "bool \<Rightarrow> pilot" where
  "sample_pilot cold = \<lparr>pilot_enabled = True, pilot_voice = False, pilot_enrollment = False, pilot_cold = cold\<rparr>"

definition with_pilot :: "bool \<Rightarrow> unit sys \<Rightarrow> unit sys" where
  "with_pilot cold s = s\<lparr>s_mgr := (s_mgr s)\<lparr>m_pilot := Some (sample_pilot cold)\<rparr>\<rparr>"

definition sample_cold :: "unit sys" where
  "sample_cold = (with_pilot True sample_queued)\<lparr>s_builds := [(sample_build False False)\<lparr>b_cold := True\<rparr>]\<rparr>"

lemma reach_sample_cold: "reach sys_init runtime_step sample_cold"
proof -
  have "sys_step sample_start (with_pilot False sample_start)"
    using step_set_pilot [of sample_start "sample_pilot False" "[]"]
    by (simp add: with_pilot_def pilot_inv_def sample_pilot_def pilot_flag_def set_pilot_admission_def
        sample_start_def sample_sys_def sample_mgr_def split: pilot_work.splits)
  then have r1: "reach sys_init runtime_step (with_pilot False sample_start)"
    using reach_step [OF reach_sample_start run_step] by blast
  have "acquire_enter 0 10 (s_mgr (with_pilot False sample_start)) = Inr (s_mgr (with_pilot False sample_entered))"
    by (simp add: acquire_enter_def sem_try_acquire_def with_pilot_def sample_defs)
  from step_enter [OF this, of sample_caller]
  have "sys_step (with_pilot False sample_start) (with_pilot False sample_entered)"
    by (simp add: with_pilot_def sample_defs)
  then have r2: "reach sys_init runtime_step (with_pilot False sample_entered)"
    using reach_step [OF r1 run_step] by blast
  have plan: "plan_acquire sample_mz sample_snap = Inr sample_plan"
    by (simp add: plan_acquire_def plan_physical_def plan_global_def in_capacity_range_def sample_defs)
  have adm: "admit 0 (c_version sample_caller) (dp_kind sample_snap) sample_plan (s_mgr (with_pilot False sample_entered)) =
     Some (Inr \<lparr>ad_gen = 1, ad_start = True, ad_cold = True, ad_quota = [0]\<rparr>, s_mgr (with_pilot True sample_queued))"
    by (simp add: admit_def admit_fresh_def sample_defs registry_new_def purge_failed_def retain_quotas_def
        quota_conflict_def make_room_def find_shared_def memory_pressure_def resource_count_def
        saturating_sub_def sem_try_acquire_def claim_cold_def is_reload_def insert_fresh_def entry_fresh_def
        join_entry_def join_quota_def quota_or_insert_def admission_new_def increment_def join_waiter_def
        adjust_entry_def hm_contains_def hm_retain_def hm_insert_def hm_remove_def hm_adjust_def
        hm_adjust_where_def watch_channel_def Let_def with_pilot_def sample_pilot_def version_database_def
        pilot_try_admit_def pilot_busy_def pilot_mark_def)
  have c: "sample_caller \<in> set (s_callers (with_pilot False sample_entered))"
    by (simp add: with_pilot_def sample_entered_def sample_sys_def)
  from step_admitted [OF c plan adm] have "sys_step (with_pilot False sample_entered) sample_cold"
    by (simp add: sample_cold_def with_pilot_def sample_queued_def sample_entered_def sample_sys_def new_build_def
        sample_build_def sample_caller_def version_database_def drop_load_def)
  then show ?thesis using reach_step [OF r2 run_step] by blast
qed

lemma cold_build_exclusive_witness:
  "filter b_cold (s_builds sample_cold) = [(sample_build False False)\<lparr>b_cold := True\<rparr>] \<and> s_pilot_env sample_cold = []"
proof (rule cold_build_exclusive [OF reach_sample_cold])
  show "m_pilot (s_mgr sample_cold) = Some (sample_pilot True)" by (simp add: sample_cold_def with_pilot_def)
  show "pilot_enabled (sample_pilot True)" by (simp add: sample_pilot_def)
qed (simp_all add: sample_cold_def with_pilot_def)

section \<open>Admission\<close>

lemma quota_or_insert_total:
  "0 < slots \<Longrightarrow> \<exists>q store' m'. quota_or_insert k slots store m = Some (q, store', m')"
  by (simp add: quota_or_insert_def admission_new_def split: option.splits)

lemma plan_in_range:
  "plan_acquire mz snap = Inr plan \<Longrightarrow>
     0 < pl_logical plan \<and> (\<forall>n. pl_global plan = Some n \<longrightarrow> 0 < n)"
  by (auto simp: plan_acquire_def plan_global_def in_capacity_range_def split: sum.splits if_splits option.splits)

lemma join_quota_total:
  assumes "0 < pl_logical plan" and "\<And>n. pl_global plan = Some n \<Longrightarrow> 0 < n"
  shows "\<exists>q m'. join_quota v kind plan m = Some (q, m')"
proof -
  obtain q store qs where q: "quota_or_insert (pv_identity v) (pl_logical plan) (m_store m) (quotas (m_registry m)) =
      Some (q, store, qs)"
    using quota_or_insert_total [OF assms(1), of "pv_identity v"] by blast
  show ?thesis
  proof (cases "pl_global plan")
    case None
    then show ?thesis by (simp add: join_quota_def q Let_def)
  next
    case (Some n)
    obtain g store' gs where "quota_or_insert kind n store (global_quotas (m_registry m)) = Some (g, store', gs)"
      using quota_or_insert_total [OF assms(2) [OF Some], of kind] by blast
    then show ?thesis by (simp add: join_quota_def q Let_def Some)
  qed
qed

lemma join_entry_total:
  assumes "0 < pl_logical plan" and "\<And>n. pl_global plan = Some n \<Longrightarrow> 0 < n"
    and "hm_get (entries (m_registry m)) v \<noteq> None"
  shows "\<exists>ad m'. join_entry v kind plan start cold m = Some (ad, m')"
proof -
  obtain q m1 where q: "join_quota v kind plan m = Some (q, m1)"
    using join_quota_total [OF assms(1,2)] by blast
  from join_quota_registry [OF q] assms(3) show ?thesis
    by (auto simp: join_entry_def q Let_def split: option.split)
qed

lemma admit_fresh_total:
  fixes m :: "'c manager"
  assumes "0 < pl_logical plan" and "\<And>n. pl_global plan = Some n \<Longrightarrow> 0 < n"
  shows "\<exists>out m'. admit_fresh now v kind plan m = Some (out, m')"
proof (cases "memory_pressure (m_limits m) (pl_bytes plan) (m_registry m) \<or>
    sem_try_acquire (m_attempts m) = None \<or> claim_cold (m_pilot m) = None")
  case True
  then show ?thesis by (auto simp: admit_fresh_def split: option.split)
next
  case False
  then obtain attempts cold pilot where f: "sem_try_acquire (m_attempts m) = Some attempts"
      "claim_cold (m_pilot m) = Some (cold, pilot)" by auto
  define m3 where "m3 = (let m1 = m\<lparr>m_attempts := attempts, m_pilot := pilot\<rparr>;
      m2 = (if is_reload (pl_key plan) v (m_registry m1) then increment Reload m1 else m1)
    in m2\<lparr>m_registry := insert_fresh now v (pl_key plan) (pl_bytes plan) (m_registry m2)\<rparr>)"
  have "hm_get (entries (m_registry m3)) v \<noteq> None"
    by (simp add: m3_def Let_def increment_def insert_fresh_def keyed_simps)
  from join_entry_total [OF assms this] obtain ad m' where "join_entry v kind plan True cold m3 = Some (ad, m')"
    by blast
  then show ?thesis using False f by (simp add: admit_fresh_def m3_def Let_def)
qed

text \<open>
  An admission never panics. Whatever the registry holds, with a plan that passed the capacity
  checks the locked section of an acquisition ends with an answer: neither the assertion of a new
  capacity pool nor the lookup of the entry just registered can fail.
\<close>

lemma admission_never_panics:
  assumes plan: "plan_acquire mz snap = Inr plan"
  shows "\<exists>out m'. admit now v kind plan m = Some (out, m')"
proof -
  let ?r = "retain_quotas (purge_failed now (m_registry m))"
  let ?m1 = "m\<lparr>m_registry := make_room (m_limits m) ?r\<rparr>"
  have range: "0 < pl_logical plan" "\<And>n. pl_global plan = Some n \<Longrightarrow> 0 < n"
    using plan_in_range [OF plan] by blast+
  have held: "\<exists>ad m'. join_entry v kind plan False False (m\<lparr>m_registry := ?r\<rparr>) = Some (ad, m')"
    if "hm_contains (entries ?r) v"
    by (rule join_entry_total [OF range]) (use that in \<open>auto simp: hm_contains_def\<close>)
  have shared: "\<exists>ad m'. join_entry v kind plan False False
      (?m1\<lparr>m_registry := insert_alias now v e (m_registry ?m1)\<rparr>) = Some (ad, m')" for e
    by (rule join_entry_total [OF range]) (auto simp: insert_alias_def keyed_simps)
  have fresh: "\<exists>out m'. admit_fresh now v kind plan ?m1 = Some (out, m')"
    by (rule admit_fresh_total [OF range])
  show ?thesis
    using held shared fresh by (fastforce simp: admit_def Let_def split: option.split)
qed

text \<open>
  C26: a refused admission leaves no trace. When the locked section answers an error, no generation,
  no bytes and no permit have been taken, and every entry still registered is unchanged: only failed
  entries past their cooldown and one idle alias may be gone.
\<close>

theorem refused_admission_leaves_no_trace:
  assumes reach: "reach sys_init runtime_step s" and plan: "plan_acquire mz snap = Inr plan"
    and a: "admit now v kind plan (s_mgr s) = Some (Inl err, m')"
  shows "reserved_bytes (m_registry m') = reserved_bytes (sys_registry s) \<and>
    next_generation (m_registry m') = next_generation (sys_registry s) \<and>
    m_attempts m' = m_attempts (s_mgr s) \<and> m_loads m' = m_loads (s_mgr s) \<and>
    m_waiters m' = m_waiters (s_mgr s) \<and> m_pilot m' = m_pilot (s_mgr s) \<and>
    set (entries (m_registry m')) \<subseteq> set (entries (sys_registry s))"
proof -
  let ?r = "retain_quotas (purge_failed now (m_registry (s_mgr s)))"
  define m0 where "m0 = (s_mgr s)\<lparr>m_registry := ?r\<rparr>"
  define m1 where "m1 = m0\<lparr>m_registry := make_room (m_limits m0) (m_registry m0)\<rparr>"
  have "m' = m0 \<or> m' = m1"
    using a by (auto simp: admit_def admit_fresh_def Let_def m0_def [symmetric] m1_def [symmetric]
        split: if_splits option.splits)
  moreover have sub: "set (entries ?r) \<subseteq> set (entries (sys_registry s))"
    by (auto simp: retain_quotas_def purge_failed_def sys_registry_def)
  moreover have mk: "set (entries (make_room l r)) \<subseteq> set (entries r) \<and> reserved_bytes (make_room l r) = reserved_bytes r \<and>
      next_generation (make_room l r) = next_generation r" for l and r :: "'a registry"
    by (auto simp: make_room_def hm_remove_def split: list.split prod.split)
  moreover have "reserved_bytes ?r = reserved_bytes (sys_registry s)" "next_generation ?r = next_generation (sys_registry s)"
    by (simp_all add: retain_quotas_def purge_failed_def sys_registry_def)
  moreover have "set (entries (m_registry m1)) \<subseteq> set (entries (sys_registry s))"
    using sub mk [of "m_limits m0" ?r] by (auto simp: m1_def m0_def)
  ultimately show ?thesis by (elim disjE) (simp_all add: m1_def m0_def)
qed

lemma refused_admission_leaves_no_trace_witness:
  "reserved_bytes (m_registry (s_mgr sample_entered)) = reserved_bytes (sys_registry sample_entered) \<and>
    next_generation (m_registry (s_mgr sample_entered)) = next_generation (sys_registry sample_entered) \<and>
    m_attempts (s_mgr sample_entered) = m_attempts (s_mgr sample_entered) \<and>
    m_loads (s_mgr sample_entered) = m_loads (s_mgr sample_entered) \<and>
    m_waiters (s_mgr sample_entered) = m_waiters (s_mgr sample_entered) \<and>
    m_pilot (s_mgr sample_entered) = m_pilot (s_mgr sample_entered) \<and>
    set (entries (m_registry (s_mgr sample_entered))) \<subseteq> set (entries (sys_registry sample_entered))"
proof (rule refused_admission_leaves_no_trace [OF reach_sample_entered])
  let ?mz = "sample_mz\<lparr>mz_bytes := \<lambda>_. Inr 50\<rparr>"
  show "plan_acquire ?mz sample_snap = Inr (sample_plan\<lparr>pl_bytes := 50\<rparr>)"
    by (simp add: plan_acquire_def plan_physical_def plan_global_def in_capacity_range_def sample_defs)
  show "admit 0 sample_version [] (sample_plan\<lparr>pl_bytes := 50\<rparr>) (s_mgr sample_entered) =
      Some (Inl MemoryPressure, s_mgr sample_entered)"
    by (simp add: admit_def admit_fresh_def sample_defs registry_new_def purge_failed_def retain_quotas_def
        quota_conflict_def make_room_def find_shared_def memory_pressure_def resource_count_def
        saturating_sub_def hm_contains_def hm_retain_def Let_def)
qed

section \<open>Draining\<close>

text \<open>
  A drain pass never panics and only unloads what nobody uses. In every reachable state
  \<open>begin_drains\<close> ends (its two \<open>expect\<close> calls cannot fail), the unloads it starts are for distinct
  owners, and every entry of a drained owner has neither a lease nor a waiter.
\<close>

lemma drain_pass_safe:
  fixes s :: "'c sys"
  assumes "reach sys_init runtime_step s"
  shows "\<exists>ds m. manager_begin_drains expired n now (s_mgr s) = Some (ds, m) \<and> distinct (map id_version ds) \<and>
    (\<forall>v e. hm_get (entries (sys_registry s)) v = Some e \<and> e_owner e \<in> id_version ` set ds \<longrightarrow>
       e_leases e = 0 \<and> e_waiters e = 0)"
proof -
  let ?m = "s_mgr s" let ?r = "m_registry (s_mgr s)"
  have inv: "reg_inv (m_limits ?m) ?r" using reach_parts(1) [OF assms] by (simp add: sys_registry_def)
  obtain ds r1 r' where d: "begin_drains (m_stopping ?m) (m_flags ?m) expired n now (idle_ttl_ms (m_limits ?m)) ?r = Some (ds, r')"
    and r1: "r1 = fold quarantine (unhealthy_owners (m_flags ?m) ?r) ?r"
    and dist: "distinct (map id_version ds)" and may: "\<forall>v\<in>set (map id_version ds). may_unload v r1"
    by (rule begin_drains_inv [OF inv])
  have frame: "\<exists>e'. hm_get (entries (fold quarantine vs r)) v = Some e' \<and> e_owner e' = e_owner e \<and>
      e_leases e' = e_leases e \<and> e_waiters e' = e_waiters e"
    if "hm_get (entries r) v = Some e" for vs v e and r :: "'c registry"
    using that
  proof (induction vs arbitrary: r e)
    case (Cons w vs)
    let ?e = "if e_owner e = w then (set_state Quarantined e)\<lparr>e_error := Some QuarantinedError\<rparr> else e"
    have "hm_get (entries (quarantine w r)) v = Some ?e"
      using Cons.prems by (simp add: quarantine_def keyed_simps)
    from Cons.IH [OF this] show ?case by (auto split: if_splits)
  qed simp
  have "e_leases e = 0 \<and> e_waiters e = 0"
    if h: "hm_get (entries (sys_registry s)) v = Some e" "e_owner e \<in> id_version ` set ds" for v e
  proof -
    obtain e' where "hm_get (entries r1) v = Some e'" "e_owner e' = e_owner e" "e_leases e' = e_leases e"
        "e_waiters e' = e_waiters e"
      using frame [of ?r v e "unhealthy_owners (m_flags ?m) ?r"] h(1) unfolding r1 sys_registry_def by blast
    with may h(2) show ?thesis by (auto simp: may_unload_def group_idle_def)
  qed
  with d dist show ?thesis by (auto simp: manager_begin_drains_def)
qed

section \<open>Progress\<close>

lemma step_keeps_limits:
  assumes "runtime_step s t" and "sys_inv s"
  shows "m_limits (s_mgr t) = m_limits (s_mgr s)"
  using assms
proof (induction rule: runtime_step.induct)
  case (run_step s t)
  have adm: "m_limits m = m_limits (s_mgr s)"
    if "plan_acquire mz snap = Inr plan" "admit now v kind plan (s_mgr s) = Some (out, m)" for mz snap plan now v kind out m
    using run_step.prems admit_ok [OF that(2) plan_bytes [OF that(1)]]
    by (fastforce simp: sys_inv_def sys_handles_def admit_contract_def same_rest_def)
  from run_step.hyps show ?case
    by cases (auto dest: adm simp: drop_cold_def acquire_enter_def manager_wait_def manager_retain_def manager_build_def
        manager_begin_drains_def manager_finish_drain_def manager_leave_def manager_release_def increment_def
        manager_drain_timeout_def manager_close_def set_pilot_admission_def Let_def
        split: if_splits option.splits prod.splits)
next
  case (run_rehash es s)
  then show ?case by (simp add: rehash_def)
qed

lemma reach_valid_limits:
  assumes "reach sys_init runtime_step s"
  shows "0 < max_parallel_loads (m_limits (s_mgr s))"
  using assms
proof (induction rule: reach.induct)
  case (reach_init s)
  then obtain limits is_open store flags where new: "manager_new limits is_open store flags = Inr (s_mgr s)"
    by (auto simp: sys_init_def)
  then have "limits_validate limits = Inr ()" by (auto simp: manager_new_def split: sum.splits)
  with manager_new_fields [OF new] show ?case by (auto simp: limits_validate_def split: if_splits)
next
  case (reach_step s t)
  then show ?case using step_keeps_limits runtime.reach_inv by metis
qed

text \<open>What a run that finishes builds leaves alone.\<close>

definition same_mode :: "'c sys \<Rightarrow> 'c sys \<Rightarrow> bool" where
  "same_mode s t = (m_gate_open (s_mgr t) = m_gate_open (s_mgr s) \<and> m_stopping (s_mgr t) = m_stopping (s_mgr s))"

definition builds_in_flight :: "'c sys \<Rightarrow> nat" where
  "builds_in_flight s = length (s_builds s) + s_speculative s + length (s_callers s)"

lemma manager_complete_mode [simp]:
  "m_gate_open (manager_complete now v g out load cold m) = m_gate_open m"
  "m_stopping (manager_complete now v g out load cold m) = m_stopping m"
  by (simp_all add: manager_complete_def drop_cold_def drop_load_def increment_def Let_def split: option.split)

lemma finish_loaded_build:
  assumes b: "b \<in> set (s_builds s)" "b_load b"
  shows "\<exists>t. runtime_step\<^sup>*\<^sup>* s t \<and> same_mode s t \<and> s_builds t = remove1 b (s_builds s) \<and>
    s_speculative t = s_speculative s \<and> s_callers t = s_callers s"
proof -
  have native: "\<exists>t. runtime_step s t \<and> same_mode s t \<and> s_builds t = remove1 c (s_builds s) \<and>
      s_speculative t = s_speculative s \<and> s_callers t = s_callers s"
    if "c \<in> set (s_builds s)" "b_native c" for c and s :: "'a sys"
    using run_step [OF step_complete [OF that, of 0 True None None]]
    by (intro exI conjI, assumption) (simp_all add: same_mode_def)
  show ?thesis
  proof (cases "b_native b")
    case True
    from native [OF b(1) True] show ?thesis by blast
  next
    case False
    obtain started m where mb: "manager_build 0 (b_version b) (b_gen b) (b_load b) (b_cold b) (s_mgr s) = (started, m)"
      by (cases "manager_build 0 (b_version b) (b_gen b) (b_load b) (b_cold b) (s_mgr s)")
    have mode: "m_gate_open m = m_gate_open (s_mgr s)" "m_stopping m = m_stopping (s_mgr s)"
      using mb by (auto simp: manager_build_def split: if_splits)
    note st = run_step [OF step_build [OF b(1) False _ mb]]
    let ?t = "s\<lparr>s_mgr := m, s_builds := (if started then replace_build b (b\<lparr>b_native := True\<rparr>) (s_builds s)
       else remove1 b (s_builds s))\<rparr>"
    have one: "runtime_step s ?t" using st b(2) by simp
    show ?thesis
    proof (cases started)
      case False
      with one mode show ?thesis by (intro exI [of _ ?t]) (auto simp: same_mode_def)
    next
      case True
      let ?c = "b\<lparr>b_native := True\<rparr>"
      have "?c \<in> set (s_builds ?t)" "b_native ?c" using True by (simp_all add: replace_build_def)
      from native [OF this] obtain t where t: "runtime_step ?t t" "same_mode ?t t" "s_builds t = remove1 ?c (s_builds ?t)"
        "s_speculative t = s_speculative ?t" "s_callers t = s_callers ?t" by blast
      have "runtime_step\<^sup>*\<^sup>* s t" using one t(1) by (meson converse_rtranclp_into_rtranclp r_into_rtranclp)
      with t True mode show ?thesis by (intro exI [of _ t]) (auto simp: same_mode_def replace_build_def)
    qed
  qed
qed

text \<open>With builds in flight, some run makes the system smaller without stopping it.\<close>

lemma shrink_in_flight:
  assumes reach: "reach sys_init runtime_step s" and ne: "s_builds s \<noteq> []"
  shows "\<exists>t. runtime_step\<^sup>*\<^sup>* s t \<and> same_mode s t \<and> builds_in_flight t < builds_in_flight s"
proof -
  have smaller: "\<exists>t. runtime_step\<^sup>*\<^sup>* s' t \<and> same_mode s' t \<and> builds_in_flight t < builds_in_flight s'"
    if c: "c \<in> set (s_builds s')" "b_load c" for c and s' :: "'a sys"
  proof -
    obtain t where "runtime_step\<^sup>*\<^sup>* s' t" "same_mode s' t" "s_builds t = remove1 c (s_builds s')"
      "s_speculative t = s_speculative s'" "s_callers t = s_callers s'"
      using finish_loaded_build [OF c] by blast
    moreover have "length (s_builds s') = Suc (length (remove1 c (s_builds s')))"
      by (rule length_remove1_Suc [OF c(1)])
    ultimately show ?thesis by (intro exI [of _ t]) (simp add: builds_in_flight_def)
  qed
  show ?thesis
  proof (cases "\<exists>c\<in>set (s_builds s). b_load c")
    case True
    then show ?thesis using smaller by blast
  next
    case False
    then obtain b where b: "b \<in> set (s_builds s)" "\<not> b_load b" using ne by (cases "s_builds s") auto
    show ?thesis
    proof (cases "sem_try_acquire (m_loads (s_mgr s))")
      case (Some loads)
      let ?c = "b\<lparr>b_load := True\<rparr>"
      let ?s = "s\<lparr>s_mgr := (s_mgr s)\<lparr>m_loads := loads\<rparr>, s_builds := replace_build b ?c (s_builds s)\<rparr>"
      have st: "runtime_step s ?s" by (rule run_step [OF step_load [OF b Some]])
      have "?c \<in> set (s_builds ?s)" "b_load ?c" by (simp_all add: replace_build_def)
      from smaller [OF this] obtain t where t: "runtime_step\<^sup>*\<^sup>* ?s t" "same_mode ?s t" "builds_in_flight t < builds_in_flight ?s" by blast
      have "builds_in_flight ?s = builds_in_flight s"
        using length_remove1_Suc [OF b(1)] by (simp add: builds_in_flight_def replace_build_def)
      with t st show ?thesis
        by (intro exI [of _ t]) (auto simp: same_mode_def intro: converse_rtranclp_into_rtranclp)
    next
      case None
      then have "sem_available (m_loads (s_mgr s)) = 0" by (simp add: sem_try_acquire_def split: if_splits)
      then have "0 < loads_out (s_speculative s) (s_callers s) (s_builds s)"
        using reach_parts(6) [OF reach] reach_valid_limits [OF reach] by (simp add: sems_ok_def sem_ok_def)
      moreover have "filter b_load (s_builds s) = []" using False by (simp add: filter_empty_conv)
      ultimately have "0 < s_speculative s \<or> s_callers s \<noteq> []" by (auto simp: loads_out_def)
      then show ?thesis
      proof
        assume k: "0 < s_speculative s"
        let ?t = "s\<lparr>s_mgr := drop_load True (s_mgr s), s_speculative := s_speculative s - 1\<rparr>"
        have "runtime_step\<^sup>*\<^sup>* s ?t" by (rule r_into_rtranclp [where r = runtime_step, OF run_step [OF step_unclaim [OF k]]])
        moreover have "same_mode s ?t" "builds_in_flight ?t < builds_in_flight s"
          using k by (simp_all add: same_mode_def drop_load_def builds_in_flight_def)
        ultimately show ?thesis by blast
      next
        assume "s_callers s \<noteq> []"
        then obtain c where c: "c \<in> set (s_callers s)" by (cases "s_callers s") auto
        have "plan_acquire (sample_mz\<lparr>mz_bytes := \<lambda>_. Inr 0\<rparr>) sample_snap = Inl Configuration"
          by (simp add: plan_acquire_def sample_mz_def)
        note st = run_step [OF step_plan_error [OF c this]]
        let ?t = "s\<lparr>s_mgr := drop_caller c (s_mgr s), s_callers := remove1 c (s_callers s)\<rparr>"
        have "runtime_step\<^sup>*\<^sup>* s ?t" by (rule r_into_rtranclp [where r = runtime_step, OF st])
        moreover have "same_mode s ?t" "builds_in_flight ?t < builds_in_flight s"
          using length_remove1_Suc [OF c]
          by (simp_all add: same_mode_def drop_caller_def drop_load_def builds_in_flight_def)
        ultimately show ?thesis by blast
      qed
    qed
  qed
qed

lemma drain_in_flight:
  assumes "reach sys_init runtime_step s"
  shows "\<exists>t. runtime_step\<^sup>*\<^sup>* s t \<and> same_mode s t \<and> s_builds t = []"
  using assms
proof (induction "builds_in_flight s" arbitrary: s rule: less_induct)
  case less
  show ?case
  proof (cases "s_builds s = []")
    case True
    then show ?thesis by (intro exI [of _ s]) (simp add: same_mode_def)
  next
    case False
    from shrink_in_flight [OF less.prems this] obtain t where t: "runtime_step\<^sup>*\<^sup>* s t" "same_mode s t" "builds_in_flight t < builds_in_flight s"
      by blast
    from less.hyps [OF t(3) runtime.reach_steps [OF less.prems t(1)]] obtain u where
      "runtime_step\<^sup>*\<^sup>* t u" "same_mode t u" "s_builds u = []" by blast
    with t show ?thesis by (intro exI [of _ u]) (auto simp: same_mode_def)
  qed
qed

text \<open>
  C27: no build can get stuck. From every reachable state the system can run on, without being
  stopped, to a state in which no build attempt is in flight, every attempt permit is back and no
  entry is left \<open>Queued\<close> or \<open>Loading\<close>: loader permits held by speculation or by callers that have
  not yet reached the registry are always given back.
\<close>

theorem builds_never_stuck:
  assumes "reach sys_init runtime_step s"
  shows "\<exists>t. runtime_step\<^sup>*\<^sup>* s t \<and> m_stopping (s_mgr t) = m_stopping (s_mgr s) \<and> s_builds t = [] \<and>
    sem_available (m_attempts (s_mgr t)) = sem_total (m_attempts (s_mgr t)) \<and>
    list_all (\<lambda>(v, e). e_state e \<noteq> Queued \<and> e_state e \<noteq> Loading) (entries (sys_registry t))"
proof -
  obtain t where t: "runtime_step\<^sup>*\<^sup>* s t" "same_mode s t" "s_builds t = []"
    using drain_in_flight [OF assms] by blast
  have rt: "reach sys_init runtime_step t" by (rule runtime.reach_steps [OF assms t(1)])
  note p = reach_parts [OF rt]
  have "e_state e \<noteq> Queued \<and> e_state e \<noteq> Loading" if "(v, e) \<in> set (entries (sys_registry t))" for v e
  proof (rule ccontr)
    assume n: "\<not> (e_state e \<noteq> Queued \<and> e_state e \<noteq> Loading)"
    have g: "hm_get (entries (sys_registry t)) v = Some e" by (rule hm_mem_get [OF reg_invD(1) [OF p(1)] that])
    have "\<exists>b. root_of (sys_registry t) (e_owner e) = Some b \<and> synced e b"
    proof (cases "v = e_owner e")
      case True
      with g show ?thesis by (auto simp: root_of_Some synced_def)
    next
      case False
      with n reg_invD(3) [OF p(1) g] show ?thesis by (auto simp: alias_ok_def split: option.splits)
    qed
    with p(4) t(3) n show False by (fastforce simp: builds_ok_def building_def synced_def)
  qed
  with t p(6) show ?thesis
    by (intro exI [of _ t]) (auto simp: same_mode_def list_all_iff sems_ok_def sem_ok_def)
qed

lemma builds_never_stuck_witness:
  "\<exists>t. runtime_step\<^sup>*\<^sup>* sample_queued t \<and> m_stopping (s_mgr t) = m_stopping (s_mgr sample_queued) \<and> s_builds t = [] \<and>
    sem_available (m_attempts (s_mgr t)) = sem_total (m_attempts (s_mgr t)) \<and>
    list_all (\<lambda>(v, e). e_state e \<noteq> Queued \<and> e_state e \<noteq> Loading) (entries (sys_registry t))"
  by (rule builds_never_stuck [OF reach_sample_queued])

section \<open>The retry loop and the shutdown loop\<close>

lemma admitted_loop_passes:
  "admitted_loop n evict_on speculative attempt evict i err = (out, k) \<Longrightarrow>
     i \<le> k \<and> k \<le> i + n \<and> (\<forall>l. out = Inr l \<longrightarrow> i < k \<and> attempt (k - 1) = Inr (JLease l)) \<and>
     (\<forall>j. i \<le> j \<and> Suc j < k \<longrightarrow> attempt j = Inr JReadmit \<or> attempt j = Inl MemoryPressure \<and> evict_on)"
proof (induction n evict_on speculative attempt evict i err arbitrary: out k rule: admitted_loop.induct)
  case (1 evict_on speculative attempt evict i err)
  then show ?case by auto
next
  case (2 n evict_on speculative attempt evict i err)
  have step: "i \<le> k \<and> k \<le> i + Suc n \<and> (\<forall>l. out = Inr l \<longrightarrow> i < k \<and> attempt (k - 1) = Inr (JLease l)) \<and>
     (\<forall>j. i \<le> j \<and> Suc j < k \<longrightarrow> attempt j = Inr JReadmit \<or> attempt j = Inl MemoryPressure \<and> evict_on)"
    if "admitted_loop n evict_on speculative attempt evict (Suc i) e = (out, k)"
      and "\<And>out k. admitted_loop n evict_on speculative attempt evict (Suc i) e = (out, k) \<Longrightarrow>
        Suc i \<le> k \<and> k \<le> Suc i + n \<and> (\<forall>l. out = Inr l \<longrightarrow> Suc i < k \<and> attempt (k - 1) = Inr (JLease l)) \<and>
        (\<forall>j. Suc i \<le> j \<and> Suc j < k \<longrightarrow> attempt j = Inr JReadmit \<or> attempt j = Inl MemoryPressure \<and> evict_on)"
      and "attempt i = Inr JReadmit \<or> attempt i = Inl MemoryPressure \<and> evict_on" for e
    using that(2) [OF that(1)] that(3) by (metis Suc_leD Suc_le_eq add_Suc_shift le_neq_implies_less)
  show ?case
  proof (cases "attempt i")
    case (Inl e)
    note at = Inl
    show ?thesis
    proof (cases "e = MemoryPressure \<and> evict_on")
      case False
      with Inl "2.prems" show ?thesis by auto
    next
      case True
      show ?thesis
      proof (cases "evict i")
        case (Inl e')
        with True \<open>attempt i = Inl e\<close> "2.prems" show ?thesis by auto
      next
        case (Inr n')
        show ?thesis
        proof (cases n')
          case 0
          with True \<open>attempt i = Inl e\<close> Inr "2.prems" show ?thesis by auto
        next
          case (Suc m)
          with True \<open>attempt i = Inl e\<close> Inr "2.prems"
          have "admitted_loop n evict_on speculative attempt evict (Suc i) MemoryPressure = (out, k)" by simp
          then show ?thesis by (rule step [OF _ "2.IH"(1) [OF at True Inr Suc]]) (use at True in auto)
        qed
      qed
    qed
  next
    case (Inr j)
    show ?thesis
    proof (cases j)
      case (JLease l)
      with Inr "2.prems" show ?thesis by auto
    next
      case JReadmit
      show ?thesis
      proof (cases speculative)
        case True
        with Inr JReadmit "2.prems" show ?thesis by auto
      next
        case False
        with Inr JReadmit "2.prems"
        have "admitted_loop n evict_on speculative attempt evict (Suc i) Unavailable = (out, k)" by simp
        then show ?thesis by (rule step) (use "2.IH"(2) Inr JReadmit False in auto)
      qed
    qed
  qed
qed

lemma admitted_loop_first:
  assumes "admitted_loop (Suc n) evict_on speculative attempt evict i err = (out, k)"
  shows "i < k \<and> (speculative \<and> \<not> evict_on \<longrightarrow> k = Suc i)"
proof -
  have later: "i < k" if "admitted_loop n ev sp attempt evict (Suc i) e = (out, k)" for e ev sp
    using admitted_loop_passes [OF that] by simp
  show ?thesis
    using assms by (auto dest: later split: sum.splits joined.splits if_splits nat.splits)
qed

text \<open>
  An acquisition retries a bounded number of times and only for the two reasons it may. It
  makes at least one and at most \<open>max_resources + 2\<close> passes; every pass before the final one either
  found its entry replaced or hit memory pressure with eviction allowed; a lease it returns is the
  one of its final pass; and speculation, which neither evicts nor queues, makes exactly one pass.
\<close>

lemma acquisition_retries_bounded:
  assumes "acquire_admitted limits evict_on speculative attempt evict = (out, passes)"
  shows "0 < passes \<and> passes \<le> max_resources limits + 2 \<and>
    (\<forall>j. Suc j < passes \<longrightarrow> attempt j = Inr JReadmit \<or> attempt j = Inl MemoryPressure \<and> evict_on) \<and>
    (\<forall>l. out = Inr l \<longrightarrow> attempt (passes - 1) = Inr (JLease l)) \<and>
    (speculative \<and> \<not> evict_on \<longrightarrow> passes = 1)"
proof -
  have "admitted_loop (Suc (max_resources limits + 1)) evict_on speculative attempt evict 0 MemoryPressure = (out, passes)"
    using assms by (simp add: acquire_admitted_def)
  note one = admitted_loop_first [OF this]
  from one admitted_loop_passes [OF assms [unfolded acquire_admitted_def]] show ?thesis by auto
qed

text \<open>
  Shutdown ends and answers truthfully. The drain loop always returns; it answers \<open>True\<close>
  exactly when no byte was reserved at its last reading, gives up only at the deadline or when
  nothing reclaimable is left, and, since each drain pass ends by the deadline, so does the loop.
\<close>

lemma shutdown_ends_by_deadline:
  assumes "\<And>x. drained x \<le> max x deadline"
    and "shutdown_loop deadline reserved unreclaimable drained now = (ok, t)"
  shows "(ok \<longleftrightarrow> reserved t = 0) \<and> (\<not> ok \<longrightarrow> deadline \<le> t \<or> unreclaimable t) \<and>
    now \<le> t \<and> t \<le> max now deadline"
  using assms
proof (induction deadline reserved unreclaimable drained now arbitrary: ok t rule: shutdown_loop.induct)
  case (1 deadline reserved unreclaimable drained now)
  let ?t = "max now (drained now)"
  have t: "?t \<le> max now deadline" using "1.prems"(1) [of now] by simp
  show ?case
  proof (cases "reserved ?t = 0 \<or> deadline \<le> ?t \<or> unreclaimable ?t")
    case True
    with "1.prems"(2) t show ?thesis
      by (subst (asm) shutdown_loop.simps) (auto simp: Let_def split: if_splits)
  next
    case False
    then have c: "reserved ?t \<noteq> 0" "\<not> (deadline \<le> ?t \<or> unreclaimable ?t)" by auto
    have "shutdown_loop deadline reserved unreclaimable drained (min (?t + 5) deadline) = (ok, t)"
      using "1.prems"(2) c by (subst (asm) shutdown_loop.simps) (simp add: Let_def)
    from "1.IH" [OF refl c "1.prems"(1) this] c show ?thesis by auto
  qed
qed

end
