(* ===== verification/Speech_Text.thy ===== *)
theory Speech_Text
  imports Text
begin

text \<open>
  The text stages of spoken output (\<open>session/speech_output/text.rs\<close>): the filter that removes
  JSON artefacts from the model's text, the segmenter that cuts it into sentences, and the
  sanitiser for the synthesiser. \<open>serde_json::from_str\<close> succeeding, \<open>char::is_alphanumeric\<close> and
  Unicode normalisation (NFC) are arguments. Byte offsets of the source always lie on character
  boundaries and are counted in characters here.
\<close>

section \<open>The JSON filter\<close>

record json_filter =
  jf_candidate :: rstr
  jf_depth :: usize
  jf_in_string :: bool
  jf_escaped :: bool
  jf_last :: "rchar option"
  jf_skip :: bool

definition filter_new :: json_filter where
  "filter_new = \<lparr>jf_candidate = [], jf_depth = 0, jf_in_string = False, jf_escaped = False,
     jf_last = None, jf_skip = False\<rparr>"

definition opens :: "rchar \<Rightarrow> bool" where
  "opens ch = (ch = chr CHR ''{'' \<or> ch = chr CHR ''['')"

definition closes :: "rchar \<Rightarrow> bool" where
  "closes ch = (ch = chr CHR ''}'' \<or> ch = chr CHR '']'')"

text \<open>A character outside every bracket.\<close>

definition filter_plain :: "rchar \<Rightarrow> json_filter \<Rightarrow> rstr \<times> json_filter" where
  "filter_plain ch f =
     (if opens ch then ([], f\<lparr>jf_depth := 1, jf_candidate := jf_candidate f @ [ch]\<rparr>)
      else if jf_skip f \<and> ch = chr CHR '' '' then ([], f\<lparr>jf_skip := False\<rparr>)
      else ([ch], f\<lparr>jf_skip := False, jf_last := Some ch\<rparr>))"

text \<open>A character inside brackets: escapes, strings, depth.\<close>

definition filter_scan :: "rchar \<Rightarrow> json_filter \<Rightarrow> json_filter" where
  "filter_scan ch f =
     (if jf_escaped f then f\<lparr>jf_escaped := False\<rparr>
      else if ch = 92 \<and> jf_in_string f then f\<lparr>jf_escaped := True\<rparr>
      else if ch = 34 then f\<lparr>jf_in_string := \<not> jf_in_string f\<rparr>
      else if \<not> jf_in_string f
      then (if opens ch then f\<lparr>jf_depth := jf_depth f + 1\<rparr>
            else if closes ch then f\<lparr>jf_depth := wrapping_sub (jf_depth f) 1\<rparr>
            else f)
      else f)"

text \<open>The candidate is complete: dropped when it is JSON, spoken otherwise.\<close>

definition filter_close ::
    "(rstr \<Rightarrow> bool) \<Rightarrow> (rchar \<Rightarrow> bool) \<Rightarrow> rchar \<Rightarrow> json_filter \<Rightarrow> rstr \<times> json_filter" where
  "filter_close valid alnum ch f =
     (if valid (jf_candidate f)
      then let spaced = (case jf_last f of None \<Rightarrow> False | Some c \<Rightarrow> alnum c);
               final = (if spaced then Some (chr CHR '' '') else jf_last f)
           in (if spaced then [chr CHR '' ''] else [],
               f\<lparr>jf_last := final, jf_skip := (final = Some (chr CHR '' '')), jf_candidate := []\<rparr>)
      else (jf_candidate f, f\<lparr>jf_last := Some ch, jf_skip := False, jf_candidate := []\<rparr>))"

definition filter_char ::
    "(rstr \<Rightarrow> bool) \<Rightarrow> (rchar \<Rightarrow> bool) \<Rightarrow> rchar \<Rightarrow> json_filter \<Rightarrow> rstr \<times> json_filter" where
  "filter_char valid alnum ch f =
     (if jf_depth f = 0 then filter_plain ch f
      else let g = filter_scan ch (f\<lparr>jf_candidate := jf_candidate f @ [ch]\<rparr>)
           in if jf_depth g = 0 then filter_close valid alnum ch g else ([], g))"

fun filter_push ::
    "(rstr \<Rightarrow> bool) \<Rightarrow> (rchar \<Rightarrow> bool) \<Rightarrow> rstr \<Rightarrow> json_filter \<Rightarrow> rstr \<times> json_filter" where
  "filter_push valid alnum [] f = ([], f)"
| "filter_push valid alnum (ch # s) f =
     (let (out, g) = filter_char valid alnum ch f; (rest, h) = filter_push valid alnum s g
      in (out @ rest, h))"

definition filter_finish :: "json_filter \<Rightarrow> rstr \<times> json_filter" where
  "filter_finish f =
     (jf_candidate f, f\<lparr>jf_depth := 0, jf_in_string := False, jf_escaped := False, jf_candidate := []\<rparr>)"

subsection \<open>What the filter does\<close>

lemma filter_push_append:
  "filter_push valid alnum (s @ t) f =
     (let (out, g) = filter_push valid alnum s f; (rest, h) = filter_push valid alnum t g
      in (out @ rest, h))"
  by (induction s arbitrary: f) (auto simp: Let_def split_beta)

text \<open>The whole run over a list of deltas, the way the session feeds the filter.\<close>

fun filter_deltas ::
    "(rstr \<Rightarrow> bool) \<Rightarrow> (rchar \<Rightarrow> bool) \<Rightarrow> rstr list \<Rightarrow> json_filter \<Rightarrow> rstr \<times> json_filter" where
  "filter_deltas valid alnum [] f = ([], f)"
| "filter_deltas valid alnum (d # ds) f =
     (let (out, g) = filter_push valid alnum d f; (rest, h) = filter_deltas valid alnum ds g
      in (out @ rest, h))"

lemma filter_deltas_concat:
  "filter_deltas valid alnum ds f = filter_push valid alnum (concat ds) f"
  by (induction ds arbitrary: f) (auto simp: filter_push_append Let_def split_beta)

subsection \<open>What the filter is for\<close>

text \<open>
  The reference reads a whole response at once. A bracket opens a block; \<open>cut_block\<close> finds where it closes, minding
  nested brackets, strings and escapes, and gives the block without its first bracket and the text after it. A block
  that is JSON is left out, with the one space that follows it when a space stands before it; that space is added
  when the block touches a word. Any other block, and one that never closes, is spoken as it is.
\<close>

fun cut_block :: "nat \<Rightarrow> bool \<Rightarrow> bool \<Rightarrow> rstr \<Rightarrow> (rstr \<times> rstr) option" where
  "cut_block d quoted escaped [] = None"
| "cut_block d quoted escaped (c # s) =
     (if \<not> quoted \<and> \<not> escaped \<and> closes c \<and> d = 1 then Some ([c], s)
      else map_option (\<lambda>(j, r). (c # j, r))
        (if escaped then cut_block d quoted False s
         else if quoted then cut_block d (c \<noteq> 34) (c = 92) s
         else cut_block (if opens c then Suc d else if closes c then d - 1 else d) (c = 34) False s))"

lemma cut_block_split: "cut_block d quoted escaped s = Some (j, r) \<Longrightarrow> s = j @ r \<and> j \<noteq> []"
  by (induction d quoted escaped s arbitrary: j r rule: cut_block.induct) (auto split: if_splits)

definition skip_space :: "rstr \<Rightarrow> rstr" where
  "skip_space s = (case s of c # r \<Rightarrow> if c = chr CHR '' '' then r else s | [] \<Rightarrow> [])"

lemma skip_space_length: "length (skip_space s) \<le> length s"
  by (cases s) (auto simp: skip_space_def)

function speech_of :: "(rstr \<Rightarrow> bool) \<Rightarrow> (rchar \<Rightarrow> bool) \<Rightarrow> rchar option \<Rightarrow> rstr \<Rightarrow> rstr" where
  "speech_of valid alnum before s =
     (case s of
        [] \<Rightarrow> []
      | c # t \<Rightarrow>
          if \<not> opens c then c # speech_of valid alnum (Some c) t
          else (case cut_block 1 False False t of
                  None \<Rightarrow> c # t
                | Some (j, r) \<Rightarrow>
                    if \<not> valid (c # j) then (c # j) @ speech_of valid alnum (Some (last j)) r
                    else if (case before of None \<Rightarrow> False | Some b \<Rightarrow> alnum b)
                         then chr CHR '' '' # speech_of valid alnum (Some (chr CHR '' '')) (skip_space r)
                         else speech_of valid alnum before (if before = Some (chr CHR '' '') then skip_space r else r)))"
  by pat_completeness auto
termination
proof (relation "measure (\<lambda>(valid, alnum, before, s). length s)", goal_cases)
  case 1
  then show ?case by simp
next
  case (2 valid alnum before s c t)
  then show ?case by simp
next
  case (3 valid alnum before s c t x j r)
  then show ?case using cut_block_split [of 1 False False t j r] by simp
next
  case (4 valid alnum before s c t x j r)
  then show ?case using cut_block_split [of 1 False False t j r] skip_space_length [of r] by simp
next
  case (5 valid alnum before s c t x j r)
  then show ?case using cut_block_split [of 1 False False t j r] skip_space_length [of r] by simp
qed

declare speech_of.simps [simp del]

text \<open>Inside a block the filter collects, and its counters are the arguments of \<open>cut_block\<close>.\<close>

definition inside :: "nat \<Rightarrow> bool \<Rightarrow> bool \<Rightarrow> rstr \<Rightarrow> json_filter \<Rightarrow> json_filter" where
  "inside d quoted escaped cand f =
     f\<lparr>jf_depth := d, jf_in_string := quoted, jf_escaped := escaped, jf_candidate := cand\<rparr>"

lemma inside_simps [simp]:
  "jf_depth (inside d q e cand f) = d" "jf_candidate (inside d q e cand f) = cand" "jf_in_string (inside d q e cand f) = q"
  "jf_escaped (inside d q e cand f) = e" "jf_last (inside d q e cand f) = jf_last f" "jf_skip (inside d q e cand f) = jf_skip f"
  by (simp_all add: inside_def)

lemma open_close: "opens c \<Longrightarrow> \<not> closes c \<and> c \<noteq> 34 \<and> c \<noteq> 92" "closes c \<Longrightarrow> c \<noteq> 34 \<and> c \<noteq> 92"
  by (auto simp: opens_def closes_def chr_def)

lemma filter_inside:
  assumes "0 < d"
  shows "filter_char valid alnum c (inside d q e cand f) =
    (if \<not> q \<and> \<not> e \<and> closes c \<and> d = 1 then filter_close valid alnum c (inside 0 False False (cand @ [c]) f)
     else ([], if e then inside d q False (cand @ [c]) f
               else if q then inside d (c \<noteq> 34) (c = 92) (cand @ [c]) f
               else inside (if opens c then Suc d else if closes c then d - 1 else d) (c = 34) False (cand @ [c]) f))"
  using assms open_close [of c]
  by (auto simp: filter_char_def filter_scan_def inside_def Let_def wrapping_sub_def
      intro!: arg_cong [where f = "filter_close valid alnum c"])

lemma filter_block:
  assumes "0 < d"
  shows "case cut_block d q e s of
      None \<Rightarrow> fst (filter_push valid alnum s (inside d q e cand f)) = [] \<and>
        jf_candidate (snd (filter_push valid alnum s (inside d q e cand f))) = cand @ s
    | Some (j, r) \<Rightarrow>
        filter_push valid alnum s (inside d q e cand f) =
         (case filter_close valid alnum (last j) (inside 0 False False (cand @ j) f) of (out, g) \<Rightarrow>
            (case filter_push valid alnum r g of (rest, h) \<Rightarrow> (out @ rest, h)))"
  using assms
proof (induction s arbitrary: d q e cand)
  case Nil
  then show ?case by (simp add: inside_def)
next
  case (Cons c s)
  show ?case
  proof (cases "\<not> q \<and> \<not> e \<and> closes c \<and> d = 1")
    case True
    have "filter_char valid alnum c (inside d q e cand f) = filter_close valid alnum c (inside 0 False False (cand @ [c]) f)"
      by (rule trans [OF filter_inside [OF Cons.prems] if_P [OF True]])
    with True show ?thesis by (simp add: Let_def split: prod.split)
  next
    case False
    define d' q' e' where "d' = (if e \<or> q then d else if opens c then Suc d else if closes c then d - 1 else d)"
      and "q' = (if e then q else if q then c \<noteq> 34 else c = 34)" and "e' = (if e then False else if q then c = 92 else False)"
    have step: "filter_char valid alnum c (inside d q e cand f) = ([], inside d' q' e' (cand @ [c]) f)"
      by (rule trans [OF filter_inside [OF Cons.prems] trans [OF if_not_P [OF False]]]) (simp add: d'_def q'_def e'_def)
    have cut: "cut_block d q e (c # s) = map_option (\<lambda>(j, r). (c # j, r)) (cut_block d' q' e' s)"
      by (subst cut_block.simps, subst if_not_P [OF False]) (simp add: d'_def q'_def e'_def)
    have "0 < d'" using Cons.prems False by (auto simp: d'_def)
    note IH = Cons.IH [OF this, of q' e' "cand @ [c]"]
    show ?thesis
    proof (cases "cut_block d' q' e' s")
      case None
      with IH show ?thesis unfolding cut by (simp add: step Let_def split: prod.splits)
    next
      case (Some x)
      obtain j r where x: "x = (j, r)" by (cases x)
      with Some have "j \<noteq> []" using cut_block_split by blast
      with IH Some x show ?thesis unfolding cut by (simp add: step Let_def split: prod.splits)
    qed
  qed
qed

lemma filter_speech:
  assumes "jf_depth f = 0" and "jf_candidate f = []" and "\<not> jf_in_string f" and "\<not> jf_escaped f"
  shows "case filter_push valid alnum s f of (out, g) \<Rightarrow>
    out @ fst (filter_finish g) = speech_of valid alnum (jf_last f) (if jf_skip f then skip_space s else s)"
  using assms
proof (induction s arbitrary: f rule: length_induct)
  case (1 s)
  show ?case
  proof (cases s)
    case Nil
    then show ?thesis using "1.prems" by (simp add: filter_finish_def skip_space_def speech_of.simps)
  next
    case (Cons c t)
    show ?thesis
    proof (cases "opens c")
      case False
      have rest: "case filter_push valid alnum t g of (out, h) \<Rightarrow>
          out @ fst (filter_finish h) = speech_of valid alnum (jf_last g) (if jf_skip g then skip_space t else t)"
        if "jf_depth g = 0" "jf_candidate g = []" "\<not> jf_in_string g" "\<not> jf_escaped g" for g
        using 1(1) that Cons by simp
      from False "1.prems" rest [of "f\<lparr>jf_skip := False\<rparr>"] rest [of "f\<lparr>jf_skip := False, jf_last := Some c\<rparr>"] Cons
      show ?thesis
        by (auto simp: filter_char_def filter_plain_def skip_space_def speech_of.simps [of _ _ _ "c # t"] Let_def split: prod.splits)
    next
      case True
      then have first: "filter_char valid alnum c f = ([], inside 1 False False [c] f)" and skip: "skip_space s = s"
        using "1.prems" Cons by (auto simp: filter_char_def filter_plain_def inside_def opens_def skip_space_def chr_def)
      show ?thesis
      proof (cases "cut_block 1 False False t")
        case None
        with filter_block [of 1 valid alnum t False False "[c]" f] True
        show ?thesis unfolding skip
          by (auto simp: Cons first speech_of.simps [of _ _ _ "c # t"] filter_finish_def Let_def split: prod.splits)
      next
        case (Some x)
        obtain j r where x: "x = (j, r)" by (cases x)
        with Some have j: "t = j @ r" "j \<noteq> []" using cut_block_split by blast+
        obtain o1 g where close: "filter_close valid alnum (last j) (inside 0 False False (c # j) f) = (o1, g)" by fastforce
        then have g: "jf_depth g = 0" "jf_candidate g = []" "\<not> jf_in_string g" "\<not> jf_escaped g"
          by (auto simp: filter_close_def Let_def split: if_splits)
        have "case filter_push valid alnum r g of (out, h) \<Rightarrow>
            out @ fst (filter_finish h) = speech_of valid alnum (jf_last g) (if jf_skip g then skip_space r else r)"
          using 1(1) g Cons j by simp
        moreover have "filter_push valid alnum s f =
            (case filter_push valid alnum r g of (rest, h) \<Rightarrow> (o1 @ rest, h))"
          using filter_block [of 1 valid alnum t False False "[c]" f] Some x close by (simp add: Cons first Let_def split: prod.splits)
        moreover have "speech_of valid alnum (jf_last f) s =
            o1 @ speech_of valid alnum (jf_last g) (if jf_skip g then skip_space r else r)"
          using True Some x close
          by (auto simp: Cons speech_of.simps [of _ _ _ "c # t"] filter_close_def Let_def split: if_splits option.splits)
        ultimately show ?thesis by (auto simp: skip split: prod.splits)
      qed
    qed
  qed
qed

text \<open>
  C32: the filter leaves out exactly the JSON of a response. However the response arrives in deltas, what the filter
  emits and hands back at the end is the speech the reference reads from the whole text: every complete JSON document
  in brackets is gone, with exactly the space that would be doubled or missing there; brackets that do not close, or
  do not hold JSON, and everything else are spoken in full.
\<close>

theorem filter_removes_only_json:
  "case filter_deltas valid alnum ds filter_new of
     (out, f) \<Rightarrow> out @ fst (filter_finish f) = speech_of valid alnum None (concat ds)"
  using filter_speech [of filter_new valid alnum "concat ds"] by (simp add: filter_deltas_concat) (simp add: filter_new_def)

text \<open>A word, a document and a bracketed remark.\<close>

lemma speech_of_example:
  "speech_of (\<lambda>s. s = lit ''{[]}'') (\<lambda>c. 97 \<le> c) None (lit ''ok{[]} [a]'') = lit ''ok [a]''"
  by code_simp

section \<open>The sentence segmenter\<close>

record speech_output_config =
  sc_min_chars :: usize
  sc_soft_break_min_chars :: usize
  sc_max_chars :: usize
  sc_pending_segments :: usize

definition chars_end :: "rstr \<Rightarrow> nat \<Rightarrow> nat option" where
  "chars_end buf limit =
     (if limit = 0 then Some 0 else if limit \<le> length buf then Some limit else None)"

definition closing_quote :: "rchar \<Rightarrow> bool" where
  "closing_quote c = (c \<in> {34, 39, 41, 93, 8221, 8217})"

definition is_sentence_boundary :: "rstr \<Rightarrow> nat \<Rightarrow> bool" where
  "is_sentence_boundary buf i =
     (let ch = buf ! i;
          sentence_dot = (ch = chr CHR ''.'' \<and>
            (if Suc i < length buf then is_whitespace (buf ! Suc i) \<or> closing_quote (buf ! Suc i)
             else 0 < i \<and> \<not> is_ascii_digit (buf ! (i - 1))))
      in sentence_dot \<or> ch \<in> {33, 63, 12290, 65281, 65311})"

text \<open>The last newline, punctuation and white space that end at \<open>min_end\<close> or later.\<close>

fun soft_breaks ::
    "nat \<Rightarrow> nat \<Rightarrow> rstr \<Rightarrow> nat option \<times> nat option \<times> nat option \<Rightarrow> nat option \<times> nat option \<times> nat option" where
  "soft_breaks min_end i [] acc = acc"
| "soft_breaks min_end i (ch # s) (newline, punctuation, whitespace) =
     soft_breaks min_end (Suc i) s
       (if Suc i < min_end then (newline, punctuation, whitespace)
        else if ch = 10 \<or> ch = 13 then (Some (Suc i), punctuation, whitespace)
        else if ch = chr CHR '','' \<or> ch = chr CHR '';'' \<or> ch = chr CHR '':'' then (newline, Some (Suc i), whitespace)
        else if is_whitespace ch then (newline, punctuation, Some (Suc i))
        else (newline, punctuation, whitespace))"

definition next_split :: "speech_output_config \<Rightarrow> rstr \<Rightarrow> nat option" where
  "next_split cfg buf =
     (let max_end = chars_end buf (sc_max_chars cfg);
          search_end = (case max_end of None \<Rightarrow> length buf | Some m \<Rightarrow> m)
      in (case List.find (is_sentence_boundary buf) [0..<search_end] of
            Some i \<Rightarrow> Some (Suc i)
          | None \<Rightarrow>
              (case max_end of
                 None \<Rightarrow> None
               | Some m \<Rightarrow>
                   let min_end = (case chars_end buf (sc_soft_break_min_chars cfg) of None \<Rightarrow> 0 | Some n \<Rightarrow> n);
                       (newline, punctuation, whitespace) = soft_breaks min_end 0 (take m buf) (None, None, None)
                   in Some (case newline of Some e \<Rightarrow> e | None \<Rightarrow>
                        (case punctuation of Some e \<Rightarrow> e | None \<Rightarrow>
                          (case whitespace of Some e \<Rightarrow> e | None \<Rightarrow> m))))))"

text \<open>The loop of \<open>push\<close>; \<open>None\<close> is a loop that never ends.\<close>

partial_function (option) seg_loop :: "speech_output_config \<Rightarrow> rstr \<Rightarrow> (rstr list \<times> rstr) option" where
  "seg_loop cfg buf =
     (case next_split cfg buf of
        None \<Rightarrow> Some ([], buf)
      | Some split \<Rightarrow>
          Option.bind (seg_loop cfg (drop split buf))
            (\<lambda>(segments, rest).
               let segment = trim (take split buf)
               in Some (if segment = [] then segments else segment # segments, rest)))"

definition seg_push :: "speech_output_config \<Rightarrow> rstr \<Rightarrow> rstr \<Rightarrow> (rstr list \<times> rstr) option" where
  "seg_push cfg buf delta = seg_loop cfg (buf @ delta)"

definition seg_finish :: "rstr \<Rightarrow> rstr option \<times> rstr" where
  "seg_finish buf = (if trim buf = [] then None else Some (trim buf), [])"

subsection \<open>Every split makes progress\<close>

definition split_bounds :: "nat option \<Rightarrow> nat \<Rightarrow> bool" where
  "split_bounds e m = (case e of None \<Rightarrow> True | Some x \<Rightarrow> 0 < x \<and> x \<le> m)"

lemma soft_breaks_bounds:
  "soft_breaks min_end i s (a, b, c) = (a', b', c') \<Longrightarrow>
     split_bounds a (i + length s) \<Longrightarrow> split_bounds b (i + length s) \<Longrightarrow> split_bounds c (i + length s) \<Longrightarrow>
     split_bounds a' (i + length s) \<and> split_bounds b' (i + length s) \<and> split_bounds c' (i + length s)"
proof (induction s arbitrary: i a b c)
  case (Cons ch s)
  have "split_bounds (Some (Suc i)) (Suc i + length s)" by (simp add: split_bounds_def)
  with Cons.prems show ?case
    using Cons.IH [of "Suc i"] by (auto split: if_splits)
qed simp

lemma find_upt_Some:
  "List.find P [0..<n] = Some i \<longleftrightarrow> i < n \<and> P i \<and> (\<forall>j<i. \<not> P j)"
  by (auto simp: find_Some_iff)

lemma find_upt_None: "List.find P [0..<n] = None \<longleftrightarrow> (\<forall>j<n. \<not> P j)"
  by (auto simp: find_None_iff)

lemma next_split_bounds:
  assumes "0 < sc_max_chars cfg" and "next_split cfg buf = Some split"
  shows "0 < split \<and> split \<le> sc_max_chars cfg \<and> split \<le> length buf"
proof (cases "List.find (is_sentence_boundary buf)
    [0..<case chars_end buf (sc_max_chars cfg) of None \<Rightarrow> length buf | Some m \<Rightarrow> m]")
  case (Some i)
  with assms(2) have "split = Suc i" by (simp add: next_split_def Let_def)
  moreover have "i < (case chars_end buf (sc_max_chars cfg) of None \<Rightarrow> length buf | Some m \<Rightarrow> m)"
    using Some by (simp add: find_upt_Some)
  ultimately show ?thesis using assms(1) by (auto simp: chars_end_def split: if_splits)
next
  case None
  with assms have c: "sc_max_chars cfg \<le> length buf" by (auto simp: next_split_def chars_end_def Let_def split: if_splits)
  with assms(1) have m: "chars_end buf (sc_max_chars cfg) = Some (sc_max_chars cfg)" by (simp add: chars_end_def)
  obtain a b d where s: "soft_breaks (case chars_end buf (sc_soft_break_min_chars cfg) of None \<Rightarrow> 0 | Some n \<Rightarrow> n) 0
      (take (sc_max_chars cfg) buf) (None, None, None) = (a, b, d)" by (metis prod_cases3)
  from soft_breaks_bounds [OF s] c
  have "split_bounds a (sc_max_chars cfg) \<and> split_bounds b (sc_max_chars cfg) \<and> split_bounds d (sc_max_chars cfg)"
    by (simp add: split_bounds_def)
  moreover have "split = (case a of Some e \<Rightarrow> e | None \<Rightarrow> (case b of Some e \<Rightarrow> e | None \<Rightarrow>
      (case d of Some e \<Rightarrow> e | None \<Rightarrow> sc_max_chars cfg)))"
    using assms(2) None by (simp add: next_split_def Let_def m s)
  ultimately show ?thesis using c assms(1) by (auto simp: split_bounds_def split: option.splits)
qed

lemma next_split_None:
  assumes "0 < sc_max_chars cfg"
  shows "next_split cfg buf = None \<longleftrightarrow>
    length buf < sc_max_chars cfg \<and> (\<forall>i<length buf. \<not> is_sentence_boundary buf i)"
proof (cases "sc_max_chars cfg \<le> length buf")
  case True
  with assms have "chars_end buf (sc_max_chars cfg) = Some (sc_max_chars cfg)" by (simp add: chars_end_def)
  then have "next_split cfg buf \<noteq> None"
    by (simp add: next_split_def Let_def split: option.split prod.split)
  with True show ?thesis by simp
next
  case False
  with assms have "chars_end buf (sc_max_chars cfg) = None" by (simp add: chars_end_def)
  then have "next_split cfg buf = map_option Suc (List.find (is_sentence_boundary buf) [0..<length buf])"
    by (simp add: next_split_def Let_def split: option.split)
  with False show ?thesis by (simp add: find_upt_None)
qed

lemma seg_loop_quiet: "next_split cfg buf = None \<Longrightarrow> seg_loop cfg buf = Some ([], buf)"
  by (subst seg_loop.simps) simp

text \<open>The pieces the loop cuts the buffer into.\<close>

lemma seg_loop_pieces:
  assumes "0 < sc_max_chars cfg"
  shows "\<exists>pieces rest. seg_loop cfg buf = Some (filter (\<lambda>p. p \<noteq> []) (map trim pieces), rest) \<and>
    concat pieces @ rest = buf \<and> list_all (\<lambda>p. 0 < length p \<and> length p \<le> sc_max_chars cfg) pieces \<and>
    next_split cfg rest = None"
proof (induction buf rule: length_induct)
  case (1 buf)
  show ?case
  proof (cases "next_split cfg buf")
    case None
    then show ?thesis
      by (intro exI [of _ "[]"] exI [of _ buf]) (simp add: seg_loop.simps)
  next
    case (Some split)
    note b = next_split_bounds [OF assms Some]
    then have "length (drop split buf) < length buf" unfolding length_drop by linarith
    with 1 obtain pieces rest where ih: "seg_loop cfg (drop split buf) = Some (filter (\<lambda>p. p \<noteq> []) (map trim pieces), rest)"
      "concat pieces @ rest = drop split buf" "list_all (\<lambda>p. 0 < length p \<and> length p \<le> sc_max_chars cfg) pieces"
      "next_split cfg rest = None" by blast
    have "seg_loop cfg buf = Some (filter (\<lambda>p. p \<noteq> []) (map trim (take split buf # pieces)), rest)"
      by (subst seg_loop.simps) (simp add: Some ih(1) Let_def)
    moreover have "concat (take split buf # pieces) @ rest = buf" using ih(2) by simp
    moreover have "list_all (\<lambda>p. 0 < length p \<and> length p \<le> sc_max_chars cfg) (take split buf # pieces)"
      using ih(3) b by auto
    ultimately show ?thesis using ih(4) by blast
  qed
qed

lemma seg_loop_zero:
  assumes "seg_loop cfg buf = Some y"
  shows "sc_max_chars cfg \<noteq> 0"
proof -
  have "sc_max_chars cfg \<noteq> 0 \<or> False"
  proof (rule seg_loop.raw_induct [OF _ assms, where P = "\<lambda>cfg buf y. sc_max_chars cfg \<noteq> 0 \<or> False"])
    fix loop :: "speech_output_config \<Rightarrow> rstr \<Rightarrow> (rstr list \<times> rstr) option" and cfg buf y
    assume ih: "\<And>cfg buf y. loop cfg buf = Some y \<Longrightarrow> sc_max_chars cfg \<noteq> 0 \<or> False"
    assume st: "(case next_split cfg buf of None \<Rightarrow> Some ([], buf)
      | Some split \<Rightarrow> Option.bind (loop cfg (drop split buf))
          (\<lambda>(segments, rest). let segment = trim (take split buf)
             in Some (if segment = [] then segments else segment # segments, rest))) = Some y"
    show "sc_max_chars cfg \<noteq> 0 \<or> False"
    proof (rule ccontr)
      assume n: "\<not> (sc_max_chars cfg \<noteq> 0 \<or> False)"
      then have "next_split cfg buf = Some 0"
        by (simp add: next_split_def chars_end_def Let_def)
      with st obtain z where "loop cfg buf = Some z" by (cases "loop cfg buf") auto
      from ih [OF this] n show False by blast
    qed
  qed
  then show ?thesis by simp
qed

text \<open>
  C33: the segmenter terminates exactly for a positive length limit, and then cuts without losing a
  character. It answers if and only if \<open>max_chars\<close> is positive (configuration validation demands
  it); its answer is the non-blank trimmed pieces of a division of the buffered text into pieces of
  at most \<open>max_chars\<close> characters and a rest that is shorter and has no sentence end in it.
\<close>

theorem segmenter_conserves_text:
  "if sc_max_chars cfg = 0 then seg_push cfg buf delta = None
   else \<exists>pieces rest. seg_push cfg buf delta = Some (filter (\<lambda>p. p \<noteq> []) (map trim pieces), rest) \<and>
     concat pieces @ rest = buf @ delta \<and>
     list_all (\<lambda>p. 0 < length p \<and> length p \<le> sc_max_chars cfg) pieces \<and>
     length rest < sc_max_chars cfg \<and> list_all (\<lambda>i. \<not> is_sentence_boundary rest i) [0..<length rest]"
proof (cases "sc_max_chars cfg = 0")
  case True
  then show ?thesis
    by (cases "seg_loop cfg (buf @ delta)") (auto simp: seg_push_def dest: seg_loop_zero)
next
  case False
  then have pos: "0 < sc_max_chars cfg" by simp
  from seg_loop_pieces [OF pos, of "buf @ delta"] False show ?thesis
    by (auto simp: seg_push_def next_split_None [OF pos] list_all_iff)
qed

subsection \<open>One character completes at most one segment\<close>

lemma boundary_suffix:
  assumes "split \<le> length buf" and "i < length (drop split buf)" and "is_sentence_boundary (drop split buf) i"
  shows "is_sentence_boundary buf (split + i)"
  using assms by (auto simp: is_sentence_boundary_def Let_def add.commute split: if_splits)

lemma boundary_before_end:
  assumes "Suc i < length buf" and "is_sentence_boundary (buf @ [ch]) i"
  shows "is_sentence_boundary buf i"
  using assms by (auto simp: is_sentence_boundary_def Let_def nth_append split: if_splits)

lemma single_char_not_boundary:
  assumes "is_sentence_boundary (buf @ [ch]) i" and "\<not> is_sentence_boundary buf i" and "Suc i = length buf"
  shows "\<not> is_sentence_boundary [ch] 0"
  using assms by (auto simp: is_sentence_boundary_def Let_def nth_append closing_quote_def is_whitespace_def split: if_splits)

lemma seg_char_rest:
  assumes pos: "0 < sc_max_chars cfg" and quiet: "next_split cfg buf = None"
    and s: "next_split cfg (buf @ [ch]) = Some split"
  shows "next_split cfg (drop split (buf @ [ch])) = None"
proof -
  let ?b = "buf @ [ch]"
  from quiet have q: "length buf < sc_max_chars cfg" "\<And>i. i < length buf \<Longrightarrow> \<not> is_sentence_boundary buf i"
    by (simp_all add: next_split_None [OF pos])
  note b = next_split_bounds [OF pos s]
  have len: "length (drop split ?b) < sc_max_chars cfg" using b q(1) by auto
  have "\<not> is_sentence_boundary (drop split ?b) i" if i: "i < length (drop split ?b)" for i
  proof (cases "\<exists>k<length buf. is_sentence_boundary ?b k")
    case False
    show ?thesis
    proof
      assume n: "is_sentence_boundary (drop split ?b) i"
      from boundary_suffix [OF _ i n] b have k: "is_sentence_boundary ?b (split + i)" by simp
      with False have "\<not> split + i < length buf" by blast
      moreover have "split + i < Suc (length buf)"
        using i unfolding length_drop by (simp add: less_diff_conv add.commute)
      ultimately have "split + i = length buf" by simp
      have "split = Suc (length buf)"
      proof -
        let ?n = "case chars_end ?b (sc_max_chars cfg) of None \<Rightarrow> length ?b | Some m \<Rightarrow> m"
        have "?n = length ?b" using q(1) by (auto simp: chars_end_def)
        moreover have "List.find (is_sentence_boundary ?b) [0..<length ?b] = Some (length buf)"
          unfolding find_upt_Some using k False \<open>split + i = length buf\<close> by auto
        ultimately show ?thesis using s by (simp add: next_split_def Let_def)
      qed
      with \<open>split + i = length buf\<close> show False by simp
    qed
  next
    case True
    then obtain k where k: "k < length buf" "is_sentence_boundary ?b k" by blast
    have last: "Suc j = length buf" if "j < length buf" "is_sentence_boundary ?b j" for j
      using that q(2) boundary_before_end [of j buf ch] by (cases "Suc j < length buf") auto
    let ?n = "case chars_end ?b (sc_max_chars cfg) of None \<Rightarrow> length ?b | Some m \<Rightarrow> m"
    have "?n = length ?b" using q(1) by (auto simp: chars_end_def)
    moreover have "List.find (is_sentence_boundary ?b) [0..<length ?b] = Some k"
      unfolding find_upt_Some
    proof (intro conjI allI impI)
      show "k < length ?b" "is_sentence_boundary ?b k" using k by simp_all
      show "\<not> is_sentence_boundary ?b j" if "j < k" for j
        using that k last [of j] last [OF k] by auto
    qed
    ultimately have "split = Suc k" using s by (simp add: next_split_def Let_def)
    then have "drop split ?b = [ch]" using last [OF k] by simp
    moreover from i this have "i = 0" by (simp only: list.size)
    ultimately show ?thesis
      using single_char_not_boundary [OF k(2) q(2) [OF k(1)] last [OF k]] by simp
  qed
  with len show ?thesis by (simp add: next_split_None [OF pos])
qed

text \<open>
  A single character completes at most one segment. When no split was left in the buffer,
  pushing one character yields no segment or one, and again leaves no split. So a caller that feeds
  characters one at a time and has room for one segment never has to refuse a second one.
\<close>

lemma one_segment_per_char:
  assumes "0 < sc_max_chars cfg" and "next_split cfg buf = None"
  shows "\<exists>segments rest. seg_push cfg buf [ch] = Some (segments, rest) \<and> length segments \<le> 1 \<and>
    next_split cfg rest = None"
proof (cases "next_split cfg (buf @ [ch])")
  case None
  then show ?thesis by (simp add: seg_push_def seg_loop_quiet)
next
  case (Some split)
  note quiet = seg_loop_quiet [OF seg_char_rest [OF assms Some]]
  then have "seg_push cfg buf [ch] = Some (if trim (take split (buf @ [ch])) = [] then [] else [trim (take split (buf @ [ch]))],
      drop split (buf @ [ch]))"
    unfolding seg_push_def by (subst seg_loop.simps) (simp only: Some quiet option.case Let_def bind.simps prod.case)
  then show ?thesis using seg_char_rest [OF assms Some] by auto
qed

section \<open>The sanitiser\<close>

definition speech_char :: "rchar \<Rightarrow> rchar" where
  "speech_char ch =
     (if ch = chr CHR '':'' \<or> ch = chr CHR '';'' then chr CHR '',''
      else if ch = chr CHR ''!'' \<or> ch = chr CHR ''?'' \<or> ch = chr CHR ''-'' then chr CHR ''.''
      else ch)"

definition speech_kept :: "(rchar \<Rightarrow> bool) \<Rightarrow> rchar \<Rightarrow> bool" where
  "speech_kept alnum ch = (alnum ch \<or> ch = chr CHR ''.'' \<or> ch = chr CHR '','')"

fun sanitize_loop :: "(rchar \<Rightarrow> bool) \<Rightarrow> rstr \<Rightarrow> rstr \<Rightarrow> bool \<Rightarrow> rstr" where
  "sanitize_loop alnum [] out pending_space = out"
| "sanitize_loop alnum (ch0 # s) out pending_space =
     (let ch = speech_char ch0
      in if speech_kept alnum ch
         then sanitize_loop alnum s ((if pending_space \<and> out \<noteq> [] then out @ [chr CHR '' ''] else out) @ [ch]) False
         else sanitize_loop alnum s out True)"

definition sanitize_tts_text :: "(rstr \<Rightarrow> rstr) \<Rightarrow> (rchar \<Rightarrow> bool) \<Rightarrow> rstr \<Rightarrow> rstr" where
  "sanitize_tts_text nfc alnum input =
     (let out = sanitize_loop alnum (nfc input) [] False
      in if list_ex alnum out then trim out else [])"

text \<open>Words of kept characters separated by single spaces.\<close>

definition word_chars :: "(rchar \<Rightarrow> bool) \<Rightarrow> rstr \<Rightarrow> bool" where
  "word_chars alnum w = (w \<noteq> [] \<and> list_all (speech_kept alnum) w)"

fun join_words :: "rstr list \<Rightarrow> rstr" where
  "join_words [] = []"
| "join_words [w] = w"
| "join_words (w # v # ws) = w @ chr CHR '' '' # join_words (v # ws)"

lemma join_words_snoc: "ws \<noteq> [] \<Longrightarrow> join_words (ws @ [w]) = join_words ws @ chr CHR '' '' # w"
  by (induction ws rule: join_words.induct) auto

lemma join_words_extend:
  "join_words (ws @ [w @ v]) = join_words (ws @ [w]) @ v"
  by (cases "ws = []") (simp_all add: join_words_snoc)

lemma join_words_empty: "list_all (word_chars alnum) ws \<Longrightarrow> join_words ws = [] \<longleftrightarrow> ws = []"
  by (induction ws rule: join_words.induct) (auto simp: word_chars_def)

lemma sanitize_loop_words:
  assumes "out = join_words ws" and "list_all (word_chars alnum) ws" and "ws = [] \<longrightarrow> True"
  shows "\<exists>vs. sanitize_loop alnum s out pending = join_words vs \<and> list_all (word_chars alnum) vs \<and>
    list_all (speech_kept alnum) (concat vs)"
  using assms
proof (induction s arbitrary: out ws pending)
  case Nil
  then show ?case by (intro exI [of _ ws]) (auto simp: word_chars_def list_all_iff)
next
  case (Cons ch0 s)
  let ?ch = "speech_char ch0"
  show ?case
  proof (cases "speech_kept alnum ?ch")
    case False
    with Cons show ?thesis by (simp add: Let_def)
  next
    case True
    show ?thesis
    proof (cases "pending \<or> ws = []")
      case True
      let ?ws = "ws @ [[?ch]]"
      have "(if pending \<and> out \<noteq> [] then out @ [chr CHR '' ''] else out) @ [?ch] = join_words ?ws"
        using True Cons.prems join_words_empty [OF Cons.prems(2)] by (auto simp: join_words_snoc)
      from Cons.IH [OF this, of False] \<open>speech_kept alnum ?ch\<close> Cons.prems(2) show ?thesis
        by (simp add: Let_def word_chars_def)
    next
      case False
      then obtain us u where ws: "ws = us @ [u]" by (cases ws rule: rev_cases) auto
      have "out @ [?ch] = join_words (us @ [u @ [?ch]])"
        using Cons.prems(1) by (simp add: ws join_words_extend)
      from Cons.IH [OF this, of False] \<open>speech_kept alnum ?ch\<close> Cons.prems(2) False show ?thesis
        by (simp add: Let_def ws word_chars_def)
    qed
  qed
qed

text \<open>
  The synthesiser only receives clean text. Whatever the model wrote, the sanitised text is
  empty, or it holds a letter or digit and is a sequence of words of letters, digits, full stops and
  commas, separated by exactly one space each, with none at the ends (Rust's \<open>is_alphanumeric\<close>
  characters are never white space).
\<close>

lemma sanitized_text_clean:
  assumes "\<And>c. alnum c \<Longrightarrow> \<not> is_whitespace c"
  shows "sanitize_tts_text nfc alnum s = [] \<or>
    list_ex alnum (sanitize_tts_text nfc alnum s) \<and>
    (\<exists>ws. sanitize_tts_text nfc alnum s = join_words ws \<and> list_all (word_chars alnum) ws)"
proof -
  obtain ws where ws: "sanitize_loop alnum (nfc s) [] False = join_words ws" "list_all (word_chars alnum) ws"
    using sanitize_loop_words [of "[]" "[]" alnum "nfc s" False] by auto
  have white: "speech_kept alnum c \<Longrightarrow> \<not> is_whitespace c" for c
    using assms by (auto simp: speech_kept_def chr_def is_whitespace_def)
  have "trim (join_words ws) = join_words ws"
    unfolding trim_def
  proof (rule trim_by_id, rule disjCI)
    assume "\<not> (\<not> is_whitespace (hd (join_words ws)) \<and> \<not> is_whitespace (last (join_words ws)))"
    moreover have "\<not> is_whitespace (hd (join_words ws)) \<and> \<not> is_whitespace (last (join_words ws))"
      if ne: "ws \<noteq> []"
    proof
      obtain w us where w: "ws = w # us" using ne by (cases ws) auto
      with ws(2) have "hd (join_words ws) = hd w" "word_chars alnum w"
        by (cases us; auto simp: word_chars_def)+
      then show "\<not> is_whitespace (hd (join_words ws))"
        using white by (cases w) (auto simp: word_chars_def)
      obtain us u where u: "ws = us @ [u]" using ne by (cases ws rule: rev_cases) auto
      with ws(2) have "last (join_words ws) = last u" "word_chars alnum u"
        by (cases "us = []"; auto simp: word_chars_def join_words_snoc)+
      then show "\<not> is_whitespace (last (join_words ws))"
        using white by (auto simp: word_chars_def list_all_iff)
    qed
    ultimately show "join_words ws = []" by (cases "ws = []") auto
  qed
  with ws show ?thesis by (auto simp: sanitize_tts_text_def Let_def)
qed

end
