(* ===== verification/Protocol.thy ===== *)
theory Protocol
  imports Json "HOL-Library.Word"
begin

text \<open>
  The wire vocabulary of a voice session: the client's hello and control messages
  (\<open>protocol/client.rs\<close>), the server's hello (\<open>protocol/server.rs\<close>), the Device MCP messages and
  tool catalogue (\<open>tools/device_mcp.rs\<close>), and direct speech requests
  (\<open>session/interaction/direct_speech.rs\<close>). \<open>serde_json::from_str\<close> is the argument
  \<open>parse_json\<close>; what the derived \<open>Deserialize\<close> and \<open>Serialize\<close> implementations do with a JSON value
  is written out, including the positional array form serde accepts for a struct.
\<close>

section \<open>Derived deserialisation\<close>

text \<open>A number outside the width of the field is an error, as is a negative or fractional one.\<close>

fun de_unsigned :: "json \<Rightarrow> 'a::len word option" where
  "de_unsigned (JNumber (PosInt n)) = (if n < 2 ^ LENGTH('a) then Some (word_of_nat n) else None)"
| "de_unsigned _ = None"

text \<open>A field of an object: absent means the default, or an error when there is none.\<close>

definition de_field :: "json \<Rightarrow> string \<Rightarrow> 'a option \<Rightarrow> (json \<Rightarrow> 'a option) \<Rightarrow> 'a option" where
  "de_field v name fallback de =
     (case json_get v (lit name) of None \<Rightarrow> fallback | Some x \<Rightarrow> de x)"

text \<open>An element of the positional form.\<close>

definition de_item :: "json list \<Rightarrow> nat \<Rightarrow> 'a option \<Rightarrow> (json \<Rightarrow> 'a option) \<Rightarrow> 'a option" where
  "de_item xs i fallback de = (if i < length xs then de (xs ! i) else fallback)"

section \<open>The client's hello\<close>

record audio_params =
  au_format :: rstr
  au_sample_rate :: "32 word"
  au_channels :: "8 word"
  au_frame_duration :: "16 word"

record client_features =
  cf_reminders :: bool
  cf_direct_tts :: bool
  cf_pipeline_status :: bool
  cf_turn_status :: bool
  cf_tool_status :: bool
  cf_speaker_status :: bool
  cf_aec :: bool
  cf_mcp :: bool

record client_hello =
  ch_message_type :: rstr
  ch_version :: "8 word"
  ch_transport :: rstr
  ch_audio_params :: audio_params
  ch_features :: client_features

definition default_v1_version :: "8 word" where
  "default_v1_version = 1"

definition default_websocket_transport :: rstr where
  "default_websocket_transport = lit ''websocket''"

definition default_uplink_audio_params :: audio_params where
  "default_uplink_audio_params =
     \<lparr>au_format = lit ''opus'', au_sample_rate = 16000, au_channels = 1, au_frame_duration = 60\<rparr>"

definition default_features :: client_features where
  "default_features = \<lparr>cf_reminders = False, cf_direct_tts = False, cf_pipeline_status = False,
     cf_turn_status = False, cf_tool_status = False, cf_speaker_status = False, cf_aec = False,
     cf_mcp = False\<rparr>"

fun de_audio_params :: "json \<Rightarrow> audio_params option" where
  "de_audio_params (JObject kvs) =
     (let v = JObject kvs in
      Option.bind (de_field v ''format'' None as_str) (\<lambda>f.
      Option.bind (de_field v ''sample_rate'' None de_unsigned) (\<lambda>r.
      Option.bind (de_field v ''channels'' None de_unsigned) (\<lambda>c.
      Option.bind (de_field v ''frame_duration'' None de_unsigned) (\<lambda>d.
      Some \<lparr>au_format = f, au_sample_rate = r, au_channels = c, au_frame_duration = d\<rparr>)))))"
| "de_audio_params (JArray xs) =
     (if 4 < length xs then None else
      Option.bind (de_item xs 0 None as_str) (\<lambda>f.
      Option.bind (de_item xs 1 None de_unsigned) (\<lambda>r.
      Option.bind (de_item xs 2 None de_unsigned) (\<lambda>c.
      Option.bind (de_item xs 3 None de_unsigned) (\<lambda>d.
      Some \<lparr>au_format = f, au_sample_rate = r, au_channels = c, au_frame_duration = d\<rparr>)))))"
| "de_audio_params _ = None"

definition features_of :: "(nat \<Rightarrow> string \<Rightarrow> bool option) \<Rightarrow> client_features option" where
  "features_of get =
     Option.bind (get 0 ''reminders'') (\<lambda>a.
     Option.bind (get 1 ''direct_tts'') (\<lambda>b.
     Option.bind (get 2 ''pipeline_status'') (\<lambda>c.
     Option.bind (get 3 ''turn_status'') (\<lambda>d.
     Option.bind (get 4 ''tool_status'') (\<lambda>e.
     Option.bind (get 5 ''speaker_status'') (\<lambda>f.
     Option.bind (get 6 ''aec'') (\<lambda>g.
     Option.bind (get 7 ''mcp'') (\<lambda>h.
     Some \<lparr>cf_reminders = a, cf_direct_tts = b, cf_pipeline_status = c, cf_turn_status = d,
           cf_tool_status = e, cf_speaker_status = f, cf_aec = g, cf_mcp = h\<rparr>))))))))"

fun de_features :: "json \<Rightarrow> client_features option" where
  "de_features (JObject kvs) = features_of (\<lambda>_ name. de_field (JObject kvs) name (Some False) as_bool)"
| "de_features (JArray xs) =
     (if 8 < length xs then None else features_of (\<lambda>i _. de_item xs i (Some False) as_bool))"
| "de_features _ = None"

definition de_hello :: "json \<Rightarrow> client_hello option" where
  "de_hello v =
     Option.bind (de_field v ''type'' None as_str) (\<lambda>t.
     Option.bind (de_field v ''version'' (Some default_v1_version) de_unsigned) (\<lambda>ver.
     Option.bind (de_field v ''transport'' (Some default_websocket_transport) as_str) (\<lambda>tr.
     Option.bind (de_field v ''audio_params'' (Some default_uplink_audio_params) de_audio_params) (\<lambda>a.
     Option.bind (de_field v ''features'' (Some default_features) de_features) (\<lambda>f.
     Some \<lparr>ch_message_type = t, ch_version = ver, ch_transport = tr, ch_audio_params = a, ch_features = f\<rparr>)))))"

datatype protocol_error = MalformedJson | InvalidHello | InvalidAudioProfile

definition validate_v1 :: "client_hello \<Rightarrow> protocol_error + unit" where
  "validate_v1 h =
     (if ch_message_type h \<noteq> lit ''hello'' \<or> ch_version h \<noteq> 1 \<or> ch_transport h \<noteq> lit ''websocket''
      then Inl InvalidHello
      else let audio = ch_audio_params h in
        if au_format audio \<noteq> lit ''opus'' \<or> au_sample_rate audio \<noteq> 16000 \<or> au_channels audio \<noteq> 1 \<or>
           au_frame_duration audio \<noteq> 60
        then Inl InvalidAudioProfile else Inr ())"

section \<open>Device MCP messages\<close>

record vision_capability =
  vc_url :: rstr
  vc_token :: rstr

datatype mcp_incoming =
    McpResult nat json
  | McpError nat int rstr
  | McpNotification rstr "json option"

datatype mcp_outgoing =
    McpInitialize nat "vision_capability option"
  | McpToolsList nat "rstr option"
  | McpToolsCall nat rstr "(rstr \<times> json) list"

definition jstr :: "string \<Rightarrow> json" where
  "jstr s = JString (lit s)"

definition jnat :: "nat \<Rightarrow> json" where
  "jnat n = JNumber (PosInt n)"

fun mcp_payload :: "mcp_outgoing \<Rightarrow> json" where
  "mcp_payload (McpInitialize i vision) = JObject
     [(lit ''jsonrpc'', jstr ''2.0''), (lit ''id'', jnat i), (lit ''method'', jstr ''initialize''),
      (lit ''params'', JObject
        [(lit ''protocolVersion'', jstr ''2024-11-05''),
         (lit ''capabilities'', (case vision of None \<Rightarrow> JObject []
            | Some v \<Rightarrow> JObject [(lit ''vision'', JObject
                [(lit ''url'', JString (vc_url v)), (lit ''token'', JString (vc_token v))])])),
         (lit ''clientInfo'', JObject [(lit ''name'', jstr ''vela-server''), (lit ''version'', jstr ''0.1.0'')])])]"
| "mcp_payload (McpToolsList i cursor) = JObject
     ([(lit ''jsonrpc'', jstr ''2.0''), (lit ''id'', jnat i), (lit ''method'', jstr ''tools/list'')] @
      (case cursor of None \<Rightarrow> [] | Some c \<Rightarrow> [(lit ''params'', JObject [(lit ''cursor'', JString c)])]))"
| "mcp_payload (McpToolsCall i name arguments) = JObject
     [(lit ''jsonrpc'', jstr ''2.0''), (lit ''id'', jnat i), (lit ''method'', jstr ''tools/call''),
      (lit ''params'', JObject [(lit ''name'', JString name), (lit ''arguments'', JObject arguments)])]"

definition parse_incoming :: "json \<Rightarrow> mcp_incoming option" where
  "parse_incoming payload =
     (if get_str payload (lit ''jsonrpc'') \<noteq> Some (lit ''2.0'') then None
      else (case get_str payload (lit ''method'') of
              Some method \<Rightarrow> Some (McpNotification method (json_get payload (lit ''params'')))
            | None \<Rightarrow>
                (case Option.bind (json_get payload (lit ''id'')) as_u64 of
                   None \<Rightarrow> None
                 | Some i \<Rightarrow>
                     (case json_get payload (lit ''result'') of
                        Some result \<Rightarrow> Some (McpResult i result)
                      | None \<Rightarrow>
                          (case json_get payload (lit ''error'') of
                             Some (JObject kvs) \<Rightarrow>
                               (case Option.bind (hm_get kvs (lit ''code'')) as_i64 of
                                  None \<Rightarrow> None
                                | Some code \<Rightarrow>
                                    (case Option.bind (hm_get kvs (lit ''message'')) as_str of
                                       None \<Rightarrow> None
                                     | Some message \<Rightarrow> Some (McpError i code message)))
                           | _ \<Rightarrow> None)))))"

section \<open>Client messages\<close>

datatype listen_mode = ModeManual | ModeAuto | ModeRealtime

datatype listen_command = ListenStart listen_mode | ListenStop | ListenDetect rstr

datatype reminder_event =
    SyncRequest "int option"
  | SyncAck rstr int "int option"
  | Played rstr rstr
  | ReminderFailed rstr rstr rstr

datatype client_message =
    Hello client_hello
  | Listen "rstr option" listen_command
  | Abort "rstr option"
  | Mcp "rstr option" mcp_incoming
  | Reminder rstr reminder_event
  | Unknown

text \<open>\<open>None\<close>: the message carries a session id that is not a string.\<close>

definition parse_session_id :: "json \<Rightarrow> rstr option option" where
  "parse_session_id v =
     (case json_get v (lit ''session_id'') of
        None \<Rightarrow> Some None
      | Some (JString s) \<Rightarrow> Some (Some s)
      | Some _ \<Rightarrow> None)"

definition listen_command_of :: "json \<Rightarrow> listen_command option" where
  "listen_command_of v =
     (let state = get_str v (lit ''state''); mode = get_str v (lit ''mode'') in
      if state = Some (lit ''start'')
      then (if mode = Some (lit ''manual'') then Some (ListenStart ModeManual)
            else if mode = Some (lit ''auto'') then Some (ListenStart ModeAuto)
            else if mode = Some (lit ''realtime'') then Some (ListenStart ModeRealtime)
            else None)
      else if state = Some (lit ''stop'') then Some ListenStop
      else if state = Some (lit ''detect'') then map_option ListenDetect (get_str v (lit ''text''))
      else None)"

definition parse_listen_command :: "json \<Rightarrow> client_message" where
  "parse_listen_command v =
     (case parse_session_id v of
        None \<Rightarrow> Unknown
      | Some session_id \<Rightarrow>
          (case listen_command_of v of None \<Rightarrow> Unknown | Some c \<Rightarrow> Listen session_id c))"

definition parse_mcp_message :: "json \<Rightarrow> client_message" where
  "parse_mcp_message v =
     (case parse_session_id v of
        None \<Rightarrow> Unknown
      | Some session_id \<Rightarrow>
          (case Option.bind (json_get v (lit ''payload'')) parse_incoming of
             None \<Rightarrow> Unknown
           | Some payload \<Rightarrow> Mcp session_id payload))"

definition bounded_id :: "json \<Rightarrow> string \<Rightarrow> rstr option" where
  "bounded_id v name =
     Option.bind (get_str v (lit name)) (\<lambda>s. if s \<noteq> [] \<and> byte_len s \<le> 128 then Some s else None)"

definition get_i64 :: "json \<Rightarrow> string \<Rightarrow> int option" where
  "get_i64 v name = Option.bind (json_get v (lit name)) as_i64"

definition sync_ack_of :: "json \<Rightarrow> reminder_event option" where
  "sync_ack_of v =
     (case bounded_id v ''snapshot_id'' of
        None \<Rightarrow> None
      | Some snapshot_id \<Rightarrow>
          (case get_i64 v ''revision'' of
             None \<Rightarrow> None
           | Some revision \<Rightarrow>
               if revision < 0 then None
               else (case json_get v (lit ''next_wake_at_ms'') of
                       None \<Rightarrow> Some (SyncAck snapshot_id revision None)
                     | Some n \<Rightarrow> map_option (\<lambda>i. SyncAck snapshot_id revision (Some i)) (as_i64 n))))"

definition failure_reason :: "rstr \<Rightarrow> bool" where
  "failure_reason r =
     (r = lit ''output_unavailable'' \<or> r = lit ''playback_aborted'' \<or> r = lit ''decode_failed'')"

definition reminder_event_of :: "json \<Rightarrow> reminder_event option" where
  "reminder_event_of v =
     (let event = get_str v (lit ''event'') in
      if event = Some (lit ''sync_request'') then Some (SyncRequest (get_i64 v ''known_revision''))
      else if event = Some (lit ''sync_ack'') then sync_ack_of v
      else if event = Some (lit ''played'')
      then (case (bounded_id v ''reminder_id'', bounded_id v ''attempt_id'') of
              (Some r, Some a) \<Rightarrow> Some (Played r a)
            | _ \<Rightarrow> None)
      else if event = Some (lit ''failed'')
      then (case (bounded_id v ''reminder_id'', bounded_id v ''attempt_id'', bounded_id v ''reason'') of
              (Some r, Some a, Some reason) \<Rightarrow>
                if failure_reason reason then Some (ReminderFailed r a reason) else None
            | _ \<Rightarrow> None)
      else None)"

definition parse_reminder_message :: "json \<Rightarrow> client_message" where
  "parse_reminder_message v =
     (case parse_session_id v of
        Some (Some session_id) \<Rightarrow>
          (case reminder_event_of v of None \<Rightarrow> Unknown | Some e \<Rightarrow> Reminder session_id e)
      | _ \<Rightarrow> Unknown)"

definition classify_message :: "json \<Rightarrow> protocol_error + client_message" where
  "classify_message v =
     (let t = get_str v (lit ''type'') in
      if t = Some (lit ''hello'')
      then (case de_hello v of None \<Rightarrow> Inl InvalidHello | Some h \<Rightarrow> Inr (Hello h))
      else if t = Some (lit ''listen'') then Inr (parse_listen_command v)
      else if t = Some (lit ''abort'')
      then Inr (case parse_session_id v of None \<Rightarrow> Unknown | Some s \<Rightarrow> Abort s)
      else if t = Some (lit ''mcp'') then Inr (parse_mcp_message v)
      else if t = Some (lit ''reminder'') then Inr (parse_reminder_message v)
      else Inr Unknown)"

definition parse_client_message :: "(rstr \<Rightarrow> json option) \<Rightarrow> rstr \<Rightarrow> protocol_error + client_message" where
  "parse_client_message parse_json s =
     (case parse_json s of None \<Rightarrow> Inl MalformedJson | Some v \<Rightarrow> classify_message v)"

section \<open>The tool catalogue of a device\<close>

record discovered_tool =
  dt_original_name :: rstr
  dt_description :: rstr
  dt_input_schema :: json

record llm_visible_tool =
  vt_llm_name :: rstr
  vt_original_name :: rstr
  vt_description :: rstr
  vt_input_schema :: json

definition tool_name_char :: "rchar \<Rightarrow> bool" where
  "tool_name_char c = (is_ascii_alphanumeric c \<or> c = chr CHR ''_'' \<or> c = chr CHR ''-'')"

definition sanitize_tool_name :: "rstr \<Rightarrow> rstr" where
  "sanitize_tool_name name = map (\<lambda>c. if tool_name_char c then c else chr CHR ''_'') name"

definition to_visible :: "discovered_tool list \<Rightarrow> llm_visible_tool list" where
  "to_visible ds = map (\<lambda>t. \<lparr>vt_llm_name = sanitize_tool_name (dt_original_name t),
     vt_original_name = dt_original_name t, vt_description = dt_description t,
     vt_input_schema = dt_input_schema t\<rparr>) ds"

text \<open>The two counters of \<open>visible_tools\<close>: how often each name occurs.\<close>

definition bump :: "rstr \<Rightarrow> (rstr, nat) hmap \<Rightarrow> (rstr, nat) hmap" where
  "bump k m = hm_insert k (case hm_get m k of None \<Rightarrow> 1 | Some n \<Rightarrow> n + 1) m"

fun count_names ::
    "discovered_tool list \<Rightarrow> (rstr, nat) hmap \<Rightarrow> (rstr, nat) hmap \<Rightarrow> ((rstr, nat) hmap \<times> (rstr, nat) hmap) option" where
  "count_names [] original_names llm_names = Some (original_names, llm_names)"
| "count_names (t # ts) original_names llm_names =
     (let llm_name = sanitize_tool_name (dt_original_name t)
      in if llm_name = [] then None
         else count_names ts (bump (dt_original_name t) original_names) (bump llm_name llm_names))"

definition visible_tools :: "discovered_tool list \<Rightarrow> llm_visible_tool list option" where
  "visible_tools ds =
     (case count_names ds [] [] of
        None \<Rightarrow> None
      | Some (original_names, llm_names) \<Rightarrow>
          if list_ex (\<lambda>n. n \<noteq> 1) (hm_values original_names) \<or> list_ex (\<lambda>n. n \<noteq> 1) (hm_values llm_names)
          then None else Some (to_visible ds))"

definition parse_tool :: "json \<Rightarrow> discovered_tool option" where
  "parse_tool tool =
     Option.bind (get_str tool (lit ''name'')) (\<lambda>name.
     Option.bind (json_get tool (lit ''inputSchema'')) (\<lambda>schema.
     Some \<lparr>dt_original_name = name,
           dt_description = (case get_str tool (lit ''description'') of None \<Rightarrow> [] | Some d \<Rightarrow> d),
           dt_input_schema = schema\<rparr>))"

fun collect_options :: "'a option list \<Rightarrow> 'a list option" where
  "collect_options [] = Some []"
| "collect_options (None # xs) = None"
| "collect_options (Some x # xs) = map_option (\<lambda>ys. x # ys) (collect_options xs)"

definition parse_tools_page :: "json \<Rightarrow> (discovered_tool list \<times> rstr option) option" where
  "parse_tools_page result =
     Option.bind (as_object result) (\<lambda>kvs.
     Option.bind (Option.bind (hm_get kvs (lit ''tools'')) as_array) (\<lambda>vs.
     Option.bind (collect_options (map parse_tool vs)) (\<lambda>tools.
     Some (tools, Option.bind (Option.bind (hm_get kvs (lit ''nextCursor'')) as_str)
                    (\<lambda>c. if c \<noteq> [] then Some c else None)))))"

section \<open>Direct speech\<close>

datatype direct_speech_error =
    InvalidText | InvalidRequestId | InvalidSession | Unauthorized | UnsupportedFeature | SessionBusy
  | CapacityReached | TtsUnavailable | DeviceOffline | RateLimited | SpeechShuttingDown

fun direct_speech_error_code :: "direct_speech_error \<Rightarrow> string" where
  "direct_speech_error_code InvalidText = ''invalid_text''"
| "direct_speech_error_code InvalidRequestId = ''invalid_request_id''"
| "direct_speech_error_code InvalidSession = ''invalid_session''"
| "direct_speech_error_code Unauthorized = ''unauthorized''"
| "direct_speech_error_code UnsupportedFeature = ''unsupported_feature''"
| "direct_speech_error_code SessionBusy = ''session_busy''"
| "direct_speech_error_code CapacityReached = ''capacity_reached''"
| "direct_speech_error_code TtsUnavailable = ''tts_unavailable''"
| "direct_speech_error_code DeviceOffline = ''device_offline''"
| "direct_speech_error_code RateLimited = ''rate_limited''"
| "direct_speech_error_code SpeechShuttingDown = ''shutting_down''"

definition request_id_char :: "rchar \<Rightarrow> bool" where
  "request_id_char c = (is_ascii_alphanumeric c \<or> c \<in> {95, 46, 58, 45})"

text \<open>A non-ASCII character has bytes above 127, none of which is allowed, so the byte test is one on characters.\<close>

definition validate_direct_speech :: "rstr \<Rightarrow> rstr \<Rightarrow> direct_speech_error + unit" where
  "validate_direct_speech request_id spoken_text =
     (if request_id = [] \<or> 128 < byte_len request_id \<or> \<not> list_all request_id_char request_id
      then Inl InvalidRequestId
      else if trim spoken_text = [] \<or> 1024 < length spoken_text \<or> 4096 < byte_len spoken_text \<or>
              list_ex (\<lambda>c. is_control c \<and> c \<noteq> 10 \<and> c \<noteq> 9) spoken_text
      then Inl InvalidText
      else Inr ())"

section \<open>Properties\<close>

lemma lit_eq_iff [simp]: "lit s = lit t \<longleftrightarrow> s = t"
proof
  have inj: "inj (of_char :: char \<Rightarrow> nat)" by (rule injI) simp
  assume "lit s = lit t"
  then show "s = t" unfolding lit_def using inj_map_eq_map [OF inj] by blast
qed simp

text \<open>What the handlers may rely on in a message that was accepted.\<close>

definition id_ok :: "rstr \<Rightarrow> bool" where
  "id_ok s = (s \<noteq> [] \<and> byte_len s \<le> 128)"

fun event_ok :: "reminder_event \<Rightarrow> bool" where
  "event_ok (SyncRequest r) = True"
| "event_ok (SyncAck s r n) = (id_ok s \<and> 0 \<le> r)"
| "event_ok (Played r a) = (id_ok r \<and> id_ok a)"
| "event_ok (ReminderFailed r a reason) = (id_ok r \<and> id_ok a \<and> failure_reason reason)"

fun message_ok :: "client_message \<Rightarrow> bool" where
  "message_ok (Hello h) = (ch_message_type h = lit ''hello'')"
| "message_ok (Reminder s e) = event_ok e"
| "message_ok _ = True"

lemma bounded_id_ok: "bounded_id v name = Some s \<Longrightarrow> id_ok s"
  by (auto simp: bounded_id_def id_ok_def split: bind_splits if_splits)

lemma reminder_event_ok: "reminder_event_of v = Some e \<Longrightarrow> event_ok e"
  by (auto simp: reminder_event_of_def sync_ack_of_def Let_def dest!: bounded_id_ok
      split: if_splits option.splits prod.splits)

text \<open>
  C34: accepted messages are well typed. A hello carries the type \<open>hello\<close>; every id of a reminder
  event has 1 to 128 bytes, a revision is not negative, and a failure reason is one of the three
  bounded ones. Only malformed JSON and a hello that does not deserialise are errors; everything
  else is \<open>Unknown\<close>.
\<close>

theorem parsed_message_well_typed:
  "case parse_client_message parse_json s of
     Inr m \<Rightarrow> message_ok m
   | Inl e \<Rightarrow> (e = MalformedJson \<and> parse_json s = None) \<or>
       (e = InvalidHello \<and> Option.bind (parse_json s) (\<lambda>v. get_str v (lit ''type'')) = Some (lit ''hello''))"
proof (cases "parse_json s")
  case None
  then show ?thesis by (simp add: parse_client_message_def)
next
  case (Some v)
  have hello: "ch_message_type h = lit ''hello''" if "de_hello v = Some h" "get_str v (lit ''type'') = Some (lit ''hello'')" for h
    using that by (auto simp: de_hello_def de_field_def get_str_def split: bind_splits option.splits)
  have rem: "message_ok (parse_reminder_message v)"
    by (auto simp: parse_reminder_message_def reminder_event_ok split: option.split)
  have other: "message_ok (parse_listen_command v)" "message_ok (parse_mcp_message v)"
      "message_ok (case parse_session_id v of None \<Rightarrow> Unknown | Some s \<Rightarrow> Abort s)"
    by (auto simp: parse_listen_command_def parse_mcp_message_def split: option.split)
  show ?thesis
    using hello rem other
    by (auto simp: Some parse_client_message_def classify_message_def Let_def split: option.split)
qed

text \<open>
  A reflected request is never an answer. Whatever request the server sends, a device that
  echoes the payload back produces a notification and cannot complete a pending call.
\<close>

lemma echoed_request_is_no_answer:
  "\<exists>method params. parse_incoming (mcp_payload out) = Some (McpNotification method params)"
  by (cases out) (auto simp: parse_incoming_def get_str_def jstr_def)

lemma bump_count:
  "hm_get (bump k m) x = (if x = k then Some (case hm_get m k of None \<Rightarrow> 1 | Some n \<Rightarrow> n + 1) else hm_get m x)"
  by (simp add: bump_def keyed_simps)

text \<open>The counters hold exactly the multiplicities of the names.\<close>

definition counts :: "(rstr, nat) hmap \<Rightarrow> rstr list \<Rightarrow> bool" where
  "counts m xs = (hm_wf m \<and> (\<forall>x. hm_get m x = (if x \<in> set xs then Some (count_list xs x) else None)))"

lemma counts_bump: "counts m xs \<Longrightarrow> counts (bump k m) (k # xs)"
  by (auto simp: counts_def bump_count) (auto simp: bump_def intro: hm_wf_insert)

lemma counts_fold: "counts m xs \<Longrightarrow> counts (fold bump ks m) (rev ks @ xs)"
proof (induction ks arbitrary: m xs)
  case (Cons k ks)
  from Cons.IH [OF counts_bump [OF Cons.prems]] show ?case by simp
qed simp

lemma counts_Nil: "counts [] []"
  by (simp add: counts_def)

lemma distinct_count_list: "distinct xs \<longleftrightarrow> (\<forall>x\<in>set xs. count_list xs x = 1)"
proof (induction xs)
  case (Cons a xs)
  show ?case
  proof (cases "a \<in> set xs")
    case True
    then have "count_list xs a \<noteq> 0" by (simp add: count_list_0_iff)
    with True show ?thesis by auto
  next
    case False
    with Cons show ?thesis by auto
  qed
qed simp

lemma counts_all_one:
  assumes "counts m xs"
  shows "list_ex (\<lambda>n. n \<noteq> 1) (hm_values m) \<longleftrightarrow> \<not> distinct xs"
proof -
  from assms have wf: "hm_wf m" and get: "\<And>x. hm_get m x = (if x \<in> set xs then Some (count_list xs x) else None)"
    by (auto simp: counts_def)
  have "(k, n) \<in> set m \<longleftrightarrow> k \<in> set xs \<and> n = count_list xs k" for k n
    using hm_get_iff_mem [OF wf, of k n] get by (auto split: if_splits)
  then have "snd ` set m = count_list xs ` set xs" by force
  then show ?thesis by (auto simp: hm_values_def list_ex_iff distinct_count_list)
qed

lemma sanitize_empty [simp]: "sanitize_tool_name s = [] \<longleftrightarrow> s = []"
  by (simp add: sanitize_tool_name_def)

lemma count_names_fold:
  "count_names ts m n =
     (if list_ex (\<lambda>t. dt_original_name t = []) ts then None
      else Some (fold bump (map dt_original_name ts) m,
                 fold bump (map (\<lambda>t. sanitize_tool_name (dt_original_name t)) ts) n))"
  by (induction ts arbitrary: m n) (auto simp: Let_def)

lemma visible_tools_iff:
  "visible_tools ds =
     (if list_all (\<lambda>t. dt_original_name t \<noteq> []) ds \<and> distinct (map dt_original_name ds) \<and>
         distinct (map (\<lambda>t. sanitize_tool_name (dt_original_name t)) ds)
      then Some (to_visible ds) else None)"
proof -
  have "list_ex (\<lambda>n. n \<noteq> 1) (hm_values (fold bump ks [])) \<longleftrightarrow> \<not> distinct ks" for ks :: "rstr list"
    using counts_all_one [OF counts_fold [OF counts_Nil, of ks]] by simp
  then show ?thesis
    by (auto simp: visible_tools_def count_names_fold list_all_iff list_ex_iff)
qed

lemma sanitize_chars: "list_all tool_name_char (sanitize_tool_name s)"
  by (auto simp: sanitize_tool_name_def list_all_iff tool_name_char_def)

text \<open>
  C35: the model's tool names resolve to one device tool each. A complete discovery is accepted
  exactly when every tool has a name, no two tools share one, and no two names collide once they are
  sanitised; then every tool is visible under its own name, made of letters, digits, underscores and
  dashes, and a name the model calls belongs to exactly one tool.
\<close>

theorem visible_tools_unambiguous:
  "case visible_tools ds of
     Some vs \<Rightarrow> map vt_original_name vs = map dt_original_name ds \<and>
       distinct (map vt_original_name vs) \<and> distinct (map vt_llm_name vs) \<and>
       list_all (\<lambda>v. vt_llm_name v \<noteq> [] \<and> list_all tool_name_char (vt_llm_name v)) vs \<and>
       list_all (\<lambda>v. filter (\<lambda>u. vt_llm_name u = vt_llm_name v) vs = [v]) vs
   | None \<Rightarrow> \<not> (list_all (\<lambda>t. dt_original_name t \<noteq> []) ds \<and>
       distinct (map (\<lambda>t. sanitize_tool_name (dt_original_name t)) ds))"
proof (cases "visible_tools ds")
  case None
  have "distinct (map (\<lambda>t. sanitize_tool_name (dt_original_name t)) ds) \<Longrightarrow> distinct (map dt_original_name ds)"
    using distinct_map [of sanitize_tool_name "map dt_original_name ds"] by (simp add: o_def)
  with None show ?thesis by (auto simp: visible_tools_iff list_all_iff list_ex_iff split: if_splits)
next
  case (Some vs)
  then have vs: "vs = to_visible ds" and ok: "list_all (\<lambda>t. dt_original_name t \<noteq> []) ds"
      "distinct (map dt_original_name ds)" "distinct (map (\<lambda>t. sanitize_tool_name (dt_original_name t)) ds)"
    by (auto simp: visible_tools_iff split: if_splits)
  have names: "map vt_llm_name vs = map (\<lambda>t. sanitize_tool_name (dt_original_name t)) ds"
      "map vt_original_name vs = map dt_original_name ds"
    by (simp_all add: vs to_visible_def)
  have one: "filter (\<lambda>u. f u = f v) xs = [v]" if "distinct (map f xs)" "v \<in> set xs" for f :: "llm_visible_tool \<Rightarrow> rstr" and v xs
    using that by (induction xs) (auto simp: filter_empty_conv image_iff)
  show ?thesis
    using ok names one [of vt_llm_name vs] sanitize_chars
    by (simp add: Some) (auto simp: vs to_visible_def list_all_iff)
qed

text \<open>
  An accepted direct speech request is bounded and printable. Its id has 1 to 128 ASCII
  characters out of letters, digits, underscore, full stop, colon and dash; its text is not blank, has at most
  1024 characters in at most 4096 bytes and no control character but newline and tab.
\<close>

lemma direct_speech_bounded:
  "validate_direct_speech i s = Inr () \<longleftrightarrow>
     0 < length i \<and> length i \<le> 128 \<and> list_all (\<lambda>c. c < 128 \<and> request_id_char c) i \<and>
     list_ex (\<lambda>c. \<not> is_whitespace c) s \<and> length s \<le> 1024 \<and> byte_len s \<le> 4096 \<and>
     list_all (\<lambda>c. is_control c \<longrightarrow> c = 10 \<or> c = 9) s"
proof -
  have ascii: "request_id_char c \<Longrightarrow> c < 128" for c
    by (auto simp: request_id_char_def is_ascii_alphanumeric_def is_ascii_digit_def)
  have "list_all request_id_char i \<Longrightarrow> byte_len i = length i"
    using ascii by (induction i) (auto simp: len_utf8_def)
  then show ?thesis
    using ascii by (auto simp: validate_direct_speech_def list_all_iff list_ex_iff trim_empty_iff)
qed

end
