(* ===== verification/Tts_Runtime.thy ===== *)
theory Tts_Runtime
  imports Capacity Downlink Text
begin

text \<open>
  The native TTS worker pool (\<open>workers/tts/mod.rs\<close>, \<open>stream.rs\<close>, \<open>pool.rs\<close>, \<open>diagnostic.rs\<close>): leases
  and streams over a fixed set of worker threads. Every method holds the state mutex for its whole
  body, so each is one function on the pool; the loop of a worker thread is a group of steps between
  them. A permit is an index list into the store of admission states (theory Capacity) and is given
  back when the slot that owns it is dropped. The cells an \<open>Arc\<close> shares between a slot and its worker
  (cancel flag, event channel) are fields of the slot, named by its lease. Ids are counted without
  the 64-bit bound.
\<close>

section \<open>Data\<close>

record 'f pcm_f32 =
  pf_samples :: "'f list"
  pf_rate :: nat

record tts_binding =
  tb_voice :: rstr
  tb_language :: rstr

definition binding_readiness :: tts_binding where
  "binding_readiness = \<lparr>tb_voice = lit ''__readiness__'', tb_language = lit ''und''\<rparr>"

record tts_request =
  tq_text :: rstr
  tq_selection :: tts_binding

record tts_diagnostic_request =
  td_text :: rstr
  td_voice :: "rstr option"
  td_language :: "rstr option"

datatype tts_work = VoiceWork tts_request | DiagnosticWork tts_request tts_diagnostic_request

fun work_selection :: "tts_work \<Rightarrow> tts_binding" where
  "work_selection (VoiceWork r) = tq_selection r"
| "work_selection (DiagnosticWork r _) = tq_selection r"

fun is_voice_work :: "tts_work \<Rightarrow> bool" where
  "is_voice_work (VoiceWork _) = True"
| "is_voice_work (DiagnosticWork _ _) = False"

datatype 'f tts_event =
    TtsPcm "'f pcm_f32" | TtsFinished | TtsFailed | TtsCancelled | TtsTimedOut | TtsCleanupTimedOut

fun is_terminal :: "'f tts_event \<Rightarrow> bool" where
  "is_terminal TtsFinished = True"
| "is_terminal TtsFailed = True"
| "is_terminal TtsCancelled = True"
| "is_terminal _ = False"

datatype tts_error =
    TtsCapacity | TtsInitialization | TtsQuarantined | TtsInvalidConfig | TtsBindingMismatch | TtsUnknownLease

datatype worker_command = CmdStart tts_work nat | CmdReset | CmdShutdown

record worker =
  wk_commands :: "worker_command list"
  wk_alive :: bool
  wk_running :: "nat option"
  wk_busy :: bool
  wk_stream :: "nat option"
  wk_quarantined :: bool
  wk_healthy :: bool
  wk_reset_pending :: bool
  wk_reset_notified :: nat

record 'f slot =
  sl_worker :: nat
  sl_stream :: "nat option"
  sl_cancelled :: bool
  sl_events :: "'f tts_event list"
  sl_disconnected :: bool
  sl_deadline :: instant
  sl_refresh :: bool
  sl_cleanup_deadline :: "instant option"
  sl_quarantined :: bool
  sl_cleanup_reported :: bool
  sl_permit :: "capacity_permit option"

record stream_record =
  sr_worker :: "nat option"
  sr_binding :: tts_binding

record 'f tts_pool =
  tp_closed :: bool
  tp_unloading :: bool
  tp_unloaded :: bool
  tp_next :: u64
  tp_next_stream :: u64
  tp_slots :: "(nat, 'f slot) hmap"
  tp_streams :: "(nat, stream_record) hmap"
  tp_closed_streams :: "nat list"
  tp_workers :: "worker list"
  tp_store :: adm_store

record worker_config =
  wc_max_workers :: usize
  wc_voice_reserved :: usize
  wc_command_capacity :: usize
  wc_final_timeout :: nat
  wc_cleanup_grace :: nat

text \<open>What a handle of the runtime adds to the shared pool: its quota, its binding, the configuration.\<close>

record tts_view =
  tv_admission :: admission
  tv_binding :: tts_binding
  tv_config :: worker_config

section \<open>Construction\<close>

definition config_valid :: "worker_config \<Rightarrow> bool" where
  "config_valid c \<longleftrightarrow>
     0 < wc_max_workers c \<and> 0 < wc_voice_reserved c \<and> wc_voice_reserved c \<le> wc_max_workers c \<and>
     0 < wc_command_capacity c \<and> 0 < wc_final_timeout c \<and> 0 < wc_cleanup_grace c"

definition worker_default_config :: "worker_config" where
  "worker_default_config = \<lparr>wc_max_workers = 8, wc_voice_reserved = 1, wc_command_capacity = 32,
     wc_final_timeout = 15000, wc_cleanup_grace = 5000\<rparr>"

definition worker_new :: worker where
  "worker_new = \<lparr>wk_commands = [], wk_alive = True, wk_running = None, wk_busy = False, wk_stream = None,
     wk_quarantined = False, wk_healthy = True, wk_reset_pending = False, wk_reset_notified = 0\<rparr>"

text \<open>
  How starting one worker ends: it acknowledged its warm-up, the thread could not be spawned, or it
  ended without acknowledging (\<open>exited\<close> is false when it panicked).
\<close>

datatype worker_start = Acknowledged | NotSpawned | NotReady bool

text \<open>\<open>joined\<close> is whether \<open>stop_and_join\<close> of the workers started so far joined every thread cleanly.\<close>

fun start_workers :: "bool \<Rightarrow> worker_start list \<Rightarrow> worker list \<Rightarrow> tts_error + worker list" where
  "start_workers joined [] ws = Inr ws"
| "start_workers joined (Acknowledged # outcomes) ws = start_workers joined outcomes (ws @ [worker_new])"
| "start_workers joined (NotSpawned # outcomes) ws = Inl (if joined then TtsInitialization else TtsQuarantined)"
| "start_workers joined (NotReady exited # outcomes) ws =
     Inl (if exited \<and> joined then TtsInitialization else TtsQuarantined)"

definition pool_new :: "worker_config \<Rightarrow> bool \<Rightarrow> (nat \<Rightarrow> worker_start) \<Rightarrow> adm_store \<Rightarrow> tts_error + 'f tts_pool" where
  "pool_new cfg joined outcomes store =
     (if \<not> config_valid cfg then Inl TtsInvalidConfig
      else (case start_workers joined (map outcomes [0..<wc_max_workers cfg]) [] of
              Inl e \<Rightarrow> Inl e
            | Inr ws \<Rightarrow> Inr \<lparr>tp_closed = False, tp_unloading = False, tp_unloaded = False, tp_next = 1,
                tp_next_stream = 1, tp_slots = [], tp_streams = [], tp_closed_streams = [], tp_workers = ws,
                tp_store = store\<rparr>))"

definition logical_view :: "admission \<Rightarrow> tts_binding \<Rightarrow> tts_view \<Rightarrow> tts_view" where
  "logical_view quota binding v = v\<lparr>tv_admission := composed quota (tv_admission v), tv_binding := binding\<rparr>"

section \<open>Streams\<close>

definition update_worker :: "nat \<Rightarrow> (worker \<Rightarrow> worker) \<Rightarrow> 'f tts_pool \<Rightarrow> 'f tts_pool" where
  "update_worker i f p = p\<lparr>tp_workers := (tp_workers p)[i := f (tp_workers p ! i)]\<rparr>"

definition update_slot :: "nat \<Rightarrow> ('f slot \<Rightarrow> 'f slot) \<Rightarrow> 'f tts_pool \<Rightarrow> 'f tts_pool" where
  "update_slot l f p = p\<lparr>tp_slots := hm_adjust l f (tp_slots p)\<rparr>"

text \<open>\<open>try_send\<close> fails, and nothing happens, when the queue is full or the worker thread has ended.\<close>

definition try_send_reset :: "usize \<Rightarrow> worker \<Rightarrow> worker" where
  "try_send_reset cap w =
     (if wk_alive w \<and> length (wk_commands w) < cap then w\<lparr>wk_commands := wk_commands w @ [CmdReset]\<rparr> else w)"

definition free_and_reset :: "usize \<Rightarrow> worker \<Rightarrow> worker" where
  "free_and_reset cap w = try_send_reset cap (w\<lparr>wk_busy := False, wk_stream := None, wk_reset_pending := True\<rparr>)"

definition begin_stream :: "tts_view \<Rightarrow> 'f tts_pool \<Rightarrow> nat \<times> 'f tts_pool" where
  "begin_stream v p =
     (let s = tp_next_stream p;
          q = p\<lparr>tp_next_stream := s + 1\<rparr>
      in (s, if tp_closed p then q
             else q\<lparr>tp_streams := hm_insert s \<lparr>sr_worker = None, sr_binding = tv_binding v\<rparr> (tp_streams p)\<rparr>))"

definition stream_in_use :: "nat \<Rightarrow> 'f tts_pool \<Rightarrow> bool" where
  "stream_in_use s p = list_ex (\<lambda>sl. sl_stream sl = Some s) (hm_values (tp_slots p))"

definition close_stream :: "tts_view \<Rightarrow> nat \<Rightarrow> 'f tts_pool \<Rightarrow> 'f tts_pool" where
  "close_stream v s p =
     (let q = p\<lparr>tp_streams := hm_remove s (tp_streams p)\<rparr>
      in (case Option.bind (hm_get (tp_streams p) s) sr_worker of
            None \<Rightarrow> q
          | Some i \<Rightarrow>
              if stream_in_use s p then q\<lparr>tp_closed_streams := List.insert s (tp_closed_streams p)\<rparr>
              else update_worker i (free_and_reset (wc_command_capacity (tv_config v))) q))"

section \<open>Leases\<close>

definition drop_permit_of :: "capacity_permit option \<Rightarrow> 'f tts_pool \<Rightarrow> 'f tts_pool" where
  "drop_permit_of permit p =
     (case permit of None \<Rightarrow> p | Some c \<Rightarrow> p\<lparr>tp_store := drop_permit c (tp_store p)\<rparr>)"

definition release_terminal :: "tts_view \<Rightarrow> nat \<Rightarrow> 'f tts_pool \<Rightarrow> 'f tts_pool" where
  "release_terminal v l p =
     (case hm_get (tp_slots p) l of
        None \<Rightarrow> p
      | Some sl \<Rightarrow>
          let q = p\<lparr>tp_slots := hm_remove l (tp_slots p)\<rparr>;
              closed = (case sl_stream sl of None \<Rightarrow> False | Some s \<Rightarrow> s \<in> set (tp_closed_streams p));
              r = (case sl_stream sl of
                     None \<Rightarrow> q
                   | Some s \<Rightarrow> q\<lparr>tp_closed_streams := removeAll s (tp_closed_streams p)\<rparr>);
              t = update_worker (sl_worker sl)
                    (if sl_stream sl = None \<or> closed
                     then free_and_reset (wc_command_capacity (tv_config v))
                     else (\<lambda>w. w\<lparr>wk_busy := False\<rparr>)) r
          in drop_permit_of (sl_permit sl) t)"

definition worker_free :: "worker \<Rightarrow> bool" where
  "worker_free w \<longleftrightarrow> \<not> wk_busy w \<and> \<not> wk_quarantined w \<and> wk_healthy w"

definition position :: "('a \<Rightarrow> bool) \<Rightarrow> 'a list \<Rightarrow> nat option" where
  "position P xs = List.find (\<lambda>i. P (xs ! i)) [0..<length xs]"

definition or_capacity :: "nat option \<Rightarrow> tts_error + nat" where
  "or_capacity x = (case x of None \<Rightarrow> Inl TtsCapacity | Some i \<Rightarrow> Inr i)"

definition choose_worker :: "nat option \<Rightarrow> tts_work \<Rightarrow> 'f tts_pool \<Rightarrow> tts_error + nat" where
  "choose_worker stream request p =
     (case stream of
        Some s \<Rightarrow>
          (case hm_get (tp_streams p) s of
             None \<Rightarrow> Inl TtsUnknownLease
           | Some record \<Rightarrow>
               if sr_binding record \<noteq> work_selection request then Inl TtsBindingMismatch
               else (case sr_worker record of
                       Some i \<Rightarrow> if worker_free (tp_workers p ! i) then Inr i else Inl TtsCapacity
                     | None \<Rightarrow> or_capacity (position worker_free (tp_workers p))))
      | None \<Rightarrow> or_capacity (position (\<lambda>w. worker_free w \<and> wk_stream w = None) (tp_workers p)))"

definition slot_new :: "tts_view \<Rightarrow> instant \<Rightarrow> nat \<Rightarrow> nat option \<Rightarrow> tts_work \<Rightarrow> capacity_permit option \<Rightarrow> 'f slot" where
  "slot_new v now i stream request permit =
     \<lparr>sl_worker = i, sl_stream = stream, sl_cancelled = False, sl_events = [], sl_disconnected = False,
      sl_deadline = now + wc_final_timeout (tv_config v), sl_refresh = is_voice_work request,
      sl_cleanup_deadline = None, sl_quarantined = False, sl_cleanup_reported = False, sl_permit = permit\<rparr>"

text \<open>The blocking \<open>send\<close> fails only when the worker thread has ended.\<close>

definition send_start :: "tts_work \<Rightarrow> nat \<Rightarrow> worker \<Rightarrow> worker" where
  "send_start request l w = w\<lparr>wk_commands := wk_commands w @ [CmdStart request l]\<rparr>"

definition occupy :: "nat option \<Rightarrow> nat \<Rightarrow> 'f tts_pool \<Rightarrow> 'f tts_pool" where
  "occupy stream i p =
     (case stream of
        None \<Rightarrow> update_worker i (\<lambda>w. w\<lparr>wk_busy := True\<rparr>) p
      | Some s \<Rightarrow>
          (update_worker i (\<lambda>w. w\<lparr>wk_busy := True, wk_stream := Some s\<rparr>) p)
            \<lparr>tp_streams := hm_adjust s (\<lambda>r. r\<lparr>sr_worker := Some i\<rparr>) (tp_streams p)\<rparr>)"

definition start_with_permit ::
    "tts_view \<Rightarrow> instant \<Rightarrow> nat option \<Rightarrow> tts_work \<Rightarrow> capacity_permit option \<Rightarrow> 'f tts_pool \<Rightarrow>
     (tts_error + nat) \<times> 'f tts_pool" where
  "start_with_permit v now stream request permit p =
     (if tp_closed p then (Inl TtsCapacity, drop_permit_of permit p)
      else (case choose_worker stream request p of
              Inl e \<Rightarrow> (Inl e, drop_permit_of permit p)
            | Inr i \<Rightarrow>
                let l = tp_next p;
                    q = (occupy stream i p)\<lparr>tp_next := l + 1,
                          tp_slots := hm_insert l (slot_new v now i stream request permit) (tp_slots p)\<rparr>
                in if wk_alive (tp_workers q ! i)
                   then (Inr l, update_worker i (send_start request l) q)
                   else (Inl TtsCapacity, release_terminal v l q)))"

definition start_internal ::
    "tts_view \<Rightarrow> instant \<Rightarrow> nat option \<Rightarrow> tts_work \<Rightarrow> bool \<Rightarrow> 'f tts_pool \<Rightarrow> (tts_error + nat) \<times> 'f tts_pool" where
  "start_internal v now stream request reserve p =
     (if reserve
      then (case try_admit (tp_store p) (tv_admission v) Voice of
              None \<Rightarrow> (Inl TtsCapacity, p)
            | Some (store, permit) \<Rightarrow>
                start_with_permit v now stream request (Some permit) (p\<lparr>tp_store := store\<rparr>))
      else start_with_permit v now stream request None p)"

definition tts_start :: "tts_view \<Rightarrow> instant \<Rightarrow> rstr \<Rightarrow> 'f tts_pool \<Rightarrow> (tts_error + nat) \<times> 'f tts_pool" where
  "tts_start v now text p =
     start_internal v now None (VoiceWork \<lparr>tq_text = text, tq_selection = tv_binding v\<rparr>) True p"

definition start_in_stream ::
    "tts_view \<Rightarrow> instant \<Rightarrow> nat \<Rightarrow> rstr \<Rightarrow> 'f tts_pool \<Rightarrow> (tts_error + nat) \<times> 'f tts_pool" where
  "start_in_stream v now s text p =
     start_internal v now (Some s) (VoiceWork \<lparr>tq_text = text, tq_selection = tv_binding v\<rparr>) True p"

definition start_background :: "tts_view \<Rightarrow> instant \<Rightarrow> rstr \<Rightarrow> 'f tts_pool \<Rightarrow> (tts_error + nat) \<times> 'f tts_pool" where
  "start_background v now text p =
     (case try_admit (tp_store p) (tv_admission v) Background of
        None \<Rightarrow> (Inl TtsCapacity, p)
      | Some (store, permit) \<Rightarrow>
          start_with_permit v now None (VoiceWork \<lparr>tq_text = text, tq_selection = tv_binding v\<rparr>)
            (Some permit) (p\<lparr>tp_store := store\<rparr>))"

definition admit_diagnostic :: "tts_view \<Rightarrow> 'f tts_pool \<Rightarrow> (capacity_permit \<times> 'f tts_pool) option" where
  "admit_diagnostic v p =
     (if tp_closed p then None
      else (case try_admit (tp_store p) (tv_admission v) Diagnostic of
              None \<Rightarrow> None
            | Some (store, permit) \<Rightarrow> Some (permit, p\<lparr>tp_store := store\<rparr>)))"

section \<open>Events and cancellation\<close>

definition quarantine_slot :: "nat \<Rightarrow> 'f tts_pool \<Rightarrow> 'f tts_pool" where
  "quarantine_slot l p =
     (case hm_get (tp_slots p) l of
        None \<Rightarrow> p
      | Some sl \<Rightarrow>
          update_worker (sl_worker sl) (\<lambda>w. w\<lparr>wk_quarantined := True\<rparr>)
            (update_slot l (\<lambda>sl. sl\<lparr>sl_quarantined := True, sl_cleanup_reported := True\<rparr>) p))"

definition extends_deadline :: "'f tts_event \<Rightarrow> 'f slot \<Rightarrow> bool" where
  "extends_deadline e sl =
     ((case e of TtsPcm pcm \<Rightarrow> pf_samples pcm \<noteq> [] | _ \<Rightarrow> False) \<and> sl_refresh sl \<and> sl_cleanup_deadline sl = None)"

definition deliver_event ::
    "tts_view \<Rightarrow> instant \<Rightarrow> nat \<Rightarrow> 'f slot \<Rightarrow> 'f tts_event \<Rightarrow> 'f tts_pool \<Rightarrow> 'f tts_pool" where
  "deliver_event v now l sl e p =
     (let q = (if extends_deadline e sl
               then update_slot l (\<lambda>sl. sl\<lparr>sl_deadline := now + wc_final_timeout (tv_config v)\<rparr>) p else p)
      in if is_terminal e then release_terminal v l q else q)"

text \<open>One call reads the clock once.\<close>

definition tts_poll ::
    "tts_view \<Rightarrow> instant \<Rightarrow> nat \<Rightarrow> 'f tts_pool \<Rightarrow> (tts_error + 'f tts_event option) \<times> 'f tts_pool" where
  "tts_poll v now l p =
     (case hm_get (tp_slots p) l of
        None \<Rightarrow> (Inl TtsUnknownLease, p)
      | Some sl \<Rightarrow>
          if sl_quarantined sl then (Inr None, p)
          else if (case sl_cleanup_deadline sl of None \<Rightarrow> False | Some d \<Rightarrow> d \<le> now) \<and> \<not> sl_cleanup_reported sl
          then (Inr (Some TtsCleanupTimedOut), quarantine_slot l p)
          else (case sl_events sl of
                  e # es \<Rightarrow>
                    (Inr (Some e), deliver_event v now l sl e (update_slot l (\<lambda>sl. sl\<lparr>sl_events := es\<rparr>) p))
                | [] \<Rightarrow>
                    if sl_disconnected sl then (Inr (Some TtsFailed), deliver_event v now l sl TtsFailed p)
                    else if sl_deadline sl \<le> now \<and> sl_cleanup_deadline sl = None
                    then (Inr (Some TtsTimedOut), update_slot l (\<lambda>sl. sl\<lparr>sl_cancelled := True,
                            sl_cleanup_deadline := Some (now + wc_cleanup_grace (tv_config v))\<rparr>) p)
                    else (Inr None, p)))"

definition tts_cancel :: "tts_view \<Rightarrow> instant \<Rightarrow> nat \<Rightarrow> 'f tts_pool \<Rightarrow> (tts_error + unit) \<times> 'f tts_pool" where
  "tts_cancel v now l p =
     (case hm_get (tp_slots p) l of
        None \<Rightarrow> (Inl TtsUnknownLease, p)
      | Some sl \<Rightarrow> (Inr (), update_slot l (\<lambda>sl. sl\<lparr>sl_cancelled := True,
                       sl_cleanup_deadline := Some (now + wc_cleanup_grace (tv_config v))\<rparr>) p))"

text \<open>\<open>cancel_and_detach\<close> adds the lease to those a detached thread watches.\<close>

definition cancel_and_detach ::
    "tts_view \<Rightarrow> instant \<Rightarrow> nat \<Rightarrow> 'f tts_pool \<times> nat list \<Rightarrow> (tts_error + unit) \<times> 'f tts_pool \<times> nat list" where
  "cancel_and_detach v now l w =
     (case w of (p, watched) \<Rightarrow>
        (case tts_cancel v now l p of
           (Inl e, q) \<Rightarrow> (Inl e, q, watched)
         | (Inr _, q) \<Rightarrow> (Inr (), q, l # watched)))"

text \<open>
  The thread \<open>cancel_and_detach\<close> spawns: one reception of its loop. The first component says whether
  the thread has ended; \<open>expired\<close> is whether its deadline has passed. When the slot is gone neither end
  of the loop changes anything.
\<close>

definition detach_pass :: "tts_view \<Rightarrow> bool \<Rightarrow> nat \<Rightarrow> 'f tts_pool \<Rightarrow> bool \<times> 'f tts_pool" where
  "detach_pass v expired l p =
     (case hm_get (tp_slots p) l of
        None \<Rightarrow> (True, p)
      | Some sl \<Rightarrow>
          if expired then (True, quarantine_slot l p)
          else (case sl_events sl of
                  [] \<Rightarrow> if sl_disconnected sl then (True, quarantine_slot l p) else (False, p)
                | e # es \<Rightarrow>
                    let q = update_slot l (\<lambda>sl. sl\<lparr>sl_events := es\<rparr>) p
                    in if is_terminal e then (True, release_terminal v l q)
                       else (case e of TtsPcm _ \<Rightarrow> (False, q) | _ \<Rightarrow> (True, quarantine_slot l q))))"

section \<open>Shutdown\<close>

text \<open>The first locked section: an answer, or the workers are taken to be joined.\<close>

definition shutdown_begin :: "tts_view \<Rightarrow> 'f tts_pool \<Rightarrow> bool option \<times> 'f tts_pool" where
  "shutdown_begin v p0 =
     (let p = p0\<lparr>tp_closed := True\<rparr>
      in if tp_unloaded p then (Some True, p)
         else if tp_unloading p \<or> tp_slots p \<noteq> [] \<or> tp_streams p \<noteq> [] \<or> active_work (tp_store p) (tv_admission v) \<noteq> 0
         then (Some False, p)
         else (None, p\<lparr>tp_unloading := True, tp_workers := []\<rparr>))"

definition shutdown_end :: "bool \<Rightarrow> 'f tts_pool \<Rightarrow> 'f tts_pool" where
  "shutdown_end joined p = p\<lparr>tp_unloaded := joined, tp_unloading := \<not> joined\<rparr>"

definition shutdown_acknowledged :: "tts_view \<Rightarrow> bool \<Rightarrow> 'f tts_pool \<Rightarrow> bool \<times> 'f tts_pool" where
  "shutdown_acknowledged v joined p =
     (case shutdown_begin v p of
        (Some answer, q) \<Rightarrow> (answer, q)
      | (None, q) \<Rightarrow> (joined, shutdown_end joined q))"

definition reset_pending :: "'f tts_pool \<Rightarrow> bool" where
  "reset_pending p = list_ex wk_reset_pending (tp_workers p)"

definition pilot_work_pending :: "tts_view \<Rightarrow> 'f tts_pool \<Rightarrow> bool" where
  "pilot_work_pending v p = (view_usage (tp_store p) (tv_admission v) \<noteq> 0 \<or> reset_pending p)"

definition active_leases :: "'f tts_pool \<Rightarrow> nat" where
  "active_leases p = length (tp_slots p)"

section \<open>The worker threads\<close>

text \<open>
  A worker that ends drops its queue, and with it the senders of the starts that still wait in it.
\<close>

definition queued_leases :: "worker \<Rightarrow> nat list" where
  "queued_leases w = [l. CmdStart _ l \<leftarrow> wk_commands w]"

definition end_worker :: "nat \<Rightarrow> 'f tts_pool \<Rightarrow> 'f tts_pool" where
  "end_worker i p =
     (let q = fold (\<lambda>l. update_slot l (\<lambda>sl. sl\<lparr>sl_disconnected := True\<rparr>)) (queued_leases (tp_workers p ! i)) p
      in update_worker i (\<lambda>w. w\<lparr>wk_alive := False, wk_commands := []\<rparr>) q)"

definition acknowledge_reset :: "worker \<Rightarrow> worker" where
  "acknowledge_reset w = w\<lparr>wk_reset_pending := False, wk_reset_notified := wk_reset_notified w + 1\<rparr>"

text \<open>One turn of \<open>worker_loop\<close> up to the point where it synthesises or waits; \<open>ok\<close> is what the native
  \<open>reset\<close> answers.\<close>

definition worker_receive :: "bool \<Rightarrow> nat \<Rightarrow> 'f tts_pool \<Rightarrow> 'f tts_pool" where
  "worker_receive ok i p =
     (case wk_commands (tp_workers p ! i) of
        [] \<Rightarrow> p
      | c # cs \<Rightarrow>
          let q = update_worker i (\<lambda>w. w\<lparr>wk_commands := cs\<rparr>) p
          in (case c of
                CmdShutdown \<Rightarrow> end_worker i q
              | CmdReset \<Rightarrow>
                  if ok then update_worker i acknowledge_reset q
                  else end_worker i (update_worker i (\<lambda>w. (acknowledge_reset w)\<lparr>wk_healthy := False\<rparr>) q)
              | CmdStart _ l \<Rightarrow> update_worker i (\<lambda>w. w\<lparr>wk_running := Some l\<rparr>) q))"

text \<open>A chunk from the native code, while there is room in the channel and nobody cancelled.\<close>

definition worker_emit :: "usize \<Rightarrow> nat \<Rightarrow> 'f pcm_f32 \<Rightarrow> 'f tts_pool \<Rightarrow> 'f tts_pool" where
  "worker_emit cap l pcm p =
     (case hm_get (tp_slots p) l of
        None \<Rightarrow> p
      | Some sl \<Rightarrow>
          if sl_cancelled sl \<or> cap \<le> length (sl_events sl) then p
          else update_slot l (\<lambda>sl. sl\<lparr>sl_events := sl_events sl @ [TtsPcm pcm]\<rparr>) p)"

text \<open>The end of a synthesis: the terminal event, then the sender is dropped.\<close>

definition worker_finish :: "bool \<Rightarrow> nat \<Rightarrow> 'f tts_pool \<Rightarrow> 'f tts_pool" where
  "worker_finish ok i p =
     (case wk_running (tp_workers p ! i) of
        None \<Rightarrow> p
      | Some l \<Rightarrow>
          update_worker i (\<lambda>w. w\<lparr>wk_running := None\<rparr>)
            (update_slot l (\<lambda>sl. sl\<lparr>sl_disconnected := True, sl_events := sl_events sl @
               [if sl_cancelled sl then TtsCancelled else if ok then TtsFinished else TtsFailed]\<rparr>) p))"

end
