(* ===== verification/Tts_Safety.thy ===== *)
theory Tts_Safety
  imports Tts_Runtime "HOL-Library.Multiset"
begin

text \<open>
  What holds of the TTS pool between any two calls: the invariant of its tables, the accounting of the
  permits its leases own, and the phases a lease runs through.
\<close>

section \<open>The pool as a step system\<close>

text \<open>
  The pool, the handles of it, the admission views that exist, the permits of their states that no
  lease owns (diagnostics, other users of a quota) and the leases a detached thread watches. The
  admission states the pool starts with are those of any run of theory Capacity.
\<close>

record 'f tts_sys =
  ts_pool :: "'f tts_pool"
  ts_views :: "tts_view list"
  ts_adms :: "admission list"
  ts_outside :: "capacity_permit list"
  ts_watched :: "nat list"

definition tts_init :: "'f tts_sys \<Rightarrow> bool" where
  "tts_init s \<longleftrightarrow>
     (\<exists>a v joined outcomes. reach adm_sys_init adm_step a \<and> tv_admission v \<in> set (sys_views a) \<and>
        pool_new (tv_config v) joined outcomes (sys_store a) = Inr (ts_pool s) \<and>
        ts_views s = [v] \<and> ts_adms s = sys_views a \<and> ts_outside s = sys_live a \<and> ts_watched s = [])"

inductive tts_step :: "'f tts_sys \<Rightarrow> 'f tts_sys \<Rightarrow> bool" where
  tts_view: "v \<in> set (ts_views s) \<Longrightarrow> q \<in> set (ts_adms s) \<Longrightarrow> w = logical_view q b v \<Longrightarrow>
     tts_step s (s\<lparr>ts_views := w # ts_views s, ts_adms := tv_admission w # ts_adms s\<rparr>)"
| tts_begin: "v \<in> set (ts_views s) \<Longrightarrow> tts_step s (s\<lparr>ts_pool := snd (begin_stream v (ts_pool s))\<rparr>)"
| tts_close: "v \<in> set (ts_views s) \<Longrightarrow> tts_step s (s\<lparr>ts_pool := close_stream v i (ts_pool s)\<rparr>)"
| tts_start: "v \<in> set (ts_views s) \<Longrightarrow>
     tts_step s (s\<lparr>ts_pool := snd (start_internal v now stream request reserve (ts_pool s))\<rparr>)"
| tts_background: "v \<in> set (ts_views s) \<Longrightarrow>
     tts_step s (s\<lparr>ts_pool := snd (start_background v now text (ts_pool s))\<rparr>)"
| tts_poll: "v \<in> set (ts_views s) \<Longrightarrow> tts_step s (s\<lparr>ts_pool := snd (tts_poll v now l (ts_pool s))\<rparr>)"
| tts_cancel: "v \<in> set (ts_views s) \<Longrightarrow> tts_step s (s\<lparr>ts_pool := snd (tts_cancel v now l (ts_pool s))\<rparr>)"
| tts_detach: "v \<in> set (ts_views s) \<Longrightarrow> fst (tts_cancel v now l (ts_pool s)) = Inr () \<Longrightarrow>
     tts_step s (s\<lparr>ts_pool := snd (tts_cancel v now l (ts_pool s)), ts_watched := l # ts_watched s\<rparr>)"
| tts_watch: "v \<in> set (ts_views s) \<Longrightarrow> l \<in> set (ts_watched s) \<Longrightarrow>
     ended = fst (detach_pass v expired l (ts_pool s)) \<Longrightarrow>
     tts_step s (s\<lparr>ts_pool := snd (detach_pass v expired l (ts_pool s)), ts_watched := (if ended then remove1 l (ts_watched s) else ts_watched s)\<rparr>)"
| tts_quarantine: "tts_step s (s\<lparr>ts_pool := quarantine_slot l (ts_pool s)\<rparr>)"
| tts_admit_diagnostic: "v \<in> set (ts_views s) \<Longrightarrow> admit_diagnostic v (ts_pool s) = Some (c, p) \<Longrightarrow>
     tts_step s (s\<lparr>ts_pool := p, ts_outside := c # ts_outside s\<rparr>)"
| tts_admit_outside: "q \<in> set (ts_adms s) \<Longrightarrow> try_admit (tp_store (ts_pool s)) q w = Some (st, c) \<Longrightarrow>
     tts_step s (s\<lparr>ts_pool := (ts_pool s)\<lparr>tp_store := st\<rparr>, ts_outside := c # ts_outside s\<rparr>)"
| tts_drop: "c \<in> set (ts_outside s) \<Longrightarrow>
     tts_step s (s\<lparr>ts_pool := drop_permit_of (Some c) (ts_pool s), ts_outside := remove1 c (ts_outside s)\<rparr>)"
| tts_shutdown_begin: "v \<in> set (ts_views s) \<Longrightarrow>
     tts_step s (s\<lparr>ts_pool := snd (shutdown_begin v (ts_pool s))\<rparr>)"
| tts_shutdown_end: "tp_unloading (ts_pool s) \<Longrightarrow> tts_step s (s\<lparr>ts_pool := shutdown_end joined (ts_pool s)\<rparr>)"
| tts_receive: "i < length (tp_workers (ts_pool s)) \<Longrightarrow> wk_alive (tp_workers (ts_pool s) ! i) \<Longrightarrow>
     wk_running (tp_workers (ts_pool s) ! i) = None \<Longrightarrow>
     tts_step s (s\<lparr>ts_pool := worker_receive ok i (ts_pool s)\<rparr>)"
| tts_emit: "i < length (tp_workers (ts_pool s)) \<Longrightarrow> wk_running (tp_workers (ts_pool s) ! i) = Some l \<Longrightarrow>
     v \<in> set (ts_views s) \<Longrightarrow>
     tts_step s (s\<lparr>ts_pool := worker_emit (wc_command_capacity (tv_config v)) l pcm (ts_pool s)\<rparr>)"
| tts_finish: "i < length (tp_workers (ts_pool s)) \<Longrightarrow>
     tts_step s (s\<lparr>ts_pool := worker_finish ok i (ts_pool s)\<rparr>)"

section \<open>The invariant of the tables\<close>

text \<open>Only chunks and terminal events travel through a channel; the timeouts are the poll's own.\<close>

fun worker_event :: "'f tts_event \<Rightarrow> bool" where
  "worker_event TtsTimedOut = False"
| "worker_event TtsCleanupTimedOut = False"
| "worker_event _ = True"

definition slot_ok :: "'f tts_pool \<Rightarrow> nat \<Rightarrow> 'f slot \<Rightarrow> bool" where
  "slot_ok p l sl \<longleftrightarrow>
     l < tp_next p \<and> sl_worker sl < length (tp_workers p) \<and> list_all worker_event (sl_events sl) \<and>
     (sl_quarantined sl \<longrightarrow> wk_quarantined (tp_workers p ! sl_worker sl) \<and> sl_cleanup_reported sl)"

definition pool_ok :: "'f tts_pool \<Rightarrow> bool" where
  "pool_ok p \<longleftrightarrow>
     hm_wf (tp_slots p) \<and> hm_wf (tp_streams p) \<and>
     (\<forall>l sl. hm_get (tp_slots p) l = Some sl \<longrightarrow> slot_ok p l sl) \<and>
     (\<forall>s r. hm_get (tp_streams p) s = Some r \<longrightarrow>
        s < tp_next_stream p \<and> (\<forall>i. sr_worker r = Some i \<longrightarrow> i < length (tp_workers p))) \<and>
     (tp_unloading p \<or> tp_unloaded p \<longrightarrow> tp_closed p \<and> tp_slots p = [] \<and> tp_streams p = [])"

lemma hm_Nil [simp]: "hm_remove k [] = []" "hm_adjust k f [] = []" "hm_adjust k f m = [] \<longleftrightarrow> m = []"
  by (simp_all add: hm_remove_def hm_retain_def hm_adjust_def hm_adjust_where_def)

lemma update_worker_fields [simp]:
  "tp_closed (update_worker i f p) = tp_closed p" "tp_unloading (update_worker i f p) = tp_unloading p"
  "tp_unloaded (update_worker i f p) = tp_unloaded p" "tp_next (update_worker i f p) = tp_next p"
  "tp_next_stream (update_worker i f p) = tp_next_stream p" "tp_slots (update_worker i f p) = tp_slots p"
  "tp_streams (update_worker i f p) = tp_streams p" "tp_closed_streams (update_worker i f p) = tp_closed_streams p"
  "tp_store (update_worker i f p) = tp_store p" "length (tp_workers (update_worker i f p)) = length (tp_workers p)"
  by (simp_all add: update_worker_def)

lemma update_slot_fields [simp]:
  "tp_closed (update_slot l g p) = tp_closed p" "tp_unloading (update_slot l g p) = tp_unloading p"
  "tp_unloaded (update_slot l g p) = tp_unloaded p" "tp_next (update_slot l g p) = tp_next p"
  "tp_next_stream (update_slot l g p) = tp_next_stream p" "tp_workers (update_slot l g p) = tp_workers p"
  "tp_streams (update_slot l g p) = tp_streams p" "tp_closed_streams (update_slot l g p) = tp_closed_streams p"
  "tp_store (update_slot l g p) = tp_store p" "tp_slots (update_slot l g p) = hm_adjust l g (tp_slots p)"
  by (simp_all add: update_slot_def)

lemma nth_update_worker:
  "tp_workers (update_worker i f p) ! j =
     (if j = i \<and> i < length (tp_workers p) then f (tp_workers p ! i) else tp_workers p ! j)"
  by (cases "i < length (tp_workers p)") (auto simp: update_worker_def nth_list_update list_update_beyond)

lemma pool_ok_update_worker:
  "pool_ok p \<Longrightarrow> (\<And>w. wk_quarantined w \<Longrightarrow> wk_quarantined (f w)) \<Longrightarrow> pool_ok (update_worker i f p)"
  by (auto simp: pool_ok_def slot_ok_def nth_update_worker)

lemma pool_ok_update_slot:
  "pool_ok p \<Longrightarrow> (\<And>sl. sl_worker (g sl) = sl_worker sl) \<Longrightarrow> (\<And>sl. sl_quarantined (g sl) = sl_quarantined sl) \<Longrightarrow>
     (\<And>sl. sl_cleanup_reported (g sl) = sl_cleanup_reported sl) \<Longrightarrow>
     (\<And>sl. hm_get (tp_slots p) l = Some sl \<Longrightarrow> list_all worker_event (sl_events sl) \<Longrightarrow> list_all worker_event (sl_events (g sl))) \<Longrightarrow>
     pool_ok (update_slot l g p)"
  by (auto simp: pool_ok_def slot_ok_def keyed_simps)

lemma pool_ok_next_event:
  "pool_ok p \<Longrightarrow> hm_get (tp_slots p) l = Some sl \<Longrightarrow> sl_events sl = e # es \<Longrightarrow>
     pool_ok (update_slot l (\<lambda>sl. sl\<lparr>sl_events := es\<rparr>) p)"
  by (rule pool_ok_update_slot) (auto simp: pool_ok_def slot_ok_def)

lemma pool_ok_quarantine: "pool_ok p \<Longrightarrow> pool_ok (quarantine_slot l p)"
  by (auto simp: quarantine_slot_def pool_ok_def slot_ok_def nth_update_worker keyed_simps
      split: option.split)

lemma pool_ok_store [simp]: "pool_ok (p\<lparr>tp_store := st\<rparr>) = pool_ok p"
  by (simp add: pool_ok_def slot_ok_def)

lemma pool_ok_drop_permit [simp]: "pool_ok (drop_permit_of c p) = pool_ok p"
  by (simp add: drop_permit_of_def split: option.split)

lemma quarantined_try_send [simp]: "wk_quarantined (free_and_reset cap w) = wk_quarantined w"
  by (simp add: free_and_reset_def try_send_reset_def)

lemma pool_ok_remove_slot:
  "pool_ok p \<Longrightarrow> pool_ok (p\<lparr>tp_slots := hm_remove l (tp_slots p)\<rparr>)"
  by (auto simp: pool_ok_def slot_ok_def keyed_simps intro: hm_wf_remove)

lemma pool_ok_remove_stream:
  "pool_ok p \<Longrightarrow> pool_ok (p\<lparr>tp_streams := hm_remove s (tp_streams p)\<rparr>)"
  by (auto simp: pool_ok_def slot_ok_def keyed_simps intro: hm_wf_remove)

lemma pool_ok_closed_streams [simp]: "pool_ok (p\<lparr>tp_closed_streams := cs\<rparr>) = pool_ok p"
  by (simp add: pool_ok_def slot_ok_def)

lemma pool_ok_release: "pool_ok p \<Longrightarrow> pool_ok (release_terminal v l p)"
  by (auto simp: release_terminal_def Let_def pool_ok_remove_slot split: option.split intro!: pool_ok_update_worker)

lemma pool_ok_close: "pool_ok p \<Longrightarrow> pool_ok (close_stream v s p)"
  by (auto simp: close_stream_def Let_def pool_ok_remove_stream split: option.split intro!: pool_ok_update_worker)

lemma pool_ok_begin: "pool_ok p \<Longrightarrow> pool_ok (snd (begin_stream v p))"
  by (auto simp: begin_stream_def Let_def pool_ok_def slot_ok_def keyed_simps intro: less_SucI split: if_splits)

lemma position_Some: "position P xs = Some i \<Longrightarrow> i < length xs \<and> P (xs ! i)"
  by (auto simp: position_def find_Some_iff)

lemma choose_worker_free:
  assumes "pool_ok p" and "choose_worker stream request p = Inr i"
  shows "i < length (tp_workers p)" and "worker_free (tp_workers p ! i)"
  using assms
  by (auto simp: choose_worker_def or_capacity_def pool_ok_def dest!: position_Some split: option.splits if_splits)

lemma pool_ok_occupy:
  assumes "pool_ok p" and "i < length (tp_workers p)" and "\<not> tp_closed p"
  shows "pool_ok ((occupy stream i p)\<lparr>tp_next := Suc (tp_next p),
           tp_slots := hm_insert (tp_next p) (slot_new v now i stream request permit) (tp_slots p)\<rparr>)"
  using assms
  by (auto simp: pool_ok_def slot_ok_def occupy_def slot_new_def nth_update_worker keyed_simps
      intro: less_SucI split: option.split if_splits)

lemma pool_ok_start: "pool_ok p \<Longrightarrow> pool_ok (snd (start_with_permit v now stream request permit p))"
  using choose_worker_free(1) [of p stream request]
  by (auto simp: start_with_permit_def Let_def pool_ok_occupy send_start_def split: sum.split
      intro!: pool_ok_release pool_ok_update_worker)

lemma pool_ok_poll: "pool_ok p \<Longrightarrow> pool_ok (snd (tts_poll v now l p))"
  by (auto simp: tts_poll_def deliver_event_def Let_def pool_ok_quarantine pool_ok_release pool_ok_update_slot pool_ok_next_event
      split: option.split list.split)

lemma pool_ok_cancel: "pool_ok p \<Longrightarrow> pool_ok (snd (tts_cancel v now l p))"
  by (auto simp: tts_cancel_def pool_ok_update_slot split: option.split)

lemma pool_ok_detach: "pool_ok p \<Longrightarrow> pool_ok (snd (detach_pass v expired l p))"
  by (auto simp: detach_pass_def Let_def pool_ok_quarantine pool_ok_release pool_ok_update_slot pool_ok_next_event
      split: option.split list.split tts_event.split)

lemma pool_ok_end_worker: "pool_ok p \<Longrightarrow> pool_ok (end_worker i p)"
proof -
  assume "pool_ok p"
  then have "pool_ok (fold (\<lambda>l. update_slot l (\<lambda>sl. sl\<lparr>sl_disconnected := True\<rparr>)) ls p)" for ls
    by (induction ls arbitrary: p) (simp_all add: pool_ok_update_slot)
  then show ?thesis by (simp add: end_worker_def Let_def pool_ok_update_worker)
qed

lemma pool_ok_receive: "pool_ok p \<Longrightarrow> pool_ok (worker_receive ok i p)"
  by (auto simp: worker_receive_def Let_def acknowledge_reset_def pool_ok_end_worker pool_ok_update_worker
      split: list.split worker_command.split)

lemma pool_ok_emit: "pool_ok p \<Longrightarrow> pool_ok (worker_emit cap l pcm p)"
  by (auto simp: worker_emit_def pool_ok_update_slot split: option.split)

lemma pool_ok_finish: "pool_ok p \<Longrightarrow> pool_ok (worker_finish ok i p)"
  by (auto simp: worker_finish_def pool_ok_update_slot pool_ok_update_worker split: option.split)

section \<open>The permits of the leases\<close>

definition permits_of :: "(nat, 'f slot) hmap \<Rightarrow> capacity_permit multiset" where
  "permits_of m = mset (concat (map (\<lambda>sl. case sl_permit sl of None \<Rightarrow> [] | Some c \<Rightarrow> [c]) (hm_values m)))"

definition permit_mset :: "capacity_permit option \<Rightarrow> capacity_permit multiset" where
  "permit_mset c = (case c of None \<Rightarrow> {#} | Some c \<Rightarrow> {#c#})"

lemma permits_of_Nil [simp]: "permits_of [] = {#}"
  by (simp add: permits_of_def hm_values_def)

lemma permits_of_Cons [simp]: "permits_of ((l, sl) # m) = permit_mset (sl_permit sl) + permits_of m"
  by (simp add: permits_of_def hm_values_def permit_mset_def split: option.split)

lemma permits_of_adjust:
  "(\<And>sl. sl_permit (g sl) = sl_permit sl) \<Longrightarrow> permits_of (hm_adjust l g m) = permits_of m"
  by (induction m) (auto simp: hm_adjust_def hm_adjust_where_def)

lemma permits_of_remove:
  "hm_wf m \<Longrightarrow> hm_get m l = Some sl \<Longrightarrow> permits_of m = permit_mset (sl_permit sl) + permits_of (hm_remove l m)"
proof (induction m)
  case (Cons kv m)
  obtain k v where kv: "kv = (k, v)" by (cases kv)
  show ?case
  proof (cases "k = l")
    case True
    with Cons.prems have "hm_get m l = None" by (auto simp: kv hm_wf_def hm_get_None_iff)
    then have "hm_remove l (kv # m) = m"
      using hm_remove_absent [of m l] True by (simp add: kv hm_remove_def hm_retain_def)
    with True Cons.prems show ?thesis by (simp add: kv)
  next
    case False
    with Cons.prems have "hm_wf m" "hm_get m l = Some sl" by (simp_all add: kv hm_wf_def)
    moreover have "hm_remove l (kv # m) = kv # hm_remove l m"
      using False by (simp add: kv hm_remove_def hm_retain_def)
    ultimately show ?thesis using Cons.IH by (simp add: kv)
  qed
qed simp

lemma permits_of_insert:
  "hm_get m l = None \<Longrightarrow> permits_of (hm_insert l sl m) = permit_mset (sl_permit sl) + permits_of m"
  by (simp add: hm_insert_absent)

text \<open>The admission states count exactly the permits of the leases and those outside.\<close>

definition adm_ok :: "adm_store \<Rightarrow> admission list \<Rightarrow> capacity_permit multiset \<Rightarrow> bool" where
  "adm_ok st views ps \<longleftrightarrow> (\<exists>live. mset live = ps \<and> adm_inv \<lparr>sys_store = st, sys_views = views, sys_live = live\<rparr>)"

lemma adm_ok_admit:
  assumes "adm_ok st views ps" and "v \<in> set views" and "try_admit st v w = Some (st', c)"
  shows "adm_ok st' views ({#c#} + ps)"
proof -
  from assms(1) obtain live where l: "mset live = ps" "adm_inv \<lparr>sys_store = st, sys_views = views, sys_live = live\<rparr>"
    by (auto simp: adm_ok_def)
  have "adm_inv \<lparr>sys_store = st', sys_views = views, sys_live = c # live\<rparr>"
    using adm_inv_admit [OF l(2), of v w st' c] assms(2,3) by simp
  with l(1) show ?thesis by (auto simp: adm_ok_def intro!: exI [of _ "c # live"])
qed

lemma adm_ok_drop:
  assumes "adm_ok st views ({#c#} + ps)"
  shows "adm_ok (drop_permit c st) views ps"
proof -
  from assms obtain live where l: "mset live = {#c#} + ps" "adm_inv \<lparr>sys_store = st, sys_views = views, sys_live = live\<rparr>"
    by (auto simp: adm_ok_def)
  have c: "c \<in> set live" using l(1) by (metis mset_subset_eqD mset_subset_eq_add_left set_mset_mset union_single_eq_member)
  have "adm_inv \<lparr>sys_store = drop_permit c st, sys_views = views, sys_live = remove1 c live\<rparr>"
    using adm_inv_drop [OF l(2), of c] c by simp
  with l(1) show ?thesis by (auto simp: adm_ok_def intro!: exI [of _ "remove1 c live"])
qed

lemma adm_ok_compose:
  "adm_ok st views ps \<Longrightarrow> v \<in> set views \<Longrightarrow> w \<in> set views \<Longrightarrow> adm_ok st (composed v w # views) ps"
  using adm_inv_compose by (fastforce simp: adm_ok_def)

definition permits_ok :: "admission list \<Rightarrow> capacity_permit multiset \<Rightarrow> 'f tts_pool \<Rightarrow> bool" where
  "permits_ok views out p \<longleftrightarrow> adm_ok (tp_store p) views (permits_of (tp_slots p) + out)"

lemma permits_ok_drop:
  "adm_ok (tp_store p) views (permit_mset c + permits_of (tp_slots p) + out) \<Longrightarrow> permits_ok views out (drop_permit_of c p)"
  using adm_ok_drop [of "tp_store p" views "the c" "permits_of (tp_slots p) + out"]
  by (auto simp: permits_ok_def drop_permit_of_def permit_mset_def split: option.splits)

lemma permits_ok_cong:
  "tp_store p = tp_store q \<Longrightarrow> permits_of (tp_slots p) = permits_of (tp_slots q) \<Longrightarrow>
     permits_ok views out p = permits_ok views out q"
  by (simp add: permits_ok_def)

lemma permits_ok_update_worker [simp]: "permits_ok views out (update_worker i f p) = permits_ok views out p"
  by (rule permits_ok_cong) simp_all

lemma permits_ok_update_slot:
  "(\<And>sl. sl_permit (g sl) = sl_permit sl) \<Longrightarrow> permits_ok views out (update_slot l g p) = permits_ok views out p"
  by (rule permits_ok_cong) (simp_all add: permits_of_adjust)

lemma permits_ok_release:
  assumes "hm_wf (tp_slots p)" and "permits_ok views out p"
  shows "permits_ok views out (release_terminal v l p)"
proof (cases "hm_get (tp_slots p) l")
  case None
  with assms show ?thesis by (simp add: release_terminal_def)
next
  case (Some sl)
  have "adm_ok (tp_store p) views (permit_mset (sl_permit sl) + permits_of (hm_remove l (tp_slots p)) + out)"
    using assms permits_of_remove [OF assms(1) Some] by (simp add: permits_ok_def)
  then show ?thesis
    using Some by (auto simp: release_terminal_def Let_def split: option.split intro!: permits_ok_drop)
qed

lemma permits_ok_start:
  assumes p: "pool_ok p" and a: "adm_ok (tp_store p) views (permit_mset permit + permits_of (tp_slots p) + out)"
  shows "permits_ok views out (snd (start_with_permit v now stream request permit p))"
proof -
  have fresh: "hm_get (tp_slots p) (tp_next p) = None"
    using p by (cases "hm_get (tp_slots p) (tp_next p)") (auto simp: pool_ok_def slot_ok_def)
  have wf: "hm_wf (tp_slots p)" using p by (simp add: pool_ok_def)
  have store: "tp_store (occupy stream i p) = tp_store p" for i
    by (simp add: occupy_def split: option.split)
  have new: "permits_ok views out ((occupy stream i p)\<lparr>tp_next := n,
      tp_slots := hm_insert (tp_next p) (slot_new v now i stream request permit) (tp_slots p)\<rparr>)" for i n
    using a by (simp add: permits_ok_def permits_of_insert fresh slot_new_def store)
  show ?thesis
    using new wf permits_ok_drop [OF a]
    by (auto simp: start_with_permit_def Let_def hm_wf_insert split: sum.split intro!: permits_ok_release)
qed

lemma permits_ok_quarantine: "permits_ok views out p \<Longrightarrow> permits_ok views out (quarantine_slot l p)"
  by (simp add: quarantine_slot_def permits_ok_update_slot split: option.split)

lemma permits_ok_deliver:
  "hm_wf (tp_slots p) \<Longrightarrow> permits_ok views out p \<Longrightarrow> permits_ok views out (deliver_event v now l sl e p)"
  by (simp add: deliver_event_def Let_def permits_ok_release permits_ok_update_slot)

lemma permits_ok_poll:
  "hm_wf (tp_slots p) \<Longrightarrow> permits_ok views out p \<Longrightarrow> permits_ok views out (snd (tts_poll v now l p))"
  by (simp add: tts_poll_def permits_ok_quarantine permits_ok_deliver permits_ok_update_slot
      split: option.split list.split)

lemma permits_ok_cancel: "permits_ok views out p \<Longrightarrow> permits_ok views out (snd (tts_cancel v now l p))"
  by (simp add: tts_cancel_def permits_ok_update_slot split: option.split)

lemma permits_ok_detach:
  "hm_wf (tp_slots p) \<Longrightarrow> permits_ok views out p \<Longrightarrow> permits_ok views out (snd (detach_pass v expired l p))"
  by (simp add: detach_pass_def Let_def permits_ok_quarantine permits_ok_release permits_ok_update_slot
      split: option.split list.split tts_event.split)

lemma permits_ok_end_worker: "permits_ok views out (end_worker i p) = permits_ok views out p"
proof -
  have "permits_ok views out (fold (\<lambda>l. update_slot l (\<lambda>sl. sl\<lparr>sl_disconnected := True\<rparr>)) ls p) = permits_ok views out p" for ls
    by (induction ls arbitrary: p) (simp_all add: permits_ok_update_slot)
  then show ?thesis by (simp add: end_worker_def Let_def)
qed

lemma permits_ok_receive: "permits_ok views out (worker_receive ok i p) = permits_ok views out p"
  by (simp add: worker_receive_def Let_def permits_ok_end_worker split: list.split worker_command.split)

lemma permits_ok_emit: "permits_ok views out p \<Longrightarrow> permits_ok views out (worker_emit cap l pcm p)"
  by (simp add: worker_emit_def permits_ok_update_slot split: option.split)

lemma permits_ok_finish: "permits_ok views out p \<Longrightarrow> permits_ok views out (worker_finish ok i p)"
  by (simp add: worker_finish_def permits_ok_update_slot split: option.split)

section \<open>Every reachable state\<close>

definition tts_inv :: "'f tts_sys \<Rightarrow> bool" where
  "tts_inv s \<longleftrightarrow>
     pool_ok (ts_pool s) \<and> permits_ok (ts_adms s) (mset (ts_outside s)) (ts_pool s) \<and>
     (\<forall>v\<in>set (ts_views s). tv_admission v \<in> set (ts_adms s))"

lemma tts_inv_init: "tts_init s \<Longrightarrow> tts_inv s"
proof -
  assume "tts_init s"
  then obtain a v joined outcomes where a: "reach adm_sys_init adm_step a" "tv_admission v \<in> set (sys_views a)"
      and new: "pool_new (tv_config v) joined outcomes (sys_store a) = Inr (ts_pool s)"
      and s: "ts_views s = [v]" "ts_adms s = sys_views a" "ts_outside s = sys_live a"
    by (auto simp: tts_init_def)
  have "adm_inv a" by (rule adm.reach_inv [OF a(1)])
  moreover have "a = \<lparr>sys_store = sys_store a, sys_views = sys_views a, sys_live = sys_live a\<rparr>" by simp
  ultimately have "adm_ok (sys_store a) (sys_views a) (mset (sys_live a))"
    unfolding adm_ok_def by metis
  moreover obtain ws where "ts_pool s = \<lparr>tp_closed = False, tp_unloading = False, tp_unloaded = False, tp_next = 1,
      tp_next_stream = 1, tp_slots = [], tp_streams = [], tp_closed_streams = [], tp_workers = ws, tp_store = sys_store a\<rparr>"
    using new by (auto simp: pool_new_def split: if_splits sum.splits intro: that [OF sym])
  ultimately show ?thesis using s a(2) by (simp add: tts_inv_def pool_ok_def permits_ok_def)
qed

lemma permits_ok_more:
  "permits_ok views out p \<Longrightarrow> adm_ok (tp_store p) views (permits_of (tp_slots p) + out)"
  by (simp add: permits_ok_def)

lemma tts_inv_same:
  "tts_inv s \<Longrightarrow> pool_ok p \<Longrightarrow> permits_ok (ts_adms s) (mset (ts_outside s)) p \<Longrightarrow>
     tts_inv (s\<lparr>ts_pool := p, ts_watched := ws\<rparr>)"
  by (simp add: tts_inv_def)

lemma tts_inv_start:
  assumes inv: "tts_inv s" and v: "v \<in> set (ts_views s)"
  shows "tts_inv (s\<lparr>ts_pool := snd (start_internal v now stream request reserve (ts_pool s))\<rparr>)"
    and "tts_inv (s\<lparr>ts_pool := snd (start_background v now text (ts_pool s))\<rparr>)"
proof -
  let ?p = "ts_pool s" and ?out = "mset (ts_outside s)"
  have p: "pool_ok ?p" and perm: "permits_ok (ts_adms s) ?out ?p" and v': "tv_admission v \<in> set (ts_adms s)"
    using inv v by (auto simp: tts_inv_def)
  have with_permit: "permits_ok (ts_adms s) ?out (snd (start_with_permit v now stream request (Some c) (?p\<lparr>tp_store := st\<rparr>)))"
    if "try_admit (tp_store ?p) (tv_admission v) w = Some (st, c)" for stream request w st c
    using adm_ok_admit [OF permits_ok_more [OF perm] v' that] p
    by (intro permits_ok_start) (simp_all add: permit_mset_def ac_simps)
  have without: "permits_ok (ts_adms s) ?out (snd (start_with_permit v now stream request None ?p))"
    using perm p by (intro permits_ok_start) (simp_all add: permits_ok_def permit_mset_def)
  show "tts_inv (s\<lparr>ts_pool := snd (start_internal v now stream request reserve ?p)\<rparr>)"
    using inv p perm with_permit without
    by (auto simp: tts_inv_def start_internal_def pool_ok_start split: option.split)
  show "tts_inv (s\<lparr>ts_pool := snd (start_background v now text ?p)\<rparr>)"
    using inv p perm with_permit by (auto simp: tts_inv_def start_background_def pool_ok_start split: option.split)
qed

lemma begin_close_frame:
  "tp_store (snd (begin_stream v p)) = tp_store p" "tp_slots (snd (begin_stream v p)) = tp_slots p"
  "tp_store (close_stream v i p) = tp_store p" "tp_slots (close_stream v i p) = tp_slots p"
  "tp_store (snd (shutdown_begin v p)) = tp_store p" "tp_slots (snd (shutdown_begin v p)) = tp_slots p"
  by (simp_all add: begin_stream_def close_stream_def shutdown_begin_def Let_def split: option.split)

lemma permits_ok_frame:
  "permits_ok views out (snd (begin_stream v p)) = permits_ok views out p"
  "permits_ok views out (close_stream v i p) = permits_ok views out p"
  "permits_ok views out (snd (shutdown_begin v p)) = permits_ok views out p"
  "permits_ok views out (shutdown_end joined p) = permits_ok views out p"
  by (simp_all add: permits_ok_def begin_close_frame shutdown_end_def)

lemma pool_ok_wf: "pool_ok p \<Longrightarrow> hm_wf (tp_slots p)"
  by (simp add: pool_ok_def)

lemma pool_ok_shutdown:
  "pool_ok p \<Longrightarrow> pool_ok (snd (shutdown_begin v p))"
  "pool_ok p \<Longrightarrow> tp_unloading p \<Longrightarrow> pool_ok (shutdown_end joined p)"
  by (auto simp: shutdown_begin_def shutdown_end_def Let_def pool_ok_def slot_ok_def)

lemma tts_inv_step: "tts_step s t \<Longrightarrow> tts_inv s \<Longrightarrow> tts_inv t"
proof (induction rule: tts_step.induct)
  case (tts_view v s q w b)
  then show ?case
    by (auto simp: tts_inv_def permits_ok_def logical_view_def intro: adm_ok_compose)
next
  case (tts_start v s t0 stream request reserve)
  then show ?case by (simp add: tts_inv_start)
next
  case (tts_background v s t0 utterance)
  then show ?case by (simp add: tts_inv_start)
next
  case (tts_admit_diagnostic v s c p)
  then obtain st where st: "try_admit (tp_store (ts_pool s)) (tv_admission v) Diagnostic = Some (st, c)"
      "p = (ts_pool s)\<lparr>tp_store := st\<rparr>" by (auto simp: admit_diagnostic_def split: if_splits option.splits)
  have "tv_admission v \<in> set (ts_adms s)" using tts_admit_diagnostic by (simp add: tts_inv_def)
  from adm_ok_admit [OF permits_ok_more this st(1)] tts_admit_diagnostic st(2) show ?case
    by (fastforce simp: tts_inv_def permits_ok_def ac_simps)
next
  case (tts_admit_outside q s w st c)
  from adm_ok_admit [OF permits_ok_more this(1,2)] tts_admit_outside show ?case
    by (fastforce simp: tts_inv_def permits_ok_def ac_simps)
next
  case (tts_drop c s)
  then have "mset (ts_outside s) = {#c#} + mset (remove1 c (ts_outside s))" by simp
  then have "adm_ok (tp_store (ts_pool s)) (ts_adms s) ({#c#} + (permits_of (tp_slots (ts_pool s)) + mset (remove1 c (ts_outside s))))"
    using tts_drop by (simp add: tts_inv_def permits_ok_def ac_simps)
  from adm_ok_drop [OF this] tts_drop show ?case
    by (simp add: tts_inv_def permits_ok_def drop_permit_of_def)
qed (auto simp: tts_inv_def pool_ok_begin pool_ok_close pool_ok_poll permits_ok_poll pool_ok_cancel permits_ok_cancel
    pool_ok_quarantine permits_ok_quarantine pool_ok_receive permits_ok_receive pool_ok_emit permits_ok_emit
    pool_ok_finish permits_ok_finish pool_ok_shutdown
    permits_ok_frame permits_ok_detach pool_ok_detach pool_ok_wf)

interpretation tts: step_system tts_init tts_step tts_inv
  by unfold_locales (auto intro: tts_inv_init tts_inv_step)

section \<open>The phases of a lease\<close>

text \<open>Not yet issued, running, cancelling (its cleanup deadline is set), quarantined, gone.\<close>

definition lease_phase :: "nat \<Rightarrow> 'f tts_pool \<Rightarrow> nat" where
  "lease_phase l p =
     (if tp_next p \<le> l then 0
      else (case hm_get (tp_slots p) l of
              None \<Rightarrow> 4
            | Some sl \<Rightarrow> if sl_quarantined sl then 3 else if sl_cleanup_deadline sl \<noteq> None then 2 else 1))"

definition advances :: "'f tts_pool \<Rightarrow> 'f tts_pool \<Rightarrow> bool" where
  "advances p q \<longleftrightarrow> (\<forall>l. lease_phase l p \<le> lease_phase l q)"

lemma advances_refl [simp]: "advances p p"
  by (simp add: advances_def)

lemma advances_trans: "advances p q \<Longrightarrow> advances q r \<Longrightarrow> advances p r"
  unfolding advances_def by (meson le_trans)

lemma advances_same: "tp_next p = tp_next q \<Longrightarrow> tp_slots p = tp_slots q \<Longrightarrow> advances p q"
  by (simp add: advances_def lease_phase_def)

lemma lease_phase_cong:
  "tp_next p = tp_next q \<Longrightarrow> tp_slots p = tp_slots q \<Longrightarrow> lease_phase l p = lease_phase l q"
  by (simp add: lease_phase_def)

lemma advances_update_worker: "advances p q \<Longrightarrow> advances p (update_worker i f q)"
  by (erule advances_trans) (rule advances_same, simp_all)

lemma advances_update_slot:
  "advances p q \<Longrightarrow> \<forall>sl. sl_quarantined sl \<longrightarrow> sl_quarantined (g sl) \<Longrightarrow>
     \<forall>sl. sl_cleanup_deadline (g sl) = None \<longrightarrow> sl_cleanup_deadline sl = None \<Longrightarrow> advances p (update_slot l g q)"
  by (erule advances_trans) (auto simp: advances_def lease_phase_def keyed_simps split: option.split)

lemma advances_drop_permit: "advances p q \<Longrightarrow> advances p (drop_permit_of c q)"
  by (erule advances_trans) (rule advances_same, simp_all add: drop_permit_of_def split: option.split)

lemma advances_remove: "advances p q \<Longrightarrow> advances p (q\<lparr>tp_slots := hm_remove l (tp_slots q)\<rparr>)"
  by (erule advances_trans) (auto simp: advances_def lease_phase_def keyed_simps split: option.split)

lemma advances_release: "advances p q \<Longrightarrow> advances p (release_terminal v l q)"
  by (erule advances_trans)
    (auto simp: release_terminal_def Let_def advances_def lease_phase_def drop_permit_of_def keyed_simps split: option.split)

lemma advances_quarantine: "advances p q \<Longrightarrow> advances p (quarantine_slot l q)"
  by (simp add: quarantine_slot_def advances_update_worker advances_update_slot split: option.split)

lemma advances_issue:
  "pool_ok p \<Longrightarrow> advances p (p\<lparr>tp_next := Suc (tp_next p), tp_slots := hm_insert (tp_next p) sl (tp_slots p)\<rparr>)"
  by (auto simp: advances_def lease_phase_def keyed_simps split: option.split)

lemma advances_start: "pool_ok p \<Longrightarrow> advances p (snd (start_with_permit v now stream request permit p))"
proof -
  assume p: "pool_ok p"
  have occ: "advances p ((occupy stream i p)\<lparr>tp_next := Suc (tp_next p), tp_slots := hm_insert (tp_next p) sl (tp_slots p)\<rparr>)" for i sl
    by (rule advances_trans [OF advances_issue [OF p, of sl]], rule advances_same) simp_all
  show ?thesis
    by (simp add: start_with_permit_def Let_def occ advances_drop_permit advances_update_worker advances_release split: sum.split)
qed

lemma advances_store [simp]: "advances (p\<lparr>tp_store := st\<rparr>) q = advances p q" "advances p (q\<lparr>tp_store := st\<rparr>) = advances p q"
  by (simp_all add: advances_def lease_phase_def)

lemma advances_poll: "advances p (snd (tts_poll v now l p))"
  by (simp add: tts_poll_def deliver_event_def Let_def advances_quarantine advances_release advances_update_slot
      split: option.split list.split)

lemma advances_end_worker: "advances p q \<Longrightarrow> advances p (end_worker i q)"
proof -
  assume "advances p q"
  then have "advances p (fold (\<lambda>l. update_slot l (\<lambda>sl. sl\<lparr>sl_disconnected := True\<rparr>)) ls q)" for ls
    by (induction ls arbitrary: q) (simp_all add: advances_update_slot)
  then show ?thesis by (simp add: end_worker_def Let_def advances_update_worker)
qed

lemma advances_step: "tts_step s t \<Longrightarrow> tts_inv s \<Longrightarrow> advances (ts_pool s) (ts_pool t)"
proof (induction rule: tts_step.induct)
  case (tts_start v s t0 stream request reserve)
  then have "pool_ok (ts_pool s)" by (simp add: tts_inv_def)
  then show ?case
    using advances_start [of "(ts_pool s)\<lparr>tp_store := st\<rparr>" for st] advances_start [of "ts_pool s"]
    by (simp add: start_internal_def split: option.split)
next
  case (tts_background v s t0 utterance)
  then have "pool_ok (ts_pool s)" by (simp add: tts_inv_def)
  then show ?case
    using advances_start [of "(ts_pool s)\<lparr>tp_store := st\<rparr>" for st] by (simp add: start_background_def split: option.split)
next
  case (tts_close v s i)
  then show ?case by (intro advances_same) (simp_all add: begin_close_frame close_stream_def Let_def split: option.split)
next
  case (tts_begin v s)
  then show ?case by (intro advances_same) (simp_all add: begin_stream_def Let_def)
next
  case (tts_shutdown_begin v s)
  then show ?case by (intro advances_same) (simp_all add: shutdown_begin_def Let_def)
next
  case (tts_shutdown_end s joined)
  then show ?case by (intro advances_same) (simp_all add: shutdown_end_def)
next
  case (tts_admit_diagnostic v s c p)
  then show ?case by (auto simp: admit_diagnostic_def split: if_splits option.splits)
qed (simp_all add: advances_poll advances_quarantine advances_drop_permit advances_update_slot advances_update_worker
    advances_release advances_end_worker tts_cancel_def detach_pass_def worker_receive_def worker_emit_def worker_finish_def
    Let_def split: option.split list.split worker_command.split tts_event.split)

lemma reach_advances:
  "tts_step\<^sup>*\<^sup>* s t \<Longrightarrow> tts_inv s \<Longrightarrow> advances (ts_pool s) (ts_pool t)"
proof (induction rule: rtranclp_induct)
  case (step y z)
  have "tts_inv y" by (rule tts.steps_inv [OF step.hyps(1) step.prems])
  with advances_step [OF step.hyps(2)] step.IH [OF step.prems] show ?case by (blast intro: advances_trans)
qed simp

end
