(* ===== verification/Tts_Theorems.thy ===== *)
theory Tts_Theorems
  imports Tts_Safety
begin

text \<open>
  The properties of the TTS pool, with a small executor of concrete runs for their witnesses, and two
  runs in which the pool misses its purpose.
\<close>

section \<open>Concrete runs\<close>

datatype tts_op =
    OpBegin | OpClose nat | OpStart instant "nat option" | OpPoll instant nat | OpCancel instant nat
  | OpReceive bool nat | OpEmit nat nat | OpFinish bool nat

definition demo_config :: worker_config where
  "demo_config = \<lparr>wc_max_workers = 2, wc_voice_reserved = 1, wc_command_capacity = 4,
     wc_final_timeout = 15000, wc_cleanup_grace = 5000\<rparr>"

definition demo_view :: tts_view where
  "demo_view = \<lparr>tv_admission = [0], tv_binding = binding_readiness, tv_config = demo_config\<rparr>"

definition demo_pool :: "int tts_pool" where
  "demo_pool = \<lparr>tp_closed = False, tp_unloading = False, tp_unloaded = False, tp_next = 1, tp_next_stream = 1,
     tp_slots = [], tp_streams = [], tp_closed_streams = [], tp_workers = [worker_new, worker_new],
     tp_store = [\<lparr>total_slots = 2, reserved_voice = 1, voice_work = 0, diagnostic_work = 0, idle_epoch = 0\<rparr>]\<rparr>"

definition demo_sys :: "int tts_pool \<Rightarrow> int tts_sys" where
  "demo_sys p = \<lparr>ts_pool = p, ts_views = [demo_view], ts_adms = [[0]], ts_outside = [], ts_watched = []\<rparr>"

fun run_op :: "tts_op \<Rightarrow> int tts_pool \<Rightarrow> int tts_pool option" where
  "run_op OpBegin p = Some (snd (begin_stream demo_view p))"
| "run_op (OpClose s) p = Some (close_stream demo_view s p)"
| "run_op (OpStart t s) p =
     Some (snd (start_internal demo_view t s (VoiceWork \<lparr>tq_text = [], tq_selection = binding_readiness\<rparr>) True p))"
| "run_op (OpPoll t l) p = Some (snd (tts_poll demo_view t l p))"
| "run_op (OpCancel t l) p = Some (snd (tts_cancel demo_view t l p))"
| "run_op (OpReceive ok i) p =
     (if i < length (tp_workers p) \<and> wk_alive (tp_workers p ! i) \<and> wk_running (tp_workers p ! i) = None
      then Some (worker_receive ok i p) else None)"
| "run_op (OpEmit i l) p =
     (if i < length (tp_workers p) \<and> wk_running (tp_workers p ! i) = Some l
      then Some (worker_emit 4 l \<lparr>pf_samples = [1], pf_rate = 24000\<rparr> p) else None)"
| "run_op (OpFinish ok i) p = (if i < length (tp_workers p) then Some (worker_finish ok i p) else None)"

fun run_ops :: "tts_op list \<Rightarrow> int tts_pool \<Rightarrow> int tts_pool option" where
  "run_ops [] p = Some p"
| "run_ops (op # ops) p = Option.bind (run_op op p) (run_ops ops)"

lemma run_op_step: "run_op op p = Some q \<Longrightarrow> tts_step (demo_sys p) (demo_sys q)"
proof -
  have upd: "(demo_sys p)\<lparr>ts_pool := q\<rparr> = demo_sys q" for q by (simp add: demo_sys_def)
  have sel [simp]: "ts_pool (demo_sys p) = p" "ts_views (demo_sys p) = [demo_view]" by (simp_all add: demo_sys_def)
  have cap: "wc_command_capacity (tv_config demo_view) = 4" by (simp add: demo_view_def demo_config_def)
  assume run: "run_op op p = Some q"
  show ?thesis
  proof (cases op)
    case OpBegin
    with run tts_begin [of demo_view "demo_sys p"] show ?thesis by (simp add: upd)
  next
    case (OpClose i)
    with run tts_close [of demo_view "demo_sys p" i] show ?thesis by (simp add: upd)
  next
    case (OpStart t st)
    with run tts_start [of demo_view "demo_sys p" t st
        "VoiceWork \<lparr>tq_text = [], tq_selection = binding_readiness\<rparr>" True] show ?thesis by (simp add: upd)
  next
    case (OpPoll t l)
    with run tts_poll [of demo_view "demo_sys p" t l] show ?thesis by (simp add: upd)
  next
    case (OpCancel t l)
    with run tts_cancel [of demo_view "demo_sys p" t l] show ?thesis by (simp add: upd)
  next
    case (OpReceive ok i)
    with run tts_receive [of i "demo_sys p" ok] show ?thesis by (simp add: upd split: if_splits)
  next
    case (OpEmit i l)
    with run tts_emit [of i "demo_sys p" l demo_view "\<lparr>pf_samples = [1], pf_rate = 24000\<rparr>"] show ?thesis by (simp add: upd cap split: if_splits)
  next
    case (OpFinish ok i)
    with run tts_finish [of i "demo_sys p" ok] show ?thesis by (simp add: upd split: if_splits)
  qed
qed

lemma run_ops_steps: "run_ops ops p = Some q \<Longrightarrow> tts_step\<^sup>*\<^sup>* (demo_sys p) (demo_sys q)"
proof (induction ops arbitrary: p)
  case (Cons op ops)
  then obtain r where "run_op op p = Some r" "run_ops ops r = Some q" by (auto simp: bind_eq_Some_conv)
  with Cons.IH run_op_step show ?case by (metis converse_rtranclp_into_rtranclp)
qed simp

lemma demo_start: "reach tts_init tts_step (demo_sys demo_pool)"
proof (rule reach_init)
  let ?st = "\<lparr>total_slots = 2, reserved_voice = 1, voice_work = 0, diagnostic_work = 0, idle_epoch = 0\<rparr>"
  let ?empty = "\<lparr>sys_store = [], sys_views = [], sys_live = []\<rparr>"
    and ?a = "\<lparr>sys_store = [?st], sys_views = [[0]], sys_live = []\<rparr>"
  have "reach adm_sys_init adm_step ?empty" by (rule reach_init) (simp add: adm_sys_init_def)
  moreover have "adm_step ?empty ?a"
    using adm_create [of 2 1 ?empty "[?st]" "[0]"] by (simp add: admission_new_def)
  ultimately have "reach adm_sys_init adm_step ?a" by (rule reach_step)
  moreover have "pool_new demo_config True (\<lambda>_. Acknowledged) [?st] = Inr demo_pool"
    by (simp add: pool_new_def demo_config_def config_valid_def demo_pool_def upt_rec)
  ultimately show "tts_init (demo_sys demo_pool)"
    unfolding tts_init_def demo_sys_def
    by (intro exI [of _ ?a] exI [of _ demo_view]) (auto simp: demo_view_def)
qed

lemma demo_reach: "run_ops ops demo_pool = Some q \<Longrightarrow> reach tts_init tts_step (demo_sys q)"
  by (rule tts.reach_steps [OF demo_start run_ops_steps])

lemma run_result:
  assumes "case x of None \<Rightarrow> False | Some p \<Rightarrow> P p"
  obtains p where "x = Some p" and "P p"
  using assms by (cases x) auto

lemmas run_simps = demo_pool_def demo_view_def demo_config_def worker_new_def begin_stream_def close_stream_def
  stream_in_use_def start_internal_def start_with_permit_def choose_worker_def or_capacity_def position_def
  worker_free_def occupy_def slot_new_def send_start_def tts_poll_def deliver_event_def extends_deadline_def
  tts_cancel_def release_terminal_def drop_permit_of_def free_and_reset_def try_send_reset_def worker_receive_def
  end_worker_def queued_leases_def acknowledge_reset_def worker_emit_def worker_finish_def update_worker_def
  update_slot_def hm_insert_def hm_remove_def hm_retain_def hm_adjust_def hm_adjust_where_def hm_values_def
  try_admit_def drop_permit_def update_at_def adm_full_def adm_take_def adm_give_def adm_used_def wrapping_sub_def
  binding_readiness_def Let_def

section \<open>Leases and permits\<close>

definition holds_permit :: "nat \<Rightarrow> 'f slot \<Rightarrow> bool" where
  "holds_permit i sl = (case sl_permit sl of None \<Rightarrow> False | Some c \<Rightarrow> i \<in> set (permit_admission c))"

lemma permits_of_count:
  "size (filter_mset (\<lambda>c. i \<in> set (permit_admission c)) (permits_of m)) = length (filter (holds_permit i) (hm_values m))"
proof (induction m)
  case (Cons kv m)
  then show ?case
    by (cases kv) (auto simp: holds_permit_def permit_mset_def hm_values_def split: option.split)
qed (simp add: hm_values_def)

lemma adm_used_counts:
  assumes "adm_ok st views ps" and "i < length st"
  shows "adm_used (st ! i) = size (filter_mset (\<lambda>c. i \<in> set (permit_admission c)) ps)"
    and "adm_used (st ! i) \<le> total_slots (st ! i)"
proof -
  from assms obtain live where l: "mset live = ps" "adm_inv \<lparr>sys_store = st, sys_views = views, sys_live = live\<rparr>"
    by (auto simp: adm_ok_def)
  then have u: "adm_used (st ! i) = voice_permits i live + other_permits i live" "adm_state_ok (st ! i)"
    using assms(2) by (auto simp: adm_inv_def adm_used_def)
  have "voice_permits i live + other_permits i live = length (filter (\<lambda>c. i \<in> set (permit_admission c)) live)"
    by (induction live) (auto simp: permits_Cons voice_permits_def other_permits_def)
  then show "adm_used (st ! i) = size (filter_mset (\<lambda>c. i \<in> set (permit_admission c)) ps)"
    using u(1) l(1) by (metis mset_filter size_mset)
  show "adm_used (st ! i) \<le> total_slots (st ! i)" using u(2) by (simp add: adm_state_ok_def)
qed

text \<open>
  C23: leases and permits are accounted for. In every reachable state of the pool the live leases have
  distinct ids below the next one and existing workers; every admission state counts exactly the leases
  that hold a permit of it and the permits outside the pool, and never more than its slots; and once the
  workers are being unloaded no lease is left.
\<close>

theorem tts_leases_accounted:
  assumes "reach tts_init tts_step s"
  shows "distinct (hm_keys (tp_slots (ts_pool s))) \<and>
     list_all (\<lambda>(l, sl). l < tp_next (ts_pool s) \<and> sl_worker sl < length (tp_workers (ts_pool s))) (tp_slots (ts_pool s)) \<and>
     list_all (\<lambda>i. adm_used (tp_store (ts_pool s) ! i) =
           length (filter (holds_permit i) (hm_values (tp_slots (ts_pool s)))) +
           length (filter (\<lambda>c. i \<in> set (permit_admission c)) (ts_outside s)) \<and>
         adm_used (tp_store (ts_pool s) ! i) \<le> total_slots (tp_store (ts_pool s) ! i))
       [0..<length (tp_store (ts_pool s))] \<and>
     (if tp_unloading (ts_pool s) \<or> tp_unloaded (ts_pool s) then tp_slots (ts_pool s) = [] else True)"
proof -
  let ?p = "ts_pool s"
  have inv: "pool_ok ?p" "permits_ok (ts_adms s) (mset (ts_outside s)) ?p"
    using tts.reach_inv [OF assms] by (auto simp: tts_inv_def)
  have keys: "distinct (hm_keys (tp_slots ?p))"
    using pool_ok_wf [OF inv(1)] by (simp add: hm_wf_def hm_keys_def)
  have slots: "list_all (\<lambda>(l, sl). l < tp_next ?p \<and> sl_worker sl < length (tp_workers ?p)) (tp_slots ?p)"
    using inv(1) hm_mem_get [OF pool_ok_wf [OF inv(1)]] by (fastforce simp: list_all_iff pool_ok_def slot_ok_def)
  have permits: "list_all (\<lambda>i. adm_used (tp_store ?p ! i) = length (filter (holds_permit i) (hm_values (tp_slots ?p))) +
      length (filter (\<lambda>c. i \<in> set (permit_admission c)) (ts_outside s)) \<and>
      adm_used (tp_store ?p ! i) \<le> total_slots (tp_store ?p ! i)) [0..<length (tp_store ?p)]"
    unfolding list_all_iff
  proof
    fix i assume "i \<in> set [0..<length (tp_store ?p)]"
    then show "adm_used (tp_store ?p ! i) = length (filter (holds_permit i) (hm_values (tp_slots ?p))) +
      length (filter (\<lambda>c. i \<in> set (permit_admission c)) (ts_outside s)) \<and>
      adm_used (tp_store ?p ! i) \<le> total_slots (tp_store ?p ! i)"
      using adm_used_counts [OF permits_ok_more [OF inv(2)], of i]
      by (simp add: permits_of_count flip: mset_filter)
  qed
  show ?thesis using keys slots permits inv(1) by (simp add: pool_ok_def)
qed

definition one_lease :: "int tts_pool" where
  "one_lease = the (run_ops [OpBegin, OpStart 0 (Some 1)] demo_pool)"

lemma one_lease_run: "run_ops [OpBegin, OpStart 0 (Some 1)] demo_pool = Some one_lease"
  by (simp add: one_lease_def run_simps cong: let_weak_cong)

lemma tts_leases_accounted_witness:
  "list_all (\<lambda>(l, sl). l < tp_next one_lease \<and> sl_worker sl < 2) (tp_slots one_lease) \<and>
   hm_keys (tp_slots one_lease) = [1] \<and> adm_used (tp_store one_lease ! 0) = 1 \<and>
   length (filter (holds_permit 0) (hm_values (tp_slots one_lease))) = 1"
proof -
  have state: "length (tp_workers one_lease) = 2" "length (tp_store one_lease) = 1" "hm_keys (tp_slots one_lease) = [1]"
      "adm_used (tp_store one_lease ! 0) = 1"
    by (simp_all add: one_lease_def run_simps hm_keys_def cong: let_weak_cong)
  have "ts_pool (demo_sys one_lease) = one_lease" "ts_outside (demo_sys one_lease) = []"
    by (simp_all add: demo_sys_def)
  with tts_leases_accounted [OF demo_reach [OF one_lease_run]] state show ?thesis by simp
qed

section \<open>The life of a lease\<close>

lemma phase_quarantined:
  "hm_get (tp_slots p) l = Some sl \<Longrightarrow> l < tp_next p \<Longrightarrow> lease_phase l (quarantine_slot l p) = 3"
  by (simp add: lease_phase_def quarantine_slot_def keyed_simps)

lemma phase_released:
  "hm_get (tp_slots p) l = Some sl \<Longrightarrow> l < tp_next p \<Longrightarrow> lease_phase l (release_terminal v l p) = 4"
  by (auto simp: lease_phase_def release_terminal_def drop_permit_of_def Let_def keyed_simps split: option.split)

lemma phase_live:
  "hm_get (tp_slots p) l = Some sl \<Longrightarrow> l < tp_next p \<Longrightarrow>
     lease_phase l p = (if sl_quarantined sl then 3 else if sl_cleanup_deadline sl \<noteq> None then 2 else 1)"
  by (simp add: lease_phase_def)

lemmas phase_simps = phase_quarantined phase_released phase_live

text \<open>
  C24: a lease moves only forward, through the phases not issued, running, cancelling, quarantined and
  gone, whatever the callers, the detached threads and the workers do; and its polls follow them. A poll
  answers with an error exactly before the lease exists or after it is gone, and with nothing forever
  once it is quarantined. A timeout is reported only by a running lease, which then is cancelling; a
  cleanup timeout only by a cancelling one, which then is quarantined; a terminal event ends the lease.
  So each of the three is reported at most once.
\<close>

theorem lease_moves_forward:
  assumes "reach tts_init tts_step s" and "tts_step\<^sup>*\<^sup>* s t" and "tts_poll v now l (ts_pool s) = (answer, q)"
  shows "lease_phase l (ts_pool s) \<le> lease_phase l (ts_pool t) \<and>
     (case answer of
        Inl e \<Rightarrow> e = TtsUnknownLease \<and> lease_phase l (ts_pool s) \<in> {0, 4} \<and> q = ts_pool s
      | Inr None \<Rightarrow> lease_phase l (ts_pool s) \<in> {1, 2, 3} \<and> q = ts_pool s
      | Inr (Some e) \<Rightarrow> lease_phase l (ts_pool s) \<in> {1, 2} \<and>
          (if e = TtsTimedOut then lease_phase l (ts_pool s) = 1 \<and> lease_phase l q = 2
           else if e = TtsCleanupTimedOut then lease_phase l (ts_pool s) = 2 \<and> lease_phase l q = 3
           else if is_terminal e then lease_phase l q = 4
           else lease_phase l q = lease_phase l (ts_pool s)))"
proof -
  let ?p = "ts_pool s"
  have inv: "tts_inv s" by (rule tts.reach_inv [OF assms(1)])
  then have ok: "pool_ok ?p" by (simp add: tts_inv_def)
  have "lease_phase l ?p \<le> lease_phase l (ts_pool t)"
    using reach_advances [OF assms(2) inv] by (simp add: advances_def)
  moreover have "case answer of
        Inl e \<Rightarrow> e = TtsUnknownLease \<and> lease_phase l ?p \<in> {0, 4} \<and> q = ?p
      | Inr None \<Rightarrow> lease_phase l ?p \<in> {1, 2, 3} \<and> q = ?p
      | Inr (Some e) \<Rightarrow> lease_phase l ?p \<in> {1, 2} \<and>
          (if e = TtsTimedOut then lease_phase l ?p = 1 \<and> lease_phase l q = 2
           else if e = TtsCleanupTimedOut then lease_phase l ?p = 2 \<and> lease_phase l q = 3
           else if is_terminal e then lease_phase l q = 4
           else lease_phase l q = lease_phase l ?p)"
  proof (cases "hm_get (tp_slots ?p) l")
    case None
    with assms(3) show ?thesis by (auto simp: tts_poll_def lease_phase_def)
  next
    case (Some sl)
    with ok have sl: "slot_ok ?p l sl" by (simp add: pool_ok_def)
    show ?thesis
    proof (cases "sl_events sl")
      case Nil
      with assms(3) Some sl show ?thesis
        by (auto simp: tts_poll_def deliver_event_def extends_deadline_def slot_ok_def Let_def phase_simps keyed_simps
            split: if_splits option.splits)
    next
      case (Cons e es)
      with sl have "worker_event e" by (simp add: slot_ok_def)
      then have "e \<noteq> TtsTimedOut" "e \<noteq> TtsCleanupTimedOut" by auto
      with Cons assms(3) Some sl show ?thesis
        by (auto simp: tts_poll_def deliver_event_def slot_ok_def Let_def phase_simps keyed_simps
            split: if_splits option.splits)
    qed
  qed
  ultimately show ?thesis by blast
qed

lemma lease_moves_forward_witness:
  "lease_phase 1 one_lease = 1 \<and> fst (tts_poll demo_view 20000 1 one_lease) = Inr (Some TtsTimedOut) \<and>
   lease_phase 1 (snd (tts_poll demo_view 20000 1 one_lease)) = 2"
proof -
  have answer: "fst (tts_poll demo_view 20000 1 one_lease) = Inr (Some TtsTimedOut)"
    by (simp add: one_lease_def run_simps cong: let_weak_cong)
  have pool: "ts_pool (demo_sys one_lease) = one_lease" by (simp add: demo_sys_def)
  have "tts_poll demo_view 20000 1 (ts_pool (demo_sys one_lease)) =
      (Inr (Some TtsTimedOut), snd (tts_poll demo_view 20000 1 one_lease))"
    unfolding pool answer [symmetric] by simp
  from lease_moves_forward [OF demo_reach [OF one_lease_run] rtranclp.rtrancl_refl this] answer
  show ?thesis by (simp add: pool del: One_nat_def)
qed

section \<open>Two runs that go wrong\<close>

text \<open>
  A stream keeps the worker it was given between its sentences, but a new stream may be given the same
  idle worker. When the first stream closes, \<open>close_stream\<close> frees and resets that worker although a lease
  of the second one is running on it; the next lease then queues behind it while another worker is idle.
\<close>

definition shared_run :: "tts_op list" where
  "shared_run = [OpBegin, OpBegin, OpStart 0 (Some 1), OpReceive True 0, OpFinish True 0, OpPoll 1 1,
     OpStart 2 (Some 2), OpReceive True 0, OpClose 1, OpStart 3 None]"

theorem close_stream_frees_a_running_worker:
  "\<exists>p. reach tts_init tts_step (demo_sys p) \<and>
     map (\<lambda>(l, sl). (l, sl_worker sl)) (tp_slots p) = [(3, 0), (2, 0)] \<and>
     wk_running (tp_workers p ! 0) = Some 2 \<and> worker_free (tp_workers p ! 1)"
proof -
  let ?ok = "\<lambda>p. map (\<lambda>(l, sl). (l, sl_worker sl)) (tp_slots p) = [(3, 0), (2, 0)] \<and>
      wk_running (tp_workers p ! 0) = Some 2 \<and> worker_free (tp_workers p ! 1)"
  have "case run_ops shared_run demo_pool of None \<Rightarrow> False | Some p \<Rightarrow> ?ok p"
    by (simp add: shared_run_def run_simps cong: let_weak_cong)
  then obtain p where p: "run_ops shared_run demo_pool = Some p" "?ok p" by (rule run_result)
  have "reach tts_init tts_step (demo_sys p)" by (rule demo_reach [OF p(1)])
  with p(2) show ?thesis by (intro exI [of _ p] conjI) simp_all
qed

text \<open>
  A worker whose native reset fails drops the starts that wait in its queue. The lease of such a start
  ends with \<open>Failed\<close>, and \<open>release_terminal\<close> marks the dead worker as waiting for a reset that no thread
  will acknowledge: from then on \<open>reset_pending\<close> holds until the pool is unloaded, and every caller that
  waits for it after a finished synthesis waits forever.
\<close>

definition stuck_reset :: "nat \<Rightarrow> 'f tts_pool \<Rightarrow> bool" where
  "stuck_reset i p \<longleftrightarrow>
     i < length (tp_workers p) \<and> \<not> wk_alive (tp_workers p ! i) \<and> wk_reset_pending (tp_workers p ! i)"

lemma stuck_update_worker:
  "stuck_reset i p \<Longrightarrow> \<forall>w. \<not> wk_alive w \<and> wk_reset_pending w \<longrightarrow> \<not> wk_alive (f w) \<and> wk_reset_pending (f w) \<Longrightarrow>
     stuck_reset i (update_worker j f p)"
  by (auto simp: stuck_reset_def nth_update_worker)

lemma stuck_cong: "tp_workers p = tp_workers q \<Longrightarrow> stuck_reset i p = stuck_reset i q"
  by (simp add: stuck_reset_def)

lemma stuck_update_slot [simp]: "stuck_reset i (update_slot l g p) = stuck_reset i p"
  by (rule stuck_cong) simp

lemma stuck_fields [simp]:
  "stuck_reset i (p\<lparr>tp_slots := m\<rparr>) = stuck_reset i p" "stuck_reset i (p\<lparr>tp_streams := ms\<rparr>) = stuck_reset i p"
  "stuck_reset i (p\<lparr>tp_closed_streams := cs\<rparr>) = stuck_reset i p" "stuck_reset i (p\<lparr>tp_next := n\<rparr>) = stuck_reset i p"
  "stuck_reset i (p\<lparr>tp_store := st\<rparr>) = stuck_reset i p" "stuck_reset i (drop_permit_of c p) = stuck_reset i p"
  by (simp_all add: stuck_reset_def drop_permit_of_def split: option.split)

lemma stuck_free_and_reset:
  "\<not> wk_alive w \<Longrightarrow> \<not> wk_alive (free_and_reset cap w) \<and> wk_reset_pending (free_and_reset cap w)"
  by (simp add: free_and_reset_def try_send_reset_def)

lemma stuck_release: "stuck_reset i p \<Longrightarrow> stuck_reset i (release_terminal v l p)"
  by (auto simp: release_terminal_def Let_def stuck_free_and_reset split: option.split intro!: stuck_update_worker)

lemma stuck_quarantine: "stuck_reset i p \<Longrightarrow> stuck_reset i (quarantine_slot l p)"
  by (simp add: quarantine_slot_def stuck_update_worker split: option.split)

lemma stuck_start: "stuck_reset i p \<Longrightarrow> stuck_reset i (snd (start_with_permit v now stream request permit p))"
proof -
  assume "stuck_reset i p"
  then have "stuck_reset i (occupy stream j p)" for j
    by (simp add: occupy_def stuck_update_worker split: option.split)
  then show ?thesis using \<open>stuck_reset i p\<close>
    by (simp add: start_with_permit_def send_start_def Let_def stuck_release stuck_update_worker split: sum.split)
qed

lemma stuck_end_worker: "stuck_reset i p \<Longrightarrow> stuck_reset i (end_worker j p)"
proof -
  assume "stuck_reset i p"
  then have "stuck_reset i (fold (\<lambda>l. update_slot l (\<lambda>sl. sl\<lparr>sl_disconnected := True\<rparr>)) ls p)" for ls
    by (induction ls arbitrary: p) simp_all
  then show ?thesis by (simp add: end_worker_def Let_def stuck_update_worker)
qed

lemma stuck_receive:
  assumes "stuck_reset i p" and "wk_alive (tp_workers p ! j)"
  shows "stuck_reset i (worker_receive ok j p)"
proof -
  have "i \<noteq> j" using assms by (auto simp: stuck_reset_def)
  then have upd: "stuck_reset i q \<Longrightarrow> stuck_reset i (update_worker j f q)" for f q
    by (simp add: stuck_reset_def nth_update_worker)
  show ?thesis using assms(1)
    by (simp add: worker_receive_def Let_def upd stuck_end_worker split: list.split worker_command.split)
qed

lemma stuck_step:
  "tts_step s t \<Longrightarrow> stuck_reset i (ts_pool s) \<Longrightarrow> stuck_reset i (ts_pool t) \<or> tp_unloading (ts_pool t) \<or> tp_unloaded (ts_pool t)"
proof (induction rule: tts_step.induct)
  case (tts_shutdown_begin v s)
  then show ?case by (auto simp: shutdown_begin_def Let_def stuck_reset_def)
next
  case (tts_shutdown_end s joined)
  then show ?case by (auto simp: shutdown_end_def)
next
  case (tts_admit_diagnostic v s c p)
  then show ?case by (auto simp: admit_diagnostic_def split: if_splits option.splits)
next
  case (tts_begin v s)
  then show ?case by (auto simp: begin_stream_def Let_def stuck_reset_def)
qed (simp_all add: close_stream_def start_internal_def start_background_def tts_poll_def deliver_event_def tts_cancel_def
    detach_pass_def worker_emit_def worker_finish_def Let_def stuck_start stuck_quarantine stuck_release stuck_receive
    stuck_update_worker stuck_free_and_reset split: option.split list.split tts_event.split)

lemma unload_frame:
  "tp_unloading (release_terminal v l p) = tp_unloading p" "tp_unloaded (release_terminal v l p) = tp_unloaded p"
  "tp_unloading (quarantine_slot l p) = tp_unloading p" "tp_unloaded (quarantine_slot l p) = tp_unloaded p"
  "tp_unloading (drop_permit_of c p) = tp_unloading p" "tp_unloaded (drop_permit_of c p) = tp_unloaded p"
  "tp_unloading (occupy stream i p) = tp_unloading p" "tp_unloaded (occupy stream i p) = tp_unloaded p"
  by (simp_all add: release_terminal_def quarantine_slot_def drop_permit_of_def occupy_def Let_def split: option.split)

lemma unload_start:
  "tp_unloading (snd (start_with_permit v now stream request permit p)) = tp_unloading p"
  "tp_unloaded (snd (start_with_permit v now stream request permit p)) = tp_unloaded p"
  by (simp_all add: start_with_permit_def unload_frame Let_def split: sum.split)

lemma unload_end_worker:
  "tp_unloading (end_worker i p) = tp_unloading p" "tp_unloaded (end_worker i p) = tp_unloaded p"
proof -
  have "tp_unloading (fold (\<lambda>l. update_slot l (\<lambda>sl. sl\<lparr>sl_disconnected := True\<rparr>)) ls p) = tp_unloading p \<and>
      tp_unloaded (fold (\<lambda>l. update_slot l (\<lambda>sl. sl\<lparr>sl_disconnected := True\<rparr>)) ls p) = tp_unloaded p" for ls
    by (induction ls arbitrary: p) simp_all
  then show "tp_unloading (end_worker i p) = tp_unloading p" "tp_unloaded (end_worker i p) = tp_unloaded p"
    by (simp_all add: end_worker_def Let_def)
qed

lemma unloading_step:
  "tts_step s t \<Longrightarrow> tp_unloading (ts_pool s) \<or> tp_unloaded (ts_pool s) \<Longrightarrow> tp_unloading (ts_pool t) \<or> tp_unloaded (ts_pool t)"
proof (induction rule: tts_step.induct)
  case (tts_admit_diagnostic v s c p)
  then show ?case by (auto simp: admit_diagnostic_def split: if_splits option.splits)
qed (auto simp: begin_stream_def close_stream_def start_internal_def start_background_def tts_poll_def deliver_event_def
    tts_cancel_def detach_pass_def worker_receive_def worker_emit_def worker_finish_def shutdown_begin_def shutdown_end_def
    unload_frame unload_start unload_end_worker Let_def
    split: option.split list.split tts_event.split worker_command.split)

definition stuck_run :: "tts_op list" where
  "stuck_run = [OpBegin, OpStart 0 (Some 1), OpReceive True 0, OpFinish True 0, OpPoll 1 1, OpClose 1,
     OpStart 2 None, OpReceive False 0, OpPoll 3 2]"

theorem failed_reset_is_never_acknowledged:
  "\<exists>p. reach tts_init tts_step (demo_sys p) \<and> tp_slots p = [] \<and>
     (\<forall>t. tts_step\<^sup>*\<^sup>* (demo_sys p) t \<longrightarrow>
        reset_pending (ts_pool t) \<or> tp_unloading (ts_pool t) \<or> tp_unloaded (ts_pool t))"
proof -
  have "case run_ops stuck_run demo_pool of None \<Rightarrow> False | Some p \<Rightarrow> tp_slots p = [] \<and> stuck_reset 0 p"
    by (simp add: stuck_run_def stuck_reset_def run_simps cong: let_weak_cong)
  then obtain p where p: "run_ops stuck_run demo_pool = Some p" "tp_slots p = [] \<and> stuck_reset 0 p"
    by (rule run_result)
  have "reset_pending (ts_pool t) \<or> tp_unloading (ts_pool t) \<or> tp_unloaded (ts_pool t)"
    if "tts_step\<^sup>*\<^sup>* (demo_sys p) t" for t
  proof -
    have "stuck_reset 0 (ts_pool t) \<or> tp_unloading (ts_pool t) \<or> tp_unloaded (ts_pool t)"
      using that p(2)
      by (induction rule: rtranclp_induct) (auto simp: demo_sys_def dest: stuck_step [of _ _ 0] unloading_step)
    then show ?thesis by (auto simp: reset_pending_def stuck_reset_def list_ex_iff)
  qed
  with p(2) demo_reach [OF p(1)] show ?thesis by (intro exI [of _ p]) simp
qed

end
