(* ===== verification/Tts_Diagnostic.thy ===== *)
theory Tts_Diagnostic
  imports Tts_Theorems
begin

text \<open>
  Diagnostics and one-shot background synthesis on the TTS pool (\<open>workers/tts/diagnostic.rs\<close>): the
  effective request, the collection of the chunks, the WAV file, and one pass of each polling loop.
\<close>

section \<open>The WAV file\<close>

datatype diagnostic_error = DiagnosticUnavailable | DiagnosticInvalidResponse | DiagnosticFailed

definition MAX_DIAGNOSTIC_WAV_BYTES :: nat where
  "MAX_DIAGNOSTIC_WAV_BYTES = 16 * 1024 * 1024"

type_synonym collected = "nat option \<times> int list"

definition append_pcm :: "'f f32_ops \<Rightarrow> collected \<Rightarrow> 'f pcm_f32 \<Rightarrow> diagnostic_error + collected" where
  "append_pcm ops acc pcm =
     (case acc of (rate, output) \<Rightarrow>
        if pf_rate pcm = 0 \<or> (case rate of None \<Rightarrow> False | Some r \<Rightarrow> r \<noteq> pf_rate pcm) then Inl DiagnosticInvalidResponse
        else if (MAX_DIAGNOSTIC_WAV_BYTES - 44) div 2 < saturating_add_u64 (length output) (length (pf_samples pcm)) \<or>
          list_ex (\<lambda>x. \<not> f_finite ops x) (pf_samples pcm) then Inl DiagnosticInvalidResponse
        else Inr (Some (pf_rate pcm), output @ map (float_to_i16 ops) (pf_samples pcm)))"

fun le_bytes :: "nat \<Rightarrow> nat \<Rightarrow> nat list" where
  "le_bytes 0 n = []"
| "le_bytes (Suc k) n = n mod 256 # le_bytes k (n div 256)"

definition i16_bytes :: "int \<Rightarrow> nat list" where
  "i16_bytes x = le_bytes 2 (nat (x mod 65536))"

text \<open>The checked arithmetic fails where the bounds of \<open>usize\<close> and \<open>u32\<close> are passed.\<close>

definition wav :: "collected \<Rightarrow> diagnostic_error + nat list" where
  "wav acc =
     (case acc of
        (None, samples) \<Rightarrow> Inl DiagnosticInvalidResponse
      | (Some rate, samples) \<Rightarrow>
          let data_bytes = length samples * 2 in
          if samples = [] \<or> 2 ^ 64 \<le> data_bytes \<or> 2 ^ 32 \<le> data_bytes \<or> 2 ^ 32 \<le> 36 + data_bytes \<or> 2 ^ 32 \<le> rate * 2
          then Inl DiagnosticInvalidResponse
          else Inr (lit ''RIFF'' @ le_bytes 4 (36 + data_bytes) @ lit ''WAVEfmt '' @ le_bytes 4 16 @ le_bytes 2 1 @
                    le_bytes 2 1 @ le_bytes 4 rate @ le_bytes 4 (rate * 2) @ le_bytes 2 2 @ le_bytes 2 16 @
                    lit ''data'' @ le_bytes 4 data_bytes @ concat (map i16_bytes samples)))"

section \<open>Requests\<close>

text \<open>
  \<open>adapter\<close>, \<open>validate\<close> and \<open>voice_locale\<close> are the provider's name, its own check of a request and the
  locale its catalogue gives a voice.
\<close>

definition effective_diagnostic_request ::
    "rstr \<Rightarrow> (tts_diagnostic_request \<Rightarrow> bool) \<Rightarrow> (rstr \<Rightarrow> rstr option) \<Rightarrow> tts_view \<Rightarrow> tts_diagnostic_request \<Rightarrow>
     tts_request option" where
  "effective_diagnostic_request adapter validate voice_locale v r =
     (let binding = tv_binding v;
          voice = (case td_voice r of None \<Rightarrow> tb_voice binding | Some x \<Rightarrow> x);
          fallback = (if tb_language binding = [] \<or> tb_language binding = lit ''und'' then lit ''vi-VN''
                      else tb_language binding);
          language = (case td_language r of
                        Some x \<Rightarrow> x
                      | None \<Rightarrow>
                          if adapter = lit ''edge_tts'' \<and> td_voice r \<noteq> None
                          then (case voice_locale voice of None \<Rightarrow> fallback | Some x \<Rightarrow> x) else fallback);
          checked = (if adapter = lit ''zerotts_onnx''
                     then validate \<lparr>td_text = td_text r, td_voice = Some voice, td_language = Some language\<rparr>
                     else validate r)
      in if checked
         then Some \<lparr>tq_text = td_text r, tq_selection = \<lparr>tb_voice = voice, tb_language = language\<rparr>\<rparr> else None)"

definition start_diagnostic ::
    "rstr \<Rightarrow> (tts_diagnostic_request \<Rightarrow> bool) \<Rightarrow> (rstr \<Rightarrow> rstr option) \<Rightarrow> tts_view \<Rightarrow> instant \<Rightarrow> tts_diagnostic_request \<Rightarrow>
     'f tts_pool \<Rightarrow> (tts_error + nat) \<times> 'f tts_pool" where
  "start_diagnostic adapter validate voice_locale v now r p =
     (case effective_diagnostic_request adapter validate voice_locale v r of
        None \<Rightarrow> (Inl TtsInvalidConfig, p)
      | Some request \<Rightarrow> start_internal v now None (DiagnosticWork request r) False p)"

section \<open>The polling loops\<close>

text \<open>
  What one turn of a loop does next: poll again later, wait for the workers' resets and then build
  the WAV file, or return the error. \<open>terminal\<close> is the flag the operation keeps for its cleanup.
\<close>

datatype 'e pass = Continue collected | Complete collected | Return 'e

definition diagnostic_pass ::
    "'f f32_ops \<Rightarrow> tts_view \<Rightarrow> instant \<Rightarrow> nat \<Rightarrow> collected \<Rightarrow> bool \<Rightarrow> 'f tts_pool \<Rightarrow>
     diagnostic_error pass \<times> bool \<times> 'f tts_pool" where
  "diagnostic_pass ops v now l acc terminal p =
     (case tts_poll v now l p of
        (Inl _, q) \<Rightarrow> (Return DiagnosticFailed, terminal, q)
      | (Inr None, q) \<Rightarrow> (Continue acc, terminal, q)
      | (Inr (Some (TtsPcm pcm)), q) \<Rightarrow>
          (case append_pcm ops acc pcm of
             Inl e \<Rightarrow> (Return e, terminal, q)
           | Inr acc' \<Rightarrow> (Continue acc', terminal, q))
      | (Inr (Some TtsFinished), q) \<Rightarrow> (Complete acc, True, q)
      | (Inr (Some TtsFailed), q) \<Rightarrow> (Return DiagnosticFailed, True, q)
      | (Inr (Some TtsCancelled), q) \<Rightarrow> (Return DiagnosticFailed, True, q)
      | (Inr (Some TtsCleanupTimedOut), q) \<Rightarrow> (Return DiagnosticUnavailable, terminal, q)
      | (Inr (Some TtsTimedOut), q) \<Rightarrow> (Continue acc, terminal, q))"

text \<open>\<open>await_terminal_acknowledgement\<close>: \<open>Some\<close> answer ends the loop before the wait for resets.\<close>

definition acknowledge_pass ::
    "tts_view \<Rightarrow> instant \<Rightarrow> nat \<Rightarrow> 'f tts_pool \<Rightarrow> bool option \<times> 'f tts_pool" where
  "acknowledge_pass v now l p =
     (case tts_poll v now l p of
        (Inl _, q) \<Rightarrow> (Some False, q)
      | (Inr None, q) \<Rightarrow> (None, q)
      | (Inr (Some e), q) \<Rightarrow>
          (if is_terminal e then Some True else if e = TtsCleanupTimedOut then Some False else None, q))"

definition background_class :: "tts_view \<Rightarrow> 'f tts_pool \<Rightarrow> workload_class" where
  "background_class v p = (if has_background_capacity (tp_store p) (tv_admission v) then Background else Voice)"

definition background_request ::
    "rstr \<Rightarrow> (tts_diagnostic_request \<Rightarrow> bool) \<Rightarrow> (rstr \<Rightarrow> rstr option) \<Rightarrow> tts_view \<Rightarrow> rstr \<Rightarrow> rstr \<Rightarrow> tts_request" where
  "background_request adapter validate voice_locale v resolved input =
     (let plain = \<lparr>tq_text = input, tq_selection = tv_binding v\<rparr>
      in if resolved \<noteq> [] \<and> resolved \<noteq> tb_voice (tv_binding v)
         then (case effective_diagnostic_request adapter validate voice_locale v
                      \<lparr>td_text = input, td_voice = Some resolved, td_language = None\<rparr> of
                 None \<Rightarrow> plain
               | Some r \<Rightarrow> r)
         else plain)"

definition background_start ::
    "tts_request \<Rightarrow> tts_view \<Rightarrow> instant \<Rightarrow> 'f tts_pool \<Rightarrow> (tts_error + nat) \<times> 'f tts_pool" where
  "background_start request v now p =
     (case try_admit (tp_store p) (tv_admission v) (background_class v p) of
        None \<Rightarrow> (Inl TtsCapacity, p)
      | Some (store, permit) \<Rightarrow>
          start_with_permit v now None (VoiceWork request) (Some permit) (p\<lparr>tp_store := store\<rparr>))"

definition background_pass ::
    "'f f32_ops \<Rightarrow> tts_view \<Rightarrow> instant \<Rightarrow> nat \<Rightarrow> collected \<Rightarrow> 'f tts_pool \<Rightarrow> tts_error pass \<times> 'f tts_pool" where
  "background_pass ops v now l acc p =
     (case tts_poll v now l p of
        (Inl e, q) \<Rightarrow> (Return e, q)
      | (Inr None, q) \<Rightarrow> (Continue acc, q)
      | (Inr (Some (TtsPcm pcm)), q) \<Rightarrow>
          (case append_pcm ops acc pcm of
             Inl _ \<Rightarrow> (Return TtsInvalidConfig, snd (tts_cancel v now l q))
           | Inr acc' \<Rightarrow> (Continue acc', q))
      | (Inr (Some TtsFinished), q) \<Rightarrow> (Complete acc, q)
      | (Inr (Some TtsTimedOut), q) \<Rightarrow> (Return TtsCapacity, snd (tts_cancel v now l q))
      | (Inr (Some _), q) \<Rightarrow> (Return TtsInitialization, q))"

section \<open>The WAV file reads back\<close>

fun read_le :: "nat list \<Rightarrow> nat" where
  "read_le [] = 0"
| "read_le (b # bs) = b + 256 * read_le bs"

definition read_at :: "nat \<Rightarrow> nat \<Rightarrow> nat list \<Rightarrow> nat" where
  "read_at offset k bytes = read_le (take k (drop offset bytes))"

definition i16_of :: "nat \<Rightarrow> int" where
  "i16_of n = (if n < 32768 then int n else int n - 65536)"

fun read_samples :: "nat list \<Rightarrow> int list" where
  "read_samples (a # b # bs) = i16_of (read_le [a, b]) # read_samples bs"
| "read_samples _ = []"

lemma le_bytes_length [simp]: "length (le_bytes k n) = k"
  by (induction k arbitrary: n) simp_all

lemma read_le_bytes: "n < 256 ^ k \<Longrightarrow> read_le (le_bytes k n) = n"
  by (induction k arbitrary: n) (simp_all add: less_mult_imp_div_less mult.commute)

lemma i16_bytes_read:
  "- 32768 \<le> x \<Longrightarrow> x < 32768 \<Longrightarrow> \<exists>a b. i16_bytes x = [a, b] \<and> i16_of (read_le [a, b]) = x"
proof -
  assume x: "- 32768 \<le> x" "x < 32768"
  have "nat (x mod 65536) < 256 ^ 2" by (simp add: nat_less_iff)
  then have "read_le (i16_bytes x) = nat (x mod 65536)" unfolding i16_bytes_def by (rule read_le_bytes)
  moreover have "i16_of (nat (x mod 65536)) = x"
  proof (cases "0 \<le> x")
    case True
    with x show ?thesis by (simp add: i16_of_def nat_less_iff)
  next
    case False
    then have "x mod 65536 = x + 65536" using x by (subst mod_add_self2 [symmetric]) (simp only: mod_pos_pos_trivial)
    with x False show ?thesis by (simp add: i16_of_def nat_less_iff)
  qed
  moreover have "length (i16_bytes x) = 2" by (simp add: i16_bytes_def)
  ultimately show ?thesis by (auto simp: length_Suc_conv numeral_2_eq_2)
qed

lemma read_samples_bytes:
  "list_all (\<lambda>x. - 32768 \<le> x \<and> x < 32768) xs \<Longrightarrow> read_samples (concat (map i16_bytes xs)) = xs"
proof (induction xs)
  case (Cons x xs)
  then obtain a b where "i16_bytes x = [a, b]" "i16_of (read_le [a, b]) = x" using i16_bytes_read [of x] by auto
  with Cons show ?case by simp
qed simp

lemma samples_length: "length (concat (map i16_bytes xs)) = 2 * length xs"
  by (induction xs) (simp_all add: i16_bytes_def)

lemma read_prefix: "length bs = k \<Longrightarrow> read_at 0 k (bs @ cs) = read_le bs"
  by (simp add: read_at_def)

lemma read_skip: "length bs = n \<Longrightarrow> read_at (n + m) k (bs @ cs) = read_at m k cs"
  by (simp add: read_at_def)

text \<open>
  C36: the WAV file of a diagnostic reads back. It is refused exactly when no audio was collected (no rate or no
  sample) or when a header field would not fit in its 32 bits. Otherwise a reader of the RIFF format finds, at the
  offsets the format gives them, the tags, uncompressed mono PCM of 16 bits, the sample and byte rates, the two sizes
  (the length of the file less 8 and less 44 bytes), and after the 44-byte header the collected samples.
\<close>

theorem diagnostic_wav_reads_back:
  assumes "list_all (\<lambda>x. - 32768 \<le> x \<and> x < 32768) xs"
  shows "wav (None, xs) = Inl DiagnosticInvalidResponse \<and>
    (wav (Some rate, xs) = Inl DiagnosticInvalidResponse \<longleftrightarrow> xs = [] \<or> 2 ^ 32 \<le> 36 + 2 * length xs \<or> 2 ^ 31 \<le> rate) \<and>
    (case wav (Some rate, xs) of
       Inl e \<Rightarrow> e = DiagnosticInvalidResponse
     | Inr bytes \<Rightarrow>
         take 4 bytes = lit ''RIFF'' \<and> take 8 (drop 8 bytes) = lit ''WAVEfmt '' \<and> take 4 (drop 36 bytes) = lit ''data'' \<and>
         read_at 4 4 bytes + 8 = length bytes \<and> read_at 40 4 bytes + 44 = length bytes \<and>
         read_at 16 4 bytes = 16 \<and> read_at 20 2 bytes = 1 \<and> read_at 22 2 bytes = 1 \<and> read_at 34 2 bytes = 16 \<and>
         read_at 24 4 bytes = rate \<and> read_at 28 4 bytes = 2 * rate \<and> read_at 32 2 bytes = 2 \<and>
         length bytes = 44 + 2 * length xs \<and> read_samples (drop 44 bytes) = xs)"
proof (cases "xs = [] \<or> 2 ^ 32 \<le> 36 + 2 * length xs \<or> 2 ^ 31 \<le> rate")
  case True
  then have "wav (Some rate, xs) = Inl DiagnosticInvalidResponse" by (auto simp: wav_def Let_def)
  with True show ?thesis by (simp add: wav_def)
next
  case False
  let ?d = "length xs * 2" and ?s = "concat (map i16_bytes xs)"
  define bytes where "bytes = lit ''RIFF'' @ le_bytes 4 (36 + ?d) @ lit ''WAVEfmt '' @ le_bytes 4 16 @ le_bytes 2 1 @
    le_bytes 2 1 @ le_bytes 4 rate @ le_bytes 4 (rate * 2) @ le_bytes 2 2 @ le_bytes 2 16 @ lit ''data'' @ le_bytes 4 ?d @ ?s"
  have lens: "length (lit ''RIFF'') = 4" "length (lit ''WAVEfmt '') = 8" "length (lit ''data'') = 4" by (simp_all add: lit_def)
  have small: "36 + ?d < 256 ^ 4" "rate < 256 ^ 4" "?d < 256 ^ 4" "rate * 2 < 256 ^ 4" using False by simp_all
  have w: "wav (Some rate, xs) = Inr bytes" using False by (auto simp: wav_def Let_def bytes_def)
  have sizes: "read_at 4 4 bytes = 36 + ?d" "read_at 24 4 bytes = rate" "read_at 40 4 bytes = ?d" "read_at 28 4 bytes = rate * 2"
    unfolding bytes_def read_at_def
    using read_le_bytes [OF small(1)] read_le_bytes [OF small(2)] read_le_bytes [OF small(3)] read_le_bytes [OF small(4)] lens
    by simp_all
  have form: "read_at 16 4 bytes = 16" "read_at 20 2 bytes = 1" "read_at 22 2 bytes = 1" "read_at 34 2 bytes = 16"
      "read_at 32 2 bytes = 2"
    unfolding bytes_def read_at_def
    using read_le_bytes [of 16 4] read_le_bytes [of 1 2] read_le_bytes [of 16 2] read_le_bytes [of 2 2] lens by simp_all
  have parts: "drop 44 bytes = ?s" "take 4 bytes = lit ''RIFF''" "take 8 (drop 8 bytes) = lit ''WAVEfmt ''"
      "take 4 (drop 36 bytes) = lit ''data''" "length bytes = 44 + 2 * length xs"
    unfolding bytes_def using lens by (simp_all add: samples_length)
  from False have "wav (Some rate, xs) = Inl DiagnosticInvalidResponse \<longleftrightarrow> xs = [] \<or> 2 ^ 32 \<le> 36 + 2 * length xs \<or> 2 ^ 31 \<le> rate"
    by (simp only: w) simp
  moreover have "wav (None, xs) = Inl DiagnosticInvalidResponse" by (simp add: wav_def)
  ultimately show ?thesis
    using sizes form parts read_samples_bytes [OF assms] by (simp only: w sum.case) simp
qed

lemma diagnostic_wav_reads_back_witness:
  "\<exists>bytes. wav (Some 24000, [1, - 2]) = Inr bytes \<and> read_samples (drop 44 bytes) = [1, - 2] \<and> length bytes = 48 \<and>
     read_at 24 4 bytes = 24000"
proof -
  obtain bytes where "wav (Some 24000, [1, - 2]) = Inr bytes" by (simp add: wav_def Let_def)
  with diagnostic_wav_reads_back [of "[1, - 2]" 24000] show ?thesis by simp
qed

section \<open>An aborted background clip keeps its lease\<close>

text \<open>
  \<open>synthesize_background_wav\<close> gives up on a timeout with \<open>cancel\<close> alone. The lease then still owns its
  permit and its worker, the answer is final, and no thread watches it: only another poll of this
  lease, which its caller has forgotten, could give them back.
\<close>

theorem background_timeout_keeps_lease:
  assumes "hm_get (tp_slots p) l = Some sl" and "fst (tts_poll v t l p) = Inr (Some TtsTimedOut)"
    and "list_all worker_event (sl_events sl)"
  shows "fst (background_pass ops v t l acc p) = Return TtsCapacity \<and>
     (case hm_get (tp_slots (snd (background_pass ops v t l acc p))) l of
        None \<Rightarrow> False
      | Some held \<Rightarrow> sl_permit held = sl_permit sl \<and> sl_worker held = sl_worker sl)"
proof -
  have "sl_events sl \<noteq> [] \<Longrightarrow> hd (sl_events sl) \<noteq> TtsTimedOut" using assms(3) by (cases "sl_events sl") auto
  then have "tts_poll v t l p = (Inr (Some TtsTimedOut), update_slot l (\<lambda>sl. sl\<lparr>sl_cancelled := True,
      sl_cleanup_deadline := Some (t + wc_cleanup_grace (tv_config v))\<rparr>) p)"
    using assms(1,2) by (auto simp: tts_poll_def split: if_splits list.splits)
  then show ?thesis using assms(1) by (simp add: background_pass_def tts_cancel_def keyed_simps)
qed

end
