(* ===== verification/Speech_Output.thy ===== *)
theory Speech_Output
  imports Speech_Text Downlink Tts_Runtime
begin

text \<open>
  The speech output of a session (\<open>session/speech_output/mod.rs\<close>, \<open>pacing.rs\<close>, \<open>pipeline.rs\<close>): model
  text is filtered and cut into segments, each segment is synthesised on a lease of the TTS pool,
  converted to packets and paced to the device. The output and the pool it shares with other sessions
  are passed explicitly. An operation that may panic or not return gives an option, and \<open>None\<close> is that
  outcome. A call reads the clock once; times are in milliseconds.
\<close>

section \<open>State\<close>

definition PACED_FRAME_DURATION :: nat where
  "PACED_FRAME_DURATION = 60"

definition PREBUFFER_PACKETS :: usize where
  "PREBUFFER_PACKETS = 5"

definition MAX_BUFFERED_PACKETS :: usize where
  "MAX_BUFFERED_PACKETS = 32"

datatype speech_event = SegmentReady rstr | SpeechStarted | AudioPacket packet | Drained

datatype speech_error = Backpressure | Synthesis

record segment =
  sg_display :: rstr
  sg_tts :: rstr
  sg_announced :: bool

record ('f, 'e) speech_output =
  so_runtime :: "tts_view option"
  so_stream :: "nat option"
  so_active :: "nat option"
  so_pipeline :: "('f, 'e) downlink"
  so_pending :: "segment list"
  so_packets :: "packet list"
  so_segment_packets :: "packet list"
  so_packet_limit :: "usize option"
  so_sent :: usize
  so_finish_input :: bool
  so_started :: bool
  so_origin :: "instant option"
  so_starved_at :: "instant option"
  so_end_deadline :: "instant option"
  so_filter :: json_filter
  so_direct :: bool
  so_config :: speech_output_config
  so_buffer :: rstr
  so_filtered :: rstr
  so_finish_requested :: bool
  so_max_pending :: usize

text \<open>
  What the module calls outside itself: \<open>f32\<close>, the Opus encoder, the JSON check, the Unicode tables and
  the provider's direct synthesis.
\<close>

record ('f, 'e) speech_env =
  en_ops :: "'f f32_ops"
  en_opus :: "'e \<Rightarrow> pcm16 \<Rightarrow> packet option \<times> 'e"
  en_encoder :: 'e
  en_json :: "rstr \<Rightarrow> bool"
  en_alnum :: "rchar \<Rightarrow> bool"
  en_nfc :: "rstr \<Rightarrow> rstr"
  en_synthesize :: "rstr \<Rightarrow> 'f pcm_f32 option"
  en_prebuffer_ms :: "nat option"

section \<open>Construction\<close>

definition has_pending_capacity :: "('f, 'e) speech_output \<Rightarrow> bool" where
  "has_pending_capacity so \<longleftrightarrow> length (so_pending so) < so_max_pending so \<and> so_filtered so = []"

definition packet_limit :: "nat option \<Rightarrow> usize option" where
  "packet_limit ms =
     map_option (\<lambda>d. (d + PACED_FRAME_DURATION - 1) div PACED_FRAME_DURATION + 1) ms"

definition pipeline_new :: "('f, 'e) speech_env \<Rightarrow> ('f, 'e) downlink" where
  "pipeline_new env = downlink_new (en_ops env) (en_encoder env) MAX_DOWNLINK_OPUS_PACKET_BYTES"

definition with_config :: "('f, 'e) speech_env \<Rightarrow> speech_output_config \<Rightarrow> ('f, 'e) speech_output" where
  "with_config env cfg =
     \<lparr>so_runtime = None, so_stream = None, so_active = None, so_pipeline = pipeline_new env,
      so_pending = [], so_packets = [], so_segment_packets = [], so_packet_limit = packet_limit (en_prebuffer_ms env),
      so_sent = 0, so_finish_input = False, so_started = False, so_origin = None, so_starved_at = None,
      so_end_deadline = None, so_filter = filter_new, so_direct = False, so_config = cfg, so_buffer = [],
      so_filtered = [], so_finish_requested = False, so_max_pending = sc_pending_segments cfg\<rparr>"

definition with_worker ::
    "('f, 'e) speech_env \<Rightarrow> tts_view \<Rightarrow> speech_output_config \<Rightarrow> 'f tts_pool \<Rightarrow> ('f, 'e) speech_output \<times> 'f tts_pool" where
  "with_worker env v cfg p =
     (let (stream, q) = begin_stream v p
      in ((with_config env cfg)\<lparr>so_stream := Some stream, so_runtime := Some v\<rparr>, q))"

definition speech_release :: "('f, 'e) speech_output \<Rightarrow> 'f tts_pool \<Rightarrow> ('f, 'e) speech_output \<times> 'f tts_pool" where
  "speech_release so p =
     (case so_runtime so of
        None \<Rightarrow> (so, p)
      | Some v \<Rightarrow>
          (case so_stream so of
             None \<Rightarrow> (so, p)
           | Some s \<Rightarrow> (so\<lparr>so_stream := None\<rparr>, close_stream v s p)))"

section \<open>Segments\<close>

definition enqueue :: "('f, 'e) speech_env \<Rightarrow> rstr \<Rightarrow> ('f, 'e) speech_output \<Rightarrow> (speech_error + unit) \<times> ('f, 'e) speech_output" where
  "enqueue env input so =
     (let display = trim input;
          spoken = (if so_direct so then display else sanitize_tts_text (en_nfc env) (en_alnum env) display)
      in if display = [] \<or> spoken = [] then (Inr (), so)
         else if so_max_pending so \<le> length (so_pending so) then (Inl Backpressure, so)
         else (Inr (), so\<lparr>so_pending := so_pending so @ [\<lparr>sg_display = display, sg_tts = spoken, sg_announced = False\<rparr>]\<rparr>))"

fun enqueue_all ::
    "('f, 'e) speech_env \<Rightarrow> rstr list \<Rightarrow> ('f, 'e) speech_output \<Rightarrow> (speech_error + unit) \<times> ('f, 'e) speech_output" where
  "enqueue_all env [] so = (Inr (), so)"
| "enqueue_all env (s # ss) so =
     (case enqueue env s so of
        (Inl e, so1) \<Rightarrow> (Inl e, so1)
      | (Inr _, so1) \<Rightarrow> enqueue_all env ss so1)"

text \<open>The loop over the filtered text; the answer says whether it consumed all of it.\<close>

fun advance_loop ::
    "('f, 'e) speech_env \<Rightarrow> rstr \<Rightarrow> ('f, 'e) speech_output \<Rightarrow> ((speech_error + bool) \<times> ('f, 'e) speech_output) option" where
  "advance_loop env [] so = Some (Inr True, so)"
| "advance_loop env (ch # rest) so =
     (if so_max_pending so \<le> length (so_pending so)
      then Some (Inr False, so\<lparr>so_filtered := so_filtered so @ ch # rest\<rparr>)
      else (case seg_push (so_config so) (so_buffer so) [ch] of
              None \<Rightarrow> None
            | Some (segments, buffer) \<Rightarrow>
                (case enqueue_all env segments (so\<lparr>so_buffer := buffer\<rparr>) of
                   (Inl e, so1) \<Rightarrow> Some (Inl e, so1)
                 | (Inr _, so1) \<Rightarrow> advance_loop env rest so1)))"

definition finish_segmenter ::
    "('f, 'e) speech_env \<Rightarrow> ('f, 'e) speech_output \<Rightarrow> (speech_error + unit) \<times> ('f, 'e) speech_output" where
  "finish_segmenter env so =
     (let (segment, buffer) = seg_finish (so_buffer so);
          so1 = so\<lparr>so_buffer := buffer\<rparr>
      in (case segment of
            None \<Rightarrow> (Inr (), so1)
          | Some s \<Rightarrow> enqueue env s so1))"

definition nothing_to_say :: "('f, 'e) speech_output \<Rightarrow> bool" where
  "nothing_to_say so \<longleftrightarrow> \<not> so_started so \<and> so_pending so = [] \<and> so_active so = None \<and> so_packets so = []"

definition advance_filtered_text ::
    "('f, 'e) speech_env \<Rightarrow> ('f, 'e) speech_output \<Rightarrow> ((speech_error + unit) \<times> ('f, 'e) speech_output) option" where
  "advance_filtered_text env so0 =
     (case advance_loop env (so_filtered so0) (so0\<lparr>so_filtered := []\<rparr>) of
        None \<Rightarrow> None
      | Some (Inl e, so) \<Rightarrow> Some (Inl e, so)
      | Some (Inr False, so) \<Rightarrow> Some (Inr (), so)
      | Some (Inr True, so) \<Rightarrow>
          if so_finish_requested so \<and> length (so_pending so) < so_max_pending so
          then (case finish_segmenter env so of
                  (Inl e, so1) \<Rightarrow> Some (Inl e, so1)
                | (Inr _, so1) \<Rightarrow>
                    if nothing_to_say so1 then Some (Inl Synthesis, so1)
                    else Some (Inr (), so1\<lparr>so_finish_input := True\<rparr>))
          else Some (Inr (), so))"

definition push_delta ::
    "('f, 'e) speech_env \<Rightarrow> rstr \<Rightarrow> ('f, 'e) speech_output \<Rightarrow> ((speech_error + unit) \<times> ('f, 'e) speech_output) option" where
  "push_delta env input so =
     (let (out, flt) = filter_push (en_json env) (en_alnum env) input (so_filter so)
      in advance_filtered_text env (so\<lparr>so_filter := flt, so_filtered := so_filtered so @ out\<rparr>))"

definition push_direct_delta ::
    "('f, 'e) speech_env \<Rightarrow> rstr \<Rightarrow> ('f, 'e) speech_output \<Rightarrow> ((speech_error + unit) \<times> ('f, 'e) speech_output) option" where
  "push_direct_delta env input so =
     advance_filtered_text env
       (so\<lparr>so_filter := (if so_direct so then so_filter so else filter_new), so_direct := True,
           so_filtered := so_filtered so @ input\<rparr>)"

definition finish_input ::
    "('f, 'e) speech_env \<Rightarrow> ('f, 'e) speech_output \<Rightarrow> ((speech_error + unit) \<times> ('f, 'e) speech_output) option" where
  "finish_input env so =
     (let (out, flt) = filter_finish (so_filter so)
      in advance_filtered_text env
           (so\<lparr>so_filter := flt, so_filtered := so_filtered so @ out, so_finish_requested := True\<rparr>))"

section \<open>Synthesis\<close>

type_synonym ('f, 'e) speech_state = "('f, 'e) speech_output \<times> 'f tts_pool \<times> nat list"

definition speech_push_pcm ::
    "('f, 'e) speech_env \<Rightarrow> 'f pcm_f32 \<Rightarrow> ('f, 'e) speech_output \<Rightarrow> (speech_error + unit) \<times> ('f, 'e) speech_output" where
  "speech_push_pcm env pcm so =
     (case push_provider_pcm (en_ops env) (en_opus env) (pf_rate pcm) (pf_samples pcm) (so_pipeline so) of
        (Inl _, pl) \<Rightarrow> (Inl Synthesis, so\<lparr>so_pipeline := pl\<rparr>)
      | (Inr pkts, pl) \<Rightarrow>
          (case so_packet_limit so of
             None \<Rightarrow> (Inr (), so\<lparr>so_pipeline := pl, so_packets := so_packets so @ pkts\<rparr>)
           | Some limit \<Rightarrow>
               if limit < length (so_segment_packets so) + length pkts then (Inl Backpressure, so\<lparr>so_pipeline := pl\<rparr>)
               else (Inr (), so\<lparr>so_pipeline := pl, so_segment_packets := so_segment_packets so @ pkts\<rparr>)))"

definition finish_segment :: "('f, 'e) speech_output \<Rightarrow> ('f, 'e) speech_output" where
  "finish_segment so = so\<lparr>so_packets := so_packets so @ so_segment_packets so, so_segment_packets := []\<rparr>"

definition flush_downlink_tail ::
    "('f, 'e) speech_env \<Rightarrow> ('f, 'e) speech_output \<Rightarrow> (speech_error + unit) \<times> ('f, 'e) speech_output" where
  "flush_downlink_tail env so =
     (case downlink_finish (en_ops env) (en_opus env) (so_pipeline so) of
        (Inl _, pl) \<Rightarrow> (Inl Synthesis, so\<lparr>so_pipeline := pl\<rparr>)
      | (Inr pkts, pl) \<Rightarrow> (Inr (), so\<lparr>so_pipeline := pl, so_packets := so_packets so @ pkts\<rparr>))"

definition synthesize_next ::
    "('f, 'e) speech_env \<Rightarrow> instant \<Rightarrow> ('f, 'e) speech_state \<Rightarrow> ((speech_error + unit) \<times> ('f, 'e) speech_state) option" where
  "synthesize_next env now st =
     (case st of (so, p, watched) \<Rightarrow>
        (case so_pending so of
           [] \<Rightarrow> Some (Inr (), st)
         | segment # rest \<Rightarrow>
             let so1 = so\<lparr>so_pending := rest\<rparr> in
             (case so_runtime so of
                Some v \<Rightarrow>
                  (case so_stream so of
                     None \<Rightarrow> None
                   | Some s \<Rightarrow>
                       (case start_in_stream v now s (sg_tts segment) p of
                          (Inl _, q) \<Rightarrow> Some (Inl Synthesis, so1, q, watched)
                        | (Inr l, q) \<Rightarrow> Some (Inr (), so1\<lparr>so_active := Some l\<rparr>, q, watched)))
              | None \<Rightarrow>
                  (case en_synthesize env (sg_tts segment) of
                     None \<Rightarrow> Some (Inl Synthesis, so1, p, watched)
                   | Some pcm \<Rightarrow>
                       (case speech_push_pcm env pcm so1 of
                          (Inl e, so2) \<Rightarrow> Some (Inl e, so2, p, watched)
                        | (Inr _, so2) \<Rightarrow> Some (Inr (), finish_segment so2, p, watched))))))"

section \<open>Cancellation\<close>

definition speech_cancel ::
    "('f, 'e) speech_env \<Rightarrow> instant \<Rightarrow> ('f, 'e) speech_state \<Rightarrow> ('f, 'e) speech_state" where
  "speech_cancel env now st =
     (case st of (so, w) \<Rightarrow>
        let (p, watched) =
              (case so_active so of
                 None \<Rightarrow> w
               | Some l \<Rightarrow> (case so_runtime so of None \<Rightarrow> w | Some v \<Rightarrow> snd (cancel_and_detach v now l w)));
            so1 = so\<lparr>so_active := None, so_pending := [], so_pipeline := pipeline_new env, so_packets := [],
                     so_segment_packets := [], so_sent := 0, so_finish_input := False, so_started := False,
                     so_origin := None, so_starved_at := None, so_end_deadline := None, so_filter := filter_new,
                     so_direct := False, so_buffer := [], so_filtered := [], so_finish_requested := False\<rparr>
        in (case so_runtime so of
              None \<Rightarrow> (so1, p, watched)
            | Some v \<Rightarrow>
                (case so_stream so of
                   None \<Rightarrow> (so1, p, watched)
                 | Some s \<Rightarrow>
                     let (s', q) = begin_stream v (close_stream v s p)
                     in (so1\<lparr>so_stream := Some s'\<rparr>, q, watched))))"

section \<open>One poll\<close>

text \<open>\<open>packet_send_deadline\<close>: the outer option is the panic of its two \<open>expect\<close>s.\<close>

definition packet_send_deadline :: "('f, 'e) speech_output \<Rightarrow> instant option option" where
  "packet_send_deadline so =
     (if so_sent so < PREBUFFER_PACKETS then Some None
      else (case so_origin so of
              None \<Rightarrow> None
            | Some origin \<Rightarrow>
                let paced_index = so_sent so + 1 - PREBUFFER_PACKETS
                in if 2 ^ 32 \<le> paced_index then None
                   else Some (Some (origin + PACED_FRAME_DURATION * paced_index))))"

text \<open>A stage of \<open>poll\<close> returns an answer or goes on to the next one.\<close>

datatype 's stage = Stop "speech_error + speech_event option" 's | Go 's

definition poll_pending ::
    "('f, 'e) speech_env \<Rightarrow> instant \<Rightarrow> ('f, 'e) speech_state \<Rightarrow> ('f, 'e) speech_state stage option" where
  "poll_pending env now st =
     (case st of (so, w) \<Rightarrow>
        (case so_pending so of
           [] \<Rightarrow> Some (Go st)
         | segment # rest \<Rightarrow>
             if \<not> (length (so_packets so) < MAX_BUFFERED_PACKETS \<and> so_active so = None) then Some (Go st)
             else if \<not> sg_announced segment
             then Some (Stop (Inr (Some (SegmentReady (sg_display segment))))
                        (so\<lparr>so_pending := segment\<lparr>sg_announced := True\<rparr> # rest\<rparr>, w))
             else (case synthesize_next env now st of
                     None \<Rightarrow> None
                   | Some (Inl e, st1) \<Rightarrow> Some (Stop (Inl e) st1)
                   | Some (Inr _, st1) \<Rightarrow> Some (Go st1))))"

definition poll_worker ::
    "('f, 'e) speech_env \<Rightarrow> instant \<Rightarrow> ('f, 'e) speech_state \<Rightarrow> ('f, 'e) speech_state stage option" where
  "poll_worker env now st =
     (case st of (so, p, watched) \<Rightarrow>
        (case so_active so of
           None \<Rightarrow> Some (Go st)
         | Some l \<Rightarrow>
             if \<not> (so_packet_limit so \<noteq> None \<or> length (so_packets so) < MAX_BUFFERED_PACKETS) then Some (Go st)
             else (case so_runtime so of
                     None \<Rightarrow> None
                   | Some v \<Rightarrow>
                       (case tts_poll v now l p of
                          (Inl _, q) \<Rightarrow> Some (Stop (Inl Synthesis) (so, q, watched))
                        | (Inr None, q) \<Rightarrow> Some (Go (so, q, watched))
                        | (Inr (Some (TtsPcm pcm)), q) \<Rightarrow>
                            (case speech_push_pcm env pcm so of
                               (Inl e, so1) \<Rightarrow> Some (Stop (Inl e) (so1, q, watched))
                             | (Inr _, so1) \<Rightarrow> Some (Go (so1, q, watched)))
                        | (Inr (Some TtsFinished), q) \<Rightarrow>
                            Some (Go (finish_segment (so\<lparr>so_active := None\<rparr>), q, watched))
                        | (Inr (Some TtsTimedOut), q) \<Rightarrow>
                            Some (Stop (Inl Synthesis)
                              (so\<lparr>so_active := None\<rparr>, snd (cancel_and_detach v now l (q, watched))))
                        | (Inr (Some _), q) \<Rightarrow>
                            Some (Stop (Inl Synthesis) (so\<lparr>so_active := None\<rparr>, q, watched))))))"

definition input_done :: "('f, 'e) speech_output \<Rightarrow> bool" where
  "input_done so \<longleftrightarrow> so_finish_input so \<and> so_pending so = [] \<and> so_active so = None"

definition poll_flush ::
    "('f, 'e) speech_env \<Rightarrow> ('f, 'e) speech_state \<Rightarrow> ('f, 'e) speech_state stage" where
  "poll_flush env st =
     (case st of (so, w) \<Rightarrow>
        if so_packets so = [] \<and> input_done so
        then (case flush_downlink_tail env so of
                (Inl e, so1) \<Rightarrow> Stop (Inl e) (so1, w)
              | (Inr _, so1) \<Rightarrow> Go (so1, w))
        else Go st)"

definition poll_idle ::
    "('f, 'e) speech_env \<Rightarrow> instant \<Rightarrow> ('f, 'e) speech_state \<Rightarrow> ('f, 'e) speech_state stage" where
  "poll_idle env now st =
     (case st of (so, w) \<Rightarrow>
        if so_packets so \<noteq> [] then Go st
        else if input_done so \<and> so_started so \<and> (case so_end_deadline so of None \<Rightarrow> False | Some d \<Rightarrow> d \<le> now)
        then Stop (Inr (Some Drained)) (speech_cancel env now st)
        else Stop (Inr None) st)"

definition poll_start :: "('f, 'e) speech_state \<Rightarrow> ('f, 'e) speech_state stage" where
  "poll_start st =
     (case st of (so, w) \<Rightarrow>
        if so_started so then Go st
        else if so_packet_limit so = None \<and> length (so_packets so) < MAX_BUFFERED_PACKETS \<and>
          (so_active so \<noteq> None \<or> so_pending so \<noteq> []) then Stop (Inr None) st
        else Stop (Inr (Some SpeechStarted)) (so\<lparr>so_started := True\<rparr>, w))"

text \<open>Re-anchoring after starvation: the packet that goes out now is on time.\<close>

definition re_anchor :: "instant \<Rightarrow> ('f, 'e) speech_output \<Rightarrow> instant option option" where
  "re_anchor now so =
     (if (case so_starved_at so of None \<Rightarrow> False | Some t \<Rightarrow> PACED_FRAME_DURATION \<le> now - t) \<and>
         PREBUFFER_PACKETS \<le> so_sent so + 1
      then let paced_index = so_sent so + 1 - PREBUFFER_PACKETS
           in if 2 ^ 32 \<le> paced_index then None
              else Some (if PACED_FRAME_DURATION * paced_index \<le> now
                         then Some (now - PACED_FRAME_DURATION * paced_index) else None)
      else Some (so_origin so))"

definition send_packet :: "instant \<Rightarrow> ('f, 'e) speech_output \<Rightarrow> (packet \<times> ('f, 'e) speech_output) option" where
  "send_packet now so =
     (case so_packets so of
        [] \<Rightarrow> None
      | packet # rest \<Rightarrow>
          (case re_anchor now so of
             None \<Rightarrow> None
           | Some anchored \<Rightarrow>
               let origin = get_or_insert anchored now; count = so_sent so + 1
               in if 2 ^ 32 \<le> count then None
                  else Some (packet, so\<lparr>so_packets := rest, so_origin := Some origin, so_sent := count,
                         so_end_deadline := Some (max (origin + PACED_FRAME_DURATION * count) (now + PACED_FRAME_DURATION)),
                         so_starved_at := (if rest = [] \<and> (so_active so \<noteq> None \<or> so_pending so \<noteq> [] \<or> \<not> so_finish_input so)
                                           then Some now else None)\<rparr>)))"

definition poll_packet ::
    "instant \<Rightarrow> ('f, 'e) speech_state \<Rightarrow> ((speech_error + speech_event option) \<times> ('f, 'e) speech_state) option" where
  "poll_packet now st =
     (case st of (so, w) \<Rightarrow>
        (case packet_send_deadline so of
           None \<Rightarrow> None
         | Some deadline \<Rightarrow>
             if (case deadline of None \<Rightarrow> False | Some d \<Rightarrow> now < d) then Some (Inr None, st)
             else (case send_packet now so of
                     None \<Rightarrow> None
                   | Some (packet, so1) \<Rightarrow> Some (Inr (Some (AudioPacket packet)), so1, w))))"

text \<open>The stages in order.\<close>

definition after_stage ::
    "'s stage option \<Rightarrow> ('s \<Rightarrow> ((speech_error + speech_event option) \<times> 's) option) \<Rightarrow>
     ((speech_error + speech_event option) \<times> 's) option" where
  "after_stage x f = (case x of None \<Rightarrow> None | Some (Stop r st) \<Rightarrow> Some (r, st) | Some (Go st) \<Rightarrow> f st)"

definition speech_poll ::
    "('f, 'e) speech_env \<Rightarrow> instant \<Rightarrow> ('f, 'e) speech_state \<Rightarrow>
     ((speech_error + speech_event option) \<times> ('f, 'e) speech_state) option" where
  "speech_poll env now st =
     (case st of (so, w) \<Rightarrow>
        (case advance_filtered_text env so of
           None \<Rightarrow> None
         | Some (Inl e, so1) \<Rightarrow> Some (Inl e, so1, w)
         | Some (Inr _, so1) \<Rightarrow>
             after_stage (poll_pending env now (so1, w)) (\<lambda>st1.
             after_stage (poll_worker env now st1) (\<lambda>st2.
             after_stage (Some (poll_flush env st2)) (\<lambda>st3.
             after_stage (Some (poll_idle env now st3)) (\<lambda>st4.
             after_stage (Some (poll_start st4)) (\<lambda>st5. poll_packet now st5)))))))"

end
