(* ===== verification/Speech_Delivery.thy ===== *)
theory Speech_Delivery
  imports Speech_Output "HOL-Library.Sublist"
begin

text \<open>
  What a speech output delivers over a whole turn: every segment of the model's text once and in
  order, without ever refusing text, and its packets never ahead of the playback clock.
\<close>

section \<open>The reference segmentation\<close>

text \<open>
  The characters are fed one at a time, so the segments do not depend on how the text arrived or on
  how far the queue was full. A segment is displayed when something of it can be spoken.
\<close>

fun feed :: "speech_output_config \<Rightarrow> rstr \<Rightarrow> rstr \<Rightarrow> (rstr list \<times> rstr) option" where
  "feed cfg buf [] = Some ([], buf)"
| "feed cfg buf (ch # s) =
     (case seg_push cfg buf [ch] of
        None \<Rightarrow> None
      | Some (ss, b) \<Rightarrow> map_option (\<lambda>(rs, c). (ss @ rs, c)) (feed cfg b s))"

definition kept :: "('f, 'e) speech_env \<Rightarrow> rstr \<Rightarrow> bool" where
  "kept env s \<longleftrightarrow> trim s \<noteq> [] \<and> sanitize_tts_text (en_nfc env) (en_alnum env) (trim s) \<noteq> []"

definition displays :: "('f, 'e) speech_env \<Rightarrow> rstr list \<Rightarrow> rstr list" where
  "displays env ss = map trim (filter (kept env) ss)"

definition to_segment :: "('f, 'e) speech_env \<Rightarrow> rstr \<Rightarrow> segment" where
  "to_segment env s =
     \<lparr>sg_display = trim s, sg_tts = sanitize_tts_text (en_nfc env) (en_alnum env) (trim s), sg_announced = False\<rparr>"

lemma displays_append [simp]: "displays env (xs @ ys) = displays env xs @ displays env ys"
  by (simp add: displays_def)

lemma feed_append:
  "feed cfg buf s = Some (ss, b) \<Longrightarrow> feed cfg b t = Some (ts, c) \<Longrightarrow> feed cfg buf (s @ t) = Some (ss @ ts, c)"
  by (induction s arbitrary: buf ss) (auto split: option.splits)

lemma feed_quiet:
  "0 < sc_max_chars cfg \<Longrightarrow> next_split cfg buf = None \<Longrightarrow>
     \<exists>ss b. feed cfg buf s = Some (ss, b) \<and> next_split cfg b = None"
proof (induction s arbitrary: buf)
  case (Cons ch s)
  from one_segment_per_char [OF Cons.prems, of ch] obtain ss b
    where b: "seg_push cfg buf [ch] = Some (ss, b)" "next_split cfg b = None" by blast
  from Cons.IH [OF Cons.prems(1) b(2)] b(1) show ?case by auto
qed simp

section \<open>Taking text in\<close>

definition room_for :: "('f, 'e) speech_output \<Rightarrow> bool" where
  "room_for so \<longleftrightarrow> length (so_pending so) < so_max_pending so"

lemma enqueue_segment:
  "\<not> so_direct so \<Longrightarrow> room_for so \<Longrightarrow>
     enqueue env s so = (Inr (), so\<lparr>so_pending := so_pending so @ map (to_segment env) (filter (kept env) [s])\<rparr>)"
  by (auto simp: enqueue_def kept_def to_segment_def room_for_def Let_def)

lemma enqueue_at_most_one:
  "\<not> so_direct so \<Longrightarrow> room_for so \<Longrightarrow> length ss \<le> 1 \<Longrightarrow>
     enqueue_all env ss so = (Inr (), so\<lparr>so_pending := so_pending so @ map (to_segment env) (filter (kept env) ss)\<rparr>)"
proof (cases ss)
  case (Cons s ts)
  moreover assume "\<not> so_direct so" "room_for so" "length ss \<le> 1"
  ultimately show ?thesis by (cases ts) (auto simp: enqueue_segment)
qed simp

lemma advance_loop_run:
  assumes "0 < sc_max_chars (so_config so)" and "\<not> so_direct so" and "next_split (so_config so) (so_buffer so) = None"
    and "so_filtered so = []"
  shows "\<exists>b read rest ss buf. advance_loop env s so =
      Some (Inr b, so\<lparr>so_buffer := buf, so_pending := so_pending so @ map (to_segment env) (filter (kept env) ss), so_filtered := rest\<rparr>) \<and>
    s = read @ rest \<and> (b \<longleftrightarrow> rest = []) \<and> feed (so_config so) (so_buffer so) read = Some (ss, buf) \<and>
    next_split (so_config so) buf = None \<and>
    length (filter (kept env) ss) \<le> so_max_pending so - length (so_pending so)"
  using assms
proof (induction s arbitrary: so)
  case Nil
  then show ?case
    by (intro exI [of _ True] exI [of _ "[]"] exI [of _ "so_buffer so"]) simp
next
  case (Cons ch s)
  show ?case
  proof (cases "so_max_pending so \<le> length (so_pending so)")
    case True
    with Cons.prems show ?thesis
      by (intro exI [of _ False] exI [of _ "[]"] exI [of _ "ch # s"] exI [of _ "[] :: rstr list"] exI [of _ "so_buffer so"]) simp
  next
    case False
    from one_segment_per_char [OF Cons.prems(1,3), of ch] obtain ss buf where
      p: "seg_push (so_config so) (so_buffer so) [ch] = Some (ss, buf)" "length ss \<le> 1" "next_split (so_config so) buf = None"
      by blast
    let ?so = "so\<lparr>so_buffer := buf, so_pending := so_pending so @ map (to_segment env) (filter (kept env) ss)\<rparr>"
    have enq: "enqueue_all env ss (so\<lparr>so_buffer := buf\<rparr>) = (Inr (), ?so)"
      using enqueue_at_most_one [of "so\<lparr>so_buffer := buf\<rparr>" ss env] False Cons.prems(2) p(2) by (simp add: room_for_def)
    from Cons.IH [of ?so] Cons.prems p(3) obtain b read rest ts buf2 where ih:
      "advance_loop env s ?so = Some (Inr b, ?so\<lparr>so_buffer := buf2,
         so_pending := so_pending ?so @ map (to_segment env) (filter (kept env) ts), so_filtered := rest\<rparr>)"
      "s = read @ rest" "b \<longleftrightarrow> rest = []" "feed (so_config so) buf read = Some (ts, buf2)"
      "next_split (so_config so) buf2 = None"
      "length (filter (kept env) ts) \<le> so_max_pending so - length (so_pending ?so)" by auto
    have "length (filter (kept env) ss) \<le> 1" using p(2) length_filter_le [of "kept env" ss] by linarith
    with ih(6) False have "length (filter (kept env) (ss @ ts)) \<le> so_max_pending so - length (so_pending so)" by simp
    with ih show ?thesis
      using False p(1) enq
      by (intro exI [of _ b] exI [of _ "ch # read"] exI [of _ rest] exI [of _ "ss @ ts"] exI [of _ buf2]) simp
  qed
qed

section \<open>The invariant of the text\<close>

definition unannounced :: "segment list \<Rightarrow> rstr list" where
  "unannounced pending = map sg_display (filter (\<lambda>g. \<not> sg_announced g) pending)"

definition last_segment :: "rstr \<Rightarrow> rstr list" where
  "last_segment b = (case fst (seg_finish b) of None \<Rightarrow> [] | Some s \<Rightarrow> [s])"

text \<open>
  \<open>said\<close> is the filtered text so far, \<open>shown\<close> what was announced of it: the announced segments followed by
  those that wait are the segments of the text that was read.
\<close>

definition text_inv ::
    "('f, 'e) speech_env \<Rightarrow> speech_output_config \<Rightarrow> rstr list \<Rightarrow> rstr \<Rightarrow> ('f, 'e) speech_output \<Rightarrow> bool" where
  "text_inv env cfg shown said so \<longleftrightarrow>
     so_config so = cfg \<and> \<not> so_direct so \<and> next_split cfg (so_buffer so) = None \<and>
     so_max_pending so = sc_pending_segments cfg \<and> length (so_pending so) \<le> so_max_pending so \<and>
     list_all (\<lambda>g. \<not> sg_announced g) (tl (so_pending so)) \<and>
     (\<exists>read ss b. said = read @ so_filtered so \<and> feed cfg [] read = Some (ss, b) \<and>
        (if so_finish_input so
         then so_finish_requested so \<and> so_filtered so = [] \<and> so_buffer so = [] \<and>
           shown @ unannounced (so_pending so) = displays env (ss @ last_segment b)
         else so_buffer so = b \<and> shown @ unannounced (so_pending so) = displays env ss))"

lemma unannounced_append [simp]: "unannounced (a @ b) = unannounced a @ unannounced b"
  by (simp add: unannounced_def)

lemma unannounced_new [simp]: "unannounced (map (to_segment env) (filter (kept env) ss)) = displays env ss"
  by (simp add: unannounced_def displays_def to_segment_def filter_map o_def)

lemma new_unannounced [simp]: "list_all (\<lambda>g. \<not> sg_announced g) (map (to_segment env) ss)"
  by (simp add: to_segment_def list_all_iff)

lemma tl_unannounced:
  "list_all (\<lambda>g. \<not> sg_announced g) (tl a) \<Longrightarrow> list_all (\<lambda>g. \<not> sg_announced g) b \<Longrightarrow>
     list_all (\<lambda>g. \<not> sg_announced g) (tl (a @ b))"
  by (cases a; cases b) auto

lemma quiet_Nil: "0 < sc_max_chars cfg \<Longrightarrow> next_split cfg [] = None"
  by (simp add: next_split_None)

text \<open>The pacing, the filter and the end-of-input flag, which the handling of segments leaves alone.\<close>

definition rest_same :: "('f, 'e) speech_output \<Rightarrow> ('f, 'e) speech_output \<Rightarrow> bool" where
  "rest_same a b \<longleftrightarrow>
     so_sent b = so_sent a \<and> so_origin b = so_origin a \<and> so_end_deadline b = so_end_deadline a \<and>
     so_filter b = so_filter a \<and> so_finish_requested b = so_finish_requested a"

lemma advance_text:
  assumes pos: "0 < sc_max_chars cfg" and inv: "text_inv env cfg shown said so"
  shows "\<exists>r so'. advance_filtered_text env so = Some (r, so') \<and> rest_same so so' \<and>
    (case r of Inl e \<Rightarrow> e = Synthesis \<and> so_finish_requested so | Inr _ \<Rightarrow> text_inv env cfg shown said so')"
proof -
  let ?so = "so\<lparr>so_filtered := []\<rparr>"
  from inv have quiet: "0 < sc_max_chars (so_config ?so)" "\<not> so_direct ?so" "next_split (so_config ?so) (so_buffer ?so) = None"
      "so_filtered ?so = []" using pos by (auto simp: text_inv_def)
  from advance_loop_run [OF quiet, of env "so_filtered so"] obtain b read rest ss buf where loop:
    "advance_loop env (so_filtered so) ?so = Some (Inr b, ?so\<lparr>so_buffer := buf,
       so_pending := so_pending so @ map (to_segment env) (filter (kept env) ss), so_filtered := rest\<rparr>)"
    and read: "so_filtered so = read @ rest" "b \<longleftrightarrow> rest = []" "feed cfg (so_buffer so) read = Some (ss, buf)"
      "next_split cfg buf = None" "length (filter (kept env) ss) \<le> so_max_pending so - length (so_pending so)"
    using inv by (auto simp: text_inv_def)
  let ?so1 = "?so\<lparr>so_buffer := buf, so_pending := so_pending so @ map (to_segment env) (filter (kept env) ss), so_filtered := rest\<rparr>"
  from inv obtain old os ob where old: "said = old @ so_filtered so" "feed cfg [] old = Some (os, ob)"
      "if so_finish_input so
       then so_finish_requested so \<and> so_filtered so = [] \<and> so_buffer so = [] \<and>
         shown @ unannounced (so_pending so) = displays env (os @ last_segment ob)
       else so_buffer so = ob \<and> shown @ unannounced (so_pending so) = displays env os"
    and heads: "list_all (\<lambda>g. \<not> sg_announced g) (tl (so_pending so))" and cfg: "so_config so = cfg" "\<not> so_direct so"
      "so_max_pending so = sc_pending_segments cfg" and room: "length (so_pending so) \<le> so_max_pending so"
    by (auto simp: text_inv_def)
  have inv1: "text_inv env cfg shown said ?so1"
  proof (cases "so_finish_input so")
    case True
    then have "read = []" "rest = []" using old(3) read(1) by auto
    then show ?thesis using True old read heads cfg room by (auto simp: text_inv_def)
  next
    case False
    then have "feed cfg [] (old @ read) = Some (os @ ss, buf)"
      using feed_append [OF old(2)] read(3) old(3) by simp
    then show ?thesis
      using False old read heads cfg room
      by (auto simp: text_inv_def tl_unannounced intro!: exI [of _ "old @ read"])
  qed
  show ?thesis
  proof (cases "b \<and> so_finish_requested so \<and> room_for ?so1")
    case False
    have "advance_filtered_text env so = Some (Inr (), ?so1)"
      using False loop by (cases b) (auto simp: advance_filtered_text_def room_for_def)
    then show ?thesis using inv1 by (simp add: rest_same_def)
  next
    case True
    let ?fs = "fst (seg_finish buf)"
    let ?so2 = "?so1\<lparr>so_buffer := [], so_pending := so_pending ?so1 @ map (to_segment env) (filter (kept env) (last_segment buf))\<rparr>"
    have "finish_segmenter env ?so1 = (Inr (), ?so2)"
      using True cfg enqueue_segment [of "?so1\<lparr>so_buffer := []\<rparr>" env "the ?fs"]
      by (auto simp: finish_segmenter_def seg_finish_def last_segment_def room_for_def split: option.split)
    then have adv: "advance_filtered_text env so =
        (if nothing_to_say ?so2 then Some (Inl Synthesis, ?so2) else Some (Inr (), ?so2\<lparr>so_finish_input := True\<rparr>))"
      using True loop by (simp add: advance_filtered_text_def room_for_def)
    have one: "length (filter (kept env) (last_segment buf)) \<le> 1"
      by (simp add: last_segment_def split: option.split)
    have "text_inv env cfg shown said (?so2\<lparr>so_finish_input := True\<rparr>)"
    proof (cases "so_finish_input so")
      case fin: True
      then have "buf = []" "rest = []" using inv1 by (auto simp: text_inv_def)
      moreover have "last_segment [] = []" by (simp add: last_segment_def seg_finish_def)
      ultimately show ?thesis using inv1 fin by (auto simp: text_inv_def)
    next
      case False
      then show ?thesis
        using inv1 True read(2) pos heads one
        by (auto simp: text_inv_def tl_unannounced quiet_Nil room_for_def)
    qed
    with adv True show ?thesis by (auto simp: rest_same_def)
  qed
qed

section \<open>What a poll changes\<close>

definition text_same :: "('f, 'e) speech_output \<Rightarrow> ('f, 'e) speech_output \<Rightarrow> bool" where
  "text_same a b \<longleftrightarrow>
     so_config b = so_config a \<and> so_direct b = so_direct a \<and> so_buffer b = so_buffer a \<and> so_filtered b = so_filtered a \<and>
     so_finish_input b = so_finish_input a \<and> so_finish_requested b = so_finish_requested a \<and> so_filter b = so_filter a \<and>
     so_max_pending b = so_max_pending a"

definition keeps :: "('f, 'e) speech_output \<Rightarrow> ('f, 'e) speech_output \<Rightarrow> bool" where
  "keeps a b \<longleftrightarrow> text_same a b \<and> so_pending b = so_pending a \<and> rest_same a b"

lemma speech_keeps_refl [simp]: "keeps a a"
  by (simp add: keeps_def text_same_def rest_same_def)

lemma speech_keeps_trans: "keeps a b \<Longrightarrow> keeps b c \<Longrightarrow> keeps a c"
  by (simp add: keeps_def text_same_def rest_same_def)

lemma text_inv_same:
  assumes "text_inv env cfg shown said a" and "text_same a b" and "so_pending b = so_pending a"
  shows "text_inv env cfg shown said b"
proof -
  from assms(2) have eqs: "so_config b = so_config a" "so_direct b = so_direct a" "so_buffer b = so_buffer a"
      "so_filtered b = so_filtered a" "so_finish_input b = so_finish_input a" "so_finish_requested b = so_finish_requested a"
      "so_max_pending b = so_max_pending a"
    by (simp_all add: text_same_def)
  show ?thesis using assms(1) unfolding text_inv_def eqs assms(3) .
qed

lemma keeps_push_pcm: "keeps so (snd (speech_push_pcm env pcm so))"
  by (simp add: speech_push_pcm_def keeps_def text_same_def rest_same_def split: prod.split sum.split option.split)

lemma keeps_push_pcm_result: "speech_push_pcm env pcm so = (r, so1) \<Longrightarrow> keeps so so1"
  using keeps_push_pcm [of so env pcm] by simp

lemma keeps_finish_segment: "keeps so (finish_segment so)"
  by (simp add: finish_segment_def keeps_def text_same_def rest_same_def)

lemma keeps_flush: "keeps so (snd (flush_downlink_tail env so))"
  by (simp add: flush_downlink_tail_def keeps_def text_same_def rest_same_def split: prod.split sum.split)

lemma keeps_active [simp]: "keeps so (so\<lparr>so_active := l\<rparr>)" "keeps so (so\<lparr>so_started := b\<rparr>)"
  by (simp_all add: keeps_def text_same_def rest_same_def)

fun stage_state :: "'s stage \<Rightarrow> 's" where
  "stage_state (Stop r st) = st"
| "stage_state (Go st) = st"

lemma poll_worker_keeps: "poll_worker env t (so, w) = Some x \<Longrightarrow> keeps so (fst (stage_state x))"
  using speech_keeps_trans [OF keeps_active(1) keeps_finish_segment, of so None]
  by (cases w) (auto simp: poll_worker_def split: option.splits if_splits prod.splits sum.splits tts_event.splits
      dest!: keeps_push_pcm_result)

lemma poll_worker_stop: "poll_worker env t st = Some (Stop r st1) \<Longrightarrow> \<exists>e. r = Inl e"
  by (auto simp: poll_worker_def split: option.splits if_splits prod.splits sum.splits tts_event.splits)

lemma poll_flush_keeps: "keeps so (fst (stage_state (poll_flush env (so, w))))"
  using keeps_flush [of so env] by (auto simp: poll_flush_def split: sum.split prod.split dest: arg_cong [of _ _ snd])

lemma poll_flush_stop: "poll_flush env st = Stop r st1 \<Longrightarrow> \<exists>e. r = Inl e"
  by (auto simp: poll_flush_def split: if_splits prod.splits sum.splits)

text \<open>Only the head of the queue is announced or taken.\<close>

lemma synthesize_next_changes:
  assumes "synthesize_next env t (so, w) = Some (r, so1, w1)" and "so_pending so = g # gs"
  shows "text_same so so1" and "so_pending so1 = gs" and "rest_same so so1"
proof -
  have "keeps (so\<lparr>so_pending := gs\<rparr>) so1"
    using assms speech_keeps_trans [OF _ keeps_finish_segment]
    by (cases w) (auto simp: synthesize_next_def Let_def split: option.splits prod.splits sum.splits dest!: keeps_push_pcm_result)
  then show "text_same so so1" "so_pending so1 = gs" "rest_same so so1"
    by (simp_all add: keeps_def text_same_def rest_same_def)
qed

lemma text_inv_announce:
  assumes "text_inv env cfg shown said so" and "so_pending so = g # gs" and "\<not> sg_announced g"
  shows "text_inv env cfg (shown @ [sg_display g]) said (so\<lparr>so_pending := g\<lparr>sg_announced := True\<rparr> # gs\<rparr>)"
  using assms by (simp add: text_inv_def unannounced_def cong: if_cong)

lemma text_inv_take:
  assumes "text_inv env cfg shown said so" and "so_pending so = g # gs" and "sg_announced g"
    and "text_same so so1" and "so_pending so1 = gs"
  shows "text_inv env cfg shown said so1"
proof -
  have "list_all (\<lambda>g. \<not> sg_announced g) (tl gs)" using assms(1,2) by (cases gs) (auto simp: text_inv_def)
  moreover have "unannounced (so_pending so) = unannounced gs" using assms(2,3) by (simp add: unannounced_def)
  moreover have "length gs \<le> so_max_pending so" using assms(1,2) by (simp add: text_inv_def)
  ultimately have "text_inv env cfg shown said (so\<lparr>so_pending := gs\<rparr>)" using assms(1) by (simp add: text_inv_def cong: if_cong)
  then show ?thesis by (rule text_inv_same) (use assms(4,5) in \<open>simp_all add: text_same_def\<close>)
qed

lemma poll_pending_text:
  assumes "text_inv env cfg shown said so" and "poll_pending env t (so, w) = Some x"
  shows "case x of
      Go st \<Rightarrow> text_inv env cfg shown said (fst st) \<and> rest_same so (fst st)
    | Stop (Inr (Some (SegmentReady d))) st \<Rightarrow> text_inv env cfg (shown @ [d]) said (fst st) \<and> rest_same so (fst st)
    | Stop (Inl _) st \<Rightarrow> True
    | Stop _ st \<Rightarrow> False"
proof (cases "so_pending so")
  case Nil
  with assms show ?thesis by (auto simp: poll_pending_def rest_same_def)
next
  case (Cons g gs)
  show ?thesis
  proof (cases "length (so_packets so) < MAX_BUFFERED_PACKETS \<and> so_active so = None")
    case False
    with assms Cons show ?thesis by (auto simp: poll_pending_def rest_same_def)
  next
    case True
    show ?thesis
    proof (cases "sg_announced g")
      case False
      with assms Cons True text_inv_announce [OF assms(1) Cons False] show ?thesis
        by (auto simp: poll_pending_def rest_same_def)
    next
      case announced: True
      with assms(2) Cons True obtain r so1 w1 where
        syn: "synthesize_next env t (so, w) = Some (r, so1, w1)"
          "x = (case r of Inl e \<Rightarrow> Stop (Inl e) (so1, w1) | Inr _ \<Rightarrow> Go (so1, w1))"
        by (auto simp: poll_pending_def split: option.splits sum.splits prod.splits)
      with text_inv_take [OF assms(1) Cons announced] synthesize_next_changes [OF syn(1) Cons] show ?thesis
        by (auto split: sum.split)
    qed
  qed
qed

lemma poll_start_result:
  "poll_start (so, w) = Go (so1, w1) \<Longrightarrow> keeps so so1"
  "poll_start (so, w) = Stop r (so1, w1) \<Longrightarrow> keeps so so1 \<and> (r = Inr None \<or> r = Inr (Some SpeechStarted))"
  by (auto simp: poll_start_def split: if_splits)

text \<open>The whole of one poll, by its answer.\<close>

lemma speech_poll_text:
  assumes pos: "0 < sc_max_chars cfg" and inv: "text_inv env cfg shown said so"
    and poll: "speech_poll env t (so, w) = Some (Inr ev, so2, w2)"
  shows "case ev of
      None \<Rightarrow> text_inv env cfg shown said so2 \<and> rest_same so so2
    | Some (SegmentReady d) \<Rightarrow> text_inv env cfg (shown @ [d]) said so2 \<and> rest_same so so2
    | Some SpeechStarted \<Rightarrow> text_inv env cfg shown said so2 \<and> rest_same so so2
    | Some (AudioPacket pkt) \<Rightarrow> text_inv env cfg shown said so2 \<and>
        (\<exists>so1 deadline. rest_same so so1 \<and> packet_send_deadline so1 = Some deadline \<and>
           (case deadline of None \<Rightarrow> True | Some d \<Rightarrow> d \<le> t) \<and> send_packet t so1 = Some (pkt, so2))
    | Some Drained \<Rightarrow> (\<exists>so1 d. text_inv env cfg shown said so1 \<and> input_done so1 \<and> rest_same so so1 \<and>
        so_end_deadline so1 = Some d \<and> d \<le> t \<and> (\<exists>w1. (so2, w2) = speech_cancel env t (so1, w1)))"
proof -
  obtain r a where adv: "advance_filtered_text env so = Some (r, a)" "rest_same so a"
      "case r of Inl e \<Rightarrow> e = Synthesis \<and> so_finish_requested so | Inr _ \<Rightarrow> text_inv env cfg shown said a"
    using advance_text [OF pos inv] by blast
  with poll have inv_a: "text_inv env cfg shown said a" and r: "r = Inr ()"
    by (auto simp: speech_poll_def split: sum.splits)
  note pace_a = adv(2)
  from poll adv(1) r obtain x1 where x1: "poll_pending env t (a, w) = Some x1"
    and rest1: "after_stage (Some x1) (\<lambda>st1. after_stage (poll_worker env t st1) (\<lambda>st2. after_stage (Some (poll_flush env st2))
        (\<lambda>st3. after_stage (Some (poll_idle env t st3)) (\<lambda>st4. after_stage (Some (poll_start st4)) (\<lambda>st5. poll_packet t st5))))) =
        Some (Inr ev, so2, w2)"
    by (cases "poll_pending env t (a, w)") (simp_all add: speech_poll_def after_stage_def)
  note text1 = poll_pending_text [OF inv_a x1]
  show ?thesis
  proof (cases x1)
    case (Stop r1 st1)
    with rest1 have "r1 = Inr ev" "st1 = (so2, w2)" by (simp_all add: after_stage_def)
    with Stop text1 pace_a show ?thesis
      by (auto simp: rest_same_def split: option.splits speech_event.splits)
  next
    case (Go st1)
    obtain b w1 where st1: "st1 = (b, w1)" by (cases st1)
    with Go text1 have inv_b: "text_inv env cfg shown said b" and pace_b: "rest_same a b" by simp_all
    from rest1 Go st1 obtain x2 where x2: "poll_worker env t (b, w1) = Some x2"
      and rest2: "after_stage (Some x2) (\<lambda>st2. after_stage (Some (poll_flush env st2)) (\<lambda>st3. after_stage (Some (poll_idle env t st3))
          (\<lambda>st4. after_stage (Some (poll_start st4)) (\<lambda>st5. poll_packet t st5)))) = Some (Inr ev, so2, w2)"
      by (cases "poll_worker env t (b, w1)") (simp_all add: after_stage_def)
    have "\<exists>c w3. x2 = Go (c, w3)"
    proof (cases x2)
      case (Stop r2 st2)
      with rest2 poll_worker_stop [of env t "(b, w1)"] x2 show ?thesis by (auto simp: after_stage_def)
    qed auto
    then obtain c w3 where c: "x2 = Go (c, w3)" by blast
    with poll_worker_keeps [OF x2] have keep_c: "keeps b c" by simp
    have "\<exists>d w4. poll_flush env (c, w3) = Go (d, w4)"
    proof (cases "poll_flush env (c, w3)")
      case (Stop r3 st3)
      with rest2 c poll_flush_stop [OF Stop] show ?thesis by (auto simp: after_stage_def)
    qed auto
    then obtain d w4 where d: "poll_flush env (c, w3) = Go (d, w4)" by blast
    with poll_flush_keeps [of c env w3] have keep_d: "keeps c d" by simp
    have keep: "keeps b d" by (rule speech_keeps_trans [OF keep_c keep_d])
    then have inv_d: "text_inv env cfg shown said d" and pace_d: "rest_same so d"
      using text_inv_same [OF inv_b, of d] pace_a pace_b by (simp_all add: keeps_def rest_same_def)
    from rest2 c d have rest3: "after_stage (Some (poll_idle env t (d, w4)))
        (\<lambda>st4. after_stage (Some (poll_start st4)) (\<lambda>st5. poll_packet t st5)) = Some (Inr ev, so2, w2)"
      by (simp add: after_stage_def)
    show ?thesis
    proof (cases "so_packets d = []")
      case True
      with rest3 have "(ev = Some Drained \<and> input_done d \<and> (\<exists>dl. so_end_deadline d = Some dl \<and> dl \<le> t) \<and> (so2, w2) = speech_cancel env t (d, w4)) \<or>
          (ev = None \<and> so2 = d)"
        by (auto simp: poll_idle_def after_stage_def split: if_splits option.splits)
      moreover have "\<exists>p' ws. w4 = (p', ws)" by (cases w4) simp
      ultimately show ?thesis using inv_d pace_d by (elim disjE conjE exE) (simp_all, intro exI [of _ d], auto)
    next
      case False
      then have idle: "poll_idle env t (d, w4) = Go (d, w4)" by (simp add: poll_idle_def)
      show ?thesis
      proof (cases "poll_start (d, w4)")
        case (Stop r4 st4)
        with rest3 idle have "r4 = Inr ev" "st4 = (so2, w2)" by (simp_all add: after_stage_def)
        with poll_start_result(2) [of d w4 r4 so2 w2] Stop have "keeps d so2" "ev = None \<or> ev = Some SpeechStarted" by auto
        with text_inv_same [OF inv_d, of so2] pace_d show ?thesis by (auto simp: keeps_def rest_same_def)
      next
        case (Go st4)
        obtain e w5 where st4: "st4 = (e, w5)" by (cases st4)
        with poll_start_result(1) [of d w4 e w5] Go have keep_e: "keeps d e" by simp
        then have inv_e: "text_inv env cfg shown said e" and pace_e: "rest_same so e"
          using text_inv_same [OF inv_d, of e] pace_d by (simp_all add: keeps_def rest_same_def)
        from rest3 idle Go st4 have last: "poll_packet t (e, w5) = Some (Inr ev, so2, w2)" by (simp add: after_stage_def)
        show ?thesis
        proof (cases ev)
          case None
          with last inv_e pace_e show ?thesis by (auto simp: poll_packet_def split: option.splits if_splits)
        next
          case (Some event)
          with last obtain pkt deadline where sent: "event = AudioPacket pkt" "packet_send_deadline e = Some deadline"
              "case deadline of None \<Rightarrow> True | Some d \<Rightarrow> d \<le> t" "send_packet t e = Some (pkt, so2)"
            by (auto simp: poll_packet_def split: option.splits if_splits)
          then have "text_same e so2" "so_pending so2 = so_pending e"
            by (auto simp: send_packet_def text_same_def Let_def split: list.splits option.splits if_splits)
          with text_inv_same [OF inv_e] have "text_inv env cfg shown said so2" by blast
          with sent Some pace_e show ?thesis by auto
        qed
      qed
    qed
  qed
qed

section \<open>A turn\<close>

text \<open>
  The model's deltas, the end of the input, and polls at given times against whatever state the pool has
  reached by then. A turn ends with \<open>Drained\<close>; it is cut off, with \<open>None\<close>, by an error, by a panic, or by
  input after its end, which the session never gives.
\<close>

datatype 'f speech_op = Say rstr | EndInput | PollAt instant "'f tts_pool" "nat list"

fun speech_run ::
    "('f, 'e) speech_env \<Rightarrow> 'f speech_op list \<Rightarrow> ('f, 'e) speech_output \<Rightarrow>
     ((instant \<times> speech_event) list \<times> ('f, 'e) speech_output) option" where
  "speech_run env [] so = Some ([], so)"
| "speech_run env (Say s # ops) so =
     (if so_finish_requested so then None
      else (case push_delta env s so of Some (Inr _, so1) \<Rightarrow> speech_run env ops so1 | _ \<Rightarrow> None))"
| "speech_run env (EndInput # ops) so =
     (if so_finish_requested so then None
      else (case finish_input env so of Some (Inr _, so1) \<Rightarrow> speech_run env ops so1 | _ \<Rightarrow> None))"
| "speech_run env (PollAt t p ws # ops) so =
     (case speech_poll env t (so, p, ws) of
        Some (Inr None, so1, _) \<Rightarrow> speech_run env ops so1
      | Some (Inr (Some Drained), so1, _) \<Rightarrow> if ops = [] then Some ([(t, Drained)], so1) else None
      | Some (Inr (Some e), so1, _) \<Rightarrow> map_option (\<lambda>(es, so2). ((t, e) # es, so2)) (speech_run env ops so1)
      | _ \<Rightarrow> None)"

fun said_text :: "'f speech_op list \<Rightarrow> rstr" where
  "said_text [] = []"
| "said_text (Say s # ops) = s @ said_text ops"
| "said_text (_ # ops) = said_text ops"

fun poll_times :: "'f speech_op list \<Rightarrow> instant list" where
  "poll_times [] = []"
| "poll_times (PollAt t p ws # ops) = t # poll_times ops"
| "poll_times (_ # ops) = poll_times ops"

fun announced :: "(instant \<times> speech_event) list \<Rightarrow> rstr list" where
  "announced [] = []"
| "announced ((t, SegmentReady d) # es) = d # announced es"
| "announced (_ # es) = announced es"

fun packet_times :: "(instant \<times> speech_event) list \<Rightarrow> instant list" where
  "packet_times [] = []"
| "packet_times ((t, AudioPacket p) # es) = t # packet_times es"
| "packet_times (_ # es) = packet_times es"

text \<open>The filtered text of the raw input, and the segments of it.\<close>

definition heard :: "('f, 'e) speech_env \<Rightarrow> rstr \<Rightarrow> ('f, 'e) speech_output \<Rightarrow> rstr \<Rightarrow> bool" where
  "heard env raw so said \<longleftrightarrow>
     (let (out, flt) = filter_push (en_json env) (en_alnum env) raw filter_new
      in if so_finish_requested so then said = out @ fst (filter_finish flt) else said = out \<and> so_filter so = flt)"

definition reference :: "('f, 'e) speech_env \<Rightarrow> speech_output_config \<Rightarrow> rstr \<Rightarrow> bool \<Rightarrow> rstr list" where
  "reference env cfg raw ended =
     (let (out, flt) = filter_push (en_json env) (en_alnum env) raw filter_new;
          said = (if ended then out @ fst (filter_finish flt) else out)
      in (case feed cfg [] said of
            None \<Rightarrow> []
          | Some (ss, b) \<Rightarrow> displays env (if ended then ss @ last_segment b else ss)))"

definition turn_start ::
    "('f, 'e) speech_env \<Rightarrow> speech_output_config \<Rightarrow> tts_view option \<Rightarrow> nat option \<Rightarrow> ('f, 'e) speech_output" where
  "turn_start env cfg runtime stream = (with_config env cfg)\<lparr>so_stream := stream, so_runtime := runtime\<rparr>"

lemma with_worker_starts_turn: "\<exists>stream. fst (with_worker env v cfg p) = turn_start env cfg (Some v) (Some stream)"
  by (intro exI [of _ "fst (begin_stream v p)"]) (simp add: with_worker_def turn_start_def split_beta)

lemma text_inv_start:
  "0 < sc_max_chars cfg \<Longrightarrow> text_inv env cfg [] [] (turn_start env cfg rt st)"
  by (simp add: text_inv_def turn_start_def with_config_def quiet_Nil unannounced_def displays_def)

lemma heard_start: "heard env [] (turn_start env cfg rt st) []"
  by (simp add: heard_def turn_start_def with_config_def)

lemma push_text:
  assumes pos: "0 < sc_max_chars cfg" and inv: "text_inv env cfg shown said so" and h: "heard env raw so said"
    and open_input: "\<not> so_finish_requested so"
  shows "\<exists>so' said'. push_delta env s so = Some (Inr (), so') \<and>
    text_inv env cfg shown said' so' \<and> heard env (raw @ s) so' said' \<and> \<not> so_finish_requested so' \<and>
    so_sent so' = so_sent so \<and> so_origin so' = so_origin so \<and> so_end_deadline so' = so_end_deadline so"
proof -
  let ?f = "filter_push (en_json env) (en_alnum env) s (so_filter so)"
  let ?so = "so\<lparr>so_filter := snd ?f, so_filtered := so_filtered so @ fst ?f\<rparr>"
  have "\<not> so_finish_input so" using inv open_input by (auto simp: text_inv_def)
  then have "text_inv env cfg shown (said @ fst ?f) ?so" using inv by (auto simp: text_inv_def)
  from advance_text [OF pos this] obtain r so' where a: "advance_filtered_text env ?so = Some (r, so')" "rest_same ?so so'"
      "case r of Inl e \<Rightarrow> e = Synthesis \<and> so_finish_requested ?so | Inr _ \<Rightarrow> text_inv env cfg shown (said @ fst ?f) so'" by blast
  have "heard env (raw @ s) so' (said @ fst ?f)"
    using h open_input a(2) by (auto simp: heard_def rest_same_def filter_push_append Let_def split_beta)
  moreover have "push_delta env s so = Some (r, so')" using a(1) by (simp add: push_delta_def split_beta Let_def)
  ultimately show ?thesis using a(2,3) open_input by (auto simp: rest_same_def split: sum.splits)
qed

lemma finish_text:
  assumes pos: "0 < sc_max_chars cfg" and inv: "text_inv env cfg shown said so" and h: "heard env raw so said"
    and open_input: "\<not> so_finish_requested so"
  shows "\<exists>r so' said'. finish_input env so = Some (r, so') \<and>
    (case r of Inl e \<Rightarrow> e = Synthesis
     | Inr _ \<Rightarrow> text_inv env cfg shown said' so' \<and> heard env raw so' said' \<and> so_finish_requested so' \<and>
         so_sent so' = so_sent so \<and> so_origin so' = so_origin so \<and> so_end_deadline so' = so_end_deadline so)"
proof -
  let ?f = "filter_finish (so_filter so)"
  let ?so = "so\<lparr>so_filter := snd ?f, so_filtered := so_filtered so @ fst ?f, so_finish_requested := True\<rparr>"
  have "\<not> so_finish_input so" using inv open_input by (auto simp: text_inv_def)
  then have "text_inv env cfg shown (said @ fst ?f) ?so" using inv by (auto simp: text_inv_def)
  from advance_text [OF pos this] obtain r so' where a: "advance_filtered_text env ?so = Some (r, so')" "rest_same ?so so'"
      "case r of Inl e \<Rightarrow> e = Synthesis \<and> so_finish_requested ?so | Inr _ \<Rightarrow> text_inv env cfg shown (said @ fst ?f) so'" by blast
  have "heard env raw so' (said @ fst ?f)"
    using h open_input a(2) by (auto simp: heard_def rest_same_def Let_def split_beta)
  moreover have "finish_input env so = Some (r, so')" using a(1) by (simp add: finish_input_def split_beta Let_def)
  ultimately show ?thesis using a(2,3) by (auto simp: rest_same_def split: sum.split)
qed

lemma heard_eq:
  "so_filter b = so_filter a \<Longrightarrow> so_finish_requested b = so_finish_requested a \<Longrightarrow> heard env raw b said = heard env raw a said"
  by (simp only: heard_def)

lemma heard_same: "rest_same a b \<Longrightarrow> heard env raw a said \<Longrightarrow> heard env raw b said"
  using heard_eq [of b a env raw said] by (simp add: rest_same_def)

lemma sent_packet_same:
  "send_packet t a = Some (pkt, b) \<Longrightarrow> so_filter b = so_filter a \<and> so_finish_requested b = so_finish_requested a"
  by (auto simp: send_packet_def Let_def split: list.splits option.splits if_splits)

lemma speech_poll_heard:
  assumes pos: "0 < sc_max_chars cfg" and inv: "text_inv env cfg shown said so" and h: "heard env raw so said"
    and poll: "speech_poll env t (so, w) = Some (Inr ev, so2, w2)" and going: "ev \<noteq> Some Drained"
  shows "heard env raw so2 said \<and> so_finish_requested so2 = so_finish_requested so \<and>
    text_inv env cfg (shown @ (case ev of None \<Rightarrow> [] | Some e \<Rightarrow> announced [(t, e)])) said so2"
proof -
  note res = speech_poll_text [OF pos inv poll]
  show ?thesis
  proof (cases ev)
    case None
    with res h heard_same [of so so2] show ?thesis by (simp add: rest_same_def)
  next
    case (Some e)
    show ?thesis
    proof (cases e)
      case (AudioPacket pkt)
      with res Some obtain so1 where "text_inv env cfg shown said so2" "rest_same so so1" "send_packet t so1 = Some (pkt, so2)"
        by auto
      with sent_packet_same [of t so1 pkt so2] heard_eq [of so2 so env raw said] h Some AudioPacket show ?thesis
        by (simp add: rest_same_def)
    qed (use res h Some going heard_same [of so so2] in \<open>simp_all add: rest_same_def\<close>)
  qed
qed

text \<open>After \<open>Drained\<close> the output is ready for the next turn.\<close>

lemma cancel_starts_over:
  assumes "0 < sc_max_chars cfg" and "so_config so = cfg" and "so_max_pending so = sc_pending_segments cfg"
  shows "text_inv env cfg [] [] (fst (speech_cancel env t (so, w))) \<and> heard env [] (fst (speech_cancel env t (so, w))) []"
  using assms
  by (simp add: speech_cancel_def text_inv_def heard_def quiet_Nil unannounced_def displays_def split_beta Let_def split: option.split)

lemma drained_starts_over:
  assumes pos: "0 < sc_max_chars cfg" and inv: "text_inv env cfg shown said so"
    and poll: "speech_poll env t (so, w) = Some (Inr (Some Drained), so2, w2)"
  shows "text_inv env cfg [] [] so2 \<and> heard env [] so2 []"
proof -
  from speech_poll_text [OF pos inv poll] obtain so1 w1 where
    so1: "text_inv env cfg shown said so1" "(so2, w2) = speech_cancel env t (so1, w1)" by auto
  from so1(1) have "so_config so1 = cfg" "so_max_pending so1 = sc_pending_segments cfg" by (simp_all add: text_inv_def)
  from cancel_starts_over [OF pos this, of env t w1] show ?thesis by (simp flip: so1(2))
qed

lemma run_text:
  assumes "0 < sc_max_chars cfg" and "text_inv env cfg shown said so" and "heard env raw so said"
    and "speech_run env ops so = Some (es, so')"
  shows "\<exists>so1 said1. text_inv env cfg (shown @ announced es) said1 so1 \<and> heard env (raw @ said_text ops) so1 said1 \<and>
    (so_finish_requested so1 \<longleftrightarrow> so_finish_requested so \<or> EndInput \<in> set ops) \<and>
    (Drained \<in> snd ` set es \<longrightarrow> input_done so1)"
  using assms(2-4)
proof (induction ops arbitrary: so shown said raw es)
  case Nil
  then show ?case by auto
next
  case (Cons op ops)
  note pos = assms(1)
  show ?case
  proof (cases op)
    case (Say s)
    with Cons.prems(3) obtain a so1 where run: "\<not> so_finish_requested so" "push_delta env s so = Some (Inr a, so1)"
        "speech_run env ops so1 = Some (es, so')"
      by (auto split: if_splits option.splits sum.splits)
    with push_text [OF pos Cons.prems(1,2) run(1), of s] obtain said1 where
      s1: "text_inv env cfg shown said1 so1" "heard env (raw @ s) so1 said1" "\<not> so_finish_requested so1" by auto
    from Cons.IH [OF s1(1,2) run(3)] s1(3) run(1) Say show ?thesis by auto
  next
    case EndInput
    with Cons.prems(3) obtain a so1 where run: "\<not> so_finish_requested so" "finish_input env so = Some (Inr a, so1)"
        "speech_run env ops so1 = Some (es, so')"
      by (auto split: if_splits option.splits sum.splits)
    with finish_text [OF pos Cons.prems(1,2) run(1)] obtain said1 where
      s1: "text_inv env cfg shown said1 so1" "heard env raw so1 said1" "so_finish_requested so1" by auto
    from Cons.IH [OF s1(1,2) run(3)] s1(3) EndInput show ?thesis by auto
  next
    case (PollAt t p ws)
    with Cons.prems(3) obtain ev so1 w1 where poll: "speech_poll env t (so, p, ws) = Some (Inr ev, so1, w1)"
      by (auto split: option.splits sum.splits prod.splits)
    note res = speech_poll_text [OF pos Cons.prems(1) poll]
    show ?thesis
    proof (cases "ev = Some Drained")
      case True
      with Cons.prems(3) poll PollAt have "ops = []" "es = [(t, Drained)]" by (auto split: if_splits)
      moreover from res True obtain so2 where "text_inv env cfg shown said so2" "input_done so2" "rest_same so so2" by auto
      ultimately show ?thesis using heard_same [of so so2 env raw said] Cons.prems(2) PollAt
        by (intro exI [of _ so2] exI [of _ said]) (simp add: rest_same_def)
    next
      case False
      note step = speech_poll_heard [OF pos Cons.prems(1,2) poll False]
      obtain rs where run: "speech_run env ops so1 = Some (rs, so')"
          "es = (case ev of None \<Rightarrow> [] | Some e \<Rightarrow> [(t, e)]) @ rs"
        using Cons.prems(3) poll False PollAt by (cases ev) (auto split: speech_event.splits)
      have ann: "announced es = (case ev of None \<Rightarrow> [] | Some e \<Rightarrow> announced [(t, e)]) @ announced rs"
          "Drained \<in> snd ` set es \<longleftrightarrow> Drained \<in> snd ` set rs"
        using run(2) False by (auto split: option.splits) (cases "the ev"; auto)
      from step have "heard env raw so1 said"
        "text_inv env cfg (shown @ (case ev of None \<Rightarrow> [] | Some e \<Rightarrow> announced [(t, e)])) said so1"
        "so_finish_requested so1 = so_finish_requested so" by simp_all
      from Cons.IH [OF this(2,1) run(1)] this(3) PollAt show ?thesis by (simp add: ann)
    qed
  qed
qed

lemma run_end_text:
  assumes "0 < sc_max_chars cfg" and "text_inv env cfg shown said so" and "heard env raw so said"
    and "speech_run env ops so = Some (es, so')"
  shows "\<exists>shown1 said1 raw1. text_inv env cfg shown1 said1 so' \<and> heard env raw1 so' said1"
  using assms(2-4)
proof (induction ops arbitrary: so shown said raw es)
  case Nil
  then show ?case by auto
next
  case (Cons op ops)
  note pos = assms(1)
  show ?case
  proof (cases op)
    case (Say s)
    with Cons.prems(3) obtain so1 where run: "\<not> so_finish_requested so" "push_delta env s so = Some (Inr (), so1)"
        "speech_run env ops so1 = Some (es, so')"
      by (auto split: if_splits option.splits sum.splits)
    with push_text [OF pos Cons.prems(1,2) run(1), of s] Cons.IH [OF _ _ run(3)] show ?thesis by auto
  next
    case EndInput
    with Cons.prems(3) obtain so1 where run: "\<not> so_finish_requested so" "finish_input env so = Some (Inr (), so1)"
        "speech_run env ops so1 = Some (es, so')"
      by (auto split: if_splits option.splits sum.splits)
    with finish_text [OF pos Cons.prems(1,2) run(1)] Cons.IH [OF _ _ run(3)] show ?thesis by auto
  next
    case (PollAt t p ws)
    with Cons.prems(3) obtain ev so1 w1 where poll: "speech_poll env t (so, p, ws) = Some (Inr ev, so1, w1)"
      by (auto split: option.splits sum.splits prod.splits)
    show ?thesis
    proof (cases "ev = Some Drained")
      case True
      with Cons.prems(3) poll PollAt have "so1 = so'" by (auto split: if_splits)
      with drained_starts_over [OF pos Cons.prems(1)] poll True
      have "text_inv env cfg [] [] so'" "heard env [] so' []" by simp_all
      then show ?thesis by blast
    next
      case False
      note step = speech_poll_heard [OF pos Cons.prems(1,2) poll False]
      obtain rs where "speech_run env ops so1 = Some (rs, so')"
        using Cons.prems(3) poll False PollAt by (cases ev) (auto split: speech_event.splits)
      from Cons.IH [OF _ _ this] step show ?thesis by blast
    qed
  qed
qed

section \<open>Pacing\<close>

definition ahead_of :: "instant list \<Rightarrow> nat \<Rightarrow> bool" where
  "ahead_of ts k \<longleftrightarrow> ts ! k < ts ! 0 + PACED_FRAME_DURATION * (k + 1 - PREBUFFER_PACKETS)"

definition pace :: "instant list \<Rightarrow> ('f, 'e) speech_output \<Rightarrow> bool" where
  "pace ts so \<longleftrightarrow> so_sent so = length ts \<and>
     (\<forall>k. PREBUFFER_PACKETS \<le> k \<and> k < length ts \<longrightarrow> \<not> ahead_of ts k) \<and>
     (case ts of
        [] \<Rightarrow> so_origin so = None \<and> so_end_deadline so = None
      | t # _ \<Rightarrow> (\<exists>u d. so_origin so = Some u \<and> t \<le> u \<and> so_end_deadline so = Some d \<and> last ts + PACED_FRAME_DURATION \<le> d))"

lemma pace_eq:
  "so_sent b = so_sent a \<Longrightarrow> so_origin b = so_origin a \<Longrightarrow> so_end_deadline b = so_end_deadline a \<Longrightarrow> pace ts b = pace ts a"
  by (simp only: pace_def)

lemma pace_same: "rest_same a b \<Longrightarrow> pace ts a \<Longrightarrow> pace ts b"
  using pace_eq [of b a ts] by (simp add: rest_same_def)

lemma re_anchor_late:
  assumes o: "so_origin so = Some origin" and fst_le: "t0 \<le> origin" "t0 \<le> t"
    and due: "packet_send_deadline so = Some deadline" "case deadline of None \<Rightarrow> True | Some d \<Rightarrow> d \<le> t"
    and anchored: "re_anchor t so = Some anchored"
  shows "t0 \<le> get_or_insert anchored t"
proof (cases "so_sent so < PREBUFFER_PACKETS")
  case True
  then have "so_sent so + 1 - PREBUFFER_PACKETS = 0" by simp
  with anchored o fst_le show ?thesis by (auto simp: re_anchor_def Let_def get_or_insert_def split: if_splits option.splits)
next
  case False
  with due o have "origin + PACED_FRAME_DURATION * (so_sent so + 1 - PREBUFFER_PACKETS) \<le> t"
    by (auto simp: packet_send_deadline_def Let_def split: if_splits)
  with anchored o fst_le show ?thesis by (auto simp: re_anchor_def Let_def get_or_insert_def split: if_splits option.splits)
qed

lemma pace_send:
  assumes inv: "pace ts so" and late: "\<forall>x\<in>set ts. x \<le> t"
    and due: "packet_send_deadline so = Some deadline" "case deadline of None \<Rightarrow> True | Some d \<Rightarrow> d \<le> t"
    and send: "send_packet t so = Some (pkt, so2)"
  shows "pace (ts @ [t]) so2"
proof -
  from send obtain anchored where anchored: "re_anchor t so = Some anchored"
    and so2: "so_sent so2 = so_sent so + 1" "so_origin so2 = Some (get_or_insert anchored t)"
      "so_end_deadline so2 = Some (max (get_or_insert anchored t + PACED_FRAME_DURATION * (so_sent so + 1)) (t + PACED_FRAME_DURATION))"
    by (auto simp: send_packet_def Let_def split: list.splits option.splits if_splits)
  show ?thesis
  proof (cases ts)
    case Nil
    with inv anchored have "so_origin so = None" "so_sent so = 0" by (simp_all add: pace_def)
    with anchored so2 Nil show ?thesis
      by (auto simp: pace_def re_anchor_def get_or_insert_def PREBUFFER_PACKETS_def)
  next
    case (Cons t0 ts')
    with inv obtain origin where o: "so_origin so = Some origin" "t0 \<le> origin" by (auto simp: pace_def)
    from late Cons have t0: "t0 \<le> t" by simp
    have first: "t0 \<le> get_or_insert anchored t" by (rule re_anchor_late [OF o t0 due anchored])
    have last: "\<not> ahead_of (ts @ [t]) (length ts)" if "PREBUFFER_PACKETS \<le> length ts"
      using that due inv o Cons
      by (auto simp: ahead_of_def nth_append pace_def packet_send_deadline_def Let_def split: if_splits)
    have "\<not> ahead_of (ts @ [t]) k" if "PREBUFFER_PACKETS \<le> k" "k < length (ts @ [t])" for k
    proof (cases "k = length ts")
      case True
      then show ?thesis using last that by simp
    next
      case False
      with that have "k < length ts" by simp
      moreover have "\<not> ahead_of ts k" using inv that(1) calculation by (simp add: pace_def)
      moreover from calculation have "(ts @ [t]) ! k = ts ! k" by (simp add: nth_append)
      moreover have "(ts @ [t]) ! 0 = ts ! 0" using Cons by (simp add: nth_append)
      ultimately show ?thesis by (simp add: ahead_of_def)
    qed
    then show ?thesis using first so2 inv Cons by (simp add: pace_def)
  qed
qed

lemma run_pace:
  fixes env :: "('f, 'e) speech_env"
  assumes "0 < sc_max_chars cfg" and "text_inv env cfg shown said so" and "heard env raw so said"
    and "pace ts so" and "sorted (ts @ poll_times ops)" and "speech_run env ops so = Some (es, so')"
  shows "\<exists>so1 :: ('f, 'e) speech_output. pace (ts @ packet_times es) so1 \<and>
    (\<forall>t. (t, Drained) \<in> set es \<longrightarrow> (\<exists>d. so_end_deadline so1 = Some d \<and> d \<le> t))"
  using assms(2-6)
proof (induction ops arbitrary: so shown said raw es ts)
  case Nil
  then have "so = so'" "es = []" by simp_all
  with Nil.prems(3) show ?case by (intro exI [of _ so']) simp
next
  case (Cons op ops)
  note pos = assms(1)
  show ?case
  proof (cases op)
    case (Say s)
    with Cons.prems(5) obtain so1 where run: "\<not> so_finish_requested so" "push_delta env s so = Some (Inr (), so1)"
        "speech_run env ops so1 = Some (es, so')"
      by (auto split: if_splits option.splits sum.splits)
    from push_text [OF pos Cons.prems(1,2) run(1), of s] run(2) obtain said1 where
      s1: "text_inv env cfg shown said1 so1" "heard env (raw @ s) so1 said1" "pace ts so1 = pace ts so"
      using pace_eq [of so1 so ts] by auto
    from Cons.IH [OF s1(1,2) _ _ run(3)] s1(3) Cons.prems(3,4) Say show ?thesis by simp
  next
    case EndInput
    with Cons.prems(5) obtain so1 where run: "\<not> so_finish_requested so" "finish_input env so = Some (Inr (), so1)"
        "speech_run env ops so1 = Some (es, so')"
      by (auto split: if_splits option.splits sum.splits)
    from finish_text [OF pos Cons.prems(1,2) run(1)] run(2) obtain said1 where
      s1: "text_inv env cfg shown said1 so1" "heard env raw so1 said1" "pace ts so1 = pace ts so"
      using pace_eq [of so1 so ts] by auto
    from Cons.IH [OF s1(1,2) _ _ run(3)] s1(3) Cons.prems(3,4) EndInput show ?thesis by simp
  next
    case (PollAt t p ws)
    with Cons.prems(5) obtain ev so1 w1 where poll: "speech_poll env t (so, p, ws) = Some (Inr ev, so1, w1)"
      by (auto split: option.splits sum.splits prod.splits)
    note res = speech_poll_text [OF pos Cons.prems(1) poll]
    from Cons.prems(4) PollAt have late: "\<forall>x\<in>set ts. x \<le> t" and srt: "sorted (ts @ [t] @ poll_times ops)"
      by (auto simp: sorted_append)
    show ?thesis
    proof (cases "ev = Some Drained")
      case True
      with Cons.prems(5) poll PollAt have "ops = []" "es = [(t, Drained)]" by (auto split: if_splits)
      moreover from res True obtain so2 d where "rest_same so so2" "so_end_deadline so2 = Some d" "d \<le> t" by auto
      ultimately show ?thesis using pace_same [of so so2 ts] Cons.prems(3) by (intro exI [of _ so2]) auto
    next
      case False
      note step = speech_poll_heard [OF pos Cons.prems(1,2) poll False]
      let ?ts = "packet_times (case ev of None \<Rightarrow> [] | Some e \<Rightarrow> [(t, e)])"
      have pace1: "pace (ts @ ?ts) so1 \<and> sorted ((ts @ ?ts) @ poll_times ops)"
      proof (cases "\<exists>pkt. ev = Some (AudioPacket pkt)")
        case True
        with res obtain so2 deadline pkt where s: "rest_same so so2" "packet_send_deadline so2 = Some deadline"
            "case deadline of None \<Rightarrow> True | Some d \<Rightarrow> d \<le> t" "send_packet t so2 = Some (pkt, so1)" by auto
        from pace_send [OF pace_same [OF s(1) Cons.prems(3)] late s(2-4)] True srt show ?thesis by auto
      next
        case other: False
        with res False have "rest_same so so1" "?ts = []"
          by (auto split: option.splits speech_event.splits)
        with pace_same [of so so1 ts] Cons.prems(3) srt show ?thesis by (auto simp: sorted_append)
      qed
      obtain rs where run: "speech_run env ops so1 = Some (rs, so')"
          "es = (case ev of None \<Rightarrow> [] | Some e \<Rightarrow> [(t, e)]) @ rs"
        using Cons.prems(5) poll False PollAt by (cases ev) (auto split: speech_event.splits)
      have split: "packet_times es = ?ts @ packet_times rs" "\<And>u. (u, Drained) \<in> set es \<longleftrightarrow> (u, Drained) \<in> set rs"
        using run(2) False by (auto split: option.splits) (cases "the ev"; auto)
      from step have "heard env raw so1 said"
        "text_inv env cfg (shown @ (case ev of None \<Rightarrow> [] | Some e \<Rightarrow> announced [(t, e)])) said so1" by simp_all
      from Cons.IH [OF this(2,1) conjunct1 [OF pace1] conjunct2 [OF pace1] run(1)] show ?thesis by (simp add: split)
    qed
  qed
qed

section \<open>Theorems\<close>

lemma reference_of_said:
  assumes "heard env raw so said" and "feed cfg [] said = Some (ss, b)"
  shows "reference env cfg raw (so_finish_requested so) =
    displays env (if so_finish_requested so then ss @ last_segment b else ss)"
  using assms by (auto simp: heard_def reference_def Let_def split_beta split: if_splits)

lemma heard_reference:
  assumes pos: "0 < sc_max_chars cfg" and inv: "text_inv env cfg shown said so" and h: "heard env raw so said"
  shows "prefix shown (reference env cfg raw (so_finish_requested so))"
    and "input_done so \<Longrightarrow> shown = reference env cfg raw (so_finish_requested so)"
proof -
  from inv obtain read ss b where r: "said = read @ so_filtered so" "feed cfg [] read = Some (ss, b)"
      "if so_finish_input so
       then so_finish_requested so \<and> so_filtered so = [] \<and> so_buffer so = [] \<and>
         shown @ unannounced (so_pending so) = displays env (ss @ last_segment b)
       else so_buffer so = b \<and> shown @ unannounced (so_pending so) = displays env ss" by (auto simp: text_inv_def)
  have ref: "reference env cfg raw (so_finish_requested so) = shown @ unannounced (so_pending so)" if "so_finish_input so"
    using that r reference_of_said [OF h, of cfg ss b] by simp
  then show "input_done so \<Longrightarrow> shown = reference env cfg raw (so_finish_requested so)"
    by (simp add: input_done_def unannounced_def)
  show "prefix shown (reference env cfg raw (so_finish_requested so))"
  proof (cases "so_finish_input so")
    case True
    with ref show ?thesis by simp
  next
    case False
    with feed_quiet [OF pos quiet_Nil [OF pos], of read] r(2) have "next_split cfg b = None" by auto
    from feed_quiet [OF pos this, of "so_filtered so"] obtain ts c where "feed cfg b (so_filtered so) = Some (ts, c)" by blast
    with feed_append [OF r(2)] r(1) have "feed cfg [] said = Some (ss @ ts, c)" by simp
    moreover from False r(3) have "prefix shown (displays env ss)" by (auto intro: prefixI [of _ _ "unannounced (so_pending so)"])
    ultimately show ?thesis using reference_of_said [OF h, of cfg "ss @ ts" c] by (auto intro: prefix_prefix)
  qed
qed

lemma text_inv_bound: "text_inv env cfg shown said so \<Longrightarrow> length (so_pending so) \<le> sc_pending_segments cfg"
  by (simp add: text_inv_def)

text \<open>
  C14: A turn announces, in order and without a gap or a repetition, segments of the reference
  segmentation of the whole text, whatever the chunks of the text and the times of the polls were; a turn
  that drained announced all of them.
\<close>

theorem announced_segments_in_order:
  assumes "0 < sc_max_chars cfg"
    and "speech_run env ops (turn_start env cfg runtime stream) = Some (events, so)"
  shows "prefix (announced events) (reference env cfg (said_text ops) (EndInput \<in> set ops)) \<and>
    (Drained \<in> snd ` set events \<longrightarrow>
       announced events = reference env cfg (said_text ops) True)"
proof -
  note start = text_inv_start [OF assms(1), of env runtime stream] heard_start [of env cfg runtime stream]
  from run_text [OF assms(1) start assms(2)] obtain so1 said where
    "text_inv env cfg (announced events) said so1" "heard env (said_text ops) so1 said"
    "so_finish_requested so1 \<longleftrightarrow> EndInput \<in> set ops" "Drained \<in> snd ` set events \<longrightarrow> input_done so1"
    by (auto simp: turn_start_def with_config_def)
  moreover from this(1,4) have "Drained \<in> snd ` set events \<longrightarrow> so_finish_requested so1"
    by (auto simp: text_inv_def input_done_def)
  ultimately show ?thesis using heard_reference [OF assms(1), of env "announced events" said so1 "said_text ops"] by auto
qed

text \<open>
  C15: Text is never refused for lack of room: at any point of a turn the output takes another delta, and
  the end of the input, without an error other than having nothing to say, and its queue of segments keeps
  its bound. The text beyond the bound waits.
\<close>

theorem text_never_refused:
  assumes "0 < sc_max_chars cfg"
    and "speech_run env ops (turn_start env cfg runtime stream) = Some (events, so)"
    and "\<not> so_finish_requested so"
  shows "(\<exists>so1. push_delta env s so = Some (Inr (), so1) \<and> length (so_pending so1) \<le> sc_pending_segments cfg) \<and>
    (\<exists>r so1. finish_input env so = Some (r, so1) \<and>
       (r = Inl Synthesis \<or> r = Inr () \<and> length (so_pending so1) \<le> sc_pending_segments cfg))"
proof -
  note start = text_inv_start [OF assms(1), of env runtime stream] heard_start [of env cfg runtime stream]
  from run_end_text [OF assms(1) start assms(2)] obtain shown said raw where
    inv: "text_inv env cfg shown said so" and h: "heard env raw so said" by blast
  from push_text [OF assms(1) inv h assms(3), of s] obtain so1 where
    push: "push_delta env s so = Some (Inr (), so1)" "length (so_pending so1) \<le> sc_pending_segments cfg"
    by (auto dest!: text_inv_bound)
  from finish_text [OF assms(1) inv h assms(3)] obtain r so2 said2 where
    fin: "finish_input env so = Some (r, so2)"
    "case r of Inl e \<Rightarrow> e = Synthesis
     | Inr _ \<Rightarrow> text_inv env cfg shown said2 so2 \<and> heard env raw so2 said2 \<and> so_finish_requested so2 \<and>
         so_sent so2 = so_sent so \<and> so_origin so2 = so_origin so \<and> so_end_deadline so2 = so_end_deadline so"
    by blast
  then have "r = Inl Synthesis \<or> r = Inr () \<and> length (so_pending so2) \<le> sc_pending_segments cfg"
    by (cases r) (auto dest: text_inv_bound)
  with push fin(1) show ?thesis by blast
qed

text \<open>
  C16: Playback: with polls in the order of time, packet \<open>k\<close> from the prebuffer on leaves no earlier than its
  place on the clock that starts with the first packet, and a turn drains only after at least one packet and
  a whole frame after its last one.
\<close>

theorem playback_never_ahead:
  assumes "0 < sc_max_chars cfg"
    and "speech_run env ops (turn_start env cfg runtime stream) = Some (events, so)"
    and "sorted (poll_times ops)"
  shows "list_all (\<lambda>k. packet_times events ! 0 + PACED_FRAME_DURATION * (k + 1 - PREBUFFER_PACKETS) \<le> packet_times events ! k)
           [PREBUFFER_PACKETS..<length (packet_times events)] \<and>
    (\<forall>t. (t, Drained) \<in> set events \<longrightarrow>
       packet_times events \<noteq> [] \<and> last (packet_times events) + PACED_FRAME_DURATION \<le> t)"
proof -
  note start = text_inv_start [OF assms(1), of env runtime stream] heard_start [of env cfg runtime stream]
  have "pace [] (turn_start env cfg runtime stream)" by (simp add: pace_def turn_start_def with_config_def)
  from run_pace [OF assms(1) start this _ assms(2)] assms(3) obtain so1 :: "('a, 'b) speech_output" where
    so1: "pace (packet_times events) so1" "\<forall>t. (t, Drained) \<in> set events \<longrightarrow> (\<exists>d. so_end_deadline so1 = Some d \<and> d \<le> t)"
    by auto
  have "list_all (\<lambda>k. \<not> ahead_of (packet_times events) k) [PREBUFFER_PACKETS..<length (packet_times events)]"
    using so1(1) by (simp add: pace_def list_all_iff)
  then show ?thesis using so1
    by (cases "packet_times events") (auto simp: ahead_of_def not_less pace_def)
qed

section \<open>A small turn\<close>

text \<open>One letter, spoken by the provider itself, whose sound fits in one packet.\<close>

definition letter_env :: "(int, unit) speech_env" where
  "letter_env = \<lparr>en_ops = int_ops, en_opus = (\<lambda>_ _. (Some [7], ())), en_encoder = (), en_json = (\<lambda>_. False),
     en_alnum = is_ascii_alphanumeric, en_nfc = (\<lambda>s. s), en_synthesize = (\<lambda>_. Some \<lparr>pf_samples = [5], pf_rate = 24000\<rparr>),
     en_prebuffer_ms = None\<rparr>"

definition letter_config :: speech_output_config where
  "letter_config = \<lparr>sc_min_chars = 1, sc_soft_break_min_chars = 4, sc_max_chars = 9, sc_pending_segments = 2\<rparr>"

definition poll_at :: "instant \<Rightarrow> int speech_op" where
  "poll_at t = PollAt t \<lparr>tp_closed = False, tp_unloading = False, tp_unloaded = False, tp_next = 1, tp_next_stream = 1,
     tp_slots = [], tp_streams = [], tp_closed_streams = [], tp_workers = [], tp_store = []\<rparr> []"

definition letter_turn :: "int speech_op list" where
  "letter_turn = [Say [111], EndInput, poll_at 0, poll_at 0, poll_at 0, poll_at 60]"

definition letter_events :: "(instant \<times> speech_event) list" where
  "letter_events = [(0, SegmentReady [111]), (0, SpeechStarted), (0, AudioPacket [7]), (60, Drained)]"

lemmas turn_defs = letter_env_def letter_config_def poll_at_def turn_start_def with_config_def filter_new_def

lemmas intake_defs = seg_push_def seg_loop.simps next_split_def chars_end_def is_sentence_boundary_def closing_quote_def chr_def
  is_ascii_alphanumeric_def is_ascii_digit_def is_whitespace_def enqueue_def trim_def trim_by_def trim_end_by_def
  trim_start_by_def sanitize_tts_text_def speech_kept_def speech_char_def advance_filtered_text_def push_delta_def
  finish_input_def finish_segmenter_def seg_finish_def nothing_to_say_def filter_finish_def filter_char_def
  filter_plain_def opens_def closes_def

lemmas poll_defs = speech_poll_def poll_pending_def poll_worker_def poll_flush_def poll_idle_def poll_start_def poll_packet_def
  after_stage_def synthesize_next_def input_done_def packet_send_deadline_def send_packet_def re_anchor_def
  get_or_insert_def flush_downlink_tail_def speech_push_pcm_def push_provider_pcm_def downlink_finish_def
  pipeline_new_def downlink_new_def finish_segment_def MAX_BUFFERED_PACKETS_def PREBUFFER_PACKETS_def
  PACED_FRAME_DURATION_def take_complete_packets.simps fade_in_def fade_out_tail_def float_to_i16_def int_ops_def
  packet_limit_def DOWNLINK_FRAME_SAMPLES_def FADE_IN_SAMPLES_def FADE_OUT_SAMPLES_def encode_frame_def
  downlink_frame_def downlink_encode_def MAX_DOWNLINK_OPUS_PACKET_BYTES_def speech_cancel_def

lemma letter_run:
  "case speech_run letter_env letter_turn (turn_start letter_env letter_config None None) of
     None \<Rightarrow> False | Some p \<Rightarrow> fst p = letter_events"
  by (simp add: letter_turn_def letter_events_def turn_defs intake_defs poll_defs Let_def)

lemma letter_run_result:
  "\<exists>so. speech_run letter_env letter_turn (turn_start letter_env letter_config None None) = Some (letter_events, so)"
  using letter_run by (cases "speech_run letter_env letter_turn (turn_start letter_env letter_config None None)") auto

lemma letter_open:
  "case speech_run letter_env [Say [111]] (turn_start letter_env letter_config None None) of
     None \<Rightarrow> False | Some p \<Rightarrow> fst p = [] \<and> \<not> so_finish_requested (snd p)"
  by (simp add: turn_defs intake_defs Let_def)

lemma letter_letters [simp]: "sc_max_chars letter_config = 9" "sc_pending_segments letter_config = 2"
  by (simp_all add: letter_config_def)

lemma announced_segments_in_order_witness:
  "announced letter_events = reference letter_env letter_config [111] True"
proof -
  obtain so where run: "speech_run letter_env letter_turn (turn_start letter_env letter_config None None) = Some (letter_events, so)"
    using letter_run_result by blast
  from announced_segments_in_order [OF _ run] show ?thesis
    by (simp add: letter_events_def letter_turn_def poll_at_def)
qed

lemma text_never_refused_witness:
  "\<exists>so so1. speech_run letter_env [Say [111]] (turn_start letter_env letter_config None None) = Some ([], so) \<and>
     push_delta letter_env [112] so = Some (Inr (), so1) \<and> length (so_pending so1) \<le> 2"
proof -
  obtain so where run: "speech_run letter_env [Say [111]] (turn_start letter_env letter_config None None) = Some ([], so)"
      "\<not> so_finish_requested so"
    using letter_open by (cases "speech_run letter_env [Say [111]] (turn_start letter_env letter_config None None)") auto
  from text_never_refused [OF _ run, of "[112]"] run(1) show ?thesis by auto
qed

lemma playback_never_ahead_witness:
  "packet_times letter_events = [0] \<and> last (packet_times letter_events) + PACED_FRAME_DURATION \<le> 60"
proof -
  obtain so where run: "speech_run letter_env letter_turn (turn_start letter_env letter_config None None) = Some (letter_events, so)"
    using letter_run_result by blast
  from playback_never_ahead [OF _ run] show ?thesis
    by (simp add: letter_events_def letter_turn_def poll_at_def)
qed

end
