(* ===== verification/Writer.thy ===== *)
theory Writer
  imports Capacity Dialogue Audio
begin

text \<open>
  The WebSocket writer of a session (\<open>app/transport/websocket/writer.rs\<close>, \<open>frame.rs\<close>, the messages of
  \<open>session/actor/mod.rs\<close>): the playback arbiter and one pass of the select loop, which is biased and so
  a function of the three lanes, the timers and the answer of the socket. A pass sends at most one
  frame. Each frame in the log carries what it was sent for.
\<close>

section \<open>Messages\<close>

datatype writer_outcome = Normal | Aborted bool bool

datatype writer_event = TurnClosed turn_id writer_outcome | WriterFailed "turn_id option"

datatype outbound_message =
    OutText rstr
  | PipelineStatus u64 rstr
  | SpeakerStatus rstr
  | TurnText u64 turn_id rstr
  | BeginTurn u64 turn_id rstr
  | FinishTurn turn_id rstr
  | AbortTurn turn_id rstr
  | OutBinary u64 turn_id packet
  | OutClose nat
  | CloseWithReason nat rstr

fun as_text :: "outbound_message \<Rightarrow> rstr option" where
  "as_text (OutText s) = Some s"
| "as_text (PipelineStatus _ s) = Some s"
| "as_text (SpeakerStatus s) = Some s"
| "as_text (TurnText _ _ s) = Some s"
| "as_text (BeginTurn _ _ s) = Some s"
| "as_text (FinishTurn _ s) = Some s"
| "as_text (AbortTurn _ s) = Some s"
| "as_text (OutBinary _ _ _) = None"
| "as_text (OutClose _) = None"
| "as_text (CloseWithReason _ _) = None"

section \<open>The arbiter\<close>

record playback_turn =
  pt_id :: turn_id
  pt_start_was_sent :: bool

record arbiter =
  ab_active :: "playback_turn option"
  ab_deferred :: "(turn_id \<times> rstr) option"

datatype finish_step = AbortUnstarted | Deferred | SendStop rstr

datatype abort_step = AbortActive bool | AbortNotActive

definition arbiter_new :: arbiter where
  "arbiter_new = \<lparr>ab_active = None, ab_deferred = None\<rparr>"

definition admits_begin :: "bool \<Rightarrow> arbiter \<Rightarrow> bool" where
  "admits_begin admitted a \<longleftrightarrow> ab_active a = None \<and> admitted"

definition arbiter_started :: "turn_id \<Rightarrow> arbiter \<Rightarrow> arbiter" where
  "arbiter_started t a = a\<lparr>ab_active := Some \<lparr>pt_id = t, pt_start_was_sent = True\<rparr>\<rparr>"

definition active_turn :: "arbiter \<Rightarrow> turn_id option" where
  "active_turn a = map_option pt_id (ab_active a)"

definition is_active :: "turn_id \<Rightarrow> arbiter \<Rightarrow> bool" where
  "is_active t a = (case ab_active a of None \<Rightarrow> False | Some p \<Rightarrow> pt_id p = t)"

definition plays :: "turn_id \<Rightarrow> arbiter \<Rightarrow> bool" where
  "plays t a = (case ab_active a of None \<Rightarrow> False | Some p \<Rightarrow> pt_start_was_sent p \<and> pt_id p = t)"

definition arbiter_finish :: "turn_id \<Rightarrow> rstr \<Rightarrow> bool \<Rightarrow> arbiter \<Rightarrow> finish_step \<times> arbiter" where
  "arbiter_finish t s drained a =
     (if \<not> is_active t a then (AbortUnstarted, a)
      else if \<not> drained then (Deferred, a\<lparr>ab_deferred := Some (t, s)\<rparr>)
      else (SendStop s, a))"

definition arbiter_stopped :: "arbiter \<Rightarrow> arbiter" where
  "arbiter_stopped a = a\<lparr>ab_active := None\<rparr>"

definition arbiter_abort :: "turn_id \<Rightarrow> arbiter \<Rightarrow> abort_step \<times> arbiter" where
  "arbiter_abort t a =
     (if \<not> is_active t a then (AbortNotActive, a)
      else (AbortActive (case ab_active a of None \<Rightarrow> False | Some p \<Rightarrow> pt_start_was_sent p),
            a\<lparr>ab_deferred := None, ab_active := None\<rparr>))"

section \<open>Frames\<close>

datatype wire = WireText rstr | WireBinary packet | WireClose nat rstr | WirePing

definition outbound_generation :: "outbound_message \<Rightarrow> u64 option" where
  "outbound_generation m = (case m of TurnText g _ _ \<Rightarrow> Some g | OutBinary g _ _ \<Rightarrow> Some g | _ \<Rightarrow> None)"

fun outbound_frame :: "outbound_message \<Rightarrow> wire option" where
  "outbound_frame (OutText s) = Some (WireText s)"
| "outbound_frame (TurnText _ _ s) = Some (WireText s)"
| "outbound_frame (SpeakerStatus s) = Some (WireText s)"
| "outbound_frame (PipelineStatus _ s) = Some (WireText s)"
| "outbound_frame (OutBinary _ _ p) = Some (WireBinary p)"
| "outbound_frame (BeginTurn _ _ _) = None"
| "outbound_frame (FinishTurn _ _) = None"
| "outbound_frame (AbortTurn _ _) = None"
| "outbound_frame (OutClose code) = Some (WireClose code [])"
| "outbound_frame (CloseWithReason code reason) = Some (WireClose code reason)"

definition closes_connection :: "outbound_message \<Rightarrow> bool" where
  "closes_connection m = (case m of OutClose _ \<Rightarrow> True | _ \<Rightarrow> False)"

datatype send_result = Dropped | Sent wire bool | SendFailed

text \<open>
  \<open>ok\<close> is whether the socket takes the frame within the write timeout. The question to the gate and the write are
  one step: a frame counts as sent at the moment the gate admits it. The code awaits the socket after that
  moment, so a frame whose write is already under way when the gate closes still goes out; no frame is asked for
  or written after it.
\<close>

definition send_outbound :: "bool \<Rightarrow> generation_gate \<Rightarrow> u64 \<Rightarrow> outbound_message \<Rightarrow> send_result" where
  "send_outbound ok gate request m =
     (if (case m of PipelineStatus r _ \<Rightarrow> r \<noteq> request | _ \<Rightarrow> False) then Dropped
      else if (case outbound_generation m of None \<Rightarrow> False | Some g \<Rightarrow> \<not> gate_admits gate g) then Dropped
      else (case outbound_frame m of
              None \<Rightarrow> Dropped
            | Some f \<Rightarrow> if ok then Sent f (closes_connection m) else SendFailed))"

text \<open>Frames the peer sends, and the two readings of them before the session starts.\<close>

datatype ws_message = WsText rstr | WsBinary "nat list" | WsPing | WsPong | WsClose

definition checked_text :: "ws_message \<Rightarrow> usize \<Rightarrow> nat + rstr" where
  "checked_text m limit =
     (case m of
        WsText s \<Rightarrow> if byte_len s \<le> limit then Inr s else Inl 1009
      | _ \<Rightarrow> Inl 1002)"

fun next_application_frame :: "ws_message list \<Rightarrow> (ws_message \<times> ws_message list) option" where
  "next_application_frame [] = None"
| "next_application_frame (m # ms) =
     (if m = WsPing \<or> m = WsPong then next_application_frame ms else Some (m, ms))"

section \<open>The loop\<close>

datatype writer_stop = StopSignal | CloseSent | SendFailure

datatype cause = ForStart u64 turn_id | ForStop turn_id | ForMessage outbound_message | ForPing

record writer =
  wr_arbiter :: arbiter
  wr_hello_pending :: bool
  wr_urgent :: "outbound_message list"
  wr_control :: "outbound_message list"
  wr_audio :: "outbound_message list"
  wr_events :: "writer_event list"
  wr_sent :: "(cause \<times> wire) list"
  wr_activity :: nat
  wr_done :: bool

definition writer_new :: writer where
  "writer_new = \<lparr>wr_arbiter = arbiter_new, wr_hello_pending = True, wr_urgent = [], wr_control = [], wr_audio = [],
     wr_events = [], wr_sent = [], wr_activity = 0, wr_done = False\<rparr>"

text \<open>
  What a pass reads from outside: the gate and the request epoch it shares with the session, the clock of
  \<open>TransportActivity\<close>, the socket's answer, and whether a ping is due or the stop signal is set.
\<close>

record writer_env =
  we_gate :: generation_gate
  we_request :: u64
  we_now :: nat
  we_ok :: bool
  we_ping_due :: bool
  we_stop :: bool

definition touch :: "nat \<Rightarrow> writer \<Rightarrow> writer" where
  "touch elapsed w = w\<lparr>wr_activity := max (wr_activity w) elapsed\<rparr>"

definition writer_send :: "writer_env \<Rightarrow> cause \<Rightarrow> outbound_message \<Rightarrow> writer \<Rightarrow> writer_stop option \<times> writer" where
  "writer_send env c m w =
     (case send_outbound (we_ok env) (we_gate env) (we_request env) m of
        Dropped \<Rightarrow> (None, w)
      | Sent f closes \<Rightarrow>
          (if closes then Some CloseSent else None, touch (we_now env) (w\<lparr>wr_sent := wr_sent w @ [(c, f)]\<rparr>))
      | SendFailed \<Rightarrow> (Some SendFailure, w))"

definition report_closed :: "turn_id \<Rightarrow> writer_outcome \<Rightarrow> writer \<Rightarrow> writer" where
  "report_closed t outcome w = w\<lparr>wr_events := wr_events w @ [TurnClosed t outcome]\<rparr>"

definition send_stop :: "writer_env \<Rightarrow> turn_id \<Rightarrow> rstr \<Rightarrow> writer \<Rightarrow> writer_stop option \<times> writer" where
  "send_stop env t s w =
     (case writer_send env (ForStop t) (OutText s) w of
        (Some stop, w1) \<Rightarrow> (Some stop, w1)
      | (None, w1) \<Rightarrow> (None, report_closed t Normal (w1\<lparr>wr_arbiter := arbiter_stopped (wr_arbiter w1)\<rparr>)))"

definition on_urgent :: "writer_env \<Rightarrow> outbound_message \<Rightarrow> writer \<Rightarrow> writer_stop option \<times> writer" where
  "on_urgent env m w =
     (case m of
        AbortTurn t s \<Rightarrow>
          let (step, a) = arbiter_abort t (wr_arbiter w);
              start_was_sent = (case step of AbortActive b \<Rightarrow> b | AbortNotActive \<Rightarrow> False);
              w1 = w\<lparr>wr_arbiter := a\<rparr>
          in (case (if start_was_sent then writer_send env (ForStop t) (OutText s) w1 else (None, w1)) of
                (Some stop, w2) \<Rightarrow> (Some stop, w2)
              | (None, w2) \<Rightarrow> (None, report_closed t (Aborted start_was_sent start_was_sent) w2))
      | _ \<Rightarrow> writer_send env (ForMessage m) m w)"

definition on_control :: "writer_env \<Rightarrow> bool \<Rightarrow> outbound_message \<Rightarrow> writer \<Rightarrow> writer_stop option \<times> writer" where
  "on_control env drained m w =
     (case m of
        BeginTurn g t s \<Rightarrow>
          if admits_begin (gate_admits (we_gate env) g) (wr_arbiter w)
          then (case writer_send env (ForStart g t) (OutText s) w of
                  (Some stop, w1) \<Rightarrow> (Some stop, w1)
                | (None, w1) \<Rightarrow> (None, w1\<lparr>wr_arbiter := arbiter_started t (wr_arbiter w1)\<rparr>))
          else (None, w)
      | FinishTurn t s \<Rightarrow>
          (case arbiter_finish t s drained (wr_arbiter w) of
             (AbortUnstarted, a) \<Rightarrow> (None, report_closed t (Aborted False False) (w\<lparr>wr_arbiter := a\<rparr>))
           | (Deferred, a) \<Rightarrow> (None, w\<lparr>wr_arbiter := a\<rparr>)
           | (SendStop s', a) \<Rightarrow> send_stop env t s' (w\<lparr>wr_arbiter := a\<rparr>))
      | _ \<Rightarrow>
          (case writer_send env (ForMessage m) m w of
             (Some stop, w1) \<Rightarrow> (Some stop, w1)
           | (None, w1) \<Rightarrow>
               (None, if wr_hello_pending w1 \<and> (case m of OutText _ \<Rightarrow> True | _ \<Rightarrow> False)
                      then w1\<lparr>wr_hello_pending := False\<rparr> else w1)))"

definition on_audio :: "writer_env \<Rightarrow> outbound_message \<Rightarrow> writer \<Rightarrow> writer_stop option \<times> writer" where
  "on_audio env m w =
     (case m of
        OutBinary _ t _ \<Rightarrow> if plays t (wr_arbiter w) then writer_send env (ForMessage m) m w else (None, w)
      | _ \<Rightarrow> (None, w))"

definition writer_ping :: "writer_env \<Rightarrow> writer \<Rightarrow> writer_stop option \<times> writer" where
  "writer_ping env w =
     (if we_ok env then (None, touch (we_now env) (w\<lparr>wr_sent := wr_sent w @ [(ForPing, WirePing)]\<rparr>))
      else (Some SendFailure, w))"

text \<open>One pass of the biased select; \<open>None\<close> when no branch is ready.\<close>

definition writer_pass :: "writer_env \<Rightarrow> writer \<Rightarrow> (writer_stop option \<times> writer) option" where
  "writer_pass env w =
     (case wr_urgent w of
        m # ms \<Rightarrow> Some (on_urgent env m (w\<lparr>wr_urgent := ms\<rparr>))
      | [] \<Rightarrow>
          (case (if wr_audio w = [] then ab_deferred (wr_arbiter w) else None) of
             Some (t, s) \<Rightarrow> Some (send_stop env t s (w\<lparr>wr_arbiter := (wr_arbiter w)\<lparr>ab_deferred := None\<rparr>\<rparr>))
           | None \<Rightarrow>
               (case wr_control w of
                  m # ms \<Rightarrow> Some (on_control env (wr_audio w = []) m (w\<lparr>wr_control := ms\<rparr>))
                | [] \<Rightarrow>
                    if we_ping_due env then Some (writer_ping env w)
                    else (case wr_audio w of
                            m # ms \<Rightarrow> Some (on_audio env m (w\<lparr>wr_audio := ms\<rparr>))
                          | [] \<Rightarrow> if we_stop env then Some (Some StopSignal, w) else None))))"

text \<open>After the loop: a failed writer tells the session once.\<close>

definition writer_end :: "writer_stop \<Rightarrow> writer \<Rightarrow> writer" where
  "writer_end stop w =
     (let w1 = (if stop = SendFailure
                then w\<lparr>wr_events := wr_events w @ [WriterFailed (active_turn (wr_arbiter w))]\<rparr> else w)
      in w1\<lparr>wr_done := True\<rparr>)"

definition writer_step :: "writer_env \<Rightarrow> writer \<Rightarrow> writer option" where
  "writer_step env w =
     (if wr_done w then None
      else (case writer_pass env w of
              None \<Rightarrow> None
            | Some (None, w1) \<Rightarrow> Some w1
            | Some (Some stop, w1) \<Rightarrow> Some (writer_end stop w1)))"

section \<open>The writer among the others\<close>

text \<open>
  The session puts messages on the lanes, each kind on its own, invalidates generations and counts its requests; a pass reads the
  gate and the count as they are.
\<close>

record writer_sys =
  ws_writer :: writer
  ws_gate :: generation_gate
  ws_request :: u64

definition writer_init :: "writer_sys \<Rightarrow> bool" where
  "writer_init s \<longleftrightarrow> ws_writer s = writer_new \<and> ws_gate s = gate_new"

definition urgent_message :: "outbound_message \<Rightarrow> bool" where
  "urgent_message m = (case m of AbortTurn _ _ \<Rightarrow> True | OutClose _ \<Rightarrow> True | _ \<Rightarrow> False)"

definition control_message :: "outbound_message \<Rightarrow> bool" where
  "control_message m =
     (case m of OutBinary _ _ _ \<Rightarrow> False | OutClose _ \<Rightarrow> False | CloseWithReason _ _ \<Rightarrow> False | AbortTurn _ _ \<Rightarrow> False | _ \<Rightarrow> True)"

definition audio_message :: "outbound_message \<Rightarrow> bool" where
  "audio_message m = (case m of OutBinary _ _ _ \<Rightarrow> True | _ \<Rightarrow> False)"

inductive writer_sys_step :: "writer_sys \<Rightarrow> writer_sys \<Rightarrow> bool" where
  put_urgent: "urgent_message m \<Longrightarrow>
    writer_sys_step s (s\<lparr>ws_writer := (ws_writer s)\<lparr>wr_urgent := wr_urgent (ws_writer s) @ [m]\<rparr>\<rparr>)"
| put_control: "control_message m \<Longrightarrow>
    writer_sys_step s (s\<lparr>ws_writer := (ws_writer s)\<lparr>wr_control := wr_control (ws_writer s) @ [m]\<rparr>\<rparr>)"
| put_audio: "audio_message m \<Longrightarrow>
    writer_sys_step s (s\<lparr>ws_writer := (ws_writer s)\<lparr>wr_audio := wr_audio (ws_writer s) @ [m]\<rparr>\<rparr>)"
| invalidate: "writer_sys_step s (s\<lparr>ws_gate := gate_invalidate g (ws_gate s)\<rparr>)"
| count_request: "writer_sys_step s (s\<lparr>ws_request := ws_request s + 1\<rparr>)"
| pass: "writer_step env (ws_writer s) = Some w \<Longrightarrow> we_gate env = ws_gate s \<Longrightarrow> we_request env = ws_request s \<Longrightarrow>
    writer_sys_step s (s\<lparr>ws_writer := w\<rparr>)"

end
