(* ===== verification/Writer_Theorems.thy ===== *)
theory Writer_Theorems
  imports Writer
begin

text \<open>
  What the writer guarantees: the discipline of playback on the wire, the truth of the outcomes it reports,
  an answer to every turn-scoped command, and no stale frame after an invalidation.
\<close>

section \<open>The discipline of the wire\<close>

datatype wire_state = Silent | Playing turn_id | Shut

text \<open>
  Playback on the wire: a start only when nothing plays, a packet and a stop only while their turn plays,
  nothing after a plain close frame. \<open>None\<close> is a violation.
\<close>

fun play :: "wire_state \<Rightarrow> (cause \<times> wire) list \<Rightarrow> wire_state option" where
  "play st [] = Some st"
| "play st ((c, f) # es) =
     (if st = Shut then None
      else (case c of
              ForStart g t \<Rightarrow> if st = Silent then play (Playing t) es else None
            | ForStop t \<Rightarrow> if st = Playing t then play Silent es else None
            | ForMessage (OutBinary g t p) \<Rightarrow> if st = Playing t then play st es else None
            | ForMessage (OutClose code) \<Rightarrow> play Shut es
            | _ \<Rightarrow> play st es))"

lemma play_append: "play st (a @ b) = Option.bind (play st a) (\<lambda>s. play s b)"
  by (induction a arbitrary: st) (auto split: cause.splits outbound_message.splits)

definition wire_at :: "arbiter \<Rightarrow> wire_state" where
  "wire_at a = (case active_turn a of None \<Rightarrow> Silent | Some t \<Rightarrow> Playing t)"

definition arbiter_ok :: "arbiter \<Rightarrow> bool" where
  "arbiter_ok a \<longleftrightarrow>
     (case ab_active a of None \<Rightarrow> ab_deferred a = None
      | Some p \<Rightarrow> pt_start_was_sent p \<and> (case ab_deferred a of None \<Rightarrow> True | Some (t, s) \<Rightarrow> t = pt_id p))"

definition lanes_ok :: "writer \<Rightarrow> bool" where
  "lanes_ok w \<longleftrightarrow>
     list_all urgent_message (wr_urgent w) \<and> list_all control_message (wr_control w) \<and> list_all audio_message (wr_audio w)"

text \<open>What an outcome claims of the wire.\<close>

definition was_started :: "turn_id \<Rightarrow> writer \<Rightarrow> bool" where
  "was_started t w \<longleftrightarrow> list_ex (\<lambda>(c, f). case c of ForStart g u \<Rightarrow> u = t | _ \<Rightarrow> False) (wr_sent w)"

definition was_stopped :: "turn_id \<Rightarrow> writer \<Rightarrow> bool" where
  "was_stopped t w \<longleftrightarrow> list_ex (\<lambda>(c, f). c = ForStop t) (wr_sent w)"

definition event_true :: "writer \<Rightarrow> writer_event \<Rightarrow> bool" where
  "event_true w e =
     (case e of
        TurnClosed t Normal \<Rightarrow> was_started t w \<and> was_stopped t w
      | TurnClosed t (Aborted started stopped) \<Rightarrow>
          (if started then was_started t w else True) \<and> (if stopped then was_stopped t w else True) \<and> started = stopped
      | WriterFailed _ \<Rightarrow> wr_done w)"

definition writer_ok :: "writer \<Rightarrow> bool" where
  "writer_ok w \<longleftrightarrow> lanes_ok w \<and> list_all (event_true w) (wr_events w) \<and>
     (if wr_done w then play Silent (wr_sent w) \<noteq> None
      else arbiter_ok (wr_arbiter w) \<and> play Silent (wr_sent w) = Some (wire_at (wr_arbiter w)) \<and>
        (case active_turn (wr_arbiter w) of None \<Rightarrow> True | Some t \<Rightarrow> was_started t w))"

section \<open>The invariant\<close>

lemma touch_frame [simp]:
  "wr_arbiter (touch n w) = wr_arbiter w" "wr_events (touch n w) = wr_events w" "wr_sent (touch n w) = wr_sent w"
  "wr_done (touch n w) = wr_done w" "wr_urgent (touch n w) = wr_urgent w" "wr_control (touch n w) = wr_control w"
  "wr_audio (touch n w) = wr_audio w"
  by (simp_all add: touch_def)

lemma send_text [simp]:
  "writer_send env c (OutText s) w =
     (if we_ok env then (None, touch (we_now env) (w\<lparr>wr_sent := wr_sent w @ [(c, WireText s)]\<rparr>)) else (Some SendFailure, w))"
  by (simp add: writer_send_def send_outbound_def outbound_generation_def closes_connection_def)

lemma send_cases:
  assumes "writer_send env c m w = (stop, w1)"
  obtains "w1 = w" "stop = None \<or> stop = Some SendFailure"
    | f where "outbound_frame m = Some f" "w1 = touch (we_now env) (w\<lparr>wr_sent := wr_sent w @ [(c, f)]\<rparr>)"
        "stop = (if closes_connection m then Some CloseSent else None)"
        "(case outbound_generation m of None \<Rightarrow> True | Some g \<Rightarrow> gate_admits (we_gate env) g)"
  using assms
  by (auto simp: writer_send_def send_outbound_def split: send_result.splits if_splits option.splits)

lemma was_sent_mono:
  assumes "wr_sent v = wr_sent w @ es"
  shows "was_started t w \<Longrightarrow> was_started t v" and "was_stopped t w \<Longrightarrow> was_stopped t v"
  using assms by (simp_all add: was_started_def was_stopped_def)

lemma event_true_mono:
  "wr_sent v = wr_sent w @ es \<Longrightarrow> wr_done w \<longrightarrow> wr_done v \<Longrightarrow> event_true w e \<Longrightarrow> event_true v e"
  using was_sent_mono [of v w es]
  by (auto simp: event_true_def split: writer_event.splits writer_outcome.splits if_splits)

text \<open>A handler that starts well ends well, and says why it stops.\<close>

definition well :: "writer \<Rightarrow> bool" where
  "well w \<longleftrightarrow> \<not> wr_done w \<and> writer_ok w"

definition ends_well :: "writer_stop option \<times> writer \<Rightarrow> bool" where
  "ends_well r =
     (case r of (stop, w) \<Rightarrow>
        if stop = None then well w
        else \<not> wr_done w \<and> lanes_ok w \<and> list_all (event_true w) (wr_events w) \<and> play Silent (wr_sent w) \<noteq> None)"

lemma well_iff:
  "well w \<longleftrightarrow> \<not> wr_done w \<and> lanes_ok w \<and> list_all (event_true w) (wr_events w) \<and> arbiter_ok (wr_arbiter w) \<and>
     play Silent (wr_sent w) = Some (wire_at (wr_arbiter w)) \<and>
     (case active_turn (wr_arbiter w) of None \<Rightarrow> True | Some t \<Rightarrow> was_started t w)"
  by (auto simp: well_def writer_ok_def)

lemma well_stop: "well w \<Longrightarrow> ends_well (stop, w)"
  by (simp add: ends_well_def well_def writer_ok_def)

lemma well_events: "well w \<Longrightarrow> list_all (event_true w) (wr_events w)"
  by (simp add: well_def writer_ok_def)

lemma well_lanes: "well w \<Longrightarrow> lanes_ok w"
  by (simp add: well_def writer_ok_def)

lemma well_play: "well w \<Longrightarrow> play Silent (wr_sent w) = Some (wire_at (wr_arbiter w))"
  by (simp add: well_def writer_ok_def)

lemma grown_events:
  "well w \<Longrightarrow> wr_sent v = wr_sent w @ es \<Longrightarrow> wr_events v = wr_events w \<Longrightarrow> \<not> wr_done v \<Longrightarrow> list_all (event_true v) (wr_events v)"
  using event_true_mono [of v w es] well_events [of w] by (auto simp: list_all_iff well_def)

lemma message_ends_well:
  assumes "well w" and "outbound_frame m \<noteq> None \<longrightarrow> (case m of OutBinary g t p \<Rightarrow> plays t (wr_arbiter w) | _ \<Rightarrow> True)"
  shows "ends_well (writer_send env (ForMessage m) m w)"
proof -
  obtain stop w1 where r: "writer_send env (ForMessage m) m w = (stop, w1)" by fastforce
  from r show ?thesis
  proof (cases rule: send_cases)
    case 1
    with r assms well_stop [of w stop] show ?thesis by simp
  next
    case (2 f)
    have "ends_well (stop, w1)"
    proof (cases "closes_connection m")
      case True
      with 2 well_play [OF assms(1)] well_lanes [OF assms(1)] grown_events [OF assms(1), of w1] assms(1) show ?thesis
        by (auto simp: ends_well_def well_def closes_connection_def play_append lanes_ok_def wire_at_def
            split: outbound_message.splits option.splits)
    next
      case False
      then have "play (wire_at (wr_arbiter w)) [(ForMessage m, f)] = Some (wire_at (wr_arbiter w))"
        using 2(1) assms(2)
        by (auto simp: closes_connection_def wire_at_def plays_def active_turn_def split: outbound_message.splits option.splits)
      with False 2 assms(1) grown_events [OF assms(1), of w1] show ?thesis
        by (auto simp: ends_well_def well_def writer_ok_def play_append lanes_ok_def was_started_def split: option.splits)
    qed
    with r show ?thesis by simp
  qed
qed


lemma started_ends_well:
  assumes "well w" and "ab_active (wr_arbiter w) = None"
  shows "ends_well (case writer_send env (ForStart g t) (OutText s) w of
      (Some stop, w1) \<Rightarrow> (Some stop, w1)
    | (None, w1) \<Rightarrow> (None, w1\<lparr>wr_arbiter := arbiter_started t (wr_arbiter w1)\<rparr>))"
proof (cases "we_ok env")
  case True
  let ?w = "touch (we_now env) (w\<lparr>wr_sent := wr_sent w @ [(ForStart g t, WireText s)]\<rparr>)\<lparr>wr_arbiter := arbiter_started t (wr_arbiter w)\<rparr>"
  have "list_all (event_true ?w) (wr_events ?w)" by (rule grown_events [OF assms(1)]) (use assms(1) in \<open>simp_all add: well_def\<close>)
  moreover have "play Silent (wr_sent ?w) = Some (Playing t)"
    using well_play [OF assms(1)] assms(2) by (simp add: play_append wire_at_def active_turn_def)
  moreover from assms have "ab_deferred (wr_arbiter w) = None" by (simp add: well_iff arbiter_ok_def)
  ultimately show ?thesis using True assms(1) well_lanes [OF assms(1)]
    by (simp add: ends_well_def well_def writer_ok_def lanes_ok_def arbiter_ok_def arbiter_started_def wire_at_def
        active_turn_def was_started_def)
next
  case False
  with assms(1) show ?thesis by (simp add: well_stop)
qed

text \<open>A stop frame for the turn that plays, after which nothing plays, and the outcome that goes with it.\<close>

lemma stopped_well:
  assumes "well w" and "active_turn (wr_arbiter w) = Some t" and "ab_active a = None" and "ab_deferred a = None"
    and "outcome = Normal \<or> outcome = Aborted True True"
  shows "well (report_closed t outcome
    (touch n (w\<lparr>wr_sent := wr_sent w @ [(ForStop t, WireText s)], wr_arbiter := a\<rparr>)))"
proof -
  let ?w = "touch n (w\<lparr>wr_sent := wr_sent w @ [(ForStop t, WireText s)], wr_arbiter := a\<rparr>)"
  have "list_all (event_true ?w) (wr_events ?w)" by (rule grown_events [OF assms(1)]) (use assms(1) in \<open>simp_all add: well_def\<close>)
  then have old: "list_all (event_true (report_closed t outcome ?w)) (wr_events ?w)"
    using event_true_mono [of "report_closed t outcome ?w" ?w "[]"] by (auto simp: list_all_iff report_closed_def)
  from assms(1,2) have "was_started t w" by (simp add: well_iff)
  then have "was_started t (report_closed t outcome ?w)" "was_stopped t (report_closed t outcome ?w)"
    by (simp_all add: was_started_def was_stopped_def report_closed_def)
  then have "event_true (report_closed t outcome ?w) (TurnClosed t outcome)" using assms(5) by (auto simp: event_true_def)
  moreover have "play Silent (wr_sent ?w) = Some Silent"
    using well_play [OF assms(1)] assms(2) by (simp add: play_append wire_at_def)
  ultimately show ?thesis using old assms(1,3,4) well_lanes [OF assms(1)]
    by (simp add: well_def writer_ok_def report_closed_def lanes_ok_def arbiter_ok_def wire_at_def active_turn_def)
qed

lemma unsent_stop:
  assumes "well w" and "wr_sent v = wr_sent w" "wr_events v = wr_events w" "wr_done v = wr_done w"
    "wr_urgent v = wr_urgent w" "wr_control v = wr_control w" "wr_audio v = wr_audio w"
  shows "ends_well (Some stop, v)"
proof -
  have "list_all (event_true v) (wr_events v)" by (rule grown_events [OF assms(1)]) (use assms in \<open>simp_all add: well_def\<close>)
  with assms show ?thesis by (simp add: ends_well_def well_def writer_ok_def lanes_ok_def)
qed

lemma send_stop_ends_well:
  assumes "well w" and "active_turn (wr_arbiter w) = Some t"
  shows "ends_well (send_stop env t s (w\<lparr>wr_arbiter := (wr_arbiter w)\<lparr>ab_deferred := None\<rparr>\<rparr>))"
proof (cases "we_ok env")
  case True
  have "send_stop env t s (w\<lparr>wr_arbiter := (wr_arbiter w)\<lparr>ab_deferred := None\<rparr>\<rparr>) =
      (None, report_closed t Normal (touch (we_now env) (w\<lparr>wr_sent := wr_sent w @ [(ForStop t, WireText s)],
         wr_arbiter := (wr_arbiter w)\<lparr>ab_deferred := None, ab_active := None\<rparr>\<rparr>)))"
    using True by (cases w) (simp add: send_stop_def arbiter_stopped_def touch_def)
  with stopped_well [OF assms, of "(wr_arbiter w)\<lparr>ab_deferred := None, ab_active := None\<rparr>" Normal "we_now env" s]
  show ?thesis by (simp add: ends_well_def)
next
  case False
  then show ?thesis by (simp add: send_stop_def unsent_stop [OF assms(1)])
qed

lemma same_deferred: "ab_deferred a = None \<Longrightarrow> a\<lparr>ab_deferred := None\<rparr> = (a :: arbiter)"
  by (cases a) simp

lemma unsent_outcome:
  "well w \<Longrightarrow> well (report_closed t (Aborted False False) w)"
  using event_true_mono [of "report_closed t (Aborted False False) w" w "[]"]
  by (auto simp: well_def writer_ok_def report_closed_def lanes_ok_def event_true_def list_all_iff
      was_started_def split: option.splits)

lemma event_true_same:
  "wr_sent v = wr_sent w \<Longrightarrow> wr_done v = wr_done w \<Longrightarrow> event_true v = event_true w"
  by (rule ext) (simp add: event_true_def was_started_def was_stopped_def cong: writer_event.case_cong writer_outcome.case_cong)

lemma well_same:
  "wr_sent v = wr_sent w \<Longrightarrow> wr_done v = wr_done w \<Longrightarrow> wr_events v = wr_events w \<Longrightarrow>
     wr_arbiter v = wr_arbiter w \<Longrightarrow> lanes_ok v \<Longrightarrow> well w \<Longrightarrow> well v"
  using event_true_same [of v w] by (simp add: well_iff was_started_def split: option.splits)

lemma take_lane:
  "well w \<Longrightarrow> wr_urgent w = m # ms \<Longrightarrow> well (w\<lparr>wr_urgent := ms\<rparr>) \<and> urgent_message m"
  "well w \<Longrightarrow> wr_control w = m # ms \<Longrightarrow> well (w\<lparr>wr_control := ms\<rparr>) \<and> control_message m"
  "well w \<Longrightarrow> wr_audio w = m # ms \<Longrightarrow> well (w\<lparr>wr_audio := ms\<rparr>) \<and> audio_message m"
  using well_same [of "w\<lparr>wr_urgent := ms\<rparr>" w] well_same [of "w\<lparr>wr_control := ms\<rparr>" w] well_same [of "w\<lparr>wr_audio := ms\<rparr>" w]
  by (auto simp: well_iff lanes_ok_def)

lemma well_arbiter:
  assumes "well w" and "ab_active a = ab_active (wr_arbiter w)" and "arbiter_ok a"
  shows "well (w\<lparr>wr_arbiter := a\<rparr>)"
  using assms event_true_same [of "w\<lparr>wr_arbiter := a\<rparr>" w]
  by (simp add: well_iff lanes_ok_def wire_at_def active_turn_def was_started_def split: option.splits)

lemma urgent_ends_well:
  assumes "well w" and "urgent_message m"
  shows "ends_well (on_urgent env m w)"
proof (cases "\<exists>t s. m = AbortTurn t s")
  case True
  then obtain t s where m: "m = AbortTurn t s" by blast
  show ?thesis
  proof (cases "is_active t (wr_arbiter w)")
    case False
    then show ?thesis
      using unsent_outcome [OF assms(1), of t] by (simp add: m on_urgent_def arbiter_abort_def Let_def ends_well_def)
  next
    case True
    then obtain p where p: "ab_active (wr_arbiter w) = Some p" "pt_id p = t" by (auto simp: is_active_def split: option.splits)
    with assms(1) have started: "pt_start_was_sent p" by (simp add: well_iff arbiter_ok_def)
    let ?a = "(wr_arbiter w)\<lparr>ab_deferred := None, ab_active := None\<rparr>"
    have abort: "arbiter_abort t (wr_arbiter w) = (AbortActive True, ?a)" using True p started by (simp add: arbiter_abort_def)
    show ?thesis
    proof (cases "we_ok env")
      case ok: True
      have "on_urgent env m w = (None, report_closed t (Aborted True True)
          (touch (we_now env) (w\<lparr>wr_sent := wr_sent w @ [(ForStop t, WireText s)], wr_arbiter := ?a\<rparr>)))"
        using abort ok by (cases w) (simp add: m on_urgent_def touch_def)
      with stopped_well [OF assms(1), of t ?a "Aborted True True"] p show ?thesis
        by (simp add: ends_well_def active_turn_def)
    next
      case False
      then show ?thesis using abort unsent_stop [OF assms(1)] by (simp add: m on_urgent_def)
    qed
  qed
next
  case False
  with assms(2) have "on_urgent env m w = writer_send env (ForMessage m) m w" "\<not> (\<exists>g t p. m = OutBinary g t p)"
    by (auto simp: on_urgent_def urgent_message_def split: outbound_message.splits)
  with message_ends_well [OF assms(1), where m = m and env = env] show ?thesis by (simp split: outbound_message.splits)
qed

lemma hello_same: "well (w\<lparr>wr_hello_pending := b\<rparr>) = well w"
  using event_true_same [of "w\<lparr>wr_hello_pending := b\<rparr>" w]
  by (simp add: well_iff lanes_ok_def was_started_def split: option.split)

lemma control_ends_well:
  assumes "well w" and "control_message m" and "drained \<Longrightarrow> ab_deferred (wr_arbiter w) = None"
  shows "ends_well (on_control env drained m w)"
proof (cases m)
  case (BeginTurn g t s)
  then show ?thesis
    using started_ends_well [OF assms(1), where env = env and g = g and t = t and s = s] assms(1) by (simp add: on_control_def admits_begin_def ends_well_def)
next
  case (FinishTurn t s)
  show ?thesis
  proof (cases "is_active t (wr_arbiter w)")
    case False
    then show ?thesis using unsent_outcome [OF assms(1), of t]
      by (simp add: FinishTurn on_control_def arbiter_finish_def ends_well_def)
  next
    case True
    then have t: "active_turn (wr_arbiter w) = Some t" by (auto simp: is_active_def active_turn_def split: option.splits)
    show ?thesis
    proof (cases drained)
      case True
      with assms(3) have "w\<lparr>wr_arbiter := (wr_arbiter w)\<lparr>ab_deferred := None\<rparr>\<rparr> = w\<lparr>wr_arbiter := wr_arbiter w\<rparr>"
        by (simp add: same_deferred)
      with send_stop_ends_well [OF assms(1) t, of env s] True \<open>is_active t (wr_arbiter w)\<close> show ?thesis
        by (simp add: FinishTurn on_control_def arbiter_finish_def)
    next
      case False
      then show ?thesis using True well_arbiter [OF assms(1), of "(wr_arbiter w)\<lparr>ab_deferred := Some (t, s)\<rparr>"] assms(1) t
        by (auto simp: FinishTurn on_control_def arbiter_finish_def ends_well_def well_iff arbiter_ok_def active_turn_def
            split: option.splits)
    qed
  qed
qed (use assms message_ends_well [OF assms(1), where m = m and env = env] hello_same in
    \<open>auto simp: on_control_def control_message_def ends_well_def split: prod.splits option.splits\<close>)

lemma audio_ends_well:
  assumes "well w" and "audio_message m"
  shows "ends_well (on_audio env m w)"
  using assms message_ends_well [OF assms(1), where m = m and env = env]
  by (auto simp: on_audio_def audio_message_def ends_well_def split: outbound_message.splits)

lemma ping_ends_well: "well w \<Longrightarrow> ends_well (writer_ping env w)"
proof (cases "we_ok env")
  case True
  assume w: "well w"
  let ?w = "touch (we_now env) (w\<lparr>wr_sent := wr_sent w @ [(ForPing, WirePing)]\<rparr>)"
  have "list_all (event_true ?w) (wr_events ?w)" by (rule grown_events [OF w]) (use w in \<open>simp_all add: well_def\<close>)
  with True w show ?thesis
    by (auto simp: writer_ping_def ends_well_def well_iff lanes_ok_def play_append wire_at_def was_started_def split: option.splits)
qed (simp add: writer_ping_def well_stop)

lemma pass_ends_well:
  assumes w: "well w" and pass: "writer_pass env w = Some r"
  shows "ends_well r"
proof (cases "wr_urgent w")
  case (Cons m ms)
  with pass take_lane(1) [OF w Cons] urgent_ends_well show ?thesis by (auto simp: writer_pass_def)
next
  case Nil
  show ?thesis
  proof (cases "if wr_audio w = [] then ab_deferred (wr_arbiter w) else None")
    case (Some ts)
    obtain t s where ts: "ts = (t, s)" by (cases ts)
    with Some w have "active_turn (wr_arbiter w) = Some t"
      by (auto simp: well_iff arbiter_ok_def active_turn_def split: if_splits option.splits)
    with pass Nil Some ts send_stop_ends_well [OF w, of t env s] show ?thesis by (simp add: writer_pass_def)
  next
    case None
    show ?thesis
    proof (cases "wr_control w")
      case (Cons m ms)
      with take_lane(2) [OF w Cons] None pass Nil control_ends_well [of "w\<lparr>wr_control := ms\<rparr>" m "wr_audio w = []" env]
      show ?thesis by (auto simp: writer_pass_def split: if_splits)
    next
      case ctl: Nil
      show ?thesis
      proof (cases "wr_audio w")
        case (Cons m ms)
        with take_lane(3) [OF w Cons] None pass \<open>wr_urgent w = []\<close> ctl audio_ends_well [of "w\<lparr>wr_audio := ms\<rparr>" m env] ping_ends_well [OF w]
        show ?thesis by (auto simp: writer_pass_def split: if_splits)
      next
        case aud: Nil
        with None pass \<open>wr_urgent w = []\<close> ctl ping_ends_well [OF w] well_stop [OF w] show ?thesis
          by (auto simp: writer_pass_def split: if_splits)
      qed
    qed
  qed
qed

text \<open>The invariant of the writer system.\<close>

lemma writer_ok_end: "ends_well (Some stop, w) \<Longrightarrow> writer_ok (writer_end stop w)"
proof -
  assume e: "ends_well (Some stop, w)"
  have "event_true w x \<Longrightarrow> event_true (writer_end stop w) x" for x
    by (rule event_true_mono [of _ _ "[]"]) (simp_all add: writer_end_def Let_def)
  moreover have "event_true (writer_end stop w) (WriterFailed t)" for t by (simp add: event_true_def writer_end_def Let_def)
  ultimately have "list_all (event_true (writer_end stop w)) (wr_events (writer_end stop w))"
    using e by (auto simp: ends_well_def list_all_iff writer_end_def Let_def)
  with e show ?thesis by (auto simp: ends_well_def writer_ok_def writer_end_def Let_def lanes_ok_def)
qed

lemma writer_ok_step:
  assumes "writer_ok w" and "writer_step env w = Some v"
  shows "writer_ok v"
proof -
  from assms obtain r where "well w" "writer_pass env w = Some r"
      "v = (case r of (None, w1) \<Rightarrow> w1 | (Some stop, w1) \<Rightarrow> writer_end stop w1)"
    by (auto simp: writer_step_def well_def split: if_splits option.splits)
  with pass_ends_well [of w env r] writer_ok_end show ?thesis
    by (cases r) (auto simp: ends_well_def well_def split: option.splits)
qed

lemma writer_ok_put:
  "writer_ok w \<Longrightarrow> urgent_message m \<Longrightarrow> writer_ok (w\<lparr>wr_urgent := wr_urgent w @ [m]\<rparr>)"
  "writer_ok w \<Longrightarrow> control_message m \<Longrightarrow> writer_ok (w\<lparr>wr_control := wr_control w @ [m]\<rparr>)"
  "writer_ok w \<Longrightarrow> audio_message m \<Longrightarrow> writer_ok (w\<lparr>wr_audio := wr_audio w @ [m]\<rparr>)"
  using event_true_same [of "w\<lparr>wr_urgent := wr_urgent w @ [m]\<rparr>" w] event_true_same [of "w\<lparr>wr_control := wr_control w @ [m]\<rparr>" w]
    event_true_same [of "w\<lparr>wr_audio := wr_audio w @ [m]\<rparr>" w]
  by (auto simp: writer_ok_def lanes_ok_def was_started_def split: option.splits)

lemma writer_ok_new: "writer_ok writer_new"
  by (simp add: writer_ok_def writer_new_def arbiter_new_def lanes_ok_def arbiter_ok_def wire_at_def active_turn_def)

interpretation wr: step_system writer_init writer_sys_step "\<lambda>s. writer_ok (ws_writer s)"
proof unfold_locales
  fix s assume "writer_init s"
  then show "writer_ok (ws_writer s)" by (simp add: writer_init_def writer_ok_new)
next
  fix s t assume "writer_ok (ws_writer s)" "writer_sys_step s t"
  then show "writer_ok (ws_writer t)"
    by (induction rule: writer_sys_step.induct [OF \<open>writer_sys_step s t\<close>]) (auto intro: writer_ok_put writer_ok_step)
qed

section \<open>Witnesses\<close>

text \<open>A turn is begun on the wire, a packet and a finish are queued, and the generation is invalidated.\<close>

definition calm :: "generation_gate \<Rightarrow> writer_env" where
  "calm gate = \<lparr>we_gate = gate, we_request = 0, we_now = 5, we_ok = True, we_ping_due = False, we_stop = False\<rparr>"

definition begun :: writer_sys where
  "begun = \<lparr>ws_writer = writer_new\<lparr>wr_arbiter := arbiter_started (TurnId 7) arbiter_new, wr_sent := [(ForStart 1 (TurnId 7), WireText [])],
     wr_activity := 5\<rparr>, ws_gate = gate_new, ws_request = 0\<rparr>"

definition queued :: writer_sys where
  "queued = begun\<lparr>ws_writer := (ws_writer begun)\<lparr>wr_audio := [OutBinary 1 (TurnId 7) []], wr_control := [FinishTurn (TurnId 7) []]\<rparr>\<rparr>"

lemmas run_writer = writer_step_def writer_pass_def on_control_def on_audio_def send_stop_def writer_send_def
  send_outbound_def outbound_generation_def closes_connection_def admits_begin_def arbiter_started_def arbiter_new_def
  arbiter_finish_def arbiter_stopped_def is_active_def plays_def report_closed_def touch_def gate_admits_def gate_new_def
  gate_invalidate_def calm_def writer_new_def

lemma begun_reachable: "reach writer_init writer_sys_step begun"
proof -
  let ?s = "\<lparr>ws_writer = writer_new, ws_gate = gate_new, ws_request = 0\<rparr>"
  have "reach writer_init writer_sys_step ?s" by (rule reach_init) (simp add: writer_init_def)
  from reach_step [OF this put_control [of "BeginTurn 1 (TurnId 7) []"]]
  have "reach writer_init writer_sys_step (?s\<lparr>ws_writer := writer_new\<lparr>wr_control := [BeginTurn 1 (TurnId 7) []]\<rparr>\<rparr>)"
    by (simp add: control_message_def writer_new_def)
  from reach_step [OF this pass [of "calm gate_new" _ "ws_writer begun"]] show ?thesis
    by (simp add: begun_def run_writer)
qed

lemma queued_reachable: "reach writer_init writer_sys_step queued"
proof -
  from reach_step [OF begun_reachable put_audio [of "OutBinary 1 (TurnId 7) []"]]
  have "reach writer_init writer_sys_step (begun\<lparr>ws_writer := (ws_writer begun)\<lparr>wr_audio := [OutBinary 1 (TurnId 7) []]\<rparr>\<rparr>)"
    by (simp add: audio_message_def begun_def writer_new_def)
  from reach_step [OF this put_control [of "FinishTurn (TurnId 7) []"]] show ?thesis
    by (simp add: control_message_def queued_def begun_def writer_new_def)
qed

section \<open>Playback on the wire\<close>

text \<open>
  C2: playback on the wire is well formed and the reported outcomes are true. Whatever the session puts on the
  lanes and however the socket, the timers and the generation gate behave, a start frame is sent only when
  nothing plays, packets and stops only while their own turn plays, and nothing after a plain close frame.
  A turn reported as normally closed was started and stopped on the wire; one reported as aborted claims a
  start and a stop together, and only if both were sent; a failure is reported only by a writer that ended.
\<close>

theorem playback_well_formed:
  assumes "reach writer_init writer_sys_step s"
  shows "play Silent (wr_sent (ws_writer s)) \<noteq> None \<and> list_all (event_true (ws_writer s)) (wr_events (ws_writer s))"
proof -
  from wr.reach_inv [OF assms] have "writer_ok (ws_writer s)" .
  then show ?thesis by (auto simp: writer_ok_def split: if_splits)
qed

lemma playback_well_formed_witness:
  "play Silent (wr_sent (ws_writer queued)) \<noteq> None \<and> list_all (event_true (ws_writer queued)) (wr_events (ws_writer queued))"
  by (rule playback_well_formed [OF queued_reachable])

section \<open>Every command is answered\<close>

fun writer_run :: "nat \<Rightarrow> writer_env \<Rightarrow> writer \<Rightarrow> writer" where
  "writer_run 0 env w = w"
| "writer_run (Suc n) env w = (case writer_step env w of None \<Rightarrow> w | Some v \<Rightarrow> writer_run n env v)"

text \<open>The turns the session waits for, and the passes it takes to empty the lanes.\<close>

definition owed :: "writer \<Rightarrow> turn_id list" where
  "owed w = [t. AbortTurn t s \<leftarrow> wr_urgent w] @ [t. FinishTurn t s \<leftarrow> wr_control w] @
     (case ab_deferred (wr_arbiter w) of None \<Rightarrow> [] | Some (t, s) \<Rightarrow> [t])"

definition closed :: "writer \<Rightarrow> turn_id list" where
  "closed w = [t. TurnClosed t outcome \<leftarrow> wr_events w]"

definition writer_work :: "writer \<Rightarrow> nat" where
  "writer_work w = length (wr_urgent w) + 2 * length (wr_control w) + length (wr_audio w) +
     (if ab_deferred (wr_arbiter w) = None then 0 else 1)"

definition quiet :: "writer_env \<Rightarrow> bool" where
  "quiet env \<longleftrightarrow> we_ok env \<and> \<not> we_ping_due env \<and> \<not> we_stop env"

definition stays_open :: "writer \<Rightarrow> bool" where
  "stays_open w \<longleftrightarrow> list_all (\<lambda>m. \<not> closes_connection m) (wr_urgent w)"

text \<open>What a handler may do to the rest of the writer when the socket works.\<close>

definition answers :: "turn_id list \<Rightarrow> writer \<Rightarrow> writer \<Rightarrow> bool" where
  "answers ts w v \<longleftrightarrow>
     wr_urgent v = wr_urgent w \<and> wr_control v = wr_control w \<and> wr_audio v = wr_audio w \<and>
     set (closed w) \<subseteq> set (closed v) \<and> set (owed w) \<union> set ts \<subseteq> set (owed v) \<union> set (closed v)"

lemma answers_send: "writer_send env c m w = (stop, v) \<Longrightarrow> answers [] w v \<and> wr_arbiter v = wr_arbiter w"
  by (erule send_cases) (auto simp: answers_def closed_def owed_def)

lemma closed_report [simp]: "closed (report_closed t outcome w) = closed w @ [t]"
  by (simp add: closed_def report_closed_def)

lemma owed_report [simp]: "owed (report_closed t outcome w) = owed w"
  by (simp add: owed_def report_closed_def)

lemma debts_hello [simp]:
  "closed (w\<lparr>wr_hello_pending := b\<rparr>) = closed w" "owed (w\<lparr>wr_hello_pending := b\<rparr>) = owed w"
  by (simp_all add: closed_def owed_def)

lemma debts_audio [simp]:
  "closed (w\<lparr>wr_audio := ms\<rparr>) = closed w" "owed (w\<lparr>wr_audio := ms\<rparr>) = owed w"
  by (simp_all add: closed_def owed_def)

lemma answers_same:
  "wr_urgent v = wr_urgent w \<Longrightarrow> wr_control v = wr_control w \<Longrightarrow> wr_audio v = wr_audio w \<Longrightarrow>
    ab_deferred (wr_arbiter v) = ab_deferred (wr_arbiter w) \<Longrightarrow> wr_events v = wr_events w \<Longrightarrow> answers [] w v"
  by (simp add: answers_def closed_def owed_def)

lemma answers_work:
  "answers ts w v \<Longrightarrow> ab_deferred (wr_arbiter v) = ab_deferred (wr_arbiter w) \<Longrightarrow>
    writer_work v = writer_work w \<and> stays_open v = stays_open w"
  by (simp add: answers_def writer_work_def stays_open_def)

lemma quiet_send:
  "quiet env \<Longrightarrow> \<not> closes_connection m \<Longrightarrow> writer_send env c m w = (stop, v) \<Longrightarrow> stop = None"
  by (auto simp: writer_send_def send_outbound_def quiet_def split: send_result.splits if_splits option.splits)

lemma answers_urgent:
  assumes "well w" and "quiet env" and "urgent_message m" and "\<not> closes_connection m"
  shows "\<exists>v. on_urgent env m w = (None, v) \<and>
    answers (case m of AbortTurn t s \<Rightarrow> [t] | _ \<Rightarrow> []) w v \<and>
    (ab_deferred (wr_arbiter v) = None \<or> ab_deferred (wr_arbiter v) = ab_deferred (wr_arbiter w))"
proof -
  obtain t s where m: "m = AbortTurn t s"
    using assms(3,4) by (cases m) (auto simp: urgent_message_def closes_connection_def)
  show ?thesis
  proof (cases "is_active t (wr_arbiter w)")
    case False
    then show ?thesis
      by (auto simp: m on_urgent_def arbiter_abort_def answers_def Let_def)
        (auto simp: report_closed_def)
  next
    case True
    then obtain p where p: "ab_active (wr_arbiter w) = Some p" "pt_id p = t" by (auto simp: is_active_def split: option.splits)
    with assms(1) have "pt_start_was_sent p"
        "case ab_deferred (wr_arbiter w) of None \<Rightarrow> True | Some (u, s) \<Rightarrow> u = t"
      by (auto simp: well_iff arbiter_ok_def)
    with True p assms(2) show ?thesis
      by (auto simp: m on_urgent_def arbiter_abort_def answers_def owed_def closed_def report_closed_def quiet_def
          split: option.splits)
  qed
qed

lemma answers_stop:
  assumes "quiet env" and "case ab_deferred (wr_arbiter w) of None \<Rightarrow> True | Some (u, s) \<Rightarrow> u = t"
  shows "\<exists>v. send_stop env t s (w\<lparr>wr_arbiter := (wr_arbiter w)\<lparr>ab_deferred := None\<rparr>\<rparr>) = (None, v) \<and>
    answers [t] w v \<and> ab_deferred (wr_arbiter v) = None"
  using assms
  by (auto simp: send_stop_def quiet_def answers_def owed_def closed_def report_closed_def arbiter_stopped_def
      split: option.splits)

lemma answers_control:
  assumes "well w" and "quiet env" and "control_message m" and "drained \<Longrightarrow> ab_deferred (wr_arbiter w) = None"
  shows "\<exists>v. on_control env drained m w = (None, v) \<and>
    answers (case m of FinishTurn t s \<Rightarrow> [t] | _ \<Rightarrow> []) w v"
proof (cases "\<exists>t s. m = FinishTurn t s")
  case True
  then obtain t s where m: "m = FinishTurn t s" by blast
  show ?thesis
  proof (cases "is_active t (wr_arbiter w) \<and> drained")
    case True
    with assms(4) have "w\<lparr>wr_arbiter := (wr_arbiter w)\<lparr>ab_deferred := None\<rparr>\<rparr> = w\<lparr>wr_arbiter := wr_arbiter w\<rparr>"
      by (simp add: same_deferred)
    with True answers_stop [OF assms(2), where w = w and t = t and s = s] assms(4) show ?thesis
      by (auto simp: m on_control_def arbiter_finish_def)
  next
    case False
    then show ?thesis using assms(1)
      by (auto simp: m on_control_def arbiter_finish_def answers_def owed_def closed_def report_closed_def well_iff
          arbiter_ok_def is_active_def split: option.splits)
  qed
next
  case False
  show ?thesis
  proof (cases "\<exists>g t s. m = BeginTurn g t s")
    case True
    then obtain g t s where m: "m = BeginTurn g t s" by blast
    show ?thesis
    proof (cases "admits_begin (gate_admits (we_gate env) g) (wr_arbiter w)")
      case True
      with m assms(2) show ?thesis
        by (simp add: on_control_def quiet_def) (rule answers_same; simp add: arbiter_started_def)
    qed (simp add: m on_control_def answers_same)
  next
    case other: False
    obtain stop v where sent: "writer_send env (ForMessage m) m w = (stop, v)" by fastforce
    moreover have "\<not> closes_connection m"
      using assms(3) by (auto simp: control_message_def closes_connection_def split: outbound_message.splits)
    ultimately have "stop = None" "answers [] w v"
      using quiet_send [OF assms(2)] answers_send by blast+
    moreover from False other have "(case m of FinishTurn t s \<Rightarrow> [t] | _ \<Rightarrow> []) = []" by (cases m) auto
    moreover have "answers [] w v \<Longrightarrow> answers [] w (v\<lparr>wr_hello_pending := False\<rparr>)"
      by (simp add: answers_def)
    ultimately show ?thesis using sent False other by (cases m) (simp_all add: on_control_def)
  qed
qed

text \<open>One pass makes progress and loses no debt.\<close>

lemma run_step:
  assumes w: "well w" and q: "quiet env" and open': "stays_open w" and busy: "0 < writer_work w"
  shows "\<exists>v. writer_step env w = Some v \<and> well v \<and> stays_open v \<and> writer_work v < writer_work w \<and>
    set (owed w) \<union> set (closed w) \<subseteq> set (owed v) \<union> set (closed v) \<and> set (closed w) \<subseteq> set (closed v)"
proof -
  have "\<exists>v. writer_pass env w = Some (None, v) \<and> stays_open v \<and> writer_work v < writer_work w \<and>
      set (owed w) \<subseteq> set (owed v) \<union> set (closed v) \<and> set (closed w) \<subseteq> set (closed v)"
  proof (cases "wr_urgent w")
    case (Cons m ms)
    let ?w = "w\<lparr>wr_urgent := ms\<rparr>"
    from take_lane(1) [OF w Cons] have m: "well ?w" "urgent_message m" by simp_all
    from open' Cons have "\<not> closes_connection m" by (simp add: stays_open_def)
    from answers_urgent [OF m(1) q m(2) this] obtain v where v: "on_urgent env m ?w = (None, v)"
        "answers (case m of AbortTurn t s \<Rightarrow> [t] | _ \<Rightarrow> []) ?w v"
        "ab_deferred (wr_arbiter v) = None \<or> ab_deferred (wr_arbiter v) = ab_deferred (wr_arbiter w)" by auto
    have owed: "set (owed w) \<subseteq> set (owed ?w) \<union> set (case m of AbortTurn t s \<Rightarrow> [t] | _ \<Rightarrow> [])"
      using Cons by (auto simp: owed_def split: outbound_message.splits)
    from v Cons open' have "writer_pass env w = Some (None, v)" "stays_open v" "writer_work v < writer_work w"
      by (auto simp: writer_pass_def stays_open_def writer_work_def answers_def)
    moreover have "set (owed w) \<subseteq> set (owed v) \<union> set (closed v)" "set (closed w) \<subseteq> set (closed v)"
      using v(2) owed by (auto simp: answers_def closed_def)
    ultimately show ?thesis by blast
  next
    case urg: Nil
    show ?thesis
    proof (cases "if wr_audio w = [] then ab_deferred (wr_arbiter w) else None")
      case (Some ts)
      obtain t s where ts: "ts = (t, s)" by (cases ts)
      with Some have d: "wr_audio w = []" "ab_deferred (wr_arbiter w) = Some (t, s)" by (auto split: if_splits)
      then obtain v where v: "send_stop env t s (w\<lparr>wr_arbiter := (wr_arbiter w)\<lparr>ab_deferred := None\<rparr>\<rparr>) = (None, v)"
          "answers [t] w v" "ab_deferred (wr_arbiter v) = None"
        using answers_stop [OF q, where w = w and t = t and s = s] by auto
      with d urg open' show ?thesis by (auto simp: writer_pass_def stays_open_def writer_work_def answers_def)
    next
      case None
      show ?thesis
      proof (cases "wr_control w")
        case (Cons m ms)
        let ?w = "w\<lparr>wr_control := ms\<rparr>"
        from take_lane(2) [OF w Cons] have m: "well ?w" "control_message m" by simp_all
        from None have dr: "wr_audio w = [] \<Longrightarrow> ab_deferred (wr_arbiter ?w) = None" by simp
        from answers_control [OF m(1) q m(2) dr] obtain v where v: "on_control env (wr_audio w = []) m ?w = (None, v)"
            "answers (case m of FinishTurn t s \<Rightarrow> [t] | _ \<Rightarrow> []) ?w v" by auto
        have owed: "set (owed w) \<subseteq> set (owed ?w) \<union> set (case m of FinishTurn t s \<Rightarrow> [t] | _ \<Rightarrow> [])"
          using Cons by (auto simp: owed_def split: outbound_message.splits)
        from v Cons None urg have pass: "writer_pass env w = Some (None, v)" by (simp add: writer_pass_def)
        from v Cons open' have "stays_open v" "writer_work v < writer_work w"
          by (auto simp: stays_open_def writer_work_def answers_def)
        moreover have "set (owed w) \<subseteq> set (owed v) \<union> set (closed v)" "set (closed w) \<subseteq> set (closed v)"
          using v(2) owed by (auto simp: answers_def closed_def)
        ultimately show ?thesis using pass by blast
      next
        case ctl: Nil
        with busy urg None obtain m ms where aud: "wr_audio w = m # ms"
          by (cases "wr_audio w") (auto simp: writer_work_def split: if_splits)
        let ?w = "w\<lparr>wr_audio := ms\<rparr>"
        obtain stop v where v: "on_audio env m ?w = (stop, v)" by fastforce
        from take_lane(3) [OF w aud] obtain g t p where m: "m = OutBinary g t p"
          by (auto simp: audio_message_def split: outbound_message.splits)
        have v: "stop = None" "answers [] ?w v" "wr_arbiter v = wr_arbiter w"
        proof (atomize (full), cases "plays t (wr_arbiter w)")
          case True
          with v have "writer_send env (ForMessage m) m ?w = (stop, v)" by (simp add: m on_audio_def)
          with quiet_send [OF q _ this] answers_send [OF this]
          show "stop = None \<and> answers [] ?w v \<and> wr_arbiter v = wr_arbiter w" by (simp add: m closes_connection_def)
        next
          case False
          with v show "stop = None \<and> answers [] ?w v \<and> wr_arbiter v = wr_arbiter w"
            by (auto simp: m on_audio_def intro: answers_same)
        qed
        with None urg ctl aud q \<open>on_audio env m ?w = (stop, v)\<close> have "writer_pass env w = Some (None, v)"
          by (simp add: writer_pass_def quiet_def)
        moreover have "stays_open v" "writer_work v < writer_work w"
          using answers_work [OF v(2)] v(3) open' aud by (simp_all add: stays_open_def writer_work_def)
        moreover have "set (owed w) \<subseteq> set (owed v) \<union> set (closed v)" "set (closed w) \<subseteq> set (closed v)"
          using v(2) by (simp_all add: answers_def)
        ultimately show ?thesis by blast
      qed
    qed
  qed
  then obtain v where v: "writer_pass env w = Some (None, v)" "stays_open v" "writer_work v < writer_work w"
      "set (owed w) \<subseteq> set (owed v) \<union> set (closed v)" "set (closed w) \<subseteq> set (closed v)" by blast
  with pass_ends_well [OF w v(1)] w show ?thesis by (auto simp: writer_step_def ends_well_def well_def)
qed

lemma run_answers:
  assumes "well w" and "quiet env" and "stays_open w" and "writer_work w \<le> n"
  shows "well (writer_run n env w) \<and> writer_work (writer_run n env w) = 0 \<and> set (owed w) \<subseteq> set (closed (writer_run n env w))"
proof -
  have "well (writer_run n env w) \<and> writer_work (writer_run n env w) = 0 \<and>
      set (owed w) \<union> set (closed w) \<subseteq> set (closed (writer_run n env w))"
    using assms
  proof (induction n arbitrary: w)
    case 0
    then show ?case by (simp add: writer_work_def owed_def split: option.splits if_splits)
  next
    case (Suc n)
    show ?case
    proof (cases "writer_work w = 0")
      case True
      then have "writer_step env w = None" using Suc.prems(2)
        by (simp add: writer_step_def writer_pass_def writer_work_def quiet_def split: if_splits)
      with True Suc.prems show ?thesis by (simp add: owed_def writer_work_def split: option.splits if_splits)
    next
      case False
      with run_step [OF Suc.prems(1-3)] obtain v where v: "writer_step env w = Some v" "well v" "stays_open v"
          "writer_work v < writer_work w" "set (owed w) \<union> set (closed w) \<subseteq> set (owed v) \<union> set (closed v)" by auto
      with Suc.IH [OF v(2) Suc.prems(2) v(3)] Suc.prems(4) show ?thesis by auto
    qed
  qed
  then show ?thesis by blast
qed

text \<open>
  C3: every turn-scoped command of the session is answered. From any reachable state of a running writer whose
  urgent lane holds no close, with a socket that works, the lanes and the deferred stop are empty after at
  most \<open>writer_work\<close> passes, and every turn that a queued finish or abort or a deferred stop names has its outcome
  reported.
\<close>

theorem every_command_answered:
  assumes "reach writer_init writer_sys_step s" and "\<not> wr_done (ws_writer s)" and "quiet env"
    and "stays_open (ws_writer s)" and "writer_work (ws_writer s) \<le> n"
  shows "writer_work (writer_run n env (ws_writer s)) = 0 \<and>
    set (owed (ws_writer s)) \<subseteq> set (closed (writer_run n env (ws_writer s)))"
proof -
  from wr.reach_inv [OF assms(1)] assms(2) have "well (ws_writer s)" by (simp add: well_def)
  from run_answers [OF this assms(3-5)] show ?thesis by blast
qed

lemma every_command_answered_witness:
  "writer_work (writer_run 4 (calm gate_new) (ws_writer queued)) = 0 \<and>
    set (owed (ws_writer queued)) \<subseteq> set (closed (writer_run 4 (calm gate_new) (ws_writer queued)))"
proof (rule every_command_answered [OF queued_reachable])
  show "\<not> wr_done (ws_writer queued)" "stays_open (ws_writer queued)" "writer_work (ws_writer queued) \<le> 4"
    by (simp_all add: queued_def begun_def writer_new_def stays_open_def writer_work_def arbiter_started_def arbiter_new_def)
qed (simp add: quiet_def calm_def)

section \<open>No stale frame\<close>

text \<open>The generation a frame belongs to.\<close>

definition sent_generation :: "cause \<times> wire \<Rightarrow> u64 option" where
  "sent_generation e =
     (case fst e of ForStart g t \<Rightarrow> Some g | ForMessage m \<Rightarrow> outbound_generation m | _ \<Rightarrow> None)"

definition admitted :: "generation_gate \<Rightarrow> cause \<times> wire \<Rightarrow> bool" where
  "admitted gate e \<longleftrightarrow> (case sent_generation e of None \<Rightarrow> True | Some g \<Rightarrow> gate_admits gate g)"

definition sends_admitted :: "writer_env \<Rightarrow> writer \<Rightarrow> writer \<Rightarrow> bool" where
  "sends_admitted env w v \<longleftrightarrow> (\<exists>es. wr_sent v = wr_sent w @ es \<and> list_all (admitted (we_gate env)) es)"

lemma sends_nothing: "wr_sent v = wr_sent w \<Longrightarrow> sends_admitted env w v"
  by (simp add: sends_admitted_def)

lemma send_admitted:
  assumes "writer_send env c m w = (stop, v)"
    and "\<And>f. outbound_frame m = Some f \<Longrightarrow> sent_generation (c, f) = outbound_generation m \<or> admitted (we_gate env) (c, f)"
  shows "sends_admitted env w v"
  using assms(1)
proof (cases rule: send_cases)
  case (2 f)
  with assms(2) [of f] have "admitted (we_gate env) (c, f)" by (auto simp: admitted_def)
  with 2 show ?thesis by (simp add: sends_admitted_def)
qed (simp add: sends_nothing)

lemma sends_same: "sends_admitted env w v \<Longrightarrow> wr_sent w' = wr_sent w \<Longrightarrow> wr_sent v' = wr_sent v \<Longrightarrow> sends_admitted env w' v'"
  by (simp add: sends_admitted_def)

lemma message_admitted: "writer_send env (ForMessage m) m w = (stop, v) \<Longrightarrow> sends_admitted env w v"
  by (rule send_admitted) (auto simp: sent_generation_def)

lemma stop_admitted: "writer_send env (ForStop t) m w = (stop, v) \<Longrightarrow> sends_admitted env w v"
  by (rule send_admitted) (auto simp: admitted_def sent_generation_def)

lemma send_stop_admitted: "send_stop env t s w = (stop, v) \<Longrightarrow> sends_admitted env w v"
  by (auto simp: send_stop_def report_closed_def sends_admitted_def admitted_def sent_generation_def split: if_splits)

lemma report_sent [simp]: "wr_sent (report_closed t outcome w) = wr_sent w"
  by (simp add: report_closed_def)

lemma sends_refl [simp]: "sends_admitted env w w"
  by (simp add: sends_nothing)

lemma urgent_admitted: "on_urgent env m w = (stop, v) \<Longrightarrow> sends_admitted env w v"
proof (cases m)
  case (AbortTurn t s)
  assume "on_urgent env m w = (stop, v)"
  with AbortTurn show ?thesis
    by (cases "arbiter_abort t (wr_arbiter w)")
      (auto simp: on_urgent_def Let_def sends_admitted_def admitted_def sent_generation_def split: if_splits)
qed (auto simp: on_urgent_def simp del: send_text dest!: message_admitted)

lemma control_admitted: "on_control env drained m w = (stop, v) \<Longrightarrow> sends_admitted env w v"
proof (cases m)
  case (BeginTurn g t s)
  assume "on_control env drained m w = (stop, v)"
  with BeginTurn show ?thesis
    by (auto simp: on_control_def admits_begin_def sends_admitted_def admitted_def sent_generation_def split: if_splits)
next
  case (FinishTurn t s)
  assume "on_control env drained m w = (stop, v)"
  with FinishTurn show ?thesis
    by (auto simp: on_control_def arbiter_finish_def sends_admitted_def report_closed_def split: if_splits
        dest!: send_stop_admitted [unfolded sends_admitted_def])
qed (auto simp: on_control_def simp del: send_text split: prod.splits option.splits if_splits dest!: message_admitted
      elim: sends_same)

lemma step_admitted:
  assumes "writer_step env w = Some v"
  shows "sends_admitted env w v"
proof -
  from assms obtain stop u where pass: "writer_pass env w = Some (stop, u)" "wr_sent v = wr_sent u"
    by (auto simp: writer_step_def writer_end_def Let_def split: if_splits option.splits)
  note handlers = urgent_admitted control_admitted message_admitted send_stop_admitted
  from pass(1) have "sends_admitted env w u"
    by (auto simp: writer_pass_def writer_ping_def on_audio_def sends_admitted_def admitted_def sent_generation_def
        split: list.splits if_splits option.splits outbound_message.splits
        dest!: handlers [unfolded sends_admitted_def])
  with pass(2) show ?thesis by (simp add: sends_admitted_def)
qed

definition stale :: "u64 \<Rightarrow> cause \<times> wire \<Rightarrow> bool" where
  "stale g e \<longleftrightarrow> (case sent_generation e of None \<Rightarrow> False | Some h \<Rightarrow> h \<le> g)"

lemma admitted_not_stale: "\<not> gate_admits gate g \<Longrightarrow> list_all (admitted gate) es \<Longrightarrow> filter (stale g) es = []"
  by (auto simp: filter_empty_conv list_all_iff admitted_def stale_def gate_admits_def split: option.splits)

lemma stale_step:
  assumes "writer_sys_step s t" and "\<not> gate_admits (ws_gate s) g"
  shows "\<not> gate_admits (ws_gate t) g \<and>
    filter (stale g) (wr_sent (ws_writer t)) = filter (stale g) (wr_sent (ws_writer s))"
  using assms
proof (induction rule: writer_sys_step.induct)
  case (pass env s w)
  from step_admitted [OF pass(1)] pass(2) admitted_not_stale [OF pass(4)] pass(4) show ?case
    by (auto simp: sends_admitted_def)
qed (auto simp: gate_admits_def gate_invalidate_def)

text \<open>
  C1: a frame of an invalidated generation is never sent. Once the gate does not admit generation \<open>g\<close>, no
  start, turn text or packet of it or of an older generation goes out any more, whatever was queued before:
  whatever the system does from then on, the frames of those generations in the log stay the same.
\<close>

theorem stale_frames_never_sent:
  assumes "writer_sys_step\<^sup>*\<^sup>* s t" and "\<not> gate_admits (ws_gate s) g"
  shows "filter (stale g) (wr_sent (ws_writer t)) = filter (stale g) (wr_sent (ws_writer s))"
proof -
  from assms have "\<not> gate_admits (ws_gate t) g \<and>
      filter (stale g) (wr_sent (ws_writer t)) = filter (stale g) (wr_sent (ws_writer s))"
    by (induction rule: rtranclp_induct) (auto dest: stale_step)
  then show ?thesis by simp
qed

lemma stale_frames_never_sent_witness:
  "let s = queued\<lparr>ws_gate := gate_invalidate 1 gate_new\<rparr>; w = the (writer_step (calm (ws_gate s)) (ws_writer s)) in
    filter (stale 1) (wr_sent w) = filter (stale 1) (wr_sent (ws_writer s))"
proof -
  let ?s = "queued\<lparr>ws_gate := gate_invalidate 1 gate_new\<rparr>"
  obtain w where w: "writer_step (calm (ws_gate ?s)) (ws_writer ?s) = Some w"
    by (simp add: queued_def begun_def run_writer)
  have "writer_sys_step ?s (?s\<lparr>ws_writer := w\<rparr>)"
    by (rule pass [OF w]) (simp_all add: calm_def queued_def begun_def)
  then have "writer_sys_step\<^sup>*\<^sup>* ?s (?s\<lparr>ws_writer := w\<rparr>)" by (rule r_into_rtranclp)
  from stale_frames_never_sent [OF this, of 1] w show ?thesis
    by (simp add: Let_def gate_admits_def gate_invalidate_def gate_new_def)
qed

end
