(* ===== verification/Tool_Results.thy ===== *)
theory Tool_Results
  imports Prompt Protocol Audio
begin

text \<open>
  The vocabulary of the tool round executor (\<open>tools/builtin.rs\<close>, \<open>tools/round.rs\<close>) and the reading of tool
  results (\<open>session/actor/mcp.rs\<close>): names and arguments of the builtin tools, the caps of a round and the
  budget of a turn, and the text a result becomes before it reaches the model. The JSON parser and
  printer and Unicode normalisation are arguments (\<open>jparse\<close>, \<open>jtext\<close>, \<open>nfc\<close>).
\<close>

section \<open>Builtin tools\<close>

definition EXIT_TOOL_NAME :: rstr where
  "EXIT_TOOL_NAME = lit ''handle_exit_intent''"

definition SWITCH_TEMPLATE_TOOL_NAME :: rstr where
  "SWITCH_TEMPLATE_TOOL_NAME = lit ''server_switch_template''"

definition REMINDER_TOOL_NAMES :: "rstr list" where
  "REMINDER_TOOL_NAMES = map lit
    [''server_create_reminder'', ''server_list_reminders'', ''server_update_reminder'', ''server_cancel_reminder'']"

definition LEGACY_REMINDER_TOOL_NAMES :: "rstr list" where
  "LEGACY_REMINDER_TOOL_NAMES = map lit
    [''reminder_create'', ''reminder_list'', ''reminder_complete'', ''reminder_delete'']"

definition MEMORY_RECALL_TOOL_NAME :: rstr where
  "MEMORY_RECALL_TOOL_NAME = lit ''server_memory_recall''"

definition MEMORY_TOOL_NAMES :: "rstr list" where
  "MEMORY_TOOL_NAMES = MEMORY_RECALL_TOOL_NAME # map lit
    [''server_memory_remember'', ''server_memory_correct'', ''server_memory_forget'']"

definition WIKI_TOOL_NAMES :: "rstr list" where
  "WIKI_TOOL_NAMES = map lit [''server_wiki_search'', ''server_wiki_read'']"

definition TASK_SUITE_TOOL_NAMES :: "rstr list" where
  "TASK_SUITE_TOOL_NAMES = map lit
    [''task_create'', ''task_followup'', ''task_list'', ''task_detail'', ''task_cancel'', ''reminder_create'',
     ''reminder_list'', ''reminder_complete'', ''reminder_delete'']"

datatype builtin_tool = EndConversation | SwitchTemplate | TaskSuite | ReminderTool | MemoryTool | WikiTool

definition is_reminder_tool_name :: "rstr \<Rightarrow> bool" where
  "is_reminder_tool_name name \<longleftrightarrow> name \<in> set REMINDER_TOOL_NAMES"

definition is_legacy_reminder_tool_name :: "rstr \<Rightarrow> bool" where
  "is_legacy_reminder_tool_name name \<longleftrightarrow> name \<in> set LEGACY_REMINDER_TOOL_NAMES"

definition is_memory_tool_name :: "rstr \<Rightarrow> bool" where
  "is_memory_tool_name name \<longleftrightarrow> name \<in> set MEMORY_TOOL_NAMES"

definition is_memory_write_tool_name :: "rstr \<Rightarrow> bool" where
  "is_memory_write_tool_name name \<longleftrightarrow> is_memory_tool_name name \<and> name \<noteq> MEMORY_RECALL_TOOL_NAME"

definition is_wiki_tool_name :: "rstr \<Rightarrow> bool" where
  "is_wiki_tool_name name \<longleftrightarrow> name \<in> set WIKI_TOOL_NAMES"

definition is_task_suite_tool_name :: "rstr \<Rightarrow> bool" where
  "is_task_suite_tool_name name \<longleftrightarrow> name \<in> set TASK_SUITE_TOOL_NAMES"

definition is_builtin_tool_name :: "rstr \<Rightarrow> bool" where
  "is_builtin_tool_name name \<longleftrightarrow>
     name = EXIT_TOOL_NAME \<or> name = SWITCH_TEMPLATE_TOOL_NAME \<or> is_task_suite_tool_name name \<or>
     is_reminder_tool_name name \<or> is_memory_tool_name name \<or> is_wiki_tool_name name"

text \<open>
  A struct read by derived deserialisation: from an object by field names, refusing unknown ones where the
  source says so, or from an array with exactly one element for each field.
\<close>

fun struct_fields :: "bool \<Rightarrow> string list \<Rightarrow> json \<Rightarrow> (nat \<Rightarrow> json option) option" where
  "struct_fields deny names (JObject kvs) =
     (if deny \<and> list_ex (\<lambda>k. k \<notin> set (map lit names)) (map fst kvs) then None
      else Some (\<lambda>i. hm_get kvs (lit (names ! i))))"
| "struct_fields deny names (JArray xs) = (if length xs = length names then Some (\<lambda>i. Some (xs ! i)) else None)"
| "struct_fields deny names _ = None"

definition optional_field :: "(json \<Rightarrow> 'a option) \<Rightarrow> json option \<Rightarrow> 'a option option" where
  "optional_field de v = (case v of None \<Rightarrow> Some None | Some JNull \<Rightarrow> Some None | Some x \<Rightarrow> map_option Some (de x))"

definition MAX_GOODBYE_CHARS :: nat where
  "MAX_GOODBYE_CHARS = 240"

definition MAX_TEMPLATE_KEY_CHARS :: nat where
  "MAX_TEMPLATE_KEY_CHARS = 64"

definition bounded_word :: "string \<Rightarrow> nat \<Rightarrow> json \<Rightarrow> rstr option" where
  "bounded_word field bound v =
     Option.bind (struct_fields True [field] v) (\<lambda>get.
     Option.bind (Option.bind (get 0) as_str) (\<lambda>s.
     if trim s = [] \<or> bound < length (trim s) then None else Some (trim s)))"

definition parse_exit_args :: "json \<Rightarrow> rstr option" where
  "parse_exit_args v = bounded_word ''say_goodbye'' MAX_GOODBYE_CHARS v"

definition parse_switch_template_args :: "json \<Rightarrow> rstr option" where
  "parse_switch_template_args v = bounded_word ''template'' MAX_TEMPLATE_KEY_CHARS v"

text \<open>A word and a number that may not be zero: the arguments of a recall, a search and a page.\<close>

definition word_and_number :: "bool \<Rightarrow> string \<Rightarrow> string \<Rightarrow> json \<Rightarrow> (rstr \<times> nat option) option" where
  "word_and_number deny word number v =
     Option.bind (struct_fields deny [word, number] v) (\<lambda>get.
     Option.bind (Option.bind (get 0) as_str) (\<lambda>s.
     Option.bind (optional_field as_u64 (get 1)) (\<lambda>n.
     if trim s = [] \<or> n = Some 0 then None else Some (s, n))))"

definition parse_memory_recall_args :: "json \<Rightarrow> (rstr \<times> nat option) option" where
  "parse_memory_recall_args v = word_and_number False ''query'' ''limit'' v"

definition parse_wiki_search_args :: "json \<Rightarrow> (rstr \<times> nat option) option" where
  "parse_wiki_search_args v = word_and_number True ''query'' ''limit'' v"

definition parse_wiki_read_args :: "json \<Rightarrow> (rstr \<times> nat option) option" where
  "parse_wiki_read_args v = word_and_number True ''file'' ''from_line'' v"

section \<open>The caps of a round\<close>

record tool_round_limits =
  tl_max_calls_per_round :: usize
  tl_max_rounds_per_turn :: usize
  tl_execution_budget :: nat

datatype tool_round_failure = CallLimitExceeded | RoundLimitExceeded | ExecutionBudgetExceeded | RoundShuttingDown

fun tool_round_failure_code :: "tool_round_failure \<Rightarrow> string" where
  "tool_round_failure_code CallLimitExceeded = ''tool_call_limit_exceeded''"
| "tool_round_failure_code RoundLimitExceeded = ''tool_round_limit_exceeded''"
| "tool_round_failure_code ExecutionBudgetExceeded = ''tool_execution_budget_exceeded''"
| "tool_round_failure_code RoundShuttingDown = ''tool_round_shutting_down''"

record tool_rounds =
  tr_limits :: tool_round_limits
  tr_rounds :: usize
  tr_started :: "instant option"

definition tool_rounds_new :: "tool_round_limits \<Rightarrow> tool_rounds" where
  "tool_rounds_new limits = \<lparr>tr_limits = limits, tr_rounds = 0, tr_started = None\<rparr>"

definition rounds_begin_turn :: "tool_rounds \<Rightarrow> tool_rounds" where
  "rounds_begin_turn r = r\<lparr>tr_rounds := 0, tr_started := None\<rparr>"

text \<open>\<open>now\<close> is what \<open>elapsed\<close> reads.\<close>

definition rounds_remaining :: "instant \<Rightarrow> tool_rounds \<Rightarrow> nat option" where
  "rounds_remaining now_ms r =
     (case tr_started r of
        None \<Rightarrow> None
      | Some started \<Rightarrow>
          let left = saturating_sub (tl_execution_budget (tr_limits r)) (saturating_sub now_ms started)
          in if left = 0 then None else Some left)"

definition budget_for_next_call :: "instant \<Rightarrow> tool_rounds \<Rightarrow> nat option \<times> tool_rounds" where
  "budget_for_next_call now_ms r =
     (let r1 = r\<lparr>tr_started := Some (get_or_insert (tr_started r) now_ms)\<rparr> in (rounds_remaining now_ms r1, r1))"

section \<open>External tools\<close>

datatype external_error =
    ToolTimeout | ToolUnavailable | ToolAuthFailed | ToolInvalidResponse | OtherExternalError string

fun external_tool_error_class :: "external_error \<Rightarrow> string" where
  "external_tool_error_class ToolTimeout = ''external_tool_timeout''"
| "external_tool_error_class ToolUnavailable = ''external_tool_unavailable''"
| "external_tool_error_class ToolAuthFailed = ''external_tool_auth_failed''"
| "external_tool_error_class ToolInvalidResponse = ''external_tool_invalid_response''"
| "external_tool_error_class (OtherExternalError _) = ''external_tool_protocol_error''"

record external_outcome =
  eo_is_error :: bool
  eo_content :: rstr

definition envelope :: "bool \<Rightarrow> string option \<Rightarrow> rstr \<Rightarrow> bool \<Rightarrow> json" where
  "envelope success code content truncated =
     JObject [(lit ''ok'', JBool success), (lit ''code'', case code of None \<Rightarrow> JNull | Some c \<Rightarrow> jstr c),
              (lit ''content'', JString content), (lit ''truncated'', JBool truncated)]"

definition external_tool_error_result :: "(json \<Rightarrow> rstr) \<Rightarrow> external_error \<Rightarrow> rstr" where
  "external_tool_error_result jtext e = jtext (JObject [(lit ''error'', jstr (external_tool_error_class e))])"

definition external_tool_result :: "(json \<Rightarrow> rstr) \<Rightarrow> external_error + external_outcome \<Rightarrow> rstr" where
  "external_tool_result jtext outcome =
     (case outcome of
        Inl e \<Rightarrow> external_tool_error_result jtext e
      | Inr r \<Rightarrow> jtext (envelope (\<not> eo_is_error r) (if eo_is_error r then Some ''external_tool_error'' else None)
                          (eo_content r) False))"

definition tool_error_content :: "(json \<Rightarrow> rstr) \<Rightarrow> rstr \<Rightarrow> rstr" where
  "tool_error_content jtext code =
     jtext (JObject [(lit ''ok'', JBool False), (lit ''code'', JString code), (lit ''content'', JString []),
                     (lit ''truncated'', JBool False)])"

definition voice_rejection :: "rstr \<Rightarrow> json" where
  "voice_rejection code =
     JObject [(lit ''created'', JBool False), (lit ''isError'', JBool True),
              (lit ''error'', JObject [(lit ''code'', JString code)])]"

section \<open>Device results\<close>

definition is_error_flag :: "json \<Rightarrow> bool" where
  "is_error_flag v \<longleftrightarrow> Option.bind (json_get v (lit ''isError'')) as_bool = Some True"

fun join_with :: "rstr \<Rightarrow> rstr list \<Rightarrow> rstr" where
  "join_with sep [] = []"
| "join_with sep [s] = s"
| "join_with sep (s # rest) = s @ sep @ join_with sep rest"

definition item_text :: "json \<Rightarrow> rstr option" where
  "item_text item = get_str item (lit ''text'')"

definition bidi_override :: "rchar \<Rightarrow> bool" where
  "bidi_override c \<longleftrightarrow> (8234 \<le> c \<and> c \<le> 8238) \<or> (8294 \<le> c \<and> c \<le> 8297)"

definition result_char :: "rchar \<Rightarrow> bool" where
  "result_char c \<longleftrightarrow> c = 10 \<or> c = 9 \<or> (\<not> is_control c \<and> \<not> bidi_override c)"

definition normalized_content :: "(rstr \<Rightarrow> rstr) \<Rightarrow> json \<Rightarrow> rstr" where
  "normalized_content nfc result =
     filter result_char (nfc
       (case Option.bind (json_get result (lit ''content'')) as_array of
          None \<Rightarrow> []
        | Some items \<Rightarrow> join_with [10] (List.map_filter item_text items)))"

definition normalized_result :: "(rstr \<Rightarrow> rstr) \<Rightarrow> json \<Rightarrow> nat \<Rightarrow> json" where
  "normalized_result nfc result max_chars =
     (let sanitized = normalized_content nfc result
      in envelope (\<not> is_error_flag result) (if is_error_flag result then Some ''device_tool_error'' else None)
           (take max_chars sanitized) (max_chars < length sanitized))"

definition normalize_tool_result :: "(json \<Rightarrow> rstr) \<Rightarrow> (rstr \<Rightarrow> rstr) \<Rightarrow> json \<Rightarrow> nat \<Rightarrow> rstr" where
  "normalize_tool_result jtext nfc result max_chars = jtext (normalized_result nfc result max_chars)"

definition BYTE_ORDER_MARK :: rchar where
  "BYTE_ORDER_MARK = 65279"

definition json_trim :: "rstr \<Rightarrow> rstr" where
  "json_trim s = trim (trim_start_by (\<lambda>c. c = BYTE_ORDER_MARK) s)"

definition parse_json_value :: "(rstr \<Rightarrow> json option) \<Rightarrow> rstr \<Rightarrow> json option" where
  "parse_json_value jparse raw =
     (case jparse (json_trim raw) of
        None \<Rightarrow> None
      | Some (JString inner) \<Rightarrow> jparse (json_trim inner)
      | Some v \<Rightarrow> Some v)"

definition action_response_from_object :: "json \<Rightarrow> rstr option" where
  "action_response_from_object v =
     (case as_object v of
        None \<Rightarrow> None
      | Some object \<Rightarrow>
          if Option.bind (hm_get object (lit ''success'')) as_bool = Some False then None
          else if Option.bind (hm_get object (lit ''action'')) as_str \<noteq> Some (lit ''RESPONSE'') then None
          else (case Option.bind (hm_get object (lit ''response'')) as_str of
                  None \<Rightarrow> None
                | Some r \<Rightarrow> if trim r = [] then None else Some (trim r)))"

definition extract_action_response :: "json \<Rightarrow> rstr option" where
  "extract_action_response v =
     (if Option.bind (json_get v (lit ''success'')) as_bool = Some False then None
      else (case action_response_from_object v of
              Some r \<Rightarrow> Some r
            | None \<Rightarrow> Option.bind (json_get v (lit ''vision_analysis'')) action_response_from_object))"

fun find_map :: "('a \<Rightarrow> 'b option) \<Rightarrow> 'a list \<Rightarrow> 'b option" where
  "find_map f [] = None"
| "find_map f (x # xs) = (case f x of None \<Rightarrow> find_map f xs | Some y \<Rightarrow> Some y)"

definition parse_direct_response :: "(rstr \<Rightarrow> json option) \<Rightarrow> json \<Rightarrow> rstr option" where
  "parse_direct_response jparse result =
     (if is_error_flag result then None
      else Option.bind (Option.bind (json_get result (lit ''content'')) as_array)
        (find_map (\<lambda>item.
           if get_str item (lit ''type'') \<noteq> Some (lit ''text'') then None
           else Option.bind (item_text item) (\<lambda>raw.
                Option.bind (parse_json_value jparse raw) extract_action_response))))"

definition PHOTO_DATA :: rstr where
  "PHOTO_DATA = lit ''photo_data''"

definition json_set :: "rstr \<Rightarrow> json \<Rightarrow> json \<Rightarrow> json" where
  "json_set k v target = (case target of JObject kvs \<Rightarrow> JObject (hm_insert k v kvs) | _ \<Rightarrow> target)"

definition redact_item :: "(rstr \<Rightarrow> json option) \<Rightarrow> (json \<Rightarrow> rstr) \<Rightarrow> json \<Rightarrow> json" where
  "redact_item jparse jtext item =
     (case item_text item of
        None \<Rightarrow> item
      | Some raw \<Rightarrow>
          (case parse_json_value jparse raw of
             Some (JObject object) \<Rightarrow>
               if hm_contains object PHOTO_DATA
               then json_set (lit ''text'') (JString (jtext (JObject (hm_remove PHOTO_DATA object)))) item
               else item
           | _ \<Rightarrow> item))"

definition redact_photo_data :: "(rstr \<Rightarrow> json option) \<Rightarrow> (json \<Rightarrow> rstr) \<Rightarrow> json \<Rightarrow> json" where
  "redact_photo_data jparse jtext result =
     (case result of
        JObject kvs \<Rightarrow>
          (case hm_get kvs (lit ''content'') of
             Some (JArray items) \<Rightarrow> JObject (hm_adjust (lit ''content'') (\<lambda>_. JArray (map (redact_item jparse jtext) items)) kvs)
           | _ \<Rightarrow> result)
      | _ \<Rightarrow> result)"

section \<open>Properties\<close>

text \<open>
  A tool result reaches the model bounded and clean. Whatever a device answers, the content is a prefix of the
  sanitised text of at most the configured number of characters, without control characters other than newline and
  tab and without bidirectional overrides; it is marked truncated exactly when something was cut off, and as
  failed exactly when the device said so.
\<close>

lemma tool_text_bounded_and_clean:
  "let v = normalized_result nfc result max_chars;
       shown = take max_chars (normalized_content nfc result)
   in get_str v (lit ''content'') = Some shown \<and> length shown \<le> max_chars \<and>
      list_all (\<lambda>c. c = 10 \<or> c = 9 \<or> (c \<ge> 32 \<and> c \<noteq> 127 \<and> c \<notin> {8234..8238} \<and> c \<notin> {8294..8297})) shown \<and>
      Option.bind (json_get v (lit ''truncated'')) as_bool = Some (shown \<noteq> normalized_content nfc result) \<and>
      Option.bind (json_get v (lit ''ok'')) as_bool = Some (\<not> is_error_flag result)"
proof -
  have cut: "max_chars < length s \<longleftrightarrow> take max_chars s \<noteq> s" for s :: rstr
    by (metis length_take min.absorb_iff2 not_le take_all_iff)
  have "list_all result_char (take max_chars (normalized_content nfc result))"
    by (auto simp: normalized_content_def list_all_iff dest: in_set_takeD)
  then have "list_all (\<lambda>c. c = 10 \<or> c = 9 \<or> (c \<ge> 32 \<and> c \<noteq> 127 \<and> c \<notin> {8234..8238} \<and> c \<notin> {8294..8297}))
      (take max_chars (normalized_content nfc result))"
    by (rule list.pred_mono_strong) (auto simp: result_char_def is_control_def bidi_override_def)
  then show ?thesis
    by (simp add: Let_def normalized_result_def envelope_def get_str_def cut)
qed

text \<open>The object an item's text is read as.\<close>

definition item_object :: "(rstr \<Rightarrow> json option) \<Rightarrow> json \<Rightarrow> (rstr \<times> json) list option" where
  "item_object jparse item =
     (case Option.bind (item_text item) (parse_json_value jparse) of Some (JObject kvs) \<Rightarrow> Some kvs | _ \<Rightarrow> None)"

definition printed_back :: "(rstr \<Rightarrow> json option) \<Rightarrow> (json \<Rightarrow> rstr) \<Rightarrow> json \<Rightarrow> bool" where
  "printed_back jparse jtext item \<longleftrightarrow>
     (case item_object jparse item of
        None \<Rightarrow> True
      | Some kvs \<Rightarrow>
          let v = JObject (hm_remove PHOTO_DATA kvs) in jparse (json_trim (jtext v)) = Some v)"

lemma redact_item_object:
  assumes "printed_back jparse jtext item"
  shows "item_object jparse (redact_item jparse jtext item) = map_option (hm_remove PHOTO_DATA) (item_object jparse item)"
proof (cases "item_object jparse item")
  case None
  then have "redact_item jparse jtext item = item"
    by (auto simp: item_object_def redact_item_def split: option.splits json.splits bind_splits)
  with None show ?thesis by simp
next
  case (Some kvs)
  then obtain raw where raw: "item_text item = Some raw" "parse_json_value jparse raw = Some (JObject kvs)"
    by (auto simp: item_object_def split: option.splits json.splits bind_splits)
  then obtain fields where item: "item = JObject fields"
    by (cases item) (auto simp: item_text_def get_str_def)
  show ?thesis
  proof (cases "hm_contains kvs PHOTO_DATA")
    case True
    let ?v = "JObject (hm_remove PHOTO_DATA kvs)"
    from assms Some have "jparse (json_trim (jtext ?v)) = Some ?v" by (simp add: printed_back_def Let_def)
    moreover from raw True item have "redact_item jparse jtext item = JObject (hm_insert (lit ''text'') (JString (jtext ?v)) fields)"
      by (simp add: redact_item_def json_set_def)
    ultimately show ?thesis using Some
      by (simp add: item_object_def item_text_def get_str_def parse_json_value_def keyed_simps)
  next
    case False
    with raw have "redact_item jparse jtext item = item" by (simp add: redact_item_def)
    moreover from False have "hm_remove PHOTO_DATA kvs = kvs"
      by (simp add: hm_contains_def hm_remove_absent)
    ultimately show ?thesis using Some by simp
  qed
qed

text \<open>
  No photo reaches the dialogue history. If the JSON crate reads back the objects it prints, the redacted result has
  the same items, each item that is read as an object is read as that object without the photo field, and no
  item is read as an object that still has one.
\<close>

lemma photo_data_redacted:
  assumes "json_get result (lit ''content'') = Some (JArray items)"
    and "list_all (printed_back jparse jtext) items"
  shows "\<exists>items'. json_get (redact_photo_data jparse jtext result) (lit ''content'') = Some (JArray items') \<and>
    map (item_object jparse) items' = map (map_option (hm_remove PHOTO_DATA) \<circ> item_object jparse) items \<and>
    list_all (\<lambda>item. case item_object jparse item of None \<Rightarrow> True | Some kvs \<Rightarrow> \<not> hm_contains kvs PHOTO_DATA) items'"
proof -
  let ?items = "map (redact_item jparse jtext) items"
  have objects: "map (item_object jparse) ?items = map (map_option (hm_remove PHOTO_DATA) \<circ> item_object jparse) items"
    using assms(2) by (auto simp: list_all_iff redact_item_object)
  from assms(1) obtain kvs where "result = JObject kvs" "hm_get kvs (lit ''content'') = Some (JArray items)"
    by (cases result) auto
  then have "json_get (redact_photo_data jparse jtext result) (lit ''content'') = Some (JArray ?items)"
    by (simp add: redact_photo_data_def keyed_simps)
  moreover have "list_all (\<lambda>item. case item_object jparse item of None \<Rightarrow> True | Some kvs \<Rightarrow> \<not> hm_contains kvs PHOTO_DATA) ?items"
    using assms(2) by (auto simp: list_all_iff redact_item_object hm_contains_def keyed_simps split: option.splits)
  ultimately show ?thesis using objects by blast
qed

end
