(* ===== verification/Session_State.thy ===== *)
theory Session_State
  imports Tool_Results Writer Speech_Output
begin

text \<open>
  The state of a voice session (\<open>session/actor/mod.rs\<close>, \<open>construct.rs\<close>, \<open>retention.rs\<close>): the record of the
  actor, what it says to the worker runtimes, and what it reads from outside. The worker runtimes of ASR, VAD
  and LLM are seen through the calls of the actor, which are logged with their order; the answer to the
  \<open>n\<close>-th call and the \<open>n\<close>-th reading of the clock come from the environment.
\<close>

section \<open>Workers\<close>

record worker_identity =
  wi_session :: rstr
  wi_generation :: u64
  wi_stream :: u64

datatype 'f asr_command = AsrPush "'f list" | AsrFinish | AsrCancel

datatype 'f vad_command = VadPush u64 "'f list" | VadReset u64 | VadClose

datatype asr_event =
    AsrOpened worker_identity
  | AsrFinal worker_identity rstr
  | AsrFailed worker_identity
  | AsrCancelled worker_identity
  | AsrFinalTimedOut worker_identity
  | AsrCleanupTimedOut worker_identity

datatype vad_event =
    VadOpened worker_identity
  | VadProbability worker_identity u64 vad_probability
  | VadSpeechStart worker_identity u64 u64
  | VadSpeechEnd worker_identity u64 u64
  | VadResetDone worker_identity u64
  | VadClosed worker_identity
  | VadFailed worker_identity
  | VadResetTimedOut worker_identity
  | VadCleanupTimedOut worker_identity

datatype llm_event =
    LlmTextDelta worker_identity rstr
  | LlmToolCall worker_identity tool_call
  | LlmFinished worker_identity
  | LlmFailed worker_identity
  | LlmCancelled worker_identity

text \<open>A runtime is named by a number; the log keeps which runtime a call went to.\<close>

datatype 'f worker_call =
    CallAsrOpen nat worker_identity
  | CallAsrSend nat nat "'f asr_command"
  | CallVadOpen nat worker_identity
  | CallVadSend nat nat "'f vad_command"
  | CallLlmStart nat worker_identity llm_request
  | CallLlmCancel nat worker_identity
  | CallSpawn turn_id u64 tool_call nat
  | CallObserve u64 u64 u64 "'f list"
  | CallRegister nat
  | CallUnregister nat

section \<open>Retained audio\<close>

record 'f retention =
  re_samples :: "'f list"
  re_first :: u64
  re_cursor :: u64
  re_capacity :: usize

definition retention_new :: "usize \<Rightarrow> 'f retention" where
  "retention_new capacity = \<lparr>re_samples = [], re_first = 0, re_cursor = 0, re_capacity = capacity\<rparr>"

definition retention_push :: "'f list \<Rightarrow> 'f retention \<Rightarrow> 'f retention" where
  "retention_push pcm r =
     (let samples = re_samples r @ pcm;
          overflow = saturating_sub (length samples) (re_capacity r)
      in r\<lparr>re_samples := drop overflow samples, re_cursor := re_cursor r + length pcm, re_first := re_first r + overflow\<rparr>)"

definition retention_range :: "u64 \<Rightarrow> 'f retention \<Rightarrow> 'f list option" where
  "retention_range start r =
     (if start < re_first r \<or> re_cursor r < start then None else Some (drop (start - re_first r) (re_samples r)))"

definition retention_reset :: "'f retention \<Rightarrow> 'f retention" where
  "retention_reset r = r\<lparr>re_samples := [], re_first := 0, re_cursor := 0\<rparr>"

definition auto_retention_capacity :: "usize \<Rightarrow> u64 \<Rightarrow> u64 \<Rightarrow> usize" where
  "auto_retention_capacity vad_command_capacity confirmation pre_roll =
     pre_roll + confirmation + vad_command_capacity * 960 + 960 + 512"

section \<open>Parts of the actor\<close>

datatype session_phase = Ready | Listening | Processing | Speaking | Closed

datatype speech_origin = LlmOrigin | ToolDirect | ClientDirect | AdminDirect | ReminderOrigin rstr rstr

record barge_in_policy =
  bp_enabled :: bool
  bp_trust :: bool

definition barge_in_allows :: "barge_in_policy \<Rightarrow> bool \<Rightarrow> listen_mode option \<Rightarrow> bool" where
  "barge_in_allows p aec mode \<longleftrightarrow>
     bp_enabled p \<and> bp_trust p \<and> aec \<and> (mode = Some ModeAuto \<or> mode = Some ModeRealtime)"

text \<open>The cancellation token of a turn is named by the turn; \<open>tc_cancelled\<close> is whether it was cancelled.\<close>

record turn_context =
  tc_turn :: turn_id
  tc_generation :: u64
  tc_cancelled :: bool

record pending_delivery =
  pd_turn :: turn_id
  pd_text :: rstr
  pd_archives :: bool

record agent_runtimes =
  ar_vad :: nat
  ar_asr :: nat
  ar_llm :: nat
  ar_tts :: nat
  ar_segmenter :: vad_segmenter
  ar_command_capacity :: usize
  ar_min_speech :: u64
  ar_pre_roll :: u64

record template_profile =
  tp_key :: rstr
  tp_source :: "int option"
  tp_language :: rstr
  tp_prompt :: rstr
  tp_revision :: u64

record prepared_profile =
  pp_profile :: template_profile
  pp_runtimes :: agent_runtimes

record pending_switch =
  ps_turn :: turn_id
  ps_key :: rstr
  ps_prepared :: "prepared_profile option"

record pending_actions =
  pa_close :: "turn_id option"
  pa_switch :: "pending_switch option"

definition keep_if :: "('a \<Rightarrow> bool) \<Rightarrow> 'a option \<Rightarrow> 'a option" where
  "keep_if p x = (case x of None \<Rightarrow> None | Some y \<Rightarrow> if p y then Some y else None)"

text \<open>Both actions are taken; the ones of another turn are dropped.\<close>

definition take_for_turn :: "turn_id \<Rightarrow> pending_actions \<Rightarrow> pending_actions \<times> pending_actions" where
  "take_for_turn t p =
     (\<lparr>pa_close = keep_if (\<lambda>u. u = t) (pa_close p), pa_switch = keep_if (\<lambda>s. ps_turn s = t) (pa_switch p)\<rparr>,
      \<lparr>pa_close = None, pa_switch = None\<rparr>)"

definition no_actions :: pending_actions where
  "no_actions = \<lparr>pa_close = None, pa_switch = None\<rparr>"

datatype 'a oneshot = Waiting | Arrived 'a | SenderGone

datatype switch_error = SwitchBusy | SwitchMemoryPressure | SwitchTimeout | SwitchOther

record template_preparation =
  tq_turn :: turn_id
  tq_generation :: u64
  tq_revision :: u64
  tq_call :: tool_call
  tq_completion :: "(switch_error + prepared_profile) oneshot"

datatype pending_mcp_kind = McpInitializing | McpListing | McpCalling tool_call

record pending_mcp =
  pm_generation :: "u64 option"
  pm_deadline :: instant
  pm_kind :: pending_mcp_kind

datatype result_delivery = LlmThenTts | DirectTts | Silent

record device_mcp =
  dm_enabled :: bool
  dm_ready :: bool
  dm_failed :: bool
  dm_next_id :: u64
  dm_delivery :: result_delivery
  dm_tool_delivery :: "(rstr, result_delivery) hmap"
  dm_call_timeout :: nat
  dm_discovery_timeout :: nat
  dm_discovered :: "discovered_tool list"
  dm_visible :: "llm_visible_tool list"
  dm_pending :: "(u64, pending_mcp) hmap"
  dm_vision :: "vision_capability option"

record in_flight =
  if_call :: tool_call
  if_turn :: turn_id
  if_generation :: u64

record tool_batch =
  tb_generation :: u64
  tb_calls :: "tool_call list"
  tb_completed :: "tool_call list"
  tb_next :: nat
  tb_results :: "chat_message list"
  tb_direct :: "rstr option"
  tb_in_flight :: "in_flight option"
  tb_delivery :: result_delivery

datatype async_outcome =
    ExternalDone "external_error + external_outcome"
  | SystemDone "rstr + json"
  | ServerDone "rstr + json"

record async_completion =
  ac_turn :: turn_id
  ac_generation :: u64
  ac_call_id :: rstr
  ac_outcome :: async_outcome

record pending_job =
  pj_call :: tool_call
  pj_turn :: turn_id
  pj_generation :: u64
  pj_deadline :: instant

record llm_round =
  lr_prose :: rstr
  lr_calls :: "tool_call list"

datatype turn_failure = LlmRequestTooLarge | ToolFailure tool_round_failure

datatype speaker_status = Verifying | Verified | UnknownSpeaker | InsufficientAudio | SpeakerUnavailable

record observe_diagnostic =
  od_turn :: u64
  od_generation :: u64
  od_outcome :: speaker_status
  od_best :: "int option"

record observe_candidate =
  oc_id :: int
  oc_key :: rstr
  oc_description :: "rstr option"

record speaker_observe =
  ob_candidates :: "observe_candidate list"
  ob_join_timeout :: nat

definition OBSERVE_MAX_SAMPLES :: nat where
  "OBSERVE_MAX_SAMPLES = 96000"

record direct_request =
  dr_id :: rstr
  dr_text :: rstr
  dr_origin :: speech_origin

datatype session_event =
    JobSubmitCompleted rstr turn_id u64 rstr json
  | ClientMessage client_message
  | DirectSpeech direct_request bool bool
  | ReminderControl rstr
  | ClientAudio packet
  | ShutdownEvent
  | SecurityInvalidated

datatype history_role = UserRole | AssistantRole

record transcript_entry =
  te_role :: history_role
  te_template :: "int option"
  te_turn :: u64
  te_text :: rstr

record switch_catalog =
  sc_candidates :: "(template_profile \<times> agent_runtimes) list"
  sc_cold :: "rstr list"
  sc_manager :: bool

section \<open>The actor\<close>

record ('f, 'e) actor =
  sa_session_id :: rstr
  sa_phase :: session_phase
  sa_pilot :: pilot
  sa_pipeline_permit :: bool
  sa_pipeline_status :: bool
  sa_turn_status :: bool
  sa_tool_status :: bool
  sa_status_active :: bool
  sa_status_outcome :: string
  sa_request :: u64
  sa_writer_pending :: "turn_id set"
  sa_accepted_frames :: u64
  sa_decoded :: nat
  sa_manual :: manual_capture
  sa_asr :: nat
  sa_asr_events :: "asr_event list"
  sa_asr_stream :: "(nat \<times> worker_identity) option"
  sa_asr_cleanup :: "worker_identity set"
  sa_vad :: nat
  sa_vad_events :: "vad_event list"
  sa_vad_session :: "(nat \<times> worker_identity) option"
  sa_vad_cycle :: "u64 option"
  sa_pending_cycle :: "u64 option"
  sa_next_cycle :: u64
  sa_mode :: "listen_mode option"
  sa_arm_pending :: bool
  sa_auto_speech :: bool
  sa_auto_reset :: bool
  sa_segmenter :: vad_segmenter
  sa_retention :: "'f retention"
  sa_pre_roll :: u64
  sa_limiter :: turn_limiter
  sa_generation :: u64
  sa_next_turn :: u64
  sa_next_operation :: u64
  sa_turn :: "turn_context option"
  sa_history :: dialogue_history
  sa_llm :: nat
  sa_llm_events :: "llm_event list"
  sa_llm_operation :: "worker_identity option"
  sa_delta :: "(rstr \<times> nat) option"
  sa_finish_pending :: bool
  sa_response :: rstr
  sa_origin :: speech_origin
  sa_direct_request :: "rstr option"
  sa_direct_metadata :: bool
  sa_direct_closed :: bool
  sa_tts :: nat
  sa_tts_world :: "nat \<Rightarrow> 'f tts_pool \<times> nat list"
  sa_speech :: "('f, 'e) speech_output"
  sa_speech_config :: speech_output_config
  sa_tts_started :: bool
  sa_delivery :: "pending_delivery option"
  sa_actions :: pending_actions
  sa_prepare :: "template_preparation option"
  sa_boundary :: "prepared_profile option"
  sa_deferred :: "session_event list"
  sa_ingress_capacity :: usize
  sa_max_frame_bytes :: usize
  sa_control :: "outbound_message list"
  sa_urgent :: "outbound_message list"
  sa_audio :: "outbound_message list"
  sa_control_capacity :: usize
  sa_urgent_capacity :: usize
  sa_audio_capacity :: usize
  sa_lanes_open :: bool
  sa_shutdown :: bool
  sa_gate :: generation_gate
  sa_writer_events :: "writer_event list option"
  sa_pending_audio :: "outbound_message option"
  sa_client_aec :: bool
  sa_barge_in :: barge_in_policy
  sa_mcp :: device_mcp
  sa_batch :: "tool_batch option"
  sa_task_tools :: "tool_definition list option"
  sa_job_mailbox :: bool
  sa_job_pending :: "pending_job option"
  sa_messages :: "chat_message list"
  sa_round :: "llm_round option"
  sa_rounds :: tool_rounds
  sa_async :: "async_completion list"
  sa_max_result_chars :: usize
  sa_profile :: template_profile
  sa_catalog :: switch_catalog
  sa_external :: "(rstr \<times> tool_definition list) list"
  sa_external_routes :: "(rstr, rstr) hmap"
  sa_external_guard :: bool
  sa_system :: "tool_definition list option"
  sa_reminders :: bool
  sa_memory :: "tool_definition list option"
  sa_wiki :: bool
  sa_memory_receipt :: "turn_id option"
  sa_memory_call :: "turn_id option"
  sa_transcript :: "transcript_entry list option"
  sa_observe :: "speaker_observe option"
  sa_security_revoked :: bool
  sa_speaker_status :: bool
  sa_observe_pcm :: "'f list"
  sa_observing :: bool
  sa_ident_text :: "rstr option"
  sa_ident_diagnostic :: "observe_diagnostic option"
  sa_ident_deadline :: "instant option"
  sa_ident_finished :: bool
  sa_speaker :: "speaker_context option"
  sa_diagnostics :: "observe_diagnostic list"
  sa_admission_open :: bool
  sa_wakeups :: nat
  sa_reminder_failures :: "(rstr \<times> rstr) list option"
  sa_calls :: "'f worker_call list"
  sa_clock_reads :: nat
  sa_lost :: bool

text \<open>
  What the handlers read from outside. \<open>se_answer n\<close> is whether the \<open>n\<close>-th call to a worker runtime succeeds and
  \<open>se_lease n\<close> the lease it returns; \<open>se_clock n\<close> is the \<open>n\<close>-th reading of the clock.
\<close>

record ('f, 'e) session_env =
  se_speech :: "('f, 'e) speech_env"
  se_tts_view :: "nat \<Rightarrow> tts_view"
  se_tts_available :: "nat \<Rightarrow> bool"
  se_supports_tools :: "nat \<Rightarrow> bool"
  se_answer :: "nat \<Rightarrow> bool"
  se_lease :: "nat \<Rightarrow> nat"
  se_clock :: "nat \<Rightarrow> instant"
  se_decode :: "nat \<Rightarrow> packet \<Rightarrow> pcm16 option"
  se_f32 :: "int \<Rightarrow> 'f"
  se_jtext :: "json \<Rightarrow> rstr"
  se_jparse :: "rstr \<Rightarrow> json option"
  se_nfc :: "rstr \<Rightarrow> rstr"
  se_upper :: "rchar \<Rightarrow> bool"
  se_lower :: "rchar \<Rightarrow> bool"
  se_alpha :: "rchar \<Rightarrow> bool"
  se_to_lower :: "rstr \<Rightarrow> rstr"
  se_to_upper :: "rchar \<Rightarrow> rstr"
  se_pilot_work :: bool
  se_reminder_context :: reminder_context
  se_memory_rows :: "rstr list"
  se_exit_tool :: tool_definition
  se_reminder_tools :: "tool_definition list"
  se_wiki_tools :: "tool_definition list"
  se_switch_tool :: "rstr list \<Rightarrow> tool_definition"
  se_in_runtime :: bool
  se_encoder_ready :: bool
  se_writer_terminal :: bool

section \<open>Small operations\<close>

definition U64_MAX :: u64 where
  "U64_MAX = 2 ^ 64 - 1"

definition read_clock :: "('f, 'e) session_env \<Rightarrow> ('f, 'e) actor \<Rightarrow> instant \<times> ('f, 'e) actor" where
  "read_clock env a = (se_clock env (sa_clock_reads a), a\<lparr>sa_clock_reads := Suc (sa_clock_reads a)\<rparr>)"

definition worker_call ::
    "('f, 'e) session_env \<Rightarrow> 'f worker_call \<Rightarrow> ('f, 'e) actor \<Rightarrow> bool \<times> ('f, 'e) actor" where
  "worker_call env c a = (se_answer env (length (sa_calls a)), a\<lparr>sa_calls := sa_calls a @ [c]\<rparr>)"

text \<open>An open returns a lease or refuses.\<close>

definition worker_open ::
    "('f, 'e) session_env \<Rightarrow> 'f worker_call \<Rightarrow> ('f, 'e) actor \<Rightarrow> nat option \<times> ('f, 'e) actor" where
  "worker_open env c a =
     (let n = length (sa_calls a) in
      (if se_answer env n then Some (se_lease env n) else None, a\<lparr>sa_calls := sa_calls a @ [c]\<rparr>))"

definition send_control_lane :: "outbound_message \<Rightarrow> ('f, 'e) actor \<Rightarrow> bool \<times> ('f, 'e) actor" where
  "send_control_lane m a =
     (if sa_lanes_open a \<and> length (sa_control a) < sa_control_capacity a
      then (True, a\<lparr>sa_control := sa_control a @ [m]\<rparr>) else (False, a))"

definition send_urgent_lane :: "outbound_message \<Rightarrow> ('f, 'e) actor \<Rightarrow> bool \<times> ('f, 'e) actor" where
  "send_urgent_lane m a =
     (if sa_lanes_open a \<and> length (sa_urgent a) < sa_urgent_capacity a
      then (True, a\<lparr>sa_urgent := sa_urgent a @ [m]\<rparr>) else (False, a))"

datatype lane_answer = LaneOk | LaneFull | LaneClosed

definition send_audio_lane :: "outbound_message \<Rightarrow> ('f, 'e) actor \<Rightarrow> lane_answer \<times> ('f, 'e) actor" where
  "send_audio_lane m a =
     (if \<not> sa_lanes_open a then (LaneClosed, a)
      else if length (sa_audio a) < sa_audio_capacity a then (LaneOk, a\<lparr>sa_audio := sa_audio a @ [m]\<rparr>)
      else (LaneFull, a))"

definition current_turn_id :: "('f, 'e) actor \<Rightarrow> turn_id option" where
  "current_turn_id a = map_option tc_turn (sa_turn a)"

definition send_control :: "rstr \<Rightarrow> ('f, 'e) actor \<Rightarrow> bool \<times> ('f, 'e) actor" where
  "send_control s a = send_control_lane (OutText s) a"

definition send_turn_control :: "rstr \<Rightarrow> ('f, 'e) actor \<Rightarrow> bool \<times> ('f, 'e) actor" where
  "send_turn_control s a =
     (case current_turn_id a of
        None \<Rightarrow> (False, a)
      | Some t \<Rightarrow> send_control_lane (TurnText (sa_generation a) t s) a)"

definition next_worker_identity :: "('f, 'e) actor \<Rightarrow> worker_identity option \<times> ('f, 'e) actor" where
  "next_worker_identity a =
     (if sa_next_operation a < U64_MAX
      then (Some \<lparr>wi_session = sa_session_id a, wi_generation = sa_generation a, wi_stream = sa_next_operation a\<rparr>,
            a\<lparr>sa_next_operation := sa_next_operation a + 1\<rparr>)
      else (None, a))"

text \<open>Generation is a cancellation epoch; running out of them closes the session.\<close>

definition advance_generation :: "('f, 'e) actor \<Rightarrow> bool \<times> ('f, 'e) actor" where
  "advance_generation a =
     (if sa_generation a < U64_MAX then (True, a\<lparr>sa_generation := sa_generation a + 1\<rparr>)
      else (False, snd (send_urgent_lane (OutClose 1011) (a\<lparr>sa_phase := Closed\<rparr>))))"

definition allocate_vad_cycle :: "('f, 'e) actor \<Rightarrow> u64 \<times> ('f, 'e) actor" where
  "allocate_vad_cycle a = (sa_next_cycle a, a\<lparr>sa_next_cycle := min (sa_next_cycle a + 1) U64_MAX\<rparr>)"

definition record_transcript :: "history_role \<Rightarrow> rstr \<Rightarrow> turn_id \<Rightarrow> ('f, 'e) actor \<Rightarrow> ('f, 'e) actor" where
  "record_transcript role s t a =
     a\<lparr>sa_transcript := map_option (\<lambda>es. es @ [\<lparr>te_role = role, te_template = tp_source (sa_profile a),
        te_turn = turn_id_get t, te_text = s\<rparr>]) (sa_transcript a)\<rparr>"

definition speaker_security_revoked :: "('f, 'e) actor \<Rightarrow> bool" where
  "speaker_security_revoked a \<longleftrightarrow> sa_observe a \<noteq> None \<and> sa_security_revoked a"

definition acoustic_barge_in_allowed :: "('f, 'e) actor \<Rightarrow> bool" where
  "acoustic_barge_in_allowed a = barge_in_allows (sa_barge_in a) (sa_client_aec a) (sa_mode a)"

definition inbound_session_matches :: "rstr option \<Rightarrow> ('f, 'e) actor \<Rightarrow> bool" where
  "inbound_session_matches sid a \<longleftrightarrow> sid = None \<or> sid = Some [] \<or> sid = Some (sa_session_id a)"

definition MAX_DETECT_TEXT_SCALARS :: nat where
  "MAX_DETECT_TEXT_SCALARS = 4096"

definition normalize_detect_text :: "rstr \<Rightarrow> rstr option" where
  "normalize_detect_text input =
     (let s = trim input in if s = [] \<or> MAX_DETECT_TEXT_SCALARS < length s then None else Some s)"

text \<open>A transcript all in capitals becomes a sentence.\<close>

fun sentence_case :: "('f, 'e) session_env \<Rightarrow> bool \<Rightarrow> rstr \<Rightarrow> rstr" where
  "sentence_case env first [] = []"
| "sentence_case env first (c # cs) =
     (if first \<and> se_alpha env c then se_to_upper env c @ sentence_case env False cs
      else c # sentence_case env first cs)"

definition normalize_asr_final_text :: "('f, 'e) session_env \<Rightarrow> rstr \<Rightarrow> rstr" where
  "normalize_asr_final_text env s =
     (if \<not> list_ex (se_upper env) s \<or> list_ex (se_lower env) s then s
      else sentence_case env True (se_to_lower env s))"

text \<open>The client's view of a turn.\<close>

definition text_field :: "string \<Rightarrow> rstr \<Rightarrow> rstr \<times> json" where
  "text_field k s = (lit k, JString s)"

definition direct_source :: "speech_origin \<Rightarrow> string" where
  "direct_source origin =
     (case origin of AdminDirect \<Rightarrow> ''admin_direct'' | ClientDirect \<Rightarrow> ''client_direct''
      | ReminderOrigin _ _ \<Rightarrow> ''reminder'' | _ \<Rightarrow> ''tool_direct'')"

definition direct_control :: "string \<Rightarrow> (rstr \<times> json) list \<Rightarrow> ('f, 'e) actor \<Rightarrow> json" where
  "direct_control state extra a =
     JObject ([text_field ''session_id'' (sa_session_id a), (lit ''type'', jstr ''tts''), (lit ''state'', jstr state)] @
       (case (sa_direct_metadata a, sa_direct_request a) of
          (True, Some request_id) \<Rightarrow>
            [text_field ''request_id'' request_id, (lit ''source'', jstr (direct_source (sa_origin a)))] @
            (case sa_origin a of
               ReminderOrigin reminder_id attempt_id \<Rightarrow>
                 [text_field ''reminder_id'' reminder_id, text_field ''attempt_id'' attempt_id]
             | _ \<Rightarrow> [])
        | _ \<Rightarrow> []) @ extra)"

definition turn_status_payload :: "string \<Rightarrow> string option \<Rightarrow> ('f, 'e) actor \<Rightarrow> json" where
  "turn_status_payload state reason a =
     JObject ([(lit ''type'', jstr ''turn_status''), text_field ''session_id'' (sa_session_id a), (lit ''state'', jstr state)] @
       (case current_turn_id a of None \<Rightarrow> [] | Some t \<Rightarrow> [(lit ''turn_id'', jnat (turn_id_get t))]) @
       (case reason of None \<Rightarrow> [] | Some r \<Rightarrow> [(lit ''reason'', jstr r)]) @
       (if state = ''completed'' then [(lit ''outcome'', jstr ''normal'')] else []))"

end
