(* ===== verification/Session_Core.thy ===== *)
theory Session_Core
  imports Session_State
begin

text \<open>
  Cancellation, failure and the end of a turn (\<open>session/actor/delivery.rs\<close>, \<open>lifecycle.rs\<close>, \<open>pilot.rs\<close>, \<open>turn_status.rs\<close>,
  the entry to a listening mode of \<open>listening.rs\<close>). A full lane closes the session, and closing it sends on the
  same lanes, so these operations call each other. Their recursion is bounded by the flags a nested call
  finds cleared; it is written with the failure handler as an argument and tied at a depth that is proved enough.
\<close>

section \<open>Producers\<close>

definition cancel_token :: "turn_context \<Rightarrow> turn_context" where
  "cancel_token t = t\<lparr>tc_cancelled := True\<rparr>"

definition cancel_asr :: "('f, 'e) session_env \<Rightarrow> ('f, 'e) actor \<Rightarrow> ('f, 'e) actor" where
  "cancel_asr env a =
     (case sa_asr_stream a of
        None \<Rightarrow> a
      | Some (lease, identity) \<Rightarrow>
          let (sent, a1) = worker_call env (CallAsrSend (sa_asr a) lease AsrCancel) (a\<lparr>sa_asr_stream := None\<rparr>)
          in if sent then a1\<lparr>sa_asr_cleanup := insert identity (sa_asr_cleanup a1)\<rparr> else a1)"

definition cancel_llm :: "('f, 'e) session_env \<Rightarrow> ('f, 'e) actor \<Rightarrow> ('f, 'e) actor" where
  "cancel_llm env a =
     (let a1 = a\<lparr>sa_turn := map_option cancel_token (sa_turn a)\<rparr>;
          a2 = (case sa_llm_operation a1 of
                  None \<Rightarrow> a1
                | Some identity \<Rightarrow>
                    snd (worker_call env (CallLlmCancel (sa_llm a1) identity) (a1\<lparr>sa_llm_operation := None\<rparr>)))
      in a2\<lparr>sa_response := []\<rparr>)"

definition close_vad :: "('f, 'e) session_env \<Rightarrow> ('f, 'e) actor \<Rightarrow> ('f, 'e) actor" where
  "close_vad env a =
     (case sa_vad_session a of
        None \<Rightarrow> a
      | Some (lease, _) \<Rightarrow> snd (worker_call env (CallVadSend (sa_vad a) lease VadClose) a))"

definition push_asr :: "('f, 'e) session_env \<Rightarrow> 'f list \<Rightarrow> ('f, 'e) actor \<Rightarrow> bool \<times> ('f, 'e) actor" where
  "push_asr env pcm a =
     (case sa_asr_stream a of
        None \<Rightarrow> (False, a)
      | Some (lease, _) \<Rightarrow> worker_call env (CallAsrSend (sa_asr a) lease (AsrPush pcm)) a)"

definition commit_tool_exchange :: "tool_batch \<Rightarrow> ('f, 'e) actor \<Rightarrow> ('f, 'e) actor" where
  "commit_tool_exchange b a =
     (if tb_completed b = [] then a
      else (case current_turn_id a of
              None \<Rightarrow> a
            | Some t \<Rightarrow>
                let (appended, h) = append_completed_round t (tb_completed b) (tb_results b) (sa_history a);
                    a1 = a\<lparr>sa_history := h\<rparr>
                in if appended
                   then a1\<lparr>sa_messages := prompt_append_round (tb_completed b) (tb_results b) (sa_messages a1)\<rparr>
                   else a1))"

definition cancel_pending_mcp :: "device_mcp \<Rightarrow> device_mcp" where
  "cancel_pending_mcp m = m\<lparr>dm_pending := hm_retain (\<lambda>_ p. pm_generation p = None) (dm_pending m)\<rparr>"

definition cancel_tool_turn :: "('f, 'e) actor \<Rightarrow> ('f, 'e) actor" where
  "cancel_tool_turn a =
     (let a1 = a\<lparr>sa_job_pending := None, sa_prepare := None, sa_mcp := cancel_pending_mcp (sa_mcp a)\<rparr>;
          a2 = (case sa_batch a1 of None \<Rightarrow> a1 | Some b \<Rightarrow> commit_tool_exchange b (a1\<lparr>sa_batch := None\<rparr>))
      in a2\<lparr>sa_round := None\<rparr>)"

definition cancel_pending_actions :: "('f, 'e) actor \<Rightarrow> ('f, 'e) actor" where
  "cancel_pending_actions a =
     (case current_turn_id a of
        None \<Rightarrow> a
      | Some t \<Rightarrow> a\<lparr>sa_actions := snd (take_for_turn t (sa_actions a))\<rparr>)"

section \<open>Operations that may fail the session\<close>

definition emit_with ::
    "(('f, 'e) actor \<Rightarrow> ('f, 'e) actor) \<Rightarrow> ('f, 'e) session_env \<Rightarrow> string \<Rightarrow> string option \<Rightarrow> ('f, 'e) actor \<Rightarrow> ('f, 'e) actor" where
  "emit_with fail env state reason a =
     (if \<not> sa_turn_status a then a
      else let (sent, a1) = send_control (se_jtext env (turn_status_payload state reason a)) a
           in if sent then a1 else fail a1)"

definition report_result :: "('f, 'e) session_env \<Rightarrow> ('f, 'e) actor \<Rightarrow> bool \<times> ('f, 'e) actor" where
  "report_result env a =
     (if sa_direct_metadata a \<and> sa_direct_request a \<noteq> None then
        let a1 = (case sa_origin a of
                    ReminderOrigin reminder_id attempt_id \<Rightarrow>
                      if sa_status_outcome a \<noteq> ''completed''
                      then a\<lparr>sa_reminder_failures :=
                             map_option (\<lambda>fs. fs @ [(reminder_id, attempt_id)]) (sa_reminder_failures a)\<rparr>
                      else a
                  | _ \<Rightarrow> a)
        in send_control_lane (OutText (se_jtext env
             (direct_control ''result'' [(lit ''outcome'', jstr (sa_status_outcome a1))] a1))) a1
      else (True, a))"

definition drop_turn :: "('f, 'e) actor \<Rightarrow> ('f, 'e) actor" where
  "drop_turn a =
     (case sa_turn a of
        None \<Rightarrow> a
      | Some _ \<Rightarrow> a\<lparr>sa_turn := None, sa_limiter := limiter_release (sa_limiter a)\<rparr>)"

definition release_with ::
    "(('f, 'e) actor \<Rightarrow> ('f, 'e) actor) \<Rightarrow> ('f, 'e) session_env \<Rightarrow> ('f, 'e) actor \<Rightarrow> ('f, 'e) actor" where
  "release_with fail env a =
     (let (reported, a1) = report_result env a;
          a2 = a1\<lparr>sa_direct_request := None\<rparr>;
          a3 = (if sa_turn a2 \<noteq> None \<and> sa_status_active a2
                then emit_with fail env (sa_status_outcome a2) None (a2\<lparr>sa_status_active := False\<rparr>) else a2);
          a4 = drop_turn a3
      in if reported then a4 else fail a4)"

definition speech_state_of :: "('f, 'e) actor \<Rightarrow> ('f, 'e) speech_state" where
  "speech_state_of a = (sa_speech a, sa_tts_world a (sa_tts a))"

definition put_speech_state :: "('f, 'e) speech_state \<Rightarrow> ('f, 'e) actor \<Rightarrow> ('f, 'e) actor" where
  "put_speech_state st a = a\<lparr>sa_speech := fst st, sa_tts_world := (sa_tts_world a)(sa_tts a := snd st)\<rparr>"

definition cancel_speech_output :: "('f, 'e) session_env \<Rightarrow> ('f, 'e) actor \<Rightarrow> ('f, 'e) actor" where
  "cancel_speech_output env a =
     (let (now_ms, a1) = read_clock env a
      in put_speech_state (speech_cancel (se_speech env) now_ms (speech_state_of a1)) a1)"

definition cancel_speech_with ::
    "(('f, 'e) actor \<Rightarrow> ('f, 'e) actor) \<Rightarrow> ('f, 'e) session_env \<Rightarrow> ('f, 'e) actor \<Rightarrow> ('f, 'e) actor" where
  "cancel_speech_with fail env a =
     (let a1 = a\<lparr>sa_gate := gate_invalidate (sa_generation a) (sa_gate a),
                 sa_turn := map_option cancel_token (sa_turn a), sa_delta := None, sa_finish_pending := False\<rparr>;
          a2 = (cancel_speech_output env a1)\<lparr>sa_pending_audio := None\<rparr>
      in if sa_tts_started a2
         then (case current_turn_id a2 of
                 None \<Rightarrow> a2
               | Some t \<Rightarrow>
                   let a3 = a2\<lparr>sa_writer_pending := insert t (sa_writer_pending a2), sa_tts_started := False\<rparr>;
                       (sent, a4) = send_urgent_lane (AbortTurn t (se_jtext env (direct_control ''stop'' [] a3))) a3
                   in if sent then a4 else (fail a4)\<lparr>sa_shutdown := True\<rparr>)
         else release_with fail env a2)"

definition interrupt_with ::
    "(('f, 'e) actor \<Rightarrow> ('f, 'e) actor) \<Rightarrow> ('f, 'e) session_env \<Rightarrow> ('f, 'e) actor \<Rightarrow> ('f, 'e) actor" where
  "interrupt_with fail env a =
     cancel_asr env (cancel_tool_turn (cancel_llm env (cancel_speech_with fail env (cancel_pending_actions a))))"

definition close_with ::
    "(('f, 'e) actor \<Rightarrow> ('f, 'e) actor) \<Rightarrow> ('f, 'e) session_env \<Rightarrow> ('f, 'e) actor \<Rightarrow> ('f, 'e) actor" where
  "close_with fail env a =
     (if sa_phase a = Closed then a
      else let a1 = close_vad env (snd (advance_generation (interrupt_with fail env a)));
               a2 = a1\<lparr>sa_auto_reset := False, sa_asr_stream := None, sa_boundary := None, sa_deferred := [],
                       sa_phase := Closed\<rparr>
           in snd (send_urgent_lane (OutClose 1011) a2))"

primrec fail_closed_at :: "nat \<Rightarrow> ('f, 'e) session_env \<Rightarrow> ('f, 'e) actor \<Rightarrow> ('f, 'e) actor" where
  "fail_closed_at 0 env a = a"
| "fail_closed_at (Suc n) env a = close_with (fail_closed_at n env) env a"

definition FAIL_DEPTH :: nat where
  "FAIL_DEPTH = 4"

definition fail_closed :: "('f, 'e) session_env \<Rightarrow> ('f, 'e) actor \<Rightarrow> ('f, 'e) actor" where
  "fail_closed env a = fail_closed_at FAIL_DEPTH env a"

definition emit_turn_status ::
    "('f, 'e) session_env \<Rightarrow> string \<Rightarrow> string option \<Rightarrow> ('f, 'e) actor \<Rightarrow> ('f, 'e) actor" where
  "emit_turn_status env state reason a = emit_with (fail_closed env) env state reason a"

definition release_active_turn :: "('f, 'e) session_env \<Rightarrow> ('f, 'e) actor \<Rightarrow> ('f, 'e) actor" where
  "release_active_turn env a = release_with (fail_closed env) env a"

definition cancel_speech_delivery :: "('f, 'e) session_env \<Rightarrow> ('f, 'e) actor \<Rightarrow> ('f, 'e) actor" where
  "cancel_speech_delivery env a = cancel_speech_with (fail_closed env) env a"

definition interrupt_active_turn :: "('f, 'e) session_env \<Rightarrow> ('f, 'e) actor \<Rightarrow> ('f, 'e) actor" where
  "interrupt_active_turn env a = interrupt_with (fail_closed env) env a"

section \<open>Listening modes and the end of a turn\<close>

definition direct_speech_busy :: "('f, 'e) actor \<Rightarrow> bool" where
  "direct_speech_busy a \<longleftrightarrow>
     sa_turn a \<noteq> None \<or> sa_prepare a \<noteq> None \<or> sa_boundary a \<noteq> None \<or>
     (sa_phase a \<noteq> Ready \<and> sa_phase a \<noteq> Listening) \<or> sa_auto_speech a \<or> sa_auto_reset a \<or>
     sa_asr_stream a \<noteq> None \<or> sa_arm_pending a \<or> (sa_phase a = Listening \<and> sa_mode a = Some ModeManual)"

definition notify_if_idle :: "('f, 'e) actor \<Rightarrow> ('f, 'e) actor" where
  "notify_if_idle a = (if direct_speech_busy a then a else a\<lparr>sa_wakeups := sa_wakeups a + 1\<rparr>)"

definition observe_reset :: "('f, 'e) actor \<Rightarrow> ('f, 'e) actor" where
  "observe_reset a = a\<lparr>sa_observe_pcm := []\<rparr>"

definition reset_vad_capture_cycle :: "('f, 'e) session_env \<Rightarrow> nat \<Rightarrow> ('f, 'e) actor \<Rightarrow> bool \<times> ('f, 'e) actor" where
  "reset_vad_capture_cycle env lease a =
     (let (cycle, a1) = allocate_vad_cycle a
      in worker_call env (CallVadSend (sa_vad a1) lease (VadReset cycle))
           (a1\<lparr>sa_vad_cycle := None, sa_pending_cycle := Some cycle\<rparr>))"

definition open_vad_mode :: "('f, 'e) session_env \<Rightarrow> worker_identity \<Rightarrow> ('f, 'e) actor \<Rightarrow> ('f, 'e) actor" where
  "open_vad_mode env identity a =
     (case worker_open env (CallVadOpen (sa_vad a) identity) a of
        (Some lease, a1) \<Rightarrow>
          let (cycle, a2) = allocate_vad_cycle (a1\<lparr>sa_vad_session := Some (lease, identity)\<rparr>)
          in a2\<lparr>sa_vad_cycle := Some cycle, sa_phase := Listening\<rparr>
      | (None, a1) \<Rightarrow> snd (send_urgent_lane (OutClose 1013) (a1\<lparr>sa_phase := Closed\<rparr>)))"

definition open_manual_mode :: "('f, 'e) session_env \<Rightarrow> worker_identity \<Rightarrow> ('f, 'e) actor \<Rightarrow> ('f, 'e) actor" where
  "open_manual_mode env identity a =
     (case worker_open env (CallAsrOpen (sa_asr a) identity) a of
        (Some lease, a1) \<Rightarrow>
          a1\<lparr>sa_manual := capture_start (sa_manual a1), sa_asr_stream := Some (lease, identity), sa_phase := Listening,
             sa_status_active := True, sa_status_outcome := ''failed''\<rparr>
      | (None, a1) \<Rightarrow> (emit_turn_status env ''rejected'' (Some ''asr_capacity'') a1)\<lparr>sa_phase := Ready\<rparr>)"

definition leave_capture :: "('f, 'e) actor \<Rightarrow> ('f, 'e) actor" where
  "leave_capture a =
     a\<lparr>sa_auto_speech := False, sa_auto_reset := False, sa_vad_cycle := None, sa_pending_cycle := None,
       sa_retention := retention_reset (sa_retention a), sa_segmenter := vad_reset (sa_segmenter a)\<rparr>"

definition replace_listening_mode :: "('f, 'e) session_env \<Rightarrow> listen_mode \<Rightarrow> ('f, 'e) actor \<Rightarrow> ('f, 'e) actor" where
  "replace_listening_mode env mode a =
     (case advance_generation (cancel_speech_delivery env (a\<lparr>sa_arm_pending := False\<rparr>)) of
        (False, a1) \<Rightarrow> a1
      | (True, a1) \<Rightarrow>
          let a2 = (observe_reset (leave_capture (close_vad env (cancel_asr env (cancel_llm env a1)))))\<lparr>sa_mode := Some mode\<rparr>
          in (case next_worker_identity a2 of
                (None, a3) \<Rightarrow> fail_closed env a3
              | (Some identity, a3) \<Rightarrow>
                  if mode = ModeManual then open_manual_mode env identity a3 else open_vad_mode env identity a3))"

definition activate_pending_listen_arm :: "('f, 'e) session_env \<Rightarrow> ('f, 'e) actor \<Rightarrow> ('f, 'e) actor" where
  "activate_pending_listen_arm env a =
     notify_if_idle
       (if sa_arm_pending a
        then (case sa_mode a of None \<Rightarrow> a\<lparr>sa_lost := True\<rparr> | Some mode \<Rightarrow> replace_listening_mode env mode a)
        else a\<lparr>sa_phase := Ready\<rparr>)"

definition forget_identification :: "('f, 'e) actor \<Rightarrow> ('f, 'e) actor" where
  "forget_identification a =
     a\<lparr>sa_ident_text := None, sa_ident_diagnostic := None, sa_ident_deadline := None, sa_ident_finished := True,
       sa_speaker := None\<rparr>"

definition complete_recognition :: "('f, 'e) session_env \<Rightarrow> ('f, 'e) actor \<Rightarrow> ('f, 'e) actor" where
  "complete_recognition env a =
     (let a1 = release_active_turn env (forget_identification a)
      in if sa_boundary a1 \<noteq> None then a1
         else (case sa_mode a1 of
                 Some ModeManual \<Rightarrow> activate_pending_listen_arm env a1
               | None \<Rightarrow> activate_pending_listen_arm env a1
               | Some mode \<Rightarrow>
                   (case sa_vad_session a1 of
                      None \<Rightarrow> replace_listening_mode env mode a1
                    | Some (lease, _) \<Rightarrow>
                        if sa_auto_reset a1 then a1
                        else (case reset_vad_capture_cycle env lease a1 of
                                (True, a2) \<Rightarrow> a2\<lparr>sa_auto_reset := True\<rparr>
                              | (False, a2) \<Rightarrow> fail_closed env a2))))"

definition fail_speech_delivery :: "('f, 'e) session_env \<Rightarrow> ('f, 'e) actor \<Rightarrow> ('f, 'e) actor" where
  "fail_speech_delivery env a =
     (let a1 = a\<lparr>sa_status_outcome := ''failed''\<rparr>;
          writer_owns = sa_tts_started a1;
          a2 = (if writer_owns then a1 else cancel_pending_actions a1)
      in (case advance_generation (cancel_tool_turn (cancel_llm env (cancel_speech_delivery env a2))) of
            (False, a3) \<Rightarrow> a3
          | (True, a3) \<Rightarrow> if writer_owns then a3 else complete_recognition env a3))"

definition terminalize_llm_failure :: "('f, 'e) session_env \<Rightarrow> ('f, 'e) actor \<Rightarrow> ('f, 'e) actor" where
  "terminalize_llm_failure env a =
     complete_recognition env
       (a\<lparr>sa_llm_operation := None, sa_delta := None, sa_finish_pending := False, sa_response := []\<rparr>)"

definition terminalize_turn_failure :: "('f, 'e) session_env \<Rightarrow> turn_failure \<Rightarrow> ('f, 'e) actor \<Rightarrow> ('f, 'e) actor" where
  "terminalize_turn_failure env failure a = terminalize_llm_failure env a"

definition close_voice_session_normally :: "('f, 'e) session_env \<Rightarrow> ('f, 'e) actor \<Rightarrow> ('f, 'e) actor" where
  "close_voice_session_normally env a =
     (if sa_phase a = Closed then a
      else snd (send_urgent_lane (OutClose 1000)
             ((close_vad env a)\<lparr>sa_auto_reset := False, sa_boundary := None, sa_deferred := [], sa_phase := Closed\<rparr>)))"

definition begin_application_shutdown :: "('f, 'e) session_env \<Rightarrow> ('f, 'e) actor \<Rightarrow> ('f, 'e) actor" where
  "begin_application_shutdown env a =
     (if sa_phase a = Closed then a
      else (close_vad env (snd (advance_generation (forget_identification (interrupt_active_turn env a)))))
             \<lparr>sa_auto_reset := False, sa_boundary := None, sa_deferred := [], sa_phase := Closed\<rparr>)"

section \<open>Admission\<close>

definition begin_active_turn :: "('f, 'e) session_env \<Rightarrow> ('f, 'e) actor \<Rightarrow> turn_id option \<times> ('f, 'e) actor" where
  "begin_active_turn env a =
     (case limiter_try_acquire (sa_limiter a) of
        None \<Rightarrow> (None, (emit_turn_status env ''rejected'' (Some ''active_turn_capacity'') a)\<lparr>sa_status_active := False\<rparr>)
      | Some l \<Rightarrow>
          if sa_next_turn a = U64_MAX \<or> turn_id_new (sa_next_turn a) = None then (None, fail_closed env a)
          else (let t = TurnId (sa_next_turn a);
                    a1 = drop_turn (a\<lparr>sa_limiter := l\<rparr>)
                in (Some t, a1\<lparr>sa_next_turn := sa_next_turn a + 1,
                      sa_turn := Some \<lparr>tc_turn = t, tc_generation = sa_generation a, tc_cancelled = False\<rparr>\<rparr>)))"

definition admit_pipeline :: "('f, 'e) session_env \<Rightarrow> ('f, 'e) actor \<Rightarrow> bool \<times> ('f, 'e) actor" where
  "admit_pipeline env a =
     (if \<not> pilot_enabled (sa_pilot a) \<or> sa_pipeline_permit a then (True, a)
      else (case pilot_try_admit PilotVoice (sa_pilot a) of
              Some p \<Rightarrow> (True, a\<lparr>sa_pilot := p, sa_pipeline_permit := True\<rparr>)
            | None \<Rightarrow>
                if sa_pipeline_status a
                then (let busy = lit ''{\"type\":\"pipeline\",\"state\":\"busy\",\"reason\":\"capacity\"}'';
                          (sent, a1) = send_control_lane (PipelineStatus (sa_request a) busy) a
                      in (False, if sent then a1 else fail_closed env a1))
                else (False, snd (send_urgent_lane (OutClose 1013) (a\<lparr>sa_phase := Closed\<rparr>)))))"

definition drop_pipeline :: "('f, 'e) actor \<Rightarrow> ('f, 'e) actor" where
  "drop_pipeline a =
     (if sa_pipeline_permit a then a\<lparr>sa_pipeline_permit := False, sa_pilot := pilot_drop PilotVoice (sa_pilot a)\<rparr> else a)"

definition release_pipeline_if_idle :: "('f, 'e) session_env \<Rightarrow> ('f, 'e) actor \<Rightarrow> ('f, 'e) actor" where
  "release_pipeline_if_idle env a =
     (if sa_phase a = Ready \<and> sa_turn a = None \<and> sa_writer_pending a = {} \<and> \<not> se_pilot_work env
      then drop_pipeline a else a)"

end
