(* ===== verification/Session_Turn.thy ===== *)
theory Session_Turn
  imports Session_Core
begin

text \<open>
  The course of a turn (\<open>session/actor/delivery.rs\<close>, \<open>tools/catalog.rs\<close>): the accepted user text, the request to the model, the text
  that goes to speech, and what the session offers the model.
\<close>

section \<open>The tool catalog\<close>

datatype tool_target = TargetBuiltin builtin_tool | TargetDevice llm_visible_tool | TargetSystem | TargetExternal rstr

definition visible_definition :: "llm_visible_tool \<Rightarrow> tool_definition" where
  "visible_definition t = \<lparr>td_name = vt_llm_name t, td_description = vt_description t, td_parameters = vt_input_schema t\<rparr>"

definition template_keys :: "switch_catalog \<Rightarrow> rstr list" where
  "template_keys c = map (tp_key \<circ> fst) (sc_candidates c) @ sc_cold c"

definition optional_list :: "'a list option \<Rightarrow> 'a list" where
  "optional_list xs = (case xs of None \<Rightarrow> [] | Some ys \<Rightarrow> ys)"

definition available_llm_tools :: "('f, 'e) session_env \<Rightarrow> ('f, 'e) actor \<Rightarrow> tool_definition list" where
  "available_llm_tools env a =
     [se_exit_tool env] @
     filter (\<lambda>t. \<not> is_legacy_reminder_tool_name (td_name t)) (optional_list (sa_task_tools a)) @
     (if sa_reminders a then se_reminder_tools env else []) @
     optional_list (sa_memory a) @
     (if sa_wiki a then se_wiki_tools env else []) @
     (if template_keys (sa_catalog a) = [] then [] else [se_switch_tool env (template_keys (sa_catalog a))]) @
     map visible_definition (filter (\<lambda>t. \<not> is_builtin_tool_name (vt_llm_name t)) (dm_visible (sa_mcp a))) @
     filter (\<lambda>t. \<not> is_builtin_tool_name (td_name t)) (concat (map snd (sa_external a))) @
     filter (\<lambda>t. \<not> is_builtin_tool_name (td_name t)) (optional_list (sa_system a))"

definition offers_answer_changing_tools :: "('f, 'e) session_env \<Rightarrow> ('f, 'e) actor \<Rightarrow> bool" where
  "offers_answer_changing_tools env a \<longleftrightarrow>
     (sa_task_tools a \<noteq> None \<and> se_supports_tools env (sa_llm a)) \<or> sa_reminders a \<or> sa_memory a \<noteq> None \<or> sa_wiki a \<or>
     dm_visible (sa_mcp a) \<noteq> [] \<or> sa_external_routes a \<noteq> [] \<or> optional_list (sa_system a) \<noteq> []"

definition is_system_tool :: "rstr \<Rightarrow> ('f, 'e) actor \<Rightarrow> bool" where
  "is_system_tool name a \<longleftrightarrow> list_ex (\<lambda>t. td_name t = name) (optional_list (sa_system a))"

definition resolve_tool :: "rstr \<Rightarrow> ('f, 'e) actor \<Rightarrow> tool_target option" where
  "resolve_tool name a =
     (if is_reminder_tool_name name \<or> is_legacy_reminder_tool_name name then Some (TargetBuiltin ReminderTool)
      else if is_memory_tool_name name then Some (TargetBuiltin MemoryTool)
      else if is_wiki_tool_name name then Some (TargetBuiltin WikiTool)
      else if is_task_suite_tool_name name
        then (if sa_task_tools a = None then None else Some (TargetBuiltin TaskSuite))
      else if name = EXIT_TOOL_NAME then Some (TargetBuiltin EndConversation)
      else if name = SWITCH_TEMPLATE_TOOL_NAME then Some (TargetBuiltin SwitchTemplate)
      else (case find (\<lambda>t. vt_llm_name t = name) (dm_visible (sa_mcp a)) of
              Some t \<Rightarrow> Some (TargetDevice t)
            | None \<Rightarrow>
                if is_system_tool name a then Some TargetSystem
                else map_option TargetExternal (hm_get (sa_external_routes a) name)))"

fun join_delivery :: "result_delivery \<Rightarrow> result_delivery \<Rightarrow> result_delivery" where
  "join_delivery LlmThenTts d = LlmThenTts"
| "join_delivery d LlmThenTts = LlmThenTts"
| "join_delivery DirectTts d = DirectTts"
| "join_delivery d DirectTts = DirectTts"
| "join_delivery Silent Silent = Silent"

definition call_delivery :: "('f, 'e) actor \<Rightarrow> result_delivery \<Rightarrow> rstr \<Rightarrow> result_delivery" where
  "call_delivery a selected name =
     (if is_task_suite_tool_name name \<or> is_reminder_tool_name name \<or> is_memory_tool_name name \<or> is_wiki_tool_name name
      then LlmThenTts
      else let delivery =
             (case Option.bind (find (\<lambda>t. vt_llm_name t = name) (dm_visible (sa_mcp a)))
                     (\<lambda>t. hm_get (dm_tool_delivery (sa_mcp a)) (vt_original_name t)) of
                None \<Rightarrow> dm_delivery (sa_mcp a)
              | Some d \<Rightarrow> d)
           in if hm_get (sa_external_routes a) name \<noteq> None \<or> is_system_tool name a then LlmThenTts
              else join_delivery selected delivery)"

definition round_result_delivery :: "tool_call list \<Rightarrow> ('f, 'e) actor \<Rightarrow> result_delivery" where
  "round_result_delivery calls a = foldl (\<lambda>d c. call_delivery a d (call_name c)) Silent calls"

section \<open>Text into speech\<close>

text \<open>The text not yet taken by speech is a suffix; \<open>offset\<close> counts what was taken.\<close>

fun flush_chars :: "('f, 'e) session_env \<Rightarrow> rstr \<Rightarrow> nat \<Rightarrow> rstr \<Rightarrow> ('f, 'e) actor \<Rightarrow> bool \<times> ('f, 'e) actor" where
  "flush_chars env whole offset [] a = (True, a\<lparr>sa_delta := None\<rparr>)"
| "flush_chars env whole offset (c # cs) a =
     (if \<not> has_pending_capacity (sa_speech a) then (True, a\<lparr>sa_delta := Some (whole, offset)\<rparr>)
      else (case (if sa_origin a = LlmOrigin then push_delta (se_speech env) [c] (sa_speech a)
                  else push_direct_delta (se_speech env) [c] (sa_speech a)) of
              None \<Rightarrow> (False, a\<lparr>sa_lost := True\<rparr>)
            | Some (Inl _, so) \<Rightarrow>
                (False, fail_speech_delivery env (a\<lparr>sa_speech := so, sa_delta := Some (whole, offset)\<rparr>))
            | Some (Inr _, so) \<Rightarrow> flush_chars env whole (Suc offset) cs (a\<lparr>sa_speech := so\<rparr>)))"

definition flush_finish :: "('f, 'e) session_env \<Rightarrow> ('f, 'e) actor \<Rightarrow> ('f, 'e) actor" where
  "flush_finish env a =
     (if sa_finish_pending a \<and> sa_delta a = None \<and> has_pending_capacity (sa_speech a) then
        let a1 = a\<lparr>sa_finish_pending := False\<rparr> in
        if trim (sa_response a1) = [] then fail_speech_delivery env a1
        else (case finish_input (se_speech env) (sa_speech a1) of
                None \<Rightarrow> a1\<lparr>sa_lost := True\<rparr>
              | Some (Inl _, so) \<Rightarrow> fail_speech_delivery env (a1\<lparr>sa_speech := so\<rparr>)
              | Some (Inr _, so) \<Rightarrow> a1\<lparr>sa_speech := so\<rparr>)
      else a)"

definition flush_pending_llm_text :: "('f, 'e) session_env \<Rightarrow> ('f, 'e) actor \<Rightarrow> ('f, 'e) actor" where
  "flush_pending_llm_text env a =
     (case (case sa_delta a of
              None \<Rightarrow> (True, a)
            | Some (whole, offset) \<Rightarrow> flush_chars env whole offset (drop offset whole) a) of
        (False, a1) \<Rightarrow> a1
      | (True, a1) \<Rightarrow> flush_finish env a1)"

definition begin_direct_speech ::
    "('f, 'e) session_env \<Rightarrow> rstr \<Rightarrow> speech_origin \<Rightarrow> ('f, 'e) actor \<Rightarrow> ('f, 'e) actor" where
  "begin_direct_speech env s origin a =
     (let a1 = a\<lparr>sa_response := s, sa_origin := origin, sa_delta := Some (s, 0), sa_finish_pending := True\<rparr>
      in if origin = ToolDirect then flush_pending_llm_text env a1 else a1)"

definition begin_direct_tool_speech :: "('f, 'e) session_env \<Rightarrow> rstr \<Rightarrow> ('f, 'e) actor \<Rightarrow> ('f, 'e) actor" where
  "begin_direct_tool_speech env s a = begin_direct_speech env s ToolDirect a"

section \<open>The request to the model\<close>

definition start_llm_round :: "('f, 'e) session_env \<Rightarrow> bool \<Rightarrow> ('f, 'e) actor \<Rightarrow> ('f, 'e) actor" where
  "start_llm_round env allow_tools a =
     (if sa_turn a = None then fail_closed env a
      else (case next_worker_identity a of
              (None, a1) \<Rightarrow> fail_closed env a1
            | (Some identity, a1) \<Rightarrow>
                let a2 = a1\<lparr>sa_response := [], sa_delta := None, sa_finish_pending := False, sa_origin := LlmOrigin,
                            sa_direct_request := None\<rparr>;
                    tools = (if allow_tools then available_llm_tools env a2 else []);
                    a3 = a2\<lparr>sa_round := (if allow_tools \<and> offers_answer_changing_tools env a2
                                        then Some \<lparr>lr_prose = [], lr_calls = []\<rparr> else None)\<rparr>;
                    request = \<lparr>rq_messages = sa_messages a3, rq_tools = tools\<rparr>
                in (case llm_request_size_bytes (se_jtext env) request of
                      Inl _ \<Rightarrow> terminalize_turn_failure env LlmRequestTooLarge a3
                    | Inr _ \<Rightarrow>
                        (case worker_call env (CallLlmStart (sa_llm a3) identity request) a3 of
                           (False, a4) \<Rightarrow> complete_recognition env (drop_turn a4)
                         | (True, a4) \<Rightarrow> a4\<lparr>sa_llm_operation := Some identity\<rparr>))))"

definition commit_user_text ::
    "('f, 'e) session_env \<Rightarrow> rstr \<Rightarrow> ('f, 'e) actor \<Rightarrow> rstr option \<times> ('f, 'e) actor" where
  "commit_user_text env final_text a =
     (let s = trim final_text in
      if s = [] then (None, a)
      else (case current_turn_id a of
              None \<Rightarrow> (None, a)
            | Some t \<Rightarrow>
                let a1 = record_transcript UserRole s t (a\<lparr>sa_history := commit_user t s (sa_history a)\<rparr>);
                    payload = se_jtext env (JObject
                      [text_field ''session_id'' (sa_session_id a1), (lit ''type'', jstr ''stt''), text_field ''text'' s])
                in (Some s, snd (send_turn_control payload a1))))"

definition begin_speech_delivery :: "('f, 'e) session_env \<Rightarrow> ('f, 'e) actor \<Rightarrow> ('f, 'e) actor" where
  "begin_speech_delivery env a =
     (case current_turn_id a of
        None \<Rightarrow> fail_closed env a
      | Some t \<Rightarrow>
          (case messages_for_prompt t (sa_history a) of
             None \<Rightarrow> terminalize_llm_failure env a
           | Some history \<Rightarrow>
               let inputs = \<lparr>ti_speaker = sa_speaker a,
                             ti_memory = (if sa_memory a = None then None else Some (se_memory_rows env)),
                             ti_reminders = (if sa_reminders a then Some (se_reminder_context env) else None)\<rparr>;
                   a1 = a\<lparr>sa_speaker := None\<rparr>
               in (case compose_turn_system (se_jtext env) (tp_prompt (sa_profile a1)) inputs of
                     Inl _ \<Rightarrow> terminalize_turn_failure env LlmRequestTooLarge a1
                   | Inr system \<Rightarrow>
                       start_llm_round env True
                         (a1\<lparr>sa_messages := System system # history, sa_rounds := rounds_begin_turn (sa_rounds a1)\<rparr>))))"

definition direct_origin :: "speech_origin \<Rightarrow> bool" where
  "direct_origin origin \<longleftrightarrow>
     (case origin of ClientDirect \<Rightarrow> True | AdminDirect \<Rightarrow> True | ReminderOrigin _ _ \<Rightarrow> True | _ \<Rightarrow> False)"

definition admit_voice :: "('f, 'e) actor \<Rightarrow> ('f, 'e) actor option" where
  "admit_voice a =
     (if pilot_enabled (sa_pilot a) \<and> \<not> sa_pipeline_permit a
      then map_option (\<lambda>p. a\<lparr>sa_pilot := p, sa_pipeline_permit := True\<rparr>) (pilot_try_admit PilotVoice (sa_pilot a))
      else Some a)"

definition admit_direct_speech ::
    "('f, 'e) session_env \<Rightarrow> direct_request \<Rightarrow> ('f, 'e) actor \<Rightarrow> (direct_speech_error + unit) \<times> ('f, 'e) actor" where
  "admit_direct_speech env request a =
     (case validate_direct_speech (dr_id request) (dr_text request) of
        Inl e \<Rightarrow> (Inl e, a)
      | Inr _ \<Rightarrow>
          if \<not> sa_admission_open a \<or> speaker_security_revoked a \<or> sa_direct_closed a then (Inl SpeechShuttingDown, a)
          else if \<not> direct_origin (dr_origin request) then (Inl Unauthorized, a)
          else if direct_speech_busy a then (Inl SessionBusy, a)
          else if \<not> se_tts_available env (sa_tts a) then (Inl TtsUnavailable, a)
          else (case admit_voice a of
                  None \<Rightarrow> (Inl CapacityReached, a)
                | Some a1 \<Rightarrow>
                    (case advance_generation a1 of
                       (False, a2) \<Rightarrow> (Inl SpeechShuttingDown, a2)
                     | (True, a2) \<Rightarrow>
                         (case begin_active_turn env a2 of
                            (None, a3) \<Rightarrow> (Inl CapacityReached, a3)
                          | (Some _, a3) \<Rightarrow>
                              (Inr (), begin_direct_speech env (dr_text request) (dr_origin request)
                                 (a3\<lparr>sa_status_outcome := ''cancelled'', sa_phase := Processing,
                                     sa_direct_request := Some (dr_id request)\<rparr>))))))"

end
