(* ===== verification/Session_Tools.thy ===== *)
theory Session_Tools
  imports Session_Turn
begin

text \<open>
  Tool rounds (\<open>session/actor/tools/round.rs\<close>, \<open>builtin_actions.rs\<close>, \<open>external.rs\<close>, \<open>system.rs\<close>, \<open>job.rs\<close>, \<open>memory.rs\<close>,
  \<open>wiki.rs\<close>, the calls of \<open>mcp.rs\<close>): the calls of one round are executed in order, one at a time. A call that
  completes at once is recorded and the next one starts; one that does not is in flight, and its
  completion re-enters the executor.
\<close>

section \<open>Recording a call\<close>

definition tool_status_name :: "rstr \<Rightarrow> bool" where
  "tool_status_name name \<longleftrightarrow>
     name \<noteq> [] \<and> byte_len name \<le> 128 \<and> list_all (\<lambda>c. is_ascii_alphanumeric c \<or> c \<in> {95, 46, 58, 45}) name"

definition emit_tool_status :: "('f, 'e) session_env \<Rightarrow> rstr \<Rightarrow> string \<Rightarrow> ('f, 'e) actor \<Rightarrow> ('f, 'e) actor" where
  "emit_tool_status env name state a =
     (if \<not> sa_tool_status a \<or> \<not> tool_status_name name then a
      else (case current_turn_id a of
              None \<Rightarrow> a
            | Some t \<Rightarrow>
                snd (send_turn_control (se_jtext env (JObject
                  [(lit ''type'', jstr ''tool''), text_field ''session_id'' (sa_session_id a),
                   (lit ''turn_id'', jnat (turn_id_get t)), text_field ''name'' name, (lit ''state'', jstr state)])) a)))"

definition record_tool_call ::
    "('f, 'e) session_env \<Rightarrow> tool_call \<Rightarrow> rstr \<Rightarrow> bool \<Rightarrow> ('f, 'e) actor \<Rightarrow> ('f, 'e) actor" where
  "record_tool_call env call content succeeded a =
     (case sa_batch a of
        None \<Rightarrow> a
      | Some b \<Rightarrow>
          let a1 = a\<lparr>sa_batch := Some (b\<lparr>tb_completed := tb_completed b @ [call],
                       tb_results := tb_results b @ [ToolResult (call_id call) content]\<rparr>)\<rparr>
          in if resolve_tool (call_name call) a1 \<noteq> None
             then emit_tool_status env (call_name call) (if succeeded then ''completed'' else ''failed'') a1 else a1)"

definition offer_direct :: "rstr \<Rightarrow> ('f, 'e) actor \<Rightarrow> ('f, 'e) actor" where
  "offer_direct response a =
     a\<lparr>sa_batch := map_option (\<lambda>b. b\<lparr>tb_direct := Some (get_or_insert (tb_direct b) response)\<rparr>) (sa_batch a)\<rparr>"

definition clear_in_flight :: "('f, 'e) actor \<Rightarrow> ('f, 'e) actor" where
  "clear_in_flight a = a\<lparr>sa_batch := map_option (\<lambda>b. b\<lparr>tb_in_flight := None\<rparr>) (sa_batch a)\<rparr>"

definition spoken_response :: "('f, 'e) session_env \<Rightarrow> rstr \<Rightarrow> rstr option" where
  "spoken_response env content =
     keep_if (\<lambda>s. trim s \<noteq> []) (Option.bind (se_jparse env content) (\<lambda>v. get_str v (lit ''content'')))"

text \<open>\<open>complete_tool_call\<close> up to the next dispatch.\<close>

definition record_result ::
    "('f, 'e) session_env \<Rightarrow> tool_call \<Rightarrow> rstr + json \<Rightarrow> ('f, 'e) actor \<Rightarrow> ('f, 'e) actor" where
  "record_result env call result a =
     (let succeeded = (case result of Inl _ \<Rightarrow> False | Inr v \<Rightarrow> \<not> is_error_flag v) in
      if is_task_suite_tool_name (call_name call) \<and> \<not> is_legacy_reminder_tool_name (call_name call)
      then record_tool_call env call
             (se_jtext env (case result of Inl code \<Rightarrow> voice_rejection code | Inr v \<Rightarrow> v)) succeeded a
      else (case result of
              Inl code \<Rightarrow> record_tool_call env call (tool_error_content (se_jtext env) code) succeeded a
            | Inr v \<Rightarrow>
                (case parse_direct_response (se_jparse env) v of
                   Some response \<Rightarrow>
                     let content = normalize_tool_result (se_jtext env) (se_nfc env)
                           (JObject [(lit ''content'', JArray [JObject [text_field ''text'' response]])])
                           (sa_max_result_chars a);
                         a1 = record_tool_call env call content succeeded a
                     in (case spoken_response env content of None \<Rightarrow> a1 | Some s \<Rightarrow> offer_direct s a1)
                 | None \<Rightarrow>
                     record_tool_call env call
                       (normalize_tool_result (se_jtext env) (se_nfc env)
                         (redact_photo_data (se_jparse env) (se_jtext env) v) (sa_max_result_chars a))
                       succeeded a)))"

section \<open>The end of a round\<close>

definition terminalize_tool_round ::
    "('f, 'e) session_env \<Rightarrow> tool_round_failure \<Rightarrow> ('f, 'e) actor \<Rightarrow> ('f, 'e) actor" where
  "terminalize_tool_round env failure a =
     (let a1 = a\<lparr>sa_job_pending := None\<rparr>;
          a2 = (case sa_batch a1 of None \<Rightarrow> a1 | Some b \<Rightarrow> commit_tool_exchange b (a1\<lparr>sa_batch := None\<rparr>))
      in terminalize_turn_failure env (ToolFailure failure) (a2\<lparr>sa_round := None\<rparr>))"

definition begin_tool_continuation :: "('f, 'e) session_env \<Rightarrow> ('f, 'e) actor \<Rightarrow> ('f, 'e) actor" where
  "begin_tool_continuation env a =
     (if tl_max_rounds_per_turn (tr_limits (sa_rounds a)) \<le> tr_rounds (sa_rounds a)
      then terminalize_tool_round env RoundLimitExceeded a
      else let (now_ms, a1) = read_clock env a
           in if rounds_remaining now_ms (sa_rounds a1) = None
              then terminalize_tool_round env ExecutionBudgetExceeded a1
              else start_llm_round env True (a1\<lparr>sa_rounds := (sa_rounds a1)\<lparr>tr_rounds := tr_rounds (sa_rounds a1) + 1\<rparr>\<rparr>))"

definition finish_tool_turn_without_speech :: "('f, 'e) session_env \<Rightarrow> ('f, 'e) actor \<Rightarrow> ('f, 'e) actor" where
  "finish_tool_turn_without_speech env a = complete_recognition env (a\<lparr>sa_response := []\<rparr>)"

definition result_speech :: "('f, 'e) session_env \<Rightarrow> chat_message \<Rightarrow> rstr option" where
  "result_speech env m =
     (case m of
        ToolResult _ content \<Rightarrow>
          (case se_jparse env content of
             None \<Rightarrow> None
           | Some v \<Rightarrow>
               if Option.bind (json_get v (lit ''ok'')) as_bool = Some True
               then keep_if (\<lambda>s. s \<noteq> [] \<and> \<not> starts_with (lit ''{'') s \<and> \<not> starts_with (lit ''['') s)
                      (map_option trim (get_str v (lit ''content'')))
               else None)
      | _ \<Rightarrow> None)"

definition direct_tts_text :: "('f, 'e) session_env \<Rightarrow> tool_batch \<Rightarrow> rstr option" where
  "direct_tts_text env b =
     (let texts = List.map_filter (result_speech env) (tb_results b)
      in if texts = [] then None else Some (join_with [10] texts))"

definition requires_receipt :: "tool_call \<Rightarrow> bool" where
  "requires_receipt c \<longleftrightarrow>
     is_task_suite_tool_name (call_name c) \<or> is_reminder_tool_name (call_name c) \<or>
     is_memory_tool_name (call_name c) \<or> is_wiki_tool_name (call_name c)"

definition finish_tool_batch :: "('f, 'e) session_env \<Rightarrow> tool_batch \<Rightarrow> ('f, 'e) actor \<Rightarrow> ('f, 'e) actor" where
  "finish_tool_batch env b a =
     (let a1 = commit_tool_exchange b (a\<lparr>sa_batch := None\<rparr>)
      in case (if list_ex requires_receipt (tb_calls b) then None else tb_direct b) of
           Some goodbye \<Rightarrow> begin_direct_tool_speech env goodbye a1
         | None \<Rightarrow>
             (case tb_delivery b of
                LlmThenTts \<Rightarrow> begin_tool_continuation env a1
              | DirectTts \<Rightarrow>
                  (case direct_tts_text env b of
                     Some s \<Rightarrow> begin_direct_tool_speech env s a1
                   | None \<Rightarrow> finish_tool_turn_without_speech env a1)
              | Silent \<Rightarrow> finish_tool_turn_without_speech env a1))"

section \<open>Device calls\<close>

definition next_mcp_request_id :: "('f, 'e) actor \<Rightarrow> u64 option \<times> ('f, 'e) actor" where
  "next_mcp_request_id a =
     (if dm_next_id (sa_mcp a) < U64_MAX
      then (Some (dm_next_id (sa_mcp a) + 1), a\<lparr>sa_mcp := (sa_mcp a)\<lparr>dm_next_id := dm_next_id (sa_mcp a) + 1\<rparr>\<rparr>)
      else (None, a))"

definition is_tool_call_kind :: "pending_mcp_kind \<Rightarrow> bool" where
  "is_tool_call_kind k = (case k of McpCalling _ \<Rightarrow> True | _ \<Rightarrow> False)"

definition mcp_discovery_failed :: "('f, 'e) actor \<Rightarrow> ('f, 'e) actor" where
  "mcp_discovery_failed a =
     a\<lparr>sa_mcp := (sa_mcp a)\<lparr>dm_failed := True, dm_ready := False, dm_visible := [],
         dm_pending := hm_retain (\<lambda>_ p. is_tool_call_kind (pm_kind p)) (dm_pending (sa_mcp a))\<rparr>\<rparr>"

fun outgoing_id :: "mcp_outgoing \<Rightarrow> u64" where
  "outgoing_id (McpInitialize i _) = i"
| "outgoing_id (McpToolsList i _) = i"
| "outgoing_id (McpToolsCall i _ _) = i"

definition send_mcp ::
    "('f, 'e) session_env \<Rightarrow> mcp_outgoing \<Rightarrow> u64 option \<Rightarrow> pending_mcp_kind \<Rightarrow> nat \<Rightarrow> ('f, 'e) actor \<Rightarrow> ('f, 'e) actor" where
  "send_mcp env outgoing generation kind timeout a =
     (let payload = se_jtext env (JObject
            [(lit ''type'', jstr ''mcp''), text_field ''session_id'' (sa_session_id a), (lit ''payload'', mcp_payload outgoing)]);
          (sent, a1) = (if generation \<noteq> None then send_turn_control payload a else send_control payload a)
      in if sent then
           let (now_ms, a2) = read_clock env a1
           in a2\<lparr>sa_mcp := (sa_mcp a2)\<lparr>dm_pending := hm_insert (outgoing_id outgoing)
                \<lparr>pm_generation = generation, pm_deadline = now_ms + timeout, pm_kind = kind\<rparr> (dm_pending (sa_mcp a2))\<rparr>\<rparr>
         else if generation \<noteq> None then fail_speech_delivery env a1
         else mcp_discovery_failed a1)"

section \<open>One call\<close>

text \<open>A call sent to a task of its own stays in flight.\<close>

definition spawn_call ::
    "('f, 'e) session_env \<Rightarrow> tool_call \<Rightarrow> turn_context \<Rightarrow> nat \<Rightarrow> ('f, 'e) actor \<Rightarrow> ('f, 'e) actor" where
  "spawn_call env call t budget a =
     (let a1 = snd (worker_call env (CallSpawn (tc_turn t) (tc_generation t) call budget) a)
      in a1\<lparr>sa_batch := map_option (\<lambda>b. b\<lparr>tb_in_flight := Some \<lparr>if_call = call, if_turn = tc_turn t,
            if_generation = tc_generation t\<rparr>\<rparr>) (sa_batch a1)\<rparr>)"

text \<open>The answer of a call: completed at once, or under way.\<close>

type_synonym ('f, 'e) progress = "bool \<times> ('f, 'e) actor"

definition refused :: "('f, 'e) session_env \<Rightarrow> tool_call \<Rightarrow> string \<Rightarrow> ('f, 'e) actor \<Rightarrow> ('f, 'e) progress" where
  "refused env call code a = (True, record_result env call (Inl (lit code)) a)"

definition done_with :: "('f, 'e) session_env \<Rightarrow> tool_call \<Rightarrow> json \<Rightarrow> ('f, 'e) actor \<Rightarrow> ('f, 'e) progress" where
  "done_with env call v a = (True, record_result env call (Inr v) a)"

text \<open>Reminder and Memory tools run on the server; both refuse without their handle, a turn or a runtime.\<close>

definition execute_server_tool ::
    "('f, 'e) session_env \<Rightarrow> bool \<Rightarrow> string \<Rightarrow> string \<Rightarrow> (turn_id \<Rightarrow> ('f, 'e) actor \<Rightarrow> ('f, 'e) actor) \<Rightarrow>
     tool_call \<Rightarrow> ('f, 'e) actor \<Rightarrow> ('f, 'e) progress" where
  "execute_server_tool env available disabled unavailable note_call call a =
     (if \<not> available then refused env call disabled a
      else (case sa_turn a of
              None \<Rightarrow> refused env call ''no_active_turn'' a
            | Some t \<Rightarrow>
                if \<not> se_in_runtime env then refused env call unavailable a
                else (False, spawn_call env call t 0 (note_call (tc_turn t) a))))"

definition execute_reminder_tool :: "('f, 'e) session_env \<Rightarrow> tool_call \<Rightarrow> ('f, 'e) actor \<Rightarrow> ('f, 'e) progress" where
  "execute_reminder_tool env call a =
     execute_server_tool env (sa_reminders a) ''reminders_disabled'' ''device_notifications_unavailable'' (\<lambda>_ a. a) call a"

definition execute_memory_tool :: "('f, 'e) session_env \<Rightarrow> tool_call \<Rightarrow> ('f, 'e) actor \<Rightarrow> ('f, 'e) progress" where
  "execute_memory_tool env call a =
     execute_server_tool env (sa_memory a \<noteq> None) ''memory_disabled'' ''memory_unavailable''
       (\<lambda>t a. a\<lparr>sa_memory_call := Some t\<rparr>) call a"

definition WIKI_CALL_BUDGET :: nat where
  "WIKI_CALL_BUDGET = 5000"

definition JOB_CALL_BUDGET :: nat where
  "JOB_CALL_BUDGET = 5000"

definition rest_of_budget :: "('f, 'e) session_env \<Rightarrow> nat \<Rightarrow> ('f, 'e) actor \<Rightarrow> nat \<times> ('f, 'e) actor" where
  "rest_of_budget env bound a =
     (let (now_ms, a1) = read_clock env a
      in (min (case rounds_remaining now_ms (sa_rounds a1) of None \<Rightarrow> 0 | Some n \<Rightarrow> n) bound, a1))"

definition execute_wiki_tool :: "('f, 'e) session_env \<Rightarrow> tool_call \<Rightarrow> ('f, 'e) actor \<Rightarrow> ('f, 'e) progress" where
  "execute_wiki_tool env call a =
     (if \<not> sa_wiki a then refused env call ''wiki_disabled'' a
      else (case sa_turn a of
              None \<Rightarrow> refused env call ''no_active_turn'' a
            | Some t \<Rightarrow>
                (let (budget, a1) = rest_of_budget env WIKI_CALL_BUDGET a in
                 if budget = 0 then refused env call ''wiki_timeout'' a1
                 else if \<not> se_in_runtime env then refused env call ''wiki_unavailable'' a1
                 else (False, spawn_call env call t budget a1))))"

definition execute_task_suite :: "('f, 'e) session_env \<Rightarrow> tool_call \<Rightarrow> ('f, 'e) actor \<Rightarrow> ('f, 'e) progress" where
  "execute_task_suite env call a =
     (let reject = (\<lambda>code a. done_with env call (voice_rejection (lit code)) a) in
      if \<not> se_supports_tools env (sa_llm a) then reject ''llm_tool_calls_unavailable'' a
      else if sa_task_tools a = None \<or> \<not> sa_job_mailbox a then reject ''runtime_unavailable'' a
      else (case sa_turn a of
              None \<Rightarrow> reject ''no_active_turn'' a
            | Some t \<Rightarrow>
                (let (budget, a1) = rest_of_budget env JOB_CALL_BUDGET a in
                 if budget = 0 then reject ''submission_outcome_unknown'' a1
                 else if \<not> se_in_runtime env then reject ''runtime_unavailable'' a1
                 else (let (now_ms, a2) = read_clock env (spawn_call env call t budget a1)
                       in (False, a2\<lparr>sa_job_pending := Some \<lparr>pj_call = call, pj_turn = tc_turn t,
                             pj_generation = tc_generation t, pj_deadline = now_ms + budget + 1000\<rparr>\<rparr>)))))"

definition switch_scheduled :: json where
  "switch_scheduled = envelope True None (lit ''template_switch_scheduled'') False"

definition execute_template_switch :: "('f, 'e) session_env \<Rightarrow> tool_call \<Rightarrow> ('f, 'e) actor \<Rightarrow> ('f, 'e) progress" where
  "execute_template_switch env call a =
     (case parse_switch_template_args (call_arguments call) of
        None \<Rightarrow> refused env call ''invalid_arguments'' a
      | Some key \<Rightarrow>
          (case sa_turn a of
             None \<Rightarrow> refused env call ''no_active_turn'' a
           | Some t \<Rightarrow>
               if key \<in> set (sc_cold (sa_catalog a)) then
                 (if \<not> sc_manager (sa_catalog a) then refused env call ''template_switch_unavailable'' a
                  else if sa_prepare a \<noteq> None \<or> sa_boundary a \<noteq> None then refused env call ''provider_runtime_busy'' a
                  else if \<not> se_in_runtime env then refused env call ''template_switch_unavailable'' a
                  else (False, a\<lparr>sa_prepare := Some \<lparr>tq_turn = tc_turn t, tq_generation = sa_generation a,
                          tq_revision = tp_revision (sa_profile a), tq_call = call, tq_completion = Waiting\<rparr>\<rparr>))
               else if list_all (\<lambda>c. tp_key (fst c) \<noteq> key) (sc_candidates (sa_catalog a))
               then refused env call ''template_switch_unavailable'' a
               else done_with env call switch_scheduled
                 (a\<lparr>sa_actions := (sa_actions a)\<lparr>pa_switch :=
                    Some \<lparr>ps_turn = tc_turn t, ps_key = key, ps_prepared = None\<rparr>\<rparr>\<rparr>)))"

definition execute_exit :: "('f, 'e) session_env \<Rightarrow> tool_call \<Rightarrow> ('f, 'e) actor \<Rightarrow> ('f, 'e) progress" where
  "execute_exit env call a =
     (case parse_exit_args (call_arguments call) of
        None \<Rightarrow> refused env call ''invalid_arguments'' a
      | Some goodbye \<Rightarrow>
          (case current_turn_id a of
             None \<Rightarrow> refused env call ''no_active_turn'' a
           | Some t \<Rightarrow>
               (True, offer_direct goodbye
                  (record_tool_call env call
                     (se_jtext env (envelope True None (lit ''conversation_exit_requested'') False)) True
                     (a\<lparr>sa_actions := (sa_actions a)\<lparr>pa_close := Some t\<rparr>\<rparr>)))))"

definition execute_builtin_tool ::
    "('f, 'e) session_env \<Rightarrow> tool_call \<Rightarrow> builtin_tool \<Rightarrow> ('f, 'e) actor \<Rightarrow> ('f, 'e) progress" where
  "execute_builtin_tool env call tool a =
     (case tool of
        EndConversation \<Rightarrow> execute_exit env call a
      | SwitchTemplate \<Rightarrow> execute_template_switch env call a
      | TaskSuite \<Rightarrow> execute_task_suite env call a
      | ReminderTool \<Rightarrow> execute_reminder_tool env call a
      | MemoryTool \<Rightarrow> execute_memory_tool env call a
      | WikiTool \<Rightarrow> execute_wiki_tool env call a)"

definition dispatch_device_mcp_tool ::
    "('f, 'e) session_env \<Rightarrow> tool_call \<Rightarrow> llm_visible_tool \<Rightarrow> nat \<Rightarrow> ('f, 'e) actor \<Rightarrow> ('f, 'e) progress" where
  "dispatch_device_mcp_tool env call tool budget a =
     (if \<not> dm_ready (sa_mcp a) then refused env call ''mcp_unavailable'' a
      else (case as_object (call_arguments call) of
              None \<Rightarrow> refused env call ''invalid_arguments'' a
            | Some arguments \<Rightarrow>
                (case next_mcp_request_id a of
                   (None, a1) \<Rightarrow> refused env call ''request_id_exhausted'' a1
                 | (Some i, a1) \<Rightarrow>
                     (False, send_mcp env (McpToolsCall i (vt_original_name tool) arguments) (Some (sa_generation a1))
                        (McpCalling call) (min (dm_call_timeout (sa_mcp a1)) budget) a1))))"

definition dispatch_system_tool ::
    "('f, 'e) session_env \<Rightarrow> tool_call \<Rightarrow> nat \<Rightarrow> ('f, 'e) actor \<Rightarrow> ('f, 'e) progress" where
  "dispatch_system_tool env call budget a =
     (case sa_turn a of
        None \<Rightarrow> refused env call ''system_tool_unavailable'' a
      | Some t \<Rightarrow>
          if \<not> se_in_runtime env then refused env call ''system_tool_unavailable'' a
          else (False, spawn_call env call t budget a))"

definition record_external ::
    "('f, 'e) session_env \<Rightarrow> tool_call \<Rightarrow> external_error + external_outcome \<Rightarrow> ('f, 'e) actor \<Rightarrow> ('f, 'e) actor" where
  "record_external env call outcome a =
     record_tool_call env call (external_tool_result (se_jtext env) outcome)
       (case outcome of Inl _ \<Rightarrow> False | Inr r \<Rightarrow> \<not> eo_is_error r) (clear_in_flight a)"

definition dispatch_external_tool ::
    "('f, 'e) session_env \<Rightarrow> tool_call \<Rightarrow> nat \<Rightarrow> ('f, 'e) actor \<Rightarrow> ('f, 'e) progress" where
  "dispatch_external_tool env call budget a =
     (case sa_turn a of
        None \<Rightarrow> (True, record_external env call (Inl ToolUnavailable) a)
      | Some t \<Rightarrow>
          if \<not> se_in_runtime env \<or> \<not> sa_external_guard a then (True, record_external env call (Inl ToolUnavailable) a)
          else (False, spawn_call env call t budget a))"

definition dispatch_call ::
    "('f, 'e) session_env \<Rightarrow> tool_call \<Rightarrow> nat \<Rightarrow> ('f, 'e) actor \<Rightarrow> ('f, 'e) progress" where
  "dispatch_call env call budget a =
     (case resolve_tool (call_name call) a of
        None \<Rightarrow> refused env call ''unknown_tool'' a
      | Some target \<Rightarrow>
          let a1 = emit_tool_status env (call_name call) ''started'' a
          in (case target of
                TargetSystem \<Rightarrow> dispatch_system_tool env call budget a1
              | TargetBuiltin tool \<Rightarrow> execute_builtin_tool env call tool a1
              | TargetDevice tool \<Rightarrow> dispatch_device_mcp_tool env call tool budget a1
              | TargetExternal server \<Rightarrow> dispatch_external_tool env call budget a1))"

section \<open>The executor\<close>

definition dispatch_step :: "('f, 'e) session_env \<Rightarrow> ('f, 'e) actor \<Rightarrow> ('f, 'e) progress" where
  "dispatch_step env a =
     (case sa_batch a of
        None \<Rightarrow> (False, a)
      | Some b \<Rightarrow>
          if tb_generation b \<noteq> sa_generation a then (False, cancel_tool_turn a)
          else if \<not> sa_admission_open a then (False, terminalize_tool_round env RoundShuttingDown a)
          else if length (tb_calls b) \<le> tb_next b then (False, finish_tool_batch env b a)
          else (let call = tb_calls b ! tb_next b;
                    (now_ms, a1) = read_clock env (a\<lparr>sa_batch := Some (b\<lparr>tb_next := tb_next b + 1\<rparr>)\<rparr>);
                    (budget, rounds) = budget_for_next_call now_ms (sa_rounds a1);
                    a2 = a1\<lparr>sa_rounds := rounds\<rparr>
                in (case budget of
                      None \<Rightarrow> (False, terminalize_tool_round env ExecutionBudgetExceeded a2)
                    | Some n \<Rightarrow> dispatch_call env call n a2)))"

primrec dispatch_loop :: "nat \<Rightarrow> ('f, 'e) session_env \<Rightarrow> ('f, 'e) actor \<Rightarrow> ('f, 'e) actor" where
  "dispatch_loop 0 env a = a"
| "dispatch_loop (Suc n) env a =
     (case dispatch_step env a of (True, a1) \<Rightarrow> dispatch_loop n env a1 | (False, a1) \<Rightarrow> a1)"

text \<open>The calls of the batch not yet started; one more pass finishes it.\<close>

definition calls_left :: "('f, 'e) actor \<Rightarrow> nat" where
  "calls_left a = (case sa_batch a of None \<Rightarrow> 0 | Some b \<Rightarrow> length (tb_calls b) - tb_next b)"

definition dispatch_next_tool :: "('f, 'e) session_env \<Rightarrow> ('f, 'e) actor \<Rightarrow> ('f, 'e) actor" where
  "dispatch_next_tool env a = dispatch_loop (Suc (calls_left a)) env a"

definition complete_tool_call ::
    "('f, 'e) session_env \<Rightarrow> tool_call \<Rightarrow> rstr + json \<Rightarrow> ('f, 'e) actor \<Rightarrow> ('f, 'e) actor" where
  "complete_tool_call env call result a = dispatch_next_tool env (record_result env call result a)"

definition start_tool_batch :: "('f, 'e) session_env \<Rightarrow> tool_call list \<Rightarrow> ('f, 'e) actor \<Rightarrow> ('f, 'e) actor" where
  "start_tool_batch env calls a =
     (if calls = [] then fail_speech_delivery env a
      else if \<not> sa_admission_open a then terminalize_turn_failure env (ToolFailure RoundShuttingDown) a
      else if tl_max_calls_per_round (tr_limits (sa_rounds a)) < length calls
      then terminalize_turn_failure env (ToolFailure CallLimitExceeded) a
      else dispatch_next_tool env
        (a\<lparr>sa_batch := Some \<lparr>tb_generation = sa_generation a, tb_calls = calls, tb_completed = [], tb_next = 0,
            tb_results = [], tb_direct = None, tb_in_flight = None, tb_delivery = round_result_delivery calls a\<rparr>\<rparr>))"

section \<open>Completions\<close>

definition answers_call :: "async_completion \<Rightarrow> ('f, 'e) actor \<Rightarrow> tool_call option" where
  "answers_call c a =
     (case Option.bind (sa_batch a) tb_in_flight of
        None \<Rightarrow> None
      | Some f \<Rightarrow>
          if call_id (if_call f) = ac_call_id c \<and> if_turn f = ac_turn c \<and> if_generation f = ac_generation c
          then Some (if_call f) else None)"

definition text_result :: "('f, 'e) session_env \<Rightarrow> json \<Rightarrow> json" where
  "text_result env v =
     JObject [(lit ''content'', JArray [JObject [(lit ''type'', jstr ''text''), text_field ''text'' (se_jtext env v)]])]"

definition apply_completion ::
    "('f, 'e) session_env \<Rightarrow> async_completion \<Rightarrow> ('f, 'e) actor \<Rightarrow> ('f, 'e) actor" where
  "apply_completion env c a =
     (case answers_call c a of
        None \<Rightarrow> a
      | Some call \<Rightarrow>
          (case ac_outcome c of
             ExternalDone outcome \<Rightarrow> dispatch_next_tool env (record_external env call outcome a)
           | SystemDone (Inr v) \<Rightarrow> complete_tool_call env call (Inr (text_result env v)) (clear_in_flight a)
           | SystemDone (Inl e) \<Rightarrow> complete_tool_call env call (Inl e) (clear_in_flight a)
           | ServerDone (Inr v) \<Rightarrow>
               complete_tool_call env call (Inr (text_result env v))
                 (let a1 = clear_in_flight a
                  in if is_memory_write_tool_name (call_name call) then a1\<lparr>sa_memory_receipt := Some (ac_turn c)\<rparr> else a1)
           | ServerDone (Inl code) \<Rightarrow> complete_tool_call env call (Inl code) (clear_in_flight a)))"

definition drain_async_call_completions :: "('f, 'e) session_env \<Rightarrow> ('f, 'e) actor \<Rightarrow> ('f, 'e) actor" where
  "drain_async_call_completions env a =
     fold (apply_completion env) (sa_async a) (a\<lparr>sa_async := []\<rparr>)"

definition complete_job_submit ::
    "('f, 'e) session_env \<Rightarrow> rstr \<Rightarrow> turn_id \<Rightarrow> u64 \<Rightarrow> rstr \<Rightarrow> json \<Rightarrow> ('f, 'e) actor \<Rightarrow> ('f, 'e) actor" where
  "complete_job_submit env session_id t generation cid outcome a =
     (case (sa_job_pending a, Option.bind (sa_batch a) tb_in_flight) of
        (Some p, Some f) \<Rightarrow>
          if session_id \<noteq> sa_session_id a \<or> sa_generation a \<noteq> generation \<or> current_turn_id a \<noteq> Some t \<or>
             pj_turn p \<noteq> t \<or> pj_generation p \<noteq> generation \<or> call_id (pj_call p) \<noteq> cid \<or>
             call_id (if_call f) \<noteq> cid \<or> if_turn f \<noteq> t \<or> if_generation f \<noteq> generation
          then a
          else complete_tool_call env (pj_call p) (Inr outcome) (clear_in_flight (a\<lparr>sa_job_pending := None\<rparr>))
      | _ \<Rightarrow> a)"

definition expire_job_submit :: "('f, 'e) session_env \<Rightarrow> ('f, 'e) actor \<Rightarrow> ('f, 'e) actor" where
  "expire_job_submit env a =
     (case sa_job_pending a of
        None \<Rightarrow> a
      | Some p \<Rightarrow>
          let (now_ms, a1) = read_clock env a in
          if now_ms < pj_deadline p then a1
          else let a2 = clear_in_flight (a1\<lparr>sa_job_pending := None\<rparr>) in
               if pj_generation p = sa_generation a2 \<and> current_turn_id a2 = Some (pj_turn p)
               then complete_tool_call env (pj_call p) (Inr (voice_rejection (lit ''submission_outcome_unknown''))) a2
               else a2)"

section \<open>Device discovery and answers\<close>

definition request_tools_page :: "('f, 'e) session_env \<Rightarrow> rstr option \<Rightarrow> ('f, 'e) actor \<Rightarrow> ('f, 'e) actor" where
  "request_tools_page env cursor a =
     (case next_mcp_request_id a of
        (None, a1) \<Rightarrow> mcp_discovery_failed a1
      | (Some i, a1) \<Rightarrow> send_mcp env (McpToolsList i cursor) None McpListing (dm_discovery_timeout (sa_mcp a1)) a1)"

definition begin_mcp_discovery :: "('f, 'e) session_env \<Rightarrow> ('f, 'e) actor \<Rightarrow> ('f, 'e) actor" where
  "begin_mcp_discovery env a =
     (if \<not> dm_enabled (sa_mcp a) \<or> dm_failed (sa_mcp a) \<or> dm_ready (sa_mcp a) then a
      else (case next_mcp_request_id a of
              (None, a1) \<Rightarrow> a1\<lparr>sa_mcp := (sa_mcp a1)\<lparr>dm_failed := True\<rparr>\<rparr>
            | (Some i, a1) \<Rightarrow>
                send_mcp env (McpInitialize i (dm_vision (sa_mcp a1))) None McpInitializing
                  (dm_discovery_timeout (sa_mcp a1)) a1))"

definition complete_tools_discovery :: "('f, 'e) actor \<Rightarrow> ('f, 'e) actor" where
  "complete_tools_discovery a =
     (let a1 = a\<lparr>sa_mcp := (sa_mcp a)\<lparr>dm_discovered := []\<rparr>\<rparr> in
      case visible_tools (dm_discovered (sa_mcp a)) of
        None \<Rightarrow> mcp_discovery_failed a1
      | Some visible \<Rightarrow> a1\<lparr>sa_mcp := (sa_mcp a1)\<lparr>dm_visible := visible, dm_ready := True\<rparr>\<rparr>)"

definition on_tools_page :: "('f, 'e) session_env \<Rightarrow> json option \<Rightarrow> ('f, 'e) actor \<Rightarrow> ('f, 'e) actor" where
  "on_tools_page env response a =
     (case Option.bind response parse_tools_page of
        None \<Rightarrow> mcp_discovery_failed a
      | Some (tools, cursor) \<Rightarrow>
          let a1 = a\<lparr>sa_mcp := (sa_mcp a)\<lparr>dm_discovered := dm_discovered (sa_mcp a) @ tools\<rparr>\<rparr>
          in if cursor = None then complete_tools_discovery a1 else request_tools_page env cursor a1)"

definition on_mcp_answer ::
    "('f, 'e) session_env \<Rightarrow> u64 \<Rightarrow> rstr + json \<Rightarrow> ('f, 'e) actor \<Rightarrow> ('f, 'e) actor" where
  "on_mcp_answer env i response a =
     (case hm_get (dm_pending (sa_mcp a)) i of
        None \<Rightarrow> a
      | Some p \<Rightarrow>
          let a1 = a\<lparr>sa_mcp := (sa_mcp a)\<lparr>dm_pending := hm_remove i (dm_pending (sa_mcp a))\<rparr>\<rparr> in
          if pm_generation p \<noteq> None \<and> pm_generation p \<noteq> Some (sa_generation a1) then a1
          else (case pm_kind p of
                  McpInitializing \<Rightarrow>
                    (case response of Inr _ \<Rightarrow> request_tools_page env None a1 | Inl _ \<Rightarrow> mcp_discovery_failed a1)
                | McpListing \<Rightarrow>
                    on_tools_page env (case response of Inr v \<Rightarrow> Some v | Inl _ \<Rightarrow> None) a1
                | McpCalling call \<Rightarrow> complete_tool_call env call response a1))"

definition on_mcp_message :: "('f, 'e) session_env \<Rightarrow> mcp_incoming \<Rightarrow> ('f, 'e) actor \<Rightarrow> ('f, 'e) actor" where
  "on_mcp_message env incoming a =
     (case incoming of
        McpResult i v \<Rightarrow> on_mcp_answer env i (Inr v) a
      | McpError i _ _ \<Rightarrow> on_mcp_answer env i (Inl (lit ''device_tool_error'')) a
      | McpNotification _ _ \<Rightarrow> a)"

definition expire_mcp_request :: "('f, 'e) session_env \<Rightarrow> u64 \<Rightarrow> ('f, 'e) actor \<Rightarrow> ('f, 'e) actor" where
  "expire_mcp_request env i a =
     (case hm_get (dm_pending (sa_mcp a)) i of
        None \<Rightarrow> a
      | Some p \<Rightarrow>
          let a1 = a\<lparr>sa_mcp := (sa_mcp a)\<lparr>dm_pending := hm_remove i (dm_pending (sa_mcp a))\<rparr>\<rparr> in
          (case pm_kind p of
             McpCalling call \<Rightarrow> complete_tool_call env call (Inl (lit ''timeout'')) a1
           | _ \<Rightarrow> mcp_discovery_failed a1))"

definition expire_mcp_requests :: "('f, 'e) session_env \<Rightarrow> ('f, 'e) actor \<Rightarrow> ('f, 'e) actor" where
  "expire_mcp_requests env a =
     (let (now_ms, a1) = read_clock env a
      in fold (expire_mcp_request env) (map fst (filter (\<lambda>(i, p). pm_deadline p \<le> now_ms) (dm_pending (sa_mcp a1)))) a1)"

end
