(* ===== verification/Session_Listening.thy ===== *)
theory Session_Listening
  imports Session_Tools
begin

text \<open>
  What a client says and what recognition answers (\<open>session/actor/listening.rs\<close>, \<open>observe.rs\<close>, \<open>speaker.rs\<close>, the client
  half of \<open>ingress.rs\<close>): listening modes, the utterance and its boundaries, the transcript, the advisory
  identification of the speaker that it may wait for, barge-in, abort, and audio frames.
\<close>

section \<open>The speaker of an utterance\<close>

definition observe_retain :: "'f list \<Rightarrow> ('f, 'e) actor \<Rightarrow> ('f, 'e) actor" where
  "observe_retain samples a =
     (if sa_observe a = None then a
      else let remaining = saturating_sub OBSERVE_MAX_SAMPLES (length (sa_observe_pcm a))
           in if remaining = 0 then a
              else a\<lparr>sa_observe_pcm := sa_observe_pcm a @ take (min remaining (length samples)) samples\<rparr>)"

fun speaker_status_name :: "speaker_status \<Rightarrow> string" where
  "speaker_status_name Verifying = ''verifying''"
| "speaker_status_name Verified = ''verified''"
| "speaker_status_name UnknownSpeaker = ''unknown''"
| "speaker_status_name InsufficientAudio = ''insufficient_audio''"
| "speaker_status_name SpeakerUnavailable = ''unavailable''"

definition send_speaker_state :: "('f, 'e) session_env \<Rightarrow> speaker_status \<Rightarrow> ('f, 'e) actor \<Rightarrow> ('f, 'e) actor" where
  "send_speaker_state env status a =
     snd (send_control_lane (SpeakerStatus (se_jtext env (JObject
       [(lit ''type'', jstr ''speaker''), (lit ''state'', jstr (speaker_status_name status))]))) a)"

definition turn_number :: "('f, 'e) actor \<Rightarrow> u64" where
  "turn_number a = (case current_turn_id a of None \<Rightarrow> 0 | Some t \<Rightarrow> turn_id_get t)"

definition observe_utterance_boundary :: "('f, 'e) session_env \<Rightarrow> ('f, 'e) actor \<Rightarrow> ('f, 'e) actor" where
  "observe_utterance_boundary env a =
     (let a1 = (forget_identification a)\<lparr>sa_ident_finished := False\<rparr> in
      case sa_observe a1 of
        None \<Rightarrow> a1
      | Some _ \<Rightarrow>
          let samples = sa_observe_pcm a1;
              a2 = a1\<lparr>sa_observe_pcm := []\<rparr>
          in if samples = [] \<or> sa_observing a2
             then a2\<lparr>sa_ident_diagnostic := Some
                    \<lparr>od_turn = turn_number a2, od_generation = sa_generation a2,
                     od_outcome = (if samples = [] then InsufficientAudio else SpeakerUnavailable), od_best = None\<rparr>\<rparr>
             else let a3 = a2\<lparr>sa_observing := True, sa_next_operation := min (sa_next_operation a2 + 1) U64_MAX\<rparr>;
                      a4 = (if sa_speaker_status a3 then send_speaker_state env Verifying a3 else a3)
                  in snd (worker_call env
                       (CallObserve (sa_next_operation a) (turn_number a) (sa_generation a) samples) a4))"

text \<open>What the scoring task does when it ends: the latch, the diagnostic, and a status frame.\<close>

definition observe_finished ::
    "('f, 'e) session_env \<Rightarrow> observe_diagnostic \<Rightarrow> ('f, 'e) actor \<Rightarrow> ('f, 'e) actor" where
  "observe_finished env d a =
     (let a1 = a\<lparr>sa_observing := False, sa_diagnostics := sa_diagnostics a @ [d]\<rparr>
      in if sa_speaker_status a1 \<and> gate_admits (sa_gate a1) (od_generation d)
         then send_speaker_state env (od_outcome d) a1 else a1)"

definition speaker_of :: "speaker_observe option \<Rightarrow> observe_diagnostic option \<Rightarrow> speaker_context option" where
  "speaker_of observe diagnostic =
     Option.bind diagnostic (\<lambda>d.
       if od_outcome d \<noteq> Verified then None
       else Option.bind observe (\<lambda>ob.
            map_option (\<lambda>c. \<lparr>sp_name = oc_key c, sp_description = oc_description c\<rparr>)
              (find (\<lambda>c. Some (oc_id c) = od_best d) (ob_candidates ob))))"

definition deliver_identified ::
    "('f, 'e) session_env \<Rightarrow> rstr \<Rightarrow> observe_diagnostic option \<Rightarrow> ('f, 'e) actor \<Rightarrow> ('f, 'e) actor" where
  "deliver_identified env s diagnostic a =
     (let a1 = (forget_identification a)\<lparr>sa_speaker := speaker_of (sa_observe a) diagnostic\<rparr>
      in (case commit_user_text env s a1 of
            (Some _, a2) \<Rightarrow> begin_speech_delivery env a2
          | (None, a2) \<Rightarrow> complete_recognition env a2))"

definition on_identification_final :: "('f, 'e) session_env \<Rightarrow> rstr \<Rightarrow> ('f, 'e) actor \<Rightarrow> ('f, 'e) actor" where
  "on_identification_final env s a =
     (if sa_ident_finished a then a
      else (case sa_ident_diagnostic a of
              Some d \<Rightarrow> deliver_identified env s (Some d) (a\<lparr>sa_ident_diagnostic := None\<rparr>)
            | None \<Rightarrow>
                let (now_ms, a1) = read_clock env (a\<lparr>sa_ident_text := Some s\<rparr>);
                    timeout = (case sa_observe a1 of None \<Rightarrow> 10000 | Some ob \<Rightarrow> ob_join_timeout ob)
                in a1\<lparr>sa_ident_deadline := Some (now_ms + timeout)\<rparr>))"

definition on_identification_diagnostic ::
    "('f, 'e) session_env \<Rightarrow> observe_diagnostic \<Rightarrow> ('f, 'e) actor \<Rightarrow> ('f, 'e) actor" where
  "on_identification_diagnostic env d a =
     (if sa_ident_finished a \<or> sa_observe a = None \<or> od_generation d \<noteq> sa_generation a \<or>
         Some (od_turn d) \<noteq> map_option turn_id_get (current_turn_id a)
      then a
      else (case sa_ident_text a of
              Some s \<Rightarrow> deliver_identified env s (Some d) (a\<lparr>sa_ident_text := None\<rparr>)
            | None \<Rightarrow> a\<lparr>sa_ident_diagnostic := Some d\<rparr>))"

definition expire_identification_wait :: "('f, 'e) session_env \<Rightarrow> ('f, 'e) actor \<Rightarrow> ('f, 'e) actor" where
  "expire_identification_wait env a =
     (case sa_ident_deadline a of
        None \<Rightarrow> a
      | Some deadline \<Rightarrow>
          let (now_ms, a1) = read_clock env a in
          if now_ms < deadline then a1
          else let a2 = a1\<lparr>sa_ident_deadline := None\<rparr> in
               (case sa_ident_text a2 of
                  None \<Rightarrow> a2
                | Some s \<Rightarrow> deliver_identified env s None (a2\<lparr>sa_ident_text := None\<rparr>)))"

section \<open>Listening\<close>

definition capturing_vad :: "listen_mode option \<Rightarrow> bool" where
  "capturing_vad mode \<longleftrightarrow> mode = Some ModeAuto \<or> mode = Some ModeRealtime"

definition restart_existing_vad_capture_cycle :: "('f, 'e) session_env \<Rightarrow> ('f, 'e) actor \<Rightarrow> ('f, 'e) actor" where
  "restart_existing_vad_capture_cycle env a =
     (case sa_vad_session a of
        None \<Rightarrow> a
      | Some (lease, _) \<Rightarrow>
          if sa_auto_reset a then a
          else let was_speaking = (sa_phase a = Speaking);
                   (cancelled, a1) =
                     (case sa_asr_stream a of
                        None \<Rightarrow> (True, a)
                      | Some (asr, identity) \<Rightarrow>
                          (case worker_call env (CallAsrSend (sa_asr a) asr AsrCancel) (a\<lparr>sa_asr_stream := None\<rparr>) of
                             (False, a') \<Rightarrow> (False, fail_closed env a')
                           | (True, a') \<Rightarrow>
                               (True, release_active_turn env
                                  (a'\<lparr>sa_asr_cleanup := insert identity (sa_asr_cleanup a')\<rparr>))))
               in if \<not> cancelled then a1
                  else (case reset_vad_capture_cycle env lease
                          (a1\<lparr>sa_auto_speech := False, sa_retention := retention_reset (sa_retention a1),
                              sa_segmenter := vad_reset (sa_segmenter a1)\<rparr>) of
                          (False, a2) \<Rightarrow> fail_closed env a2
                        | (True, a2) \<Rightarrow>
                            (let a3 = a2\<lparr>sa_auto_reset := True\<rparr>
                             in if was_speaking then a3 else a3\<lparr>sa_phase := Processing\<rparr>)))"

definition start_listening :: "('f, 'e) session_env \<Rightarrow> listen_mode \<Rightarrow> ('f, 'e) actor \<Rightarrow> ('f, 'e) actor" where
  "start_listening env mode a =
     (let same_vad_mode = (capturing_vad (Some mode) \<and> sa_mode a = Some mode) in
      if same_vad_mode \<and> (sa_auto_speech a \<or> sa_asr_stream a \<noteq> None) then a
      else if sa_turn a \<noteq> None \<or> sa_phase a = Processing \<or> sa_phase a = Speaking
      then a\<lparr>sa_mode := Some mode, sa_arm_pending := True\<rparr>
      else if same_vad_mode \<and> sa_vad_session a \<noteq> None then restart_existing_vad_capture_cycle env a
      else replace_listening_mode env mode a)"

definition finish_manual :: "('f, 'e) session_env \<Rightarrow> ('f, 'e) actor \<Rightarrow> ('f, 'e) actor" where
  "finish_manual env a =
     (case begin_active_turn env a of
        (None, a1) \<Rightarrow> complete_recognition env (cancel_asr env a1)
      | (Some _, a1) \<Rightarrow>
          let a2 = observe_utterance_boundary env a1 in
          (case sa_asr_stream a2 of
             None \<Rightarrow> release_active_turn env a2
           | Some (lease, _) \<Rightarrow>
               (case worker_call env (CallAsrSend (sa_asr a2) lease AsrFinish) a2 of
                  (True, a3) \<Rightarrow> a3
                | (False, a3) \<Rightarrow> (release_active_turn env (cancel_asr env a3))\<lparr>sa_phase := Ready\<rparr>)))"

text \<open>\<open>listen:stop\<close>\<close>

definition stop_manual :: "('f, 'e) session_env \<Rightarrow> ('f, 'e) actor \<Rightarrow> ('f, 'e) actor" where
  "stop_manual env a =
     (case capture_stop (sa_manual a) of
        (Utterance _, m) \<Rightarrow> finish_manual env (a\<lparr>sa_manual := m, sa_phase := Processing\<rparr>)
      | (_, m) \<Rightarrow>
          notify_if_idle
            ((emit_turn_status env ''rejected'' (Some ''empty_capture'')
               ((cancel_asr env (a\<lparr>sa_manual := m\<rparr>))\<lparr>sa_phase := Ready\<rparr>))\<lparr>sa_status_active := False\<rparr>))"

definition stop_vad_capture :: "('f, 'e) session_env \<Rightarrow> ('f, 'e) actor \<Rightarrow> ('f, 'e) actor" where
  "stop_vad_capture env a =
     (let a1 = (leave_capture (close_vad env a))\<lparr>sa_vad_session := None, sa_mode := None, sa_arm_pending := False\<rparr>
      in if sa_turn a1 = None then notify_if_idle ((cancel_asr env a1)\<lparr>sa_phase := Ready\<rparr>) else a1)"

definition detach_asr_for_detect :: "('f, 'e) session_env \<Rightarrow> ('f, 'e) actor \<Rightarrow> bool \<times> ('f, 'e) actor" where
  "detach_asr_for_detect env a =
     (case sa_asr_stream a of
        None \<Rightarrow> (False, fail_closed env a)
      | Some (lease, identity) \<Rightarrow>
          (case worker_call env (CallAsrSend (sa_asr a) lease AsrCancel) (a\<lparr>sa_asr_stream := None\<rparr>) of
             (False, a1) \<Rightarrow> (False, fail_closed env a1)
           | (True, a1) \<Rightarrow> (True, a1\<lparr>sa_asr_cleanup := insert identity (sa_asr_cleanup a1)\<rparr>)))"

definition detach_for_detect :: "('f, 'e) session_env \<Rightarrow> ('f, 'e) actor \<Rightarrow> bool \<times> ('f, 'e) actor" where
  "detach_for_detect env a =
     (case sa_mode a of
        Some ModeManual \<Rightarrow> detach_asr_for_detect env a
      | Some ModeAuto \<Rightarrow>
          let a1 = a\<lparr>sa_auto_speech := False, sa_retention := retention_reset (sa_retention a)\<rparr>
          in if sa_asr_stream a1 = None then (True, a1) else detach_asr_for_detect env a1
      | _ \<Rightarrow> (False, a))"

definition accept_detect :: "('f, 'e) session_env \<Rightarrow> rstr \<Rightarrow> ('f, 'e) actor \<Rightarrow> ('f, 'e) actor" where
  "accept_detect env input a =
     (let auto_rearming = (sa_mode a = Some ModeAuto \<and> sa_auto_reset a \<and> sa_phase a = Processing) in
      if sa_phase a \<noteq> Listening \<and> \<not> auto_rearming then a
      else (case normalize_detect_text input of
              None \<Rightarrow>
                if sa_turn_status a
                then (cancel_asr env ((emit_turn_status env ''rejected'' (Some ''invalid_text'') a)
                        \<lparr>sa_status_active := False\<rparr>))\<lparr>sa_phase := Ready\<rparr>
                else a
            | Some s \<Rightarrow>
                (case detach_for_detect env (a\<lparr>sa_manual := capture_reset (sa_manual a)\<rparr>) of
                   (False, a1) \<Rightarrow> a1
                 | (True, a1) \<Rightarrow>
                     (case begin_active_turn env a1 of
                        (None, a2) \<Rightarrow> a2\<lparr>sa_phase := Ready\<rparr>
                      | (Some _, a2) \<Rightarrow>
                          (case commit_user_text env s (a2\<lparr>sa_phase := Processing\<rparr>) of
                             (Some _, a3) \<Rightarrow> begin_speech_delivery env a3
                           | (None, a3) \<Rightarrow> (release_active_turn env a3)\<lparr>sa_phase := Ready\<rparr>)))))"

definition on_listen_command :: "('f, 'e) session_env \<Rightarrow> listen_command \<Rightarrow> ('f, 'e) actor \<Rightarrow> ('f, 'e) actor" where
  "on_listen_command env c a =
     (let (admitted, a1) = (if c = ListenStop then (True, release_pipeline_if_idle env a)
                            else admit_pipeline env (release_pipeline_if_idle env a)) in
      if \<not> admitted then emit_turn_status env ''rejected'' (Some ''pipeline_capacity'') a1
      else (case c of
              ListenStart mode \<Rightarrow> start_listening env mode a1
            | ListenDetect s \<Rightarrow> accept_detect env s a1
            | ListenStop \<Rightarrow>
                if sa_mode a1 = Some ModeManual \<and> sa_phase a1 = Listening then stop_manual env a1
                else if capturing_vad (sa_mode a1) then stop_vad_capture env a1
                else a1))"

section \<open>Abort\<close>

definition abort_auto_turn :: "('f, 'e) session_env \<Rightarrow> ('f, 'e) actor \<Rightarrow> ('f, 'e) actor" where
  "abort_auto_turn env a =
     (let a1 = a\<lparr>sa_auto_speech := False, sa_retention := retention_reset (sa_retention a),
                 sa_segmenter := vad_reset (sa_segmenter a)\<rparr>
      in if sa_auto_reset a1 then a1
         else (case sa_vad_session a1 of
                 None \<Rightarrow> a1\<lparr>sa_phase := Ready\<rparr>
               | Some (lease, _) \<Rightarrow>
                   (case reset_vad_capture_cycle env lease a1 of
                      (True, a2) \<Rightarrow> a2\<lparr>sa_auto_reset := True, sa_phase := Processing\<rparr>
                    | (False, a2) \<Rightarrow> fail_closed env a2)))"

definition abort_active_interaction :: "('f, 'e) session_env \<Rightarrow> ('f, 'e) actor \<Rightarrow> ('f, 'e) actor" where
  "abort_active_interaction env a =
     (if sa_phase a = Closed then a
      else let a1 = a\<lparr>sa_status_outcome := ''cancelled''\<rparr>;
               capture_only = (sa_turn a1 = None \<and> sa_status_active a1);
               a2 = interrupt_active_turn env a1;
               a3 = (if capture_only
                     then (emit_turn_status env ''cancelled'' None a2)\<lparr>sa_status_active := False\<rparr> else a2)
           in (case advance_generation a3 of
                 (False, a4) \<Rightarrow> a4
               | (True, a4) \<Rightarrow>
                   let a5 = a4\<lparr>sa_manual := capture_reset (sa_manual a4)\<rparr> in
                   if capturing_vad (sa_mode a5) \<and> sa_vad_session a5 \<noteq> None then abort_auto_turn env a5
                   else let a6 = close_vad env a5
                        in notify_if_idle (a6\<lparr>sa_mode := None, sa_arm_pending := False, sa_auto_reset := False,
                             sa_retention := retention_reset (sa_retention a6), sa_phase := Ready\<rparr>)))"

section \<open>Recognition\<close>

fun asr_identity :: "asr_event \<Rightarrow> worker_identity" where
  "asr_identity (AsrOpened i) = i"
| "asr_identity (AsrFinal i _) = i"
| "asr_identity (AsrFailed i) = i"
| "asr_identity (AsrCancelled i) = i"
| "asr_identity (AsrFinalTimedOut i) = i"
| "asr_identity (AsrCleanupTimedOut i) = i"

definition asr_cleanup_event :: "('f, 'e) session_env \<Rightarrow> asr_event \<Rightarrow> ('f, 'e) actor \<Rightarrow> ('f, 'e) actor" where
  "asr_cleanup_event env event a =
     (case event of
        AsrOpened _ \<Rightarrow> a
      | AsrFinalTimedOut _ \<Rightarrow> fail_closed env a
      | AsrCleanupTimedOut _ \<Rightarrow> fail_closed env a
      | _ \<Rightarrow> a\<lparr>sa_asr_cleanup := sa_asr_cleanup a - {asr_identity event}\<rparr>)"

definition accept_transcript :: "('f, 'e) session_env \<Rightarrow> rstr \<Rightarrow> ('f, 'e) actor \<Rightarrow> ('f, 'e) actor" where
  "accept_transcript env raw a =
     (let s = normalize_asr_final_text env raw in
      if sa_observe a \<noteq> None then on_identification_final env s a
      else (case commit_user_text env s a of
              (Some _, a1) \<Rightarrow> begin_speech_delivery env a1
            | (None, a1) \<Rightarrow> complete_recognition env a1))"

definition on_asr_event :: "('f, 'e) session_env \<Rightarrow> asr_event \<Rightarrow> ('f, 'e) actor \<Rightarrow> ('f, 'e) actor" where
  "on_asr_event env event a =
     (if asr_identity event \<in> sa_asr_cleanup a then asr_cleanup_event env event a
      else if map_option snd (sa_asr_stream a) \<noteq> Some (asr_identity event) \<or>
              wi_generation (asr_identity event) \<noteq> sa_generation a
      then a
      else (case event of
              AsrOpened _ \<Rightarrow>
                if sa_mode a = Some ModeManual then emit_turn_status env ''listening_ready'' None a else a
            | AsrFailed _ \<Rightarrow>
                if sa_turn_status a \<and> sa_mode a = Some ModeManual \<and> sa_phase a = Listening
                then (emit_turn_status env ''rejected'' (Some ''asr_unavailable'') (a\<lparr>sa_asr_stream := None\<rparr>))
                       \<lparr>sa_status_active := False, sa_phase := Ready\<rparr>
                else complete_recognition env (a\<lparr>sa_asr_stream := None\<rparr>)
            | AsrFinal _ raw \<Rightarrow> accept_transcript env raw (a\<lparr>sa_asr_stream := None\<rparr>)
            | AsrCancelled _ \<Rightarrow> a\<lparr>sa_asr_stream := None\<rparr>
            | _ \<Rightarrow> fail_closed env a))"

section \<open>Voice activity\<close>

definition open_asr_with_retention :: "('f, 'e) session_env \<Rightarrow> 'f list \<Rightarrow> ('f, 'e) actor \<Rightarrow> ('f, 'e) actor" where
  "open_asr_with_retention env retained a =
     (case next_worker_identity (observe_reset (a\<lparr>sa_auto_speech := True\<rparr>)) of
        (None, a1) \<Rightarrow> fail_closed env a1
      | (Some identity, a1) \<Rightarrow>
          (case worker_open env (CallAsrOpen (sa_asr a1) identity) a1 of
             (None, a2) \<Rightarrow> a2\<lparr>sa_retention := retention_reset (sa_retention a2)\<rparr>
           | (Some lease, a2) \<Rightarrow>
               (case push_asr env retained (observe_retain retained (a2\<lparr>sa_asr_stream := Some (lease, identity)\<rparr>)) of
                  (True, a3) \<Rightarrow> a3
                | (False, a3) \<Rightarrow> (cancel_asr env (observe_reset a3))\<lparr>sa_auto_speech := False\<rparr>)))"

definition open_asr_for_vad_speech :: "('f, 'e) session_env \<Rightarrow> u64 \<Rightarrow> ('f, 'e) actor \<Rightarrow> ('f, 'e) actor" where
  "open_asr_for_vad_speech env start a =
     (case retention_range (saturating_sub start (sa_pre_roll a)) (sa_retention a) of
        None \<Rightarrow> fail_closed env a
      | Some retained \<Rightarrow> open_asr_with_retention env retained a)"

definition begin_acoustic_barge_in :: "('f, 'e) session_env \<Rightarrow> u64 \<Rightarrow> ('f, 'e) actor \<Rightarrow> ('f, 'e) actor" where
  "begin_acoustic_barge_in env start a =
     (case retention_range (saturating_sub start (sa_pre_roll a)) (sa_retention a) of
        None \<Rightarrow> fail_closed env a
      | Some retained \<Rightarrow>
          (case advance_generation (interrupt_active_turn env a) of
             (False, a1) \<Rightarrow> a1
           | (True, a1) \<Rightarrow> open_asr_with_retention env retained a1))"

fun vad_identity :: "vad_event \<Rightarrow> worker_identity" where
  "vad_identity (VadOpened i) = i"
| "vad_identity (VadProbability i _ _) = i"
| "vad_identity (VadSpeechStart i _ _) = i"
| "vad_identity (VadSpeechEnd i _ _) = i"
| "vad_identity (VadResetDone i _) = i"
| "vad_identity (VadClosed i) = i"
| "vad_identity (VadFailed i) = i"
| "vad_identity (VadResetTimedOut i) = i"
| "vad_identity (VadCleanupTimedOut i) = i"

definition vad_speech_start :: "('f, 'e) session_env \<Rightarrow> u64 \<Rightarrow> ('f, 'e) actor \<Rightarrow> ('f, 'e) actor" where
  "vad_speech_start env start a =
     (if sa_auto_speech a then a
      else if sa_turn a \<noteq> None
      then (if sa_phase a = Speaking \<and> acoustic_barge_in_allowed a then begin_acoustic_barge_in env start a else a)
      else open_asr_for_vad_speech env start a)"

definition vad_speech_end :: "('f, 'e) session_env \<Rightarrow> ('f, 'e) actor \<Rightarrow> ('f, 'e) actor" where
  "vad_speech_end env a =
     (if \<not> sa_auto_speech a then a
      else let a1 = a\<lparr>sa_auto_speech := False, sa_phase := Processing\<rparr>
           in if sa_asr_stream a1 \<noteq> None then finish_manual env a1 else complete_recognition env a1)"

definition vad_reset_done :: "u64 \<Rightarrow> ('f, 'e) actor \<Rightarrow> ('f, 'e) actor" where
  "vad_reset_done cycle a =
     (let a1 = a\<lparr>sa_auto_reset := False, sa_vad_cycle := Some cycle, sa_pending_cycle := None,
                 sa_retention := retention_reset (sa_retention a), sa_segmenter := vad_reset (sa_segmenter a)\<rparr>
      in notify_if_idle
           (if sa_llm_operation a1 = None \<and> \<not> sa_tts_started a1 then a1\<lparr>sa_phase := Listening\<rparr> else a1))"

definition vad_probability_event ::
    "('f, 'e) session_env \<Rightarrow> vad_probability \<Rightarrow> ('f, 'e) actor \<Rightarrow> ('f, 'e) actor" where
  "vad_probability_event env p a =
     (case vad_observe (sa_segmenter a) p of
        Inl _ \<Rightarrow> fail_closed env a
      | Inr (boundary, s) \<Rightarrow>
          let a1 = a\<lparr>sa_segmenter := s\<rparr> in
          (case boundary of
             None \<Rightarrow> a1
           | Some (SpeechStart start) \<Rightarrow> vad_speech_start env start a1
           | Some (SpeechEnd _) \<Rightarrow> vad_speech_end env a1))"

definition on_vad_event :: "('f, 'e) session_env \<Rightarrow> vad_event \<Rightarrow> ('f, 'e) actor \<Rightarrow> ('f, 'e) actor" where
  "on_vad_event env event a =
     (if map_option snd (sa_vad_session a) \<noteq> Some (vad_identity event) then a
      else (case event of
              VadProbability _ cycle p \<Rightarrow> if sa_vad_cycle a = Some cycle then vad_probability_event env p a else a
            | VadSpeechStart _ cycle start \<Rightarrow> if sa_vad_cycle a = Some cycle then vad_speech_start env start a else a
            | VadSpeechEnd _ cycle _ \<Rightarrow> if sa_vad_cycle a = Some cycle then vad_speech_end env a else a
            | VadResetDone _ cycle \<Rightarrow> if sa_pending_cycle a = Some cycle then vad_reset_done cycle a else a
            | VadClosed _ \<Rightarrow> a\<lparr>sa_vad_session := None\<rparr>
            | VadOpened _ \<Rightarrow> a
            | _ \<Rightarrow> fail_closed env a))"

section \<open>Audio frames\<close>

definition decode_uplink :: "('f, 'e) session_env \<Rightarrow> packet \<Rightarrow> ('f, 'e) actor \<Rightarrow> pcm16 option \<times> ('f, 'e) actor" where
  "decode_uplink env payload a =
     (let ran = a\<lparr>sa_decoded := Suc (sa_decoded a)\<rparr> in
      case uplink_decode (se_decode env (sa_decoded a)) payload of
        Frame frame \<Rightarrow> (Some frame, ran)
      | decode_outcome.Dropped EmptyPacket \<Rightarrow> (None, a)
      | decode_outcome.Dropped PacketTooLarge \<Rightarrow> (None, a)
      | decode_outcome.Dropped _ \<Rightarrow> (None, ran))"

definition defer_switch_ingress :: "('f, 'e) session_env \<Rightarrow> session_event \<Rightarrow> ('f, 'e) actor \<Rightarrow> bool \<times> ('f, 'e) actor" where
  "defer_switch_ingress env event a =
     (if sa_ingress_capacity a \<le> length (sa_deferred a) then (False, fail_closed env a)
      else (True, a\<lparr>sa_deferred := sa_deferred a @ [event]\<rparr>))"

definition vad_frame :: "('f, 'e) session_env \<Rightarrow> 'f list \<Rightarrow> ('f, 'e) actor \<Rightarrow> bool \<times> ('f, 'e) actor" where
  "vad_frame env pcm a =
     (if sa_auto_reset a then (False, a)
      else (case (sa_vad_session a, sa_vad_cycle a) of
              (Some (lease, _), Some cycle) \<Rightarrow>
                let a1 = a\<lparr>sa_retention := retention_push pcm (sa_retention a)\<rparr>;
                    a2 = (if sa_auto_speech a1 then observe_retain pcm a1 else a1)
                in (case worker_call env (CallVadSend (sa_vad a2) lease (VadPush cycle pcm)) a2 of
                      (False, a3) \<Rightarrow> (False, fail_closed env a3)
                    | (True, a3) \<Rightarrow>
                        (let a4 = (if \<not> sa_auto_speech a3 then a3
                                   else (case push_asr env pcm a3 of
                                           (True, a') \<Rightarrow> a'
                                         | (False, a') \<Rightarrow> (cancel_asr env a')\<lparr>sa_asr_stream := None\<rparr>))
                         in (True, a4\<lparr>sa_accepted_frames := sa_accepted_frames a4 + 1\<rparr>)))
            | _ \<Rightarrow> (False, a)))"

definition manual_frame :: "('f, 'e) session_env \<Rightarrow> pcm16 \<Rightarrow> 'f list \<Rightarrow> ('f, 'e) actor \<Rightarrow> bool \<times> ('f, 'e) actor" where
  "manual_frame env frame pcm a =
     (case capture_push frame (sa_manual a) of
        (False, m) \<Rightarrow> (False, cancel_asr env (a\<lparr>sa_manual := m\<rparr>))
      | (True, m) \<Rightarrow>
          let a1 = observe_retain pcm (a\<lparr>sa_manual := m\<rparr>) in
          (case sa_asr_stream a1 of
             None \<Rightarrow> (False, a1\<lparr>sa_phase := Ready\<rparr>)
           | Some (lease, _) \<Rightarrow>
               (case worker_call env (CallAsrSend (sa_asr a1) lease (AsrPush pcm)) a1 of
                  (False, a2) \<Rightarrow>
                    (let a3 = cancel_asr env a2
                     in (False, a3\<lparr>sa_asr_stream := None, sa_manual := capture_reset (sa_manual a3), sa_phase := Ready\<rparr>))
                | (True, a2) \<Rightarrow> (True, a2\<lparr>sa_accepted_frames := sa_accepted_frames a2 + 1\<rparr>))))"

definition on_binary :: "('f, 'e) session_env \<Rightarrow> packet \<Rightarrow> ('f, 'e) actor \<Rightarrow> bool \<times> ('f, 'e) actor" where
  "on_binary env payload a =
     (if sa_boundary a \<noteq> None then
        if sa_max_frame_bytes a < length payload then (False, fail_closed env a)
        else defer_switch_ingress env (ClientAudio payload) a
      else if sa_phase a = Listening \<or>
              (sa_vad_session a \<noteq> None \<and> \<not> sa_auto_reset a \<and> sa_phase a = Speaking \<and> acoustic_barge_in_allowed a) then
        (case decode_uplink env payload a of
           (None, a1) \<Rightarrow> (False, a1)
         | (Some frame, a1) \<Rightarrow>
             (let pcm = map (se_f32 env) frame in
              if capturing_vad (sa_mode a1) then vad_frame env pcm a1 else manual_frame env frame pcm a1))
      else (False, a))"

section \<open>Client messages\<close>

definition own_intent :: "client_message \<Rightarrow> ('f, 'e) actor \<Rightarrow> bool" where
  "own_intent m a \<longleftrightarrow>
     (case m of Listen sid _ \<Rightarrow> inbound_session_matches sid a | Abort sid \<Rightarrow> inbound_session_matches sid a | _ \<Rightarrow> False)"

definition apply_client_message :: "('f, 'e) session_env \<Rightarrow> client_message \<Rightarrow> ('f, 'e) actor \<Rightarrow> ('f, 'e) actor" where
  "apply_client_message env m a =
     (case m of
        Listen sid c \<Rightarrow> if inbound_session_matches sid a then on_listen_command env c a else a
      | Abort sid \<Rightarrow> if inbound_session_matches sid a then abort_active_interaction env a else a
      | Mcp sid payload \<Rightarrow> if inbound_session_matches sid a then on_mcp_message env payload a else a
      | _ \<Rightarrow> a)"

definition on_client_message :: "('f, 'e) session_env \<Rightarrow> client_message \<Rightarrow> ('f, 'e) actor \<Rightarrow> ('f, 'e) actor" where
  "on_client_message env m a =
     (let a1 = (if own_intent m a then a\<lparr>sa_request := sa_request a + 1\<rparr> else a) in
      if sa_boundary a1 \<noteq> None \<and> own_intent m a1 then
        (case m of
           Listen _ _ \<Rightarrow> snd (defer_switch_ingress env (ClientMessage m) a1)
         | _ \<Rightarrow> apply_client_message env m (a1\<lparr>sa_deferred := []\<rparr>))
      else apply_client_message env m a1)"

end
