(* ===== verification/Session_Run.thy ===== *)
theory Session_Run
  imports Session_Listening
begin

text \<open>
  The session between its mailboxes (\<open>session/actor/ingress.rs\<close>, \<open>delivery.rs\<close>, \<open>tools/builtin_actions.rs\<close>, \<open>lifecycle.rs\<close>):
  what the writer reports, the Template boundary, what the model says, the delivery of speech, one tick
  and one event of the loop, and the end of the actor.
\<close>

section \<open>The Template boundary\<close>

definition replay_event :: "('f, 'e) session_env \<Rightarrow> session_event \<Rightarrow> ('f, 'e) actor \<Rightarrow> ('f, 'e) actor" where
  "replay_event env event a =
     (if sa_phase a = Closed then a
      else (case event of
              ClientMessage m \<Rightarrow> on_client_message env m a
            | ClientAudio payload \<Rightarrow> snd (on_binary env payload a)
            | _ \<Rightarrow> a\<lparr>sa_lost := True\<rparr>))"

definition replay_switch_ingress :: "('f, 'e) session_env \<Rightarrow> ('f, 'e) actor \<Rightarrow> ('f, 'e) actor" where
  "replay_switch_ingress env a = fold (replay_event env) (sa_deferred a) (a\<lparr>sa_deferred := []\<rparr>)"

definition rebind_vad :: "('f, 'e) session_env \<Rightarrow> nat \<Rightarrow> ('f, 'e) actor \<Rightarrow> ('f, 'e) actor" where
  "rebind_vad env vad a =
     (if sa_vad a = vad then a
      else let a1 = (close_vad env a)\<lparr>sa_vad_session := None, sa_vad_cycle := None, sa_pending_cycle := None\<rparr>;
               a2 = snd (worker_call env (CallUnregister (sa_vad a1)) a1)
           in (snd (worker_call env (CallRegister vad) a2))\<lparr>sa_vad := vad, sa_vad_events := []\<rparr>)"

definition rebind_asr :: "('f, 'e) session_env \<Rightarrow> nat \<Rightarrow> ('f, 'e) actor \<Rightarrow> ('f, 'e) actor" where
  "rebind_asr env asr a =
     (if sa_asr a = asr then a
      else let a1 = (cancel_asr env a)\<lparr>sa_asr_cleanup := {}\<rparr>;
               a2 = snd (worker_call env (CallUnregister (sa_asr a1)) a1)
           in (snd (worker_call env (CallRegister asr) a2))\<lparr>sa_asr := asr, sa_asr_events := []\<rparr>)"

definition rebind_llm :: "('f, 'e) session_env \<Rightarrow> nat \<Rightarrow> ('f, 'e) actor \<Rightarrow> ('f, 'e) actor" where
  "rebind_llm env llm a =
     (if sa_llm a = llm then a
      else let a1 = snd (worker_call env (CallUnregister (sa_llm a)) a)
           in (snd (worker_call env (CallRegister llm) a1))\<lparr>sa_llm := llm, sa_llm_events := []\<rparr>)"

text \<open>
  A new speech output is made, and with it a stream, before the runtimes are compared. It replaces the old one
  only when the TTS runtime changes.
\<close>

definition rebind_tts :: "nat \<Rightarrow> ('f, 'e) speech_output \<Rightarrow> ('f, 'e) actor \<Rightarrow> ('f, 'e) actor" where
  "rebind_tts tts fresh a =
     (if sa_tts a = tts then a
      else (case sa_tts_world a (sa_tts a) of
              (p, watched) \<Rightarrow>
                let (_, q) = speech_release (sa_speech a) p
                in a\<lparr>sa_tts_world := (sa_tts_world a)(sa_tts a := (q, watched)), sa_tts := tts, sa_speech := fresh\<rparr>))"

definition install_candidate_runtimes ::
    "('f, 'e) session_env \<Rightarrow> agent_runtimes \<Rightarrow> ('f, 'e) actor \<Rightarrow> bool \<times> ('f, 'e) actor" where
  "install_candidate_runtimes env r a =
     (if \<not> se_encoder_ready env then (False, a)
      else (case sa_tts_world a (ar_tts r) of
              (p, watched) \<Rightarrow>
                let (fresh, q) = with_worker (se_speech env) (se_tts_view env (ar_tts r)) (sa_speech_config a) p;
                    a1 = a\<lparr>sa_tts_world := (sa_tts_world a)(ar_tts r := (q, watched))\<rparr>;
                    a2 = rebind_tts (ar_tts r) fresh
                           (rebind_llm env (ar_llm r) (rebind_asr env (ar_asr r) (rebind_vad env (ar_vad r) a1)))
                in (True, a2\<lparr>sa_segmenter := ar_segmenter r, sa_pre_roll := ar_pre_roll r,
                      sa_retention := retention_new
                        (auto_retention_capacity (ar_command_capacity r) (ar_min_speech r) (ar_pre_roll r))\<rparr>)))"

definition switched_to :: "template_profile \<Rightarrow> template_profile \<Rightarrow> template_profile" where
  "switched_to candidate p = candidate\<lparr>tp_revision := min (tp_revision p + 1) U64_MAX\<rparr>"

definition drain_managed_switch_boundary :: "('f, 'e) session_env \<Rightarrow> ('f, 'e) actor \<Rightarrow> ('f, 'e) actor" where
  "drain_managed_switch_boundary env a =
     (case sa_boundary a of
        None \<Rightarrow> a
      | Some prepared \<Rightarrow>
          if sa_asr_cleanup a \<noteq> {} \<or> sa_asr_stream a \<noteq> None \<or> sa_vad_session a \<noteq> None then a
          else (case install_candidate_runtimes env (pp_runtimes prepared) (a\<lparr>sa_boundary := None\<rparr>) of
                  (False, a1) \<Rightarrow> complete_recognition env a1
                | (True, a1) \<Rightarrow>
                    replay_switch_ingress env (complete_recognition env
                      (a1\<lparr>sa_profile := switched_to (pp_profile prepared) (sa_profile a1)\<rparr>))))"

definition begin_managed_switch_boundary ::
    "('f, 'e) session_env \<Rightarrow> prepared_profile \<Rightarrow> ('f, 'e) actor \<Rightarrow> ('f, 'e) actor" where
  "begin_managed_switch_boundary env prepared a =
     (let a1 = close_vad env (cancel_asr env a)
      in case sa_tts_world a1 (sa_tts a1) of
           (p, watched) \<Rightarrow>
             let (so, q) = speech_release (sa_speech a1) p
             in drain_managed_switch_boundary env
                  (a1\<lparr>sa_speech := so, sa_tts_world := (sa_tts_world a1)(sa_tts a1 := (q, watched)),
                      sa_boundary := Some prepared\<rparr>))"

definition apply_template_switch :: "('f, 'e) session_env \<Rightarrow> rstr \<Rightarrow> ('f, 'e) actor \<Rightarrow> ('f, 'e) actor" where
  "apply_template_switch env key a =
     (case find (\<lambda>c. tp_key (fst c) = key) (sc_candidates (sa_catalog a)) of
        None \<Rightarrow> a
      | Some (candidate, runtimes) \<Rightarrow>
          (case install_candidate_runtimes env runtimes a of
             (False, a1) \<Rightarrow> a1
           | (True, a1) \<Rightarrow> a1\<lparr>sa_profile := switched_to candidate (sa_profile a1)\<rparr>))"

fun switch_error_code :: "switch_error \<Rightarrow> string" where
  "switch_error_code SwitchBusy = ''provider_runtime_busy''"
| "switch_error_code SwitchMemoryPressure = ''provider_runtime_memory_pressure''"
| "switch_error_code SwitchTimeout = ''provider_runtime_timeout''"
| "switch_error_code SwitchOther = ''template_switch_unavailable''"

definition drain_template_preparation :: "('f, 'e) session_env \<Rightarrow> ('f, 'e) actor \<Rightarrow> ('f, 'e) actor" where
  "drain_template_preparation env a =
     (case sa_prepare a of
        None \<Rightarrow> a
      | Some q \<Rightarrow>
          if current_turn_id a \<noteq> Some (tq_turn q) \<or> sa_generation a \<noteq> tq_generation q \<or>
             tp_revision (sa_profile a) \<noteq> tq_revision q
          then a\<lparr>sa_prepare := None\<rparr>
          else (case (case tq_completion q of Waiting \<Rightarrow> None | Arrived r \<Rightarrow> Some r | SenderGone \<Rightarrow> Some (Inl SwitchOther)) of
                  None \<Rightarrow> a
                | Some (Inl e) \<Rightarrow> complete_tool_call env (tq_call q) (Inl (lit (switch_error_code e))) (a\<lparr>sa_prepare := None\<rparr>)
                | Some (Inr prepared) \<Rightarrow>
                    complete_tool_call env (tq_call q) (Inr switch_scheduled)
                      (a\<lparr>sa_prepare := None, sa_actions := (sa_actions a)\<lparr>pa_switch :=
                          Some \<lparr>ps_turn = tq_turn q, ps_key = tp_key (pp_profile prepared), ps_prepared = Some prepared\<rparr>\<rparr>\<rparr>)))"

section \<open>What the writer reports\<close>

definition turn_spoken :: "speech_origin \<Rightarrow> bool" where
  "turn_spoken origin \<longleftrightarrow> origin = LlmOrigin \<or> origin = ToolDirect"

definition settle_delivery :: "pending_delivery \<Rightarrow> ('f, 'e) actor \<Rightarrow> ('f, 'e) actor" where
  "settle_delivery d a =
     (let a1 = (if pd_archives d then record_transcript AssistantRole (pd_text d) (pd_turn d) a else a)
      in if turn_spoken (sa_origin a1)
         then a1\<lparr>sa_history := commit_assistant (pd_turn d) (pd_text d) (sa_history a1)\<rparr> else a1)"

definition apply_boundary_actions ::
    "('f, 'e) session_env \<Rightarrow> pending_actions \<Rightarrow> ('f, 'e) actor \<Rightarrow> ('f, 'e) actor" where
  "apply_boundary_actions env actions a =
     (let a1 = (case pa_switch actions of
                  None \<Rightarrow> a
                | Some s \<Rightarrow>
                    (case ps_prepared s of
                       Some prepared \<Rightarrow> begin_managed_switch_boundary env prepared a
                     | None \<Rightarrow> apply_template_switch env (ps_key s) a))
      in if pa_close actions \<noteq> None then close_voice_session_normally env a1 else complete_recognition env a1)"

definition on_turn_closed ::
    "('f, 'e) session_env \<Rightarrow> turn_id \<Rightarrow> writer_outcome \<Rightarrow> ('f, 'e) actor \<Rightarrow> ('f, 'e) actor" where
  "on_turn_closed env t outcome a =
     (let a1 = a\<lparr>sa_writer_pending := sa_writer_pending a - {t}\<rparr> in
      if current_turn_id a1 \<noteq> Some t \<or> (case sa_delivery a1 of None \<Rightarrow> False | Some d \<Rightarrow> pd_turn d \<noteq> t) then a1
      else let a2 = (case sa_delivery a1 of
                       None \<Rightarrow> a1
                     | Some d \<Rightarrow>
                         if outcome = Normal then settle_delivery d (a1\<lparr>sa_delivery := None\<rparr>) else a1\<lparr>sa_delivery := None\<rparr>);
               (actions, rest) = take_for_turn t (sa_actions a2);
               a3 = a2\<lparr>sa_actions := rest, sa_tts_started := False,
                       sa_status_outcome :=
                         (if outcome = Normal then ''completed''
                          else if sa_status_outcome a2 = ''failed'' then ''failed'' else ''cancelled'')\<rparr>;
               a4 = release_active_turn env a3
           in if outcome = Normal then apply_boundary_actions env actions a4 else complete_recognition env a4)"

definition on_writer_event :: "('f, 'e) session_env \<Rightarrow> writer_event \<Rightarrow> ('f, 'e) actor \<Rightarrow> ('f, 'e) actor" where
  "on_writer_event env event a =
     (case event of TurnClosed t outcome \<Rightarrow> on_turn_closed env t outcome a | WriterFailed _ \<Rightarrow> fail_closed env a)"

definition drain_writer_events :: "('f, 'e) session_env \<Rightarrow> ('f, 'e) actor \<Rightarrow> ('f, 'e) actor" where
  "drain_writer_events env a =
     (case sa_writer_events a of
        None \<Rightarrow> a
      | Some events \<Rightarrow> fold (on_writer_event env) events (a\<lparr>sa_writer_events := Some []\<rparr>))"

section \<open>What the model says\<close>

fun llm_identity :: "llm_event \<Rightarrow> worker_identity" where
  "llm_identity (LlmTextDelta i _) = i"
| "llm_identity (LlmToolCall i _) = i"
| "llm_identity (LlmFinished i) = i"
| "llm_identity (LlmFailed i) = i"
| "llm_identity (LlmCancelled i) = i"

definition llm_event_current :: "llm_event \<Rightarrow> ('f, 'e) actor \<Rightarrow> bool" where
  "llm_event_current event a \<longleftrightarrow>
     sa_llm_operation a = Some (llm_identity event) \<and>
     (case sa_turn a of
        None \<Rightarrow> False
      | Some t \<Rightarrow> tc_generation t = wi_generation (llm_identity event) \<and> tc_generation t = sa_generation a)"

definition llm_text :: "('f, 'e) session_env \<Rightarrow> rstr \<Rightarrow> ('f, 'e) actor \<Rightarrow> ('f, 'e) actor" where
  "llm_text env s a =
     (case sa_round a of
        Some r \<Rightarrow> a\<lparr>sa_round := Some (r\<lparr>lr_prose := lr_prose r @ s\<rparr>)\<rparr>
      | None \<Rightarrow> flush_pending_llm_text env (a\<lparr>sa_response := sa_response a @ s, sa_delta := Some (s, 0)\<rparr>))"

definition llm_call :: "('f, 'e) session_env \<Rightarrow> tool_call \<Rightarrow> ('f, 'e) actor \<Rightarrow> ('f, 'e) actor" where
  "llm_call env call a =
     (let a1 = (if sa_round a = None \<and> sa_response a = [] \<and> is_builtin_tool_name (call_name call)
                then a\<lparr>sa_round := Some \<lparr>lr_prose = [], lr_calls = []\<rparr>\<rparr> else a)
      in case sa_round a1 of
           None \<Rightarrow> fail_speech_delivery env a1
         | Some r \<Rightarrow> a1\<lparr>sa_round := Some (r\<lparr>lr_calls := lr_calls r @ [call]\<rparr>)\<rparr>)"

definition llm_finished :: "('f, 'e) session_env \<Rightarrow> ('f, 'e) actor \<Rightarrow> ('f, 'e) actor" where
  "llm_finished env a =
     (let a1 = a\<lparr>sa_llm_operation := None\<rparr> in
      case sa_round a1 of
        None \<Rightarrow> flush_pending_llm_text env (a1\<lparr>sa_finish_pending := True\<rparr>)
      | Some r \<Rightarrow>
          let a2 = a1\<lparr>sa_round := None\<rparr> in
          if lr_calls r \<noteq> [] then start_tool_batch env (lr_calls r) a2
          else flush_pending_llm_text env
                 (a2\<lparr>sa_response := lr_prose r, sa_delta := Some (lr_prose r, 0), sa_finish_pending := True\<rparr>))"

definition on_llm_event :: "('f, 'e) session_env \<Rightarrow> llm_event \<Rightarrow> ('f, 'e) actor \<Rightarrow> ('f, 'e) actor" where
  "on_llm_event env event a =
     (if \<not> llm_event_current event a then a
      else (case event of
              LlmTextDelta _ s \<Rightarrow> llm_text env s a
            | LlmToolCall _ call \<Rightarrow> llm_call env call a
            | LlmFinished _ \<Rightarrow> llm_finished env a
            | _ \<Rightarrow> fail_speech_delivery env (a\<lparr>sa_llm_operation := None\<rparr>)))"

section \<open>The delivery of speech\<close>

definition flush_pending_audio :: "('f, 'e) actor \<Rightarrow> bool \<times> ('f, 'e) actor" where
  "flush_pending_audio a =
     (case sa_pending_audio a of
        None \<Rightarrow> (True, a)
      | Some m \<Rightarrow>
          (case send_audio_lane m (a\<lparr>sa_pending_audio := None\<rparr>) of
             (LaneOk, a1) \<Rightarrow> (True, a1)
           | (LaneFull, a1) \<Rightarrow> (False, a1\<lparr>sa_pending_audio := Some m\<rparr>)
           | (LaneClosed, a1) \<Rightarrow> (False, a1)))"

definition segment_ready :: "('f, 'e) session_env \<Rightarrow> rstr \<Rightarrow> ('f, 'e) actor \<Rightarrow> bool \<times> ('f, 'e) actor" where
  "segment_ready env s a =
     (if sa_origin a \<noteq> LlmOrigin then (True, a)
      else (case send_turn_control (se_jtext env (JObject
                   [text_field ''session_id'' (sa_session_id a), (lit ''type'', jstr ''llm''), text_field ''text'' s])) a of
              (True, a1) \<Rightarrow> (True, a1)
            | (False, a1) \<Rightarrow> (False, fail_speech_delivery env a1)))"

definition speech_started :: "('f, 'e) session_env \<Rightarrow> ('f, 'e) actor \<Rightarrow> bool \<times> ('f, 'e) actor" where
  "speech_started env a =
     (let a1 = a\<lparr>sa_tts_started := True, sa_phase := Speaking\<rparr> in
      case current_turn_id a1 of
        None \<Rightarrow> (False, fail_speech_delivery env a1)
      | Some t \<Rightarrow>
          (case send_control_lane (BeginTurn (sa_generation a1) t (se_jtext env (direct_control ''start'' [] a1))) a1 of
             (False, a2) \<Rightarrow> (False, fail_speech_delivery env a2)
           | (True, a2) \<Rightarrow>
               if sa_origin a2 = LlmOrigin then (True, a2)
               else (case send_turn_control (se_jtext env (JObject
                            [text_field ''session_id'' (sa_session_id a2), (lit ''type'', jstr ''tts''),
                             (lit ''state'', jstr ''sentence_start''), text_field ''text'' (sa_response a2)])) a2 of
                       (True, a3) \<Rightarrow> (True, a3)
                     | (False, a3) \<Rightarrow> (False, fail_speech_delivery env a3))))"

definition speech_packet :: "('f, 'e) session_env \<Rightarrow> packet \<Rightarrow> ('f, 'e) actor \<Rightarrow> bool \<times> ('f, 'e) actor" where
  "speech_packet env p a =
     (case current_turn_id a of
        None \<Rightarrow> (False, fail_speech_delivery env a)
      | Some t \<Rightarrow>
          let m = OutBinary (sa_generation a) t p in
          (case send_audio_lane m a of
             (LaneOk, a1) \<Rightarrow> (True, a1)
           | (LaneFull, a1) \<Rightarrow> (False, a1\<lparr>sa_pending_audio := Some m\<rparr>)
           | (LaneClosed, a1) \<Rightarrow> (False, a1)))"

definition speech_drained :: "('f, 'e) session_env \<Rightarrow> ('f, 'e) actor \<Rightarrow> bool \<times> ('f, 'e) actor" where
  "speech_drained env a =
     (case current_turn_id a of
        None \<Rightarrow> (False, fail_speech_delivery env a)
      | Some t \<Rightarrow>
          (case send_control_lane (FinishTurn t (se_jtext env (direct_control ''stop'' [] a))) a of
             (False, a1) \<Rightarrow> (False, fail_closed env a1)
           | (True, a1) \<Rightarrow>
               (let a2 = a1\<lparr>sa_delivery := Some
                           \<lparr>pd_turn = t, pd_text = sa_response a1, pd_archives = (sa_origin a1 = LlmOrigin)\<rparr>,
                           sa_response := []\<rparr>
                in (False, if sa_writer_events a2 = None then on_turn_closed env t Normal a2 else a2))))"

text \<open>One round of the loop: whether it goes on. A poll that panics, or a loop that never ends, loses the actor.\<close>

definition speech_round :: "('f, 'e) session_env \<Rightarrow> ('f, 'e) actor \<Rightarrow> bool \<times> ('f, 'e) actor" where
  "speech_round env a =
     (let (now_ms, a1) = read_clock env a in
      case speech_poll (se_speech env) now_ms (speech_state_of a1) of
        None \<Rightarrow> (False, a1\<lparr>sa_lost := True\<rparr>)
      | Some (Inl _, st) \<Rightarrow> (False, fail_speech_delivery env (put_speech_state st a1))
      | Some (Inr None, st) \<Rightarrow> (False, put_speech_state st a1)
      | Some (Inr (Some event), st) \<Rightarrow>
          let a2 = put_speech_state st a1 in
          (case event of
             SegmentReady s \<Rightarrow> segment_ready env s a2
           | SpeechStarted \<Rightarrow> speech_started env a2
           | AudioPacket p \<Rightarrow> speech_packet env p a2
           | Drained \<Rightarrow> speech_drained env a2))"

partial_function (option) speech_loop :: "('f, 'e) session_env \<Rightarrow> ('f, 'e) actor \<Rightarrow> ('f, 'e) actor option" where
  "speech_loop env a =
     (case speech_round env a of (goes_on, a1) \<Rightarrow> if goes_on then speech_loop env a1 else Some a1)"

definition drain_speech_output :: "('f, 'e) session_env \<Rightarrow> ('f, 'e) actor \<Rightarrow> ('f, 'e) actor" where
  "drain_speech_output env a =
     (case flush_pending_audio a of
        (False, a1) \<Rightarrow> a1
      | (True, a1) \<Rightarrow> (case speech_loop env a1 of None \<Rightarrow> a1\<lparr>sa_lost := True\<rparr> | Some a2 \<Rightarrow> a2))"

section \<open>One tick\<close>

text \<open>The loop stops while text waits for room; the mailbox only shrinks, so its length is fuel enough.\<close>

primrec llm_loop :: "nat \<Rightarrow> ('f, 'e) session_env \<Rightarrow> ('f, 'e) actor \<Rightarrow> ('f, 'e) actor" where
  "llm_loop 0 env a = a"
| "llm_loop (Suc n) env a =
     (if sa_delta a \<noteq> None \<or> sa_finish_pending a then a
      else (case sa_llm_events a of
              [] \<Rightarrow> a
            | event # rest \<Rightarrow>
                llm_loop n env (flush_pending_llm_text env (drain_speech_output env
                  (on_llm_event env event (a\<lparr>sa_llm_events := rest\<rparr>))))))"

definition drain_llm_events :: "('f, 'e) session_env \<Rightarrow> ('f, 'e) actor \<Rightarrow> ('f, 'e) actor" where
  "drain_llm_events env a = llm_loop (length (sa_llm_events a)) env a"

definition drain_asr_events :: "('f, 'e) session_env \<Rightarrow> ('f, 'e) actor \<Rightarrow> ('f, 'e) actor" where
  "drain_asr_events env a = fold (on_asr_event env) (sa_asr_events a) (a\<lparr>sa_asr_events := []\<rparr>)"

definition drain_vad_events :: "('f, 'e) session_env \<Rightarrow> ('f, 'e) actor \<Rightarrow> ('f, 'e) actor" where
  "drain_vad_events env a = fold (on_vad_event env) (sa_vad_events a) (a\<lparr>sa_vad_events := []\<rparr>)"

definition drain_diagnostics :: "('f, 'e) session_env \<Rightarrow> ('f, 'e) actor \<Rightarrow> ('f, 'e) actor" where
  "drain_diagnostics env a = fold (on_identification_diagnostic env) (sa_diagnostics a) (a\<lparr>sa_diagnostics := []\<rparr>)"

definition drain_provider_events :: "('f, 'e) session_env \<Rightarrow> ('f, 'e) actor \<Rightarrow> ('f, 'e) actor" where
  "drain_provider_events env a =
     (let a1 = drain_template_preparation env (expire_job_submit env
                 (drain_async_call_completions env (expire_mcp_requests env a)));
          a2 = drain_diagnostics env (drain_vad_events env (drain_asr_events env a1));
          a3 = drain_managed_switch_boundary env (release_pipeline_if_idle env (expire_identification_wait env a2))
      in drain_llm_events env (flush_pending_llm_text env a3))"

definition worker_tick :: "('f, 'e) session_env \<Rightarrow> ('f, 'e) actor \<Rightarrow> ('f, 'e) actor" where
  "worker_tick env a = drain_speech_output env (drain_provider_events env (drain_writer_events env a))"

section \<open>One event\<close>

text \<open>A close that waits for room in its lane.\<close>

definition send_close_waiting :: "nat \<Rightarrow> ('f, 'e) actor \<Rightarrow> ('f, 'e) actor" where
  "send_close_waiting code a = (if sa_lanes_open a then a\<lparr>sa_urgent := sa_urgent a @ [OutClose code]\<rparr> else a)"

definition leave_session :: "('f, 'e) session_env \<Rightarrow> nat \<Rightarrow> ('f, 'e) actor \<Rightarrow> bool \<times> ('f, 'e) actor" where
  "leave_session env code a = (False, send_close_waiting code (begin_application_shutdown env a))"

definition direct_speech_event ::
    "('f, 'e) session_env \<Rightarrow> direct_request \<Rightarrow> bool \<Rightarrow> bool \<Rightarrow> ('f, 'e) actor \<Rightarrow> ('f, 'e) actor" where
  "direct_speech_event env request reply_closed reply_lost a =
     (if reply_closed then a
      else (case admit_direct_speech env request a of
              (result, a1) \<Rightarrow>
                if reply_lost \<and> result = Inr () then complete_recognition env (interrupt_active_turn env a1) else a1))"

definition on_session_event ::
    "('f, 'e) session_env \<Rightarrow> session_event \<Rightarrow> ('f, 'e) actor \<Rightarrow> bool \<times> ('f, 'e) actor" where
  "on_session_event env event a =
     (case event of
        JobSubmitCompleted sid t generation cid outcome \<Rightarrow>
          (True, complete_job_submit env sid t generation cid outcome (drain_writer_events env a))
      | DirectSpeech request reply_closed reply_lost \<Rightarrow>
          (True, direct_speech_event env request reply_closed reply_lost (drain_writer_events env a))
      | ReminderControl s \<Rightarrow> (True, snd (send_control s a))
      | ClientMessage m \<Rightarrow>
          if speaker_security_revoked a then leave_session env 1008 a
          else (True, on_client_message env m (drain_writer_events env a))
      | ClientAudio payload \<Rightarrow>
          if speaker_security_revoked a then leave_session env 1008 a
          else (True, snd (on_binary env payload (drain_writer_events env a)))
      | SecurityInvalidated \<Rightarrow> leave_session env 1008 a
      | ShutdownEvent \<Rightarrow> leave_session env 1001 a)"

text \<open>\<open>Drop\<close>\<close>

definition retain_pipeline_until_cleanup :: "('f, 'e) session_env \<Rightarrow> ('f, 'e) actor \<Rightarrow> ('f, 'e) actor" where
  "retain_pipeline_until_cleanup env a =
     (if \<not> se_pilot_work env \<and> se_writer_terminal env then drop_pipeline a else a\<lparr>sa_pipeline_permit := False\<rparr>)"

definition session_drop :: "('f, 'e) session_env \<Rightarrow> ('f, 'e) actor \<Rightarrow> ('f, 'e) actor" where
  "session_drop env a =
     (let a1 = cancel_speech_output env (cancel_llm env (cancel_asr env (a\<lparr>sa_request := sa_request a + 1\<rparr>)));
          a2 = close_vad env (release_active_turn env a1);
          a3 = snd (worker_call env (CallUnregister (sa_asr a2)) a2);
          a4 = snd (worker_call env (CallUnregister (sa_vad a3)) a3);
          a5 = snd (worker_call env (CallUnregister (sa_llm a4)) a4)
      in retain_pipeline_until_cleanup env a5)"

end
