(* ===== verification/Session_Invariant.thy ===== *)
theory Session_Invariant
  imports Session_Run
begin

text \<open>
  What every handler of the session keeps. \<open>sinv jt r a\<close> relates the actor \<open>a\<close> to an earlier state \<open>r\<close>: turn permits
  balance, the lanes only grow by messages of their kind whose generation is not ahead, generations and the
  gate only move forward, the history and the conversation stay well formed, worker operations are fresh,
  and retained data stays bounded. The rules read a handler like a program: one rule for each form.
\<close>

named_theorems sess "introduction rules for the session invariant"

section \<open>The invariant\<close>

definition lane_ext :: "(outbound_message \<Rightarrow> bool) \<Rightarrow> outbound_message list \<Rightarrow> outbound_message list \<Rightarrow> bool" where
  "lane_ext P xs ys \<longleftrightarrow> (\<exists>zs. ys = xs @ zs \<and> list_all P zs)"

definition message_generation :: "outbound_message \<Rightarrow> u64" where
  "message_generation m =
     (case m of TurnText g _ _ \<Rightarrow> g | BeginTurn g _ _ \<Rightarrow> g | OutBinary g _ _ \<Rightarrow> g | _ \<Rightarrow> 0)"

definition permits_balance :: "('f, 'e) actor \<Rightarrow> turn_limiter \<Rightarrow> turn_context option \<Rightarrow> bool" where
  "permits_balance r l t \<longleftrightarrow>
     tl_capacity l = tl_capacity (sa_limiter r) \<and>
     tl_active l + of_bool (sa_turn r \<noteq> None) = tl_active (sa_limiter r) + of_bool (t \<noteq> None) \<and>
     of_bool (t \<noteq> None) \<le> tl_active l \<and> tl_active l \<le> tl_capacity l"

definition turn_fits :: "u64 \<Rightarrow> u64 \<Rightarrow> turn_context option \<Rightarrow> bool" where
  "turn_fits generation next_turn t \<longleftrightarrow>
     (\<forall>c. t = Some c \<longrightarrow> tc_generation c \<le> generation \<and> turn_id_get (tc_turn c) < next_turn)"

definition prompt_shape :: "chat_message list \<Rightarrow> bool" where
  "prompt_shape ms \<longleftrightarrow>
     (case ms of
        [] \<Rightarrow> True
      | m # rest \<Rightarrow> (\<exists>s. m = System s) \<and> list_all (\<lambda>x. \<forall>s. x \<noteq> System s) rest \<and> paired [] rest)"

fun opened :: "'f worker_call list \<Rightarrow> u64 list" where
  "opened [] = []"
| "opened (CallAsrOpen _ i # cs) = wi_stream i # opened cs"
| "opened (CallVadOpen _ i # cs) = wi_stream i # opened cs"
| "opened (CallLlmStart _ i _ # cs) = wi_stream i # opened cs"
| "opened (_ # cs) = opened cs"

definition request_ok :: "(json \<Rightarrow> rstr) \<Rightarrow> llm_request \<Rightarrow> bool" where
  "request_ok jt rq \<longleftrightarrow>
     rq_messages rq \<noteq> [] \<and> prompt_shape (rq_messages rq) \<and> (\<exists>n. llm_request_size_bytes jt rq = Inr n)"

definition call_ok :: "(json \<Rightarrow> rstr) \<Rightarrow> 'f worker_call \<Rightarrow> bool" where
  "call_ok jt c \<longleftrightarrow> (\<forall>n i rq. c = CallLlmStart n i rq \<longrightarrow> request_ok jt rq)"

definition calls_fit :: "(json \<Rightarrow> rstr) \<Rightarrow> u64 \<Rightarrow> 'f worker_call list \<Rightarrow> bool" where
  "calls_fit jt next_operation cs \<longleftrightarrow>
     list_all (call_ok jt) cs \<and> distinct (opened cs) \<and> (\<forall>n\<in>set (opened cs). n < next_operation) \<and>
     next_operation \<le> U64_MAX"

definition batch_fits :: "tool_rounds \<Rightarrow> tool_batch \<Rightarrow> bool" where
  "batch_fits rs b \<longleftrightarrow>
     list_all2 answered_by (tb_completed b) (tb_results b) \<and> tb_next b \<le> length (tb_calls b) \<and>
     length (tb_calls b) \<le> tl_max_calls_per_round (tr_limits rs)"

definition retention_fits :: "'f retention \<Rightarrow> bool" where
  "retention_fits re \<longleftrightarrow> length (re_samples re) \<le> re_capacity re \<and> re_cursor re = re_first re + length (re_samples re)"

definition sinv :: "(json \<Rightarrow> rstr) \<Rightarrow> ('f, 'e) actor \<Rightarrow> ('f, 'e) actor \<Rightarrow> bool" where
  "sinv jt r a \<longleftrightarrow>
     permits_balance r (sa_limiter a) (sa_turn a) \<and>
     turn_fits (sa_generation a) (sa_next_turn a) (sa_turn a) \<and>
     sa_generation r \<le> sa_generation a \<and>
     lane_ext control_message (sa_control r) (sa_control a) \<and>
     lane_ext urgent_message (sa_urgent r) (sa_urgent a) \<and>
     lane_ext audio_message (sa_audio r) (sa_audio a) \<and>
     list_all (\<lambda>m. message_generation m \<le> sa_generation a) (sa_control a) \<and>
     list_all (\<lambda>m. message_generation m \<le> sa_generation a) (sa_audio a) \<and>
     (\<forall>m. sa_pending_audio a = Some m \<longrightarrow> audio_message m \<and> message_generation m \<le> sa_generation a) \<and>
     invalidated_through (sa_gate r) \<le> invalidated_through (sa_gate a) \<and>
     invalidated_through (sa_gate a) \<le> sa_generation a \<and>
     sa_request r \<le> sa_request a \<and>
     history_ok answered_by (sa_history a) \<and> prompt_shape (sa_messages a) \<and>
     (sa_llm_operation a \<noteq> None \<or> sa_batch a \<noteq> None \<longrightarrow> sa_messages a \<noteq> []) \<and>
     calls_fit jt (sa_next_operation a) (sa_calls a) \<and>
     (\<forall>b. sa_batch a = Some b \<longrightarrow> batch_fits (sa_rounds a) b) \<and>
     tr_limits (sa_rounds a) = tr_limits (sa_rounds r) \<and>
     tr_rounds (sa_rounds a) \<le> tl_max_rounds_per_turn (tr_limits (sa_rounds a)) \<and>
     length (sa_observe_pcm a) \<le> OBSERVE_MAX_SAMPLES \<and> retention_fits (sa_retention a) \<and>
     length (sa_deferred a) \<le> sa_ingress_capacity a"

definition pinv :: "(json \<Rightarrow> rstr) \<Rightarrow> ('f, 'e) actor \<Rightarrow> 'b \<times> ('f, 'e) actor \<Rightarrow> bool" where
  "pinv jt r p \<longleftrightarrow> sinv jt r (snd p)"

section \<open>Rules\<close>

text \<open>Fields the invariant does not read.\<close>

lemma sinv_keep [simp]:
  "sinv jt r (a\<lparr>sa_session_id := x0\<rparr>) = sinv jt r a"
  "sinv jt r (a\<lparr>sa_phase := x1\<rparr>) = sinv jt r a"
  "sinv jt r (a\<lparr>sa_pilot := x2\<rparr>) = sinv jt r a"
  "sinv jt r (a\<lparr>sa_pipeline_permit := x3\<rparr>) = sinv jt r a"
  "sinv jt r (a\<lparr>sa_pipeline_status := x4\<rparr>) = sinv jt r a"
  "sinv jt r (a\<lparr>sa_turn_status := x5\<rparr>) = sinv jt r a"
  "sinv jt r (a\<lparr>sa_tool_status := x6\<rparr>) = sinv jt r a"
  "sinv jt r (a\<lparr>sa_status_active := x7\<rparr>) = sinv jt r a"
  "sinv jt r (a\<lparr>sa_status_outcome := x8\<rparr>) = sinv jt r a"
  "sinv jt r (a\<lparr>sa_writer_pending := x9\<rparr>) = sinv jt r a"
  "sinv jt r (a\<lparr>sa_accepted_frames := x10\<rparr>) = sinv jt r a"
  "sinv jt r (a\<lparr>sa_decoded := x11\<rparr>) = sinv jt r a"
  "sinv jt r (a\<lparr>sa_manual := x12\<rparr>) = sinv jt r a"
  "sinv jt r (a\<lparr>sa_asr := x13\<rparr>) = sinv jt r a"
  "sinv jt r (a\<lparr>sa_asr_events := x14\<rparr>) = sinv jt r a"
  "sinv jt r (a\<lparr>sa_asr_stream := x15\<rparr>) = sinv jt r a"
  "sinv jt r (a\<lparr>sa_asr_cleanup := x16\<rparr>) = sinv jt r a"
  "sinv jt r (a\<lparr>sa_vad := x17\<rparr>) = sinv jt r a"
  "sinv jt r (a\<lparr>sa_vad_events := x18\<rparr>) = sinv jt r a"
  "sinv jt r (a\<lparr>sa_vad_session := x19\<rparr>) = sinv jt r a"
  "sinv jt r (a\<lparr>sa_vad_cycle := x20\<rparr>) = sinv jt r a"
  "sinv jt r (a\<lparr>sa_pending_cycle := x21\<rparr>) = sinv jt r a"
  "sinv jt r (a\<lparr>sa_next_cycle := x22\<rparr>) = sinv jt r a"
  "sinv jt r (a\<lparr>sa_mode := x23\<rparr>) = sinv jt r a"
  "sinv jt r (a\<lparr>sa_arm_pending := x24\<rparr>) = sinv jt r a"
  "sinv jt r (a\<lparr>sa_auto_speech := x25\<rparr>) = sinv jt r a"
  "sinv jt r (a\<lparr>sa_auto_reset := x26\<rparr>) = sinv jt r a"
  "sinv jt r (a\<lparr>sa_segmenter := x27\<rparr>) = sinv jt r a"
  "sinv jt r (a\<lparr>sa_pre_roll := x28\<rparr>) = sinv jt r a"
  "sinv jt r (a\<lparr>sa_llm := x29\<rparr>) = sinv jt r a"
  "sinv jt r (a\<lparr>sa_llm_events := x30\<rparr>) = sinv jt r a"
  "sinv jt r (a\<lparr>sa_delta := x31\<rparr>) = sinv jt r a"
  "sinv jt r (a\<lparr>sa_finish_pending := x32\<rparr>) = sinv jt r a"
  "sinv jt r (a\<lparr>sa_response := x33\<rparr>) = sinv jt r a"
  "sinv jt r (a\<lparr>sa_origin := x34\<rparr>) = sinv jt r a"
  "sinv jt r (a\<lparr>sa_direct_request := x35\<rparr>) = sinv jt r a"
  "sinv jt r (a\<lparr>sa_direct_metadata := x36\<rparr>) = sinv jt r a"
  "sinv jt r (a\<lparr>sa_direct_closed := x37\<rparr>) = sinv jt r a"
  "sinv jt r (a\<lparr>sa_tts := x38\<rparr>) = sinv jt r a"
  "sinv jt r (a\<lparr>sa_tts_world := x39\<rparr>) = sinv jt r a"
  "sinv jt r (a\<lparr>sa_speech := x40\<rparr>) = sinv jt r a"
  "sinv jt r (a\<lparr>sa_speech_config := x41\<rparr>) = sinv jt r a"
  "sinv jt r (a\<lparr>sa_tts_started := x42\<rparr>) = sinv jt r a"
  "sinv jt r (a\<lparr>sa_delivery := x43\<rparr>) = sinv jt r a"
  "sinv jt r (a\<lparr>sa_actions := x44\<rparr>) = sinv jt r a"
  "sinv jt r (a\<lparr>sa_prepare := x45\<rparr>) = sinv jt r a"
  "sinv jt r (a\<lparr>sa_boundary := x46\<rparr>) = sinv jt r a"
  "sinv jt r (a\<lparr>sa_max_frame_bytes := x47\<rparr>) = sinv jt r a"
  "sinv jt r (a\<lparr>sa_control_capacity := x48\<rparr>) = sinv jt r a"
  "sinv jt r (a\<lparr>sa_urgent_capacity := x49\<rparr>) = sinv jt r a"
  "sinv jt r (a\<lparr>sa_audio_capacity := x50\<rparr>) = sinv jt r a"
  "sinv jt r (a\<lparr>sa_lanes_open := x51\<rparr>) = sinv jt r a"
  "sinv jt r (a\<lparr>sa_shutdown := x52\<rparr>) = sinv jt r a"
  "sinv jt r (a\<lparr>sa_writer_events := x53\<rparr>) = sinv jt r a"
  "sinv jt r (a\<lparr>sa_client_aec := x54\<rparr>) = sinv jt r a"
  "sinv jt r (a\<lparr>sa_barge_in := x55\<rparr>) = sinv jt r a"
  "sinv jt r (a\<lparr>sa_mcp := x56\<rparr>) = sinv jt r a"
  "sinv jt r (a\<lparr>sa_task_tools := x57\<rparr>) = sinv jt r a"
  "sinv jt r (a\<lparr>sa_job_mailbox := x58\<rparr>) = sinv jt r a"
  "sinv jt r (a\<lparr>sa_job_pending := x59\<rparr>) = sinv jt r a"
  "sinv jt r (a\<lparr>sa_round := x60\<rparr>) = sinv jt r a"
  "sinv jt r (a\<lparr>sa_async := x61\<rparr>) = sinv jt r a"
  "sinv jt r (a\<lparr>sa_max_result_chars := x62\<rparr>) = sinv jt r a"
  "sinv jt r (a\<lparr>sa_profile := x63\<rparr>) = sinv jt r a"
  "sinv jt r (a\<lparr>sa_catalog := x64\<rparr>) = sinv jt r a"
  "sinv jt r (a\<lparr>sa_external := x65\<rparr>) = sinv jt r a"
  "sinv jt r (a\<lparr>sa_external_routes := x66\<rparr>) = sinv jt r a"
  "sinv jt r (a\<lparr>sa_external_guard := x67\<rparr>) = sinv jt r a"
  "sinv jt r (a\<lparr>sa_system := x68\<rparr>) = sinv jt r a"
  "sinv jt r (a\<lparr>sa_reminders := x69\<rparr>) = sinv jt r a"
  "sinv jt r (a\<lparr>sa_memory := x70\<rparr>) = sinv jt r a"
  "sinv jt r (a\<lparr>sa_wiki := x71\<rparr>) = sinv jt r a"
  "sinv jt r (a\<lparr>sa_memory_receipt := x72\<rparr>) = sinv jt r a"
  "sinv jt r (a\<lparr>sa_memory_call := x73\<rparr>) = sinv jt r a"
  "sinv jt r (a\<lparr>sa_transcript := x74\<rparr>) = sinv jt r a"
  "sinv jt r (a\<lparr>sa_observe := x75\<rparr>) = sinv jt r a"
  "sinv jt r (a\<lparr>sa_security_revoked := x76\<rparr>) = sinv jt r a"
  "sinv jt r (a\<lparr>sa_speaker_status := x77\<rparr>) = sinv jt r a"
  "sinv jt r (a\<lparr>sa_observing := x78\<rparr>) = sinv jt r a"
  "sinv jt r (a\<lparr>sa_ident_text := x79\<rparr>) = sinv jt r a"
  "sinv jt r (a\<lparr>sa_ident_diagnostic := x80\<rparr>) = sinv jt r a"
  "sinv jt r (a\<lparr>sa_ident_deadline := x81\<rparr>) = sinv jt r a"
  "sinv jt r (a\<lparr>sa_ident_finished := x82\<rparr>) = sinv jt r a"
  "sinv jt r (a\<lparr>sa_speaker := x83\<rparr>) = sinv jt r a"
  "sinv jt r (a\<lparr>sa_diagnostics := x84\<rparr>) = sinv jt r a"
  "sinv jt r (a\<lparr>sa_admission_open := x85\<rparr>) = sinv jt r a"
  "sinv jt r (a\<lparr>sa_wakeups := x86\<rparr>) = sinv jt r a"
  "sinv jt r (a\<lparr>sa_reminder_failures := x87\<rparr>) = sinv jt r a"
  "sinv jt r (a\<lparr>sa_clock_reads := x88\<rparr>) = sinv jt r a"
  "sinv jt r (a\<lparr>sa_lost := x89\<rparr>) = sinv jt r a"
  by (simp_all add: sinv_def)

lemma pinv_pair [simp]: "pinv jt r (x, a) = sinv jt r a"
  by (simp add: pinv_def)

lemma sinv_snd [sess]: "pinv jt r p \<Longrightarrow> sinv jt r (snd p)"
  by (simp add: pinv_def)

lemma sinv_let [sess]: "sinv jt r t \<Longrightarrow> (\<And>x. sinv jt r x \<Longrightarrow> sinv jt r (f x)) \<Longrightarrow> sinv jt r (let x = t in f x)"
  by (simp add: Let_def)

lemma pinv_let [sess]: "sinv jt r t \<Longrightarrow> (\<And>x. sinv jt r x \<Longrightarrow> pinv jt r (f x)) \<Longrightarrow> pinv jt r (let x = t in f x)"
  by (simp add: Let_def)

lemma sinv_case_prod [sess]:
  "pinv jt r p \<Longrightarrow> (\<And>x y. sinv jt r y \<Longrightarrow> sinv jt r (f x y)) \<Longrightarrow> sinv jt r (case p of (x, y) \<Rightarrow> f x y)"
  by (simp add: pinv_def split_beta)

lemma pinv_case_prod [sess]:
  "pinv jt r p \<Longrightarrow> (\<And>x y. sinv jt r y \<Longrightarrow> pinv jt r (f x y)) \<Longrightarrow> pinv jt r (case p of (x, y) \<Rightarrow> f x y)"
  by (simp add: pinv_def split_beta)

lemma sinv_if [sess]: "(c \<Longrightarrow> sinv jt r x) \<Longrightarrow> (\<not> c \<Longrightarrow> sinv jt r y) \<Longrightarrow> sinv jt r (if c then x else y)"
  by simp

lemma pinv_if [sess]: "(c \<Longrightarrow> pinv jt r x) \<Longrightarrow> (\<not> c \<Longrightarrow> pinv jt r y) \<Longrightarrow> pinv jt r (if c then x else y)"
  by simp

lemma sinv_case_bool [sess]:
  "(c \<Longrightarrow> sinv jt r x) \<Longrightarrow> (\<not> c \<Longrightarrow> sinv jt r y) \<Longrightarrow> sinv jt r (case c of True \<Rightarrow> x | False \<Rightarrow> y)"
  by (cases c) simp_all

lemma pinv_case_bool [sess]:
  "(c \<Longrightarrow> pinv jt r x) \<Longrightarrow> (\<not> c \<Longrightarrow> pinv jt r y) \<Longrightarrow> pinv jt r (case c of True \<Rightarrow> x | False \<Rightarrow> y)"
  by (cases c) simp_all

lemma sinv_case_option [sess]:
  "(p = None \<Longrightarrow> sinv jt r x) \<Longrightarrow> (\<And>y. p = Some y \<Longrightarrow> sinv jt r (f y)) \<Longrightarrow> sinv jt r (case p of None \<Rightarrow> x | Some y \<Rightarrow> f y)"
  by (cases p) simp_all

lemma pinv_case_option [sess]:
  "(p = None \<Longrightarrow> pinv jt r x) \<Longrightarrow> (\<And>y. p = Some y \<Longrightarrow> pinv jt r (f y)) \<Longrightarrow> pinv jt r (case p of None \<Rightarrow> x | Some y \<Rightarrow> f y)"
  by (cases p) simp_all

lemma sinv_case_sum [sess]:
  "(\<And>x. p = Inl x \<Longrightarrow> sinv jt r (f x)) \<Longrightarrow> (\<And>y. p = Inr y \<Longrightarrow> sinv jt r (g y)) \<Longrightarrow>
     sinv jt r (case p of Inl x \<Rightarrow> f x | Inr y \<Rightarrow> g y)"
  by (cases p) simp_all

lemma pinv_case_sum [sess]:
  "(\<And>x. p = Inl x \<Longrightarrow> pinv jt r (f x)) \<Longrightarrow> (\<And>y. p = Inr y \<Longrightarrow> pinv jt r (g y)) \<Longrightarrow>
     pinv jt r (case p of Inl x \<Rightarrow> f x | Inr y \<Rightarrow> g y)"
  by (cases p) simp_all

lemma sinv_fold [sess]:
  "(\<And>x b. sinv jt r b \<Longrightarrow> sinv jt r (f x b)) \<Longrightarrow> sinv jt r a \<Longrightarrow> sinv jt r (fold f xs a)"
  by (induction xs arbitrary: a) simp_all

text \<open>A local value that is not an actor is unfolded.\<close>

lemma let_value [simp]:
  "(let x = (b :: bool) in f1 x) = f1 b"
  "(let x = (n :: nat) in f2 x) = f2 n"
  "(let x = (l :: 'l list) in f3 x) = f3 l"
  "(let x = (p :: 'p option) in f4 x) = f4 p"
  "(let x = (j :: json) in f5 x) = f5 j"
  "(let x = (m :: outbound_message) in f6 x) = f6 m"
  "(let x = (c :: tool_call) in f7 x) = f7 c"
  "(let x = (t :: turn_id) in f8 x) = f8 t"
  "(let x = (q :: llm_request) in f9 x) = f9 q"
  "(let x = (k :: turn_inputs) in f10 x) = f10 k"
  "(let x = (d :: result_delivery) in f11 x) = f11 d"
  "(let x = (g :: 'g \<Rightarrow> 'h) in f12 x) = f12 g"
  by (simp_all add: Let_def)

section \<open>Fields the invariant reads\<close>

lemma lane_ext_refl [simp]: "lane_ext P xs xs"
  by (simp add: lane_ext_def)

lemma lane_ext_snoc: "lane_ext P xs ys \<Longrightarrow> P m \<Longrightarrow> lane_ext P xs (ys @ [m])"
  by (auto simp: lane_ext_def)

lemma sinv_control:
  "sinv jt r a \<Longrightarrow> control_message m \<Longrightarrow> message_generation m \<le> sa_generation a \<Longrightarrow>
     sinv jt r (a\<lparr>sa_control := sa_control a @ [m]\<rparr>)"
  by (auto simp: sinv_def lane_ext_snoc)

lemma sinv_urgent: "sinv jt r a \<Longrightarrow> urgent_message m \<Longrightarrow> sinv jt r (a\<lparr>sa_urgent := sa_urgent a @ [m]\<rparr>)"
  by (auto simp: sinv_def lane_ext_snoc)

lemma sinv_audio:
  "sinv jt r a \<Longrightarrow> audio_message m \<Longrightarrow> message_generation m \<le> sa_generation a \<Longrightarrow>
     sinv jt r (a\<lparr>sa_audio := sa_audio a @ [m]\<rparr>)"
  by (auto simp: sinv_def lane_ext_snoc)

lemma sinv_llm_operation [sess]:
  "sinv jt r a \<Longrightarrow> (x \<noteq> None \<Longrightarrow> sa_messages a \<noteq> []) \<Longrightarrow> sinv jt r (a\<lparr>sa_llm_operation := x\<rparr>)"
  by (auto simp: sinv_def)

lemma sinv_batch [sess]:
  "sinv jt r a \<Longrightarrow> (\<And>b. x = Some b \<Longrightarrow> sa_messages a \<noteq> [] \<and> batch_fits (sa_rounds a) b) \<Longrightarrow> sinv jt r (a\<lparr>sa_batch := x\<rparr>)"
  by (auto simp: sinv_def)

lemma sinv_pending_audio [sess]:
  "sinv jt r a \<Longrightarrow> (\<And>m. x = Some m \<Longrightarrow> audio_message m \<and> message_generation m \<le> sa_generation a) \<Longrightarrow>
     sinv jt r (a\<lparr>sa_pending_audio := x\<rparr>)"
  by (auto simp: sinv_def)

lemma sinv_observe_pcm [sess]:
  "sinv jt r a \<Longrightarrow> length x \<le> OBSERVE_MAX_SAMPLES \<Longrightarrow> sinv jt r (a\<lparr>sa_observe_pcm := x\<rparr>)"
  by (auto simp: sinv_def)

lemma sinv_deferred [sess]:
  "sinv jt r a \<Longrightarrow> length x \<le> sa_ingress_capacity a \<Longrightarrow> sinv jt r (a\<lparr>sa_deferred := x\<rparr>)"
  by (auto simp: sinv_def)

lemma sinv_request [sess]: "sinv jt r a \<Longrightarrow> sa_request a \<le> n \<Longrightarrow> sinv jt r (a\<lparr>sa_request := n\<rparr>)"
  by (auto simp: sinv_def)

lemma sinv_retention [sess]: "sinv jt r a \<Longrightarrow> retention_fits x \<Longrightarrow> sinv jt r (a\<lparr>sa_retention := x\<rparr>)"
  by (auto simp: sinv_def)

lemma sinv_rounds [sess]:
  "sinv jt r a \<Longrightarrow> tr_limits x = tr_limits (sa_rounds a) \<Longrightarrow>
     (tr_rounds (sa_rounds a) \<le> tl_max_rounds_per_turn (tr_limits x) \<Longrightarrow> tr_rounds x \<le> tl_max_rounds_per_turn (tr_limits x)) \<Longrightarrow>
     sinv jt r (a\<lparr>sa_rounds := x\<rparr>)"
  by (auto simp: sinv_def batch_fits_def)

lemma sinv_history [sess]: "sinv jt r a \<Longrightarrow> history_ok answered_by h \<Longrightarrow> sinv jt r (a\<lparr>sa_history := h\<rparr>)"
  by (auto simp: sinv_def)

lemma sinv_messages [sess]: "sinv jt r a \<Longrightarrow> prompt_shape ms \<Longrightarrow> ms \<noteq> [] \<Longrightarrow> sinv jt r (a\<lparr>sa_messages := ms\<rparr>)"
  by (auto simp: sinv_def)

lemma sinv_turn [sess]: "sinv jt r a \<Longrightarrow> x = map_option cancel_token (sa_turn a) \<Longrightarrow> sinv jt r (a\<lparr>sa_turn := x\<rparr>)"
  by (auto simp: sinv_def permits_balance_def turn_fits_def cancel_token_def)

lemma sinv_gate [sess]:
  "sinv jt r a \<Longrightarrow> invalidated_through (sa_gate a) \<le> invalidated_through g \<Longrightarrow> invalidated_through g \<le> sa_generation a \<Longrightarrow>
     sinv jt r (a\<lparr>sa_gate := g\<rparr>)"
  by (auto simp: sinv_def)

lemma invalidate_current [simp]:
  "invalidated_through (gate_invalidate g gate) = max (invalidated_through gate) g"
  by (simp add: gate_invalidate_def)

lemma retention_fits_simps [simp]:
  "retention_fits (retention_reset re)" "retention_fits (retention_new n)"
  by (auto simp: retention_fits_def retention_reset_def retention_new_def)

lemma retention_fits_push: "retention_fits re \<Longrightarrow> retention_fits (retention_push pcm re)"
  by (auto simp: retention_fits_def retention_push_def saturating_sub_def Let_def)

lemma rounds_simps [simp]:
  "tr_limits (rounds_begin_turn rs) = tr_limits rs" "tr_rounds (rounds_begin_turn rs) = 0"
  by (simp_all add: rounds_begin_turn_def)

lemma sinvD:
  assumes "sinv jt r a"
  shows "retention_fits (sa_retention a)" and "history_ok answered_by (sa_history a)" and "prompt_shape (sa_messages a)"
    and "invalidated_through (sa_gate a) \<le> sa_generation a" and "length (sa_deferred a) \<le> sa_ingress_capacity a"
    and "sa_batch a = Some b \<Longrightarrow> batch_fits (sa_rounds a) b \<and> sa_messages a \<noteq> []"
    and "sa_llm_operation a = Some i \<Longrightarrow> sa_messages a \<noteq> []"
    and "sa_pending_audio a = Some m \<Longrightarrow> audio_message m \<and> message_generation m \<le> sa_generation a"
    and "sa_next_operation a \<le> U64_MAX"
  using assms by (auto simp: sinv_def calls_fit_def)

end
