(* ===== verification/Session_Keeps.thy ===== *)
theory Session_Keeps
  imports Session_Invariant
begin

text \<open>Every handler of the session keeps the invariant.\<close>

section \<open>Lanes, workers and identities\<close>

lemma keep_clock [sess]: "sinv jt r a \<Longrightarrow> pinv jt r (read_clock env a)"
  by (simp add: read_clock_def)

lemma keep_control_lane [sess]:
  "sinv jt r a \<Longrightarrow> control_message m \<Longrightarrow> message_generation m \<le> sa_generation a \<Longrightarrow> pinv jt r (send_control_lane m a)"
  by (simp add: send_control_lane_def sinv_control)

lemma keep_urgent_lane [sess]: "sinv jt r a \<Longrightarrow> urgent_message m \<Longrightarrow> pinv jt r (send_urgent_lane m a)"
  by (simp add: send_urgent_lane_def sinv_urgent)

lemma keep_audio_lane [sess]:
  "sinv jt r a \<Longrightarrow> audio_message m \<Longrightarrow> message_generation m \<le> sa_generation a \<Longrightarrow> pinv jt r (send_audio_lane m a)"
  by (simp add: send_audio_lane_def sinv_audio)

lemma message_simps [simp]:
  "control_message (OutText s)" "control_message (PipelineStatus n s)" "control_message (SpeakerStatus s)"
  "control_message (TurnText g t s)" "control_message (BeginTurn g t s)" "control_message (FinishTurn t s)"
  "urgent_message (AbortTurn t s)" "urgent_message (OutClose code)" "audio_message (OutBinary g t p)"
  "message_generation (OutText s) = 0" "message_generation (PipelineStatus n s) = 0"
  "message_generation (SpeakerStatus s) = 0" "message_generation (FinishTurn t s) = 0"
  "message_generation (TurnText g t s) = g" "message_generation (BeginTurn g t s) = g"
  "message_generation (OutBinary g t p) = g"
  by (simp_all add: control_message_def urgent_message_def audio_message_def message_generation_def)

lemma keep_control [sess]: "sinv jt r a \<Longrightarrow> pinv jt r (send_control s a)"
  by (simp add: send_control_def sess)

lemma keep_turn_control [sess]: "sinv jt r a \<Longrightarrow> pinv jt r (send_turn_control s a)"
  by (auto simp: send_turn_control_def intro!: sess)

definition plain_call :: "'f worker_call \<Rightarrow> bool" where
  "plain_call c \<longleftrightarrow> opened [c] = []"

lemma opened_append [simp]: "opened (xs @ ys) = opened xs @ opened ys"
  by (induction xs rule: opened.induct) auto

lemma plain_call_simps [simp]:
  "plain_call (CallAsrSend n l ca)" "plain_call (CallVadSend n l cv)" "plain_call (CallLlmCancel n i)"
  "plain_call (CallSpawn t g c b)" "plain_call (CallRegister n)" "plain_call (CallUnregister n)"
  "plain_call (CallObserve k v g pcm)"
  by (simp_all add: plain_call_def)

lemma plain_call_ok: "plain_call c \<Longrightarrow> call_ok jt c"
  by (auto simp: plain_call_def call_ok_def)

lemma sinv_plain_call: "sinv jt r a \<Longrightarrow> plain_call c \<Longrightarrow> sinv jt r (a\<lparr>sa_calls := sa_calls a @ [c]\<rparr>)"
  by (auto simp: sinv_def calls_fit_def plain_call_ok plain_call_def)

lemma keep_worker_call [sess]: "sinv jt r a \<Longrightarrow> plain_call c \<Longrightarrow> pinv jt r (worker_call env c a)"
  by (simp add: worker_call_def sinv_plain_call)

text \<open>An operation identity that is not used yet.\<close>

definition unused :: "worker_identity \<Rightarrow> ('f, 'e) actor \<Rightarrow> bool" where
  "unused i a \<longleftrightarrow> wi_stream i < sa_next_operation a \<and> wi_stream i \<notin> set (opened (sa_calls a))"

lemma next_identity:
  assumes "sinv jt r a"
  shows "sinv jt r (snd (next_worker_identity a)) \<and>
    (\<forall>i. fst (next_worker_identity a) = Some i \<longrightarrow> unused i (snd (next_worker_identity a)))"
  using assms by (auto simp: next_worker_identity_def sinv_def calls_fit_def unused_def)

lemma keep_next_identity [sess]: "sinv jt r a \<Longrightarrow> pinv jt r (next_worker_identity a)"
  using next_identity by (auto simp: pinv_def)

lemma sinv_open:
  "sinv jt r a \<Longrightarrow> unused i a \<Longrightarrow> sinv jt r (a\<lparr>sa_calls := sa_calls a @ [CallAsrOpen n i]\<rparr>)"
  "sinv jt r a \<Longrightarrow> unused i a \<Longrightarrow> sinv jt r (a\<lparr>sa_calls := sa_calls a @ [CallVadOpen n i]\<rparr>)"
  "sinv jt r a \<Longrightarrow> unused i a \<Longrightarrow> request_ok jt rq \<Longrightarrow> sinv jt r (a\<lparr>sa_calls := sa_calls a @ [CallLlmStart n i rq]\<rparr>)"
  by (auto simp: sinv_def calls_fit_def unused_def call_ok_def)

lemma keep_open:
  "sinv jt r a \<Longrightarrow> unused i a \<Longrightarrow> pinv jt r (worker_open env (CallAsrOpen n i) a)"
  "sinv jt r a \<Longrightarrow> unused i a \<Longrightarrow> pinv jt r (worker_open env (CallVadOpen n i) a)"
  by (simp_all add: worker_open_def Let_def sinv_open)

lemma keep_cycle [sess]: "sinv jt r a \<Longrightarrow> pinv jt r (allocate_vad_cycle a)"
  by (simp add: allocate_vad_cycle_def)

lemma sinv_next_generation: "sinv jt r a \<Longrightarrow> sinv jt r (a\<lparr>sa_generation := Suc (sa_generation a)\<rparr>)"
  by (auto simp: sinv_def turn_fits_def list_all_iff)

lemma keep_advance [sess]: "sinv jt r a \<Longrightarrow> pinv jt r (advance_generation a)"
  by (auto simp: advance_generation_def sinv_next_generation intro!: sess)

lemma keep_transcript [sess]: "sinv jt r a \<Longrightarrow> sinv jt r (record_transcript role s t a)"
  by (simp add: record_transcript_def)

section \<open>Producers\<close>

lemma keep_cancel_asr [sess]: "sinv jt r a \<Longrightarrow> sinv jt r (cancel_asr env a)"
  by (auto simp: cancel_asr_def intro!: sess)

lemma keep_cancel_llm [sess]: "sinv jt r a \<Longrightarrow> sinv jt r (cancel_llm env a)"
  by (auto simp: cancel_llm_def intro!: sess)

lemma keep_close_vad [sess]: "sinv jt r a \<Longrightarrow> sinv jt r (close_vad env a)"
  by (auto simp: close_vad_def intro!: sess)

lemma keep_push_asr [sess]: "sinv jt r a \<Longrightarrow> pinv jt r (push_asr env pcm a)"
  by (auto simp: push_asr_def intro!: sess)

lemma commit_round_ok:
  "history_ok P h \<Longrightarrow> list_all2 P cs rs \<Longrightarrow> history_ok P (snd (append_completed_round t cs rs h))"
  using history_ok_apply [of P h "AppendRound t cs rs"] by (simp add: op_fits_def)

lemma answered_results: "list_all2 answered_by cs rs \<Longrightarrow> list_all is_tool_result rs"
  by (induction rule: list_all2_induct) (auto simp: answered_by_def is_tool_result_def split: chat_message.splits)

lemma paired_append_none: "paired cs xs \<Longrightarrow> paired cs (xs @ ys) = paired [] ys"
  by (induction cs xs rule: paired.induct) auto

lemma prompt_append_shape:
  assumes "prompt_shape ms" and "ms \<noteq> []" and "list_all2 answered_by cs rs"
  shows "prompt_shape (prompt_append_round cs rs ms) \<and> prompt_append_round cs rs ms \<noteq> []"
proof -
  from assms(3) have res: "list_all is_tool_result rs" by (rule answered_results)
  then have "list_all (\<lambda>x. \<forall>s. x \<noteq> System s) rs"
    by (rule list.pred_mono_strong) (auto simp: is_tool_result_def)
  then show ?thesis
    using assms paired_results [OF assms(3), of "[]"]
    by (auto simp: prompt_shape_def prompt_append_round_def paired_append_none split: list.splits)
qed

lemma keep_commit_exchange [sess]:
  assumes "sinv jt r a" and "list_all2 answered_by (tb_completed b) (tb_results b)" and "sa_messages a \<noteq> []"
  shows "sinv jt r (commit_tool_exchange b a) \<and> sa_messages (commit_tool_exchange b a) \<noteq> []"
proof (cases "tb_completed b = [] \<or> current_turn_id a = None")
  case True
  with assms show ?thesis by (auto simp: commit_tool_exchange_def)
next
  case False
  then obtain t where t: "current_turn_id a = Some t" by auto
  define p where "p = append_completed_round t (tb_completed b) (tb_results b) (sa_history a)"
  have h: "history_ok answered_by (snd p)" unfolding p_def by (rule commit_round_ok [OF sinvD(2) [OF assms(1)] assms(2)])
  have shape: "prompt_shape (prompt_append_round (tb_completed b) (tb_results b) (sa_messages a)) \<and>
      prompt_append_round (tb_completed b) (tb_results b) (sa_messages a) \<noteq> []"
    by (rule prompt_append_shape [OF sinvD(3) [OF assms(1)] assms(3,2)])
  have "commit_tool_exchange b a =
      (if fst p then a\<lparr>sa_history := snd p, sa_messages := prompt_append_round (tb_completed b) (tb_results b) (sa_messages a)\<rparr>
       else a\<lparr>sa_history := snd p\<rparr>)"
    using False t by (simp add: commit_tool_exchange_def p_def split_beta Let_def)
  with assms h shape show ?thesis by (auto intro!: sinv_history sinv_messages)
qed

lemma keep_commit_taken [sess]:
  assumes "sinv jt r a" and "sa_batch a = Some b"
  shows "sinv jt r (commit_tool_exchange b (a\<lparr>sa_batch := None\<rparr>))"
  using keep_commit_exchange [of jt r "a\<lparr>sa_batch := None\<rparr>" b] sinvD(6) [OF assms] assms(1)
  by (auto simp: batch_fits_def intro!: sess)

lemma keep_cancel_tool_turn [sess]: "sinv jt r a \<Longrightarrow> sinv jt r (cancel_tool_turn a)"
  by (auto simp: cancel_tool_turn_def Let_def intro!: sess)

lemma keep_cancel_actions [sess]: "sinv jt r a \<Longrightarrow> sinv jt r (cancel_pending_actions a)"
  by (auto simp: cancel_pending_actions_def intro!: sess)

section \<open>Failing\<close>

lemma keep_emit_with: "(\<And>b. sinv jt r b \<Longrightarrow> sinv jt r (fail b)) \<Longrightarrow> sinv jt r a \<Longrightarrow> sinv jt r (emit_with fail env state reason a)"
  by (auto simp: emit_with_def intro!: sess)

lemma keep_report [sess]: "sinv jt r a \<Longrightarrow> pinv jt r (report_result env a)"
  by (auto simp: report_result_def intro!: sess split: speech_origin.splits)

lemma keep_drop_turn [sess]: "sinv jt r a \<Longrightarrow> sinv jt r (drop_turn a)"
  by (auto simp: drop_turn_def sinv_def permits_balance_def turn_fits_def limiter_release_def split: option.splits)

lemma keep_release_with: "(\<And>b. sinv jt r b \<Longrightarrow> sinv jt r (fail b)) \<Longrightarrow> sinv jt r a \<Longrightarrow> sinv jt r (release_with fail env a)"
  unfolding release_with_def by (rule sess | assumption | simp | rule keep_emit_with)+

lemma keep_put_speech [simp]: "sinv jt r (put_speech_state st a) = sinv jt r a"
  by (simp add: put_speech_state_def)

lemma keep_cancel_output [sess]: "sinv jt r a \<Longrightarrow> sinv jt r (cancel_speech_output env a)"
  by (auto simp: cancel_speech_output_def intro!: sess)

lemma keep_cancel_speech_with:
  "(\<And>b. sinv jt r b \<Longrightarrow> sinv jt r (fail b)) \<Longrightarrow> sinv jt r a \<Longrightarrow> sinv jt r (cancel_speech_with fail env a)"
  unfolding cancel_speech_with_def
  by (rule sinv_let, (auto dest: sinvD(4) intro!: sess)[1])
     (rule sess | assumption | simp | rule keep_release_with)+

lemma keep_interrupt_with:
  "(\<And>b. sinv jt r b \<Longrightarrow> sinv jt r (fail b)) \<Longrightarrow> sinv jt r a \<Longrightarrow> sinv jt r (interrupt_with fail env a)"
  unfolding interrupt_with_def by (rule sess | assumption | simp | rule keep_cancel_speech_with)+

lemma keep_close_with:
  "(\<And>b. sinv jt r b \<Longrightarrow> sinv jt r (fail b)) \<Longrightarrow> sinv jt r a \<Longrightarrow> sinv jt r (close_with fail env a)"
  unfolding close_with_def by (rule sess | assumption | simp | rule keep_interrupt_with)+

lemma keep_fail_at: "sinv jt r a \<Longrightarrow> sinv jt r (fail_closed_at n env a)"
  by (induction n arbitrary: a) (auto intro: keep_close_with)

lemma keep_fail_closed [sess]: "sinv jt r a \<Longrightarrow> sinv jt r (fail_closed env a)"
  by (simp add: fail_closed_def keep_fail_at)

lemma keep_emit [sess]: "sinv jt r a \<Longrightarrow> sinv jt r (emit_turn_status env state reason a)"
  by (simp add: emit_turn_status_def keep_emit_with keep_fail_closed)

lemma keep_release [sess]: "sinv jt r a \<Longrightarrow> sinv jt r (release_active_turn env a)"
  by (simp add: release_active_turn_def keep_release_with keep_fail_closed)

lemma keep_cancel_delivery [sess]: "sinv jt r a \<Longrightarrow> sinv jt r (cancel_speech_delivery env a)"
  by (simp add: cancel_speech_delivery_def keep_cancel_speech_with keep_fail_closed)

lemma keep_interrupt [sess]: "sinv jt r a \<Longrightarrow> sinv jt r (interrupt_active_turn env a)"
  by (simp add: interrupt_active_turn_def keep_interrupt_with keep_fail_closed)

section \<open>Listening modes and the end of a turn\<close>

lemma keep_notify [sess]: "sinv jt r a \<Longrightarrow> sinv jt r (notify_if_idle a)"
  by (simp add: notify_if_idle_def)

lemma keep_observe_reset [sess]: "sinv jt r a \<Longrightarrow> sinv jt r (observe_reset a)"
  by (auto simp: observe_reset_def intro!: sess)

lemma keep_reset_cycle [sess]: "sinv jt r a \<Longrightarrow> pinv jt r (reset_vad_capture_cycle env lease a)"
  by (auto simp: reset_vad_capture_cycle_def intro!: sess)

lemma keep_open_vad: "sinv jt r a \<Longrightarrow> unused i a \<Longrightarrow> sinv jt r (open_vad_mode env i a)"
  unfolding open_vad_mode_def by (rule sinv_case_prod [OF keep_open(2)]) (auto intro!: sess split: option.splits)

lemma keep_open_manual: "sinv jt r a \<Longrightarrow> unused i a \<Longrightarrow> sinv jt r (open_manual_mode env i a)"
  unfolding open_manual_mode_def by (rule sinv_case_prod [OF keep_open(1)]) (auto intro!: sess split: option.splits)

lemma keep_leave_capture [sess]: "sinv jt r a \<Longrightarrow> sinv jt r (leave_capture a)"
  by (auto simp: leave_capture_def intro!: sess)

text \<open>A handler that takes a new operation identity and uses it at once.\<close>

lemma sinv_with_identity:
  assumes "sinv jt r a" and "\<And>b. sinv jt r b \<Longrightarrow> sinv jt r (f b)"
    and "\<And>i b. sinv jt r b \<Longrightarrow> unused i b \<Longrightarrow> sinv jt r (g i b)"
  shows "sinv jt r (case next_worker_identity a of (None, b) \<Rightarrow> f b | (Some i, b) \<Rightarrow> g i b)"
  using next_identity [OF assms(1)] assms(2,3) by (auto simp: split_beta split: option.splits)

lemma keep_replace_mode [sess]: "sinv jt r a \<Longrightarrow> sinv jt r (replace_listening_mode env mode a)"
  unfolding replace_listening_mode_def
  by (rule sinv_with_identity keep_open_manual keep_open_vad sess | assumption | simp)+

lemma keep_activate_arm [sess]: "sinv jt r a \<Longrightarrow> sinv jt r (activate_pending_listen_arm env a)"
  by (auto simp: activate_pending_listen_arm_def intro!: sess)

lemma keep_forget [simp]: "sinv jt r (forget_identification a) = sinv jt r a"
  by (simp add: forget_identification_def)

lemma keep_complete_recognition [sess]: "sinv jt r a \<Longrightarrow> sinv jt r (complete_recognition env a)"
  by (auto simp: complete_recognition_def intro!: sess split: listen_mode.splits)

lemma keep_fail_speech [sess]: "sinv jt r a \<Longrightarrow> sinv jt r (fail_speech_delivery env a)"
  by (auto simp: fail_speech_delivery_def intro!: sess)

lemma keep_terminalize_llm [sess]: "sinv jt r a \<Longrightarrow> sinv jt r (terminalize_llm_failure env a)"
  by (auto simp: terminalize_llm_failure_def intro!: sess)

lemma keep_terminalize_turn [sess]: "sinv jt r a \<Longrightarrow> sinv jt r (terminalize_turn_failure env failure a)"
  by (auto simp: terminalize_turn_failure_def intro!: sess)

lemma keep_close_normally [sess]: "sinv jt r a \<Longrightarrow> sinv jt r (close_voice_session_normally env a)"
  by (auto simp: close_voice_session_normally_def intro!: sess)

lemma keep_shutdown [sess]: "sinv jt r a \<Longrightarrow> sinv jt r (begin_application_shutdown env a)"
  by (auto simp: begin_application_shutdown_def intro!: sess)

lemma keep_begin_turn [sess]: "sinv jt r a \<Longrightarrow> pinv jt r (begin_active_turn env a)"
proof -
  assume a: "sinv jt r a"
  have "sinv jt r ((drop_turn (a\<lparr>sa_limiter := l\<rparr>))\<lparr>sa_next_turn := sa_next_turn a + 1,
      sa_turn := Some \<lparr>tc_turn = TurnId (sa_next_turn a), tc_generation = sa_generation a, tc_cancelled = False\<rparr>\<rparr>)"
    if "limiter_try_acquire (sa_limiter a) = Some l" for l
    using a that
    by (auto simp: sinv_def drop_turn_def permits_balance_def turn_fits_def limiter_release_def limiter_try_acquire_def
        turn_id_get_def split: option.splits if_splits)
  with a show ?thesis by (auto simp: begin_active_turn_def Let_def intro!: sess)
qed

lemma keep_admit_pipeline [sess]: "sinv jt r a \<Longrightarrow> pinv jt r (admit_pipeline env a)"
  by (auto simp: admit_pipeline_def intro!: sess)

lemma keep_drop_pipeline [sess]: "sinv jt r a \<Longrightarrow> sinv jt r (drop_pipeline a)"
  by (simp add: drop_pipeline_def)

lemma keep_release_pipeline [sess]: "sinv jt r a \<Longrightarrow> sinv jt r (release_pipeline_if_idle env a)"
  by (auto simp: release_pipeline_if_idle_def intro!: sess)

end
