(* ===== verification/Session_Keeps_Tools.thy ===== *)
theory Session_Keeps_Tools
  imports Session_Keeps
begin

text \<open>The course of a turn and the tool rounds keep the invariant.\<close>

section \<open>Text into speech and the request to the model\<close>

lemma keep_flush_chars [sess]: "sinv jt r a \<Longrightarrow> pinv jt r (flush_chars env whole offset cs a)"
proof (induction env whole offset cs a rule: flush_chars.induct)
  case (2 env whole offset c cs a)
  then show ?case by (auto intro!: sess split: option.splits sum.splits prod.splits)
qed simp

lemma keep_flush_finish [sess]: "sinv jt r a \<Longrightarrow> sinv jt r (flush_finish env a)"
  unfolding flush_finish_def by (rule sess | assumption | rule allI impI conjI | simp | simp split: prod.split sum.split)+

lemma keep_flush_text [sess]: "sinv jt r a \<Longrightarrow> sinv jt r (flush_pending_llm_text env a)"
  unfolding flush_pending_llm_text_def by (rule sess | assumption | rule allI impI conjI | simp | simp split: prod.split sum.split)+

lemma keep_direct_speech [sess]: "sinv jt r a \<Longrightarrow> sinv jt r (begin_direct_speech env s origin a)"
  unfolding begin_direct_speech_def by (rule sess | assumption | rule allI impI conjI | simp | simp split: prod.split sum.split)+

lemma keep_direct_tool_speech [sess]: "sinv jt r a \<Longrightarrow> sinv jt r (begin_direct_tool_speech env s a)"
  by (simp add: begin_direct_tool_speech_def sess)

lemma next_identity_messages [simp]: "sa_messages (snd (next_worker_identity a)) = sa_messages a"
  by (simp add: next_worker_identity_def)

lemma keep_llm_start:
  "sinv jt r a \<Longrightarrow> unused i a \<Longrightarrow> request_ok jt rq \<Longrightarrow> pinv jt r (worker_call env (CallLlmStart n i rq) a)"
  by (simp add: worker_call_def sinv_open)

lemma keep_start_round [sess]:
  assumes a: "sinv jt r a" and jt: "jt = se_jtext env" and ms: "sa_messages a \<noteq> []"
  shows "sinv jt r (start_llm_round env allow_tools a)"
proof -
  have go: "sinv jt r
      (let a2 = a1\<lparr>sa_response := [], sa_delta := None, sa_finish_pending := False, sa_origin := LlmOrigin,
                  sa_direct_request := None\<rparr>;
           tools = (if allow_tools then available_llm_tools env a2 else []);
           a3 = a2\<lparr>sa_round := (if allow_tools \<and> offers_answer_changing_tools env a2
                               then Some \<lparr>lr_prose = [], lr_calls = []\<rparr> else None)\<rparr>;
           request = \<lparr>rq_messages = sa_messages a3, rq_tools = tools\<rparr>
       in (case llm_request_size_bytes (se_jtext env) request of
             Inl _ \<Rightarrow> terminalize_turn_failure env LlmRequestTooLarge a3
           | Inr _ \<Rightarrow>
               (case worker_call env (CallLlmStart (sa_llm a3) identity request) a3 of
                  (False, a4) \<Rightarrow> complete_recognition env (drop_turn a4)
                | (True, a4) \<Rightarrow> a4\<lparr>sa_llm_operation := Some identity\<rparr>)))"
    if a1: "sinv jt r a1" and free: "unused identity a1" and ms1: "sa_messages a1 \<noteq> []" for a1 identity
  proof -
    define a3 where "a3 = a1\<lparr>sa_response := [], sa_delta := None, sa_finish_pending := False, sa_origin := LlmOrigin,
        sa_direct_request := None, sa_round := (if allow_tools \<and> offers_answer_changing_tools env
          (a1\<lparr>sa_response := [], sa_delta := None, sa_finish_pending := False, sa_origin := LlmOrigin,
              sa_direct_request := None\<rparr>) then Some \<lparr>lr_prose = [], lr_calls = []\<rparr> else None)\<rparr>"
    have a3: "sinv jt r a3" "unused identity a3" "sa_messages a3 \<noteq> []"
      using a1 free ms1 by (simp_all add: a3_def unused_def)
    have start: "sinv jt r (case worker_call env (CallLlmStart n identity rq) a3 of
          (False, a4) \<Rightarrow> complete_recognition env (drop_turn a4)
        | (True, a4) \<Rightarrow> a4\<lparr>sa_llm_operation := Some identity\<rparr>)"
      if "rq_messages rq = sa_messages a3" "llm_request_size_bytes jt rq = Inr n'" for n rq n'
    proof -
      from that a3 have "request_ok jt rq" by (auto simp: request_ok_def dest: sinvD(3))
      from keep_llm_start [OF a3(1,2) this] have "sinv jt r (snd (worker_call env (CallLlmStart n identity rq) a3))"
        by (simp add: pinv_def)
      moreover have "sa_messages (snd (worker_call env (CallLlmStart n identity rq) a3)) \<noteq> []"
        using a3(3) by (simp add: worker_call_def)
      ultimately show ?thesis by (auto simp: split_beta intro!: sess split: bool.split)
    qed
    show ?thesis
      using a3(1) start jt unfolding a3_def [symmetric] Let_def
      by (auto simp: a3_def [symmetric] intro!: keep_terminalize_turn split: sum.split)
  qed
  obtain x b where xb: "next_worker_identity a = (x, b)" by fastforce
  with next_identity [OF a] have b: "sinv jt r b" "x = Some i \<Longrightarrow> unused i b" for i by auto
  from xb ms have mb: "sa_messages b \<noteq> []" using next_identity_messages [of a] by simp
  show ?thesis
  proof (cases "sa_turn a = None \<or> x = None")
    case True
    with a b(1) xb show ?thesis by (auto simp: start_llm_round_def keep_fail_closed)
  next
    case False
    then obtain i where i: "x = Some i" and "sa_turn a \<noteq> None" by auto
    then have turn: "(sa_turn a = None) = False" by simp
    from go [OF b(1) b(2) [OF i] mb] show ?thesis
      by (simp only: start_llm_round_def xb i turn prod.case option.case if_False)
  qed
qed

lemma commit_user_ok: "history_ok P h \<Longrightarrow> history_ok P (commit_user t s h)"
  using history_ok_apply [of P h "CommitUser t s"] by (simp add: op_fits_def)

lemma commit_assistant_ok: "history_ok P h \<Longrightarrow> history_ok P (commit_assistant t s h)"
  using history_ok_apply [of P h "CommitAssistant t s"] by (simp add: op_fits_def)

lemma keep_commit_user [sess]: "sinv jt r a \<Longrightarrow> pinv jt r (commit_user_text env s a)"
  unfolding commit_user_text_def
  by (auto intro!: sess commit_user_ok dest: sinvD(2))

lemma round_no_system: "round_ok answered_by r \<Longrightarrow> System s \<notin> set (round_results r)"
  by (auto simp: round_ok_def list_all_iff is_tool_result_def dest!: answered_results bspec)

lemma exchange_no_system:
  "exchange_ok answered_by e \<Longrightarrow> list_all (\<lambda>x. \<forall>s. x \<noteq> System s) (exchange_messages e)"
  by (auto simp: exchange_ok_def exchange_messages_def list_all_iff round_no_system split: option.splits)

lemma prompt_of_history:
  assumes "history_ok answered_by h" and "messages_for_prompt t h = Some ms"
  shows "prompt_shape (System s # ms)"
proof -
  from assms have ms: "ms = concat (map exchange_messages (exchanges h))" and ok: "list_all (exchange_ok answered_by) (exchanges h)"
    by (auto simp: messages_for_prompt_def history_ok_def split: if_splits)
  from ok have "list_all (\<lambda>x. \<forall>s. x \<noteq> System s) (concat (map exchange_messages (exchanges h)))"
    using exchange_no_system by (fastforce simp: list_all_iff)
  with ms paired_exchanges [OF ok] show ?thesis by (simp add: prompt_shape_def)
qed

lemma keep_begin_delivery [sess]:
  assumes "sinv jt r a" and "jt = se_jtext env"
  shows "sinv jt r (begin_speech_delivery env a)"
  unfolding begin_speech_delivery_def
  using assms prompt_of_history [OF sinvD(2) [OF assms(1)]]
  by (auto simp: Let_def intro!: sess split: option.split sum.split)

lemma keep_admit_voice: "sinv jt r a \<Longrightarrow> admit_voice a = Some b \<Longrightarrow> sinv jt r b"
  by (auto simp: admit_voice_def split: if_splits)

lemma keep_admit_direct [sess]: "sinv jt r a \<Longrightarrow> pinv jt r (admit_direct_speech env request a)"
  unfolding admit_direct_speech_def
  by (rule sess | assumption | simp | erule (1) keep_admit_voice)+

section \<open>Tool calls\<close>

lemma keep_tool_status [sess]: "sinv jt r a \<Longrightarrow> sinv jt r (emit_tool_status env name state a)"
  unfolding emit_tool_status_def by (rule sess | assumption | rule allI impI conjI | simp | simp split: prod.split sum.split)+

lemma keep_record_call [sess]:
  assumes "sinv jt r a" shows "sinv jt r (record_tool_call env call content ok a)"
proof (cases "sa_batch a")
  case None
  with assms show ?thesis by (simp add: record_tool_call_def)
next
  case (Some b)
  define b' where "b' = b\<lparr>tb_completed := tb_completed b @ [call], tb_results := tb_results b @ [ToolResult (call_id call) content]\<rparr>"
  from sinvD(6) [OF assms Some] have "sa_messages a \<noteq> []" "batch_fits (sa_rounds a) b'"
    by (auto simp: batch_fits_def b'_def answered_by_def intro!: list_all2_appendI)
  with assms have "sinv jt r (a\<lparr>sa_batch := Some b'\<rparr>)" by (auto intro!: sess)
  with Some show ?thesis by (auto simp: record_tool_call_def b'_def [symmetric] Let_def intro!: sess)
qed

text \<open>Changes of a batch that leave its calls and results alone.\<close>

lemma keep_map_batch:
  assumes "sinv jt r a" and "\<And>b. batch_fits (sa_rounds a) b \<Longrightarrow> batch_fits (sa_rounds a) (f b)"
  shows "sinv jt r (a\<lparr>sa_batch := map_option f (sa_batch a)\<rparr>)"
  using assms by (auto intro!: sess dest: sinvD(6))

lemma keep_offer_direct [sess]: "sinv jt r a \<Longrightarrow> sinv jt r (offer_direct response a)"
  unfolding offer_direct_def by (erule keep_map_batch) (simp add: batch_fits_def)

lemma keep_clear_flight [sess]: "sinv jt r a \<Longrightarrow> sinv jt r (clear_in_flight a)"
  unfolding clear_in_flight_def by (erule keep_map_batch) (simp add: batch_fits_def)

lemma keep_record_result [sess]: "sinv jt r a \<Longrightarrow> sinv jt r (record_result env call result a)"
  unfolding record_result_def by (rule sess | assumption | rule allI impI conjI | simp | simp split: prod.split sum.split)+

section \<open>Rounds\<close>

lemma keep_terminalize_round [sess]: "sinv jt r a \<Longrightarrow> sinv jt r (terminalize_tool_round env failure a)"
  by (auto simp: terminalize_tool_round_def Let_def intro!: sess)

lemma keep_continuation:
  assumes "sinv jt r a" and "jt = se_jtext env" and "sa_messages a \<noteq> []"
  shows "sinv jt r (begin_tool_continuation env a)"
  unfolding begin_tool_continuation_def read_clock_def Let_def prod.case
  using assms by (auto intro!: sess)

lemma keep_finish_silent [sess]: "sinv jt r a \<Longrightarrow> sinv jt r (finish_tool_turn_without_speech env a)"
  by (simp add: finish_tool_turn_without_speech_def sess)

lemma keep_finish_batch [sess]:
  assumes a: "sinv jt r a" and jt: "jt = se_jtext env" and b: "sa_batch a = Some b"
  shows "sinv jt r (finish_tool_batch env b a)"
proof -
  define a1 where "a1 = commit_tool_exchange b (a\<lparr>sa_batch := None\<rparr>)"
  from sinvD(6) [OF a b] a have "sinv jt r a1 \<and> sa_messages a1 \<noteq> []"
    unfolding a1_def by (intro keep_commit_exchange) (auto simp: batch_fits_def intro!: sess)
  then show ?thesis
    unfolding finish_tool_batch_def a1_def [symmetric] Let_def
    using jt by (auto intro!: sess keep_continuation split: option.split result_delivery.split)
qed

section \<open>Dispatch\<close>

lemma keep_mcp_id [sess]: "sinv jt r a \<Longrightarrow> pinv jt r (next_mcp_request_id a)"
  by (simp add: next_mcp_request_id_def)

lemma keep_discovery_failed [simp]: "sinv jt r (mcp_discovery_failed a) = sinv jt r a"
  by (simp add: mcp_discovery_failed_def)

lemma keep_send_mcp [sess]: "sinv jt r a \<Longrightarrow> sinv jt r (send_mcp env outgoing generation kind timeout a)"
  unfolding send_mcp_def by (rule sess | assumption | rule allI impI conjI | simp)+

lemma keep_spawn [sess]: "sinv jt r a \<Longrightarrow> sinv jt r (spawn_call env call t budget a)"
  unfolding spawn_call_def Let_def
  by (rule keep_map_batch) (auto simp: batch_fits_def intro!: sess)

lemma keep_refused [sess]: "sinv jt r a \<Longrightarrow> pinv jt r (refused env call code a)"
  by (simp add: refused_def sess)

lemma keep_done [sess]: "sinv jt r a \<Longrightarrow> pinv jt r (done_with env call v a)"
  by (simp add: done_with_def sess)

lemma keep_server_tool [sess]:
  "(\<And>t b. sinv jt r b \<Longrightarrow> sinv jt r (note_call t b)) \<Longrightarrow> sinv jt r a \<Longrightarrow>
     pinv jt r (execute_server_tool env available disabled unavailable note_call call a)"
  unfolding execute_server_tool_def by (rule sess | assumption | rule allI impI conjI | simp)+

lemma keep_rest_of_budget [sess]: "sinv jt r a \<Longrightarrow> pinv jt r (rest_of_budget env bound a)"
  unfolding rest_of_budget_def by (rule sess | assumption | rule allI impI conjI | simp)+

lemma keep_wiki [sess]: "sinv jt r a \<Longrightarrow> pinv jt r (execute_wiki_tool env call a)"
  unfolding execute_wiki_tool_def by (rule sess | assumption | rule allI impI conjI | simp)+

lemma keep_task_suite [sess]: "sinv jt r a \<Longrightarrow> pinv jt r (execute_task_suite env call a)"
  unfolding execute_task_suite_def by (rule sess | assumption | rule allI impI conjI | simp)+

lemma keep_template_switch [sess]: "sinv jt r a \<Longrightarrow> pinv jt r (execute_template_switch env call a)"
  unfolding execute_template_switch_def by (rule sess | assumption | rule allI impI conjI | simp)+

lemma keep_exit [sess]: "sinv jt r a \<Longrightarrow> pinv jt r (execute_exit env call a)"
  unfolding execute_exit_def by (rule sess | assumption | rule allI impI conjI | simp)+

lemma keep_builtin [sess]: "sinv jt r a \<Longrightarrow> pinv jt r (execute_builtin_tool env call tool a)"
  by (cases tool) (auto simp: execute_builtin_tool_def execute_reminder_tool_def execute_memory_tool_def intro!: sess)

lemma keep_device [sess]: "sinv jt r a \<Longrightarrow> pinv jt r (dispatch_device_mcp_tool env call tool budget a)"
  unfolding dispatch_device_mcp_tool_def by (rule sess | assumption | rule allI impI conjI | simp)+

lemma keep_system_tool [sess]: "sinv jt r a \<Longrightarrow> pinv jt r (dispatch_system_tool env call budget a)"
  unfolding dispatch_system_tool_def by (rule sess | assumption | rule allI impI conjI | simp)+

lemma keep_record_external [sess]: "sinv jt r a \<Longrightarrow> sinv jt r (record_external env call outcome a)"
  by (simp add: record_external_def sess)

lemma keep_external [sess]: "sinv jt r a \<Longrightarrow> pinv jt r (dispatch_external_tool env call budget a)"
  unfolding dispatch_external_tool_def by (rule sess | assumption | rule allI impI conjI | simp)+

lemma keep_dispatch_call [sess]: "sinv jt r a \<Longrightarrow> pinv jt r (dispatch_call env call budget a)"
  unfolding dispatch_call_def by (rule sess | assumption | rule allI impI conjI | simp | simp split: tool_target.split)+

section \<open>The executor\<close>

lemma budget_keeps_rounds [simp]:
  "tr_limits (snd (budget_for_next_call n rs)) = tr_limits rs" "tr_rounds (snd (budget_for_next_call n rs)) = tr_rounds rs"
  by (simp_all add: budget_for_next_call_def Let_def)

lemma keep_dispatch_step [sess]:
  assumes a: "sinv jt r a" and jt: "jt = se_jtext env"
  shows "pinv jt r (dispatch_step env a)"
proof (cases "sa_batch a")
  case None
  with a show ?thesis by (simp add: dispatch_step_def)
next
  case (Some b)
  from sinvD(6) [OF a Some] have b: "batch_fits (sa_rounds a) b" "sa_messages a \<noteq> []" by auto
  have "sinv jt r (a\<lparr>sa_batch := Some (b\<lparr>tb_next := tb_next b + 1\<rparr>)\<rparr>)" if "tb_next b < length (tb_calls b)"
    using a b that by (intro sess) (auto simp: batch_fits_def)
  then show ?thesis
    unfolding dispatch_step_def Some option.case
    using a jt Some
    by (auto simp: read_clock_def Let_def split_beta intro!: sess split: option.split)
qed

lemma keep_dispatch_loop: "sinv jt r a \<Longrightarrow> jt = se_jtext env \<Longrightarrow> sinv jt r (dispatch_loop n env a)"
proof (induction n arbitrary: a)
  case (Suc n)
  from keep_dispatch_step [OF Suc.prems] have "sinv jt r (snd (dispatch_step env a))" by (simp add: pinv_def)
  with Suc.IH Suc.prems show ?case by (auto simp: split_beta split: bool.split)
qed simp

lemma keep_dispatch [sess]: "sinv jt r a \<Longrightarrow> jt = se_jtext env \<Longrightarrow> sinv jt r (dispatch_next_tool env a)"
  by (simp only: dispatch_next_tool_def keep_dispatch_loop)

lemma keep_complete_call [sess]: "sinv jt r a \<Longrightarrow> jt = se_jtext env \<Longrightarrow> sinv jt r (complete_tool_call env call result a)"
  by (simp add: complete_tool_call_def sess)

lemma keep_start_batch [sess]:
  "sinv jt r a \<Longrightarrow> jt = se_jtext env \<Longrightarrow> sa_messages a \<noteq> [] \<Longrightarrow> sinv jt r (start_tool_batch env calls a)"
  by (auto simp: start_tool_batch_def batch_fits_def intro!: sess)

section \<open>Completions\<close>

lemma keep_apply_completion [sess]:
  assumes a: "sinv jt r a" and jt: "jt = se_jtext env" shows "sinv jt r (apply_completion env c a)"
  unfolding apply_completion_def
  using a jt by (auto simp: Let_def intro!: sess split: option.split async_outcome.split sum.split)

lemma keep_drain_async [sess]: "sinv jt r a \<Longrightarrow> jt = se_jtext env \<Longrightarrow> sinv jt r (drain_async_call_completions env a)"
  by (auto simp: drain_async_call_completions_def intro!: sess)

lemma keep_job_submit [sess]:
  "sinv jt r a \<Longrightarrow> jt = se_jtext env \<Longrightarrow> sinv jt r (complete_job_submit env sid t g cid outcome a)"
  by (auto simp: complete_job_submit_def intro!: sess split: option.split)

lemma keep_expire_job [sess]: "sinv jt r a \<Longrightarrow> jt = se_jtext env \<Longrightarrow> sinv jt r (expire_job_submit env a)"
  unfolding expire_job_submit_def by (rule sess | assumption | rule allI impI conjI | simp)+

lemma keep_tools_page [sess]: "sinv jt r a \<Longrightarrow> sinv jt r (request_tools_page env cursor a)"
  unfolding request_tools_page_def by (rule sess | assumption | rule allI impI conjI | simp)+

lemma keep_discovery [sess]: "sinv jt r a \<Longrightarrow> sinv jt r (begin_mcp_discovery env a)"
  unfolding begin_mcp_discovery_def by (rule sess | assumption | rule allI impI conjI | simp)+

lemma keep_discovery_done [sess]: "sinv jt r a \<Longrightarrow> sinv jt r (complete_tools_discovery a)"
  by (simp add: complete_tools_discovery_def Let_def split: option.split)

lemma keep_on_page [sess]: "sinv jt r a \<Longrightarrow> sinv jt r (on_tools_page env response a)"
  by (auto simp: on_tools_page_def Let_def intro!: sess split: option.split)

lemma keep_mcp_answer [sess]: "sinv jt r a \<Longrightarrow> jt = se_jtext env \<Longrightarrow> sinv jt r (on_mcp_answer env i response a)"
  by (auto simp: on_mcp_answer_def Let_def intro!: sess split: option.split pending_mcp_kind.split sum.split)

lemma keep_mcp_message [sess]: "sinv jt r a \<Longrightarrow> jt = se_jtext env \<Longrightarrow> sinv jt r (on_mcp_message env incoming a)"
  by (auto simp: on_mcp_message_def intro!: sess split: mcp_incoming.split)

lemma keep_expire_mcp [sess]: "sinv jt r a \<Longrightarrow> jt = se_jtext env \<Longrightarrow> sinv jt r (expire_mcp_request env i a)"
  by (auto simp: expire_mcp_request_def Let_def intro!: sess split: option.split pending_mcp_kind.split)

lemma keep_expire_mcps [sess]: "sinv jt r a \<Longrightarrow> jt = se_jtext env \<Longrightarrow> sinv jt r (expire_mcp_requests env a)"
  by (auto simp: expire_mcp_requests_def read_clock_def intro!: sess)

end
