(* ===== verification/Session_Keeps_Run.thy ===== *)
theory Session_Keeps_Run
  imports Session_Keeps_Tools
begin

text \<open>Listening, recognition, the writer's reports, the delivery of speech and whole events keep the invariant.\<close>

section \<open>Pairs\<close>

lemma sinv_case_lease [sess]:
  "(\<And>x y. p = (x, y) \<Longrightarrow> sinv jt r (f x y)) \<Longrightarrow> sinv jt r (case (p :: 'x \<times> worker_identity) of (x, y) \<Rightarrow> f x y)"
  by (cases p) simp

lemma pinv_case_lease [sess]:
  "(\<And>x y. p = (x, y) \<Longrightarrow> pinv jt r (f x y)) \<Longrightarrow> pinv jt r (case (p :: 'x \<times> worker_identity) of (x, y) \<Rightarrow> f x y)"
  by (cases p) simp

lemma sinv_let_pair [sess]:
  "pinv jt r p \<Longrightarrow> (\<And>x y. sinv jt r y \<Longrightarrow> sinv jt r (f (x, y))) \<Longrightarrow> sinv jt r (let z = p in f z)"
  by (cases p) simp

lemma pinv_let_pair [sess]:
  "pinv jt r p \<Longrightarrow> (\<And>x y. sinv jt r y \<Longrightarrow> pinv jt r (f (x, y))) \<Longrightarrow> pinv jt r (let z = p in f z)"
  by (cases p) simp

section \<open>The speaker of an utterance\<close>

lemma keep_observe_retain [sess]: "sinv jt r a \<Longrightarrow> sinv jt r (observe_retain pcm a)"
  by (auto simp: observe_retain_def Let_def saturating_sub_def min_def intro!: sess)

lemma keep_speaker_state [sess]: "sinv jt r a \<Longrightarrow> sinv jt r (send_speaker_state env status a)"
  by (auto simp: send_speaker_state_def intro!: sess)

lemma keep_next_operation:
  "sinv jt r a \<Longrightarrow> sa_next_operation a \<le> n \<Longrightarrow> n \<le> U64_MAX \<Longrightarrow> sinv jt r (a\<lparr>sa_next_operation := n\<rparr>)"
  by (fastforce simp: sinv_def calls_fit_def)

lemma keep_observing:
  assumes "sinv jt r a"
  shows "sinv jt r (a\<lparr>sa_observing := b, sa_next_operation := min (sa_next_operation a + 1) U64_MAX\<rparr>)"
  using assms sinvD(9) [OF assms] by (intro keep_next_operation) auto

lemma keep_boundary [sess]: "sinv jt r a \<Longrightarrow> sinv jt r (observe_utterance_boundary env a)"
proof -
  assume a: "sinv jt r a"
  define a2 where "a2 = (forget_identification a)\<lparr>sa_ident_finished := False, sa_observe_pcm := []\<rparr>"
  have a2: "sinv jt r a2" using a by (simp add: a2_def sess)
  have a3: "sinv jt r (a2\<lparr>sa_observing := True, sa_next_operation := min (sa_next_operation a2 + 1) U64_MAX\<rparr>)"
    by (rule keep_observing [OF a2])
  show ?thesis
    unfolding observe_utterance_boundary_def Let_def a2_def [symmetric]
    using a a2 a3 by (auto intro!: sess split: option.split)
qed

lemma keep_observe_finished [sess]: "sinv jt r a \<Longrightarrow> sinv jt r (observe_finished env d a)"
  unfolding observe_finished_def by (rule sess | assumption | rule allI impI conjI | simp)+

lemma keep_deliver [sess]: "sinv jt r a \<Longrightarrow> jt = se_jtext env \<Longrightarrow> sinv jt r (deliver_identified env s d a)"
  unfolding deliver_identified_def by (rule sess | assumption | rule allI impI conjI | simp)+

lemma keep_identification_final [sess]:
  "sinv jt r a \<Longrightarrow> jt = se_jtext env \<Longrightarrow> sinv jt r (on_identification_final env s a)"
  unfolding on_identification_final_def by (rule sess | assumption | rule allI impI conjI | simp)+

lemma keep_identification_diagnostic [sess]:
  "sinv jt r a \<Longrightarrow> jt = se_jtext env \<Longrightarrow> sinv jt r (on_identification_diagnostic env d a)"
  unfolding on_identification_diagnostic_def by (rule sess | assumption | rule allI impI conjI | simp)+

lemma keep_identification_wait [sess]:
  "sinv jt r a \<Longrightarrow> jt = se_jtext env \<Longrightarrow> sinv jt r (expire_identification_wait env a)"
  unfolding expire_identification_wait_def by (rule sess | assumption | rule allI impI conjI | simp)+

section \<open>Listening\<close>

lemma keep_restart_cycle [sess]: "sinv jt r a \<Longrightarrow> sinv jt r (restart_existing_vad_capture_cycle env a)"
  unfolding restart_existing_vad_capture_cycle_def
  by (rule sess | assumption | rule allI impI conjI | simp | simp split: prod.split)+

lemma keep_start_listening [sess]: "sinv jt r a \<Longrightarrow> sinv jt r (start_listening env mode a)"
  unfolding start_listening_def by (rule sess | assumption | rule allI impI conjI | simp)+

lemma keep_finish_manual [sess]: "sinv jt r a \<Longrightarrow> sinv jt r (finish_manual env a)"
  unfolding finish_manual_def
  by (rule sess | assumption | rule allI impI conjI | simp | simp split: prod.split)+

lemma keep_stop_manual [sess]: "sinv jt r a \<Longrightarrow> sinv jt r (stop_manual env a)"
  by (auto simp: stop_manual_def intro!: sess split: prod.split capture_outcome.split)

lemma keep_stop_vad [sess]: "sinv jt r a \<Longrightarrow> sinv jt r (stop_vad_capture env a)"
  unfolding stop_vad_capture_def by (rule sess | assumption | rule allI impI conjI | simp)+

lemma keep_detach_asr [sess]: "sinv jt r a \<Longrightarrow> pinv jt r (detach_asr_for_detect env a)"
  unfolding detach_asr_for_detect_def
  by (rule sess | assumption | rule allI impI conjI | simp | simp split: prod.split)+

lemma keep_detach [sess]: "sinv jt r a \<Longrightarrow> pinv jt r (detach_for_detect env a)"
  by (auto simp: detach_for_detect_def Let_def intro!: sess split: option.split listen_mode.split)

lemma keep_detect [sess]: "sinv jt r a \<Longrightarrow> jt = se_jtext env \<Longrightarrow> sinv jt r (accept_detect env s a)"
  unfolding accept_detect_def by (rule sess | assumption | rule allI impI conjI | simp)+

lemma keep_listen [sess]: "sinv jt r a \<Longrightarrow> jt = se_jtext env \<Longrightarrow> sinv jt r (on_listen_command env c a)"
  unfolding on_listen_command_def
  by (rule sess | assumption | rule allI impI conjI | simp | simp split: listen_command.split)+

lemma keep_abort_auto [sess]: "sinv jt r a \<Longrightarrow> sinv jt r (abort_auto_turn env a)"
  unfolding abort_auto_turn_def
  by (rule sess | assumption | rule allI impI conjI | simp | simp split: prod.split)+

lemma keep_abort [sess]: "sinv jt r a \<Longrightarrow> sinv jt r (abort_active_interaction env a)"
  unfolding abort_active_interaction_def by (rule sess | assumption | rule allI impI conjI | simp)+

section \<open>Recognition and audio\<close>

lemma keep_asr_cleanup [sess]: "sinv jt r a \<Longrightarrow> sinv jt r (asr_cleanup_event env event a)"
  by (auto simp: asr_cleanup_event_def intro!: sess split: asr_event.split)

lemma keep_transcript_text [sess]: "sinv jt r a \<Longrightarrow> jt = se_jtext env \<Longrightarrow> sinv jt r (accept_transcript env raw a)"
  unfolding accept_transcript_def by (rule sess | assumption | rule allI impI conjI | simp)+

lemma keep_asr_event [sess]: "sinv jt r a \<Longrightarrow> jt = se_jtext env \<Longrightarrow> sinv jt r (on_asr_event env event a)"
  by (auto simp: on_asr_event_def intro!: sess split: asr_event.split)

lemma keep_open_asr_retained [sess]: "sinv jt r a \<Longrightarrow> sinv jt r (open_asr_with_retention env retained a)"
  unfolding open_asr_with_retention_def
  by (rule sinv_with_identity | rule sinv_case_prod, erule (1) keep_open(1) | rule sess | assumption | rule allI impI conjI | simp)+

lemma keep_open_asr_speech [sess]: "sinv jt r a \<Longrightarrow> sinv jt r (open_asr_for_vad_speech env start a)"
  unfolding open_asr_for_vad_speech_def by (rule sess | assumption | rule allI impI conjI | simp)+

lemma keep_barge_in [sess]: "sinv jt r a \<Longrightarrow> sinv jt r (begin_acoustic_barge_in env start a)"
  unfolding begin_acoustic_barge_in_def by (rule sess | assumption | rule allI impI conjI | simp)+

lemma keep_speech_start [sess]: "sinv jt r a \<Longrightarrow> sinv jt r (vad_speech_start env start a)"
  unfolding vad_speech_start_def by (rule sess | assumption | rule allI impI conjI | simp)+

lemma keep_speech_end [sess]: "sinv jt r a \<Longrightarrow> sinv jt r (vad_speech_end env a)"
  unfolding vad_speech_end_def by (rule sess | assumption | rule allI impI conjI | simp)+

lemma keep_vad_reset_done [sess]: "sinv jt r a \<Longrightarrow> sinv jt r (vad_reset_done cycle a)"
  unfolding vad_reset_done_def by (rule sess | assumption | rule allI impI conjI | simp)+

lemma keep_probability [sess]: "sinv jt r a \<Longrightarrow> sinv jt r (vad_probability_event env p a)"
  by (auto simp: vad_probability_event_def Let_def intro!: sess split: sum.split prod.split option.split vad_boundary.split)

lemma keep_vad_event [sess]: "sinv jt r a \<Longrightarrow> sinv jt r (on_vad_event env event a)"
  by (auto simp: on_vad_event_def intro!: sess split: vad_event.split)

lemma keep_decode [sess]: "sinv jt r a \<Longrightarrow> pinv jt r (decode_uplink env payload a)"
  by (auto simp: decode_uplink_def Let_def split: decode_outcome.split frame_drop.split)

lemma keep_defer [sess]: "sinv jt r a \<Longrightarrow> pinv jt r (defer_switch_ingress env event a)"
  by (auto simp: defer_switch_ingress_def intro!: sess)

lemma keep_vad_frame [sess]: "sinv jt r a \<Longrightarrow> pinv jt r (vad_frame env pcm a)"
  unfolding vad_frame_def
  by (rule sess retention_fits_push | assumption | erule sinvD(1) | rule allI impI conjI | simp | simp split: option.split prod.split)+

lemma keep_manual_frame [sess]: "sinv jt r a \<Longrightarrow> pinv jt r (manual_frame env frame pcm a)"
  unfolding manual_frame_def
  by (rule sess | assumption | rule allI impI conjI | simp | simp split: prod.split bool.split)+

lemma keep_binary [sess]: "sinv jt r a \<Longrightarrow> pinv jt r (on_binary env payload a)"
  unfolding on_binary_def by (rule sess | assumption | rule allI impI conjI | simp)+

lemma keep_apply_message [sess]: "sinv jt r a \<Longrightarrow> jt = se_jtext env \<Longrightarrow> sinv jt r (apply_client_message env m a)"
  by (auto simp: apply_client_message_def intro!: sess split: client_message.split)

lemma keep_client_message [sess]: "sinv jt r a \<Longrightarrow> jt = se_jtext env \<Longrightarrow> sinv jt r (on_client_message env m a)"
  by (auto simp: on_client_message_def Let_def intro!: sess split: client_message.split)

section \<open>The Template boundary\<close>

lemma keep_replay_event [sess]: "sinv jt r a \<Longrightarrow> jt = se_jtext env \<Longrightarrow> sinv jt r (replay_event env event a)"
  by (auto simp: replay_event_def intro!: sess split: session_event.split)

lemma keep_replay [sess]: "sinv jt r a \<Longrightarrow> jt = se_jtext env \<Longrightarrow> sinv jt r (replay_switch_ingress env a)"
  by (auto simp: replay_switch_ingress_def intro!: sess)

lemma keep_rebind_vad [sess]: "sinv jt r a \<Longrightarrow> sinv jt r (rebind_vad env vad a)"
  unfolding rebind_vad_def by (rule sess | assumption | rule allI impI conjI | simp)+

lemma keep_rebind_asr [sess]: "sinv jt r a \<Longrightarrow> sinv jt r (rebind_asr env asr a)"
  unfolding rebind_asr_def by (rule sess | assumption | rule allI impI conjI | simp)+

lemma keep_rebind_llm [sess]: "sinv jt r a \<Longrightarrow> sinv jt r (rebind_llm env llm a)"
  unfolding rebind_llm_def by (rule sess | assumption | rule allI impI conjI | simp)+

lemma keep_rebind_tts [sess]: "sinv jt r a \<Longrightarrow> sinv jt r (rebind_tts tts fresh a)"
  by (simp add: rebind_tts_def Let_def split_beta)

lemma keep_install [sess]: "sinv jt r a \<Longrightarrow> pinv jt r (install_candidate_runtimes env rt a)"
  by (auto simp: install_candidate_runtimes_def Let_def split_beta intro!: sess)

lemma keep_drain_boundary [sess]: "sinv jt r a \<Longrightarrow> jt = se_jtext env \<Longrightarrow> sinv jt r (drain_managed_switch_boundary env a)"
  unfolding drain_managed_switch_boundary_def by (rule sess | assumption | rule allI impI conjI | simp)+

lemma keep_begin_boundary [sess]:
  "sinv jt r a \<Longrightarrow> jt = se_jtext env \<Longrightarrow> sinv jt r (begin_managed_switch_boundary env prepared a)"
  by (auto simp: begin_managed_switch_boundary_def Let_def split_beta intro!: sess)

lemma keep_apply_switch [sess]: "sinv jt r a \<Longrightarrow> sinv jt r (apply_template_switch env key a)"
  by (auto simp: apply_template_switch_def intro!: sess split: option.split)

lemma keep_drain_preparation [sess]: "sinv jt r a \<Longrightarrow> jt = se_jtext env \<Longrightarrow> sinv jt r (drain_template_preparation env a)"
  by (auto simp: drain_template_preparation_def intro!: sess split: option.split sum.split oneshot.split)

section \<open>The writer's reports and the model's answers\<close>

lemma keep_settle [sess]: "sinv jt r a \<Longrightarrow> sinv jt r (settle_delivery d a)"
  unfolding settle_delivery_def
  by (rule sess commit_assistant_ok | assumption | erule sinvD(2) | rule allI impI conjI | simp)+

lemma keep_boundary_actions [sess]: "sinv jt r a \<Longrightarrow> jt = se_jtext env \<Longrightarrow> sinv jt r (apply_boundary_actions env actions a)"
  unfolding apply_boundary_actions_def by (rule sess | assumption | rule allI impI conjI | simp)+

lemma keep_turn_closed [sess]: "sinv jt r a \<Longrightarrow> jt = se_jtext env \<Longrightarrow> sinv jt r (on_turn_closed env t outcome a)"
  unfolding on_turn_closed_def
  by (rule sess | assumption | rule allI impI conjI | simp | simp split: prod.split)+

lemma keep_writer_event [sess]: "sinv jt r a \<Longrightarrow> jt = se_jtext env \<Longrightarrow> sinv jt r (on_writer_event env event a)"
  by (auto simp: on_writer_event_def intro!: sess split: writer_event.split)

lemma keep_drain_writer [sess]: "sinv jt r a \<Longrightarrow> jt = se_jtext env \<Longrightarrow> sinv jt r (drain_writer_events env a)"
  by (auto simp: drain_writer_events_def intro!: sess split: option.split)

lemma keep_llm_text [sess]: "sinv jt r a \<Longrightarrow> sinv jt r (llm_text env s a)"
  unfolding llm_text_def by (rule sess | assumption | rule allI impI conjI | simp)+

lemma keep_llm_call [sess]: "sinv jt r a \<Longrightarrow> sinv jt r (llm_call env call a)"
  unfolding llm_call_def by (rule sess | assumption | rule allI impI conjI | simp)+

lemma keep_llm_finished [sess]:
  "sinv jt r a \<Longrightarrow> jt = se_jtext env \<Longrightarrow> sa_llm_operation a \<noteq> None \<Longrightarrow> sinv jt r (llm_finished env a)"
  by (auto simp: llm_finished_def Let_def intro!: sess dest: sinvD(7) split: option.split)

lemma keep_llm_event [sess]: "sinv jt r a \<Longrightarrow> jt = se_jtext env \<Longrightarrow> sinv jt r (on_llm_event env event a)"
  by (auto simp: on_llm_event_def llm_event_current_def intro!: sess split: llm_event.split)

section \<open>The delivery of speech\<close>

lemma keep_flush_audio [sess]:
  assumes "sinv jt r a" shows "pinv jt r (flush_pending_audio a)"
proof (cases "sa_pending_audio a")
  case None
  with assms show ?thesis by (simp add: flush_pending_audio_def)
next
  case (Some m)
  from sinvD(8) [OF assms Some] have m: "audio_message m" "message_generation m \<le> sa_generation a" by auto
  have a1: "sinv jt r (a\<lparr>sa_pending_audio := None\<rparr>)" using assms by (auto intro!: sess)
  from keep_audio_lane [OF this m(1)] m(2) have "sinv jt r (snd (send_audio_lane m (a\<lparr>sa_pending_audio := None\<rparr>)))"
    by (simp add: pinv_def)
  moreover have "sa_generation (snd (send_audio_lane m (a\<lparr>sa_pending_audio := None\<rparr>))) = sa_generation a"
    by (simp add: send_audio_lane_def)
  ultimately show ?thesis
    using m Some by (auto simp: flush_pending_audio_def split_beta intro!: sess split: lane_answer.split)
qed

lemma keep_segment_ready [sess]: "sinv jt r a \<Longrightarrow> pinv jt r (segment_ready env s a)"
  unfolding segment_ready_def
  by (rule sess | assumption | rule allI impI conjI | simp | simp split: prod.split bool.split)+

lemma keep_speech_started [sess]: "sinv jt r a \<Longrightarrow> pinv jt r (speech_started env a)"
  unfolding speech_started_def
  by (rule sess | assumption | rule allI impI conjI | simp | simp split: prod.split bool.split)+

lemma keep_speech_packet [sess]:
  assumes "sinv jt r a" shows "pinv jt r (speech_packet env p a)"
proof (cases "sa_turn a")
  case None
  with assms show ?thesis by (auto simp: speech_packet_def current_turn_id_def intro!: sess)
next
  case (Some c)
  define m where "m = OutBinary (sa_generation a) (tc_turn c) p"
  from keep_audio_lane [OF assms, of m] have "sinv jt r (snd (send_audio_lane m a))" by (simp add: m_def pinv_def)
  moreover have "sa_generation (snd (send_audio_lane m a)) = sa_generation a" by (simp add: send_audio_lane_def)
  ultimately show ?thesis
    using Some by (auto simp: speech_packet_def current_turn_id_def m_def [symmetric] split_beta intro!: sess split: lane_answer.split)
      (simp_all add: m_def)
qed

lemma keep_speech_drained [sess]: "sinv jt r a \<Longrightarrow> jt = se_jtext env \<Longrightarrow> pinv jt r (speech_drained env a)"
  unfolding speech_drained_def
  by (rule sess | assumption | rule allI impI conjI | simp | simp split: prod.split bool.split)+

lemma keep_speech_round [sess]: "sinv jt r a \<Longrightarrow> jt = se_jtext env \<Longrightarrow> pinv jt r (speech_round env a)"
  by (auto simp: speech_round_def read_clock_def Let_def intro!: sess
      split: option.split prod.split sum.split speech_event.split)

lemma keep_speech_loop: "speech_loop env a = Some b \<Longrightarrow> sinv jt r a \<Longrightarrow> jt = se_jtext env \<Longrightarrow> sinv jt r b"
proof (induction rule: speech_loop.raw_induct [rotated 1, consumes 1, case_names step])
  case (step loop env a b)
  from keep_speech_round [OF step(3,4)] have "sinv jt r (snd (speech_round env a))" by (simp add: pinv_def)
  with step show ?case by (auto simp: split_beta split: if_splits)
qed

lemma keep_drain_speech [sess]: "sinv jt r a \<Longrightarrow> jt = se_jtext env \<Longrightarrow> sinv jt r (drain_speech_output env a)"
proof -
  assume a: "sinv jt r a" and jt: "jt = se_jtext env"
  from keep_flush_audio [OF a] have "sinv jt r (snd (flush_pending_audio a))" by (simp add: pinv_def)
  then show ?thesis
    using jt by (auto simp: drain_speech_output_def split_beta intro: keep_speech_loop split: bool.split option.split)
qed

section \<open>Ticks and events\<close>

lemma keep_llm_loop: "sinv jt r a \<Longrightarrow> jt = se_jtext env \<Longrightarrow> sinv jt r (llm_loop n env a)"
proof (induction n arbitrary: a)
  case (Suc n)
  then have "sinv jt r (flush_pending_llm_text env (drain_speech_output env (on_llm_event env e (a\<lparr>sa_llm_events := es\<rparr>))))"
    for e es
    by (auto intro!: sess)
  with Suc show ?case by (auto split: list.split)
qed simp

lemma keep_drain_llm [sess]: "sinv jt r a \<Longrightarrow> jt = se_jtext env \<Longrightarrow> sinv jt r (drain_llm_events env a)"
  by (simp only: drain_llm_events_def keep_llm_loop)

lemma keep_drain_provider [sess]: "sinv jt r a \<Longrightarrow> jt = se_jtext env \<Longrightarrow> sinv jt r (drain_provider_events env a)"
  unfolding drain_provider_events_def drain_asr_events_def drain_vad_events_def drain_diagnostics_def
  by (rule sess | assumption | rule allI impI conjI | simp)+

lemma keep_tick: "sinv jt r a \<Longrightarrow> jt = se_jtext env \<Longrightarrow> sinv jt r (worker_tick env a)"
  by (simp add: worker_tick_def sess)

lemma keep_close_waiting [sess]: "sinv jt r a \<Longrightarrow> sinv jt r (send_close_waiting code a)"
  by (simp add: send_close_waiting_def sinv_urgent)

lemma keep_leave [sess]: "sinv jt r a \<Longrightarrow> pinv jt r (leave_session env code a)"
  by (simp add: leave_session_def sess)

lemma keep_direct_event [sess]: "sinv jt r a \<Longrightarrow> sinv jt r (direct_speech_event env request x y a)"
  unfolding direct_speech_event_def by (rule sess | assumption | rule allI impI conjI | simp)+

lemma keep_session_event: "sinv jt r a \<Longrightarrow> jt = se_jtext env \<Longrightarrow> pinv jt r (on_session_event env event a)"
  by (auto simp: on_session_event_def intro!: sess split: session_event.split)

lemma keep_session_drop: "sinv jt r a \<Longrightarrow> sinv jt r (session_drop env a)"
  unfolding session_drop_def retain_pipeline_until_cleanup_def
  by (rule sess | assumption | rule allI impI conjI | simp)+

end
