(* ===== verification/Session_New.thy ===== *)
theory Session_New
  imports Session_Run
begin

text \<open>
  A new session (\<open>session/actor/construct.rs\<close>): the constructor and what admission installs in the actor before its
  loop starts. The channels, the limiter, the gate and the runtimes are made by the application; they come
  in a seed.
\<close>

record ('f, 'e) session_seed =
  sd_id :: rstr
  sd_runtimes :: agent_runtimes
  sd_worlds :: "nat \<Rightarrow> 'f tts_pool \<times> nat list"
  sd_limiter :: turn_limiter
  sd_gate :: generation_gate
  sd_control_capacity :: usize
  sd_urgent_capacity :: usize
  sd_audio_capacity :: usize
  sd_max_capture :: usize
  sd_max_history :: usize
  sd_capture_allocated :: bool
  sd_decoder_ready :: bool
  sd_speech_config :: speech_output_config
  sd_limits :: tool_round_limits
  sd_profile :: template_profile
  sd_event_queue :: usize
  sd_frame_bytes :: usize
  sd_task_tools :: "tool_definition list option"

definition device_mcp_default :: device_mcp where
  "device_mcp_default =
     \<lparr>dm_enabled = False, dm_ready = False, dm_failed = False, dm_next_id = 0, dm_delivery = LlmThenTts,
      dm_tool_delivery = [], dm_call_timeout = 0, dm_discovery_timeout = 0, dm_discovered = [], dm_visible = [],
      dm_pending = [], dm_vision = None\<rparr>"

text \<open>The actor once its capture buffer, its decoder and its speech output exist.\<close>

definition fresh_actor ::
    "('f, 'e) session_seed \<Rightarrow> manual_capture \<Rightarrow> ('f, 'e) speech_output \<Rightarrow> (nat \<Rightarrow> 'f tts_pool \<times> nat list) \<Rightarrow> ('f, 'e) actor" where
  "fresh_actor sd capture so worlds =
     \<lparr>sa_session_id = sd_id sd, sa_phase = Ready, sa_pilot = pilot_new False, sa_pipeline_permit = False,
      sa_pipeline_status = False, sa_turn_status = False, sa_tool_status = False, sa_status_active = False,
      sa_status_outcome = ''failed'', sa_request = 0, sa_writer_pending = {}, sa_accepted_frames = 0, sa_decoded = 0,
      sa_manual = capture, sa_asr = ar_asr (sd_runtimes sd), sa_asr_events = [], sa_asr_stream = None,
      sa_asr_cleanup = {}, sa_vad = ar_vad (sd_runtimes sd), sa_vad_events = [], sa_vad_session = None,
      sa_vad_cycle = None, sa_pending_cycle = None, sa_next_cycle = 1, sa_mode = None, sa_arm_pending = False,
      sa_auto_speech = False, sa_auto_reset = False, sa_segmenter = ar_segmenter (sd_runtimes sd),
      sa_retention = retention_new (auto_retention_capacity (ar_command_capacity (sd_runtimes sd))
        (ar_min_speech (sd_runtimes sd)) (ar_pre_roll (sd_runtimes sd))),
      sa_pre_roll = ar_pre_roll (sd_runtimes sd), sa_limiter = sd_limiter sd, sa_generation = 0, sa_next_turn = 1,
      sa_next_operation = 1, sa_turn = None, sa_history = history_new (sd_max_history sd),
      sa_llm = ar_llm (sd_runtimes sd), sa_llm_events = [], sa_llm_operation = None, sa_delta = None,
      sa_finish_pending = False, sa_response = [], sa_origin = LlmOrigin, sa_direct_request = None,
      sa_direct_metadata = False, sa_direct_closed = False, sa_tts = ar_tts (sd_runtimes sd), sa_tts_world = worlds,
      sa_speech = so, sa_speech_config = sd_speech_config sd, sa_tts_started = False, sa_delivery = None,
      sa_actions = no_actions, sa_prepare = None, sa_boundary = None, sa_deferred = [],
      sa_ingress_capacity = sd_event_queue sd, sa_max_frame_bytes = sd_frame_bytes sd, sa_control = [], sa_urgent = [],
      sa_audio = [], sa_control_capacity = sd_control_capacity sd, sa_urgent_capacity = sd_urgent_capacity sd,
      sa_audio_capacity = sd_audio_capacity sd, sa_lanes_open = True, sa_shutdown = False, sa_gate = sd_gate sd,
      sa_writer_events = None, sa_pending_audio = None, sa_client_aec = False,
      sa_barge_in = \<lparr>bp_enabled = False, bp_trust = False\<rparr>, sa_mcp = device_mcp_default, sa_batch = None,
      sa_task_tools = sd_task_tools sd, sa_job_mailbox = False, sa_job_pending = None, sa_messages = [],
      sa_round = None, sa_rounds = tool_rounds_new (sd_limits sd), sa_async = [], sa_max_result_chars = 4096,
      sa_profile = sd_profile sd, sa_catalog = \<lparr>sc_candidates = [], sc_cold = [], sc_manager = False\<rparr>,
      sa_external = [], sa_external_routes = [], sa_external_guard = False, sa_system = None, sa_reminders = False,
      sa_memory = None, sa_wiki = False, sa_memory_receipt = None, sa_memory_call = None, sa_transcript = None,
      sa_observe = None, sa_security_revoked = False, sa_speaker_status = False, sa_observe_pcm = [],
      sa_observing = False, sa_ident_text = None, sa_ident_diagnostic = None, sa_ident_deadline = None,
      sa_ident_finished = False, sa_speaker = None, sa_diagnostics = [], sa_admission_open = True, sa_wakeups = 0,
      sa_reminder_failures = None,
      sa_calls = [CallRegister (ar_asr (sd_runtimes sd)), CallRegister (ar_vad (sd_runtimes sd)),
        CallRegister (ar_llm (sd_runtimes sd))],
      sa_clock_reads = 0, sa_lost = False\<rparr>"

text \<open>The decoder and the encoder of the speech output are native; either may not open.\<close>

definition session_new ::
    "('f, 'e) session_env \<Rightarrow> ('f, 'e) session_seed \<Rightarrow> audio_error + ('f, 'e) actor" where
  "session_new env sd =
     (if \<not> sd_decoder_ready sd then Inl DecoderInit
      else (case capture_new (sd_capture_allocated sd) (sd_max_capture sd) of
              Inl e \<Rightarrow> Inl e
            | Inr capture \<Rightarrow>
                if \<not> se_encoder_ready env then Inl EncoderInit
                else let tts = ar_tts (sd_runtimes sd);
                    (p, watched) = sd_worlds sd tts;
                    (so, q) = with_worker (se_speech env) (se_tts_view env tts) (sd_speech_config sd) p
                in Inr (fresh_actor sd capture so ((sd_worlds sd)(tts := (q, watched))))))"

section \<open>What admission installs\<close>

definition with_pilot_admission :: "pilot \<Rightarrow> bool \<Rightarrow> ('f, 'e) actor \<Rightarrow> ('f, 'e) actor" where
  "with_pilot_admission p status a = a\<lparr>sa_pilot := p, sa_pipeline_status := status\<rparr>"

definition with_reminder_events :: "bool \<Rightarrow> ('f, 'e) actor \<Rightarrow> ('f, 'e) actor" where
  "with_reminder_events present a = a\<lparr>sa_reminder_failures := (if present then Some [] else None)\<rparr>"

definition with_reminder_tools :: "bool \<Rightarrow> ('f, 'e) actor \<Rightarrow> ('f, 'e) actor" where
  "with_reminder_tools present a = a\<lparr>sa_reminders := present\<rparr>"

definition with_session_memory :: "tool_definition list option \<Rightarrow> ('f, 'e) actor \<Rightarrow> ('f, 'e) actor" where
  "with_session_memory tools a = a\<lparr>sa_memory := tools\<rparr>"

definition with_session_wiki :: "bool \<Rightarrow> ('f, 'e) actor \<Rightarrow> ('f, 'e) actor" where
  "with_session_wiki present a = a\<lparr>sa_wiki := present\<rparr>"

definition with_switch_ingress_limits :: "usize \<Rightarrow> usize \<Rightarrow> ('f, 'e) actor \<Rightarrow> ('f, 'e) actor" where
  "with_switch_ingress_limits capacity max_frame_bytes a =
     a\<lparr>sa_ingress_capacity := capacity, sa_max_frame_bytes := max_frame_bytes\<rparr>"

definition with_transcript :: "bool \<Rightarrow> ('f, 'e) actor \<Rightarrow> ('f, 'e) actor" where
  "with_transcript present a = a\<lparr>sa_transcript := (if present then Some [] else None)\<rparr>"

definition with_speaker_observe :: "speaker_observe option \<Rightarrow> bool \<Rightarrow> ('f, 'e) actor \<Rightarrow> ('f, 'e) actor" where
  "with_speaker_observe observe status_frames a = a\<lparr>sa_observe := observe, sa_speaker_status := status_frames\<rparr>"

definition with_client_capabilities :: "bool \<Rightarrow> barge_in_policy \<Rightarrow> ('f, 'e) actor \<Rightarrow> ('f, 'e) actor" where
  "with_client_capabilities aec policy a = a\<lparr>sa_client_aec := aec, sa_barge_in := policy\<rparr>"

record mcp_config =
  mg_enabled :: bool
  mg_delivery :: result_delivery
  mg_policy :: "(rstr \<times> result_delivery) list"
  mg_call_timeout :: nat
  mg_discovery_timeout :: nat

definition with_device_mcp :: "bool \<Rightarrow> mcp_config \<Rightarrow> vision_capability option \<Rightarrow> ('f, 'e) actor \<Rightarrow> ('f, 'e) actor" where
  "with_device_mcp advertised config vision a =
     a\<lparr>sa_mcp := (sa_mcp a)\<lparr>dm_enabled := advertised \<and> mg_enabled config, dm_delivery := mg_delivery config,
         dm_tool_delivery := fold (\<lambda>(name, d) m. hm_insert name d m) (mg_policy config) [],
         dm_call_timeout := mg_call_timeout config, dm_discovery_timeout := mg_discovery_timeout config,
         dm_vision := vision\<rparr>\<rparr>"

definition with_tool_round_limits :: "tool_round_limits \<Rightarrow> ('f, 'e) actor \<Rightarrow> ('f, 'e) actor" where
  "with_tool_round_limits limits a = a\<lparr>sa_rounds := tool_rounds_new limits\<rparr>"

definition with_turn_status :: "bool \<Rightarrow> ('f, 'e) actor \<Rightarrow> ('f, 'e) actor" where
  "with_turn_status enabled a = a\<lparr>sa_turn_status := enabled\<rparr>"

definition with_tool_status :: "bool \<Rightarrow> ('f, 'e) actor \<Rightarrow> ('f, 'e) actor" where
  "with_tool_status enabled a = a\<lparr>sa_tool_status := enabled\<rparr>"

definition with_direct_metadata :: "bool \<Rightarrow> ('f, 'e) actor \<Rightarrow> ('f, 'e) actor" where
  "with_direct_metadata enabled a = a\<lparr>sa_direct_metadata := enabled\<rparr>"

text \<open>The close signals of the connection; \<open>cancelled\<close> is whether one of the new ones is cancelled.\<close>

definition with_direct_session_closes :: "bool \<Rightarrow> ('f, 'e) actor \<Rightarrow> ('f, 'e) actor" where
  "with_direct_session_closes cancelled a = a\<lparr>sa_direct_closed := sa_direct_closed a \<or> cancelled\<rparr>"

definition with_job_mailbox :: "('f, 'e) actor \<Rightarrow> ('f, 'e) actor" where
  "with_job_mailbox a = a\<lparr>sa_job_mailbox := True\<rparr>"

definition with_system_mcp :: "tool_definition list option \<Rightarrow> ('f, 'e) actor \<Rightarrow> ('f, 'e) actor" where
  "with_system_mcp tools a = a\<lparr>sa_system := tools\<rparr>"

definition with_admission_gate :: "bool \<Rightarrow> ('f, 'e) actor \<Rightarrow> ('f, 'e) actor" where
  "with_admission_gate is_open a = a\<lparr>sa_admission_open := is_open\<rparr>"

definition with_prompt_config :: "agent_config \<Rightarrow> usize \<Rightarrow> ('f, 'e) actor \<Rightarrow> prompt_error + ('f, 'e) actor" where
  "with_prompt_config agent max_chars a =
     (case render_system agent of
        Inl e \<Rightarrow> Inl e
      | Inr system \<Rightarrow>
          Inr (a\<lparr>sa_profile := (sa_profile a)\<lparr>tp_prompt := system, tp_language := ag_language agent\<rparr>,
                 sa_max_result_chars := max_chars\<rparr>))"

definition with_effective_profile ::
    "template_profile \<Rightarrow> switch_catalog \<Rightarrow> (rstr \<times> tool_definition list) list \<Rightarrow> (rstr, rstr) hmap \<Rightarrow> usize \<Rightarrow>
     ('f, 'e) actor \<Rightarrow> prompt_error + ('f, 'e) actor" where
  "with_effective_profile profile catalog external routes max_chars a =
     (if MAX_RENDERED_SYSTEM_PROMPT_BYTES < byte_len (tp_prompt profile) then Inl SystemPromptTooLarge
      else Inr (a\<lparr>sa_profile := profile, sa_catalog := catalog, sa_external := external, sa_external_routes := routes,
                  sa_max_result_chars := max_chars\<rparr>))"

definition with_writer_events :: "('f, 'e) actor \<Rightarrow> ('f, 'e) actor" where
  "with_writer_events a = a\<lparr>sa_writer_events := Some []\<rparr>"

definition with_delivery_runtime_config ::
    "('f, 'e) session_env \<Rightarrow> speech_output_config \<Rightarrow> ('f, 'e) actor \<Rightarrow> audio_error + ('f, 'e) actor" where
  "with_delivery_runtime_config env config a =
     (if \<not> se_encoder_ready env then Inl EncoderInit
      else let (p, watched) = sa_tts_world a (sa_tts a);
               (fresh, q) = with_worker (se_speech env) (se_tts_view env (sa_tts a)) config p;
               (_, q') = speech_release (sa_speech a) q
           in Inr (a\<lparr>sa_tts_world := (sa_tts_world a)(sa_tts a := (q', watched)), sa_speech := fresh,
                     sa_speech_config := config\<rparr>))"

end
