(* ===== verification/Session_System.thy ===== *)
theory Session_System
  imports Session_Keeps_Run Session_New Writer_Theorems
begin

text \<open>
  The session among the others: its loop, the writer it shares lanes, gate and request count with, the workers
  and tasks that fill its mailboxes, the other sessions that take permits of the same limiter, and its end.
  Each step is one turn of a loop, so every interleaving of the tasks is a run.
\<close>

section \<open>The system\<close>

datatype session_stage = Running | Leaving | Gone

record ('f, 'e) session_sys =
  ys_actor :: "('f, 'e) actor"
  ys_writer :: writer
  ys_stage :: session_stage

text \<open>The lanes of the writer are those of the actor.\<close>

definition writer_lanes :: "('f, 'e) actor \<Rightarrow> writer \<Rightarrow> writer" where
  "writer_lanes a w = w\<lparr>wr_urgent := sa_urgent a, wr_control := sa_control a, wr_audio := sa_audio a\<rparr>"

definition writer_view :: "('f, 'e) session_sys \<Rightarrow> writer_sys" where
  "writer_view s = \<lparr>ws_writer = writer_lanes (ys_actor s) (ys_writer s), ws_gate = sa_gate (ys_actor s),
     ws_request = sa_request (ys_actor s)\<rparr>"

text \<open>After a pass: what is left on the lanes, and what the writer reported.\<close>

definition after_pass :: "writer \<Rightarrow> writer \<Rightarrow> ('f, 'e) actor \<Rightarrow> ('f, 'e) actor" where
  "after_pass w w' a =
     a\<lparr>sa_urgent := wr_urgent w', sa_control := wr_control w', sa_audio := wr_audio w',
       sa_writer_events := map_option (\<lambda>es. es @ drop (length (wr_events w)) (wr_events w')) (sa_writer_events a)\<rparr>"

text \<open>
  What the rest of the server may do to the state a session reads: fill its mailboxes, answer a preparation, work
  in the TTS pools, take and give back the permits of other sessions, close gates.
\<close>

definition own_permits :: "('f, 'e) actor \<Rightarrow> nat" where
  "own_permits a = of_bool (sa_turn a \<noteq> None)"

definition outside :: "('f, 'e) actor \<Rightarrow> ('f, 'e) actor \<Rightarrow> bool" where
  "outside a b \<longleftrightarrow>
     (\<exists>asr vad llm async diagnostics answer worlds p l admission revoked closed.
        b = a\<lparr>sa_asr_events := asr, sa_vad_events := vad, sa_llm_events := llm, sa_async := async,
              sa_diagnostics := diagnostics, sa_prepare := map_option (\<lambda>q. q\<lparr>tq_completion := answer\<rparr>) (sa_prepare a),
              sa_tts_world := worlds, sa_pilot := p, sa_limiter := l, sa_admission_open := admission,
              sa_security_revoked := revoked, sa_direct_closed := closed\<rparr> \<and>
        tl_capacity l = tl_capacity (sa_limiter a) \<and> own_permits a \<le> tl_active l \<and> tl_active l \<le> tl_capacity l)"

inductive session_step :: "(json \<Rightarrow> rstr) \<Rightarrow> ('f, 'e) session_sys \<Rightarrow> ('f, 'e) session_sys \<Rightarrow> bool" for jt where
  tick: "ys_stage s = Running \<Longrightarrow> se_jtext env = jt \<Longrightarrow>
    session_step jt s (s\<lparr>ys_actor := worker_tick env (ys_actor s)\<rparr>)"
| discovery: "ys_stage s = Running \<Longrightarrow> se_jtext env = jt \<Longrightarrow>
    session_step jt s (s\<lparr>ys_actor := begin_mcp_discovery env (ys_actor s)\<rparr>)"
| event: "ys_stage s = Running \<Longrightarrow> se_jtext env = jt \<Longrightarrow> on_session_event env e (ys_actor s) = (True, a) \<Longrightarrow>
    session_step jt s (s\<lparr>ys_actor := a\<rparr>)"
| last_event: "ys_stage s = Running \<Longrightarrow> se_jtext env = jt \<Longrightarrow> on_session_event env e (ys_actor s) = (False, a) \<Longrightarrow>
    session_step jt s (s\<lparr>ys_actor := a\<lparr>sa_phase := Closed\<rparr>, ys_stage := Leaving\<rparr>)"
| ingress_closed: "ys_stage s = Running \<Longrightarrow>
    session_step jt s (s\<lparr>ys_actor := (ys_actor s)\<lparr>sa_phase := Closed\<rparr>, ys_stage := Leaving\<rparr>)"
| dropped: "ys_stage s = Leaving \<Longrightarrow> se_jtext env = jt \<Longrightarrow>
    session_step jt s (s\<lparr>ys_actor := session_drop env (ys_actor s), ys_stage := Gone\<rparr>)"
| observed: "se_jtext env = jt \<Longrightarrow> session_step jt s (s\<lparr>ys_actor := observe_finished env d (ys_actor s)\<rparr>)"
| others: "outside (ys_actor s) a \<Longrightarrow> session_step jt s (s\<lparr>ys_actor := a\<rparr>)"
| writes: "writer_step env (writer_lanes (ys_actor s) (ys_writer s)) = Some w \<Longrightarrow> we_gate env = sa_gate (ys_actor s) \<Longrightarrow>
    we_request env = sa_request (ys_actor s) \<Longrightarrow>
    session_step jt s (s\<lparr>ys_actor := after_pass (ys_writer s) w (ys_actor s), ys_writer := w\<rparr>)"

text \<open>A session starts with an actor that admission made and configured.\<close>

inductive admitted_actor :: "('f, 'e) session_env \<Rightarrow> ('f, 'e) session_seed \<Rightarrow> ('f, 'e) actor \<Rightarrow> bool" for env sd where
  "session_new env sd = Inr a \<Longrightarrow> admitted_actor env sd a"
| "admitted_actor env sd a \<Longrightarrow> admitted_actor env sd (with_pilot_admission p status a)"
| "admitted_actor env sd a \<Longrightarrow> admitted_actor env sd (with_reminder_events present a)"
| "admitted_actor env sd a \<Longrightarrow> admitted_actor env sd (with_reminder_tools present a)"
| "admitted_actor env sd a \<Longrightarrow> admitted_actor env sd (with_session_memory tools a)"
| "admitted_actor env sd a \<Longrightarrow> admitted_actor env sd (with_session_wiki present a)"
| "admitted_actor env sd a \<Longrightarrow> admitted_actor env sd (with_switch_ingress_limits capacity bytes a)"
| "admitted_actor env sd a \<Longrightarrow> admitted_actor env sd (with_transcript present a)"
| "admitted_actor env sd a \<Longrightarrow> admitted_actor env sd (with_speaker_observe observe frames a)"
| "admitted_actor env sd a \<Longrightarrow> admitted_actor env sd (with_client_capabilities aec policy a)"
| "admitted_actor env sd a \<Longrightarrow> admitted_actor env sd (with_device_mcp advertised config vision a)"
| "admitted_actor env sd a \<Longrightarrow> admitted_actor env sd (with_tool_round_limits limits a)"
| "admitted_actor env sd a \<Longrightarrow> admitted_actor env sd (with_turn_status enabled a)"
| "admitted_actor env sd a \<Longrightarrow> admitted_actor env sd (with_tool_status enabled a)"
| "admitted_actor env sd a \<Longrightarrow> admitted_actor env sd (with_direct_metadata enabled a)"
| "admitted_actor env sd a \<Longrightarrow> admitted_actor env sd (with_direct_session_closes cancelled a)"
| "admitted_actor env sd a \<Longrightarrow> admitted_actor env sd (with_job_mailbox a)"
| "admitted_actor env sd a \<Longrightarrow> admitted_actor env sd (with_system_mcp tools a)"
| "admitted_actor env sd a \<Longrightarrow> admitted_actor env sd (with_admission_gate is_open a)"
| "admitted_actor env sd a \<Longrightarrow> with_prompt_config agent n a = Inr b \<Longrightarrow> admitted_actor env sd b"
| "admitted_actor env sd a \<Longrightarrow> with_effective_profile profile catalog external routes n a = Inr b \<Longrightarrow> admitted_actor env sd b"
| "admitted_actor env sd a \<Longrightarrow> admitted_actor env sd (with_writer_events a)"
| "admitted_actor env sd a \<Longrightarrow> with_delivery_runtime_config env config a = Inr b \<Longrightarrow> admitted_actor env sd b"

definition seed_ok :: "('f, 'e) session_seed \<Rightarrow> bool" where
  "seed_ok sd \<longleftrightarrow> sd_gate sd = gate_new \<and> tl_active (sd_limiter sd) \<le> tl_capacity (sd_limiter sd)"

definition session_start :: "('f, 'e) session_sys \<Rightarrow> bool" where
  "session_start s \<longleftrightarrow>
     (\<exists>env sd. seed_ok sd \<and> admitted_actor env sd (ys_actor s)) \<and> ys_writer s = writer_new \<and> ys_stage s = Running"

section \<open>Good states\<close>

definition good :: "(json \<Rightarrow> rstr) \<Rightarrow> ('f, 'e) actor \<Rightarrow> bool" where
  "good jt a \<longleftrightarrow> sinv jt a a"

lemma sinv_good: "sinv jt r a \<Longrightarrow> good jt a"
  by (auto simp: good_def sinv_def permits_balance_def)

lemma limiter_update_good: "good jt a \<Longrightarrow> own_permits a \<le> tl_active l \<Longrightarrow> tl_active l \<le> tl_capacity l \<Longrightarrow> good jt (a\<lparr>sa_limiter := l\<rparr>)"
  by (auto simp: good_def sinv_def permits_balance_def own_permits_def)

lemma good_frame [simp]:
  "good jt (a\<lparr>sa_asr_events := x0\<rparr>) = good jt a"
  "good jt (a\<lparr>sa_vad_events := x1\<rparr>) = good jt a"
  "good jt (a\<lparr>sa_llm_events := x2\<rparr>) = good jt a"
  "good jt (a\<lparr>sa_async := x3\<rparr>) = good jt a"
  "good jt (a\<lparr>sa_diagnostics := x4\<rparr>) = good jt a"
  "good jt (a\<lparr>sa_prepare := x5\<rparr>) = good jt a"
  "good jt (a\<lparr>sa_tts_world := x6\<rparr>) = good jt a"
  "good jt (a\<lparr>sa_pilot := x7\<rparr>) = good jt a"
  "good jt (a\<lparr>sa_admission_open := x8\<rparr>) = good jt a"
  "good jt (a\<lparr>sa_security_revoked := x9\<rparr>) = good jt a"
  "good jt (a\<lparr>sa_direct_closed := x10\<rparr>) = good jt a"
  "good jt (a\<lparr>sa_writer_events := x11\<rparr>) = good jt a"
  by (simp_all add: good_def sinv_def permits_balance_def)

lemma good_lanes:
  "good jt (a\<lparr>sa_urgent := us\<rparr>) = good jt a"
  "good jt a \<Longrightarrow> list_all (\<lambda>m. message_generation m \<le> sa_generation a) xs \<Longrightarrow> good jt (a\<lparr>sa_control := xs\<rparr>)"
  "good jt a \<Longrightarrow> list_all (\<lambda>m. message_generation m \<le> sa_generation a) xs \<Longrightarrow> good jt (a\<lparr>sa_audio := xs\<rparr>)"
  by (simp_all add: good_def sinv_def permits_balance_def)

lemma good_tags:
  "good jt a \<Longrightarrow> list_all (\<lambda>m. message_generation m \<le> sa_generation a) (sa_control a)"
  "good jt a \<Longrightarrow> list_all (\<lambda>m. message_generation m \<le> sa_generation a) (sa_audio a)"
  by (simp_all add: good_def sinv_def)

text \<open>What holds when the loop starts.\<close>

definition start_ok :: "(json \<Rightarrow> rstr) \<Rightarrow> ('f, 'e) actor \<Rightarrow> bool" where
  "start_ok jt a \<longleftrightarrow>
     good jt a \<and> sa_control a = [] \<and> sa_urgent a = [] \<and> sa_audio a = [] \<and> sa_gate a = gate_new \<and> sa_turn a = None \<and>
     sa_batch a = None \<and> sa_deferred a = []"

lemma fresh_start:
  assumes "seed_ok sd" and "session_new env sd = Inr a"
  shows "start_ok jt a"
proof -
  from assms(2) obtain capture so worlds where a: "a = fresh_actor sd capture so worlds"
    by (auto simp: session_new_def Let_def split: if_splits sum.splits prod.splits)
  show ?thesis
    using assms(1)
    by (auto simp: a start_ok_def good_def sinv_def fresh_actor_def seed_ok_def permits_balance_def turn_fits_def gate_new_def
        history_ok_def history_new_def prompt_shape_def calls_fit_def call_ok_def tool_rounds_new_def U64_MAX_def)
qed

lemma good_keep:
  assumes "start_ok jt a"
  shows "start_ok jt (a\<lparr>sa_ingress_capacity := n\<rparr>)" and "start_ok jt (a\<lparr>sa_rounds := tool_rounds_new limits\<rparr>)"
  using assms by (auto simp: start_ok_def good_def sinv_def permits_balance_def tool_rounds_new_def)

lemma start_keep [simp]:
  "start_ok jt (a\<lparr>sa_pilot := x1\<rparr>) = start_ok jt a" "start_ok jt (a\<lparr>sa_pipeline_status := x2\<rparr>) = start_ok jt a"
  "start_ok jt (a\<lparr>sa_reminder_failures := x3\<rparr>) = start_ok jt a" "start_ok jt (a\<lparr>sa_reminders := x4\<rparr>) = start_ok jt a"
  "start_ok jt (a\<lparr>sa_memory := x5\<rparr>) = start_ok jt a" "start_ok jt (a\<lparr>sa_wiki := x6\<rparr>) = start_ok jt a"
  "start_ok jt (a\<lparr>sa_max_frame_bytes := x7\<rparr>) = start_ok jt a" "start_ok jt (a\<lparr>sa_transcript := x8\<rparr>) = start_ok jt a"
  "start_ok jt (a\<lparr>sa_observe := x9\<rparr>) = start_ok jt a" "start_ok jt (a\<lparr>sa_speaker_status := x10\<rparr>) = start_ok jt a"
  "start_ok jt (a\<lparr>sa_client_aec := x11\<rparr>) = start_ok jt a" "start_ok jt (a\<lparr>sa_barge_in := x12\<rparr>) = start_ok jt a"
  "start_ok jt (a\<lparr>sa_mcp := x13\<rparr>) = start_ok jt a" "start_ok jt (a\<lparr>sa_admission_open := x14\<rparr>) = start_ok jt a"
  "start_ok jt (a\<lparr>sa_profile := x15\<rparr>) = start_ok jt a" "start_ok jt (a\<lparr>sa_max_result_chars := x16\<rparr>) = start_ok jt a"
  "start_ok jt (a\<lparr>sa_catalog := x17\<rparr>) = start_ok jt a" "start_ok jt (a\<lparr>sa_external := x18\<rparr>) = start_ok jt a"
  "start_ok jt (a\<lparr>sa_external_routes := x19\<rparr>) = start_ok jt a" "start_ok jt (a\<lparr>sa_writer_events := x20\<rparr>) = start_ok jt a"
  "start_ok jt (a\<lparr>sa_tts_world := x21\<rparr>) = start_ok jt a" "start_ok jt (a\<lparr>sa_speech := x22\<rparr>) = start_ok jt a"
  "start_ok jt (a\<lparr>sa_speech_config := x23\<rparr>) = start_ok jt a" "start_ok jt (a\<lparr>sa_turn_status := x24\<rparr>) = start_ok jt a"
  "start_ok jt (a\<lparr>sa_tool_status := x25\<rparr>) = start_ok jt a" "start_ok jt (a\<lparr>sa_direct_metadata := x26\<rparr>) = start_ok jt a"
  "start_ok jt (a\<lparr>sa_direct_closed := x27\<rparr>) = start_ok jt a" "start_ok jt (a\<lparr>sa_job_mailbox := x28\<rparr>) = start_ok jt a"
  "start_ok jt (a\<lparr>sa_system := x29\<rparr>) = start_ok jt a"
  by (simp_all add: start_ok_def good_def sinv_def permits_balance_def)

lemmas builder_defs = with_pilot_admission_def with_reminder_events_def with_reminder_tools_def with_session_memory_def
  with_session_wiki_def with_switch_ingress_limits_def with_transcript_def with_speaker_observe_def
  with_client_capabilities_def with_device_mcp_def with_tool_round_limits_def with_admission_gate_def
  with_turn_status_def with_tool_status_def with_direct_metadata_def with_direct_session_closes_def with_job_mailbox_def
  with_system_mcp_def with_prompt_config_def with_effective_profile_def with_writer_events_def with_delivery_runtime_config_def

lemma admitted_start: "admitted_actor env sd a \<Longrightarrow> seed_ok sd \<Longrightarrow> start_ok jt a"
  by (induction rule: admitted_actor.induct)
     (auto simp: builder_defs fresh_start good_keep Let_def split: sum.splits if_splits prod.splits)

section \<open>The writer's part of a step\<close>

lemma lanes_send [simp]:
  "wr_control (snd (writer_send env c m w)) = wr_control w" "wr_audio (snd (writer_send env c m w)) = wr_audio w"
  "wr_control (snd (send_stop env t s w)) = wr_control w" "wr_audio (snd (send_stop env t s w)) = wr_audio w"
  by (auto simp: writer_send_def send_stop_def report_closed_def split_beta split: send_result.split option.split)

lemma lanes_handlers:
  "wr_control (snd (on_urgent env m w)) = wr_control w \<and> wr_audio (snd (on_urgent env m w)) = wr_audio w"
  "wr_control (snd (on_control env d m w)) = wr_control w \<and> wr_audio (snd (on_control env d m w)) = wr_audio w"
  "wr_control (snd (on_audio env m w)) = wr_control w \<and> wr_audio (snd (on_audio env m w)) = wr_audio w"
  "wr_control (snd (writer_ping env w)) = wr_control w \<and> wr_audio (snd (writer_ping env w)) = wr_audio w"
     apply (auto simp: on_urgent_def Let_def split_beta report_closed_def split: outbound_message.split option.split)[1]
    apply (auto simp: on_control_def Let_def split_beta report_closed_def
      split: outbound_message.split option.split finish_step.split)[1]
   apply (auto simp: on_audio_def split: outbound_message.split)[1]
  apply (auto simp: writer_ping_def)[1]
  done

lemma writer_step_lanes:
  assumes "writer_step env w = Some v"
  shows "set (wr_control v) \<subseteq> set (wr_control w) \<and> set (wr_audio v) \<subseteq> set (wr_audio w)"
proof -
  have "set (wr_control (snd p)) \<subseteq> set (wr_control w) \<and> set (wr_audio (snd p)) \<subseteq> set (wr_audio w)"
    if "writer_pass env w = Some p" for p
    using that lanes_handlers
    by (auto simp: writer_pass_def split: list.splits option.splits if_splits)
  with assms show ?thesis
    by (fastforce simp: writer_step_def writer_end_def Let_def split: if_splits option.splits prod.splits)
qed

section \<open>Every step\<close>

lemma outside_frame:
  assumes "outside a b"
  shows "good jt a \<Longrightarrow> good jt b" and "writer_view (s\<lparr>ys_actor := b\<rparr>) = writer_view (s\<lparr>ys_actor := a\<rparr>)"
    and "sa_turn b = sa_turn a" and "sa_generation b = sa_generation a" and "sa_calls b = sa_calls a"
proof -
  from assms obtain asr vad llm async diagnostics answer worlds p l admission revoked closed where
    b: "b = a\<lparr>sa_asr_events := asr, sa_vad_events := vad, sa_llm_events := llm, sa_async := async,
      sa_diagnostics := diagnostics, sa_prepare := map_option (\<lambda>q. q\<lparr>tq_completion := answer\<rparr>) (sa_prepare a),
      sa_tts_world := worlds, sa_pilot := p, sa_limiter := l, sa_admission_open := admission,
      sa_security_revoked := revoked, sa_direct_closed := closed\<rparr>"
    and l: "own_permits a \<le> tl_active l" "tl_active l \<le> tl_capacity l"
    unfolding outside_def by blast
  show "good jt a \<Longrightarrow> good jt b"
    unfolding b good_frame
    by (rule limiter_update_good) (simp_all only: good_frame, use l in \<open>simp_all add: own_permits_def\<close>)
  show "writer_view (s\<lparr>ys_actor := b\<rparr>) = writer_view (s\<lparr>ys_actor := a\<rparr>)" "sa_turn b = sa_turn a"
      "sa_generation b = sa_generation a" "sa_calls b = sa_calls a"
    by (simp_all add: b writer_view_def writer_lanes_def)
qed

text \<open>A step of the session itself relates its actor to the one before.\<close>

lemma session_own_step:
  assumes "session_step jt s t" and "good jt (ys_actor s)"
  shows "sinv jt (ys_actor s) (ys_actor t) \<and> ys_writer t = ys_writer s \<or>
    outside (ys_actor s) (ys_actor t) \<and> ys_writer t = ys_writer s \<or>
    (\<exists>env w. writer_step env (writer_lanes (ys_actor s) (ys_writer s)) = Some w \<and>
      we_gate env = sa_gate (ys_actor s) \<and> we_request env = sa_request (ys_actor s) \<and>
      ys_actor t = after_pass (ys_writer s) w (ys_actor s) \<and> ys_writer t = w)"
  using assms unfolding good_def
proof (induction rule: session_step.induct)
  case (tick s env)
  from keep_tick [OF tick(3) tick(2) [symmetric]] show ?case by simp
next
  case (discovery s env)
  from keep_discovery [OF discovery(3)] show ?case by simp
next
  case (event s env e a)
  from keep_session_event [OF event(4) event(2) [symmetric], of e] event(3)
  have "sinv jt (ys_actor s) a" by (simp add: pinv_def)
  then show ?case by simp
next
  case (last_event s env e a)
  from keep_session_event [OF last_event(4) last_event(2) [symmetric], of e] last_event(3)
  have "sinv jt (ys_actor s) a" by (simp add: pinv_def)
  then show ?case by simp
next
  case (ingress_closed s)
  then show ?case by simp
next
  case (dropped s env)
  from keep_session_drop [OF dropped(3)] show ?case by simp
next
  case (observed env s d)
  from keep_observe_finished [OF observed(2)] show ?case by simp
next
  case (others s a)
  then show ?case by simp
next
  case (writes env s w)
  then show ?case by auto
qed

lemma pass_good:
  assumes "good jt a" and "writer_step env (writer_lanes a w) = Some v"
  shows "good jt (after_pass w v a)"
proof -
  from writer_step_lanes [OF assms(2)]
  have "set (wr_control v) \<subseteq> set (sa_control a)" "set (wr_audio v) \<subseteq> set (sa_audio a)"
    by (simp_all add: writer_lanes_def)
  with good_tags [OF assms(1)]
  have tags: "list_all (\<lambda>m. message_generation m \<le> sa_generation a) (wr_control v)"
      "list_all (\<lambda>m. message_generation m \<le> sa_generation a) (wr_audio v)"
    by (auto simp: list_all_iff)
  have "good jt (a\<lparr>sa_urgent := wr_urgent v\<rparr>)" using assms(1) by (simp only: good_lanes)
  from good_lanes(2) [OF this, of "wr_control v"] tags
  have "good jt (a\<lparr>sa_urgent := wr_urgent v, sa_control := wr_control v\<rparr>)" by simp
  from good_lanes(3) [OF this, of "wr_audio v"] tags
  have "good jt (a\<lparr>sa_urgent := wr_urgent v, sa_control := wr_control v, sa_audio := wr_audio v\<rparr>)" by simp
  then show ?thesis by (simp only: after_pass_def good_frame)
qed

lemma step_good: "session_step jt s t \<Longrightarrow> good jt (ys_actor s) \<Longrightarrow> good jt (ys_actor t)"
  by (drule (1) session_own_step) (auto dest: sinv_good outside_frame(1) pass_good)

lemma run_good: "(session_step jt)\<^sup>*\<^sup>* s t \<Longrightarrow> good jt (ys_actor s) \<Longrightarrow> good jt (ys_actor t)"
  by (induction rule: rtranclp_induct) (auto dest: step_good)

lemma start_good: "session_start s \<Longrightarrow> good jt (ys_actor s)"
  using admitted_start unfolding session_start_def start_ok_def by blast

lemma reachable_good: "session_start s \<Longrightarrow> (session_step jt)\<^sup>*\<^sup>* s t \<Longrightarrow> good jt (ys_actor t)"
  by (rule run_good [OF _ start_good])

section \<open>The session as a client of the writer\<close>

lemma put_all:
  "list_all urgent_message ms \<Longrightarrow> writer_sys_step\<^sup>*\<^sup>* s (s\<lparr>ws_writer := (ws_writer s)\<lparr>wr_urgent := wr_urgent (ws_writer s) @ ms\<rparr>\<rparr>)"
  "list_all control_message ms \<Longrightarrow> writer_sys_step\<^sup>*\<^sup>* s (s\<lparr>ws_writer := (ws_writer s)\<lparr>wr_control := wr_control (ws_writer s) @ ms\<rparr>\<rparr>)"
  "list_all audio_message ms \<Longrightarrow> writer_sys_step\<^sup>*\<^sup>* s (s\<lparr>ws_writer := (ws_writer s)\<lparr>wr_audio := wr_audio (ws_writer s) @ ms\<rparr>\<rparr>)"
proof (induction ms arbitrary: s)
  case (Cons m ms)
  { case 1
    then show ?case
      using converse_rtranclp_into_rtranclp [OF put_urgent [of m s] Cons(1) [of "s\<lparr>ws_writer := (ws_writer s)\<lparr>wr_urgent := wr_urgent (ws_writer s) @ [m]\<rparr>\<rparr>"]]
      by simp
  next
    case 2
    then show ?case
      using converse_rtranclp_into_rtranclp [OF put_control [of m s] Cons(2) [of "s\<lparr>ws_writer := (ws_writer s)\<lparr>wr_control := wr_control (ws_writer s) @ [m]\<rparr>\<rparr>"]]
      by simp
  next
    case 3
    then show ?case
      using converse_rtranclp_into_rtranclp [OF put_audio [of m s] Cons(3) [of "s\<lparr>ws_writer := (ws_writer s)\<lparr>wr_audio := wr_audio (ws_writer s) @ [m]\<rparr>\<rparr>"]]
      by simp }
qed simp_all

lemma count_all: "writer_sys_step\<^sup>*\<^sup>* s (s\<lparr>ws_request := ws_request s + n\<rparr>)"
proof (induction n)
  case (Suc n)
  have "writer_sys_step (s\<lparr>ws_request := ws_request s + n\<rparr>) (s\<lparr>ws_request := ws_request s + Suc n\<rparr>)"
    using count_request [of "s\<lparr>ws_request := ws_request s + n\<rparr>"] by simp
  with Suc show ?case by (rule rtranclp.rtrancl_into_rtrancl)
qed simp

lemma sinv_writer_steps:
  assumes "sinv jt (ys_actor s) b"
  shows "writer_sys_step\<^sup>*\<^sup>* (writer_view s) (writer_view (s\<lparr>ys_actor := b\<rparr>))"
proof -
  define a where "a = ys_actor s"
  from assms obtain us cs as where lanes: "sa_urgent b = sa_urgent a @ us" "list_all urgent_message us"
      "sa_control b = sa_control a @ cs" "list_all control_message cs"
      "sa_audio b = sa_audio a @ as" "list_all audio_message as"
    by (auto simp: sinv_def lane_ext_def a_def)
  from assms have gate: "sa_gate b = gate_invalidate (invalidated_through (sa_gate b)) (sa_gate a)"
    by (simp add: sinv_def gate_invalidate_def a_def max_def)
  from assms obtain n where n: "sa_request b = sa_request a + n" by (auto simp: sinv_def a_def le_iff_add)
  define v where "v = writer_view s"
  define v1 where "v1 = v\<lparr>ws_writer := (ws_writer v)\<lparr>wr_urgent := wr_urgent (ws_writer v) @ us\<rparr>\<rparr>"
  define v2 where "v2 = v1\<lparr>ws_writer := (ws_writer v1)\<lparr>wr_control := wr_control (ws_writer v1) @ cs\<rparr>\<rparr>"
  define v3 where "v3 = v2\<lparr>ws_writer := (ws_writer v2)\<lparr>wr_audio := wr_audio (ws_writer v2) @ as\<rparr>\<rparr>"
  define v4 where "v4 = v3\<lparr>ws_gate := gate_invalidate (invalidated_through (sa_gate b)) (ws_gate v3)\<rparr>"
  have "writer_sys_step\<^sup>*\<^sup>* v v1" "writer_sys_step\<^sup>*\<^sup>* v1 v2" "writer_sys_step\<^sup>*\<^sup>* v2 v3"
    unfolding v1_def v2_def v3_def using put_all lanes by blast+
  moreover have "writer_sys_step v3 v4" unfolding v4_def by (rule invalidate)
  moreover have "writer_sys_step\<^sup>*\<^sup>* v4 (v4\<lparr>ws_request := ws_request v4 + n\<rparr>)" by (rule count_all)
  ultimately have "writer_sys_step\<^sup>*\<^sup>* v (v4\<lparr>ws_request := ws_request v4 + n\<rparr>)"
    by (meson rtranclp.rtrancl_into_rtrancl rtranclp_trans)
  moreover have "v4\<lparr>ws_request := ws_request v4 + n\<rparr> = writer_view (s\<lparr>ys_actor := b\<rparr>)"
    using lanes n gate by (simp add: v4_def v3_def v2_def v1_def v_def writer_view_def writer_lanes_def a_def)
  ultimately show ?thesis by (simp add: v_def)
qed

lemma step_writer:
  assumes "session_step jt s t" and "good jt (ys_actor s)"
  shows "writer_sys_step\<^sup>*\<^sup>* (writer_view s) (writer_view t)"
proof -
  have view: "writer_view t = writer_view (s\<lparr>ys_actor := ys_actor t\<rparr>)" if "ys_writer t = ys_writer s"
    using that by (simp add: writer_view_def)
  from session_own_step [OF assms] consider
      "sinv jt (ys_actor s) (ys_actor t)" "ys_writer t = ys_writer s"
    | "outside (ys_actor s) (ys_actor t)" "ys_writer t = ys_writer s"
    | env w where "writer_step env (writer_lanes (ys_actor s) (ys_writer s)) = Some w" "we_gate env = sa_gate (ys_actor s)"
        "we_request env = sa_request (ys_actor s)" "ys_actor t = after_pass (ys_writer s) w (ys_actor s)" "ys_writer t = w"
    by blast
  then show ?thesis
  proof cases
    case 1
    with sinv_writer_steps view show ?thesis by simp
  next
    case 2
    from outside_frame(2) [OF 2(1), of s] view [OF 2(2)] show ?thesis by simp
  next
    case (3 env w)
    have "writer_sys_step (writer_view s) ((writer_view s)\<lparr>ws_writer := w\<rparr>)"
      by (rule pass [of env]) (use 3 in \<open>simp_all add: writer_view_def\<close>)
    moreover have "(writer_view s)\<lparr>ws_writer := w\<rparr> = writer_view t"
      using 3 by (simp add: writer_view_def writer_lanes_def after_pass_def)
    ultimately show ?thesis by auto
  qed
qed

lemma run_writer_steps:
  "(session_step jt)\<^sup>*\<^sup>* s t \<Longrightarrow> good jt (ys_actor s) \<Longrightarrow> writer_sys_step\<^sup>*\<^sup>* (writer_view s) (writer_view t)"
proof (induction rule: rtranclp_induct)
  case (step t u)
  with run_good [OF step(1,4)] step_writer show ?case by (meson rtranclp_trans)
qed simp

lemma sent_view [simp]: "wr_sent (ws_writer (writer_view s)) = wr_sent (ys_writer s)" "ws_gate (writer_view s) = sa_gate (ys_actor s)"
  by (simp_all add: writer_view_def writer_lanes_def)

end
