(* ===== verification/Session_Sample.thy ===== *)
theory Session_Sample
  imports Session_System Tts_Theorems Speech_Delivery
begin

text \<open>
  A small session, the one the witnesses use: admission has just made it, then its client starts to listen
  and hands in a text, which becomes a turn with a request to the model.
\<close>

section \<open>The session\<close>

definition sample_runtimes :: agent_runtimes where
  "sample_runtimes =
     \<lparr>ar_vad = 0, ar_asr = 0, ar_llm = 0, ar_tts = 0,
      ar_segmenter = \<lparr>vad_cfg = vad_default_config, expected_start = None, speech_candidate = None, silence_candidate = None,
        speech_active = False\<rparr>,
      ar_command_capacity = 8, ar_min_speech = 3200, ar_pre_roll = 4800\<rparr>"

definition sample_seed :: "(int, unit) session_seed" where
  "sample_seed =
     \<lparr>sd_id = lit ''s'', sd_runtimes = sample_runtimes, sd_worlds = (\<lambda>_. (demo_pool, [])),
      sd_limiter = \<lparr>tl_capacity = 2, tl_active = 0\<rparr>, sd_gate = gate_new, sd_control_capacity = 8, sd_urgent_capacity = 4,
      sd_audio_capacity = 8, sd_max_capture = 10, sd_max_history = 8, sd_capture_allocated = True, sd_decoder_ready = True,
      sd_speech_config = letter_config,
      sd_limits = \<lparr>tl_max_calls_per_round = 4, tl_max_rounds_per_turn = 4, tl_execution_budget = 30000\<rparr>,
      sd_profile = \<lparr>tp_key = [], tp_source = None, tp_language = [], tp_prompt = lit ''You are V.'', tp_revision = 1\<rparr>,
      sd_event_queue = 8, sd_frame_bytes = 4000, sd_task_tools = None\<rparr>"

definition sample_tool :: tool_definition where
  "sample_tool = \<lparr>td_name = EXIT_TOOL_NAME, td_description = [], td_parameters = JNull\<rparr>"

text \<open>JSON is printed as the empty text, calls to workers succeed.\<close>

definition sample_env :: "(int, unit) session_env" where
  "sample_env =
     \<lparr>se_speech = letter_env, se_tts_view = (\<lambda>_. demo_view), se_tts_available = (\<lambda>_. True), se_supports_tools = (\<lambda>_. False),
      se_answer = (\<lambda>_. True), se_lease = (\<lambda>n. n), se_clock = (\<lambda>n. n), se_decode = (\<lambda>_ _. None), se_f32 = (\<lambda>x. x),
      se_jtext = (\<lambda>_. []), se_jparse = (\<lambda>_. None), se_nfc = (\<lambda>s. s), se_upper = (\<lambda>_. False), se_lower = (\<lambda>_. False),
      se_alpha = (\<lambda>_. False), se_to_lower = (\<lambda>s. s), se_to_upper = (\<lambda>c. [c]), se_pilot_work = False,
      se_reminder_context = \<lparr>rc_timezone = [], rc_current_time = [], rc_device = [], rc_device_kind = [], rc_target = None,
        rc_tools_enabled = False\<rparr>,
      se_memory_rows = [], se_exit_tool = sample_tool, se_reminder_tools = [], se_wiki_tools = [],
      se_switch_tool = (\<lambda>_. sample_tool), se_in_runtime = True, se_encoder_ready = True, se_writer_terminal = True\<rparr>"

definition sample_actor :: "(int, unit) actor" where
  "sample_actor = with_writer_events (projr (session_new sample_env sample_seed))"

definition sample_sys :: "(int, unit) session_sys" where
  "sample_sys = \<lparr>ys_actor = sample_actor, ys_writer = writer_new, ys_stage = Running\<rparr>"

lemma sample_new: "\<exists>a. session_new sample_env sample_seed = Inr a \<and> sa_phase a = Ready"
proof -
  have "sd_decoder_ready sample_seed" "sd_capture_allocated sample_seed" "sd_max_capture sample_seed = 10"
      "se_encoder_ready sample_env"
    by (simp_all add: sample_seed_def sample_env_def)
  then show ?thesis
    by (simp add: session_new_def capture_new_def UPLINK_FRAME_SAMPLES_def Let_def split_beta fresh_actor_def)
qed

lemma sample_admitted: "admitted_actor sample_env sample_seed sample_actor" "sa_phase sample_actor = Ready"
proof -
  obtain a where a: "session_new sample_env sample_seed = Inr a" "sa_phase a = Ready" using sample_new by blast
  then have actor: "sample_actor = with_writer_events a" by (simp only: sample_actor_def sum.sel)
  from a(1) have "admitted_actor sample_env sample_seed a" by (rule admitted_actor.intros(1))
  then have "admitted_actor sample_env sample_seed (with_writer_events a)" by (rule admitted_actor.intros)
  then show "admitted_actor sample_env sample_seed sample_actor" by (simp only: actor)
  show "sa_phase sample_actor = Ready" using a(2) by (simp add: actor with_writer_events_def)
qed

lemma sample_start: "session_start sample_sys"
proof -
  have "seed_ok sample_seed" by (simp add: seed_ok_def sample_seed_def)
  with sample_admitted(1) have "\<exists>env sd. seed_ok sd \<and> admitted_actor env sd sample_actor" by blast
  then show ?thesis unfolding session_start_def sample_sys_def session_sys.select_convs by simp
qed

section \<open>Between turns\<close>

text \<open>What a session without a turn looks like, in the fields its next steps read.\<close>

definition idle :: "session_phase \<Rightarrow> listen_mode option \<Rightarrow> ('f, 'e) actor \<Rightarrow> bool" where
  "idle p m a \<longleftrightarrow> sa_phase a = p \<and> sa_mode a = m \<and>
     sa_turn a = None \<and> \<not> sa_tts_started a \<and> sa_direct_request a = None \<and> sa_batch a = None \<and> sa_llm_operation a = None \<and>
     sa_asr_stream a = None \<and> \<not> sa_turn_status a \<and> \<not> sa_direct_metadata a \<and> sa_generation a < 5 \<and> sa_boundary a = None \<and>
     \<not> pilot_enabled (sa_pilot a) \<and> sa_writer_events a = Some [] \<and> sa_observe a = None \<and> \<not> sa_pipeline_permit a \<and>
     sa_next_operation a < 5 \<and> sa_next_turn a = 1 \<and> sa_limiter a = \<lparr>tl_capacity = 2, tl_active = 0\<rparr> \<and> \<not> sa_auto_speech a \<and>
     \<not> sa_auto_reset a \<and> sa_history a = history_new 8 \<and> sa_memory a = None \<and> \<not> sa_reminders a \<and> sa_speaker a = None \<and>
     sa_task_tools a = None \<and> \<not> sa_wiki a \<and> template_keys (sa_catalog a) = [] \<and> dm_visible (sa_mcp a) = [] \<and> sa_external a = [] \<and>
     sa_external_routes a = [] \<and> sa_system a = None \<and> tp_prompt (sa_profile a) = lit ''You are V.''"

lemma idle_upd [simp]:
  "idle p m (a\<lparr>sa_gate := x1\<rparr>) = idle p m a" "idle p m (a\<lparr>sa_delta := x2\<rparr>) = idle p m a"
  "idle p m (a\<lparr>sa_finish_pending := x3\<rparr>) = idle p m a" "idle p m (a\<lparr>sa_pending_audio := x4\<rparr>) = idle p m a"
  "idle p m (a\<lparr>sa_arm_pending := x5\<rparr>) = idle p m a" "idle p m (a\<lparr>sa_observe_pcm := x6\<rparr>) = idle p m a"
  "idle p m (a\<lparr>sa_vad_cycle := x7\<rparr>) = idle p m a" "idle p m (a\<lparr>sa_pending_cycle := x8\<rparr>) = idle p m a"
  "idle p m (a\<lparr>sa_retention := x9\<rparr>) = idle p m a" "idle p m (a\<lparr>sa_segmenter := x10\<rparr>) = idle p m a"
  "idle p m (a\<lparr>sa_calls := x11\<rparr>) = idle p m a" "idle p m (a\<lparr>sa_next_cycle := x12\<rparr>) = idle p m a"
  "idle p m (a\<lparr>sa_vad_session := x13\<rparr>) = idle p m a" "idle p m (a\<lparr>sa_response := x14\<rparr>) = idle p m a"
  "idle p m (cancel_speech_output env a) = idle p m a"
  by (simp_all add: idle_def cancel_speech_output_def read_clock_def put_speech_state_def)

lemma idle_upd2: "idle p m a \<Longrightarrow> idle p m (a\<lparr>sa_turn := None\<rparr>)"
  "idle p m a \<Longrightarrow> idle p m (a\<lparr>sa_direct_request := None\<rparr>)"
  "idle p m a \<Longrightarrow> idle q m (a\<lparr>sa_phase := q\<rparr>)"
  "idle p m a \<Longrightarrow> idle p n (a\<lparr>sa_mode := n\<rparr>)"
  "idle p m a \<Longrightarrow> idle p m (a\<lparr>sa_auto_speech := False\<rparr>)"
  "idle p m a \<Longrightarrow> idle p m (a\<lparr>sa_auto_reset := False\<rparr>)"
  by (simp_all add: idle_def)

lemma idleD:
  assumes "idle p m a"
  shows "sa_turn a = None" "sa_tts_started a = False" "sa_direct_metadata a = False" "sa_llm_operation a = None" "sa_asr_stream a = None"
    "pilot_enabled (sa_pilot a) = False" "sa_pipeline_permit a = False" "sa_phase a = p" "sa_mode a = m"
  using assms by (simp_all add: idle_def)

lemma release_none: "idle p m a \<Longrightarrow> release_with f env a = a\<lparr>sa_direct_request := None\<rparr>"
  by (simp add: release_with_def report_result_def drop_turn_def idle_def)

lemma idle_cancel:
  assumes a: "idle p m a"
  shows "idle p m (cancel_speech_delivery env a)"
    and "sa_generation (cancel_speech_delivery env a) = sa_generation a"
    and "sa_next_operation (cancel_speech_delivery env a) = sa_next_operation a"
proof -
  define b where "b = (cancel_speech_output env (a\<lparr>sa_gate := gate_invalidate (sa_generation a) (sa_gate a),
    sa_turn := None, sa_delta := None, sa_finish_pending := False\<rparr>))\<lparr>sa_pending_audio := None\<rparr>"
  have b: "idle p m b" using a by (simp add: b_def idle_upd2)
  have eq: "cancel_speech_delivery env a = b\<lparr>sa_direct_request := None\<rparr>"
    using idleD(1)[OF a] idleD(2)[OF b] release_none [OF b]
    by (simp add: cancel_speech_delivery_def cancel_speech_with_def Let_def b_def)
  have "sa_generation b = sa_generation a" "sa_next_operation b = sa_next_operation a"
    by (simp_all add: b_def cancel_speech_output_def read_clock_def put_speech_state_def)
  with idle_upd2(2) [OF b] show "idle p m (cancel_speech_delivery env a)"
    and "sa_generation (cancel_speech_delivery env a) = sa_generation a"
    and "sa_next_operation (cancel_speech_delivery env a) = sa_next_operation a" by (simp_all add: eq)
qed

lemma idle_generation: "idle p m a \<Longrightarrow> fst (advance_generation a)"
  by (simp add: idle_def advance_generation_def U64_MAX_def)

lemma idle_steps:
  assumes "idle p m a"
  shows "cancel_llm env a = a\<lparr>sa_turn := None, sa_response := []\<rparr>" and "cancel_asr env a = a"
    and "idle p m (leave_capture a)" and "idle p m (observe_reset a)"
    and "idle p m (a\<lparr>sa_turn := None, sa_response := x\<rparr>)" and "idle p m (close_vad env a)"
  using assms
  by (simp_all add: cancel_llm_def cancel_asr_def leave_capture_def observe_reset_def idle_def close_vad_def worker_call_def split: option.split)

lemma idle_advance:
  assumes "idle p m a" and "sa_generation a < 4"
  shows "advance_generation a = (True, a\<lparr>sa_generation := sa_generation a + 1\<rparr>)" and "idle p m (a\<lparr>sa_generation := sa_generation a + 1\<rparr>)"
  using assms by (simp_all add: advance_generation_def U64_MAX_def idle_def)

lemma idle_identity:
  assumes "idle p m a" and "sa_next_operation a < 4"
  shows "\<exists>i. next_worker_identity a = (Some i, a\<lparr>sa_next_operation := sa_next_operation a + 1\<rparr>)"
    and "idle p m (a\<lparr>sa_next_operation := sa_next_operation a + 1\<rparr>)"
  using assms by (simp_all add: next_worker_identity_def U64_MAX_def idle_def)

lemma idle_open_vad:
  assumes "idle p m a" and "se_answer env (length (sa_calls a))"
  shows "idle Listening m (open_vad_mode env i a)"
  using assms by (simp add: open_vad_mode_def worker_open_def allocate_vad_cycle_def idle_def)

lemma idle_replace:
  assumes "idle p m a" and "sa_generation a < 4" "sa_next_operation a < 4" and "\<And>n. se_answer env n"
  shows "idle Listening (Some ModeAuto) (replace_listening_mode env ModeAuto a)"
proof -
  define b where "b = cancel_speech_delivery env (a\<lparr>sa_arm_pending := False\<rparr>)"
  have b: "idle p m b" "sa_generation b < 4" "sa_next_operation b < 4"
    using assms idle_cancel [where a = "a\<lparr>sa_arm_pending := False\<rparr>" and p = p and m = m and env = env] by (simp_all add: b_def)
  define c where "c = b\<lparr>sa_generation := sa_generation b + 1\<rparr>"
  have c: "idle p m c" "sa_next_operation c < 4" using idle_advance(2) [OF b(1,2)] b(3) by (simp_all add: c_def)
  define d where "d = (observe_reset (leave_capture (close_vad env (c\<lparr>sa_turn := None, sa_response := []\<rparr>))))\<lparr>sa_mode := Some ModeAuto\<rparr>"
  have d: "idle p (Some ModeAuto) d" unfolding d_def by (intro idle_upd2(4) idle_steps(3-6)) (rule c)
  have "sa_next_operation d = sa_next_operation c"
    by (simp add: d_def observe_reset_def leave_capture_def close_vad_def worker_call_def split: option.split)
  with c have "sa_next_operation d < 4" by simp
  from idle_identity [OF d this] obtain i where
      identity: "next_worker_identity d = (Some i, d\<lparr>sa_next_operation := sa_next_operation d + 1\<rparr>)"
      "idle p (Some ModeAuto) (d\<lparr>sa_next_operation := sa_next_operation d + 1\<rparr>)" by blast
  have adv: "advance_generation (cancel_speech_delivery env (a\<lparr>sa_arm_pending := False\<rparr>)) = (True, c)"
    using idle_advance(1) [OF b(1,2)] by (simp only: b_def [symmetric] c_def [symmetric])
  have llm: "cancel_asr env (cancel_llm env c) = c\<lparr>sa_turn := None, sa_response := []\<rparr>"
    using idle_steps(1) [OF c(1)] idle_steps(2) [OF idle_steps(5) [OF c(1)]] by (simp only:)
  have "replace_listening_mode env ModeAuto a = open_vad_mode env i (d\<lparr>sa_next_operation := sa_next_operation d + 1\<rparr>)"
    unfolding replace_listening_mode_def adv prod.case bool.case llm d_def [symmetric] Let_def identity option.case by simp
  with idle_open_vad [OF identity(2) assms(4)] show ?thesis by simp
qed


section \<open>A turn\<close>

lemma sample_idle: "idle Ready None sample_actor"
proof -
  have seed: "sd_decoder_ready sample_seed" "sd_capture_allocated sample_seed" "sd_max_capture sample_seed = 10"
      "se_encoder_ready sample_env" "sd_limiter sample_seed = \<lparr>tl_capacity = 2, tl_active = 0\<rparr>" "sd_max_history sample_seed = 8"
      "sd_task_tools sample_seed = None" "tp_prompt (sd_profile sample_seed) = lit ''You are V.''"
    by (simp_all add: sample_seed_def sample_env_def)
  then show ?thesis
    by (simp add: idle_def sample_actor_def session_new_def capture_new_def UPLINK_FRAME_SAMPLES_def Let_def split_beta
        fresh_actor_def pilot_new_def with_writer_events_def template_keys_def device_mcp_default_def)
qed

lemma idle_listen:
  assumes "idle Ready None a" and "sa_generation a < 4" "sa_next_operation a < 4"
  shows "idle Listening (Some ModeAuto) (on_listen_command sample_env (ListenStart ModeAuto) a)"
proof -
  have env: "se_answer sample_env n" "\<not> se_pilot_work sample_env" for n by (simp_all add: sample_env_def)
  have "on_listen_command sample_env (ListenStart ModeAuto) a = replace_listening_mode sample_env ModeAuto a"
    using idleD [OF assms(1)] env
    by (simp add: on_listen_command_def release_pipeline_if_idle_def drop_pipeline_def admit_pipeline_def
        start_listening_def capturing_vad_def Let_def)
  with idle_replace [OF assms env(1)] show ?thesis by simp
qed

text \<open>The turn is accepted and its text committed.\<close>

definition asking :: "rstr \<Rightarrow> ('f, 'e) actor \<Rightarrow> bool" where
  "asking s a \<longleftrightarrow>
     map_option tc_turn (sa_turn a) = Some (TurnId 1) \<and> sa_phase a = Processing \<and> sa_observe a = None \<and>
     sa_writer_events a = Some [] \<and> sa_history a = commit_user (TurnId 1) s (history_new 8) \<and>
     sa_memory a = None \<and> \<not> sa_reminders a \<and> sa_speaker a = None \<and> sa_next_operation a < 5 \<and>
     sa_task_tools a = None \<and> \<not> sa_wiki a \<and> template_keys (sa_catalog a) = [] \<and> dm_visible (sa_mcp a) = [] \<and> sa_external a = [] \<and>
     sa_external_routes a = [] \<and> sa_system a = None \<and> tp_prompt (sa_profile a) = lit ''You are V.''"

definition answering :: "('f, 'e) actor \<Rightarrow> bool" where
  "answering a \<longleftrightarrow> sa_phase a = Processing \<and> sa_turn a \<noteq> None \<and> sa_observe a = None \<and> sa_writer_events a = Some []"

definition asked_request :: llm_request where
  "asked_request = \<lparr>rq_messages = [System (lit ''You are V.''), User (lit ''hi'')], rq_tools = [sample_tool]\<rparr>"

lemma asked_history: "messages_for_prompt (TurnId 1) (commit_user (TurnId 1) (lit ''hi'') (history_new 8)) = Some [User (lit ''hi'')]"
  by code_simp

lemma asked_system:
  "compose_turn_system jt (lit ''You are V.'') \<lparr>ti_speaker = None, ti_memory = None, ti_reminders = None\<rparr> = Inr (lit ''You are V.'')"
proof -
  have "length (lit ''You are V.'') < length SPEAKER_SLOT" by (simp add: lit_def SPEAKER_SLOT_def)
  then have "\<not> contains_str SPEAKER_SLOT (lit ''You are V.'')" by (auto simp: contains_str_iff)
  moreover have "byte_len (lit ''You are V.'') \<le> MAX_RENDERED_SYSTEM_PROMPT_BYTES"
    by (simp add: lit_def len_utf8_def MAX_RENDERED_SYSTEM_PROMPT_BYTES_def)
  ultimately show ?thesis
    by (simp add: compose_turn_system_def speaker_composed_def reminders_composed_def Let_def)
qed

lemma asked_size: "\<exists>n. llm_request_size_bytes (\<lambda>_. []) asked_request = Inr n"
proof -
  have "sum_list (request_parts (\<lambda>_. []) asked_request) + 32 \<le> LLM_REQUEST_HARD_LIMIT_BYTES"
    by (simp add: request_parts_def asked_request_def message_parts_def tool_parts_def sample_tool_def EXIT_TOOL_NAME_def
        LLM_REQUEST_HARD_LIMIT_BYTES_def byte_len_def lit_def len_utf8_def)
  then show ?thesis by (simp add: request_size_exact Let_def)
qed

lemma asking_begins:
  assumes "asking (lit ''hi'') a"
  shows "\<exists>n i. CallLlmStart n i asked_request \<in> set (sa_calls (begin_speech_delivery sample_env a))"
    and "answering (begin_speech_delivery sample_env a)"
proof -
  define a1 where "a1 = a\<lparr>sa_speaker := None\<rparr>"
  define b where "b = a1\<lparr>sa_messages := System (lit ''You are V.'') # [User (lit ''hi'')], sa_rounds := rounds_begin_turn (sa_rounds a1)\<rparr>"
  from assms obtain c where c: "sa_turn a = Some c" "tc_turn c = TurnId 1" by (auto simp: asking_def)
  note a = assms [unfolded asking_def]
  have history: "messages_for_prompt (TurnId 1) (sa_history a) = Some [User (lit ''hi'')]" using a asked_history by simp
  have inputs: "sa_speaker a = None" "sa_memory a = None" "\<not> sa_reminders a" "tp_prompt (sa_profile a) = lit ''You are V.''"
    using a by simp_all
  have starts: "begin_speech_delivery sample_env a = start_llm_round sample_env True b"
    unfolding begin_speech_delivery_def current_turn_id_def c option.map option.case history Let_def inputs
    using inputs by (simp add: asked_system b_def a1_def)
  obtain i where i: "next_worker_identity b = (Some i, b\<lparr>sa_next_operation := sa_next_operation b + 1\<rparr>)"
    using a by (simp add: next_worker_identity_def b_def a1_def U64_MAX_def)
  define d where "d = b\<lparr>sa_next_operation := sa_next_operation b + 1, sa_response := [], sa_delta := None,
    sa_finish_pending := False, sa_origin := LlmOrigin, sa_direct_request := None\<rparr>"
  have tools: "available_llm_tools sample_env d = [sample_tool]"
    using a by (simp add: available_llm_tools_def d_def b_def a1_def optional_list_def sample_env_def template_keys_def)
  define e where "e = d\<lparr>sa_round := (if True \<and> offers_answer_changing_tools sample_env d
                                        then Some \<lparr>lr_prose = [], lr_calls = []\<rparr> else None)\<rparr>"
  have request: "\<lparr>rq_messages = sa_messages e, rq_tools = [sample_tool]\<rparr> = asked_request"
    by (simp add: e_def d_def b_def a1_def asked_request_def)
  have turn: "sa_turn b \<noteq> None" using c by (simp add: b_def a1_def)
  have env: "se_jtext sample_env = (\<lambda>_. [])" "se_answer sample_env n" for n by (simp_all add: sample_env_def)
  from asked_size obtain n where n: "llm_request_size_bytes (\<lambda>_. []) asked_request = Inr n" by blast
  have "start_llm_round sample_env True b =
      (snd (worker_call sample_env (CallLlmStart (sa_llm e) i asked_request) e))\<lparr>sa_llm_operation := Some i\<rparr>"
    unfolding start_llm_round_def if_not_P [OF turn] i prod.case option.case Let_def if_True tools
      d_def [symmetric] e_def [symmetric] request env n sum.case worker_call_def
    by (simp add: env)
  moreover have "answering e" using a by (auto simp: answering_def e_def d_def b_def a1_def)
  ultimately show "\<exists>n i. CallLlmStart n i asked_request \<in> set (sa_calls (begin_speech_delivery sample_env a))"
    and "answering (begin_speech_delivery sample_env a)"
    unfolding starts by (auto simp: worker_call_def answering_def)
qed

lemma idle_admits:
  assumes "idle p m a" and "\<not> se_pilot_work env"
  shows "admit_pipeline env (release_pipeline_if_idle env a) = (True, a)"
  using idleD [OF assms(1)] by (simp add: release_pipeline_if_idle_def drop_pipeline_def admit_pipeline_def)

lemma hi_text:
  "trim (lit ''hi'') = lit ''hi''" "lit ''hi'' \<noteq> []" "normalize_detect_text (lit ''hi'') = Some (lit ''hi'')"
proof -
  show trimmed: "trim (lit ''hi'') = lit ''hi''"
    by (simp add: lit_def trim_def trim_by_def trim_start_by_def trim_end_by_def is_whitespace_def)
  show "lit ''hi'' \<noteq> []" by (simp add: lit_def)
  show "normalize_detect_text (lit ''hi'') = Some (lit ''hi'')"
    by (simp add: normalize_detect_text_def trimmed) (simp add: lit_def MAX_DETECT_TEXT_SCALARS_def)
qed

lemma idle_begins:
  assumes "idle p m a"
  shows "begin_active_turn env a = (Some (TurnId 1), a\<lparr>sa_limiter := \<lparr>tl_capacity = 2, tl_active = 1\<rparr>, sa_next_turn := 2,
    sa_turn := Some \<lparr>tc_turn = TurnId 1, tc_generation = sa_generation a, tc_cancelled = False\<rparr>\<rparr>)"
  using assms
  by (simp add: begin_active_turn_def idle_def limiter_try_acquire_def U64_MAX_def turn_id_new_def drop_turn_def)

lemma commit_asking:
  assumes "idle p m a" and "b = a\<lparr>sa_limiter := l, sa_next_turn := 2,
    sa_turn := Some \<lparr>tc_turn = TurnId 1, tc_generation = g, tc_cancelled = False\<rparr>, sa_phase := Processing\<rparr>"
  shows "\<exists>c. commit_user_text env (lit ''hi'') b = (Some (lit ''hi''), c) \<and> asking (lit ''hi'') c"
proof -
  define d where "d = record_transcript UserRole (lit ''hi'') (TurnId 1) (b\<lparr>sa_history := commit_user (TurnId 1) (lit ''hi'') (sa_history b)\<rparr>)"
  have d: "asking (lit ''hi'') d" "current_turn_id b = Some (TurnId 1)"
    using assms(1) by (simp_all add: d_def assms(2) record_transcript_def asking_def idle_def current_turn_id_def)
  have send: "asking (lit ''hi'') (snd (send_turn_control t d))" for t
    using d(1) by (simp add: send_turn_control_def send_control_lane_def asking_def split: option.split)
  have "\<exists>t. commit_user_text env (lit ''hi'') b = (Some (lit ''hi''), snd (send_turn_control t d))"
    unfolding commit_user_text_def hi_text(1) if_not_P [OF hi_text(2)] d(2) option.case d_def [symmetric] Let_def by blast
  with send show ?thesis by auto
qed

lemma idle_detect:
  assumes a: "idle Listening (Some ModeAuto) a"
  shows "\<exists>c. on_listen_command sample_env (ListenDetect (lit ''hi'')) a = begin_speech_delivery sample_env c \<and> asking (lit ''hi'') c"
proof -
  have env: "\<not> se_pilot_work sample_env" by (simp add: sample_env_def)
  define a1 where "a1 = a\<lparr>sa_manual := capture_reset (sa_manual a), sa_auto_speech := False, sa_retention := retention_reset (sa_retention a)\<rparr>"
  have a1: "idle Listening (Some ModeAuto) a1" using a by (simp add: a1_def idle_def)
  have detach: "detach_for_detect sample_env (a\<lparr>sa_manual := capture_reset (sa_manual a)\<rparr>) = (True, a1)"
    using idleD [OF a] by (simp add: detach_for_detect_def a1_def Let_def)
  from commit_asking [OF a1 refl, where env = sample_env and l = "\<lparr>tl_capacity = 2, tl_active = 1\<rparr>" and g = "sa_generation a1"] obtain c where
    c: "commit_user_text sample_env (lit ''hi'') ((snd (begin_active_turn sample_env a1))\<lparr>sa_phase := Processing\<rparr>) = (Some (lit ''hi''), c)"
      "asking (lit ''hi'') c"
    unfolding idle_begins [OF a1] by auto
  have "on_listen_command sample_env (ListenDetect (lit ''hi'')) a = accept_detect sample_env (lit ''hi'') a"
    by (simp add: on_listen_command_def idle_admits [OF a env])
  also have "\<dots> = begin_speech_delivery sample_env c"
    using idleD(8,9) [OF a] c(1) by (simp add: accept_detect_def hi_text(3) detach idle_begins [OF a1] Let_def)
  finally show ?thesis using c(2) by blast
qed

lemma idle_message:
  assumes "idle p m a"
  shows "\<exists>b. on_session_event env (ClientMessage (Listen None c)) a = (True, on_listen_command env c b) \<and> idle p m b \<and>
    sa_generation b = sa_generation a \<and> sa_next_operation b = sa_next_operation a"
proof -
  define b where "b = (drain_writer_events env a)\<lparr>sa_request := sa_request (drain_writer_events env a) + 1\<rparr>"
  from assms have "sa_observe a = None" "sa_writer_events a = Some []" "sa_boundary a = None" by (simp_all add: idle_def)
  then have "drain_writer_events env a = a\<lparr>sa_writer_events := Some []\<rparr>" "\<not> speaker_security_revoked a"
    by (simp_all add: drain_writer_events_def speaker_security_revoked_def)
  with assms have "on_session_event env (ClientMessage (Listen None c)) a = (True, on_listen_command env c b)" "idle p m b"
      "sa_generation b = sa_generation a" "sa_next_operation b = sa_next_operation a"
    by (simp_all add: on_session_event_def on_client_message_def apply_client_message_def own_intent_def
        inbound_session_matches_def b_def Let_def idle_def)
  then show ?thesis by blast
qed

lemma sample_counters: "sa_generation sample_actor = 0" "sa_next_operation sample_actor = 1"
proof -
  have "sd_decoder_ready sample_seed" "sd_capture_allocated sample_seed" "sd_max_capture sample_seed = 10"
      "se_encoder_ready sample_env"
    by (simp_all add: sample_seed_def sample_env_def)
  then show "sa_generation sample_actor = 0" "sa_next_operation sample_actor = 1"
    by (simp_all add: sample_actor_def session_new_def capture_new_def UPLINK_FRAME_SAMPLES_def Let_def split_beta
        fresh_actor_def with_writer_events_def)
qed

text \<open>The client listens, then hands in its text.\<close>

definition asked :: "(int, unit) session_sys" where
  "asked =
     sample_sys\<lparr>ys_actor := snd (on_session_event sample_env (ClientMessage (Listen None (ListenDetect (lit ''hi''))))
       (snd (on_session_event sample_env (ClientMessage (Listen None (ListenStart ModeAuto))) sample_actor)))\<rparr>"

lemma asked_run:
  shows "(session_step (\<lambda>_. []))\<^sup>*\<^sup>* sample_sys asked"
    and "\<exists>n i. CallLlmStart n i asked_request \<in> set (sa_calls (ys_actor asked))"
    and "answering (ys_actor asked)"
proof -
  have jt: "se_jtext sample_env = (\<lambda>_. [])" by (simp add: sample_env_def)
  let ?listen = "ClientMessage (Listen None (ListenStart ModeAuto))" and ?detect = "ClientMessage (Listen None (ListenDetect (lit ''hi'')))"
  from idle_message [OF sample_idle, of sample_env "ListenStart ModeAuto"] obtain b where
    b: "on_session_event sample_env ?listen sample_actor = (True, on_listen_command sample_env (ListenStart ModeAuto) b)"
      "idle Ready None b" "sa_generation b = 0" "sa_next_operation b = 1"
    by (auto simp: sample_counters)
  define c where "c = on_listen_command sample_env (ListenStart ModeAuto) b"
  have c: "idle Listening (Some ModeAuto) c" unfolding c_def by (rule idle_listen) (simp_all add: b)
  from idle_message [OF c, of sample_env "ListenDetect (lit ''hi'')"] obtain d where
    d: "on_session_event sample_env ?detect c = (True, on_listen_command sample_env (ListenDetect (lit ''hi'')) d)"
      "idle Listening (Some ModeAuto) d" by blast
  have actor: "ys_actor asked = on_listen_command sample_env (ListenDetect (lit ''hi'')) d"
    by (simp add: asked_def b(1) c_def [symmetric] d(1))
  have "session_step (\<lambda>_. []) sample_sys (sample_sys\<lparr>ys_actor := c\<rparr>)"
    by (rule event [OF _ jt, of _ ?listen]) (simp_all add: sample_sys_def b(1) c_def)
  moreover have "session_step (\<lambda>_. []) (sample_sys\<lparr>ys_actor := c\<rparr>) asked"
    using event [of "sample_sys\<lparr>ys_actor := c\<rparr>" sample_env _ ?detect, OF _ jt] d(1) actor
    by (simp add: sample_sys_def asked_def b(1) c_def [symmetric])
  ultimately show "(session_step (\<lambda>_. []))\<^sup>*\<^sup>* sample_sys asked" by simp
  from idle_detect [OF d(2)] asking_begins(2) show "answering (ys_actor asked)" unfolding actor by fastforce
  from idle_detect [OF d(2)] asking_begins(1) show "\<exists>n i. CallLlmStart n i asked_request \<in> set (sa_calls (ys_actor asked))"
    unfolding actor by fastforce
qed

end
