(* ===== verification/Session_Closing.thy ===== *)
theory Session_Closing
  imports Session_System
begin

text \<open>
  Closing a session: the recursion between a full lane and the close that sends on it ends within the depth the
  model gives it, and what the session holds of the server is given back when it is dropped.
\<close>

section \<open>What the producers leave alone\<close>

text \<open>The flags that decide whether a nested close has something left to do, and the turn.\<close>

definition close_depth :: "('f, 'e) actor \<Rightarrow> nat" where
  "close_depth a = of_bool (sa_tts_started a) + of_bool (sa_direct_request a \<noteq> None) + of_bool (sa_status_active a)"

named_theorems turn_frame "operations that leave the turn and its flags alone"

lemma send_frame [turn_frame]:
  "close_depth (snd (send_urgent_lane m a)) = close_depth a" "sa_turn (snd (send_urgent_lane m a)) = sa_turn a"
  "close_depth (snd (send_control_lane m a)) = close_depth a" "sa_turn (snd (send_control_lane m a)) = sa_turn a"
  "close_depth (snd (send_control s a)) = close_depth a" "sa_turn (snd (send_control s a)) = sa_turn a"
  "close_depth (snd (worker_call env c a)) = close_depth a" "sa_turn (snd (worker_call env c a)) = sa_turn a"
  "close_depth (snd (advance_generation a)) = close_depth a" "sa_turn (snd (advance_generation a)) = sa_turn a"
  by (auto simp: close_depth_def send_urgent_lane_def send_control_lane_def send_control_def worker_call_def
      advance_generation_def)

lemma speech_frame [turn_frame]:
  "close_depth (cancel_speech_output env a) = close_depth a" "sa_turn (cancel_speech_output env a) = sa_turn a"
  by (simp_all add: close_depth_def cancel_speech_output_def read_clock_def put_speech_state_def)

lemma producer_frame [turn_frame]:
  "close_depth (cancel_asr env a) = close_depth a" "sa_turn (cancel_asr env a) = sa_turn a"
  "close_depth (cancel_llm env a) = close_depth a" "sa_turn (cancel_llm env a) = map_option cancel_token (sa_turn a)"
  "close_depth (close_vad env a) = close_depth a" "sa_turn (close_vad env a) = sa_turn a"
  "close_depth (cancel_pending_actions a) = close_depth a" "sa_turn (cancel_pending_actions a) = sa_turn a"
  by (auto simp: close_depth_def cancel_asr_def cancel_llm_def close_vad_def cancel_pending_actions_def worker_call_def
      Let_def split: option.splits)

lemma commit_frame [turn_frame]:
  "close_depth (commit_tool_exchange b a) = close_depth a" "sa_turn (commit_tool_exchange b a) = sa_turn a"
  by (auto simp: close_depth_def commit_tool_exchange_def Let_def split: option.splits prod.splits)

lemma tool_frame [turn_frame]:
  "close_depth (cancel_tool_turn a) = close_depth a" "sa_turn (cancel_tool_turn a) = sa_turn a"
  by (auto simp: cancel_tool_turn_def Let_def close_depth_def commit_tool_exchange_def split: option.splits prod.splits)

lemma report_frame [turn_frame]:
  "close_depth (snd (report_result env a)) = close_depth a" "sa_turn (snd (report_result env a)) = sa_turn a"
  "\<not> fst (report_result env a) \<Longrightarrow> sa_direct_request (snd (report_result env a)) \<noteq> None"
  by (auto simp: close_depth_def report_result_def send_control_lane_def Let_def split: speech_origin.splits)

lemma drop_turn_frame [simp]:
  "close_depth (drop_turn a) = close_depth a" "sa_turn (drop_turn a) = None"
  by (auto simp: close_depth_def drop_turn_def split: option.splits)

lemma depth_update [simp]:
  "close_depth (a\<lparr>sa_gate := x0\<rparr>) = close_depth a" "close_depth (a\<lparr>sa_turn := x1\<rparr>) = close_depth a"
  "close_depth (a\<lparr>sa_delta := x2\<rparr>) = close_depth a" "close_depth (a\<lparr>sa_finish_pending := x3\<rparr>) = close_depth a"
  "close_depth (a\<lparr>sa_pending_audio := x4\<rparr>) = close_depth a" "close_depth (a\<lparr>sa_writer_pending := x5\<rparr>) = close_depth a"
  "close_depth (a\<lparr>sa_auto_reset := x6\<rparr>) = close_depth a" "close_depth (a\<lparr>sa_asr_stream := x7\<rparr>) = close_depth a"
  "close_depth (a\<lparr>sa_boundary := x8\<rparr>) = close_depth a" "close_depth (a\<lparr>sa_deferred := x9\<rparr>) = close_depth a"
  "close_depth (a\<lparr>sa_phase := x10\<rparr>) = close_depth a" "close_depth (a\<lparr>sa_shutdown := x11\<rparr>) = close_depth a"
  by (simp_all add: close_depth_def)

section \<open>The depth of a close\<close>

text \<open>A handler of a failed send that does not set the flags again.\<close>

definition shrinks :: "(('f, 'e) actor \<Rightarrow> ('f, 'e) actor) \<Rightarrow> bool" where
  "shrinks f \<longleftrightarrow> (\<forall>a. close_depth (f a) \<le> close_depth a \<and> (sa_turn a = None \<longrightarrow> sa_turn (f a) = None))"

lemma shrinksD:
  assumes "shrinks f"
  shows "close_depth (f a) \<le> close_depth a" and "sa_turn a = None \<Longrightarrow> sa_turn (f a) = None"
  using assms by (auto simp: shrinks_def)

lemma emit_shrinks: "shrinks f \<Longrightarrow> shrinks (emit_with f env state reason)"
  by (auto simp: shrinks_def emit_with_def Let_def split_beta turn_frame intro: le_trans)

text \<open>The turn after its status went out, and what a release does with it.\<close>

definition told_turn ::
    "(('f, 'e) actor \<Rightarrow> ('f, 'e) actor) \<Rightarrow> ('f, 'e) session_env \<Rightarrow> ('f, 'e) actor \<Rightarrow> ('f, 'e) actor" where
  "told_turn f env a =
     (let a1 = (snd (report_result env a))\<lparr>sa_direct_request := None\<rparr> in
      if sa_turn a1 \<noteq> None \<and> sa_status_active a1
      then emit_with f env (sa_status_outcome a1) None (a1\<lparr>sa_status_active := False\<rparr>) else a1)"

lemma release_eq:
  "release_with f env a =
     (if fst (report_result env a) then drop_turn (told_turn f env a) else f (drop_turn (told_turn f env a)))"
  by (simp add: release_with_def told_turn_def Let_def split_beta)

lemma reported_depth:
  "close_depth ((snd (report_result env a))\<lparr>sa_direct_request := None\<rparr>) + of_bool (\<not> fst (report_result env a)) \<le> close_depth a"
  using turn_frame(1) report_frame(1) [of env a] report_frame(3) [of env a]
  by (cases "fst (report_result env a)") (auto simp: close_depth_def)

lemma status_depth:
  "close_depth (a\<lparr>sa_status_active := False\<rparr>) + of_bool (sa_status_active a) = close_depth a"
  by (simp add: close_depth_def)

lemma told_depth:
  assumes "shrinks f"
  shows "close_depth (told_turn f env a) + of_bool (\<not> fst (report_result env a)) \<le> close_depth a"
proof -
  define a1 where "a1 = (snd (report_result env a))\<lparr>sa_direct_request := None\<rparr>"
  have "close_depth (told_turn f env a) \<le> close_depth a1"
    using shrinksD(1) [OF emit_shrinks [OF assms], of env "sa_status_outcome a1" None "a1\<lparr>sa_status_active := False\<rparr>"]
      status_depth [of a1]
    by (auto simp: told_turn_def Let_def a1_def [symmetric])
  with reported_depth [of env a] show ?thesis by (simp add: a1_def)
qed

lemma release_shrinks:
  assumes f: "shrinks f"
  shows "shrinks (release_with f env)" and "sa_turn (release_with f env a) = None"
proof -
  show none: "sa_turn (release_with f env a) = None" for a
    using shrinksD(2) [OF f] by (simp add: release_eq)
  have "close_depth (release_with f env a) \<le> close_depth a" for a
    using told_depth [OF f, of env a] shrinksD(1) [OF f, of "drop_turn (told_turn f env a)"]
    by (auto simp: release_eq split: if_splits)
  then show "shrinks (release_with f env)" by (simp add: shrinks_def none)
qed

text \<open>Speech is cancelled: the gate is closed and the output cleared before anything is sent.\<close>

definition quiet :: "('f, 'e) session_env \<Rightarrow> ('f, 'e) actor \<Rightarrow> ('f, 'e) actor" where
  "quiet env a =
     (cancel_speech_output env (a\<lparr>sa_gate := gate_invalidate (sa_generation a) (sa_gate a),
        sa_turn := map_option cancel_token (sa_turn a), sa_delta := None, sa_finish_pending := False\<rparr>))\<lparr>sa_pending_audio := None\<rparr>"

definition aborting :: "('f, 'e) session_env \<Rightarrow> turn_id \<Rightarrow> ('f, 'e) actor \<Rightarrow> bool \<times> ('f, 'e) actor" where
  "aborting env t a =
     (let b = a\<lparr>sa_writer_pending := insert t (sa_writer_pending a), sa_tts_started := False\<rparr>
      in send_urgent_lane (AbortTurn t (se_jtext env (direct_control ''stop'' [] b))) b)"

lemma cancel_eq:
  "cancel_speech_with f env a =
     (let b = quiet env a in
      if sa_tts_started b
      then (case current_turn_id b of
              None \<Rightarrow> b
            | Some t \<Rightarrow>
                if fst (aborting env t b) then snd (aborting env t b)
                else (f (snd (aborting env t b)))\<lparr>sa_shutdown := True\<rparr>)
      else release_with f env b)"
  by (simp add: cancel_speech_with_def quiet_def aborting_def Let_def split_beta split: option.split)

lemma quiet_frame [simp]:
  "close_depth (quiet env a) = close_depth a" "sa_turn (quiet env a) = map_option cancel_token (sa_turn a)"
  by (simp_all add: quiet_def turn_frame)

lemma aborting_frame:
  "close_depth (snd (aborting env t a)) + of_bool (sa_tts_started a) = close_depth a"
  "sa_turn (snd (aborting env t a)) = sa_turn a"
  by (auto simp: aborting_def Let_def turn_frame) (simp_all add: close_depth_def)

lemma cancel_shrinks: "shrinks f \<Longrightarrow> shrinks (cancel_speech_with f env)"
proof -
  assume f: "shrinks f"
  have "close_depth (cancel_speech_with f env a) \<le> close_depth a" for a
  proof -
    define b where "b = quiet env a"
    have b: "close_depth b = close_depth a" by (simp add: b_def)
    have "close_depth (f (snd (aborting env t b))) \<le> close_depth b" "close_depth (snd (aborting env t b)) \<le> close_depth b" for t
      using shrinksD(1) [OF f, of "snd (aborting env t b)"] aborting_frame(1) [of env t b] by simp_all
    with shrinksD(1) [OF release_shrinks(1) [OF f], of env b] b show ?thesis
      by (simp add: cancel_eq Let_def b_def [symmetric] split: option.split)
  qed
  moreover have "sa_turn (cancel_speech_with f env a) = None" if "sa_turn a = None" for a
    using that release_shrinks(2) [OF f] by (simp add: cancel_eq Let_def current_turn_id_def)
  ultimately show ?thesis by (simp add: shrinks_def)
qed

lemma interrupt_shrinks:
  assumes "shrinks f"
  shows "shrinks (interrupt_with f env)"
  using shrinksD [OF cancel_shrinks [OF assms, of env], of "cancel_pending_actions _"]
  by (simp add: shrinks_def interrupt_with_def turn_frame)

lemma close_shrinks: "shrinks f \<Longrightarrow> shrinks (close_with f env)"
  using interrupt_shrinks [of f env] by (simp add: shrinks_def close_with_def Let_def turn_frame)

lemma fail_shrinks: "shrinks (fail_closed_at n env)"
proof (induction n)
  case 0
  then show ?case by (simp add: shrinks_def)
next
  case (Suc n)
  then show ?case using close_shrinks [of "fail_closed_at n env" env] by (simp add: shrinks_def)
qed

text \<open>A close asks the failure handler only for states of smaller depth.\<close>

lemma close_cong:
  assumes f: "shrinks f" and eq: "\<And>b. close_depth b < close_depth a \<Longrightarrow> f b = g b"
  shows "close_with f env a = close_with g env a"
proof -
  have emit: "emit_with f env state reason b = emit_with g env state reason b" if "close_depth b < close_depth a" for state reason b
    using that eq by (simp add: emit_with_def Let_def split_beta turn_frame)
  have told: "told_turn f env b = told_turn g env b" if "close_depth b \<le> close_depth a" for b
  proof -
    define c where "c = (snd (report_result env b))\<lparr>sa_direct_request := None\<rparr>"
    have "close_depth (c\<lparr>sa_status_active := False\<rparr>) < close_depth a" if "sa_status_active c"
      using status_depth [of c] reported_depth [of env b] \<open>close_depth b \<le> close_depth a\<close> that by (simp add: c_def)
    then show ?thesis using emit by (auto simp: told_turn_def Let_def c_def [symmetric])
  qed
  have release: "release_with f env b = release_with g env b" if "close_depth b \<le> close_depth a" for b
    using told_depth [OF f, of env b] told [OF that] that eq [of "drop_turn (told_turn f env b)"]
    by (auto simp: release_eq)
  have "cancel_speech_with f env b = cancel_speech_with g env b" if "close_depth b \<le> close_depth a" for b
  proof -
    define c where "c = quiet env b"
    have c: "close_depth c \<le> close_depth a" using that by (simp add: c_def)
    then have "f (snd (aborting env t c)) = g (snd (aborting env t c))" if "sa_tts_started c" for t
      using aborting_frame(1) [of env t c] that by (intro eq) simp
    with release [OF c] show ?thesis by (simp add: cancel_eq Let_def c_def [symmetric] split: option.split)
  qed
  then show ?thesis by (simp add: close_with_def interrupt_with_def turn_frame)
qed

lemma fail_closed_enough: "close_depth a < n \<Longrightarrow> fail_closed_at (Suc n) env a = fail_closed_at n env a"
proof (induction n arbitrary: a)
  case (Suc n)
  have "close_with (fail_closed_at (Suc n) env) env a = close_with (fail_closed_at n env) env a"
    by (rule close_cong [OF fail_shrinks]) (use Suc in simp)
  then show ?case by simp
qed simp

text \<open>
  C10: the depth the failure handler is tied at never cuts anything off: closing a session is the handler of the
  code, which calls itself again for every lane that turns out to be full on the way. Each nested close finds
  one of three flags cleared (the writer owns the turn, a direct request waits for its result, a status is due),
  so the recursion of the code always ends.
\<close>

theorem fail_closed_is_recursive: "fail_closed env a = close_with (fail_closed env) env a"
proof -
  have "close_depth a < FAIL_DEPTH" by (simp add: FAIL_DEPTH_def close_depth_def)
  from fail_closed_enough [OF this, of env] have "fail_closed_at FAIL_DEPTH env a = close_with (fail_closed_at FAIL_DEPTH env) env a"
    by simp
  moreover have "fail_closed env = fail_closed_at FAIL_DEPTH env" by (simp add: fail_closed_def fun_eq_iff)
  ultimately show ?thesis by simp
qed

section \<open>The end of a session\<close>

lemma pipeline_frame:
  "sa_turn (retain_pipeline_until_cleanup env a) = sa_turn a"
  by (simp add: retain_pipeline_until_cleanup_def drop_pipeline_def)

lemma drop_frame: "sa_turn (session_drop env a) = None"
  using release_shrinks(2) [OF fail_shrinks [of FAIL_DEPTH env, folded fail_closed_def], of env]
  by (simp add: session_drop_def Let_def pipeline_frame turn_frame release_active_turn_def fail_closed_def [abs_def])

text \<open>A small step of permits: what an actor and the one before hold is what the limiter counts.\<close>

lemma permits_step:
  assumes "sinv jt r a"
  shows "tl_capacity (sa_limiter a) = tl_capacity (sa_limiter r)"
    and "tl_active (sa_limiter a) + own_permits r = tl_active (sa_limiter r) + own_permits a"
    and "own_permits a \<le> tl_active (sa_limiter a)" and "tl_active (sa_limiter a) \<le> tl_capacity (sa_limiter a)"
  using assms by (auto simp: sinv_def permits_balance_def own_permits_def)

end
