(* ===== verification/Session_Theorems.thy ===== *)
theory Session_Theorems
  imports Session_Sample Session_Closing
begin

text \<open>
  What a voice session guarantees, whatever the interleaving of its client, its workers, its writer and the other
  sessions. The witnesses use the run of the small session up to its first request to the model.
\<close>

section \<open>The session as a client of the writer\<close>

text \<open>
  C5: a voice session uses its writer as the writer expects: every run of the session, with its worker events,
  ticks, client messages, other sessions and its end, is a run of the writer's own system, in which messages
  are put on the lanes of their kind, generations are invalidated and requests counted. So what holds of the
  writer in every run of that system holds of the connection of every session.
\<close>

theorem session_refines_writer_client:
  assumes "session_start s" and "(session_step jt)\<^sup>*\<^sup>* s t"
  shows "writer_init (writer_view s) \<and> writer_sys_step\<^sup>*\<^sup>* (writer_view s) (writer_view t)"
proof -
  from assms(1) have "start_ok jt (ys_actor s)" "ys_writer s = writer_new"
    unfolding session_start_def using admitted_start by blast+
  then have "writer_init (writer_view s)"
    by (simp add: start_ok_def writer_init_def writer_view_def writer_lanes_def writer_new_def)
  with run_writer_steps [OF assms(2) start_good [OF assms(1)]] show ?thesis by simp
qed

lemma session_refines_writer_client_witness:
  "writer_init (writer_view sample_sys) \<and> writer_sys_step\<^sup>*\<^sup>* (writer_view sample_sys) (writer_view asked)"
  by (rule session_refines_writer_client [OF sample_start asked_run(1)])

section \<open>Interruption\<close>

text \<open>Cancelling speech closes the gate for the generation before it does anything else.\<close>

lemma cancel_speech_floor:
  assumes "\<And>r b. sinv jt r b \<Longrightarrow> sinv jt r (fail b)" and "good jt a"
  shows "sa_generation a \<le> invalidated_through (sa_gate (cancel_speech_with fail env a))"
proof -
  define a1 where "a1 = a\<lparr>sa_gate := gate_invalidate (sa_generation a) (sa_gate a),
      sa_turn := map_option cancel_token (sa_turn a), sa_delta := None, sa_finish_pending := False\<rparr>"
  have "sinv jt a a1"
    using assms(2) unfolding a1_def good_def by (auto dest: sinvD(4) intro!: sess)
  then have a1: "sinv jt a1 a1" using sinv_good by (simp add: good_def)
  have "sinv jt a1
      (let a2 = (cancel_speech_output env a1)\<lparr>sa_pending_audio := None\<rparr>
       in if sa_tts_started a2
          then (case current_turn_id a2 of
                  None \<Rightarrow> a2
                | Some t \<Rightarrow>
                    let a3 = a2\<lparr>sa_writer_pending := insert t (sa_writer_pending a2), sa_tts_started := False\<rparr>;
                        (sent, a4) = send_urgent_lane (AbortTurn t (se_jtext env (direct_control ''stop'' [] a3))) a3
                    in if sent then a4 else (fail a4)\<lparr>sa_shutdown := True\<rparr>)
          else release_with fail env a2)"
    using a1 assms(1) by - (rule sess keep_release_with | assumption | simp)+
  then have "sinv jt a1 (cancel_speech_with fail env a)"
    unfolding cancel_speech_with_def a1_def [symmetric] Let_def by simp
  then have "invalidated_through (sa_gate a1) \<le> invalidated_through (sa_gate (cancel_speech_with fail env a))"
    by (simp add: sinv_def)
  then show ?thesis by (simp add: a1_def)
qed

lemma floor_kept: "sinv jt r a \<Longrightarrow> n \<le> invalidated_through (sa_gate r) \<Longrightarrow> n \<le> invalidated_through (sa_gate a)"
  by (auto simp: sinv_def)

lemma interrupt_floor:
  assumes "\<And>r b. sinv jt r b \<Longrightarrow> sinv jt r (fail b)" and "good jt a"
  shows "sa_generation a \<le> invalidated_through (sa_gate (interrupt_with fail env a))"
proof -
  define a1 where "a1 = cancel_pending_actions a"
  have a1: "good jt a1" "sa_generation a1 = sa_generation a"
    unfolding a1_def by (rule sinv_good [OF keep_cancel_actions [OF assms(2) [unfolded good_def]]])
      (simp add: cancel_pending_actions_def split: option.split)
  define a2 where "a2 = cancel_speech_with fail env a1"
  have a2: "sinv jt a2 a2"
    unfolding a2_def
    by (rule sinv_good [OF keep_cancel_speech_with [OF assms(1) a1(1) [unfolded good_def]], unfolded good_def])
  then have "sinv jt a2 (cancel_asr env (cancel_tool_turn (cancel_llm env a2)))" by (auto intro!: sess)
  with cancel_speech_floor [where fail = fail and env = env, OF assms(1) a1(1)] a1(2) show ?thesis
    unfolding interrupt_with_def a1_def [symmetric] a2_def [symmetric] by (auto intro: floor_kept)
qed

lemma later_floor:
  assumes "good jt b" and "n \<le> invalidated_through (sa_gate b)" and "\<And>r x. sinv jt r x \<Longrightarrow> sinv jt r (h x)"
  shows "n \<le> invalidated_through (sa_gate (h b))"
  using assms floor_kept unfolding good_def by blast

lemma abort_floor:
  assumes "good jt a" and "sa_phase a \<noteq> Closed"
  shows "sa_generation a \<le> invalidated_through (sa_gate (abort_active_interaction env a))"
proof -
  define a1 where "a1 = a\<lparr>sa_status_outcome := ''cancelled''\<rparr>"
  from assms(1) have a1: "good jt a1" by (simp add: a1_def good_def sinv_def permits_balance_def)
  define a2 where "a2 = interrupt_active_turn env a1"
  have "sa_generation a1 \<le> invalidated_through (sa_gate a2)"
    unfolding a2_def interrupt_active_turn_def by (rule interrupt_floor [OF keep_fail_closed a1])
  then have floor: "sa_generation a \<le> invalidated_through (sa_gate a2)" by (simp add: a1_def)
  have "sinv jt a2 a2"
    using sinv_good [OF keep_interrupt [OF a1 [unfolded good_def]]] by (simp add: a2_def good_def)
  then have "sinv jt a2 (abort_active_interaction env a)"
    unfolding abort_active_interaction_def if_not_P [OF assms(2)] a1_def [symmetric] Let_def [of a1] a2_def [symmetric]
      Let_def [of a2]
    by - (rule sess | assumption | rule allI impI conjI | simp)+
  with floor show ?thesis by (blast intro: floor_kept)
qed

lemma shutdown_floor:
  assumes "good jt a" and "sa_phase a \<noteq> Closed"
  shows "sa_generation a \<le> invalidated_through (sa_gate (begin_application_shutdown env a))"
proof -
  define a2 where "a2 = interrupt_active_turn env a"
  have floor: "sa_generation a \<le> invalidated_through (sa_gate a2)"
    unfolding a2_def interrupt_active_turn_def by (rule interrupt_floor [OF keep_fail_closed assms(1)])
  have "sinv jt a2 a2"
    using sinv_good [OF keep_interrupt [OF assms(1) [unfolded good_def]]] by (simp add: a2_def good_def)
  then have "sinv jt a2 (begin_application_shutdown env a)"
    unfolding begin_application_shutdown_def if_not_P [OF assms(2)] a2_def [symmetric]
    by - (rule sess | assumption | rule allI impI conjI | simp)+
  with floor show ?thesis by (blast intro: floor_kept)
qed

text \<open>The events that end what is being said: the abort of the client, and the two that end the session.\<close>

definition ends_speech :: "('f, 'e) session_env \<Rightarrow> session_event \<Rightarrow> ('f, 'e) actor \<Rightarrow> bool" where
  "ends_speech env e a \<longleftrightarrow>
     (case e of
        SecurityInvalidated \<Rightarrow> sa_phase a \<noteq> Closed
      | ShutdownEvent \<Rightarrow> sa_phase a \<noteq> Closed
      | ClientMessage (Abort sid) \<Rightarrow>
          \<not> speaker_security_revoked a \<and> inbound_session_matches sid (drain_writer_events env a) \<and>
          sa_phase (drain_writer_events env a) \<noteq> Closed
      | _ \<Rightarrow> False)"

definition after_event :: "bool \<times> ('f, 'e) actor \<Rightarrow> ('f, 'e) session_sys \<Rightarrow> ('f, 'e) session_sys" where
  "after_event p s =
     (case p of (True, a) \<Rightarrow> s\<lparr>ys_actor := a\<rparr> | (False, a) \<Rightarrow> s\<lparr>ys_actor := a\<lparr>sa_phase := Closed\<rparr>, ys_stage := Leaving\<rparr>)"

lemma leave_floor:
  assumes "good jt a" and "sa_phase a \<noteq> Closed"
  shows "sa_generation a \<le> invalidated_through (sa_gate (snd (leave_session env code a)))"
  using shutdown_floor [OF assms] by (simp add: leave_session_def send_close_waiting_def)

lemma client_abort_floor:
  assumes "good jt a" and "sa_phase a \<noteq> Closed" and "inbound_session_matches sid a"
  shows "sa_generation a \<le> invalidated_through (sa_gate (on_client_message env (Abort sid) a))"
proof -
  define b where "b = a\<lparr>sa_request := sa_request a + 1\<rparr>"
  have b: "good jt b" "sa_phase b \<noteq> Closed" "inbound_session_matches sid b"
    using assms by (auto simp: b_def good_def sinv_def permits_balance_def inbound_session_matches_def)
  have "good jt (b\<lparr>sa_deferred := []\<rparr>)" using b(1) by (simp add: good_def sinv_def permits_balance_def)
  from abort_floor [OF this, of env] abort_floor [OF b(1,2), of env] b
  have "sa_generation b \<le> invalidated_through (sa_gate (on_client_message env (Abort sid) a))"
    using assms(3) unfolding on_client_message_def own_intent_def apply_client_message_def b_def [symmetric]
    by (auto simp: b_def [symmetric] Let_def own_intent_def inbound_session_matches_def)
  then show ?thesis by (simp add: b_def)
qed

lemma ending_floor:
  assumes "good jt a" and "jt = se_jtext env" and "ends_speech env e a"
  shows "sa_generation a \<le> invalidated_through (sa_gate (snd (on_session_event env e a)))"
proof -
  define b where "b = drain_writer_events env a"
  have b: "sinv jt a b" unfolding b_def by (rule keep_drain_writer [OF assms(1) [unfolded good_def] assms(2)])
  show ?thesis
  proof (cases "\<exists>sid. e = ClientMessage (Abort sid)")
    case True
    then obtain sid where e: "e = ClientMessage (Abort sid)" by blast
    with assms(3) have "inbound_session_matches sid b" "sa_phase b \<noteq> Closed" "\<not> speaker_security_revoked a"
      by (simp_all add: ends_speech_def b_def)
    moreover from b have "sa_generation a \<le> sa_generation b" by (simp add: sinv_def)
    ultimately show ?thesis
      using client_abort_floor [OF sinv_good [OF b]] by (force simp: on_session_event_def e b_def [symmetric] intro: le_trans)
  next
    case False
    with assms(3) leave_floor [OF assms(1)] show ?thesis
      by (auto simp: ends_speech_def on_session_event_def split: session_event.splits client_message.splits)
  qed
qed

text \<open>What the gate refuses is not sent, whatever the session does from then on.\<close>

lemma silent_run:
  assumes "(session_step jt)\<^sup>*\<^sup>* s t" and "good jt (ys_actor s)" and "g \<le> invalidated_through (sa_gate (ys_actor s))"
  shows "filter (stale g) (wr_sent (ys_writer t)) = filter (stale g) (wr_sent (ys_writer s))"
proof -
  have "\<not> gate_admits (ws_gate (writer_view s)) g" using assms(3) by (simp add: gate_admits_def)
  with run_writer_steps [OF assms(1,2)]
  have "\<not> gate_admits (ws_gate (writer_view t)) g \<and>
      filter (stale g) (wr_sent (ws_writer (writer_view t))) = filter (stale g) (wr_sent (ws_writer (writer_view s)))"
    by (induction rule: rtranclp_induct) (auto dest: stale_step)
  then show ?thesis by simp
qed

text \<open>
  C4: an interruption silences the session at once. When the client aborts, when the user's security state is
  revoked or the server shuts down, no start, text or packet of the answer being spoken, or of an older one,
  goes out any more: not what waits on the lanes, not what the writer took before, and not what late workers
  still produce, whatever the session, its writer and the rest of the server do from then on.
\<close>

theorem interrupted_turn_is_silent:
  assumes "session_start s0" and "(session_step jt)\<^sup>*\<^sup>* s0 s" and "jt = se_jtext env" and "ends_speech env e (ys_actor s)"
    and "(session_step jt)\<^sup>*\<^sup>* (after_event (on_session_event env e (ys_actor s)) s) t"
  shows "list_all (\<lambda>m. message_generation m \<le> sa_generation (ys_actor s)) (sa_control (ys_actor s) @ sa_audio (ys_actor s)) \<and>
    filter (stale (sa_generation (ys_actor s))) (wr_sent (ys_writer t)) =
    filter (stale (sa_generation (ys_actor s))) (wr_sent (ys_writer s))"
proof -
  from reachable_good [OF assms(1,2)] have good: "good jt (ys_actor s)" .
  obtain live a where p: "on_session_event env e (ys_actor s) = (live, a)" by (cases "on_session_event env e (ys_actor s)")
  define u where "u = after_event (live, a) s"
  from keep_session_event [OF good [unfolded good_def] assms(3), of e] p have "good jt a"
    by (auto simp: pinv_def dest: sinv_good)
  then have "good jt (ys_actor u)" by (cases live) (auto simp: u_def after_event_def good_def sinv_def permits_balance_def)
  moreover from ending_floor [OF good assms(3,4)] p
  have "sa_generation (ys_actor s) \<le> invalidated_through (sa_gate (ys_actor u))"
    by (cases live) (simp_all add: u_def after_event_def)
  ultimately have "filter (stale (sa_generation (ys_actor s))) (wr_sent (ys_writer t)) =
      filter (stale (sa_generation (ys_actor s))) (wr_sent (ys_writer u))"
    using silent_run assms(5) by (simp add: p u_def)
  moreover have "ys_writer u = ys_writer s" by (cases live) (simp_all add: u_def after_event_def)
  ultimately show ?thesis using good_tags [OF good] by simp
qed

lemma interrupted_turn_is_silent_witness:
  "list_all (\<lambda>m. message_generation m \<le> sa_generation (ys_actor asked)) (sa_control (ys_actor asked) @ sa_audio (ys_actor asked)) \<and>
   filter (stale (sa_generation (ys_actor asked)))
     (wr_sent (ys_writer (after_event (on_session_event sample_env (ClientMessage (Abort None)) (ys_actor asked)) asked))) =
   filter (stale (sa_generation (ys_actor asked))) (wr_sent (ys_writer asked))"
proof -
  have "ends_speech sample_env (ClientMessage (Abort None)) (ys_actor asked)"
    using asked_run(3)
    by (auto simp: ends_speech_def answering_def speaker_security_revoked_def inbound_session_matches_def drain_writer_events_def)
  moreover have "(\<lambda>_. []) = se_jtext sample_env" by (simp add: sample_env_def)
  ultimately show ?thesis using interrupted_turn_is_silent [OF sample_start asked_run(1)] by blast
qed

section \<open>Turn permits\<close>

lemma run_capacity:
  assumes "(session_step jt)\<^sup>*\<^sup>* s t" and "good jt (ys_actor s)"
  shows "tl_capacity (sa_limiter (ys_actor t)) = tl_capacity (sa_limiter (ys_actor s))"
  using assms
proof (induction rule: rtranclp_induct)
  case (step t u)
  from session_own_step [OF step(2) run_good [OF step(1,4)]]
  have "tl_capacity (sa_limiter (ys_actor u)) = tl_capacity (sa_limiter (ys_actor t))"
    by (auto dest: permits_step(1) simp: outside_def after_pass_def)
  with step show ?case by simp
qed simp

text \<open>
  C6: the server-wide limit on turns holds and no turn permit is lost. At any moment of any run the session holds
  at most one permit, which the limiter counts, and the limiter never counts more than its capacity; and if the
  session ends then, at whatever point of whatever turn and however full its lanes, dropping it leaves it
  without a turn and gives back exactly the permit it held.
\<close>

theorem session_gives_back_its_turn:
  assumes "session_start s" and "(session_step jt)\<^sup>*\<^sup>* s t"
  shows "own_permits (ys_actor t) \<le> tl_active (sa_limiter (ys_actor t)) \<and>
    tl_active (sa_limiter (ys_actor t)) \<le> tl_capacity (sa_limiter (ys_actor t)) \<and>
    tl_capacity (sa_limiter (ys_actor t)) = tl_capacity (sa_limiter (ys_actor s)) \<and>
    own_permits (session_drop env (ys_actor t)) = 0 \<and>
    tl_active (sa_limiter (session_drop env (ys_actor t))) + own_permits (ys_actor t) = tl_active (sa_limiter (ys_actor t))"
proof -
  from reachable_good [OF assms] have good: "sinv jt (ys_actor t) (ys_actor t)" by (simp add: good_def)
  have "own_permits (session_drop env (ys_actor t)) = 0" by (simp add: own_permits_def drop_frame)
  with permits_step [OF good] permits_step(2) [OF keep_session_drop [OF good], of env]
    run_capacity [OF assms(2) start_good [OF assms(1)]]
  show ?thesis by simp
qed

lemma session_gives_back_its_turn_witness:
  "own_permits (ys_actor asked) = 1 \<and>
   tl_active (sa_limiter (session_drop sample_env (ys_actor asked))) + 1 = tl_active (sa_limiter (ys_actor asked))"
proof -
  have "own_permits (ys_actor asked) = 1" using asked_run(3) by (simp add: answering_def own_permits_def)
  with session_gives_back_its_turn [OF sample_start asked_run(1), of sample_env] show ?thesis by simp
qed

section \<open>Requests to the model\<close>

text \<open>
  C7: every request a session ever sends to a model is well formed: one system message, first and nowhere else;
  every round of tool calls followed by the results of its calls, in their order, each with the id of the call it
  answers, and no result anywhere else; and the size that the
  code computes, with the system prompt, the history, the tools and the results, within the hard limit.
\<close>

theorem model_requests_well_formed:
  assumes "session_start s" and "(session_step jt)\<^sup>*\<^sup>* s t" and "CallLlmStart n i rq \<in> set (sa_calls (ys_actor t))"
  shows "\<exists>system rest. rq_messages rq = System system # rest \<and> (\<forall>m\<in>set rest. \<forall>other. m \<noteq> System other) \<and> paired [] rest \<and>
    (\<exists>size. llm_request_size_bytes jt rq = Inr size \<and> size \<le> LLM_REQUEST_HARD_LIMIT_BYTES)"
proof -
  from reachable_good [OF assms(1,2)] have "list_all (call_ok jt) (sa_calls (ys_actor t))"
    by (simp add: good_def sinv_def calls_fit_def)
  with assms(3) have "request_ok jt rq" by (auto simp: list_all_iff call_ok_def)
  then obtain system rest size where rq: "rq_messages rq = System system # rest" "list_all (\<lambda>x. \<forall>s. x \<noteq> System s) rest" "paired [] rest"
      "llm_request_size_bytes jt rq = Inr size"
    by (cases "rq_messages rq") (auto simp: request_ok_def prompt_shape_def)
  moreover from rq(4) have "size \<le> LLM_REQUEST_HARD_LIMIT_BYTES" by (auto simp: request_size_exact Let_def split: if_splits)
  ultimately show ?thesis by (auto simp: list_all_iff)
qed

lemma model_requests_well_formed_witness:
  "\<exists>system rest. rq_messages asked_request = System system # rest \<and> (\<forall>m\<in>set rest. \<forall>other. m \<noteq> System other) \<and> paired [] rest \<and>
    (\<exists>size. llm_request_size_bytes (\<lambda>_. []) asked_request = Inr size \<and> size \<le> LLM_REQUEST_HARD_LIMIT_BYTES)"
  using asked_run(2) model_requests_well_formed [OF sample_start asked_run(1)] by blast

text \<open>
  C8: the operations a session opens on its recognizer, its voice activity detector and its model carry distinct
  numbers, over its whole life, also across changes of the runtimes. So a late answer can always be told from one
  to the operation that is current.
\<close>

theorem operations_never_reused:
  assumes "session_start s" and "(session_step jt)\<^sup>*\<^sup>* s t"
  shows "distinct (opened (sa_calls (ys_actor t))) \<and> list_all (\<lambda>n. n < sa_next_operation (ys_actor t)) (opened (sa_calls (ys_actor t)))"
  using reachable_good [OF assms] by (simp add: good_def sinv_def calls_fit_def list_all_iff)

lemma operations_never_reused_witness: "distinct (opened (sa_calls (ys_actor asked)))"
  using operations_never_reused [OF sample_start asked_run(1)] by blast

section \<open>Bounds\<close>

text \<open>
  C9: what a session keeps is bounded by its configuration. The utterance kept for identification, the audio kept
  for a late recognizer, the input that waits for a change of runtimes, the rounds of a turn and the calls of a
  round stay within their limits, and the audio kept for a late recognizer ends exactly at the cursor.
\<close>

theorem session_data_bounded:
  assumes "session_start s" and "(session_step jt)\<^sup>*\<^sup>* s t"
  shows "let a = ys_actor t in
    length (sa_observe_pcm a) \<le> OBSERVE_MAX_SAMPLES \<and>
    length (re_samples (sa_retention a)) \<le> re_capacity (sa_retention a) \<and>
    re_cursor (sa_retention a) = re_first (sa_retention a) + length (re_samples (sa_retention a)) \<and>
    length (sa_deferred a) \<le> sa_ingress_capacity a \<and>
    tr_rounds (sa_rounds a) \<le> tl_max_rounds_per_turn (tr_limits (sa_rounds a)) \<and>
    (case sa_batch a of None \<Rightarrow> True
     | Some b \<Rightarrow> length (tb_results b) = length (tb_completed b) \<and> tb_next b \<le> length (tb_calls b) \<and>
         length (tb_calls b) \<le> tl_max_calls_per_round (tr_limits (sa_rounds a)))"
proof -
  define a where "a = ys_actor t"
  from reachable_good [OF assms] have good: "sinv jt a a" by (simp add: good_def a_def)
  have "length (tb_results b) = length (tb_completed b) \<and> tb_next b \<le> length (tb_calls b) \<and>
      length (tb_calls b) \<le> tl_max_calls_per_round (tr_limits (sa_rounds a))" if "sa_batch a = Some b" for b
    using sinvD(6) [OF good that] by (auto simp: batch_fits_def dest: list_all2_lengthD)
  with good show ?thesis by (simp add: sinv_def retention_fits_def a_def split: option.split)
qed

lemma session_data_bounded_witness: "length (sa_observe_pcm (ys_actor asked)) \<le> OBSERVE_MAX_SAMPLES"
  using session_data_bounded [OF sample_start asked_run(1)] by (simp add: Let_def)

end
