(* ===== verification/Llm_Runtime.thy ===== *)
theory Llm_Runtime
  imports Session_State Tts_Safety
begin

text \<open>
  The runtime of the language model (\<open>workers/llm/mod.rs\<close>): operations of voice sessions as tasks that forward
  the provider's stream into the session's mailbox, their cancellation, capacity and end; single-shot invocations and
  diagnostics.
\<close>

section \<open>Events and errors\<close>

datatype llm_failure_reason = OpenStream | StreamBroken | StreamTimedOut

datatype llm_runtime_event =
    RuntimeTextDelta worker_identity rstr
  | RuntimeToolCall worker_identity tool_call
  | RuntimeFinished worker_identity
  | RuntimeFailed worker_identity llm_failure_reason
  | RuntimeCancelled worker_identity

fun event_identity :: "llm_runtime_event \<Rightarrow> worker_identity" where
  "event_identity (RuntimeTextDelta i _) = i"
| "event_identity (RuntimeToolCall i _) = i"
| "event_identity (RuntimeFinished i) = i"
| "event_identity (RuntimeFailed i _) = i"
| "event_identity (RuntimeCancelled i) = i"

fun ends_operation :: "llm_runtime_event \<Rightarrow> bool" where
  "ends_operation (RuntimeTextDelta _ _) = False"
| "ends_operation (RuntimeToolCall _ _) = False"
| "ends_operation _ = True"

datatype llm_start_error = NoTokioRuntime | StartCapacity

datatype llm_provider_error =
    ProviderUnsupported string | ProviderRejected | ProviderFailed | ToolOutcomeUnknown | RateLimited | Transient | Unauthorized
  | ProviderTimeout

datatype llm_invoke_error = InvokeOverloaded | InvokeTimeout | InvokeUnsupported string | InvokeRejected | InvokeFailed

text \<open>What the provider's stream yields: \<open>LlmEvent\<close>, an error, or its end.\<close>

datatype llm_item = ItemActivity | ItemText rstr | ItemCall tool_call | ItemFinished | ItemError | ItemEnd

section \<open>The runtime\<close>

text \<open>
  A mailbox keeps everything ever put into it, and how much of that the session has taken. A task is named by a
  number; its cancellation token too.
\<close>

record llm_mailbox =
  lm_capacity :: usize
  lm_log :: "llm_runtime_event list"
  lm_taken :: nat
  lm_open :: bool

datatype task_phase =
    TaskSpawned | TaskOpening nat | TaskStreaming nat | TaskSending nat llm_runtime_event | TaskEnding nat llm_runtime_event

record llm_task =
  lt_identity :: worker_identity
  lt_token :: nat
  lt_permit :: capacity_permit
  lt_phase :: task_phase

record llm_runtime =
  lr_closed :: bool
  lr_store :: adm_store
  lr_routes :: "(rstr, nat) hmap"
  lr_mailboxes :: "llm_mailbox list"
  lr_cancellations :: "(worker_identity, nat) hmap"
  lr_cancelled :: "nat list"
  lr_tasks :: "(nat, llm_task) hmap"
  lr_next :: nat

text \<open>\<open>new_with_voice_reservation\<close> asserts its arguments; a failed assertion is \<open>None\<close>.\<close>

definition llm_with_admission :: "adm_store \<Rightarrow> llm_runtime" where
  "llm_with_admission store =
     \<lparr>lr_closed = False, lr_store = store, lr_routes = [], lr_mailboxes = [], lr_cancellations = [], lr_cancelled = [],
      lr_tasks = [], lr_next = 0\<rparr>"

definition llm_with_reservation :: "usize \<Rightarrow> usize \<Rightarrow> nat \<Rightarrow> adm_store \<Rightarrow> (llm_runtime \<times> admission) option" where
  "llm_with_reservation capacity reserved timeout store =
     (if capacity = 0 \<or> reserved = 0 \<or> capacity < reserved \<or> timeout = 0 then None
      else map_option (\<lambda>(st, v). (llm_with_admission st, v)) (admission_new capacity reserved store))"

definition llm_register :: "rstr \<Rightarrow> usize \<Rightarrow> llm_runtime \<Rightarrow> nat \<times> llm_runtime" where
  "llm_register session capacity rt =
     (length (lr_mailboxes rt),
      rt\<lparr>lr_mailboxes := lr_mailboxes rt @ [\<lparr>lm_capacity = capacity, lm_log = [], lm_taken = 0, lm_open = True\<rparr>],
         lr_routes := hm_insert session (length (lr_mailboxes rt)) (lr_routes rt)\<rparr>)"

definition llm_unregister :: "rstr \<Rightarrow> llm_runtime \<Rightarrow> llm_runtime" where
  "llm_unregister session rt = rt\<lparr>lr_routes := hm_remove session (lr_routes rt)\<rparr>"

definition llm_drop_permit :: "capacity_permit \<Rightarrow> llm_runtime \<Rightarrow> llm_runtime" where
  "llm_drop_permit c rt = rt\<lparr>lr_store := drop_permit c (lr_store rt)\<rparr>"

text \<open>The permit is taken before the lock; a runtime that has been closed in between drops it again.\<close>

definition llm_start ::
    "admission \<Rightarrow> bool \<Rightarrow> worker_identity \<Rightarrow> nat \<Rightarrow> llm_runtime \<Rightarrow> (llm_start_error + unit) \<times> llm_runtime" where
  "llm_start v in_tokio identity token rt =
     (if \<not> in_tokio then (Inl NoTokioRuntime, rt)
      else (case try_admit (lr_store rt) v Voice of
              None \<Rightarrow> (Inl StartCapacity, rt)
            | Some (st, permit) \<Rightarrow>
                let rt1 = rt\<lparr>lr_store := st\<rparr> in
                if lr_closed rt1 then (Inl StartCapacity, llm_drop_permit permit rt1)
                else (Inr (), rt1\<lparr>lr_cancellations := hm_insert identity token (lr_cancellations rt1),
                        lr_tasks := hm_insert (lr_next rt1)
                          \<lparr>lt_identity = identity, lt_token = token, lt_permit = permit, lt_phase = TaskSpawned\<rparr> (lr_tasks rt1),
                        lr_next := lr_next rt1 + 1\<rparr>)))"

definition cancel_llm_token :: "nat \<Rightarrow> llm_runtime \<Rightarrow> llm_runtime" where
  "cancel_llm_token token rt = rt\<lparr>lr_cancelled := token # lr_cancelled rt\<rparr>"

definition llm_cancel :: "worker_identity \<Rightarrow> llm_runtime \<Rightarrow> llm_runtime" where
  "llm_cancel identity rt =
     (case hm_get (lr_cancellations rt) identity of None \<Rightarrow> rt | Some token \<Rightarrow> cancel_llm_token token rt)"

definition llm_shutdown_acknowledged :: "admission \<Rightarrow> llm_runtime \<Rightarrow> bool \<times> llm_runtime" where
  "llm_shutdown_acknowledged v rt =
     (lr_cancellations rt = [] \<and> view_usage (lr_store rt) v = 0, rt\<lparr>lr_closed := True\<rparr>)"

definition llm_admit_diagnostic :: "admission \<Rightarrow> llm_runtime \<Rightarrow> (capacity_permit \<times> llm_runtime) option" where
  "llm_admit_diagnostic v rt =
     (if lr_closed rt then None
      else map_option (\<lambda>(st, c). (c, rt\<lparr>lr_store := st\<rparr>)) (try_admit (lr_store rt) v Diagnostic))"

text \<open>A single-shot invocation: the tag, the permit, then the provider's answer (\<open>None\<close> when it took too long).\<close>

definition llm_invoke_begin ::
    "admission \<Rightarrow> bool \<Rightarrow> string \<Rightarrow> llm_runtime \<Rightarrow> (llm_invoke_error + capacity_permit) \<times> llm_runtime" where
  "llm_invoke_begin v supported tag rt =
     (if \<not> supported then (Inl (InvokeUnsupported tag), rt)
      else if lr_closed rt then (Inl InvokeOverloaded, rt)
      else (case try_admit (lr_store rt) v Voice of
              None \<Rightarrow> (Inl InvokeOverloaded, rt)
            | Some (st, c) \<Rightarrow> (Inr c, rt\<lparr>lr_store := st\<rparr>)))"

definition llm_invoke_end ::
    "capacity_permit \<Rightarrow> (llm_provider_error + 'o) option \<Rightarrow> llm_runtime \<Rightarrow> (llm_invoke_error + 'o) \<times> llm_runtime" where
  "llm_invoke_end c result rt =
     (case result of
        Some (Inr output) \<Rightarrow> Inr output
      | Some (Inl (ProviderUnsupported tag)) \<Rightarrow> Inl (InvokeUnsupported tag)
      | Some (Inl ProviderRejected) \<Rightarrow> Inl InvokeRejected
      | Some (Inl ProviderTimeout) \<Rightarrow> Inl InvokeTimeout
      | Some (Inl _) \<Rightarrow> Inl InvokeFailed
      | None \<Rightarrow> Inl InvokeTimeout,
      llm_drop_permit c rt)"

section \<open>The task of an operation\<close>

text \<open>
  The task runs between its awaits, one step each. It has no step for a panic: nothing aborts the task, it is only
  cancelled, and the provider's stream is taken not to unwind. If it did, the permit would come back but the
  entry in the table of cancellations would stay, and a shutdown would not be acknowledged.
\<close>

definition set_phase :: "nat \<Rightarrow> task_phase \<Rightarrow> llm_runtime \<Rightarrow> llm_runtime" where
  "set_phase n ph rt = rt\<lparr>lr_tasks := hm_adjust n (\<lambda>t. t\<lparr>lt_phase := ph\<rparr>) (lr_tasks rt)\<rparr>"

definition remove_task :: "nat \<Rightarrow> llm_runtime \<Rightarrow> llm_runtime" where
  "remove_task n rt = rt\<lparr>lr_tasks := hm_remove n (lr_tasks rt)\<rparr>"

text \<open>The operation is over: out of the table, its permit back, then the event to the mailbox if there is one.\<close>

definition end_task :: "nat \<Rightarrow> nat option \<Rightarrow> llm_runtime_event \<Rightarrow> llm_runtime \<Rightarrow> llm_runtime" where
  "end_task n route terminal rt =
     (case hm_get (lr_tasks rt) n of
        None \<Rightarrow> rt
      | Some t \<Rightarrow>
          let rt1 = llm_drop_permit (lt_permit t) (rt\<lparr>lr_cancellations := hm_remove (lt_identity t) (lr_cancellations rt)\<rparr>)
          in (case route of None \<Rightarrow> remove_task n rt1 | Some r \<Rightarrow> set_phase n (TaskEnding r terminal) rt1))"

text \<open>The first lines of the task: without a mailbox the operation is cancelled.\<close>

definition task_route :: "nat \<Rightarrow> llm_runtime \<Rightarrow> llm_runtime" where
  "task_route n rt =
     (case hm_get (lr_tasks rt) n of
        None \<Rightarrow> rt
      | Some t \<Rightarrow>
          if lt_phase t \<noteq> TaskSpawned then rt
          else (case hm_get (lr_routes rt) (wi_session (lt_identity t)) of
                  None \<Rightarrow> end_task n None (RuntimeCancelled (lt_identity t)) rt
                | Some r \<Rightarrow> set_phase n (TaskOpening r) rt))"

definition task_open :: "bool \<Rightarrow> nat \<Rightarrow> llm_runtime \<Rightarrow> llm_runtime" where
  "task_open opened_ok n rt =
     (case hm_get (lr_tasks rt) n of
        None \<Rightarrow> rt
      | Some t \<Rightarrow>
          (case lt_phase t of
             TaskOpening r \<Rightarrow>
               if opened_ok then set_phase n (TaskStreaming r) rt
               else end_task n (Some r) (RuntimeFailed (lt_identity t) OpenStream) rt
           | _ \<Rightarrow> rt))"

definition task_item :: "llm_item \<Rightarrow> nat \<Rightarrow> llm_runtime \<Rightarrow> llm_runtime" where
  "task_item item n rt =
     (case hm_get (lr_tasks rt) n of
        None \<Rightarrow> rt
      | Some t \<Rightarrow>
          (case lt_phase t of
             TaskStreaming r \<Rightarrow>
               (let i = lt_identity t in
                case item of
                  ItemActivity \<Rightarrow> rt
                | ItemText text \<Rightarrow> set_phase n (TaskSending r (RuntimeTextDelta i text)) rt
                | ItemCall call \<Rightarrow> set_phase n (TaskSending r (RuntimeToolCall i call)) rt
                | ItemError \<Rightarrow> end_task n (Some r) (RuntimeFailed i StreamBroken) rt
                | _ \<Rightarrow> end_task n (Some r) (RuntimeFinished i) rt)
           | _ \<Rightarrow> rt))"

text \<open>The token is looked at between two items, not while an event waits for room.\<close>

definition task_cancelled :: "nat \<Rightarrow> llm_runtime \<Rightarrow> llm_runtime" where
  "task_cancelled n rt =
     (case hm_get (lr_tasks rt) n of
        None \<Rightarrow> rt
      | Some t \<Rightarrow>
          (case lt_phase t of
             TaskStreaming r \<Rightarrow>
               if lt_token t \<in> set (lr_cancelled rt) then end_task n (Some r) (RuntimeCancelled (lt_identity t)) rt else rt
           | _ \<Rightarrow> rt))"

definition mailbox_room :: "llm_mailbox \<Rightarrow> bool" where
  "mailbox_room m \<longleftrightarrow> length (lm_log m) - lm_taken m < lm_capacity m"

definition put_event :: "nat \<Rightarrow> llm_runtime_event \<Rightarrow> llm_runtime \<Rightarrow> llm_runtime" where
  "put_event r e rt =
     rt\<lparr>lr_mailboxes := (lr_mailboxes rt)[r := (lr_mailboxes rt ! r)\<lparr>lm_log := lm_log (lr_mailboxes rt ! r) @ [e]\<rparr>]\<rparr>"

text \<open>\<open>route.send\<close> of a delta or call: it waits for room, and a closed mailbox cancels the operation.\<close>

definition task_send :: "nat \<Rightarrow> llm_runtime \<Rightarrow> llm_runtime" where
  "task_send n rt =
     (case hm_get (lr_tasks rt) n of
        None \<Rightarrow> rt
      | Some t \<Rightarrow>
          (case lt_phase t of
             TaskSending r e \<Rightarrow>
               if \<not> lm_open (lr_mailboxes rt ! r) then end_task n (Some r) (RuntimeCancelled (lt_identity t)) rt
               else if mailbox_room (lr_mailboxes rt ! r) then set_phase n (TaskStreaming r) (put_event r e rt)
               else rt
           | _ \<Rightarrow> rt))"

definition task_timeout :: "nat \<Rightarrow> llm_runtime \<Rightarrow> llm_runtime" where
  "task_timeout n rt =
     (case hm_get (lr_tasks rt) n of
        None \<Rightarrow> rt
      | Some t \<Rightarrow>
          (let failed = \<lambda>r. end_task n (Some r) (RuntimeFailed (lt_identity t) StreamTimedOut) rt in
           case lt_phase t of
             TaskOpening r \<Rightarrow> failed r
           | TaskStreaming r \<Rightarrow> failed r
           | TaskSending r e \<Rightarrow> failed r
           | _ \<Rightarrow> rt))"

definition task_deliver :: "nat \<Rightarrow> llm_runtime \<Rightarrow> llm_runtime" where
  "task_deliver n rt =
     (case hm_get (lr_tasks rt) n of
        None \<Rightarrow> rt
      | Some t \<Rightarrow>
          (case lt_phase t of
             TaskEnding r e \<Rightarrow>
               if \<not> lm_open (lr_mailboxes rt ! r) then remove_task n rt
               else if mailbox_room (lr_mailboxes rt ! r) then remove_task n (put_event r e rt)
               else rt
           | _ \<Rightarrow> rt))"

text \<open>The session takes the next event, or drops its end.\<close>

definition mailbox_take :: "nat \<Rightarrow> llm_runtime \<Rightarrow> llm_runtime_event option \<times> llm_runtime" where
  "mailbox_take r rt =
     (let m = lr_mailboxes rt ! r in
      if lm_taken m < length (lm_log m)
      then (Some (lm_log m ! lm_taken m), rt\<lparr>lr_mailboxes := (lr_mailboxes rt)[r := m\<lparr>lm_taken := lm_taken m + 1\<rparr>]\<rparr>)
      else (None, rt))"

definition mailbox_close :: "nat \<Rightarrow> llm_runtime \<Rightarrow> llm_runtime" where
  "mailbox_close r rt = rt\<lparr>lr_mailboxes := (lr_mailboxes rt)[r := (lr_mailboxes rt ! r)\<lparr>lm_open := False\<rparr>]\<rparr>"

section \<open>Diagnostics\<close>

text \<open>
  The text of a diagnostic stream within its byte bound; the answer and whether the end of the operation is known.
  A stream that ends by itself leaves \<open>terminal_acknowledged\<close> as it was.
\<close>

datatype llm_diagnostic_error = DiagnosticStreamFailed | DiagnosticInvalid

fun diagnostic_stream ::
    "nat \<Rightarrow> rstr \<Rightarrow> (llm_provider_error + llm_item) list \<Rightarrow> ((llm_diagnostic_error + rstr) \<times> bool) option" where
  "diagnostic_stream limit text [] = None"
| "diagnostic_stream limit text (Inl e # rest) =
     Some (Inl DiagnosticStreamFailed, case e of ProviderRejected \<Rightarrow> True | ProviderUnsupported _ \<Rightarrow> True | _ \<Rightarrow> False)"
| "diagnostic_stream limit text (Inr item # rest) =
     (case item of
        ItemActivity \<Rightarrow> diagnostic_stream limit text rest
      | ItemText delta \<Rightarrow>
          if limit < byte_len text + byte_len delta then Some (Inl DiagnosticInvalid, False)
          else diagnostic_stream limit (text @ delta) rest
      | ItemCall _ \<Rightarrow> Some (Inl DiagnosticInvalid, False)
      | ItemError \<Rightarrow> Some (Inl DiagnosticStreamFailed, False)
      | _ \<Rightarrow> Some (Inr text, False))"

end
