(* ===== verification/Stream_Workers.thy ===== *)
theory Stream_Workers
  imports Session_State Tts_Safety
begin

text \<open>
  What the native recognition runtimes have in common: the reusable native threads
  (\<open>workers/supervision/native_threads.rs\<close>), the pool of warmed sessions that are reset before they are lent
  again (\<open>workers/asr/pool.rs\<close>, \<open>workers/vad/pool.rs\<close>), and the parts of \<open>workers/asr/mod.rs\<close> and
  \<open>workers/vad/mod.rs\<close> that are the same text in both: leases, slots, event queues, routes and the
  thread side of a lease around its loop.
\<close>

section \<open>Native threads\<close>

text \<open>
  A job is named by the lease it serves. \<open>nw_queue\<close> is the channel of one job, \<open>nw_sender\<close> whether the owner still
  holds its end, \<open>nw_job\<close> the job the thread runs, \<open>nw_exited\<close> whether the handle is finished.
\<close>

record native_worker =
  nw_sender :: bool
  nw_queue :: "nat list"
  nw_job :: "nat option"
  nw_busy :: bool
  nw_exited :: bool
  nw_panicked :: bool

record native_threads =
  nt_closed :: bool
  nt_quarantined :: bool
  nt_workers :: "native_worker list"

definition threads_new :: native_threads where
  "threads_new = \<lparr>nt_closed = False, nt_quarantined = False, nt_workers = []\<rparr>"

definition swap_remove :: "nat \<Rightarrow> 'a list \<Rightarrow> 'a list" where
  "swap_remove i xs = butlast (xs[i := last xs])"

definition thread_finished :: "bool \<Rightarrow> native_worker \<Rightarrow> bool" where
  "thread_finished ended w \<longleftrightarrow> nw_exited w \<or> (ended \<and> \<not> nw_busy w)"

text \<open>The loop of \<open>reap\<close>: a removed worker is replaced by the last one, which is looked at next.\<close>

function reap_loop :: "bool \<Rightarrow> nat \<Rightarrow> native_worker list \<Rightarrow> bool \<Rightarrow> native_worker list \<times> bool" where
  "reap_loop ended i ws q =
     (if length ws \<le> i then (ws, q)
      else if thread_finished ended (ws ! i) then reap_loop ended i (swap_remove i ws) (q \<or> nw_panicked (ws ! i))
      else reap_loop ended (Suc i) ws q)"
  by auto
termination by (relation "measure (\<lambda>(_, i, ws, _). length ws - i)") (auto simp: swap_remove_def)

declare reap_loop.simps [simp del]

definition reap_threads :: "native_threads \<Rightarrow> native_threads" where
  "reap_threads t =
     (let (ws, q) = reap_loop (nt_closed t) 0 (nt_workers t) (nt_quarantined t)
      in t\<lparr>nt_workers := ws, nt_quarantined := q\<rparr>)"

definition threads_closed :: "native_threads \<Rightarrow> bool" where
  "threads_closed t \<longleftrightarrow> nt_closed t \<or> nt_quarantined t"

definition can_spawn :: "native_threads \<Rightarrow> bool \<times> native_threads" where
  "can_spawn t = (let t' = reap_threads t in (\<not> threads_closed t', t'))"

text \<open>The first worker that is free and takes the job; the others are as before.\<close>

fun offer_job :: "nat \<Rightarrow> native_worker list \<Rightarrow> native_worker list option" where
  "offer_job j [] = None"
| "offer_job j (w # ws) =
     (if \<not> nw_busy w \<and> nw_sender w \<and> nw_queue w = [] \<and> \<not> nw_exited w
      then Some (w\<lparr>nw_busy := True, nw_queue := [j]\<rparr> # ws)
      else map_option ((#) w) (offer_job j ws))"

definition execute_job :: "bool \<Rightarrow> nat \<Rightarrow> native_threads \<Rightarrow> bool \<times> native_threads" where
  "execute_job os_spawns j t =
     (let t' = reap_threads t in
      if threads_closed t' then (False, t')
      else (case offer_job j (nt_workers t') of
              Some ws \<Rightarrow> (True, t'\<lparr>nt_workers := ws\<rparr>)
            | None \<Rightarrow>
                if os_spawns
                then (True, t'\<lparr>nt_workers := nt_workers t' @ [\<lparr>nw_sender = True, nw_queue = [j], nw_job = None,
                        nw_busy = True, nw_exited = False, nw_panicked = False\<rparr>]\<rparr>)
                else (False, t')))"

definition close_threads :: "native_threads \<Rightarrow> bool \<times> native_threads" where
  "close_threads t =
     (let t' = reap_threads (t\<lparr>nt_closed := True, nt_workers := map (\<lambda>w. w\<lparr>nw_sender := False\<rparr>) (nt_workers t)\<rparr>)
      in (\<not> nt_quarantined t' \<and> nt_workers t' = [], t'))"

text \<open>The thread's own loop: it takes the next job, or ends when the owner has let go of the channel.\<close>

definition thread_take :: "nat \<Rightarrow> native_threads \<Rightarrow> native_threads" where
  "thread_take i t =
     (let w = nt_workers t ! i in
      if nw_exited w \<or> nw_job w \<noteq> None then t
      else (case nw_queue w of
              j # js \<Rightarrow> t\<lparr>nt_workers := (nt_workers t)[i := w\<lparr>nw_queue := js, nw_job := Some j\<rparr>]\<rparr>
            | [] \<Rightarrow> if nw_sender w then t else t\<lparr>nt_workers := (nt_workers t)[i := w\<lparr>nw_exited := True\<rparr>]\<rparr>))"

definition on_thread_of :: "nat \<Rightarrow> (native_worker \<Rightarrow> native_worker) \<Rightarrow> native_threads \<Rightarrow> native_threads" where
  "on_thread_of j f t = t\<lparr>nt_workers := map (\<lambda>w. if nw_job w = Some j then f w else w) (nt_workers t)\<rparr>"

section \<open>Retained sessions\<close>

text \<open>
  A native session counts as warm once it has answered the warm-up input acceptably, and as clean when it has seen
  nothing since it was opened or last reset. A lent session keeps the two flags of \<open>RetainedSession\<close>; each
  operation takes the answer of the native code.
\<close>

record native_session =
  ns_id :: nat
  ns_warm :: bool
  ns_clean :: bool

record session_pool =
  sp_idle :: "native_session list"
  sp_healthy :: bool

record retained =
  rt_session :: native_session
  rt_reusable :: bool
  rt_reset :: bool

text \<open>
  Starting one session: what the native code answers when it is opened, fed the silent warm-up input (and, for the
  recognizer, finished) and reset. Any failure ends the initialization of the whole pool.
\<close>

record session_warmup =
  st_opened :: bool
  st_warmed :: bool
  st_was_reset :: bool

definition session_open :: "nat \<Rightarrow> bool \<Rightarrow> native_session option" where
  "session_open i ok = (if ok then Some \<lparr>ns_id = i, ns_warm = False, ns_clean = True\<rparr> else None)"

definition session_warm :: "bool \<Rightarrow> native_session \<Rightarrow> native_session option" where
  "session_warm ok n = (if ok then Some (n\<lparr>ns_warm := True, ns_clean := False\<rparr>) else None)"

definition session_reset :: "bool \<Rightarrow> native_session \<Rightarrow> native_session option" where
  "session_reset ok n = (if ok then Some (n\<lparr>ns_clean := True\<rparr>) else None)"

definition session_warm_start :: "nat \<Rightarrow> session_warmup \<Rightarrow> native_session option" where
  "session_warm_start i s =
     Option.bind (session_open i (st_opened s)) (\<lambda>n.
     Option.bind (session_warm (st_warmed s) n) (session_reset (st_was_reset s)))"

fun start_sessions :: "nat \<Rightarrow> session_warmup list \<Rightarrow> native_session list option" where
  "start_sessions i [] = Some []"
| "start_sessions i (s # ss) =
     (case session_warm_start i s of None \<Rightarrow> None | Some n \<Rightarrow> map_option ((#) n) (start_sessions (Suc i) ss))"

definition pool_initialize :: "session_warmup list \<Rightarrow> session_pool option" where
  "pool_initialize starts = map_option (\<lambda>ns. \<lparr>sp_idle = ns, sp_healthy = True\<rparr>) (start_sessions 0 starts)"

definition pool_take :: "session_pool \<Rightarrow> (retained \<times> session_pool) option" where
  "pool_take p =
     (if \<not> sp_healthy p \<or> sp_idle p = [] then None
      else Some (\<lparr>rt_session = last (sp_idle p), rt_reusable = True, rt_reset = True\<rparr>, p\<lparr>sp_idle := butlast (sp_idle p)\<rparr>))"

definition pool_shutdown :: "session_pool \<Rightarrow> session_pool" where
  "pool_shutdown p = p\<lparr>sp_idle := []\<rparr>"

definition note_answer :: "bool \<Rightarrow> retained \<times> session_pool \<Rightarrow> retained \<times> session_pool" where
  "note_answer ok rp =
     (case rp of (r, p) \<Rightarrow>
        (r\<lparr>rt_reusable := rt_reusable r \<and> ok\<rparr>, if ok then p else p\<lparr>sp_healthy := False\<rparr>))"

definition soil :: "retained \<Rightarrow> retained" where
  "soil r = r\<lparr>rt_session := (rt_session r)\<lparr>ns_clean := False\<rparr>\<rparr>"

definition retained_push :: "bool \<Rightarrow> retained \<times> session_pool \<Rightarrow> retained \<times> session_pool" where
  "retained_push ok rp = (case rp of (r, p) \<Rightarrow> note_answer ok (soil (r\<lparr>rt_reset := False\<rparr>), p))"

definition retained_reset :: "bool \<Rightarrow> retained \<times> session_pool \<Rightarrow> retained \<times> session_pool" where
  "retained_reset ok rp =
     (case note_answer ok rp of (r, p) \<Rightarrow>
        (r\<lparr>rt_reset := ok, rt_session := (rt_session r)\<lparr>ns_clean := ok\<rparr>\<rparr>, p))"

text \<open>\<open>finish\<close> of the recognizer and \<open>close\<close> of the detector: the operation, then the reset before any answer.\<close>

definition retained_finish :: "bool \<Rightarrow> bool \<Rightarrow> retained \<times> session_pool \<Rightarrow> bool \<times> retained \<times> session_pool" where
  "retained_finish ok reset_ok rp =
     (case note_answer ok (soil (fst rp), snd rp) of rp' \<Rightarrow>
        if ok then (reset_ok, retained_reset reset_ok rp') else (False, rp'))"

definition retained_cancel :: "retained \<times> session_pool \<Rightarrow> retained \<times> session_pool" where
  "retained_cancel rp = (case rp of (r, p) \<Rightarrow> (soil (r\<lparr>rt_reset := False\<rparr>), p))"

definition retained_drop :: "bool \<Rightarrow> retained \<times> session_pool \<Rightarrow> session_pool" where
  "retained_drop reset_ok rp =
     (case rp of (r, p) \<Rightarrow>
        let session = (if rt_reset r then rt_session r else (rt_session r)\<lparr>ns_clean := reset_ok\<rparr>);
            reusable = (rt_reusable r \<and> (rt_reset r \<or> reset_ok))
        in if reusable then p\<lparr>sp_idle := sp_idle p @ [session]\<rparr> else p\<lparr>sp_healthy := False\<rparr>)"

section \<open>The tables of a runtime\<close>

datatype stream_error = StreamInitialization | StreamCapacity | StreamUnknownLease | StreamQueueFull

text \<open>
  The state of a slot; \<open>StreamWaiting\<close> is \<open>Finishing\<close> in the recognizer and \<open>Resetting\<close> in the detector.
\<close>

datatype stream_state = StreamActive | StreamWaiting instant | StreamCleaning instant | StreamQuarantined

record stream_slot =
  ss_identity :: worker_identity
  ss_state :: stream_state
  ss_background :: bool

text \<open>
  The thread side of a lease: handed to a thread, inside the loop of \<open>run_worker\<close>, returned from it with the
  terminal event still to be published, and without its permit. \<open>sj_commands\<close> is the command channel, \<open>sj_local\<close>
  what the loop keeps, \<open>sj_queue\<close> the event queue it sends to (its own for a background stream).
\<close>

datatype 'e job_phase = JobQueued | JobServing | JobReturned "'e option" | JobReleased "'e option"

record ('c, 'e, 'x) stream_job =
  sj_identity :: worker_identity
  sj_commands :: "'c list"
  sj_retained :: "retained option"
  sj_local :: 'x
  sj_queue :: "nat option"
  sj_phase :: "'e job_phase"

text \<open>
  \<open>sw_arcs\<close> holds the permit that the slot and the thread of a lease share; it is dropped when neither is left.
  A queue that is not in \<open>sw_queues\<close> has lost its receiver. \<open>sw_completed\<close> lists the background leases whose
  completion flag is set.
\<close>

record ('c, 'e, 'x) stream_workers =
  sw_config :: worker_config
  sw_threads :: native_threads
  sw_next :: nat
  sw_slots :: "(nat, stream_slot) hmap"
  sw_jobs :: "(nat, ('c, 'e, 'x) stream_job) hmap"
  sw_arcs :: "(nat, capacity_permit) hmap"
  sw_queues :: "(nat option, 'e list) hmap"
  sw_routes :: "(rstr, 'e list) hmap"
  sw_store :: adm_store
  sw_pool :: "session_pool option"
  sw_completed :: "nat list"

definition stream_workers_new :: "worker_config \<Rightarrow> session_pool option \<Rightarrow> adm_store \<Rightarrow> ('c, 'e, 'x) stream_workers" where
  "stream_workers_new config pool store =
     \<lparr>sw_config = config, sw_threads = threads_new, sw_next = 1, sw_slots = [], sw_jobs = [], sw_arcs = [],
      sw_queues = [(None, [])], sw_routes = [], sw_store = store, sw_pool = pool, sw_completed = []\<rparr>"

text \<open>\<open>try_new_with_admission\<close>: a valid configuration and a pool of \<open>max_workers\<close> sessions that all started.\<close>

definition stream_workers_try_new ::
    "worker_config \<Rightarrow> session_warmup list \<Rightarrow> adm_store \<Rightarrow> stream_error + ('c, 'e, 'x) stream_workers" where
  "stream_workers_try_new config starts store =
     (if \<not> config_valid config then Inl StreamInitialization
      else (case pool_initialize (take (wc_max_workers config) starts) of
              None \<Rightarrow> Inl StreamInitialization
            | Some pool \<Rightarrow> Inr (stream_workers_new config (Some pool) store)))"

section \<open>Permits shared by a slot and its thread\<close>

fun job_holds_permit :: "'e job_phase \<Rightarrow> bool" where
  "job_holds_permit (JobReleased _) = False"
| "job_holds_permit _ = True"

definition arc_held :: "nat \<Rightarrow> ('c, 'e, 'x) stream_workers \<Rightarrow> bool" where
  "arc_held l w \<longleftrightarrow>
     hm_contains (sw_slots w) l \<or> (case hm_get (sw_jobs w) l of None \<Rightarrow> False | Some j \<Rightarrow> job_holds_permit (sj_phase j))"

definition give_back :: "capacity_permit option \<Rightarrow> ('c, 'e, 'x) stream_workers \<Rightarrow> ('c, 'e, 'x) stream_workers" where
  "give_back permit w = (case permit of None \<Rightarrow> w | Some c \<Rightarrow> w\<lparr>sw_store := drop_permit c (sw_store w)\<rparr>)"

definition settle_arc :: "nat \<Rightarrow> ('c, 'e, 'x) stream_workers \<Rightarrow> ('c, 'e, 'x) stream_workers" where
  "settle_arc l w =
     (if arc_held l w then w
      else give_back (hm_get (sw_arcs w) l) (w\<lparr>sw_arcs := hm_remove l (sw_arcs w)\<rparr>))"

definition remove_slot :: "nat \<Rightarrow> ('c, 'e, 'x) stream_workers \<Rightarrow> ('c, 'e, 'x) stream_workers" where
  "remove_slot l w = settle_arc l (w\<lparr>sw_slots := hm_remove l (sw_slots w)\<rparr>)"

definition remove_job :: "nat \<Rightarrow> ('c, 'e, 'x) stream_workers \<Rightarrow> ('c, 'e, 'x) stream_workers" where
  "remove_job l w = settle_arc l (w\<lparr>sw_jobs := hm_remove l (sw_jobs w)\<rparr>)"

definition drop_session :: "bool \<Rightarrow> retained option \<Rightarrow> ('c, 'e, 'x) stream_workers \<Rightarrow> ('c, 'e, 'x) stream_workers" where
  "drop_session reset_ok r w =
     (case (r, sw_pool w) of
        (Some s, Some p) \<Rightarrow> w\<lparr>sw_pool := Some (retained_drop reset_ok (s, p))\<rparr>
      | _ \<Rightarrow> w)"

section \<open>Opening a lease\<close>

text \<open>
  A refusal drops the permit. When the thread cannot be made the closure is dropped with the untouched
  session and its half of the permit, then the slot.
\<close>

definition open_stream ::
    "worker_identity \<Rightarrow> capacity_permit option \<Rightarrow> bool \<Rightarrow> nat option \<Rightarrow> 'x \<Rightarrow> bool \<Rightarrow> ('c, 'e, 'x) stream_workers \<Rightarrow>
       (stream_error + nat) \<times> ('c, 'e, 'x) stream_workers" where
  "open_stream identity permit background queue local os_spawns w =
     (if wc_max_workers (sw_config w) \<le> length (sw_slots w) then (Inl StreamCapacity, give_back permit w)
      else (case can_spawn (sw_threads w) of
              (False, t) \<Rightarrow> (Inl StreamCapacity, give_back permit (w\<lparr>sw_threads := t\<rparr>))
            | (True, t) \<Rightarrow>
                let w1 = w\<lparr>sw_threads := t\<rparr> in
                if sw_pool w1 \<noteq> None \<and> Option.bind (sw_pool w1) pool_take = None
                then (Inl StreamCapacity, give_back permit w1)
                else let taken = Option.bind (sw_pool w1) pool_take;
                         lease = sw_next w1;
                         slot = \<lparr>ss_identity = identity, ss_state = StreamActive, ss_background = background\<rparr>;
                         job = \<lparr>sj_identity = identity, sj_commands = [], sj_retained = map_option fst taken,
                                sj_local = local, sj_queue = queue, sj_phase = JobQueued\<rparr>;
                         w2 = w1\<lparr>sw_next := lease + 1, sw_pool := map_option snd taken,
                                 sw_slots := hm_insert lease slot (sw_slots w1),
                                 sw_jobs := hm_insert lease job (sw_jobs w1),
                                 sw_arcs := (case permit of None \<Rightarrow> sw_arcs w | Some c \<Rightarrow> hm_insert lease c (sw_arcs w))\<rparr>
                     in (case execute_job os_spawns lease (sw_threads w2) of
                           (True, t2) \<Rightarrow> (Inr lease, w2\<lparr>sw_threads := t2\<rparr>)
                         | (False, t2) \<Rightarrow>
                             (Inl StreamCapacity,
                              remove_slot lease (remove_job lease (drop_session True (map_option fst taken) (w2\<lparr>sw_threads := t2\<rparr>)))))))"

text \<open>The permit for a diagnostic, which no lease owns.\<close>

definition stream_admit_diagnostic ::
    "admission \<Rightarrow> ('c, 'e, 'x) stream_workers \<Rightarrow> (capacity_permit \<times> ('c, 'e, 'x) stream_workers) option" where
  "stream_admit_diagnostic v w =
     (if threads_closed (sw_threads w) then None
      else map_option (\<lambda>(st, c). (c, w\<lparr>sw_store := st\<rparr>)) (try_admit (sw_store w) v Diagnostic))"

section \<open>Commands\<close>

definition set_slot_state :: "nat \<Rightarrow> stream_state \<Rightarrow> ('c, 'e, 'x) stream_workers \<Rightarrow> ('c, 'e, 'x) stream_workers" where
  "set_slot_state l s w = w\<lparr>sw_slots := hm_adjust l (\<lambda>sl. sl\<lparr>ss_state := s\<rparr>) (sw_slots w)\<rparr>"

fun receives :: "'e job_phase \<Rightarrow> bool" where
  "receives JobQueued = True"
| "receives JobServing = True"
| "receives _ = False"

text \<open>
  \<open>next\<close> is the code's match on the command: refused, or the state the slot gets when the channel took the command.
\<close>

definition send_stream ::
    "(worker_config \<Rightarrow> 'c \<Rightarrow> stream_state \<Rightarrow> stream_state option option) \<Rightarrow> nat \<Rightarrow> 'c \<Rightarrow> ('c, 'e, 'x) stream_workers \<Rightarrow>
       (stream_error + unit) \<times> ('c, 'e, 'x) stream_workers" where
  "send_stream next l cmd w =
     (case hm_get (sw_slots w) l of
        None \<Rightarrow> (Inl StreamUnknownLease, w)
      | Some slot \<Rightarrow>
          (case next (sw_config w) cmd (ss_state slot) of
             None \<Rightarrow> (Inl StreamUnknownLease, w)
           | Some follow \<Rightarrow>
               (case hm_get (sw_jobs w) l of
                  None \<Rightarrow> (Inl StreamUnknownLease, w)
                | Some job \<Rightarrow>
                    if \<not> receives (sj_phase job) then (Inl StreamUnknownLease, w)
                    else if wc_command_capacity (sw_config w) \<le> length (sj_commands job) then (Inl StreamQueueFull, w)
                    else let w1 = w\<lparr>sw_jobs := hm_adjust l (\<lambda>j. j\<lparr>sj_commands := sj_commands j @ [cmd]\<rparr>) (sw_jobs w)\<rparr>
                         in (Inr (), case follow of None \<Rightarrow> w1 | Some s \<Rightarrow> set_slot_state l s w1))))"

section \<open>Events\<close>

definition emit_event :: "nat option \<Rightarrow> 'e \<Rightarrow> ('c, 'e, 'x) stream_workers \<Rightarrow> bool \<times> ('c, 'e, 'x) stream_workers" where
  "emit_event q e w =
     (if hm_contains (sw_queues w) q then (True, w\<lparr>sw_queues := hm_adjust q (\<lambda>es. es @ [e]) (sw_queues w)\<rparr>) else (False, w))"

definition take_event :: "nat option \<Rightarrow> ('c, 'e, 'x) stream_workers \<Rightarrow> 'e option \<times> ('c, 'e, 'x) stream_workers" where
  "take_event q w =
     (case hm_get (sw_queues w) q of
        Some (e # es) \<Rightarrow> (Some e, w\<lparr>sw_queues := hm_adjust q (\<lambda>_. es) (sw_queues w)\<rparr>)
      | _ \<Rightarrow> (None, w))"

definition lease_of :: "worker_identity \<Rightarrow> ('c, 'e, 'x) stream_workers \<Rightarrow> (nat \<times> stream_slot) option" where
  "lease_of identity w = List.find (\<lambda>(l, sl). ss_identity sl = identity) (sw_slots w)"

text \<open>What a terminal event does to the slot of its identity.\<close>

definition end_slot :: "worker_identity \<Rightarrow> ('c, 'e, 'x) stream_workers \<Rightarrow> ('c, 'e, 'x) stream_workers" where
  "end_slot identity w =
     (case lease_of identity w of
        None \<Rightarrow> w
      | Some (l, sl) \<Rightarrow>
          if ss_state sl = StreamQuarantined then w
          else let w1 = remove_slot l w
               in if sw_slots w1 = [] then w1\<lparr>sw_threads := reap_threads (sw_threads w1)\<rparr> else w1)"

text \<open>A full mailbox, or one without a session, loses the event.\<close>

definition route_event :: "rstr \<Rightarrow> 'e \<Rightarrow> ('c, 'e, 'x) stream_workers \<Rightarrow> ('c, 'e, 'x) stream_workers" where
  "route_event session e w =
     (case hm_get (sw_routes w) session of
        None \<Rightarrow> w
      | Some es \<Rightarrow>
          if length es < wc_command_capacity (sw_config w)
          then w\<lparr>sw_routes := hm_adjust session (\<lambda>es. es @ [e]) (sw_routes w)\<rparr> else w)"

definition stream_register :: "rstr \<Rightarrow> ('c, 'e, 'x) stream_workers \<Rightarrow> ('c, 'e, 'x) stream_workers" where
  "stream_register session w = w\<lparr>sw_routes := hm_insert session [] (sw_routes w)\<rparr>"

definition stream_unregister :: "rstr \<Rightarrow> ('c, 'e, 'x) stream_workers \<Rightarrow> ('c, 'e, 'x) stream_workers" where
  "stream_unregister session w = w\<lparr>sw_routes := hm_remove session (sw_routes w)\<rparr>"

section \<open>Deadlines\<close>

fun stream_deadline :: "stream_state \<Rightarrow> instant option" where
  "stream_deadline (StreamWaiting d) = Some d"
| "stream_deadline (StreamCleaning d) = Some d"
| "stream_deadline _ = None"

definition overdue :: "instant \<Rightarrow> stream_slot \<Rightarrow> bool" where
  "overdue now sl \<longleftrightarrow> \<not> ss_background sl \<and> (case stream_deadline (ss_state sl) of None \<Rightarrow> False | Some d \<Rightarrow> d \<le> now)"

text \<open>The first slot past its deadline is quarantined and reported.\<close>

definition reap_timeout ::
    "(stream_state \<Rightarrow> worker_identity \<Rightarrow> 'e) \<Rightarrow> instant \<Rightarrow> ('c, 'e, 'x) stream_workers \<Rightarrow> 'e option \<times> ('c, 'e, 'x) stream_workers" where
  "reap_timeout report now w =
     (case List.find (\<lambda>(l, sl). overdue now sl) (sw_slots w) of
        None \<Rightarrow> (None, w)
      | Some (l, sl) \<Rightarrow> (Some (report (ss_state sl) (ss_identity sl)), set_slot_state l StreamQuarantined w))"

definition next_timeout_deadline :: "('c, 'e, 'x) stream_workers \<Rightarrow> instant option \<times> ('c, 'e, 'x) stream_workers" where
  "next_timeout_deadline w =
     (if sw_slots w = [] then (None, w\<lparr>sw_threads := reap_threads (sw_threads w)\<rparr>)
      else (let ds = List.map_filter (\<lambda>sl. if ss_background sl then None else stream_deadline (ss_state sl)) (hm_values (sw_slots w))
            in if ds = [] then None else Some (Min (set ds)), w))"

section \<open>The thread side\<close>

definition update_job ::
    "nat \<Rightarrow> (('c, 'e, 'x) stream_job \<Rightarrow> ('c, 'e, 'x) stream_job) \<Rightarrow> ('c, 'e, 'x) stream_workers \<Rightarrow> ('c, 'e, 'x) stream_workers" where
  "update_job l f w = w\<lparr>sw_jobs := hm_adjust l f (sw_jobs w)\<rparr>"

text \<open>\<open>run_worker\<close> returns: its receiver and its session are dropped.\<close>

definition return_job :: "bool \<Rightarrow> nat \<Rightarrow> 'e option \<Rightarrow> ('c, 'e, 'x) stream_workers \<Rightarrow> ('c, 'e, 'x) stream_workers" where
  "return_job reset_ok l terminal w =
     (case hm_get (sw_jobs w) l of
        None \<Rightarrow> w
      | Some j \<Rightarrow>
          update_job l (\<lambda>j. j\<lparr>sj_phase := JobReturned terminal, sj_commands := [], sj_retained := None\<rparr>)
            (drop_session reset_ok (sj_retained j) w))"

text \<open>\<open>publish_terminal\<close>: at once for a session of its own, after the release for a retained one.\<close>

definition publish_terminal :: "bool \<Rightarrow> nat \<Rightarrow> 'e \<Rightarrow> ('c, 'e, 'x) stream_workers \<Rightarrow> ('c, 'e, 'x) stream_workers" where
  "publish_terminal reset_ok l e w =
     (case hm_get (sw_jobs w) l of
        None \<Rightarrow> w
      | Some j \<Rightarrow>
          if sj_retained j \<noteq> None then return_job reset_ok l (Some e) w
          else return_job reset_ok l None (snd (emit_event (sj_queue j) e w)))"

text \<open>The first lines of \<open>run_worker\<close>: the session at hand or a new one, then \<open>Opened\<close>.\<close>

definition begin_job :: "bool \<Rightarrow> (worker_identity \<Rightarrow> 'e) \<Rightarrow> (worker_identity \<Rightarrow> 'e) \<Rightarrow> nat \<Rightarrow> ('c, 'e, 'x) stream_workers \<Rightarrow> ('c, 'e, 'x) stream_workers" where
  "begin_job opened_ok opened failed l w =
     (case hm_get (sw_jobs w) l of
        None \<Rightarrow> w
      | Some j \<Rightarrow>
          if sj_phase j \<noteq> JobQueued then w
          else if sj_retained j = None \<and> \<not> opened_ok then publish_terminal True l (failed (sj_identity j)) w
          else (case emit_event (sj_queue j) (opened (sj_identity j)) w of
                  (False, w1) \<Rightarrow> return_job True l None w1
                | (True, w1) \<Rightarrow> update_job l (\<lambda>j. j\<lparr>sj_phase := JobServing\<rparr>) w1))"

text \<open>The next command, or the end when the slot and with it the sender is gone.\<close>

definition next_command :: "nat \<Rightarrow> ('c, 'e, 'x) stream_workers \<Rightarrow> 'c option \<times> ('c, 'e, 'x) stream_workers" where
  "next_command l w =
     (case hm_get (sw_jobs w) l of
        None \<Rightarrow> (None, w)
      | Some j \<Rightarrow>
          if sj_phase j \<noteq> JobServing then (None, w)
          else (case sj_commands j of
                  c # cs \<Rightarrow> (Some c, update_job l (\<lambda>j. j\<lparr>sj_commands := cs\<rparr>) w)
                | [] \<Rightarrow> (None, if hm_contains (sw_slots w) l then w else return_job True l None w)))"

definition on_session ::
    "nat \<Rightarrow> (retained \<times> session_pool \<Rightarrow> 'a \<times> retained \<times> session_pool) \<Rightarrow> 'a \<Rightarrow> ('c, 'e, 'x) stream_workers \<Rightarrow> 'a \<times> ('c, 'e, 'x) stream_workers" where
  "on_session l f direct w =
     (case hm_get (sw_jobs w) l of
        None \<Rightarrow> (direct, w)
      | Some j \<Rightarrow>
          (case (sj_retained j, sw_pool w) of
             (Some r, Some p) \<Rightarrow>
               (case f (r, p) of (x, r', p') \<Rightarrow>
                  (x, update_job l (\<lambda>j. j\<lparr>sj_retained := Some r'\<rparr>) (w\<lparr>sw_pool := Some p'\<rparr>)))
           | _ \<Rightarrow> (direct, w)))"

text \<open>After \<open>run_worker\<close>: the permit, the busy flag, then the event and the completion flag.\<close>

definition release_job :: "nat \<Rightarrow> ('c, 'e, 'x) stream_workers \<Rightarrow> ('c, 'e, 'x) stream_workers" where
  "release_job l w =
     (case hm_get (sw_jobs w) l of
        None \<Rightarrow> w
      | Some j \<Rightarrow>
          (case sj_phase j of
             JobReturned t \<Rightarrow>
               (let w1 = settle_arc l (update_job l (\<lambda>j. j\<lparr>sj_phase := JobReleased t\<rparr>) w)
                in w1\<lparr>sw_threads := on_thread_of l (\<lambda>t. t\<lparr>nw_busy := False\<rparr>) (sw_threads w1)\<rparr>)
           | _ \<Rightarrow> w))"

definition finish_job :: "nat \<Rightarrow> ('c, 'e, 'x) stream_workers \<Rightarrow> ('c, 'e, 'x) stream_workers" where
  "finish_job l w =
     (case hm_get (sw_jobs w) l of
        None \<Rightarrow> w
      | Some j \<Rightarrow>
          (case sj_phase j of
             JobReleased t \<Rightarrow>
               (let w1 = (case t of None \<Rightarrow> w | Some e \<Rightarrow> snd (emit_event (sj_queue j) e w));
                    w2 = remove_job l (w1\<lparr>sw_threads := on_thread_of l (\<lambda>t. t\<lparr>nw_job := None\<rparr>) (sw_threads w1)\<rparr>)
                in if sj_queue j = None then w2 else w2\<lparr>sw_completed := l # sw_completed w2\<rparr>)
           | _ \<Rightarrow> w))"

text \<open>A panic unwinds the closure; the thread ends with its busy flag still set.\<close>

definition panic_job :: "bool \<Rightarrow> nat \<Rightarrow> ('c, 'e, 'x) stream_workers \<Rightarrow> ('c, 'e, 'x) stream_workers" where
  "panic_job reset_ok l w =
     (case hm_get (sw_jobs w) l of
        None \<Rightarrow> w
      | Some j \<Rightarrow>
          remove_job l (drop_session reset_ok (sj_retained j)
            (w\<lparr>sw_threads := on_thread_of l (\<lambda>t. t\<lparr>nw_job := None, nw_exited := True, nw_panicked := True\<rparr>) (sw_threads w)\<rparr>)))"

section \<open>Shutdown\<close>

definition stream_shutdown_acknowledged ::
    "admission \<Rightarrow> ('c, 'e, 'x) stream_workers \<Rightarrow> bool \<times> ('c, 'e, 'x) stream_workers" where
  "stream_shutdown_acknowledged v w =
     (case close_threads (sw_threads w) of (joined, t) \<Rightarrow>
        let w1 = w\<lparr>sw_threads := t\<rparr>;
            acknowledged = (joined \<and> sw_slots w1 = [] \<and> active_work (sw_store w1) v = 0)
        in (acknowledged, if acknowledged then w1\<lparr>sw_pool := map_option pool_shutdown (sw_pool w1)\<rparr> else w1))"

end
