(* ===== verification/Recognition.thy ===== *)
theory Recognition
  imports Stream_Workers
begin

text \<open>
  The native recognition runtimes: speech recognition (\<open>workers/asr/mod.rs\<close>, \<open>background.rs\<close>, \<open>diagnostic.rs\<close>) and
  voice activity detection (\<open>workers/vad/mod.rs\<close>, \<open>diagnostic.rs\<close>) with its re-framing of the audio. The native
  code answers through arguments; time is an argument.
\<close>

section \<open>One pass of the supervisor\<close>

text \<open>
  \<open>supervise_pending\<close> hands out what is queued, then every stream past its deadline. The counters are the
  length of the queue and the number of slots. The pass is one step with one reading of the clock: the code takes
  the locks event by event, so an event that arrives during a pass belongs to the next one here.
\<close>

fun drain_queue ::
    "('e \<Rightarrow> ('c, 'e, 'x) stream_workers \<Rightarrow> ('c, 'e, 'x) stream_workers) \<Rightarrow> nat \<Rightarrow> ('c, 'e, 'x) stream_workers \<Rightarrow> ('c, 'e, 'x) stream_workers" where
  "drain_queue dispatch 0 w = w"
| "drain_queue dispatch (Suc n) w =
     (case take_event None w of (None, w1) \<Rightarrow> w1 | (Some e, w1) \<Rightarrow> drain_queue dispatch n (dispatch e w1))"

fun reap_all ::
    "(stream_state \<Rightarrow> worker_identity \<Rightarrow> 'e) \<Rightarrow> ('e \<Rightarrow> ('c, 'e, 'x) stream_workers \<Rightarrow> ('c, 'e, 'x) stream_workers) \<Rightarrow> instant \<Rightarrow> nat \<Rightarrow>
       ('c, 'e, 'x) stream_workers \<Rightarrow> ('c, 'e, 'x) stream_workers" where
  "reap_all report dispatch now 0 w = w"
| "reap_all report dispatch now (Suc n) w =
     (case reap_timeout report now w of (None, w1) \<Rightarrow> w1 | (Some e, w1) \<Rightarrow> reap_all report dispatch now n (dispatch e w1))"

definition queue_length :: "nat option \<Rightarrow> ('c, 'e, 'x) stream_workers \<Rightarrow> nat" where
  "queue_length q w = (case hm_get (sw_queues w) q of None \<Rightarrow> 0 | Some es \<Rightarrow> length es)"

definition supervise_pending ::
    "(stream_state \<Rightarrow> worker_identity \<Rightarrow> 'e) \<Rightarrow> ('e \<Rightarrow> ('c, 'e, 'x) stream_workers \<Rightarrow> ('c, 'e, 'x) stream_workers) \<Rightarrow> instant \<Rightarrow>
       ('c, 'e, 'x) stream_workers \<Rightarrow> ('c, 'e, 'x) stream_workers" where
  "supervise_pending report dispatch now w =
     (let w1 = drain_queue dispatch (queue_length None w) w in reap_all report dispatch now (length (sw_slots w1)) w1)"

section \<open>Speech recognition\<close>

type_synonym 'f asr_workers = "('f asr_command, asr_event, unit) stream_workers"

fun asr_event_identity :: "asr_event \<Rightarrow> worker_identity" where
  "asr_event_identity (AsrOpened i) = i"
| "asr_event_identity (AsrFinal i _) = i"
| "asr_event_identity (AsrFailed i) = i"
| "asr_event_identity (AsrCancelled i) = i"
| "asr_event_identity (AsrFinalTimedOut i) = i"
| "asr_event_identity (AsrCleanupTimedOut i) = i"

fun asr_terminal :: "asr_event \<Rightarrow> bool" where
  "asr_terminal (AsrFinal _ _) = True"
| "asr_terminal (AsrFailed _) = True"
| "asr_terminal (AsrCancelled _) = True"
| "asr_terminal _ = False"

definition asr_open_class ::
    "admission \<Rightarrow> worker_identity \<Rightarrow> workload_class \<Rightarrow> nat option \<Rightarrow> bool \<Rightarrow> 'f asr_workers \<Rightarrow> (stream_error + nat) \<times> 'f asr_workers" where
  "asr_open_class v identity class queue os_spawns w =
     (case try_admit (sw_store w) v class of
        None \<Rightarrow> (Inl StreamCapacity, w)
      | Some (st, permit) \<Rightarrow>
          open_stream identity (Some permit) (class = Background) queue () os_spawns (w\<lparr>sw_store := st\<rparr>))"

definition asr_open :: "admission \<Rightarrow> worker_identity \<Rightarrow> bool \<Rightarrow> 'f asr_workers \<Rightarrow> (stream_error + nat) \<times> 'f asr_workers" where
  "asr_open v identity os_spawns w = asr_open_class v identity Voice None os_spawns w"

text \<open>A background stream has an event queue of its own, under the number of the lease it is about to get.\<close>

definition asr_open_background ::
    "admission \<Rightarrow> worker_identity \<Rightarrow> bool \<Rightarrow> 'f asr_workers \<Rightarrow> (stream_error + nat) \<times> 'f asr_workers" where
  "asr_open_background v identity os_spawns w =
     (let q = Some (sw_next w) in
      case asr_open_class v identity Background q os_spawns (w\<lparr>sw_queues := hm_insert q [] (sw_queues w)\<rparr>) of
        (Inl e, w1) \<Rightarrow> (Inl e, w1\<lparr>sw_queues := hm_remove q (sw_queues w1)\<rparr>)
      | (Inr l, w1) \<Rightarrow> (Inr l, w1))"

fun asr_next :: "instant \<Rightarrow> worker_config \<Rightarrow> 'f asr_command \<Rightarrow> stream_state \<Rightarrow> stream_state option option" where
  "asr_next now c AsrFinish st = Some (Some (StreamWaiting (now + wc_final_timeout c)))"
| "asr_next now c AsrCancel st = Some (Some (StreamCleaning (now + wc_cleanup_grace c)))"
| "asr_next now c (AsrPush _) st = (if st = StreamActive then Some None else None)"

definition asr_send ::
    "instant \<Rightarrow> nat \<Rightarrow> 'f asr_command \<Rightarrow> 'f asr_workers \<Rightarrow> (stream_error + unit) \<times> 'f asr_workers" where
  "asr_send now l cmd w = send_stream (asr_next now) l cmd w"

definition asr_observe :: "asr_event \<Rightarrow> 'f asr_workers \<Rightarrow> 'f asr_workers" where
  "asr_observe e w = (if asr_terminal e then end_slot (asr_event_identity e) w else w)"

definition asr_try_recv :: "nat option \<Rightarrow> 'f asr_workers \<Rightarrow> asr_event option \<times> 'f asr_workers" where
  "asr_try_recv q w = (case take_event q w of (None, w1) \<Rightarrow> (None, w1) | (Some e, w1) \<Rightarrow> (Some e, asr_observe e w1))"

definition asr_dispatch :: "asr_event \<Rightarrow> 'f asr_workers \<Rightarrow> 'f asr_workers" where
  "asr_dispatch e w = route_event (wi_session (asr_event_identity e)) e (asr_observe e w)"

fun asr_timed_out :: "stream_state \<Rightarrow> worker_identity \<Rightarrow> asr_event" where
  "asr_timed_out (StreamWaiting _) i = AsrFinalTimedOut i"
| "asr_timed_out _ i = AsrCleanupTimedOut i"

definition asr_reap_timeouts :: "instant \<Rightarrow> 'f asr_workers \<Rightarrow> asr_event option \<times> 'f asr_workers" where
  "asr_reap_timeouts now w = reap_timeout asr_timed_out now w"

definition asr_supervise :: "instant \<Rightarrow> 'f asr_workers \<Rightarrow> 'f asr_workers" where
  "asr_supervise now w = supervise_pending asr_timed_out asr_dispatch now w"

definition asr_begin :: "bool \<Rightarrow> nat \<Rightarrow> 'f asr_workers \<Rightarrow> 'f asr_workers" where
  "asr_begin opened_ok l w = begin_job opened_ok AsrOpened AsrFailed l w"

text \<open>What the native session answers: to a push, to a finish, to the reset after it and to the one when it is dropped.\<close>

record asr_native =
  an_push :: bool
  an_finish :: "rstr option"
  an_reset :: bool
  an_drop_reset :: bool

definition asr_receive :: "asr_native \<Rightarrow> nat \<Rightarrow> 'f asr_workers \<Rightarrow> 'f asr_workers" where
  "asr_receive native l w =
     (case hm_get (sw_jobs w) l of
        None \<Rightarrow> w
      | Some j \<Rightarrow>
          let i = sj_identity j; failed = publish_terminal (an_drop_reset native) l (AsrFailed i) in
          (case next_command l w of
             (None, w1) \<Rightarrow> w1
           | (Some (AsrPush _), w1) \<Rightarrow>
               (case on_session l (\<lambda>rp. (an_push native, retained_push (an_push native) rp)) (an_push native) w1 of
                  (True, w2) \<Rightarrow> w2
                | (False, w2) \<Rightarrow> failed w2)
           | (Some AsrFinish, w1) \<Rightarrow>
               (case on_session l (retained_finish (an_finish native \<noteq> None) (an_reset native)) (an_finish native \<noteq> None) w1 of
                  (True, w2) \<Rightarrow> publish_terminal (an_drop_reset native) l (AsrFinal i (the (an_finish native))) w2
                | (False, w2) \<Rightarrow> failed w2)
           | (Some AsrCancel, w1) \<Rightarrow>
               return_job (an_drop_reset native) l (Some (AsrCancelled i))
                 (snd (on_session l (\<lambda>rp. ((), retained_cancel rp)) () w1))))"

subsection \<open>Background streams\<close>

fun poll_all :: "nat option \<Rightarrow> nat \<Rightarrow> 'f asr_workers \<Rightarrow> 'f asr_workers" where
  "poll_all q 0 w = w"
| "poll_all q (Suc n) w = (case asr_try_recv q w of (None, w1) \<Rightarrow> w1 | (Some _, w1) \<Rightarrow> poll_all q n w1)"

definition poll_until_empty :: "nat \<Rightarrow> 'f asr_workers \<Rightarrow> 'f asr_workers" where
  "poll_until_empty l w = poll_all (Some l) (queue_length (Some l) w) w"

text \<open>
  One round of the loop of \<open>cleanup\<close>: acknowledged, quarantined at the deadline, or another round.
\<close>

definition cleanup_round :: "instant \<Rightarrow> instant \<Rightarrow> nat \<Rightarrow> 'f asr_workers \<Rightarrow> bool option \<times> 'f asr_workers" where
  "cleanup_round now deadline l w =
     (if l \<in> set (sw_completed w) then (Some True, poll_until_empty l w)
      else let w1 = poll_until_empty l (snd (asr_send now l AsrCancel w))
           in if deadline \<le> now then (Some False, set_slot_state l StreamQuarantined w1) else (None, w1))"

subsection \<open>Diagnostics\<close>

datatype asr_diagnostic_event = AsrDiagnosticFinal rstr | AsrDiagnosticFailed | AsrDiagnosticCancelled

text \<open>
  \<open>run_diagnostic\<close> on a retained session: a cancellation is looked for before the audio and after it, and the
  session is given back before the answer.
\<close>

definition asr_run_diagnostic ::
    "bool \<Rightarrow> bool \<Rightarrow> asr_native \<Rightarrow> retained \<times> session_pool \<Rightarrow> asr_diagnostic_event \<times> session_pool" where
  "asr_run_diagnostic cancelled_before cancelled_after native rp =
     (let give = retained_drop (an_drop_reset native) in
      if cancelled_before then (AsrDiagnosticCancelled, give (retained_cancel rp))
      else let rp1 = retained_push (an_push native) rp in
           if \<not> an_push native then (AsrDiagnosticFailed, give rp1)
           else if cancelled_after then (AsrDiagnosticCancelled, give (retained_cancel rp1))
           else (case retained_finish (an_finish native \<noteq> None) (an_reset native) rp1 of
                   (True, rp2) \<Rightarrow> (AsrDiagnosticFinal (the (an_finish native)), give rp2)
                 | (False, rp2) \<Rightarrow> (AsrDiagnosticFailed, give rp2)))"

section \<open>Voice activity detection\<close>

subsection \<open>Frames of the transport and frames of the detector\<close>

record 'f vad_rechunker =
  rk_pending :: "'f list"
  rk_next :: u64

record 'f vad_input =
  vi_pcm :: "'f list"
  vi_start :: u64

definition rechunker_new :: "'f vad_rechunker" where
  "rechunker_new = \<lparr>rk_pending = [], rk_next = 0\<rparr>"

definition VAD_FRAME_SAMPLES :: nat where
  "VAD_FRAME_SAMPLES = 512"

text \<open>The loop over the pending samples takes one frame in each round.\<close>

function take_frames :: "'f list \<Rightarrow> u64 \<Rightarrow> 'f vad_input list \<times> 'f vad_rechunker" where
  "take_frames pending start =
     (if length pending < VAD_FRAME_SAMPLES then ([], \<lparr>rk_pending = pending, rk_next = start\<rparr>)
      else (case take_frames (drop VAD_FRAME_SAMPLES pending) (start + VAD_FRAME_SAMPLES) of
              (frames, r) \<Rightarrow> (\<lparr>vi_pcm = take VAD_FRAME_SAMPLES pending, vi_start = start\<rparr> # frames, r)))"
  by auto
termination by (relation "measure (\<lambda>(pending, _). length pending)") (auto simp: VAD_FRAME_SAMPLES_def)

declare take_frames.simps [simp del]

text \<open>A frame that is not 960 samples of 16 kHz is refused.\<close>

definition rechunker_push :: "'f pcm_f32 \<Rightarrow> 'f vad_rechunker \<Rightarrow> ('f vad_input list \<times> 'f vad_rechunker) option" where
  "rechunker_push pcm r =
     (if pf_rate pcm \<noteq> 16000 \<or> length (pf_samples pcm) \<noteq> 960 then None
      else Some (take_frames (rk_pending r @ pf_samples pcm) (rk_next r)))"

definition rechunker_reset :: "'f vad_rechunker \<Rightarrow> 'f vad_rechunker" where
  "rechunker_reset r = r\<lparr>rk_pending := [], rk_next := 0\<rparr>"

subsection \<open>The runtime\<close>

datatype 'f vad_worker_command = VadWorkerPush u64 "'f pcm_f32" | VadWorkerReset u64 | VadWorkerClose

type_synonym 'f vad_workers = "('f vad_worker_command, vad_event, 'f vad_rechunker) stream_workers"

fun vad_event_identity :: "vad_event \<Rightarrow> worker_identity" where
  "vad_event_identity (VadOpened i) = i"
| "vad_event_identity (VadProbability i _ _) = i"
| "vad_event_identity (VadSpeechStart i _ _) = i"
| "vad_event_identity (VadSpeechEnd i _ _) = i"
| "vad_event_identity (VadResetDone i _) = i"
| "vad_event_identity (VadClosed i) = i"
| "vad_event_identity (VadFailed i) = i"
| "vad_event_identity (VadResetTimedOut i) = i"
| "vad_event_identity (VadCleanupTimedOut i) = i"

definition vad_open :: "admission \<Rightarrow> worker_identity \<Rightarrow> bool \<Rightarrow> 'f vad_workers \<Rightarrow> (stream_error + nat) \<times> 'f vad_workers" where
  "vad_open v identity os_spawns w =
     (case try_admit (sw_store w) v Voice of
        None \<Rightarrow> (Inl StreamCapacity, w)
      | Some (st, permit) \<Rightarrow> open_stream identity (Some permit) False None rechunker_new os_spawns (w\<lparr>sw_store := st\<rparr>))"

text \<open>The permit of a diagnostic is held by the service.\<close>

definition vad_open_diagnostic :: "worker_identity \<Rightarrow> bool \<Rightarrow> 'f vad_workers \<Rightarrow> (stream_error + nat) \<times> 'f vad_workers" where
  "vad_open_diagnostic identity os_spawns w = open_stream identity None False None rechunker_new os_spawns w"

definition vad_quarantine_diagnostic :: "nat \<Rightarrow> 'f vad_workers \<Rightarrow> 'f vad_workers" where
  "vad_quarantine_diagnostic l w = set_slot_state l StreamQuarantined w"

fun vad_next :: "instant \<Rightarrow> worker_config \<Rightarrow> 'f vad_worker_command \<Rightarrow> stream_state \<Rightarrow> stream_state option option" where
  "vad_next now c (VadWorkerReset _) st =
     (if st \<noteq> StreamActive then None else Some (Some (StreamWaiting (now + wc_final_timeout c))))"
| "vad_next now c VadWorkerClose st = Some (Some (StreamCleaning (now + wc_cleanup_grace c)))"
| "vad_next now c (VadWorkerPush _ _) st = (if st \<noteq> StreamActive then None else Some None)"

definition vad_send ::
    "instant \<Rightarrow> nat \<Rightarrow> 'f vad_worker_command \<Rightarrow> 'f vad_workers \<Rightarrow> (stream_error + unit) \<times> 'f vad_workers" where
  "vad_send now l cmd w = send_stream (vad_next now) l cmd w"

definition end_reset :: "worker_identity \<Rightarrow> 'f vad_workers \<Rightarrow> 'f vad_workers" where
  "end_reset identity w =
     (case lease_of identity w of
        None \<Rightarrow> w
      | Some (l, sl) \<Rightarrow> (case ss_state sl of StreamWaiting _ \<Rightarrow> set_slot_state l StreamActive w | _ \<Rightarrow> w))"

definition vad_observe_event :: "vad_event \<Rightarrow> 'f vad_workers \<Rightarrow> 'f vad_workers" where
  "vad_observe_event e w =
     (case e of
        VadResetDone i _ \<Rightarrow> end_reset i w
      | VadClosed i \<Rightarrow> end_slot i w
      | VadFailed i \<Rightarrow> end_slot i w
      | _ \<Rightarrow> w)"

definition vad_try_recv :: "'f vad_workers \<Rightarrow> vad_event option \<times> 'f vad_workers" where
  "vad_try_recv w = (case take_event None w of (None, w1) \<Rightarrow> (None, w1) | (Some e, w1) \<Rightarrow> (Some e, vad_observe_event e w1))"

definition vad_dispatch :: "vad_event \<Rightarrow> 'f vad_workers \<Rightarrow> 'f vad_workers" where
  "vad_dispatch e w = route_event (wi_session (vad_event_identity e)) e (vad_observe_event e w)"

fun vad_timed_out :: "stream_state \<Rightarrow> worker_identity \<Rightarrow> vad_event" where
  "vad_timed_out (StreamWaiting _) i = VadResetTimedOut i"
| "vad_timed_out _ i = VadCleanupTimedOut i"

definition vad_reap_timeouts :: "instant \<Rightarrow> 'f vad_workers \<Rightarrow> vad_event option \<times> 'f vad_workers" where
  "vad_reap_timeouts now w = reap_timeout vad_timed_out now w"

definition vad_supervise :: "instant \<Rightarrow> 'f vad_workers \<Rightarrow> 'f vad_workers" where
  "vad_supervise now w = supervise_pending vad_timed_out vad_dispatch now w"

definition vad_begin :: "bool \<Rightarrow> nat \<Rightarrow> 'f vad_workers \<Rightarrow> 'f vad_workers" where
  "vad_begin opened_ok l w = begin_job opened_ok VadOpened VadFailed l w"

record 'f vad_native =
  vn_probability :: "'f vad_input \<Rightarrow> vad_probability option"
  vn_reset :: bool
  vn_close :: bool
  vn_drop_reset :: bool

text \<open>
  The frames of one push: each is scored and its answer must name the samples it was given. The answer is
  whether the stream goes on, with a failure, or without one when nobody listens.
\<close>

datatype vad_push_end = PushDone | PushFailed | PushUnheard

fun vad_score_frames ::
    "'f vad_native \<Rightarrow> nat \<Rightarrow> worker_identity \<Rightarrow> u64 \<Rightarrow> nat option \<Rightarrow> 'f vad_input list \<Rightarrow> 'f vad_workers \<Rightarrow> vad_push_end \<times> 'f vad_workers" where
  "vad_score_frames native l i cycle q [] w = (PushDone, w)"
| "vad_score_frames native l i cycle q (input # inputs) w =
     (let answer = vn_probability native input in
      case on_session l (\<lambda>rp. ((), retained_push (answer \<noteq> None) rp)) () w of
        (_, w1) \<Rightarrow>
          (case answer of
             None \<Rightarrow> (PushFailed, w1)
           | Some p \<Rightarrow>
               if start_sample p \<noteq> vi_start input \<or> end_sample p \<noteq> vi_start input + 512 then (PushFailed, w1)
               else (case emit_event q (VadProbability i cycle p) w1 of
                       (False, w2) \<Rightarrow> (PushUnheard, w2)
                     | (True, w2) \<Rightarrow> vad_score_frames native l i cycle q inputs w2)))"

definition vad_receive :: "'f vad_native \<Rightarrow> nat \<Rightarrow> 'f vad_workers \<Rightarrow> 'f vad_workers" where
  "vad_receive native l w =
     (case hm_get (sw_jobs w) l of
        None \<Rightarrow> w
      | Some j \<Rightarrow>
          let i = sj_identity j; q = sj_queue j; finish = publish_terminal (vn_drop_reset native) l in
          (case next_command l w of
             (None, w1) \<Rightarrow> w1
           | (Some (VadWorkerPush cycle pcm), w1) \<Rightarrow>
               (case rechunker_push pcm (sj_local j) of
                  None \<Rightarrow> finish (VadFailed i) w1
                | Some (inputs, r) \<Rightarrow>
                    (case vad_score_frames native l i cycle q inputs (update_job l (\<lambda>j. j\<lparr>sj_local := r\<rparr>) w1) of
                       (PushDone, w2) \<Rightarrow> w2
                     | (PushFailed, w2) \<Rightarrow> finish (VadFailed i) w2
                     | (PushUnheard, w2) \<Rightarrow> return_job (vn_drop_reset native) l None w2))
           | (Some (VadWorkerReset cycle), w1) \<Rightarrow>
               (case on_session l (\<lambda>rp. ((), retained_reset (vn_reset native) rp)) () w1 of
                  (_, w2) \<Rightarrow>
                    if vn_reset native
                    then snd (emit_event q (VadResetDone i cycle) (update_job l (\<lambda>j. j\<lparr>sj_local := rechunker_reset (sj_local j)\<rparr>) w2))
                    else finish (VadFailed i) w2)
           | (Some VadWorkerClose, w1) \<Rightarrow>
               (case on_session l (retained_finish (vn_close native) (vn_reset native)) (vn_close native) w1 of
                  (True, w2) \<Rightarrow> finish (VadClosed i) w2
                | (False, w2) \<Rightarrow> finish (VadFailed i) w2)))"

end
