(* ===== verification/Stream_Safety.thy ===== *)
theory Stream_Safety
  imports Recognition
begin

text \<open>
  What holds of a recognition runtime between any two of its steps: the tables agree, every permit is counted
  while its slot or its thread holds it, and a session that waits in the pool has been reset.
\<close>

named_theorems stream "operations that keep the invariant of a recognition runtime"

section \<open>Sums over a map\<close>

definition hm_mset :: "('v \<Rightarrow> 'a multiset) \<Rightarrow> ('k, 'v) hmap \<Rightarrow> 'a multiset" where
  "hm_mset f m = sum_list (map f (hm_values m))"

lemma hm_mset_Nil [simp]: "hm_mset f [] = {#}"
  by (simp add: hm_mset_def hm_values_def)

lemma hm_mset_Cons [simp]: "hm_mset f ((k, v) # m) = f v + hm_mset f m"
  by (simp add: hm_mset_def hm_values_def)

lemma hm_mset_insert: "hm_get m k = None \<Longrightarrow> hm_mset f (hm_insert k v m) = f v + hm_mset f m"
  by (simp add: hm_insert_absent)

lemma hm_adjust_absent: "hm_get m k = None \<Longrightarrow> hm_adjust k g m = m"
  by (induction m) (auto simp: hm_adjust_def hm_adjust_where_def hm_get_def split: if_splits)

lemma hm_remove_Cons: "hm_remove k ((k', v) # m) = (if k' = k then hm_remove k m else (k', v) # hm_remove k m)"
  by (simp add: hm_remove_def hm_retain_def)

lemma hm_adjust_Cons: "hm_adjust k g ((k', v) # m) = (k', if k' = k then g v else v) # hm_adjust k g m"
  by (simp add: hm_adjust_def hm_adjust_where_def)

lemma hm_wf_Cons: "hm_wf ((k, v) # m) \<longleftrightarrow> hm_get m k = None \<and> hm_wf m"
  by (auto simp: hm_wf_def hm_get_None_iff)

lemma hm_mset_remove: "hm_wf m \<Longrightarrow> hm_get m k = Some v \<Longrightarrow> hm_mset f m = f v + hm_mset f (hm_remove k m)"
  by (induction m) (auto simp: hm_remove_Cons hm_wf_Cons hm_remove_absent)

lemma hm_mset_adjust: "hm_wf m \<Longrightarrow> hm_get m k = Some v \<Longrightarrow> f (g v) + hm_mset f (hm_remove k m) = hm_mset f (hm_adjust k g m)"
  by (induction m) (auto simp: hm_remove_Cons hm_adjust_Cons hm_wf_Cons hm_remove_absent hm_adjust_absent)

lemma hm_mset_adjust_same: "(\<And>v. hm_get m k = Some v \<Longrightarrow> f (g v) = f v) \<Longrightarrow> hm_wf m \<Longrightarrow> hm_mset f (hm_adjust k g m) = hm_mset f m"
  by (cases "hm_get m k") (auto simp: hm_adjust_absent hm_mset_remove hm_mset_adjust [symmetric])

section \<open>Sessions are reset before they are lent\<close>

definition session_ready :: "native_session \<Rightarrow> bool" where
  "session_ready n \<longleftrightarrow> ns_warm n \<and> ns_clean n"

definition retained_fine :: "session_pool \<Rightarrow> retained \<Rightarrow> bool" where
  "retained_fine p r \<longleftrightarrow>
     ns_warm (rt_session r) \<and> (rt_reset r \<and> rt_reusable r \<longrightarrow> ns_clean (rt_session r)) \<and> (\<not> rt_reusable r \<longrightarrow> \<not> sp_healthy p)"

definition session_ids :: "session_pool \<Rightarrow> retained multiset \<Rightarrow> nat multiset" where
  "session_ids p lent = mset (map ns_id (sp_idle p)) + image_mset (\<lambda>r. ns_id (rt_session r)) lent"

definition pool_fine :: "session_pool \<Rightarrow> retained multiset \<Rightarrow> bool" where
  "pool_fine p lent \<longleftrightarrow>
     list_all session_ready (sp_idle p) \<and> (\<forall>r\<in>#lent. retained_fine p r) \<and> (\<forall>i. count (session_ids p lent) i \<le> 1)"

lemma session_warm_start_ready: "session_warm_start i s = Some n \<Longrightarrow> session_ready n \<and> ns_id n = i"
  by (auto simp: session_warm_start_def session_open_def session_warm_def session_reset_def session_ready_def bind_eq_Some_conv split: if_splits)

lemma start_sessions_ready:
  "start_sessions i starts = Some ns \<Longrightarrow> list_all session_ready ns \<and> map ns_id ns = [i..<i + length starts]"
proof (induction i starts arbitrary: ns rule: start_sessions.induct)
  case (2 i s ss)
  then obtain n ms where "session_warm_start i s = Some n" "start_sessions (Suc i) ss = Some ms" "ns = n # ms"
    by (auto split: option.splits)
  with 2 show ?case
    by (simp add: session_warm_start_ready upt_conv_Cons [of i "Suc (i + length ss)"] del: upt_Suc)
qed simp

lemma pool_fine_initialize:
  assumes "pool_initialize starts = Some p"
  shows "pool_fine p {#}"
proof -
  from assms obtain ns where ns: "start_sessions 0 starts = Some ns" and p: "p = \<lparr>sp_idle = ns, sp_healthy = True\<rparr>"
    by (auto simp: pool_initialize_def)
  have "count (mset (map ns_id ns)) i \<le> 1" for i
    using start_sessions_ready [OF ns] by (metis distinct_count_atmost_1 distinct_upt le_refl zero_le)
  with start_sessions_ready [OF ns] show ?thesis
    by (auto simp: p pool_fine_def session_ids_def simp del: mset_map)
qed

text \<open>A pool with fewer sessions.\<close>

lemma pool_fine_fewer:
  assumes "pool_fine p lent" and "list_all session_ready (sp_idle p')" and "\<forall>r\<in>#lent'. retained_fine p' r"
    and "session_ids p' lent' \<subseteq># session_ids p lent"
  shows "pool_fine p' lent'"
  using assms unfolding pool_fine_def by (meson le_trans mset_subset_eq_count)

lemma pool_fine_take:
  assumes "pool_fine p lent" and "pool_take p = Some (r, p')"
  shows "pool_fine p' (add_mset r lent)"
proof -
  from assms(2) have ne: "sp_idle p \<noteq> []" and r: "r = \<lparr>rt_session = last (sp_idle p), rt_reusable = True, rt_reset = True\<rparr>"
    and p': "p' = p\<lparr>sp_idle := butlast (sp_idle p)\<rparr>"
    by (auto simp: pool_take_def split: if_splits)
  from ne obtain xs x where xs: "sp_idle p = xs @ [x]" by (metis append_butlast_last_id)
  with assms(1) show ?thesis
    by (simp add: pool_fine_def r p' session_ids_def retained_fine_def session_ready_def)
qed

text \<open>An operation on a lent session keeps its name, and can only make the pool unhealthy.\<close>

lemma pool_fine_update:
  assumes "pool_fine p (add_mset r lent)" and "ns_id (rt_session r') = ns_id (rt_session r)"
    and "sp_idle p' = sp_idle p" and "sp_healthy p' \<Longrightarrow> sp_healthy p" and "retained_fine p' r'"
  shows "pool_fine p' (add_mset r' lent)"
  using assms by (auto simp: pool_fine_def session_ids_def retained_fine_def)

lemma retained_fine_head: "pool_fine p (add_mset r lent) \<Longrightarrow> retained_fine p r"
  by (simp add: pool_fine_def)

lemma pool_fine_push: "pool_fine p (add_mset r lent) \<Longrightarrow> retained_push ok (r, p) = (r', p') \<Longrightarrow> pool_fine p' (add_mset r' lent)"
  by (frule retained_fine_head, erule pool_fine_update; cases ok;
      auto simp: retained_push_def note_answer_def soil_def retained_fine_def)

lemma pool_fine_reset: "pool_fine p (add_mset r lent) \<Longrightarrow> retained_reset ok (r, p) = (r', p') \<Longrightarrow> pool_fine p' (add_mset r' lent)"
  by (frule retained_fine_head, erule pool_fine_update; cases ok;
      auto simp: retained_reset_def note_answer_def retained_fine_def)

lemma pool_fine_cancel: "pool_fine p (add_mset r lent) \<Longrightarrow> retained_cancel (r, p) = (r', p') \<Longrightarrow> pool_fine p' (add_mset r' lent)"
  by (frule retained_fine_head, erule pool_fine_update) (auto simp: retained_cancel_def soil_def retained_fine_def)

lemma pool_fine_finish:
  "pool_fine p (add_mset r lent) \<Longrightarrow> retained_finish ok reset_ok (r, p) = (answer, r', p') \<Longrightarrow> pool_fine p' (add_mset r' lent)"
  by (frule retained_fine_head, erule pool_fine_update)
    (auto simp: retained_finish_def retained_reset_def note_answer_def soil_def retained_fine_def split: if_splits)

lemma pool_fine_drop:
  assumes "pool_fine p (add_mset r lent)"
  shows "pool_fine (retained_drop reset_ok (r, p)) lent"
  using assms
  by (intro pool_fine_fewer [OF assms]) (auto simp: pool_fine_def retained_drop_def Let_def session_ids_def retained_fine_def session_ready_def)

lemma pool_fine_shutdown: "pool_fine p lent \<Longrightarrow> pool_fine (pool_shutdown p) lent"
  by (rule pool_fine_fewer [of p lent]) (auto simp: session_ids_def pool_shutdown_def retained_fine_def pool_fine_def)

text \<open>The sessions of the jobs, and those that diagnostics hold.\<close>

definition job_sessions :: "('c, 'e, 'x) stream_job \<Rightarrow> retained multiset" where
  "job_sessions j = (case sj_retained j of None \<Rightarrow> {#} | Some r \<Rightarrow> {#r#})"

definition sessions_ok :: "retained list \<Rightarrow> ('c, 'e, 'x) stream_workers \<Rightarrow> bool" where
  "sessions_ok lent w \<longleftrightarrow>
     (let held = hm_mset job_sessions (sw_jobs w) + mset lent
      in case sw_pool w of None \<Rightarrow> held = {#} | Some p \<Rightarrow> pool_fine p held)"

section \<open>Tables and permits\<close>

definition tables_but :: "nat set \<Rightarrow> ('c, 'e, 'x) stream_workers \<Rightarrow> bool" where
  "tables_but L w \<longleftrightarrow>
     hm_wf (sw_slots w) \<and> hm_wf (sw_jobs w) \<and> hm_wf (sw_arcs w) \<and>
     (\<forall>l. hm_contains (sw_slots w) l \<or> hm_contains (sw_jobs w) l \<or> hm_contains (sw_arcs w) l \<longrightarrow> l < sw_next w) \<and>
     length (sw_slots w) \<le> wc_max_workers (sw_config w) \<and>
     (\<forall>l. hm_contains (sw_arcs w) l \<and> l \<notin> L \<longrightarrow> arc_held l w) \<and>
     (\<forall>l j. hm_get (sw_jobs w) l = Some j \<longrightarrow> length (sj_commands j) \<le> wc_command_capacity (sw_config w)) \<and>
     (\<forall>s es. hm_get (sw_routes w) s = Some es \<longrightarrow> length es \<le> wc_command_capacity (sw_config w))"

definition arcs_ok :: "admission list \<Rightarrow> capacity_permit multiset \<Rightarrow> ('c, 'e, 'x) stream_workers \<Rightarrow> bool" where
  "arcs_ok views out w \<longleftrightarrow> adm_ok (sw_store w) views (hm_mset (\<lambda>c. {#c#}) (sw_arcs w) + out)"

definition stream_ok :: "admission list \<Rightarrow> capacity_permit multiset \<Rightarrow> retained list \<Rightarrow> ('c, 'e, 'x) stream_workers \<Rightarrow> bool" where
  "stream_ok views out lent w \<longleftrightarrow> tables_but {} w \<and> arcs_ok views out w \<and> sessions_ok lent w"

text \<open>Fields an invariant does not read.\<close>

lemma arc_held_fields [simp]:
  "arc_held l (w\<lparr>sw_threads := t\<rparr>) = arc_held l w" "arc_held l (w\<lparr>sw_queues := q\<rparr>) = arc_held l w"
  "arc_held l (w\<lparr>sw_routes := r\<rparr>) = arc_held l w" "arc_held l (w\<lparr>sw_store := s\<rparr>) = arc_held l w"
  "arc_held l (w\<lparr>sw_pool := p\<rparr>) = arc_held l w" "arc_held l (w\<lparr>sw_completed := c\<rparr>) = arc_held l w"
  "arc_held l (w\<lparr>sw_arcs := a\<rparr>) = arc_held l w" "arc_held l (w\<lparr>sw_next := n\<rparr>) = arc_held l w"
  by (simp_all add: arc_held_def)

lemma tables_fields [simp]:
  "tables_but L (w\<lparr>sw_threads := t\<rparr>) = tables_but L w" "tables_but L (w\<lparr>sw_queues := q\<rparr>) = tables_but L w"
  "tables_but L (w\<lparr>sw_store := s\<rparr>) = tables_but L w" "tables_but L (w\<lparr>sw_pool := p\<rparr>) = tables_but L w"
  "tables_but L (w\<lparr>sw_completed := c\<rparr>) = tables_but L w"
  by (simp_all add: tables_but_def)

lemma arcs_fields [simp]:
  "arcs_ok views out (w\<lparr>sw_threads := t\<rparr>) = arcs_ok views out w" "arcs_ok views out (w\<lparr>sw_queues := q\<rparr>) = arcs_ok views out w"
  "arcs_ok views out (w\<lparr>sw_routes := r\<rparr>) = arcs_ok views out w" "arcs_ok views out (w\<lparr>sw_pool := p\<rparr>) = arcs_ok views out w"
  "arcs_ok views out (w\<lparr>sw_completed := c\<rparr>) = arcs_ok views out w" "arcs_ok views out (w\<lparr>sw_slots := s\<rparr>) = arcs_ok views out w"
  "arcs_ok views out (w\<lparr>sw_jobs := j\<rparr>) = arcs_ok views out w" "arcs_ok views out (w\<lparr>sw_next := n\<rparr>) = arcs_ok views out w"
  by (simp_all add: arcs_ok_def)

lemma sessions_fields [simp]:
  "sessions_ok lent (w\<lparr>sw_threads := t\<rparr>) = sessions_ok lent w" "sessions_ok lent (w\<lparr>sw_queues := q\<rparr>) = sessions_ok lent w"
  "sessions_ok lent (w\<lparr>sw_routes := r\<rparr>) = sessions_ok lent w" "sessions_ok lent (w\<lparr>sw_store := s\<rparr>) = sessions_ok lent w"
  "sessions_ok lent (w\<lparr>sw_completed := c\<rparr>) = sessions_ok lent w" "sessions_ok lent (w\<lparr>sw_slots := sl\<rparr>) = sessions_ok lent w"
  "sessions_ok lent (w\<lparr>sw_arcs := a\<rparr>) = sessions_ok lent w" "sessions_ok lent (w\<lparr>sw_next := n\<rparr>) = sessions_ok lent w"
  by (simp_all add: sessions_ok_def)

lemma stream_fields [simp]:
  "stream_ok views out lent (w\<lparr>sw_threads := t\<rparr>) = stream_ok views out lent w"
  "stream_ok views out lent (w\<lparr>sw_queues := q\<rparr>) = stream_ok views out lent w"
  "stream_ok views out lent (w\<lparr>sw_completed := c\<rparr>) = stream_ok views out lent w"
  by (simp_all add: stream_ok_def)

lemma contains_simps [simp]:
  "hm_contains (hm_remove k m) k' \<longleftrightarrow> k' \<noteq> k \<and> hm_contains m k'"
  "hm_contains (hm_insert k v m) k' \<longleftrightarrow> k' = k \<or> hm_contains m k'"
  "hm_contains (hm_adjust k f m) k' \<longleftrightarrow> hm_contains m k'"
  by (auto simp: hm_contains_def keyed_simps split: if_splits)

section \<open>Slots, permits and jobs\<close>

lemma give_back_fields [simp]:
  "sw_config (give_back c w) = sw_config w" "sw_slots (give_back c w) = sw_slots w" "sw_jobs (give_back c w) = sw_jobs w"
  "sw_arcs (give_back c w) = sw_arcs w" "sw_next (give_back c w) = sw_next w" "sw_routes (give_back c w) = sw_routes w"
  "sw_pool (give_back c w) = sw_pool w" "sw_threads (give_back c w) = sw_threads w" "sw_queues (give_back c w) = sw_queues w"
  "arc_held l (give_back c w) = arc_held l w" "tables_but L (give_back c w) = tables_but L w"
  "sessions_ok lent (give_back c w) = sessions_ok lent w"
  by (simp_all add: give_back_def split: option.split)

lemma arcs_give_back:
  "adm_ok (sw_store w) views (permit_mset c + hm_mset (\<lambda>c. {#c#}) (sw_arcs w) + out) \<Longrightarrow> arcs_ok views out (give_back c w)"
  using adm_ok_drop [of "sw_store w" views "the c" "hm_mset (\<lambda>c. {#c#}) (sw_arcs w) + out"]
  by (auto simp: arcs_ok_def give_back_def permit_mset_def split: option.splits)

lemma settle_fields [simp]:
  "sw_config (settle_arc l w) = sw_config w" "sw_slots (settle_arc l w) = sw_slots w" "sw_jobs (settle_arc l w) = sw_jobs w"
  "sw_next (settle_arc l w) = sw_next w" "sw_routes (settle_arc l w) = sw_routes w" "sw_pool (settle_arc l w) = sw_pool w"
  "sw_threads (settle_arc l w) = sw_threads w" "sw_queues (settle_arc l w) = sw_queues w"
  "sessions_ok lent (settle_arc l w) = sessions_ok lent w"
  by (simp_all add: settle_arc_def)

lemma tables_settle: "tables_but (insert l L) w \<Longrightarrow> tables_but L (settle_arc l w)"
  by (auto simp: tables_but_def settle_arc_def)

lemma arcs_settle: "hm_wf (sw_arcs w) \<Longrightarrow> arcs_ok views out w \<Longrightarrow> arcs_ok views out (settle_arc l w)"
  using adm_ok_drop [of "sw_store w" views _ "hm_mset (\<lambda>c. {#c#}) (hm_remove l (sw_arcs w)) + out"]
  by (cases "hm_get (sw_arcs w) l")
    (auto simp: settle_arc_def arcs_ok_def hm_remove_absent hm_mset_remove give_back_def)

lemma tables_arcs [dest]: "tables_but L w \<Longrightarrow> hm_wf (sw_arcs w)"
  by (simp add: tables_but_def)

lemma length_remove_le: "length (hm_remove k m) \<le> length m"
  by (simp add: hm_remove_def hm_retain_def)

lemma stream_remove_slot [stream]:
  assumes "stream_ok views out lent w"
  shows "stream_ok views out lent (remove_slot l w)"
proof -
  from assms have "tables_but {l} (w\<lparr>sw_slots := hm_remove l (sw_slots w)\<rparr>)"
    using length_remove_le [of l "sw_slots w"] by (auto simp: stream_ok_def tables_but_def arc_held_def intro: hm_wf_remove)
  then have "tables_but {} (remove_slot l w)" unfolding remove_slot_def by (rule tables_settle)
  with assms show ?thesis by (auto simp: stream_ok_def remove_slot_def intro!: arcs_settle)
qed

lemma tables_remove_job: "tables_but L w \<Longrightarrow> tables_but L (remove_job l w)"
  unfolding remove_job_def
  by (rule tables_settle) (auto simp: tables_but_def arc_held_def keyed_simps intro: hm_wf_remove split: if_splits)

lemma arcs_remove_job: "hm_wf (sw_arcs w) \<Longrightarrow> arcs_ok views out w \<Longrightarrow> arcs_ok views out (remove_job l w)"
  by (simp add: remove_job_def arcs_settle)

text \<open>The sessions of the pool when one job changes.\<close>

lemma hm_mset_split:
  "hm_wf m \<Longrightarrow> hm_get m k = Some v \<Longrightarrow>
     hm_mset f m = f v + hm_mset f (hm_remove k m) \<and> hm_mset f (hm_adjust k g m) = f (g v) + hm_mset f (hm_remove k m)"
  by (simp add: hm_mset_remove hm_mset_adjust)

lemma sessions_job_change:
  assumes "sessions_ok lent w" and "hm_wf (sw_jobs w)" and "hm_get (sw_jobs w) l = Some j"
    and "\<And>R. case sw_pool w of None \<Rightarrow> q = None \<and> (job_sessions j = {#} \<longrightarrow> job_sessions (f j) = {#})
             | Some p \<Rightarrow> (\<exists>p'. q = Some p' \<and> (pool_fine p (job_sessions j + R) \<longrightarrow> pool_fine p' (job_sessions (f j) + R)))"
  shows "sessions_ok lent (update_job l f (w\<lparr>sw_pool := q\<rparr>))"
proof -
  define R where "R = hm_mset job_sessions (hm_remove l (sw_jobs w)) + mset lent"
  have "hm_mset job_sessions (sw_jobs w) + mset lent = job_sessions j + R"
      "hm_mset job_sessions (hm_adjust l f (sw_jobs w)) + mset lent = job_sessions (f j) + R"
    using hm_mset_split [OF assms(2,3), of job_sessions f] by (simp_all add: R_def)
  with assms(1) assms(4) [of R] show ?thesis
    by (auto simp: sessions_ok_def update_job_def Let_def split: option.splits)
qed

lemma sessions_remove_job:
  assumes "sessions_ok lent w" and "hm_wf (sw_jobs w)" and "hm_get (sw_jobs w) l = Some j"
  shows "sessions_ok lent (remove_job l (drop_session reset_ok (sj_retained j) w))"
proof -
  define R where "R = hm_mset job_sessions (hm_remove l (sw_jobs w)) + mset lent"
  have held: "hm_mset job_sessions (sw_jobs w) + mset lent = job_sessions j + R"
    using hm_mset_remove [OF assms(2,3), of job_sessions] by (simp add: R_def)
  show ?thesis
  proof (cases "sw_pool w")
    case None
    with assms(1) held show ?thesis
      by (auto simp: sessions_ok_def remove_job_def drop_session_def R_def split: option.split)
  next
    case (Some p)
    with assms(1) held have "pool_fine p (job_sessions j + R)" by (simp add: sessions_ok_def)
    then show ?thesis
      using Some pool_fine_drop [of p _ R reset_ok]
      by (auto simp: sessions_ok_def remove_job_def drop_session_def R_def job_sessions_def split: option.splits)
  qed
qed

lemma tables_update_job:
  assumes "tables_but L w" and "\<And>j. hm_get (sw_jobs w) l = Some j \<Longrightarrow>
      length (sj_commands (f j)) \<le> wc_command_capacity (sw_config w) \<and> (job_holds_permit (sj_phase j) \<longrightarrow> job_holds_permit (sj_phase (f j)))"
  shows "tables_but L (update_job l f w)"
  using assms by (auto simp: tables_but_def update_job_def arc_held_def keyed_simps split: option.splits if_splits)

lemma arcs_update_job [simp]: "arcs_ok views out (update_job l f w) = arcs_ok views out w"
  by (simp add: update_job_def)

lemma stream_update_job:
  assumes "stream_ok views out lent w" and "\<And>j. hm_get (sw_jobs w) l = Some j \<Longrightarrow>
      length (sj_commands (f j)) \<le> wc_command_capacity (sw_config w) \<and>
      (job_holds_permit (sj_phase j) \<longrightarrow> job_holds_permit (sj_phase (f j))) \<and> sj_retained (f j) = sj_retained j"
  shows "stream_ok views out lent (update_job l f w)"
proof -
  have "hm_mset job_sessions (hm_adjust l f (sw_jobs w)) = hm_mset job_sessions (sw_jobs w)"
    using assms by (intro hm_mset_adjust_same) (auto simp: job_sessions_def stream_ok_def tables_but_def)
  then have "sessions_ok lent (update_job l f w) = sessions_ok lent w"
    by (simp add: sessions_ok_def update_job_def)
  with assms show ?thesis by (simp add: stream_ok_def tables_update_job)
qed

lemma stream_set_slot_state [stream]: "stream_ok views out lent w \<Longrightarrow> stream_ok views out lent (set_slot_state l s w)"
  by (simp add: stream_ok_def set_slot_state_def) (auto simp: tables_but_def arc_held_def keyed_simps)

lemma tables_drop_session [simp]:
  "tables_but L (drop_session ok r w) = tables_but L w" "arcs_ok views out (drop_session ok r w) = arcs_ok views out w"
  "sw_jobs (drop_session ok r w) = sw_jobs w" "sw_slots (drop_session ok r w) = sw_slots w"
  "sw_config (drop_session ok r w) = sw_config w" "sw_arcs (drop_session ok r w) = sw_arcs w"
  by (simp_all add: drop_session_def split: option.split)

lemma streamD:
  assumes "stream_ok views out lent w"
  shows "hm_wf (sw_jobs w)" "hm_wf (sw_slots w)" "hm_wf (sw_arcs w)"
    "hm_get (sw_jobs w) l = Some j \<Longrightarrow> length (sj_commands j) \<le> wc_command_capacity (sw_config w)"
  using assms by (auto simp: stream_ok_def tables_but_def)

lemma drop_session_pool:
  "drop_session ok r w = w\<lparr>sw_pool := case (r, sw_pool w) of (Some s, Some p) \<Rightarrow> Some (retained_drop ok (s, p)) | _ \<Rightarrow> sw_pool w\<rparr>"
  by (auto simp: drop_session_def split: option.split)

lemma stream_return_job [stream]:
  assumes "stream_ok views out lent w"
  shows "stream_ok views out lent (return_job reset_ok l terminal w)"
proof (cases "hm_get (sw_jobs w) l")
  case (Some j)
  let ?f = "\<lambda>j. j\<lparr>sj_phase := JobReturned terminal, sj_commands := [], sj_retained := None\<rparr>"
  have "sessions_ok lent (update_job l ?f (drop_session reset_ok (sj_retained j) w))"
    unfolding drop_session_pool
    by (rule sessions_job_change [OF _ streamD(1) [OF assms] Some])
      (use assms in \<open>auto simp: stream_ok_def job_sessions_def intro: pool_fine_drop split: option.splits\<close>)
  with assms Some show ?thesis
    by (auto simp: return_job_def stream_ok_def intro!: tables_update_job)
qed (simp add: return_job_def assms)

lemma stream_abandon:
  assumes "stream_ok views out lent w" and "hm_get (sw_jobs w) l = Some j"
  shows "stream_ok views out lent (remove_job l (drop_session reset_ok (sj_retained j) w))"
  using assms sessions_remove_job [OF _ streamD(1) [OF assms(1)] assms(2), of lent reset_ok] streamD(3) [OF assms(1)]
  by (simp add: stream_ok_def tables_remove_job arcs_remove_job)

lemma stream_panic [stream]:
  assumes "stream_ok views out lent w"
  shows "stream_ok views out lent (panic_job reset_ok l w)"
proof (cases "hm_get (sw_jobs w) l")
  case (Some j)
  let ?w = "w\<lparr>sw_threads := on_thread_of l (\<lambda>t. t\<lparr>nw_job := None, nw_exited := True, nw_panicked := True\<rparr>) (sw_threads w)\<rparr>"
  have "stream_ok views out lent ?w" "hm_get (sw_jobs ?w) l = Some j" using assms Some by simp_all
  then show ?thesis using Some by (simp add: panic_job_def stream_abandon)
qed (simp add: panic_job_def assms)

lemma pool_fine_part: "pool_fine p (M + R) \<Longrightarrow> pool_fine p R"
  by (rule pool_fine_fewer [of p "M + R"]) (auto simp: pool_fine_def session_ids_def)

lemma sessions_lose_job: "hm_wf (sw_jobs w) \<Longrightarrow> sessions_ok lent w \<Longrightarrow> sessions_ok lent (remove_job l w)"
proof -
  assume wf: "hm_wf (sw_jobs w)" and ok: "sessions_ok lent w"
  define R where "R = hm_mset job_sessions (hm_remove l (sw_jobs w)) + mset lent"
  have more: "\<exists>M. hm_mset job_sessions (sw_jobs w) + mset lent = M + R"
    using wf by (cases "hm_get (sw_jobs w) l") (auto simp: R_def hm_remove_absent hm_mset_remove)
  then have "pool_fine p R" if "pool_fine p (hm_mset job_sessions (sw_jobs w) + mset lent)" for p
    using that pool_fine_part by auto
  with ok more show ?thesis
    by (auto simp: sessions_ok_def remove_job_def R_def split: option.splits)
qed

lemma stream_remove_job [stream]: "stream_ok views out lent w \<Longrightarrow> stream_ok views out lent (remove_job l w)"
  by (auto simp: stream_ok_def intro: tables_remove_job arcs_remove_job sessions_lose_job dest: streamD)
    (auto simp: tables_but_def intro: arcs_remove_job sessions_lose_job)

section \<open>The operations of a runtime\<close>

lemma stream_emit [stream]: "stream_ok views out lent w \<Longrightarrow> stream_ok views out lent (snd (emit_event q e w))"
  by (simp add: emit_event_def)

lemma stream_take_event [stream]: "stream_ok views out lent w \<Longrightarrow> stream_ok views out lent (snd (take_event q w))"
  by (simp add: take_event_def split: option.split list.split)

lemma stream_end_slot [stream]: "stream_ok views out lent w \<Longrightarrow> stream_ok views out lent (end_slot i w)"
  by (auto simp: end_slot_def Let_def intro!: stream split: option.split)

lemma stream_routes:
  "stream_ok views out lent w \<Longrightarrow> \<forall>s es. hm_get r s = Some es \<longrightarrow> length es \<le> wc_command_capacity (sw_config w) \<Longrightarrow>
     stream_ok views out lent (w\<lparr>sw_routes := r\<rparr>)"
  by (simp add: stream_ok_def) (auto simp: tables_but_def)

lemma routes_bound: "stream_ok views out lent w \<Longrightarrow> hm_get (sw_routes w) s = Some es \<Longrightarrow> length es \<le> wc_command_capacity (sw_config w)"
  by (auto simp: stream_ok_def tables_but_def)

lemma stream_route [stream]: "stream_ok views out lent w \<Longrightarrow> stream_ok views out lent (route_event session e w)"
  by (auto simp: route_event_def keyed_simps dest: routes_bound intro!: stream_routes split: option.split if_splits)

lemma stream_registration [stream]:
  "stream_ok views out lent w \<Longrightarrow> stream_ok views out lent (stream_register s w)"
  "stream_ok views out lent w \<Longrightarrow> stream_ok views out lent (stream_unregister s w)"
  by (auto simp: stream_register_def stream_unregister_def keyed_simps dest: routes_bound intro!: stream_routes split: if_splits)

lemma stream_deadline_query [stream]: "stream_ok views out lent w \<Longrightarrow> stream_ok views out lent (snd (next_timeout_deadline w))"
  by (simp add: next_timeout_deadline_def Let_def)

lemma stream_publish [stream]: "stream_ok views out lent w \<Longrightarrow> stream_ok views out lent (publish_terminal reset_ok l e w)"
  by (auto simp: publish_terminal_def intro!: stream split: option.split)

lemma stream_case_pair:
  "stream_ok views out lent (snd p) \<Longrightarrow> (\<And>x w. p = (x, w) \<Longrightarrow> stream_ok views out lent w \<Longrightarrow> stream_ok views out lent (f x w)) \<Longrightarrow>
     stream_ok views out lent (case p of (x, w) \<Rightarrow> f x w)"
  by (cases p) simp

lemma stream_case_snd:
  "stream_ok views out lent (snd p) \<Longrightarrow> (\<And>x w. p = (x, w) \<Longrightarrow> stream_ok views out lent w \<Longrightarrow> stream_ok views out lent (snd (f x w))) \<Longrightarrow>
     stream_ok views out lent (snd (case p of (x, w) \<Rightarrow> f x w))"
  by (cases p) simp

lemma stream_phase:
  "stream_ok views out lent w \<Longrightarrow> job_holds_permit ph \<Longrightarrow> stream_ok views out lent (update_job l (\<lambda>j. j\<lparr>sj_phase := ph\<rparr>) w)"
  by (rule stream_update_job) (auto dest: streamD(4))

lemma stream_pop:
  "stream_ok views out lent w \<Longrightarrow> hm_get (sw_jobs w) l = Some j \<Longrightarrow> sj_commands j = c # cs \<Longrightarrow>
     stream_ok views out lent (update_job l (\<lambda>j. j\<lparr>sj_commands := cs\<rparr>) w)"
  by (rule stream_update_job) (auto dest!: streamD(4))

lemma stream_begin [stream]: "stream_ok views out lent w \<Longrightarrow> stream_ok views out lent (begin_job ok opened failed l w)"
  by (auto simp: begin_job_def intro!: stream stream_phase stream_case_pair split: option.split bool.split)

lemma stream_next_command [stream]: "stream_ok views out lent w \<Longrightarrow> stream_ok views out lent (snd (next_command l w))"
  by (auto simp: next_command_def intro!: stream stream_pop split: option.split list.split)

definition keeps_fine :: "(retained \<times> session_pool \<Rightarrow> 'a \<times> retained \<times> session_pool) \<Rightarrow> bool" where
  "keeps_fine f \<longleftrightarrow> (\<forall>r p lent x r' p'. pool_fine p (add_mset r lent) \<and> f (r, p) = (x, r', p') \<longrightarrow> pool_fine p' (add_mset r' lent))"

lemma keeps_fine_ops [stream]:
  "keeps_fine (\<lambda>rp. (a, retained_push ok rp))" "keeps_fine (\<lambda>rp. (b, retained_cancel rp))"
  "keeps_fine (\<lambda>rp. (c, retained_reset ok rp))" "keeps_fine (retained_finish ok reset_ok)"
  by (auto simp: keeps_fine_def intro: pool_fine_push pool_fine_cancel pool_fine_reset pool_fine_finish)

lemma stream_on_session [stream]:
  assumes "keeps_fine f" and "stream_ok views out lent w"
  shows "stream_ok views out lent (snd (on_session l f direct w))"
proof (cases "\<exists>j r p. hm_get (sw_jobs w) l = Some j \<and> sj_retained j = Some r \<and> sw_pool w = Some p")
  case True
  then obtain j r p where j: "hm_get (sw_jobs w) l = Some j" "sj_retained j = Some r" "sw_pool w = Some p" by blast
  obtain x r' p' where f: "f (r, p) = (x, r', p')" by (cases "f (r, p)") auto
  have "sessions_ok lent (update_job l (\<lambda>j. j\<lparr>sj_retained := Some r'\<rparr>) (w\<lparr>sw_pool := Some p'\<rparr>))"
    by (rule sessions_job_change [OF _ streamD(1) [OF assms(2)] j(1)])
      (use assms j f in \<open>auto simp: stream_ok_def job_sessions_def keeps_fine_def\<close>)
  moreover have "tables_but {} (update_job l (\<lambda>j. j\<lparr>sj_retained := Some r'\<rparr>) (w\<lparr>sw_pool := Some p'\<rparr>))"
    using assms(2) streamD(4) [OF assms(2)] by (intro tables_update_job) (auto simp: stream_ok_def)
  ultimately show ?thesis using assms(2) j f by (simp add: on_session_def stream_ok_def)
qed (use assms(2) in \<open>auto simp: on_session_def split: option.split\<close>)

lemma stream_release [stream]:
  assumes "stream_ok views out lent w"
  shows "stream_ok views out lent (release_job l w)"
proof (cases "hm_get (sw_jobs w) l")
  case (Some j)
  let ?w = "\<lambda>t. update_job l (\<lambda>j. j\<lparr>sj_phase := JobReleased t\<rparr>) w"
  have s: "sessions_ok lent (?w t)" for t
  proof -
    have "hm_mset job_sessions (hm_adjust l (\<lambda>j. j\<lparr>sj_phase := JobReleased t\<rparr>) (sw_jobs w)) = hm_mset job_sessions (sw_jobs w)"
      using streamD(1) [OF assms] by (intro hm_mset_adjust_same) (simp_all add: job_sessions_def)
    with assms show ?thesis by (simp add: stream_ok_def sessions_ok_def update_job_def)
  qed
  have t: "tables_but {l} (?w t)" for t
    using assms by (auto simp: stream_ok_def tables_but_def update_job_def arc_held_def keyed_simps split: option.splits if_splits)
  then have "stream_ok views out lent (settle_arc l (?w t))" for t
    using assms s [of t] tables_settle [OF t [of t]] by (auto simp: stream_ok_def intro!: arcs_settle)
  with Some assms show ?thesis by (simp add: release_job_def Let_def split: job_phase.split)
qed (simp add: release_job_def assms)

lemma stream_finish_job [stream]:
  assumes "stream_ok views out lent w"
  shows "stream_ok views out lent (finish_job l w)"
proof -
  have "stream_ok views out lent (case t of None \<Rightarrow> w | Some e \<Rightarrow> snd (emit_event q e w))" for t q
    using assms by (auto intro!: stream split: option.split)
  then show ?thesis
    using assms by (auto simp: finish_job_def Let_def intro!: stream split: option.split job_phase.split)
qed

lemma stream_shutdown [stream]:
  assumes "stream_ok views out lent w"
  shows "stream_ok views out lent (snd (stream_shutdown_acknowledged v w))"
proof -
  have "sessions_ok lent (w\<lparr>sw_pool := map_option pool_shutdown (sw_pool w)\<rparr>)"
    using assms by (auto simp: stream_ok_def sessions_ok_def intro: pool_fine_shutdown split: option.splits)
  then have "sessions_ok lent (w\<lparr>sw_threads := t, sw_pool := map_option pool_shutdown (sw_pool w)\<rparr>)" for t
    by (simp add: sessions_ok_def)
  with assms show ?thesis
    by (simp add: stream_shutdown_acknowledged_def Let_def stream_ok_def split: prod.split)
qed

lemma stream_send [stream]:
  assumes "stream_ok views out lent w"
  shows "stream_ok views out lent (snd (send_stream nxt l cmd w))"
proof -
  have "stream_ok views out lent (update_job l (\<lambda>j. j\<lparr>sj_commands := sj_commands j @ [cmd]\<rparr>) w)"
    if "hm_get (sw_jobs w) l = Some j" "length (sj_commands j) < wc_command_capacity (sw_config w)" for j
    using assms by (rule stream_update_job) (use that in auto)
  then show ?thesis
    using assms by (auto simp: send_stream_def Let_def update_job_def intro!: stream split: option.split)
qed

lemma stream_reap_timeout [stream]: "stream_ok views out lent w \<Longrightarrow> stream_ok views out lent (snd (reap_timeout report now w))"
  by (auto simp: reap_timeout_def intro!: stream split: option.split)

lemma stream_open:
  assumes t: "tables_but {} w" and s: "sessions_ok lent w"
    and a: "adm_ok (sw_store w) views (permit_mset c + hm_mset (\<lambda>c. {#c#}) (sw_arcs w) + out)"
  shows "stream_ok views out lent (snd (open_stream i c background q local spawns w))"
proof -
  have refuse: "stream_ok views out lent (give_back c w)" "stream_ok views out lent (give_back c (w\<lparr>sw_threads := th\<rparr>))" for th
    using t s a by (auto simp: stream_ok_def intro!: arcs_give_back)
  let ?l = "sw_next w"
  have fresh: "hm_get (sw_slots w) ?l = None" "hm_get (sw_jobs w) ?l = None" "hm_get (sw_arcs w) ?l = None"
    using t by (auto simp: tables_but_def hm_contains_def)
  let ?j = "\<lambda>r. \<lparr>sj_identity = i, sj_commands = [], sj_retained = r, sj_local = local, sj_queue = q, sj_phase = JobQueued\<rparr>"
  let ?w = "\<lambda>r p. w\<lparr>sw_next := ?l + 1, sw_pool := p,
      sw_slots := hm_insert ?l \<lparr>ss_identity = i, ss_state = StreamActive, ss_background = background\<rparr> (sw_slots w),
      sw_jobs := hm_insert ?l (?j r) (sw_jobs w),
      sw_arcs := (case c of None \<Rightarrow> sw_arcs w | Some c \<Rightarrow> hm_insert ?l c (sw_arcs w))\<rparr>"
  have new: "stream_ok views out lent (?w r p)"
    if room: "length (sw_slots w) < wc_max_workers (sw_config w)" and rp: "(r, p) = (map_option fst k, map_option snd k)"
      and k: "k = Option.bind (sw_pool w) pool_take" and some: "sw_pool w \<noteq> None \<longrightarrow> k \<noteq> None" for r p k
  proof -
    have "tables_but {} (?w r p)"
      using t room fresh
      by (auto simp: tables_but_def arc_held_def hm_insert_absent [OF fresh(1)] hm_wf_Cons keyed_simps hm_contains_def
          intro: hm_wf_insert less_SucI split: option.splits if_splits)
    moreover have "arcs_ok views out (?w r p)"
      using a fresh by (auto simp: arcs_ok_def permit_mset_def hm_mset_insert split: option.splits)
    moreover have "sessions_ok lent (?w r p)"
    proof (cases "sw_pool w")
      case None
      with s rp k show ?thesis by (simp add: sessions_ok_def hm_mset_insert [OF fresh(2)] job_sessions_def)
    next
      case (Some p0)
      with some k obtain r0 p1 where "pool_take p0 = Some (r0, p1)" by (cases k) auto
      with s rp k Some show ?thesis
        by (auto simp: sessions_ok_def hm_mset_insert [OF fresh(2)] job_sessions_def intro: pool_fine_take)
    qed
    ultimately show ?thesis by (simp add: stream_ok_def)
  qed
  have failed: "stream_ok views out lent (remove_slot ?l (remove_job ?l (drop_session True r (?w r p\<lparr>sw_threads := th\<rparr>))))"
    if "stream_ok views out lent (?w r p)" for r p th
  proof -
    from that have ok: "stream_ok views out lent (?w r p\<lparr>sw_threads := th\<rparr>)" by simp
    have "hm_get (sw_jobs (?w r p\<lparr>sw_threads := th\<rparr>)) ?l = Some (?j r)"
      using t by (simp add: keyed_simps tables_but_def)
    from stream_abandon [OF ok this, of True]
    have "stream_ok views out lent (remove_job ?l (drop_session True r (?w r p\<lparr>sw_threads := th\<rparr>)))" by simp
    then show ?thesis by (rule stream)
  qed
  show ?thesis
  proof (cases "wc_max_workers (sw_config w) \<le> length (sw_slots w)")
    case True
    with refuse(1) show ?thesis by (simp add: open_stream_def)
  next
    case False
    define k where "k = Option.bind (sw_pool w) pool_take"
    show ?thesis
    proof (cases "sw_pool w \<noteq> None \<and> k = None")
      case True
      with False refuse(2) show ?thesis by (auto simp: open_stream_def k_def split: prod.split bool.split)
    next
      case some: False
      from False some new [OF _ _ k_def] have ok: "stream_ok views out lent (?w (map_option fst k) (map_option snd k))" by auto
      with False some refuse(2) failed [OF ok] show ?thesis
        by (auto simp: open_stream_def Let_def k_def split: prod.split bool.split)
    qed
  qed
qed

end
