(* ===== verification/Recognition_Theorems.thy ===== *)
theory Recognition_Theorems
  imports Stream_Safety
begin

text \<open>
  What the recognition runtimes guarantee, whatever the interleaving of sessions, the supervisor, background work,
  diagnostics and native threads: capacity is accounted for, a stream starts on a clean session, the detector sees
  the audio in consecutive frames, and a pass of the supervisor leaves nothing overdue.
\<close>

section \<open>Timeouts\<close>

text \<open>What a pass of the supervisor does to the slots that are past their deadline, and whom it tells.\<close>

definition quarantine_late :: "instant \<Rightarrow> nat \<times> stream_slot \<Rightarrow> nat \<times> stream_slot" where
  "quarantine_late now = (\<lambda>(l, sl). (l, if overdue now sl then sl\<lparr>ss_state := StreamQuarantined\<rparr> else sl))"

definition route_timeouts ::
    "(stream_state \<Rightarrow> worker_identity \<Rightarrow> 'e) \<Rightarrow> (nat \<times> stream_slot) list \<Rightarrow> ('c, 'e, 'x) stream_workers \<Rightarrow> ('c, 'e, 'x) stream_workers" where
  "route_timeouts report late w =
     fold (\<lambda>(l, sl). route_event (wi_session (ss_identity sl)) (report (ss_state sl) (ss_identity sl))) late w"

lemma quarantined_not_overdue [simp]: "\<not> overdue now (sl\<lparr>ss_state := StreamQuarantined\<rparr>)"
  by (simp add: overdue_def)

lemma quarantine_none: "\<forall>(l, sl)\<in>set m. \<not> overdue now sl \<Longrightarrow> map (quarantine_late now) m = m"
  by (induction m) (auto simp: quarantine_late_def)

lemma find_late:
  assumes "List.find (\<lambda>(l, sl). overdue now sl) m = Some (l, sl)"
  obtains xs ys where "m = xs @ (l, sl) # ys" and "overdue now sl" and "\<forall>(l, sl)\<in>set xs. \<not> overdue now sl"
  using assms
proof (induction m arbitrary: thesis)
  case (Cons x m)
  show ?case
  proof (cases "case x of (l, sl) \<Rightarrow> overdue now sl")
    case True
    with Cons.prems(2) have "x = (l, sl)" "overdue now sl" by (auto split: if_splits)
    then show ?thesis using Cons.prems(1) [of "[]" m] by simp
  next
    case False
    with Cons.prems(2) have "List.find (\<lambda>(l, sl). overdue now sl) m = Some (l, sl)" by (auto split: if_splits)
    from Cons.IH [OF _ this] obtain xs ys where "m = xs @ (l, sl) # ys" "overdue now sl" "\<forall>(l, sl)\<in>set xs. \<not> overdue now sl"
      by blast
    with False show ?thesis by (intro Cons.prems(1) [of "x # xs" ys]) auto
  qed
qed simp

lemma adjust_middle: "hm_wf (xs @ (l, v) # ys) \<Longrightarrow> hm_adjust l f (xs @ (l, v) # ys) = xs @ (l, f v) # ys"
proof (induction xs)
  case Nil
  then show ?case by (simp add: hm_adjust_Cons hm_wf_Cons hm_adjust_absent)
next
  case (Cons x xs)
  obtain k u where x: "x = (k, u)" by (cases x)
  from Cons.prems have "hm_get (xs @ (l, v) # ys) k = None" "hm_wf (xs @ (l, v) # ys)" by (simp_all add: x hm_wf_Cons)
  then have "k \<noteq> l" by (auto simp: hm_get_def)
  with Cons.IH [OF \<open>hm_wf (xs @ (l, v) # ys)\<close>] show ?case by (simp add: x hm_adjust_Cons)
qed

lemma route_slots: "route_event s e (w\<lparr>sw_slots := m\<rparr>) = (route_event s e w)\<lparr>sw_slots := m\<rparr>"
  by (simp add: route_event_def split: option.split)

lemma route_slots_same [simp]: "sw_slots (route_event s e w) = sw_slots w"
  by (simp add: route_event_def split: option.split)

lemma route_timeouts_slots [simp]: "sw_slots (route_timeouts report late w) = sw_slots w"
  unfolding route_timeouts_def by (induction late arbitrary: w) auto

lemma route_timeouts_routes: "sw_routes (route_timeouts report late (w\<lparr>sw_slots := m\<rparr>)) = sw_routes (route_timeouts report late w)"
proof -
  have "route_timeouts report late (w\<lparr>sw_slots := m\<rparr>) = (route_timeouts report late w)\<lparr>sw_slots := m\<rparr>"
    unfolding route_timeouts_def by (induction late arbitrary: w) (auto simp: route_slots)
  then show ?thesis by simp
qed

lemma quarantine_get: "hm_get (map (quarantine_late now) m) l =
    map_option (\<lambda>sl. if overdue now sl then sl\<lparr>ss_state := StreamQuarantined\<rparr> else sl) (hm_get m l)"
  by (induction m) (auto simp: quarantine_late_def)

section \<open>What the supervisor relies on\<close>

text \<open>
  A runtime observes each event before it routes it; a report of a timeout changes nothing more, and observing
  leaves the queues alone.
\<close>

locale recognition_runtime =
  fixes observe :: "'e \<Rightarrow> ('c, 'e, 'x) stream_workers \<Rightarrow> ('c, 'e, 'x) stream_workers"
    and dispatch :: "'e \<Rightarrow> ('c, 'e, 'x) stream_workers \<Rightarrow> ('c, 'e, 'x) stream_workers"
    and recipient :: "'e \<Rightarrow> worker_identity"
    and report :: "stream_state \<Rightarrow> worker_identity \<Rightarrow> 'e"
  assumes observe_keeps: "stream_ok views out lent w \<Longrightarrow> stream_ok views out lent (observe e w)"
    and observe_queues: "sw_queues (observe e w) = sw_queues w"
    and observe_report: "observe (report st i) w = w"
    and dispatch_routes: "dispatch e w = route_event (wi_session (recipient e)) e (observe e w)"
    and report_recipient: "recipient (report st i) = i"
begin

lemma dispatch_keeps: "stream_ok views out lent w \<Longrightarrow> stream_ok views out lent (dispatch e w)"
  by (simp add: dispatch_routes stream_route observe_keeps)

lemma dispatch_queues: "sw_queues (dispatch e w) = sw_queues w"
  by (simp add: dispatch_routes route_event_def observe_queues split: option.split)

lemma dispatch_report: "sw_slots (dispatch (report st i) w) = sw_slots w"
  by (simp add: dispatch_routes route_event_def observe_report split: option.split)

lemma drain_keeps: "stream_ok views out lent w \<Longrightarrow> stream_ok views out lent (drain_queue dispatch n w)"
proof (induction n arbitrary: w)
  case (Suc n)
  from stream_take_event [OF Suc.prems, of None] show ?case
    by (auto simp: Suc.IH dispatch_keeps split: prod.split option.split)
qed simp

lemma reap_keeps: "stream_ok views out lent w \<Longrightarrow> stream_ok views out lent (reap_all report dispatch now n w)"
proof (induction n arbitrary: w)
  case (Suc n)
  from stream_reap_timeout [OF Suc.prems, of report now] show ?case
    by (auto simp: Suc.IH dispatch_keeps split: prod.split option.split)
qed simp

lemma supervise_keeps: "stream_ok views out lent w \<Longrightarrow> stream_ok views out lent (supervise_pending report dispatch now w)"
  by (simp add: supervise_pending_def Let_def reap_keeps drain_keeps)

lemma drain_empties: "queue_length None w \<le> n \<Longrightarrow> queue_length None (drain_queue dispatch n w) = 0"
proof (induction n arbitrary: w)
  case (Suc n)
  show ?case
  proof (cases "hm_get (sw_queues w) None")
    case None
    then show ?thesis by (simp add: take_event_def queue_length_def)
  next
    case (Some es)
    show ?thesis
    proof (cases es)
      case Nil
      with Some show ?thesis by (simp add: take_event_def queue_length_def)
    next
      case (Cons e es')
      have "queue_length None (dispatch e (w\<lparr>sw_queues := hm_adjust None (\<lambda>_. es') (sw_queues w)\<rparr>)) \<le> n"
        using Suc.prems Some Cons by (simp add: queue_length_def dispatch_queues keyed_simps)
      from Suc.IH [OF this] Some Cons show ?thesis by (simp add: take_event_def)
    qed
  qed
qed simp

lemma reap_queues: "sw_queues (reap_all report dispatch now n w) = sw_queues w"
proof (induction n arbitrary: w)
  case (Suc n)
  have "sw_queues (snd (reap_timeout report now w)) = sw_queues w"
    by (simp add: reap_timeout_def set_slot_state_def split: option.split)
  then show ?case by (auto simp: Suc.IH dispatch_queues split: prod.split option.split)
qed simp

text \<open>
  A pass reaps one overdue slot after the other; together that is one quarantine of all of them, and a report of each,
  in the order of the table.
\<close>

lemma reap_exact:
  assumes "hm_wf (sw_slots w)" and "length (filter (\<lambda>(l, sl). overdue now sl) (sw_slots w)) \<le> n"
  shows "reap_all report dispatch now n w =
    route_timeouts report (filter (\<lambda>(l, sl). overdue now sl) (sw_slots w))
      (w\<lparr>sw_slots := map (quarantine_late now) (sw_slots w)\<rparr>)"
  using assms
proof (induction n arbitrary: w)
  case 0
  then have "\<forall>(l, sl)\<in>set (sw_slots w). \<not> overdue now sl" by (auto simp: filter_empty_conv)
  with 0 show ?case by (simp add: route_timeouts_def quarantine_none)
next
  case (Suc n)
  show ?case
  proof (cases "List.find (\<lambda>(l, sl). overdue now sl) (sw_slots w)")
    case None
    then have none: "\<forall>(l, sl)\<in>set (sw_slots w). \<not> overdue now sl" by (auto simp: find_None_iff)
    then have "filter (\<lambda>(l, sl). overdue now sl) (sw_slots w) = []" by (auto simp: filter_empty_conv)
    with None none show ?thesis by (simp add: reap_timeout_def route_timeouts_def quarantine_none)
  next
    case (Some x)
    obtain l sl where x: "x = (l, sl)" by (cases x)
    from Some obtain xs ys where sl: "sw_slots w = xs @ (l, sl) # ys" and late: "overdue now sl"
        and none: "\<forall>(l, sl)\<in>set xs. \<not> overdue now sl"
      unfolding x by (rule find_late)
    define w1 where "w1 = w\<lparr>sw_slots := xs @ (l, sl\<lparr>ss_state := StreamQuarantined\<rparr>) # ys\<rparr>"
    define w2 where "w2 = route_event (wi_session (ss_identity sl)) (report (ss_state sl) (ss_identity sl)) w1"
    have "set_slot_state l StreamQuarantined w = w1"
      unfolding set_slot_state_def w1_def sl using adjust_middle Suc.prems(1) [unfolded sl] by metis
    then have step: "reap_all report dispatch now (Suc n) w = reap_all report dispatch now n w2"
      using Some by (simp add: reap_timeout_def x dispatch_routes observe_report report_recipient w2_def)
    have "filter (\<lambda>(l, sl). overdue now sl) xs = []" using none by (auto simp: filter_empty_conv)
    then have late_w: "filter (\<lambda>(l, sl). overdue now sl) (sw_slots w) = (l, sl) # filter (\<lambda>(l, sl). overdue now sl) ys"
      by (simp add: sl late)
    moreover have slots2: "sw_slots w2 = xs @ (l, sl\<lparr>ss_state := StreamQuarantined\<rparr>) # ys" by (simp add: w2_def w1_def)
    with \<open>filter _ xs = []\<close> have late_2: "filter (\<lambda>(l, sl). overdue now sl) (sw_slots w2) = filter (\<lambda>(l, sl). overdue now sl) ys"
      by (simp add: quarantined_not_overdue)
    moreover have "hm_wf (sw_slots w2)" using Suc.prems(1) by (simp add: slots2 sl hm_wf_def)
    ultimately have "reap_all report dispatch now n w2 =
        route_timeouts report (filter (\<lambda>(l, sl). overdue now sl) ys) (w2\<lparr>sw_slots := map (quarantine_late now) (sw_slots w2)\<rparr>)"
      using Suc.IH [of w2] Suc.prems(2) by simp
    moreover have "map (quarantine_late now) (sw_slots w2) = map (quarantine_late now) (sw_slots w)"
      by (simp add: slots2 sl quarantine_late_def late quarantined_not_overdue)
    ultimately show ?thesis
      by (simp add: step late_w route_timeouts_def w2_def w1_def route_slots del: reap_all.simps)
  qed
qed

lemma supervise_exact:
  assumes "stream_ok views out lent w"
  shows "supervise_pending report dispatch now w =
    (let w1 = drain_queue dispatch (queue_length None w) w
     in route_timeouts report (filter (\<lambda>(l, sl). overdue now sl) (sw_slots w1))
          (w1\<lparr>sw_slots := map (quarantine_late now) (sw_slots w1)\<rparr>))"
  using streamD(2) [OF drain_keeps [OF assms]]
  by (simp add: supervise_pending_def Let_def reap_exact)

lemma supervise_queue: "queue_length None (supervise_pending report dispatch now w) = 0"
proof -
  have "queue_length None (drain_queue dispatch (queue_length None w) w) = 0" by (rule drain_empties) simp
  then show ?thesis by (simp add: supervise_pending_def Let_def queue_length_def reap_queues)
qed

end

lemma asr_observe_keeps [stream]: "stream_ok views out lent w \<Longrightarrow> stream_ok views out lent (asr_observe e w)"
  by (simp add: asr_observe_def stream_end_slot)

lemma end_reset_keeps [stream]: "stream_ok views out lent w \<Longrightarrow> stream_ok views out lent (end_reset i w)"
  by (auto simp: end_reset_def intro!: stream split: option.split stream_state.split)

lemma vad_event_keeps [stream]: "stream_ok views out lent w \<Longrightarrow> stream_ok views out lent (vad_observe_event e w)"
  by (auto simp: vad_observe_event_def intro!: stream split: vad_event.split)

lemma queues_kept [simp]:
  "sw_queues (end_slot i w) = sw_queues w" "sw_queues (remove_slot l w) = sw_queues w"
  "sw_queues (set_slot_state l s w) = sw_queues w" "sw_queues (end_reset i u) = sw_queues u"
  by (auto simp: end_slot_def remove_slot_def set_slot_state_def end_reset_def Let_def split: option.split stream_state.split)

interpretation asr_runtime: recognition_runtime asr_observe asr_dispatch asr_event_identity asr_timed_out
proof
  show "asr_observe (asr_timed_out st i) w = w" for st i and w :: "'f asr_workers"
    by (cases st) (simp_all add: asr_observe_def)
  show "asr_event_identity (asr_timed_out st i) = i" for st i by (cases st) simp_all
qed (simp_all add: asr_observe_keeps asr_dispatch_def, simp add: asr_observe_def)

interpretation vad_runtime: recognition_runtime vad_observe_event vad_dispatch vad_event_identity vad_timed_out
proof
  show "vad_observe_event (vad_timed_out st i) w = w" for st i and w :: "'f vad_workers"
    by (cases st) (simp_all add: vad_observe_event_def)
  show "vad_event_identity (vad_timed_out st i) = i" for st i by (cases st) simp_all
qed (simp_all add: vad_event_keeps vad_dispatch_def, simp add: vad_observe_event_def split: vad_event.split)

section \<open>The runtimes as step systems\<close>

text \<open>
  The runtime, the admission views that exist, the permits that no lease owns (diagnostics and other users of a
  quota) and the sessions that diagnostics hold.
\<close>

record ('c, 'e, 'x) stream_sys =
  xs_workers :: "('c, 'e, 'x) stream_workers"
  xs_views :: "admission list"
  xs_outside :: "capacity_permit list"
  xs_lent :: "retained list"

definition stream_init :: "('c, 'e, 'x) stream_sys \<Rightarrow> bool" where
  "stream_init s \<longleftrightarrow>
     (\<exists>a config starts. reach adm_sys_init adm_step a \<and> config_valid config \<and>
        (stream_workers_try_new config starts (sys_store a) = Inr (xs_workers s) \<or>
         xs_workers s = stream_workers_new config None (sys_store a)) \<and>
        xs_views s = sys_views a \<and> xs_outside s = sys_live a \<and> xs_lent s = [])"

definition working :: "nat \<Rightarrow> ('c, 'e, 'x) stream_workers \<Rightarrow> bool" where
  "working l w \<longleftrightarrow> list_ex (\<lambda>t. nw_job t = Some l) (nt_workers (sw_threads w))"

abbreviation in_workers ::
    "(('c, 'e, 'x) stream_workers \<Rightarrow> ('c, 'e, 'x) stream_workers) \<Rightarrow> ('c, 'e, 'x) stream_sys \<Rightarrow> ('c, 'e, 'x) stream_sys" where
  "in_workers f s \<equiv> s\<lparr>xs_workers := f (xs_workers s)\<rparr>"

text \<open>The steps both runtimes share.\<close>

inductive plumbing_step :: "('c, 'e, 'x) stream_sys \<Rightarrow> ('c, 'e, 'x) stream_sys \<Rightarrow> bool" where
  pl_view: "q \<in> set (xs_views s) \<Longrightarrow> v \<in> set (xs_views s) \<Longrightarrow> plumbing_step s (s\<lparr>xs_views := composed q v # xs_views s\<rparr>)"
| pl_admit: "v \<in> set (xs_views s) \<Longrightarrow> try_admit (sw_store (xs_workers s)) v class = Some (st, c) \<Longrightarrow>
     plumbing_step s (s\<lparr>xs_workers := (xs_workers s)\<lparr>sw_store := st\<rparr>, xs_outside := c # xs_outside s\<rparr>)"
| pl_diagnostic: "v \<in> set (xs_views s) \<Longrightarrow> stream_admit_diagnostic v (xs_workers s) = Some (c, w) \<Longrightarrow>
     plumbing_step s (s\<lparr>xs_workers := w, xs_outside := c # xs_outside s\<rparr>)"
| pl_drop: "c \<in> set (xs_outside s) \<Longrightarrow>
     plumbing_step s (s\<lparr>xs_workers := give_back (Some c) (xs_workers s), xs_outside := remove1 c (xs_outside s)\<rparr>)"
| pl_register: "plumbing_step s (in_workers (stream_register session) s)"
| pl_unregister: "plumbing_step s (in_workers (stream_unregister session) s)"
| pl_read: "hm_get (sw_routes (xs_workers s)) session = Some (e # es) \<Longrightarrow>
     plumbing_step s (in_workers (\<lambda>w. w\<lparr>sw_routes := hm_adjust session (\<lambda>_. es) (sw_routes w)\<rparr>) s)"
| pl_deadline: "plumbing_step s (in_workers (\<lambda>w. snd (next_timeout_deadline w)) s)"
| pl_shutdown: "v \<in> set (xs_views s) \<Longrightarrow> plumbing_step s (in_workers (\<lambda>w. snd (stream_shutdown_acknowledged v w)) s)"
| pl_thread: "i < length (nt_workers (sw_threads (xs_workers s))) \<Longrightarrow>
     plumbing_step s (in_workers (\<lambda>w. w\<lparr>sw_threads := thread_take i (sw_threads w)\<rparr>) s)"
| pl_release: "plumbing_step s (in_workers (release_job l) s)"
| pl_finish: "plumbing_step s (in_workers (finish_job l) s)"
| pl_panic: "working l (xs_workers s) \<Longrightarrow> plumbing_step s (in_workers (panic_job reset_ok l) s)"
| pl_drop_queue: "plumbing_step s (in_workers (\<lambda>w. w\<lparr>sw_queues := hm_remove (Some l) (sw_queues w)\<rparr>) s)"

type_synonym 'f asr_sys = "('f asr_command, asr_event, unit) stream_sys"
type_synonym 'f vad_sys = "('f vad_worker_command, vad_event, 'f vad_rechunker) stream_sys"

inductive asr_step :: "'f asr_sys \<Rightarrow> 'f asr_sys \<Rightarrow> bool" where
  asr_plumbing: "plumbing_step s t \<Longrightarrow> asr_step s t"
| asr_opens: "v \<in> set (xs_views s) \<Longrightarrow> asr_step s (in_workers (\<lambda>w. snd (asr_open v i spawns w)) s)"
| asr_opens_background: "v \<in> set (xs_views s) \<Longrightarrow> asr_step s (in_workers (\<lambda>w. snd (asr_open_background v i spawns w)) s)"
| asr_sends: "asr_step s (in_workers (\<lambda>w. snd (asr_send now l cmd w)) s)"
| asr_receives_event: "asr_step s (in_workers (\<lambda>w. snd (asr_try_recv q w)) s)"
| asr_supervises: "asr_step s (in_workers (asr_supervise now) s)"
| asr_cleans: "asr_step s (in_workers (\<lambda>w. snd (cleanup_round now deadline l w)) s)"
| asr_begins: "working l (xs_workers s) \<Longrightarrow> asr_step s (in_workers (asr_begin opened_ok l) s)"
| asr_serves: "working l (xs_workers s) \<Longrightarrow> asr_step s (in_workers (asr_receive native l) s)"
| asr_lends: "sw_pool (xs_workers s) = Some p \<Longrightarrow> pool_take p = Some (r, p') \<Longrightarrow>
     asr_step s (s\<lparr>xs_workers := (xs_workers s)\<lparr>sw_pool := Some p'\<rparr>, xs_lent := r # xs_lent s\<rparr>)"
| asr_diagnoses: "sw_pool (xs_workers s) = Some p \<Longrightarrow> r \<in> set (xs_lent s) \<Longrightarrow>
     asr_step s (s\<lparr>xs_workers := (xs_workers s)\<lparr>sw_pool := Some (snd (asr_run_diagnostic before after native (r, p)))\<rparr>,
                   xs_lent := remove1 r (xs_lent s)\<rparr>)"

inductive vad_step :: "'f vad_sys \<Rightarrow> 'f vad_sys \<Rightarrow> bool" where
  vad_plumbing: "plumbing_step s t \<Longrightarrow> vad_step s t"
| vad_opens: "v \<in> set (xs_views s) \<Longrightarrow> vad_step s (in_workers (\<lambda>w. snd (vad_open v i spawns w)) s)"
| vad_opens_diagnostic: "vad_step s (in_workers (\<lambda>w. snd (vad_open_diagnostic i spawns w)) s)"
| vad_quarantines: "vad_step s (in_workers (vad_quarantine_diagnostic l) s)"
| vad_sends: "vad_step s (in_workers (\<lambda>w. snd (vad_send now l cmd w)) s)"
| vad_receives_event: "vad_step s (in_workers (\<lambda>w. snd (vad_try_recv w)) s)"
| vad_supervises: "vad_step s (in_workers (vad_supervise now) s)"
| vad_begins: "working l (xs_workers s) \<Longrightarrow> vad_step s (in_workers (vad_begin opened_ok l) s)"
| vad_serves: "working l (xs_workers s) \<Longrightarrow> vad_step s (in_workers (vad_receive native l) s)"

definition sys_ok :: "('c, 'e, 'x) stream_sys \<Rightarrow> bool" where
  "sys_ok s \<longleftrightarrow> stream_ok (xs_views s) (mset (xs_outside s)) (xs_lent s) (xs_workers s)"

lemma adm_of: "stream_ok views out lent w \<Longrightarrow> adm_ok (sw_store w) views (hm_mset (\<lambda>c. {#c#}) (sw_arcs w) + out)"
  by (simp add: stream_ok_def arcs_ok_def)

lemma stream_store:
  "stream_ok views out lent w \<Longrightarrow> adm_ok st views' (hm_mset (\<lambda>c. {#c#}) (sw_arcs w) + out') \<Longrightarrow>
     stream_ok views' out' lent (w\<lparr>sw_store := st\<rparr>)"
  by (simp add: stream_ok_def arcs_ok_def)

lemma stream_pool:
  "stream_ok views out lent w \<Longrightarrow> sw_pool w = Some p \<Longrightarrow>
     (\<And>H. pool_fine p (H + mset lent) \<Longrightarrow> pool_fine p' (H + mset lent')) \<Longrightarrow>
     stream_ok views out lent' (w\<lparr>sw_pool := Some p'\<rparr>)"
  by (simp add: stream_ok_def sessions_ok_def)

lemma sys_init: "stream_init s \<Longrightarrow> sys_ok s"
proof -
  assume "stream_init s"
  then obtain a config starts where a: "reach adm_sys_init adm_step a" "xs_views s = sys_views a" "xs_outside s = sys_live a" "xs_lent s = []"
      and c: "stream_workers_try_new config starts (sys_store a) = Inr (xs_workers s) \<or>
        xs_workers s = stream_workers_new config None (sys_store a)"
    by (auto simp: stream_init_def)
  from c have "\<exists>pool. xs_workers s = stream_workers_new config pool (sys_store a) \<and> (\<forall>p. pool = Some p \<longrightarrow> pool_fine p {#})"
    by (auto simp: stream_workers_try_new_def split: if_splits option.splits)
      (metis option.inject pool_fine_initialize)
  then obtain pool where w: "xs_workers s = stream_workers_new config pool (sys_store a)" "\<And>p. pool = Some p \<Longrightarrow> pool_fine p {#}"
    by blast
  have "adm_inv a" by (rule adm.reach_inv [OF a(1)])
  then have "adm_ok (sys_store a) (sys_views a) (mset (sys_live a))"
    unfolding adm_ok_def by (intro exI [of _ "sys_live a"]) (simp add: adm_inv_def)
  with w a(2-) show ?thesis
    by (simp add: sys_ok_def stream_ok_def tables_but_def arcs_ok_def sessions_ok_def stream_workers_new_def hm_wf_Nil
        hm_contains_def hm_get_def split: option.splits)
qed

lemma stream_read:
  assumes "stream_ok views out lent w" and "hm_get (sw_routes w) s = Some (e # es)"
  shows "stream_ok views out lent (w\<lparr>sw_routes := hm_adjust s (\<lambda>_. es) (sw_routes w)\<rparr>)"
  using routes_bound [OF assms(1)] assms(2)
  by (intro stream_routes [OF assms(1)]) (fastforce simp: keyed_simps split: if_splits)

lemma plumbing_keeps: "plumbing_step s t \<Longrightarrow> sys_ok s \<Longrightarrow> sys_ok t"
proof (induction rule: plumbing_step.induct)
  case (pl_view q s v)
  then show ?case by (auto simp: sys_ok_def stream_ok_def arcs_ok_def intro: adm_ok_compose)
next
  case (pl_admit v s "class" st c)
  from adm_ok_admit [OF adm_of [OF pl_admit(3) [unfolded sys_ok_def]] pl_admit(1,2)] pl_admit(3) show ?case
    by (simp add: sys_ok_def stream_store union_ac)
next
  case (pl_diagnostic v s c w)
  then obtain st where st: "try_admit (sw_store (xs_workers s)) v Diagnostic = Some (st, c)" "w = (xs_workers s)\<lparr>sw_store := st\<rparr>"
    by (auto simp: stream_admit_diagnostic_def split: if_splits)
  from adm_ok_admit [OF adm_of [OF pl_diagnostic(3) [unfolded sys_ok_def]] pl_diagnostic(1) st(1)] pl_diagnostic(3) st(2) show ?case
    by (simp add: sys_ok_def stream_store union_ac)
next
  case (pl_drop c s)
  define R where "R = mset (remove1 c (xs_outside s))"
  from pl_drop(1) have m: "mset (xs_outside s) = add_mset c R" by (simp add: R_def)
  from adm_of [OF pl_drop(2) [unfolded sys_ok_def m]]
  have "adm_ok (sw_store (xs_workers s)) (xs_views s) ({#c#} + (hm_mset (\<lambda>c. {#c#}) (sw_arcs (xs_workers s)) + R))" by simp
  from adm_ok_drop [OF this] stream_store [OF pl_drop(2) [unfolded sys_ok_def]] show ?case
    by (simp add: sys_ok_def give_back_def R_def del: mset_remove1)
next
  case (pl_read s session e es)
  then show ?case
    by (simp add: sys_ok_def stream_read)
next
  case (pl_register s session)
  then show ?case by (simp add: sys_ok_def stream_registration)
next
  case (pl_unregister s session)
  then show ?case by (simp add: sys_ok_def stream_registration)
next
  case (pl_deadline s)
  then show ?case by (simp add: sys_ok_def stream_deadline_query)
next
  case (pl_shutdown v s)
  then show ?case by (simp add: sys_ok_def stream_shutdown)
next
  case (pl_thread i s)
  then show ?case by (simp add: sys_ok_def)
next
  case (pl_release s l)
  then show ?case by (simp add: sys_ok_def stream_release)
next
  case (pl_finish s l)
  then show ?case by (simp add: sys_ok_def stream_finish_job)
next
  case (pl_panic l s reset_ok)
  then show ?case by (simp add: sys_ok_def stream_panic)
next
  case (pl_drop_queue s l)
  then show ?case by (simp add: sys_ok_def)
qed

lemma stream_class_open:
  assumes "stream_ok views out lent w" and "v \<in> set views" and "try_admit (sw_store w) v class = Some (st, c)"
  shows "stream_ok views out lent (snd (open_stream i (Some c) background q local spawns (w\<lparr>sw_store := st\<rparr>)))"
  using assms adm_ok_admit [OF adm_of [OF assms(1)] assms(2,3)]
  by (intro stream_open) (simp_all add: stream_ok_def permit_mset_def union_ac)

lemma asr_open_class_keeps:
  "stream_ok views out lent w \<Longrightarrow> v \<in> set views \<Longrightarrow> stream_ok views out lent (snd (asr_open_class v i class q spawns w))"
  by (auto simp: asr_open_class_def intro: stream_class_open split: option.split)

lemma asr_background_keeps:
  assumes "stream_ok views out lent w" and "v \<in> set views"
  shows "stream_ok views out lent (snd (asr_open_background v i spawns w))"
proof -
  have "stream_ok views out lent (snd (asr_open_class v i Background q spawns (w\<lparr>sw_queues := qs\<rparr>)))" for q qs
    using assms by (intro asr_open_class_keeps) simp_all
  then show ?thesis by (auto simp: asr_open_background_def Let_def intro: stream_case_snd split: sum.split prod.split)
      (metis snd_conv)+
qed

lemma asr_recv_keeps [stream]: "stream_ok views out lent w \<Longrightarrow> stream_ok views out lent (snd (asr_try_recv q w))"
  using stream_take_event [of views out lent w q]
  by (auto simp: asr_try_recv_def intro!: stream split: prod.split option.split)

lemma poll_keeps [stream]: "stream_ok views out lent w \<Longrightarrow> stream_ok views out lent (poll_all q n w)"
proof (induction n arbitrary: w)
  case (Suc n)
  from asr_recv_keeps [OF Suc.prems, of q] show ?case by (auto simp: Suc.IH split: prod.split option.split)
qed simp

lemma cleanup_keeps [stream]: "stream_ok views out lent w \<Longrightarrow> stream_ok views out lent (snd (cleanup_round now deadline l w))"
  by (auto simp: cleanup_round_def poll_until_empty_def asr_send_def Let_def intro!: stream)

lemma asr_receive_keeps [stream]:
  assumes "stream_ok views out lent w"
  shows "stream_ok views out lent (asr_receive native l w)"
proof (cases "hm_get (sw_jobs w) l")
  case (Some j)
  show ?thesis
    unfolding asr_receive_def Some option.case Let_def
    by (rule stream_case_pair [OF stream_next_command [OF assms]])
      (auto intro!: stream stream_case_pair split: option.split asr_command.split bool.split)
qed (simp add: asr_receive_def assms)

lemma diagnostic_fine:
  assumes "pool_fine p (add_mset r lent)"
  shows "pool_fine (snd (asr_run_diagnostic before after native (r, p))) lent"
proof -
  have keeps: "pool_fine (retained_drop ok (f (r, p))) lent" if "\<And>r' p'. f (r, p) = (r', p') \<Longrightarrow> pool_fine p' (add_mset r' lent)" for f ok
    using that by (cases "f (r, p)") (simp add: pool_fine_drop)
  obtain r1 p1 where p1: "retained_push (an_push native) (r, p) = (r1, p1)" by (cases "retained_push (an_push native) (r, p)")
  from pool_fine_push [OF assms p1] have one: "pool_fine p1 (add_mset r1 lent)" .
  obtain x r2 p2 where p2: "retained_finish (an_finish native \<noteq> None) (an_reset native) (r1, p1) = (x, r2, p2)"
    by (cases "retained_finish (an_finish native \<noteq> None) (an_reset native) (r1, p1)") auto
  have cancelled: "pool_fine (retained_drop ok (retained_cancel (q, u))) lent" if "pool_fine u (add_mset q lent)" for q u ok
    using pool_fine_cancel [OF that] pool_fine_drop by (cases "retained_cancel (q, u)") auto
  show ?thesis
    using cancelled [OF assms] cancelled [OF one] pool_fine_drop [OF one] pool_fine_drop [OF pool_fine_finish [OF one p2]]
    by (auto simp: asr_run_diagnostic_def Let_def p1 p2 [simplified] split: bool.split)
qed

lemma asr_keeps: "sys_ok s \<Longrightarrow> asr_step s t \<Longrightarrow> sys_ok t"
proof (rotate_tac, induction rule: asr_step.induct)
  case (asr_plumbing s t)
  then show ?case by (rule plumbing_keeps)
next
  case (asr_opens v s i spawns)
  then show ?case by (simp add: sys_ok_def asr_open_def asr_open_class_keeps)
next
  case (asr_opens_background v s i spawns)
  then show ?case by (simp add: sys_ok_def asr_background_keeps)
next
  case (asr_supervises s now)
  then show ?case by (simp add: sys_ok_def asr_supervise_def asr_runtime.supervise_keeps)
next
  case (asr_lends s p r p')
  have "pool_fine p' (H + mset (r # xs_lent s))" if "pool_fine p (H + mset (xs_lent s))" for H
    using pool_fine_take [OF that asr_lends(2)] by simp
  with asr_lends show ?case by (auto simp: sys_ok_def intro: stream_pool)
next
  case (asr_diagnoses s p r before after native)
  have m: "mset (xs_lent s) = add_mset r (mset (remove1 r (xs_lent s)))" using asr_diagnoses(2) by simp
  have "pool_fine (snd (asr_run_diagnostic before after native (r, p))) (H + mset (remove1 r (xs_lent s)))"
    if "pool_fine p (H + mset (xs_lent s))" for H
    using that by (intro diagnostic_fine) (simp only: m union_mset_add_mset_right)
  with asr_diagnoses show ?case by (auto simp: sys_ok_def intro: stream_pool)
qed (simp_all add: sys_ok_def asr_send_def asr_begin_def stream)

interpretation asr: step_system stream_init asr_step sys_ok
  by unfold_locales (auto intro: sys_init asr_keeps)

lemma vad_open_keeps:
  "stream_ok views out lent w \<Longrightarrow> v \<in> set views \<Longrightarrow> stream_ok views out lent (snd (vad_open v i spawns w))"
  by (auto simp: vad_open_def intro: stream_class_open split: option.split)

lemma vad_diagnostic_keeps: "stream_ok views out lent w \<Longrightarrow> stream_ok views out lent (snd (vad_open_diagnostic i spawns w))"
  unfolding vad_open_diagnostic_def by (rule stream_open) (simp_all add: stream_ok_def arcs_ok_def permit_mset_def)

lemma vad_recv_keeps: "stream_ok views out lent w \<Longrightarrow> stream_ok views out lent (snd (vad_try_recv w))"
  using stream_take_event [of views out lent w None]
  by (auto simp: vad_try_recv_def intro!: stream split: prod.split option.split)

lemma vad_score_keeps [stream]:
  "stream_ok views out lent w \<Longrightarrow> stream_ok views out lent (snd (vad_score_frames native l i cycle q inputs w))"
proof (induction inputs arbitrary: w)
  case (Cons input inputs)
  show ?case
    unfolding vad_score_frames.simps Let_def
    by (rule stream_case_snd [OF stream_on_session [OF keeps_fine_ops(1) Cons.prems]])
      (auto intro!: stream stream_case_snd Cons.IH split: option.split bool.split)
qed simp

lemma stream_local: "stream_ok views out lent w \<Longrightarrow> stream_ok views out lent (update_job l (\<lambda>j. j\<lparr>sj_local := f j\<rparr>) w)"
  by (rule stream_update_job) (auto dest: streamD(4))

lemma vad_receive_keeps [stream]:
  assumes "stream_ok views out lent w"
  shows "stream_ok views out lent (vad_receive native l w)"
proof (cases "hm_get (sw_jobs w) l")
  case (Some j)
  show ?thesis
    unfolding vad_receive_def Some option.case Let_def
    by (rule stream_case_pair [OF stream_next_command [OF assms]])
      (auto intro!: stream stream_case_pair stream_local split: option.split vad_worker_command.split bool.split vad_push_end.split)
qed (simp add: vad_receive_def assms)

lemma vad_keeps: "sys_ok s \<Longrightarrow> vad_step s t \<Longrightarrow> sys_ok t"
proof (rotate_tac, induction rule: vad_step.induct)
  case (vad_plumbing s t)
  then show ?case by (rule plumbing_keeps)
next
  case (vad_opens v s i spawns)
  then show ?case by (simp add: sys_ok_def vad_open_keeps)
next
  case (vad_supervises s now)
  then show ?case by (simp add: sys_ok_def vad_supervise_def vad_runtime.supervise_keeps)
qed (simp_all add: sys_ok_def vad_send_def vad_begin_def vad_quarantine_diagnostic_def vad_recv_keeps vad_diagnostic_keeps stream)

interpretation vad: step_system stream_init vad_step sys_ok
  by unfold_locales (auto intro: sys_init vad_keeps)

section \<open>Capacity\<close>

text \<open>
  The permits of a runtime: those that a slot or a thread of a lease holds, and those of others. Of these, the
  counters of every admission state count exactly the ones on it, and never more than its slots.
\<close>

definition live_permits :: "('c, 'e, 'x) stream_sys \<Rightarrow> capacity_permit list" where
  "live_permits s = hm_values (sw_arcs (xs_workers s)) @ xs_outside s"

definition capacity_accounted :: "('c, 'e, 'x) stream_sys \<Rightarrow> bool" where
  "capacity_accounted s \<longleftrightarrow>
     length (sw_slots (xs_workers s)) \<le> wc_max_workers (sw_config (xs_workers s)) \<and>
     (\<forall>l. hm_contains (sw_arcs (xs_workers s)) l \<longrightarrow> arc_held l (xs_workers s)) \<and>
     (\<forall>i<length (sw_store (xs_workers s)). let st = sw_store (xs_workers s) ! i in
        voice_work st = voice_permits i (live_permits s) \<and> diagnostic_work st = other_permits i (live_permits s) \<and>
        adm_used st \<le> total_slots st)"

lemma length_filter_mset: "mset xs = mset ys \<Longrightarrow> length (filter P xs) = length (filter P ys)"
proof -
  assume "mset xs = mset ys"
  then have "mset (filter P xs) = mset (filter P ys)" by (simp only: mset_filter)
  then show ?thesis by (rule mset_eq_length)
qed

lemma permits_mset: "mset xs = mset ys \<Longrightarrow> voice_permits i xs = voice_permits i ys \<and> other_permits i xs = other_permits i ys"
  unfolding voice_permits_def other_permits_def by (intro conjI; erule length_filter_mset)

lemma hm_mset_single: "hm_mset (\<lambda>c. {#c#}) m = mset (hm_values m)"
  by (induction m) (auto simp: hm_values_def)

lemma ok_accounted: "sys_ok s \<Longrightarrow> capacity_accounted s"
proof -
  assume ok: "sys_ok s"
  then obtain live where live: "mset live = mset (live_permits s)"
      and inv: "adm_inv \<lparr>sys_store = sw_store (xs_workers s), sys_views = xs_views s, sys_live = live\<rparr>"
    by (auto simp: sys_ok_def stream_ok_def arcs_ok_def adm_ok_def hm_mset_single live_permits_def)
  from ok have "length (sw_slots (xs_workers s)) \<le> wc_max_workers (sw_config (xs_workers s))"
      "\<forall>l. hm_contains (sw_arcs (xs_workers s)) l \<longrightarrow> arc_held l (xs_workers s)"
    by (simp_all add: sys_ok_def stream_ok_def tables_but_def)
  with inv permits_mset [OF live] show ?thesis
    by (auto simp: capacity_accounted_def adm_inv_def adm_state_ok_def Let_def)
qed

text \<open>
  C19: the capacity of the recognition runtimes is accounted for. In every reachable state of the speech recognizer
  and of the voice activity detector there are at most as many slots as workers, a permit is held exactly as long
  as its slot is in the table or its thread has not let go of it, and every admission state counts exactly the
  permits that are alive and never more than its slots, whatever ends in time, late, in quarantine or in a panic.
\<close>

theorem recognition_capacity_accounted:
  fixes a :: "'f asr_sys" and d :: "'f vad_sys"
  assumes "reach stream_init asr_step a" and "reach stream_init vad_step d"
  shows "capacity_accounted a \<and> capacity_accounted d"
  using asr.reach_inv [OF assms(1)] vad.reach_inv [OF assms(2)] by (simp add: ok_accounted)

text \<open>A small pool: two workers, a session each, and one admission state for them.\<close>

definition small_config :: worker_config where
  "small_config = \<lparr>wc_max_workers = 2, wc_voice_reserved = 1, wc_command_capacity = 4, wc_final_timeout = 10, wc_cleanup_grace = 5\<rparr>"

definition small_store :: adm_store where
  "small_store = [\<lparr>total_slots = 2, reserved_voice = 1, voice_work = 0, diagnostic_work = 0, idle_epoch = 0\<rparr>]"

definition small_pool :: session_pool where
  "small_pool = \<lparr>sp_idle = [\<lparr>ns_id = 0, ns_warm = True, ns_clean = True\<rparr>, \<lparr>ns_id = 1, ns_warm = True, ns_clean = True\<rparr>], sp_healthy = True\<rparr>"

definition small_sys :: "('c, 'e, 'x) stream_sys" where
  "small_sys = \<lparr>xs_workers = stream_workers_new small_config (Some small_pool) small_store, xs_views = [[0]],
     xs_outside = [], xs_lent = []\<rparr>"

lemma small_init: "stream_init (small_sys :: ('c, 'e, 'x) stream_sys)"
proof -
  let ?s = "\<lparr>sys_store = [], sys_views = [], sys_live = []\<rparr>"
  have "reach adm_sys_init adm_step ?s" by (rule reach_init) (simp add: adm_sys_init_def)
  then have "reach adm_sys_init adm_step (?s\<lparr>sys_store := small_store, sys_views := [0] # sys_views ?s\<rparr>)"
    by (rule reach_step) (rule adm_create [where n = 2 and r = 1], simp add: admission_new_def small_store_def)
  moreover have "pool_initialize [\<lparr>st_opened = True, st_warmed = True, st_was_reset = True\<rparr>, \<lparr>st_opened = True, st_warmed = True, st_was_reset = True\<rparr>]
      = Some small_pool"
    by (simp add: pool_initialize_def session_warm_start_def session_open_def session_warm_def session_reset_def small_pool_def)
  then have "stream_workers_try_new small_config [\<lparr>st_opened = True, st_warmed = True, st_was_reset = True\<rparr>,
      \<lparr>st_opened = True, st_warmed = True, st_was_reset = True\<rparr>] small_store = Inr (xs_workers (small_sys :: ('c, 'e, 'x) stream_sys))"
    by (simp add: stream_workers_try_new_def config_valid_def small_config_def small_sys_def)
  moreover have "config_valid small_config" by (simp add: config_valid_def small_config_def)
  ultimately show ?thesis
    unfolding stream_init_def
    by (intro exI [of _ "\<lparr>sys_store = small_store, sys_views = [[0]], sys_live = []\<rparr>"] exI [of _ small_config]
        exI [of _ "[\<lparr>st_opened = True, st_warmed = True, st_was_reset = True\<rparr>, \<lparr>st_opened = True, st_warmed = True, st_was_reset = True\<rparr>]"])
      (simp add: small_sys_def)
qed

definition someone :: worker_identity where
  "someone = \<lparr>wi_session = [1], wi_generation = 0, wi_stream = 1\<rparr>"

text \<open>One stream opened on it.\<close>

definition busy_asr :: "int asr_sys" where
  "busy_asr = in_workers (\<lambda>w. snd (asr_open [0] someone True w)) small_sys"

definition busy_vad :: "int vad_sys" where
  "busy_vad = in_workers (\<lambda>w. snd (vad_open [0] someone True w)) small_sys"

lemma busy_reachable: "reach stream_init asr_step busy_asr" "reach stream_init vad_step busy_vad"
  unfolding busy_asr_def busy_vad_def
  by (rule reach_step, rule reach_init, rule small_init, rule asr_opens vad_opens, simp add: small_sys_def)+

lemma busy_permits: "length (live_permits busy_asr) = 1" "length (live_permits busy_vad) = 1"
  by code_simp+

lemma recognition_capacity_accounted_witness:
  "capacity_accounted busy_asr \<and> capacity_accounted busy_vad \<and> length (live_permits busy_asr) = 1"
  using recognition_capacity_accounted [OF busy_reachable] busy_permits by simp

section \<open>Sessions\<close>

lemma opened_session:
  assumes "open_stream i c background q local spawns w = (Inr l, w')" and "sw_pool w = Some p" and "hm_wf (sw_jobs w)"
  shows "\<exists>r p' j. pool_take p = Some (r, p') \<and> hm_get (sw_jobs w') l = Some j \<and> sj_retained j = Some r \<and> sw_pool w' = Some p'"
  using assms
  by (auto simp: open_stream_def Let_def keyed_simps split: if_splits prod.splits bool.splits option.splits)

lemma exclusive_session:
  assumes fine: "pool_fine p (hm_mset job_sessions m + mset lent)" and wf: "hm_wf m"
    and j: "hm_get m l = Some j" "sj_retained j = Some r"
  shows "(\<forall>k j' r'. hm_get m k = Some j' \<and> sj_retained j' = Some r' \<and> ns_id (rt_session r') = ns_id (rt_session r) \<longrightarrow> k = l) \<and>
    ns_id (rt_session r) \<notin> ns_id ` set (sp_idle p) \<and> ns_id (rt_session r) \<notin> (\<lambda>r. ns_id (rt_session r)) ` set lent"
proof -
  let ?n = "ns_id (rt_session r)" and ?id = "\<lambda>r. ns_id (rt_session r)"
  have m: "hm_mset job_sessions m = {#r#} + hm_mset job_sessions (hm_remove l m)"
    using hm_mset_remove [OF wf j(1), of job_sessions] j(2) by (simp add: job_sessions_def)
  have "count (session_ids p (hm_mset job_sessions m + mset lent)) ?n \<le> 1" using fine by (simp add: pool_fine_def)
  then have "count (mset (map ns_id (sp_idle p))) ?n = 0 \<and> count (image_mset ?id (hm_mset job_sessions (hm_remove l m))) ?n = 0 \<and>
      count (image_mset ?id (mset lent)) ?n = 0"
    unfolding session_ids_def m by (simp del: mset_map)
  then have none: "?n \<notin># mset (map ns_id (sp_idle p))" "?n \<notin># image_mset ?id (hm_mset job_sessions (hm_remove l m))"
      "?n \<notin># image_mset ?id (mset lent)"
    by (simp_all only: not_in_iff)
  have "k = l" if k: "hm_get m k = Some j'" "sj_retained j' = Some r'" "?id r' = ?n" for k j' r'
  proof (rule ccontr)
    assume "k \<noteq> l"
    then have "hm_get (hm_remove l m) k = Some j'" using k(1) by (simp add: keyed_simps)
    from hm_mset_remove [OF hm_wf_remove [OF wf] this, of job_sessions] k(2,3) none(2)
    show False by (simp add: job_sessions_def)
  qed
  moreover from none(1,3) have "?n \<notin> ns_id ` set (sp_idle p)" "?n \<notin> ?id ` set lent" by auto
  ultimately show ?thesis by blast
qed

text \<open>
  What a stream that has just been opened under the lease \<open>l\<close> finds: a warmed session, clean since its last reset,
  that no other stream, no diagnostic (\<open>lent\<close>) and no slot of the pool holds; and none of the sessions that are
  lent to streams has failed a call so far.
\<close>

definition session_of_its_own :: "nat \<Rightarrow> ('c, 'e, 'x) stream_workers \<Rightarrow> retained list \<Rightarrow> bool" where
  "session_of_its_own l w lent \<longleftrightarrow>
     (\<exists>p j r. sw_pool w = Some p \<and> hm_get (sw_jobs w) l = Some j \<and> sj_retained j = Some r \<and>
        ns_warm (rt_session r) \<and> ns_clean (rt_session r) \<and>
        (\<forall>k j' r'. hm_get (sw_jobs w) k = Some j' \<and> sj_retained j' = Some r' \<longrightarrow>
           rt_reusable r' \<and> (ns_id (rt_session r') = ns_id (rt_session r) \<longrightarrow> k = l)) \<and>
        ns_id (rt_session r) \<notin> ns_id ` set (sp_idle p) \<and> ns_id (rt_session r) \<notin> (\<lambda>r. ns_id (rt_session r)) ` set lent)"

lemma opened_of_its_own:
  assumes before: "stream_ok views out lent w0" and after: "stream_ok views' out' lent w"
    and opened: "open_stream i c background q local spawns w1 = (Inr l, w)"
    and w1: "sw_pool w1 = sw_pool w0" "sw_jobs w1 = sw_jobs w0" and pool: "sw_pool w0 \<noteq> None"
  shows "session_of_its_own l w lent"
proof -
  from pool obtain p where p: "sw_pool w0 = Some p" by auto
  from opened_session [OF opened] p w1 streamD(1) [OF before] obtain r p' j
    where r: "pool_take p = Some (r, p')" and j: "hm_get (sw_jobs w) l = Some j" "sj_retained j = Some r" and p': "sw_pool w = Some p'"
    by auto
  from before p have "list_all session_ready (sp_idle p)" by (auto simp: stream_ok_def sessions_ok_def pool_fine_def)
  with r have ready: "ns_warm (rt_session r)" "ns_clean (rt_session r)" and healthy: "sp_healthy p'"
    by (auto simp: pool_take_def list_all_iff session_ready_def split: if_splits)
  from after p' have fine: "pool_fine p' (hm_mset job_sessions (sw_jobs w) + mset lent)"
    by (simp add: stream_ok_def sessions_ok_def)
  have "rt_reusable r'" if k: "hm_get (sw_jobs w) k = Some j'" "sj_retained j' = Some r'" for k j' r'
    using fine healthy hm_mset_remove [OF streamD(1) [OF after] k(1), of job_sessions] k(2)
    by (auto simp: pool_fine_def job_sessions_def retained_fine_def)
  with exclusive_session [OF fine streamD(1) [OF after] j] ready p' j show ?thesis
    unfolding session_of_its_own_def by blast
qed

lemma asr_class_of_its_own:
  assumes "stream_ok views out lent w0" and "stream_ok views out lent w"
    and "asr_open_class v i class q spawns w1 = (Inr l, w)" and "sw_pool w1 = sw_pool w0" and "sw_jobs w1 = sw_jobs w0"
    and "sw_pool w0 \<noteq> None"
  shows "session_of_its_own l w lent"
  using assms(3-6) by (auto simp: asr_open_class_def split: option.splits intro: opened_of_its_own [OF assms(1,2)])

text \<open>
  C20: a recognition stream starts on a native session of its own that was warmed and has been reset after its last
  use. In every reachable state of the speech recognizer and of the detector whose sessions come from a pool, whatever
  happened to earlier streams and diagnostics, a stream that is opened (for a voice session, in the background, or for
  a diagnostic of the detector) is the only holder of its session; that session answered its warm-up acceptably and
  has seen no audio since its last successful reset; and while a session that failed a call is still lent, none opens.
\<close>

theorem stream_starts_clean:
  fixes a :: "'f asr_sys" and d :: "'f vad_sys"
  assumes "reach stream_init asr_step a" and "reach stream_init vad_step d"
    and "sw_pool (xs_workers a) \<noteq> None" and "sw_pool (xs_workers d) \<noteq> None"
    and "v \<in> set (xs_views a)" and "u \<in> set (xs_views d)"
  shows "(asr_open v i spawns (xs_workers a) = (Inr l, w) \<or> asr_open_background v i spawns (xs_workers a) = (Inr l, w) \<longrightarrow>
      session_of_its_own l w (xs_lent a)) \<and>
    (vad_open u i spawns (xs_workers d) = (Inr l, w') \<or> vad_open_diagnostic i spawns (xs_workers d) = (Inr l, w') \<longrightarrow>
      session_of_its_own l w' (xs_lent d))"
proof (intro conjI impI; elim disjE)
  from asr.reach_inv [OF assms(1)] have ok: "stream_ok (xs_views a) (mset (xs_outside a)) (xs_lent a) (xs_workers a)"
    by (simp add: sys_ok_def)
  show "session_of_its_own l w (xs_lent a)" if o: "asr_open v i spawns (xs_workers a) = (Inr l, w)"
    using asr_class_of_its_own [OF ok _ o [unfolded asr_open_def] refl refl assms(3)]
      asr_open_class_keeps [OF ok assms(5), of i Voice None spawns] o by (simp add: asr_open_def)
  show "session_of_its_own l w (xs_lent a)" if o: "asr_open_background v i spawns (xs_workers a) = (Inr l, w)"
  proof -
    from o obtain q qs where "asr_open_class v i Background q spawns ((xs_workers a)\<lparr>sw_queues := qs\<rparr>) = (Inr l, w)"
      by (auto simp: asr_open_background_def Let_def split: prod.splits sum.splits)
    from asr_class_of_its_own [OF ok _ this _ _ assms(3)] asr_background_keeps [OF ok assms(5), of i spawns] o
    show ?thesis by simp
  qed
next
  from vad.reach_inv [OF assms(2)] have ok: "stream_ok (xs_views d) (mset (xs_outside d)) (xs_lent d) (xs_workers d)"
    by (simp add: sys_ok_def)
  show "session_of_its_own l w' (xs_lent d)" if o: "vad_open u i spawns (xs_workers d) = (Inr l, w')"
  proof -
    from o obtain c st where
        "open_stream i (Some c) False None rechunker_new spawns ((xs_workers d)\<lparr>sw_store := st\<rparr>) = (Inr l, w')"
      by (auto simp: vad_open_def split: option.splits)
    from opened_of_its_own [OF ok _ this _ _ assms(4)] vad_open_keeps [OF ok assms(6), of i spawns] o
    show ?thesis by simp
  qed
  show "session_of_its_own l w' (xs_lent d)" if o: "vad_open_diagnostic i spawns (xs_workers d) = (Inr l, w')"
    using opened_of_its_own [OF ok _ o [unfolded vad_open_diagnostic_def] refl refl assms(4)] vad_diagnostic_keeps [OF ok, of i spawns] o
    by simp
qed

lemma stream_starts_clean_witness:
  "session_of_its_own 1 (xs_workers busy_asr) [] \<and> session_of_its_own 1 (xs_workers busy_vad) []"
proof -
  have "fst (asr_open [0] someone True (xs_workers (small_sys :: int asr_sys))) = Inr 1"
    and "fst (vad_open [0] someone True (xs_workers (small_sys :: int vad_sys))) = Inr 1" by code_simp+
  then have opened: "asr_open [0] someone True (xs_workers small_sys) = (Inr 1, xs_workers busy_asr)"
      "vad_open [0] someone True (xs_workers small_sys) = (Inr 1, xs_workers busy_vad)"
    by (simp_all add: busy_asr_def busy_vad_def prod_eq_iff)
  have r: "reach stream_init asr_step (small_sys :: int asr_sys)" "reach stream_init vad_step (small_sys :: int vad_sys)"
    by (rule reach_init, rule small_init)+
  from stream_starts_clean [OF r, of "[0]" "[0]" someone True 1] opened show ?thesis
    by (simp add: small_sys_def stream_workers_new_def)
qed

section \<open>The frames of the detector\<close>

text \<open>Pushing one frame of the transport after the other.\<close>

fun rechunk_all :: "'f pcm_f32 list \<Rightarrow> 'f vad_rechunker \<Rightarrow> ('f vad_input list \<times> 'f vad_rechunker) option" where
  "rechunk_all [] r = Some ([], r)"
| "rechunk_all (pcm # rest) r =
     Option.bind (rechunker_push pcm r) (\<lambda>(inputs, r').
     Option.bind (rechunk_all rest r') (\<lambda>(more, r''). Some (inputs @ more, r'')))"

text \<open>The reference: the audio from sample \<open>start\<close> on, cut into whole frames.\<close>

definition frames_of :: "'f list \<Rightarrow> u64 \<Rightarrow> 'f vad_input list" where
  "frames_of xs start =
     map (\<lambda>k. \<lparr>vi_pcm = take 512 (drop (512 * k) xs), vi_start = start + 512 * k\<rparr>) [0..<length xs div 512]"

definition rest_of :: "'f list \<Rightarrow> u64 \<Rightarrow> 'f vad_rechunker" where
  "rest_of xs start = \<lparr>rk_pending = drop (512 * (length xs div 512)) xs, rk_next = start + 512 * (length xs div 512)\<rparr>"

lemma frames_of_step:
  assumes "512 \<le> length xs"
  shows "frames_of xs start = \<lparr>vi_pcm = take 512 xs, vi_start = start\<rparr> # frames_of (drop 512 xs) (start + 512)"
    and "rest_of xs start = rest_of (drop 512 xs) (start + 512)"
proof -
  have n: "length xs div 512 = Suc ((length xs - 512) div 512)" using assms by (simp add: le_div_geq)
  show "frames_of xs start = \<lparr>vi_pcm = take 512 xs, vi_start = start\<rparr> # frames_of (drop 512 xs) (start + 512)"
    unfolding frames_of_def n
    by (simp add: map_upt_Suc n algebra_simps del: upt_Suc)
  show "rest_of xs start = rest_of (drop 512 xs) (start + 512)"
    unfolding rest_of_def n by (simp add: algebra_simps)
qed

lemma take_frames_reference: "take_frames xs start = (frames_of xs start, rest_of xs start)"
proof (induction xs start rule: take_frames.induct)
  case (1 xs start)
  show ?case
  proof (cases "length xs < 512")
    case True
    then show ?thesis by (subst take_frames.simps) (simp add: VAD_FRAME_SAMPLES_def frames_of_def rest_of_def)
  next
    case False
    with 1 frames_of_step [of xs start] show ?thesis
      by (subst take_frames.simps) (simp add: VAD_FRAME_SAMPLES_def)
  qed
qed

lemma rest_again:
  "frames_of (xs @ ys) start = frames_of xs start @ frames_of (rk_pending (rest_of xs start) @ ys) (rk_next (rest_of xs start)) \<and>
   rest_of (xs @ ys) start = rest_of (rk_pending (rest_of xs start) @ ys) (rk_next (rest_of xs start))"
proof (induction xs start rule: take_frames.induct)
  case (1 xs start)
  show ?case
  proof (cases "length xs < 512")
    case True
    then show ?thesis by (simp add: frames_of_def rest_of_def)
  next
    case False
    with 1 frames_of_step [of xs start] frames_of_step [of "xs @ ys" start] show ?thesis
      by (simp add: VAD_FRAME_SAMPLES_def)
  qed
qed

text \<open>
  C21: the detector sees the audio of a stream exactly once, in order, in frames of 512 consecutive samples that
  carry the number of their first sample, however the frames of 960 samples of the transport fall; what is left
  over after the last whole frame waits for more. A frame of another size or rate is refused.
\<close>

theorem detector_frames_exact:
  assumes "rechunk_all pushes rechunker_new = Some (inputs, r)"
  shows "inputs = frames_of (concat (map pf_samples pushes)) 0 \<and>
    rk_pending r = drop (512 * length inputs) (concat (map pf_samples pushes)) \<and> rk_next r = 512 * length inputs \<and>
    length inputs = 960 * length pushes div 512 \<and>
    list_all (\<lambda>p. pf_rate p = 16000 \<and> length (pf_samples p) = 960) pushes"
proof -
  have gen: "rechunk_all ps (rest_of xs 0) = Some (ins, r') \<Longrightarrow>
      frames_of xs 0 @ ins = frames_of (xs @ concat (map pf_samples ps)) 0 \<and> r' = rest_of (xs @ concat (map pf_samples ps)) 0 \<and>
      list_all (\<lambda>p. pf_rate p = 16000 \<and> length (pf_samples p) = 960) ps" for ps xs ins r'
  proof (induction ps arbitrary: xs ins r')
    case (Cons p ps)
    let ?f = "frames_of (rk_pending (rest_of xs 0) @ pf_samples p) (rk_next (rest_of xs 0))"
    from Cons.prems obtain more where m: "rechunk_all ps (rest_of (xs @ pf_samples p) 0) = Some (more, r')" "ins = ?f @ more"
        and ok: "pf_rate p = 16000" "length (pf_samples p) = 960"
      using rest_again [of xs "pf_samples p" 0]
      by (auto simp: rechunker_push_def take_frames_reference bind_eq_Some_conv split: if_splits)
    from Cons.IH [OF m(1)] m(2) ok rest_again [of xs "pf_samples p" 0] show ?case by simp
  qed simp
  have "rechunker_new = (rest_of [] 0 :: 'a vad_rechunker)" by (simp add: rechunker_new_def rest_of_def)
  with assms gen [of pushes "[]" inputs r]
  have g: "inputs = frames_of (concat (map pf_samples pushes)) 0" "r = rest_of (concat (map pf_samples pushes)) 0"
      "list_all (\<lambda>p. pf_rate p = 16000 \<and> length (pf_samples p) = 960) pushes"
    by (simp_all add: frames_of_def)
  moreover from g(3) have "length (concat (map pf_samples pushes)) = 960 * length pushes"
    by (induction pushes) auto
  moreover have "length inputs = length (concat (map pf_samples pushes)) div 512" by (simp add: g(1) frames_of_def)
  ultimately show ?thesis by (simp add: rest_of_def)
qed

lemma detector_frames_exact_witness:
  "\<exists>inputs r. rechunk_all (replicate 2 \<lparr>pf_samples = replicate 960 (0::int), pf_rate = 16000\<rparr>) rechunker_new = Some (inputs, r) \<and>
     length inputs = 3 \<and> rk_next r = 1536"
proof -
  let ?p = "\<lparr>pf_samples = replicate 960 (0::int), pf_rate = 16000\<rparr>"
  have "\<exists>x. rechunk_all [?p, ?p] rechunker_new = Some x" by (simp add: rechunker_push_def split: prod.split)
  then obtain inputs r where x: "rechunk_all [?p, ?p] rechunker_new = Some (inputs, r)" by auto
  from detector_frames_exact [OF this] have n: "length inputs = 960 * length [?p, ?p] div 512" "rk_next r = 512 * length inputs" by blast+
  then have "length inputs = 3" "rk_next r = 1536" by simp_all
  with x show ?thesis by (intro exI [of _ inputs] exI [of _ r]) (simp add: numeral_2_eq_2 del: rechunk_all.simps)
qed

section \<open>Deadlines\<close>

text \<open>
  C22: one pass of the supervisor settles everything that is due, in the recognizer and in the detector. The events
  that were queued have been observed and handed out. Then each slot of a voice stream that is past its deadline is
  quarantined and its timeout, final or cleanup as its state says, is routed to its session, each once and in the
  order of the table; every other slot is as it was. Background streams are not the supervisor's: their cleanup
  quarantines them itself, so \<open>overdue\<close> leaves them out as the code does.
\<close>

theorem supervisor_leaves_nothing_overdue:
  fixes a :: "'f asr_sys" and d :: "'f vad_sys"
  assumes "reach stream_init asr_step a" and "reach stream_init vad_step d"
  shows "(let w = xs_workers a; w1 = drain_queue asr_dispatch (queue_length None w) w; w2 = asr_supervise now w
    in queue_length None w2 = 0 \<and> sw_routes w2 = sw_routes (route_timeouts asr_timed_out (filter (\<lambda>(l, sl). overdue now sl) (sw_slots w1)) w1) \<and>
      (\<forall>l. hm_get (sw_slots w2) l =
         map_option (\<lambda>sl. if overdue now sl then sl\<lparr>ss_state := StreamQuarantined\<rparr> else sl) (hm_get (sw_slots w1) l))) \<and>
    (let w = xs_workers d; w1 = drain_queue vad_dispatch (queue_length None w) w; w2 = vad_supervise now w
    in queue_length None w2 = 0 \<and> sw_routes w2 = sw_routes (route_timeouts vad_timed_out (filter (\<lambda>(l, sl). overdue now sl) (sw_slots w1)) w1) \<and>
      (\<forall>l. hm_get (sw_slots w2) l =
         map_option (\<lambda>sl. if overdue now sl then sl\<lparr>ss_state := StreamQuarantined\<rparr> else sl) (hm_get (sw_slots w1) l)))"
  using asr.reach_inv [OF assms(1)] vad.reach_inv [OF assms(2)]
    asr_runtime.supervise_queue [of now "xs_workers a"] vad_runtime.supervise_queue [of now "xs_workers d"]
  by (auto simp: sys_ok_def asr_supervise_def vad_supervise_def Let_def asr_runtime.supervise_exact vad_runtime.supervise_exact
      quarantine_get route_timeouts_routes)

text \<open>A stream that was told to finish and does not: at its deadline.\<close>

definition late_asr :: "int asr_sys" where
  "late_asr = in_workers (\<lambda>w. snd (asr_send 0 1 AsrFinish w)) (in_workers (stream_register [1]) busy_asr)"

lemma late_reachable: "reach stream_init asr_step late_asr"
  unfolding late_asr_def
  by (rule reach_step, rule reach_step, rule busy_reachable, rule asr_plumbing, rule pl_register, rule asr_sends)

lemma supervisor_leaves_nothing_overdue_witness:
  "map_option ss_state (hm_get (sw_slots (asr_supervise 10 (xs_workers late_asr))) 1) = Some StreamQuarantined \<and>
   hm_get (sw_routes (asr_supervise 10 (xs_workers late_asr))) [1] = Some [AsrFinalTimedOut someone]"
proof -
  have w1: "drain_queue asr_dispatch (queue_length None (xs_workers late_asr)) (xs_workers late_asr) = xs_workers late_asr"
    by code_simp
  have "hm_get (sw_slots (xs_workers late_asr)) 1 = Some \<lparr>ss_identity = someone, ss_state = StreamWaiting 10, ss_background = False\<rparr>"
    and "hm_get (sw_routes (route_timeouts asr_timed_out
           (filter (\<lambda>(l, sl). overdue 10 sl) (sw_slots (xs_workers late_asr))) (xs_workers late_asr))) [1] = Some [AsrFinalTimedOut someone]"
    by code_simp+
  with supervisor_leaves_nothing_overdue [OF late_reachable busy_reachable(2), of 10] w1
  show ?thesis by (simp add: Let_def overdue_def)
qed

end
