(* ===== verification/Llm_Theorems.thy ===== *)
theory Llm_Theorems
  imports Llm_Runtime Recognition_Theorems
begin

text \<open>
  What the model runtime guarantees to the sessions, whatever the interleaving of their requests, cancellations,
  mailboxes and the provider: each operation delivers its deltas and then one end, its capacity is back before its
  end can be seen, and a runtime that acknowledged its shutdown runs nothing any more.
\<close>

section \<open>The runtime as a step system\<close>

text \<open>
  The runtime, the admission views that exist, the permits no task owns (invocations, diagnostics, other users of
  a quota) and the identities operations were started with. A session never uses an identity twice
  (theorem \<open>operations_never_reused\<close> of its own system).
\<close>

record llm_sys =
  ls_runtime :: llm_runtime
  ls_views :: "admission list"
  ls_outside :: "capacity_permit list"
  ls_started :: "worker_identity list"

definition llm_init :: "llm_sys \<Rightarrow> bool" where
  "llm_init s \<longleftrightarrow>
     (\<exists>a. reach adm_sys_init adm_step a \<and> ls_runtime s = llm_with_admission (sys_store a) \<and> ls_views s = sys_views a \<and>
        ls_outside s = sys_live a \<and> ls_started s = [])"

abbreviation in_llm :: "(llm_runtime \<Rightarrow> llm_runtime) \<Rightarrow> llm_sys \<Rightarrow> llm_sys" where
  "in_llm f s \<equiv> s\<lparr>ls_runtime := f (ls_runtime s)\<rparr>"

inductive llm_step :: "llm_sys \<Rightarrow> llm_sys \<Rightarrow> bool" where
  ll_view: "q \<in> set (ls_views s) \<Longrightarrow> v \<in> set (ls_views s) \<Longrightarrow> llm_step s (s\<lparr>ls_views := composed q v # ls_views s\<rparr>)"
| ll_admit: "v \<in> set (ls_views s) \<Longrightarrow> try_admit (lr_store (ls_runtime s)) v class = Some (st, c) \<Longrightarrow>
     llm_step s (s\<lparr>ls_runtime := (ls_runtime s)\<lparr>lr_store := st\<rparr>, ls_outside := c # ls_outside s\<rparr>)"
| ll_diagnostic: "v \<in> set (ls_views s) \<Longrightarrow> llm_admit_diagnostic v (ls_runtime s) = Some (c, rt) \<Longrightarrow>
     llm_step s (s\<lparr>ls_runtime := rt, ls_outside := c # ls_outside s\<rparr>)"
| ll_invoke: "v \<in> set (ls_views s) \<Longrightarrow> llm_invoke_begin v supported tag (ls_runtime s) = (Inr c, rt) \<Longrightarrow>
     llm_step s (s\<lparr>ls_runtime := rt, ls_outside := c # ls_outside s\<rparr>)"
| ll_drop: "c \<in> set (ls_outside s) \<Longrightarrow>
     llm_step s (s\<lparr>ls_runtime := llm_drop_permit c (ls_runtime s), ls_outside := remove1 c (ls_outside s)\<rparr>)"
| ll_register: "llm_step s (in_llm (\<lambda>rt. snd (llm_register session capacity rt)) s)"
| ll_unregister: "llm_step s (in_llm (llm_unregister session) s)"
| ll_start: "v \<in> set (ls_views s) \<Longrightarrow> i \<notin> set (ls_started s) \<Longrightarrow>
     llm_step s (s\<lparr>ls_runtime := snd (llm_start v in_tokio i token (ls_runtime s)), ls_started := i # ls_started s\<rparr>)"
| ll_cancel: "llm_step s (in_llm (llm_cancel i) s)"
| ll_cancel_token: "llm_step s (in_llm (cancel_llm_token token) s)"
| ll_shutdown: "v \<in> set (ls_views s) \<Longrightarrow> llm_step s (in_llm (\<lambda>rt. snd (llm_shutdown_acknowledged v rt)) s)"
| ll_route: "llm_step s (in_llm (task_route n) s)"
| ll_open: "llm_step s (in_llm (task_open opened_ok n) s)"
| ll_item: "llm_step s (in_llm (task_item item n) s)"
| ll_cancelled: "llm_step s (in_llm (task_cancelled n) s)"
| ll_send: "llm_step s (in_llm (task_send n) s)"
| ll_timeout: "llm_step s (in_llm (task_timeout n) s)"
| ll_deliver: "llm_step s (in_llm (task_deliver n) s)"
| ll_take: "r < length (lr_mailboxes (ls_runtime s)) \<Longrightarrow> llm_step s (in_llm (\<lambda>rt. snd (mailbox_take r rt)) s)"
| ll_close: "r < length (lr_mailboxes (ls_runtime s)) \<Longrightarrow> llm_step s (in_llm (mailbox_close r) s)"

section \<open>The invariant\<close>

lemma hm_remove_adjust: "hm_remove k (hm_adjust k f m) = hm_remove k m"
  by (induction m) (auto simp: hm_remove_Cons hm_adjust_Cons hm_remove_def hm_retain_def hm_adjust_def hm_adjust_where_def)

fun running :: "task_phase \<Rightarrow> bool" where
  "running (TaskEnding _ _) = False"
| "running _ = True"

fun phase_ok :: "worker_identity \<Rightarrow> nat \<Rightarrow> task_phase \<Rightarrow> bool" where
  "phase_ok i k TaskSpawned = True"
| "phase_ok i k (TaskOpening r) = (r < k)"
| "phase_ok i k (TaskStreaming r) = (r < k)"
| "phase_ok i k (TaskSending r e) = (r < k \<and> event_identity e = i \<and> \<not> ends_operation e)"
| "phase_ok i k (TaskEnding r e) = (r < k \<and> event_identity e = i \<and> ends_operation e)"

definition task_permit :: "llm_task \<Rightarrow> capacity_permit multiset" where
  "task_permit t = (if running (lt_phase t) then {#lt_permit t#} else {#})"

definition has_task :: "llm_runtime \<Rightarrow> worker_identity \<Rightarrow> bool" where
  "has_task rt i \<longleftrightarrow> (\<exists>n t. hm_get (lr_tasks rt) n = Some t \<and> lt_identity t = i)"

definition events_of :: "worker_identity \<Rightarrow> llm_mailbox \<Rightarrow> llm_runtime_event list" where
  "events_of i m = filter (\<lambda>e. event_identity e = i) (lm_log m)"

definition mailbox_ok :: "worker_identity list \<Rightarrow> llm_runtime \<Rightarrow> llm_mailbox \<Rightarrow> bool" where
  "mailbox_ok started rt m \<longleftrightarrow>
     (\<forall>i. list_all (\<lambda>e. \<not> ends_operation e) (if has_task rt i then events_of i m else butlast (events_of i m))) \<and>
     list_all (\<lambda>e. event_identity e \<in> set started) (lm_log m)"

definition llm_ok :: "admission list \<Rightarrow> capacity_permit multiset \<Rightarrow> worker_identity list \<Rightarrow> llm_runtime \<Rightarrow> bool" where
  "llm_ok views out started rt \<longleftrightarrow>
     hm_wf (lr_tasks rt) \<and> hm_wf (lr_cancellations rt) \<and>
     (\<forall>n t. hm_get (lr_tasks rt) n = Some t \<longrightarrow>
        n < lr_next rt \<and> lt_identity t \<in> set started \<and> phase_ok (lt_identity t) (length (lr_mailboxes rt)) (lt_phase t)) \<and>
     (\<forall>n t m u. hm_get (lr_tasks rt) n = Some t \<and> hm_get (lr_tasks rt) m = Some u \<and> lt_identity t = lt_identity u \<longrightarrow> n = m) \<and>
     (\<forall>i. hm_contains (lr_cancellations rt) i \<longleftrightarrow>
        (\<exists>n t. hm_get (lr_tasks rt) n = Some t \<and> lt_identity t = i \<and> running (lt_phase t))) \<and>
     (\<forall>s r. hm_get (lr_routes rt) s = Some r \<longrightarrow> r < length (lr_mailboxes rt)) \<and>
     list_all (mailbox_ok started rt) (lr_mailboxes rt) \<and>
     adm_ok (lr_store rt) views (hm_mset task_permit (lr_tasks rt) + out)"

lemma llm_okD:
  assumes "llm_ok views out started rt"
  shows "hm_wf (lr_tasks rt)" "hm_wf (lr_cancellations rt)"
    "hm_get (lr_tasks rt) n = Some t \<Longrightarrow> n < lr_next rt \<and> lt_identity t \<in> set started \<and> phase_ok (lt_identity t) (length (lr_mailboxes rt)) (lt_phase t)"
    "hm_get (lr_tasks rt) n = Some t \<Longrightarrow> hm_get (lr_tasks rt) m = Some u \<Longrightarrow> lt_identity t = lt_identity u \<Longrightarrow> n = m"
    "hm_contains (lr_cancellations rt) i \<longleftrightarrow> (\<exists>n t. hm_get (lr_tasks rt) n = Some t \<and> lt_identity t = i \<and> running (lt_phase t))"
    "hm_get (lr_routes rt) s = Some r \<Longrightarrow> r < length (lr_mailboxes rt)"
    "m' \<in> set (lr_mailboxes rt) \<Longrightarrow> mailbox_ok started rt m'"
    "adm_ok (lr_store rt) views (hm_mset task_permit (lr_tasks rt) + out)"
  using assms unfolding llm_ok_def list_all_iff by blast+

lemma llm_okI:
  assumes "hm_wf (lr_tasks rt)" and "hm_wf (lr_cancellations rt)"
    and "\<And>n t. hm_get (lr_tasks rt) n = Some t \<Longrightarrow>
      n < lr_next rt \<and> lt_identity t \<in> set started \<and> phase_ok (lt_identity t) (length (lr_mailboxes rt)) (lt_phase t)"
    and "\<And>n t m u. hm_get (lr_tasks rt) n = Some t \<Longrightarrow> hm_get (lr_tasks rt) m = Some u \<Longrightarrow> lt_identity t = lt_identity u \<Longrightarrow> n = m"
    and "\<And>i. hm_contains (lr_cancellations rt) i \<longleftrightarrow>
      (\<exists>n t. hm_get (lr_tasks rt) n = Some t \<and> lt_identity t = i \<and> running (lt_phase t))"
    and "\<And>s r. hm_get (lr_routes rt) s = Some r \<Longrightarrow> r < length (lr_mailboxes rt)"
    and "list_all (mailbox_ok started rt) (lr_mailboxes rt)"
    and "adm_ok (lr_store rt) views (hm_mset task_permit (lr_tasks rt) + out)"
  shows "llm_ok views out started rt"
  unfolding llm_ok_def using assms by blast

lemma has_task_tasks: "lr_tasks rt' = lr_tasks rt \<Longrightarrow> has_task rt' i = has_task rt i"
  by (simp add: has_task_def)

lemma has_task_set_phase [simp]: "has_task (set_phase n ph rt) i = has_task rt i"
  by (auto simp: has_task_def set_phase_def keyed_simps split: if_splits) (metis llm_task.select_convs(1) llm_task.surjective llm_task.update_convs(4))+

lemma mailbox_ok_cong: "(\<And>i. has_task rt' i = has_task rt i) \<Longrightarrow> mailbox_ok started rt' m = mailbox_ok started rt m"
  by (simp add: mailbox_ok_def)

lemma mailbox_okI:
  assumes "\<And>i. has_task rt i \<Longrightarrow> list_all (\<lambda>e. \<not> ends_operation e) (events_of i m)"
    and "\<And>i. list_all (\<lambda>e. \<not> ends_operation e) (butlast (events_of i m))"
    and "list_all (\<lambda>e. event_identity e \<in> set started) (lm_log m)"
  shows "mailbox_ok started rt m"
  using assms by (simp add: mailbox_ok_def)

lemma butlast_all: "list_all P xs \<Longrightarrow> list_all P (butlast xs)"
  by (auto simp: list_all_iff dest: in_set_butlastD)

lemma mailbox_okD:
  assumes "mailbox_ok started rt m"
  shows "has_task rt i \<Longrightarrow> list_all (\<lambda>e. \<not> ends_operation e) (events_of i m)"
    and "list_all (\<lambda>e. \<not> ends_operation e) (butlast (events_of i m))"
    and "list_all (\<lambda>e. event_identity e \<in> set started) (lm_log m)"
proof -
  have quiet: "list_all (\<lambda>e. \<not> ends_operation e) (if has_task rt i then events_of i m else butlast (events_of i m))"
    using assms by (simp only: mailbox_ok_def)
  then show "has_task rt i \<Longrightarrow> list_all (\<lambda>e. \<not> ends_operation e) (events_of i m)" by simp
  from quiet show "list_all (\<lambda>e. \<not> ends_operation e) (butlast (events_of i m))"
    by (cases "has_task rt i") (simp_all add: butlast_all)
  show "list_all (\<lambda>e. event_identity e \<in> set started) (lm_log m)" using assms by (simp add: mailbox_ok_def)
qed

text \<open>A task that stays at work.\<close>

lemma ok_set_phase:
  assumes ok: "llm_ok views out started rt" and t: "hm_get (lr_tasks rt) n = Some t"
    and "running (lt_phase t)" and "running ph" and "phase_ok (lt_identity t) (length (lr_mailboxes rt)) ph"
  shows "llm_ok views out started (set_phase n ph rt)"
proof -
  have get: "hm_get (lr_tasks (set_phase n ph rt)) m = (if m = n then Some (t\<lparr>lt_phase := ph\<rparr>) else hm_get (lr_tasks rt) m)" for m
    using t by (simp add: set_phase_def keyed_simps)
  have "hm_mset task_permit (lr_tasks (set_phase n ph rt)) = hm_mset task_permit (lr_tasks rt)"
    unfolding set_phase_def using assms llm_okD(1) [OF ok] by (simp, intro hm_mset_adjust_same) (auto simp: task_permit_def)
  moreover have "list_all (mailbox_ok started (set_phase n ph rt)) (lr_mailboxes rt)"
    using llm_okD(7) [OF ok] by (auto simp: list_all_iff mailbox_ok_def)
  moreover have "hm_contains (lr_cancellations rt) i \<longleftrightarrow>
      (\<exists>m u. hm_get (lr_tasks (set_phase n ph rt)) m = Some u \<and> lt_identity u = i \<and> running (lt_phase u))" for i
    unfolding llm_okD(5) [OF ok] get using assms(3,4) t
    by (auto split: if_splits) (metis llm_task.select_convs(1) llm_task.surjective llm_task.update_convs(4) option.inject)+
  ultimately show ?thesis
    using ok assms(5) t llm_okD(3) [OF ok t] unfolding llm_ok_def get
    by (auto simp: set_phase_def split: if_splits)
qed

text \<open>What a removed or ended task leaves behind.\<close>

lemma has_task_remove:
  assumes "llm_ok views out started rt" and "hm_get (lr_tasks rt) n = Some t"
  shows "has_task (remove_task n rt) i \<longleftrightarrow> has_task rt i \<and> i \<noteq> lt_identity t"
proof -
  have "has_task (remove_task n rt) i \<longleftrightarrow> (\<exists>m u. m \<noteq> n \<and> hm_get (lr_tasks rt) m = Some u \<and> lt_identity u = i)"
    using llm_okD(1) [OF assms(1)] by (auto simp: has_task_def remove_task_def keyed_simps split: if_splits)
  also have "\<dots> \<longleftrightarrow> has_task rt i \<and> i \<noteq> lt_identity t"
    unfolding has_task_def using llm_okD(4) [OF assms(1), of n t] assms(2) by (metis option.inject)
  finally show ?thesis .
qed

lemma mailbox_ok_fewer:
  assumes "mailbox_ok started rt m" and "\<And>i. has_task rt' i \<Longrightarrow> has_task rt i"
  shows "mailbox_ok started rt' m"
  using assms mailbox_okD [OF assms(1)] by (intro mailbox_okI) auto

lemma ok_forget:
  assumes ok: "llm_ok views out started rt" and t: "hm_get (lr_tasks rt) n = Some t" and idle: "\<not> running (lt_phase t)"
    and len: "length ms = length (lr_mailboxes rt)" and ms: "list_all (mailbox_ok started (remove_task n rt)) ms"
  shows "llm_ok views out started (remove_task n (rt\<lparr>lr_mailboxes := ms\<rparr>))"
proof -
  let ?rt = "remove_task n (rt\<lparr>lr_mailboxes := ms\<rparr>)"
  have get: "hm_get (lr_tasks ?rt) m = (if m = n then None else hm_get (lr_tasks rt) m)" for m
    using llm_okD(1) [OF ok] by (simp add: remove_task_def keyed_simps)
  have "hm_mset task_permit (lr_tasks ?rt) = hm_mset task_permit (lr_tasks rt)"
    using hm_mset_remove [OF llm_okD(1) [OF ok] t, of task_permit] idle by (simp add: remove_task_def task_permit_def)
  moreover have "hm_contains (lr_cancellations rt) i \<longleftrightarrow>
      (\<exists>m u. hm_get (lr_tasks ?rt) m = Some u \<and> lt_identity u = i \<and> running (lt_phase u))" for i
    unfolding llm_okD(5) [OF ok] get using t idle by (metis option.distinct(1) option.inject)
  moreover have "mailbox_ok started ?rt m = mailbox_ok started (remove_task n rt) m" for m
    by (rule mailbox_ok_cong) (simp add: has_task_def remove_task_def)
  then have "list_all (mailbox_ok started ?rt) ms" using ms by (simp add: list_all_iff)
  moreover have "hm_wf (lr_tasks ?rt)" using llm_okD(1) [OF ok] by (simp add: remove_task_def hm_wf_remove)
  ultimately show ?thesis
    using ok len unfolding llm_ok_def get by (simp add: remove_task_def) (metis option.distinct(1))
qed

text \<open>The end of an operation: out of the table, its permit back.\<close>

lemma ok_settle:
  assumes ok: "llm_ok views out started rt" and t: "hm_get (lr_tasks rt) n = Some t" and run: "running (lt_phase t)"
    and ph: "\<not> running ph" and phase: "phase_ok (lt_identity t) (length (lr_mailboxes rt)) ph"
  shows "llm_ok views out started (set_phase n ph
    (llm_drop_permit (lt_permit t) (rt\<lparr>lr_cancellations := hm_remove (lt_identity t) (lr_cancellations rt)\<rparr>)))"
    (is "llm_ok _ _ _ ?rt")
proof -
  have get: "hm_get (lr_tasks ?rt) m = (if m = n then Some (t\<lparr>lt_phase := ph\<rparr>) else hm_get (lr_tasks rt) m)" for m
    using t by (simp add: set_phase_def llm_drop_permit_def keyed_simps)
  have split: "hm_mset task_permit (lr_tasks rt) = {#lt_permit t#} + hm_mset task_permit (hm_remove n (lr_tasks rt))"
      "hm_mset task_permit (lr_tasks ?rt) = hm_mset task_permit (hm_remove n (lr_tasks rt))"
    using hm_mset_split [OF llm_okD(1) [OF ok] t, of task_permit "\<lambda>t. t\<lparr>lt_phase := ph\<rparr>"] run ph
    by (simp_all add: task_permit_def set_phase_def llm_drop_permit_def)
  have "adm_ok (lr_store rt) views ({#lt_permit t#} + (hm_mset task_permit (lr_tasks ?rt) + out))"
    using llm_okD(8) [OF ok] by (simp add: split)
  then have "adm_ok (lr_store ?rt) views (hm_mset task_permit (lr_tasks ?rt) + out)"
    by (drule_tac adm_ok_drop) (simp add: set_phase_def llm_drop_permit_def)
  moreover have "hm_contains (lr_cancellations ?rt) i \<longleftrightarrow>
      (\<exists>m u. hm_get (lr_tasks ?rt) m = Some u \<and> lt_identity u = i \<and> running (lt_phase u))" for i
  proof -
    have "hm_contains (lr_cancellations ?rt) i \<longleftrightarrow> i \<noteq> lt_identity t \<and>
        (\<exists>m u. hm_get (lr_tasks rt) m = Some u \<and> lt_identity u = i \<and> running (lt_phase u))"
      using llm_okD(5) [OF ok, of i] by (simp add: set_phase_def llm_drop_permit_def)
    also have "\<dots> \<longleftrightarrow> (\<exists>m u. m \<noteq> n \<and> hm_get (lr_tasks rt) m = Some u \<and> lt_identity u = i \<and> running (lt_phase u))"
      using llm_okD(4) [OF ok t] t by (metis option.inject)
    finally show ?thesis unfolding get using ph by auto
  qed
  moreover have "has_task ?rt i = has_task rt i" for i
    unfolding has_task_def get using t by (auto split: if_splits) (metis option.inject)
  then have "list_all (mailbox_ok started ?rt) (lr_mailboxes rt)"
    using llm_okD(7) [OF ok] by (auto simp: list_all_iff mailbox_ok_def)
  moreover have "hm_wf (lr_cancellations ?rt)" "hm_wf (lr_tasks ?rt)" "lr_mailboxes ?rt = lr_mailboxes rt" "lr_routes ?rt = lr_routes rt"
      "lr_next ?rt = lr_next rt"
    using llm_okD(1,2) [OF ok] by (simp_all add: set_phase_def llm_drop_permit_def hm_wf_remove)
  moreover have "m < lr_next rt \<and> lt_identity u \<in> set started \<and> phase_ok (lt_identity u) (length (lr_mailboxes rt)) (lt_phase u)"
    if "hm_get (lr_tasks ?rt) m = Some u" for m u
    using that phase llm_okD(3) [OF ok t] llm_okD(3) [OF ok, of m u] unfolding get by (auto split: if_splits)
  moreover have "m = k" if "hm_get (lr_tasks ?rt) m = Some u" "hm_get (lr_tasks ?rt) k = Some u'" "lt_identity u = lt_identity u'" for m k u u'
  proof -
    have "\<exists>v. hm_get (lr_tasks rt) k = Some v \<and> lt_identity v = lt_identity u" if "hm_get (lr_tasks ?rt) k = Some u" for k u
      using that t unfolding get by (auto split: if_splits)
    with that llm_okD(4) [OF ok] show ?thesis by metis
  qed
  ultimately show ?thesis
    using llm_okD(6) [OF ok] by (intro llm_okI) (simp_all only:)
qed

lemma ok_settle_removed:
  assumes ok: "llm_ok views out started rt" and t: "hm_get (lr_tasks rt) n = Some t" and run: "running (lt_phase t)"
  shows "llm_ok views out started (remove_task n
    (llm_drop_permit (lt_permit t) (rt\<lparr>lr_cancellations := hm_remove (lt_identity t) (lr_cancellations rt)\<rparr>)))"
    (is "llm_ok _ _ _ ?rt")
proof -
  have get: "hm_get (lr_tasks ?rt) m = (if m = n then None else hm_get (lr_tasks rt) m)" for m
    using llm_okD(1) [OF ok] by (simp add: remove_task_def llm_drop_permit_def keyed_simps)
  have "adm_ok (lr_store rt) views ({#lt_permit t#} + (hm_mset task_permit (hm_remove n (lr_tasks rt)) + out))"
    using llm_okD(8) [OF ok] hm_mset_remove [OF llm_okD(1) [OF ok] t, of task_permit] run by (simp add: task_permit_def)
  then have a: "adm_ok (lr_store ?rt) views (hm_mset task_permit (lr_tasks ?rt) + out)"
    by (drule_tac adm_ok_drop) (simp add: remove_task_def llm_drop_permit_def)
  have c: "hm_contains (lr_cancellations ?rt) i \<longleftrightarrow>
      (\<exists>m u. hm_get (lr_tasks ?rt) m = Some u \<and> lt_identity u = i \<and> running (lt_phase u))" for i
  proof -
    have "hm_contains (lr_cancellations ?rt) i \<longleftrightarrow> i \<noteq> lt_identity t \<and>
        (\<exists>m u. hm_get (lr_tasks rt) m = Some u \<and> lt_identity u = i \<and> running (lt_phase u))"
      using llm_okD(5) [OF ok, of i] by (simp add: remove_task_def llm_drop_permit_def)
    also have "\<dots> \<longleftrightarrow> (\<exists>m u. m \<noteq> n \<and> hm_get (lr_tasks rt) m = Some u \<and> lt_identity u = i \<and> running (lt_phase u))"
      using llm_okD(4) [OF ok t] t by (metis option.inject)
    finally show ?thesis unfolding get by auto
  qed
  have "has_task ?rt i = has_task (remove_task n rt) i" for i
    by (simp add: has_task_def remove_task_def llm_drop_permit_def)
  then have "list_all (mailbox_ok started ?rt) (lr_mailboxes ?rt)"
    using llm_okD(7) [OF ok] has_task_remove [OF ok t]
    by (auto simp: list_all_iff remove_task_def llm_drop_permit_def intro: mailbox_ok_fewer)
  moreover have "hm_wf (lr_tasks ?rt)" "hm_wf (lr_cancellations ?rt)" "lr_mailboxes ?rt = lr_mailboxes rt" "lr_routes ?rt = lr_routes rt"
      "lr_next ?rt = lr_next rt"
    using llm_okD(1,2) [OF ok] by (simp_all add: remove_task_def llm_drop_permit_def hm_wf_remove)
  moreover have "m < lr_next rt \<and> lt_identity u \<in> set started \<and> phase_ok (lt_identity u) (length (lr_mailboxes rt)) (lt_phase u)"
    if "hm_get (lr_tasks ?rt) m = Some u" for m u
    using that llm_okD(3) [OF ok, of m u] unfolding get by (auto split: if_splits)
  moreover have "m = k" if "hm_get (lr_tasks ?rt) m = Some u" "hm_get (lr_tasks ?rt) k = Some u'" "lt_identity u = lt_identity u'" for m k u u'
    using that llm_okD(4) [OF ok, of m u k u'] unfolding get by (auto split: if_splits)
  ultimately show ?thesis
    using llm_okD(6) [OF ok] a c by (intro llm_okI) (simp_all only:)
qed

lemma ok_end_task:
  assumes ok: "llm_ok views out started rt" and t: "hm_get (lr_tasks rt) n = Some t" and run: "running (lt_phase t)"
    and e: "ends_operation e" "event_identity e = lt_identity t" and r: "case route of None \<Rightarrow> True | Some r \<Rightarrow> r < length (lr_mailboxes rt)"
  shows "llm_ok views out started (end_task n route e rt)"
proof (cases route)
  case None
  with ok_settle_removed [OF ok t run] t show ?thesis by (simp add: end_task_def Let_def)
next
  case (Some r)
  with ok_settle [OF ok t run, of "TaskEnding r e"] e r t show ?thesis by (simp add: end_task_def Let_def)
qed

lemma events_of_snoc:
  "events_of i (m\<lparr>lm_log := lm_log m @ [e]\<rparr>) = events_of i m @ (if event_identity e = i then [e] else [])"
  by (simp add: events_of_def)

lemma list_all_update: "list_all P xs \<Longrightarrow> P x \<Longrightarrow> list_all P (xs[n := x])"
  by (auto simp: list_all_iff dest: set_update_subset_insert [THEN subsetD])

text \<open>A delta of a task at work, and the last event of one that ended.\<close>

lemma ok_put:
  assumes ok: "llm_ok views out started rt" and r: "r < length (lr_mailboxes rt)" and e: "\<not> ends_operation e" "has_task rt (event_identity e)"
  shows "llm_ok views out started (put_event r e rt)"
proof -
  let ?m = "lr_mailboxes rt ! r"
  have "mailbox_ok started rt ?m" using llm_okD(7) [OF ok] r by simp
  moreover from e(2) llm_okD(3) [OF ok] have "event_identity e \<in> set started" unfolding has_task_def by metis
  ultimately have "mailbox_ok started rt (?m\<lparr>lm_log := lm_log ?m @ [e]\<rparr>)"
    using e mailbox_okD [of started rt ?m]
    by (intro mailbox_okI) (auto simp: events_of_snoc butlast_append)
  then have "list_all (mailbox_ok started rt) (lr_mailboxes (put_event r e rt))"
    using llm_okD(7) [OF ok] by (simp add: put_event_def list_all_update list_all_iff [of _ "lr_mailboxes rt"])
  moreover have "mailbox_ok started (put_event r e rt) = mailbox_ok started rt"
    by (rule ext, rule mailbox_ok_cong) (simp add: has_task_def put_event_def)
  moreover have "lr_tasks (put_event r e rt) = lr_tasks rt" "lr_cancellations (put_event r e rt) = lr_cancellations rt"
      "lr_next (put_event r e rt) = lr_next rt" "lr_routes (put_event r e rt) = lr_routes rt" "lr_store (put_event r e rt) = lr_store rt"
      "length (lr_mailboxes (put_event r e rt)) = length (lr_mailboxes rt)"
    by (simp_all add: put_event_def)
  ultimately show ?thesis
    using llm_okD(1-6,8) [OF ok] by (intro llm_okI) (simp_all only:)
qed

lemma ok_deliver:
  assumes ok: "llm_ok views out started rt" and t: "hm_get (lr_tasks rt) n = Some t" and ph: "lt_phase t = TaskEnding r e"
  shows "llm_ok views out started (remove_task n (put_event r e rt))" and "llm_ok views out started (remove_task n rt)"
proof -
  have p: "r < length (lr_mailboxes rt)" "event_identity e = lt_identity t" "ends_operation e" "lt_identity t \<in> set started"
    using llm_okD(3) [OF ok t] by (simp_all add: ph)
  let ?m = "lr_mailboxes rt ! r"
  have m: "mailbox_ok started rt ?m" using llm_okD(7) [OF ok] p(1) by simp
  have own: "list_all (\<lambda>e. \<not> ends_operation e) (events_of (lt_identity t) ?m)"
    using mailbox_okD(1) [OF m] t by (auto simp: has_task_def)
  have new: "mailbox_ok started (remove_task n rt) (?m\<lparr>lm_log := lm_log ?m @ [e]\<rparr>)"
    using mailbox_okD [OF m] own p(2,4) has_task_remove [OF ok t]
    by (intro mailbox_okI) (auto simp: events_of_snoc)
  have old: "list_all (mailbox_ok started (remove_task n rt)) (lr_mailboxes rt)"
    using llm_okD(7) [OF ok] has_task_remove [OF ok t] by (auto simp: list_all_iff intro: mailbox_ok_fewer)
  show "llm_ok views out started (remove_task n (put_event r e rt))"
    unfolding put_event_def using list_all_update [OF old new, of r] ph
    by (intro ok_forget [OF ok t]) simp_all
  have "rt\<lparr>lr_mailboxes := lr_mailboxes rt\<rparr> = rt" by simp
  with ok_forget [OF ok t _ refl old] ph show "llm_ok views out started (remove_task n rt)" by simp
qed

section \<open>Every step\<close>

text \<open>Changes of fields the invariant does not read.\<close>

lemma mailbox_ok_fields [simp]:
  "mailbox_ok started (rt\<lparr>lr_closed := b\<rparr>) = mailbox_ok started rt"
  "mailbox_ok started (rt\<lparr>lr_cancelled := cs\<rparr>) = mailbox_ok started rt"
  "mailbox_ok started (rt\<lparr>lr_store := st\<rparr>) = mailbox_ok started rt"
  by (rule ext, rule mailbox_ok_cong, simp add: has_task_def)+

lemma ok_fields:
  "llm_ok views out started (rt\<lparr>lr_closed := b\<rparr>) = llm_ok views out started rt"
  "llm_ok views out started (rt\<lparr>lr_cancelled := cs\<rparr>) = llm_ok views out started rt"
  by (simp_all add: llm_ok_def)

lemma ok_store:
  assumes "llm_ok views out started rt" and "adm_ok st views' (hm_mset task_permit (lr_tasks rt) + out')"
  shows "llm_ok views' out' started (rt\<lparr>lr_store := st\<rparr>)"
  using llm_okD(1-6) [OF assms(1)] llm_okD(7) [OF assms(1)] assms(2)
  by (intro llm_okI) (auto simp: list_all_iff)

lemma ok_mailboxes:
  assumes "llm_ok views out started rt" and "length (lr_mailboxes rt) \<le> length ms" and "list_all (mailbox_ok started rt) ms"
    and "\<And>s r. hm_get routes s = Some r \<Longrightarrow> r < length ms"
  shows "llm_ok views out started (rt\<lparr>lr_mailboxes := ms, lr_routes := routes\<rparr>)"
proof -
  have more: "phase_ok i k ph \<Longrightarrow> k \<le> k' \<Longrightarrow> phase_ok i k' ph" for i k k' ph
    by (cases ph) auto
  have "mailbox_ok started (rt\<lparr>lr_mailboxes := ms, lr_routes := routes\<rparr>) m = mailbox_ok started rt m" for m
    by (rule mailbox_ok_cong) (simp add: has_task_def)
  moreover have "n < lr_next rt \<and> lt_identity t \<in> set started \<and> phase_ok (lt_identity t) (length ms) (lt_phase t)"
    if "hm_get (lr_tasks rt) n = Some t" for n t
    using llm_okD(3) [OF assms(1) that] more [OF _ assms(2)] by blast
  ultimately show ?thesis
    using assms(2-4) llm_okD(1,2,4,5,8) [OF assms(1)] by (intro llm_okI) (auto simp: list_all_iff)
qed

lemma ok_start:
  assumes ok: "llm_ok views out started rt" and v: "v \<in> set views" and fresh: "i \<notin> set started"
  shows "llm_ok views out (i # started) (snd (llm_start v in_tokio i token rt))"
proof -
  have more: "llm_ok views out (i # started) u" if "llm_ok views out started u" for u
  proof -
    have "mailbox_ok (i # started) u m" if "mailbox_ok started u m" for m
      using mailbox_okD [OF that] by (intro mailbox_okI) (auto simp: list_all_iff)
    with that show ?thesis by (auto simp: llm_ok_def list_all_iff)
  qed
  show ?thesis
  proof (cases "in_tokio \<and> try_admit (lr_store rt) v Voice \<noteq> None")
    case False
    with more [OF ok] show ?thesis by (auto simp: llm_start_def split: option.split)
  next
    case True
    then obtain st c where c: "try_admit (lr_store rt) v Voice = Some (st, c)" by auto
    have a: "adm_ok st views ({#c#} + (hm_mset task_permit (lr_tasks rt) + out))"
      by (rule adm_ok_admit [OF llm_okD(8) [OF ok] v c])
    show ?thesis
    proof (cases "lr_closed rt")
      case closed: True
      from ok_store [OF ok adm_ok_drop [OF a]] have "llm_ok views out started (llm_drop_permit c (rt\<lparr>lr_store := st\<rparr>))"
        by (simp add: llm_drop_permit_def)
      with more True c closed show ?thesis by (simp add: llm_start_def Let_def)
    next
      case False
      let ?t = "\<lparr>lt_identity = i, lt_token = token, lt_permit = c, lt_phase = TaskSpawned\<rparr>"
      let ?rt = "rt\<lparr>lr_store := st, lr_cancellations := hm_insert i token (lr_cancellations rt),
          lr_tasks := hm_insert (lr_next rt) ?t (lr_tasks rt), lr_next := lr_next rt + 1\<rparr>"
      have new: "hm_get (lr_tasks rt) (lr_next rt) = None"
        using llm_okD(3) [OF ok, of "lr_next rt"] by (cases "hm_get (lr_tasks rt) (lr_next rt)") auto
      have get: "hm_get (lr_tasks ?rt) m = (if m = lr_next rt then Some ?t else hm_get (lr_tasks rt) m)" for m
        using llm_okD(1) [OF ok] by (simp add: keyed_simps)
      have other: "lt_identity u \<noteq> i" if "hm_get (lr_tasks rt) m = Some u" for m u
        using llm_okD(3) [OF ok that] fresh by auto
      have "adm_ok (lr_store ?rt) views (hm_mset task_permit (lr_tasks ?rt) + out)"
        using a by (simp add: hm_mset_insert [OF new] task_permit_def)
      moreover have "hm_contains (lr_cancellations ?rt) k \<longleftrightarrow>
          (\<exists>m u. hm_get (lr_tasks ?rt) m = Some u \<and> lt_identity u = k \<and> running (lt_phase u))" for k
      proof -
        have "(\<exists>m u. hm_get (lr_tasks ?rt) m = Some u \<and> lt_identity u = k \<and> running (lt_phase u)) \<longleftrightarrow>
            k = i \<or> (\<exists>m u. hm_get (lr_tasks rt) m = Some u \<and> lt_identity u = k \<and> running (lt_phase u))"
          unfolding get using new by (auto split: if_splits) (metis option.distinct(1))+
        then show ?thesis using llm_okD(5) [OF ok, of k] by auto
      qed
      moreover have "mailbox_ok (i # started) ?rt m" if "m \<in> set (lr_mailboxes rt)" for m
      proof -
        have m: "mailbox_ok started rt m" by (rule llm_okD(7) [OF ok that])
        have "has_task ?rt k \<longleftrightarrow> k = i \<or> has_task rt k" for k
          unfolding has_task_def get using new by (auto split: if_splits) (metis option.distinct(1))+
        moreover have "events_of i m = []"
          using mailbox_okD(3) [OF m] fresh by (auto simp: events_of_def list_all_iff filter_empty_conv)
        ultimately show ?thesis
          using mailbox_okD [OF m] by (intro mailbox_okI) (auto simp: list_all_iff)
      qed
      moreover have "hm_wf (lr_tasks ?rt)" "hm_wf (lr_cancellations ?rt)"
        using llm_okD(1,2) [OF ok] by (simp_all add: hm_wf_insert)
      moreover have "m < lr_next ?rt \<and> lt_identity u \<in> set (i # started) \<and> phase_ok (lt_identity u) (length (lr_mailboxes ?rt)) (lt_phase u)"
        if "hm_get (lr_tasks ?rt) m = Some u" for m u
        using that llm_okD(3) [OF ok, of m u] unfolding get by (auto split: if_splits)
      moreover have "m = k" if "hm_get (lr_tasks ?rt) m = Some u" "hm_get (lr_tasks ?rt) k = Some u'" "lt_identity u = lt_identity u'" for m k u u'
        using that llm_okD(4) [OF ok, of m u k u'] other [of m u] other [of k u'] unfolding get by (auto split: if_splits)
      ultimately have "llm_ok views out (i # started) ?rt"
        using llm_okD(6) [OF ok] by (intro llm_okI) (auto simp: list_all_iff)
      with True c False show ?thesis by (simp add: llm_start_def Let_def)
    qed
  qed
qed

lemma ok_task:
  assumes ok: "llm_ok views out started rt" and Some: "hm_get (lr_tasks rt) n = Some t"
  shows "llm_ok views out started (task_route n rt)" "llm_ok views out started (task_open b n rt)"
    "llm_ok views out started (task_item item n rt)" "llm_ok views out started (task_cancelled n rt)"
    "llm_ok views out started (task_send n rt)" "llm_ok views out started (task_timeout n rt)"
    "llm_ok views out started (task_deliver n rt)"
proof -
  have has: "has_task rt (lt_identity t)" using Some by (auto simp: has_task_def)
  have p: "phase_ok (lt_identity t) (length (lr_mailboxes rt)) (lt_phase t)" using llm_okD(3) [OF ok Some] by simp
  note stay = ok_set_phase [OF ok Some] and finish = ok_end_task [OF ok Some]
  show "llm_ok views out started (task_route n rt)"
    using ok Some llm_okD(6) [OF ok] by (auto simp: task_route_def intro!: stay finish split: option.split)
  show "llm_ok views out started (task_open b n rt)"
    using ok Some p by (cases "lt_phase t") (auto simp: task_open_def intro!: stay finish)
  show "llm_ok views out started (task_item item n rt)"
    using ok Some p by (cases "lt_phase t"; cases item) (auto simp: task_item_def Let_def intro!: stay finish)
  show "llm_ok views out started (task_cancelled n rt)"
    using ok Some p by (cases "lt_phase t") (auto simp: task_cancelled_def intro!: stay finish)
  show "llm_ok views out started (task_timeout n rt)"
    using ok Some p by (cases "lt_phase t") (auto simp: task_timeout_def Let_def intro!: stay finish)
  show "llm_ok views out started (task_deliver n rt)"
    using ok Some by (cases "lt_phase t") (auto simp: task_deliver_def intro: ok_deliver [OF ok Some])
  show "llm_ok views out started (task_send n rt)"
  proof (cases "\<exists>r e. lt_phase t = TaskSending r e")
    case True
    then obtain r e where s: "lt_phase t = TaskSending r e" by blast
    with p have q: "r < length (lr_mailboxes rt)" "event_identity e = lt_identity t" "\<not> ends_operation e" by simp_all
    from ok_put [OF ok q(1,3)] has q(2) have put: "llm_ok views out started (put_event r e rt)" by simp
    have "llm_ok views out started (set_phase n (TaskStreaming r) (put_event r e rt))"
      by (rule ok_set_phase [OF put, of n t]) (use Some s q in \<open>simp_all add: put_event_def\<close>)
    moreover have "llm_ok views out started (end_task n (Some r) (RuntimeCancelled (lt_identity t)) rt)"
      by (rule finish) (use s q in simp_all)
    ultimately show ?thesis using Some s ok by (simp add: task_send_def)
  next
    case False
    with ok Some show ?thesis by (cases "lt_phase t") (auto simp: task_send_def)
  qed
qed

lemma ok_tasks:
  assumes "llm_ok views out started rt"
  shows "llm_ok views out started (task_route n rt)" "llm_ok views out started (task_open b n rt)"
    "llm_ok views out started (task_item item n rt)" "llm_ok views out started (task_cancelled n rt)"
    "llm_ok views out started (task_send n rt)" "llm_ok views out started (task_timeout n rt)"
    "llm_ok views out started (task_deliver n rt)"
  using ok_task [OF assms, of n] assms
  by (cases "hm_get (lr_tasks rt) n";
      simp add: task_route_def task_open_def task_item_def task_cancelled_def task_send_def task_timeout_def task_deliver_def)+

lemma ok_cancel: "llm_ok views out started rt \<Longrightarrow> llm_ok views out started (llm_cancel i rt)"
  by (simp add: llm_cancel_def cancel_llm_token_def ok_fields split: option.split)

lemma ok_register: "llm_ok views out started rt \<Longrightarrow> llm_ok views out started (snd (llm_register session capacity rt))"
proof -
  assume ok: "llm_ok views out started rt"
  let ?ms = "lr_mailboxes rt @ [\<lparr>lm_capacity = capacity, lm_log = [], lm_taken = 0, lm_open = True\<rparr>]"
  have "llm_ok views out started (rt\<lparr>lr_mailboxes := ?ms, lr_routes := hm_insert session (length (lr_mailboxes rt)) (lr_routes rt)\<rparr>)"
    using llm_okD(7) [OF ok]
    by (intro ok_mailboxes [OF ok])
      (auto simp: list_all_iff keyed_simps events_of_def intro!: mailbox_okI dest: llm_okD(6) [OF ok] split: if_splits)
  then show ?thesis by (simp add: llm_register_def)
qed

lemma ok_unregister: "llm_ok views out started rt \<Longrightarrow> llm_ok views out started (llm_unregister session rt)"
proof -
  assume ok: "llm_ok views out started rt"
  have "llm_ok views out started (rt\<lparr>lr_mailboxes := lr_mailboxes rt, lr_routes := hm_remove session (lr_routes rt)\<rparr>)"
    using llm_okD(7) [OF ok]
    by (intro ok_mailboxes [OF ok]) (auto simp: list_all_iff keyed_simps dest: llm_okD(6) [OF ok] split: if_splits)
  then show ?thesis by (simp add: llm_unregister_def)
qed

lemma ok_mailbox_update:
  assumes ok: "llm_ok views out started rt" and r: "r < length (lr_mailboxes rt)" and log: "lm_log m = lm_log (lr_mailboxes rt ! r)"
  shows "llm_ok views out started (rt\<lparr>lr_mailboxes := (lr_mailboxes rt)[r := m]\<rparr>)"
proof -
  from r have old: "mailbox_ok started rt (lr_mailboxes rt ! r)" by (intro llm_okD(7) [OF ok]) simp
  have "events_of i m = events_of i (lr_mailboxes rt ! r)" for i by (simp add: events_of_def log)
  with mailbox_okD [OF old] log have "mailbox_ok started rt m" by (intro mailbox_okI) auto
  with llm_okD(7) [OF ok] have "list_all (mailbox_ok started rt) ((lr_mailboxes rt)[r := m])"
    by (simp add: list_all_update list_all_iff [of _ "lr_mailboxes rt"])
  from ok_mailboxes [OF ok _ this, of "lr_routes rt"] llm_okD(6) [OF ok] show ?thesis by auto
qed

definition llm_sys_ok :: "llm_sys \<Rightarrow> bool" where
  "llm_sys_ok s \<longleftrightarrow> llm_ok (ls_views s) (mset (ls_outside s)) (ls_started s) (ls_runtime s)"

lemma llm_sys_init: "llm_init s \<Longrightarrow> llm_sys_ok s"
proof -
  assume "llm_init s"
  then obtain a where a: "reach adm_sys_init adm_step a" "ls_runtime s = llm_with_admission (sys_store a)" "ls_views s = sys_views a"
      "ls_outside s = sys_live a" "ls_started s = []"
    by (auto simp: llm_init_def)
  have "adm_inv a" by (rule adm.reach_inv [OF a(1)])
  then have "adm_ok (sys_store a) (sys_views a) (mset (sys_live a))"
    unfolding adm_ok_def by (intro exI [of _ "sys_live a"]) (simp add: adm_inv_def)
  then show ?thesis
    unfolding llm_sys_ok_def a(2-5) llm_with_admission_def
    by (intro llm_okI) (simp_all add: hm_wf_Nil hm_contains_def hm_get_def)
qed

text \<open>A permit that goes outside, and one that comes back from there.\<close>

lemma llm_outside:
  assumes "llm_sys_ok s" and "v \<in> set (ls_views s)" and "try_admit (lr_store (ls_runtime s)) v class = Some (st, c)"
  shows "llm_sys_ok (s\<lparr>ls_runtime := (ls_runtime s)\<lparr>lr_store := st\<rparr>, ls_outside := c # ls_outside s\<rparr>)"
  using adm_ok_admit [OF llm_okD(8) [OF assms(1) [unfolded llm_sys_ok_def]] assms(2,3)] ok_store [OF assms(1) [unfolded llm_sys_ok_def]]
  by (simp add: llm_sys_ok_def union_ac)

lemma llm_keeps: "llm_sys_ok s \<Longrightarrow> llm_step s t \<Longrightarrow> llm_sys_ok t"
proof (rotate_tac, induction rule: llm_step.induct)
  case (ll_view q s v)
  then show ?case by (auto simp: llm_sys_ok_def llm_ok_def intro: adm_ok_compose)
next
  case (ll_admit v s "class" st c)
  then show ?case by (intro llm_outside)
next
  case (ll_diagnostic v s c rt)
  then show ?case by (auto simp: llm_admit_diagnostic_def split: if_splits intro: llm_outside)
next
  case (ll_invoke v s supported tag c rt)
  then show ?case by (auto simp: llm_invoke_begin_def split: if_splits option.splits intro: llm_outside)
next
  case (ll_drop c s)
  define R where "R = mset (remove1 c (ls_outside s))"
  from ll_drop(1) have m: "mset (ls_outside s) = add_mset c R" by (simp add: R_def)
  from llm_okD(8) [OF ll_drop(2) [unfolded llm_sys_ok_def m]]
  have "adm_ok (lr_store (ls_runtime s)) (ls_views s) ({#c#} + (hm_mset task_permit (lr_tasks (ls_runtime s)) + R))" by simp
  from adm_ok_drop [OF this] ok_store [OF ll_drop(2) [unfolded llm_sys_ok_def]] show ?case
    by (simp add: llm_sys_ok_def llm_drop_permit_def R_def del: mset_remove1)
next
  case (ll_start v s i in_tokio token)
  then show ?case by (simp add: llm_sys_ok_def ok_start)
next
  case (ll_take r s)
  then show ?case by (auto simp: llm_sys_ok_def mailbox_take_def Let_def intro!: ok_mailbox_update)
next
  case (ll_close r s)
  then show ?case by (auto simp: llm_sys_ok_def mailbox_close_def intro!: ok_mailbox_update)
qed (simp_all add: llm_sys_ok_def ok_register ok_unregister ok_cancel cancel_llm_token_def llm_shutdown_acknowledged_def ok_fields ok_tasks)

interpretation llm: step_system llm_init llm_step llm_sys_ok
  by unfold_locales (auto intro: llm_sys_init llm_keeps)

section \<open>Permits\<close>

text \<open>The permits that are alive: those of the tasks at work, and those no task owns.\<close>

definition llm_permits :: "llm_sys \<Rightarrow> capacity_permit list" where
  "llm_permits s = map lt_permit (filter (\<lambda>t. running (lt_phase t)) (hm_values (lr_tasks (ls_runtime s)))) @ ls_outside s"

lemma running_permits: "mset (map lt_permit (filter (\<lambda>t. running (lt_phase t)) (hm_values m))) = hm_mset task_permit m"
  by (induction m) (auto simp: hm_values_def task_permit_def)

lemma llm_permits_counted:
  assumes "llm_sys_ok s" and "k < length (lr_store (ls_runtime s))"
  shows "voice_work (lr_store (ls_runtime s) ! k) = voice_permits k (llm_permits s) \<and>
    diagnostic_work (lr_store (ls_runtime s) ! k) = other_permits k (llm_permits s)"
proof -
  from llm_okD(8) [OF assms(1) [unfolded llm_sys_ok_def]] obtain live where
      m: "mset live = hm_mset task_permit (lr_tasks (ls_runtime s)) + mset (ls_outside s)"
    and inv: "adm_inv \<lparr>sys_store = lr_store (ls_runtime s), sys_views = ls_views s, sys_live = live\<rparr>"
    unfolding adm_ok_def by (elim exE conjE)
  from m have live: "mset live = mset (llm_permits s)"
    unfolding llm_permits_def mset_append running_permits .
  from inv assms(2) have "voice_work (lr_store (ls_runtime s) ! k) = voice_permits k live \<and>
      diagnostic_work (lr_store (ls_runtime s) ! k) = other_permits k live" by (auto simp: adm_inv_def)
  with permits_mset [OF live] show ?thesis by simp
qed

lemma min_zero_mem: "fold min us u = (0::nat) \<Longrightarrow> 0 \<in> set (u # us)"
proof (induction us arbitrary: u)
  case (Cons x us)
  then have "0 \<in> set (min x u # us)" by simp
  then show ?case by (auto simp: min_def split: if_splits)
qed simp

text \<open>A view that is not in use: no permit that is alive was admitted through it.\<close>

lemma unused_view:
  assumes ok: "llm_sys_ok s" and v: "v \<in> set (ls_views s)" "v \<noteq> []" and "view_usage (lr_store (ls_runtime s)) v = 0"
    and c: "c \<in> set (llm_permits s)"
  shows "\<not> set v \<subseteq> set (permit_admission c)"
proof
  assume sub: "set v \<subseteq> set (permit_admission c)"
  from assms(3,4) obtain k where k: "k \<in> set v" "adm_used (lr_store (ls_runtime s) ! k) = 0"
    by (cases v) (fastforce simp: view_usage_def dest!: min_zero_mem)+
  from llm_okD(8) [OF ok [unfolded llm_sys_ok_def]] v(1) have "\<forall>k\<in>set v. k < length (lr_store (ls_runtime s))"
    by (auto simp: adm_ok_def adm_inv_def view_ok_def)
  with k have "voice_permits k (llm_permits s) = 0" "other_permits k (llm_permits s) = 0"
    using llm_permits_counted [OF ok, of k] by (auto simp: adm_used_def)
  moreover from sub k(1) have "k \<in> set (permit_admission c)" by blast
  ultimately show False using c by (auto simp: voice_permits_def other_permits_def filter_empty_conv)
qed

section \<open>Operations\<close>

text \<open>
  C17: an operation on the model speaks in order and ends once. In every reachable state of the model runtime the
  events that a mailbox received of an operation are deltas and tool calls followed by at most one end (finished,
  failed or cancelled) and nothing after it. The capacity is given back before the end is routed: an operation whose
  end waits for room in the mailbox has left the table of cancellations, one whose end is in the mailbox has no task
  either, and the counters of every capacity are exactly the permits of the operations still at work and of the users
  outside the runtime. So the next round of the turn can start at once.
\<close>

theorem llm_operation_protocol:
  assumes "reach llm_init llm_step s" and "m \<in> set (lr_mailboxes (ls_runtime s))"
  shows "list_all (\<lambda>e. \<not> ends_operation e) (butlast (events_of i m)) \<and>
    (list_ex ends_operation (events_of i m) \<longrightarrow>
       \<not> hm_contains (lr_cancellations (ls_runtime s)) i \<and>
       (\<forall>n t. hm_get (lr_tasks (ls_runtime s)) n = Some t \<longrightarrow> lt_identity t \<noteq> i)) \<and>
    (\<forall>n t r e. hm_get (lr_tasks (ls_runtime s)) n = Some t \<and> lt_phase t = TaskEnding r e \<longrightarrow>
       \<not> hm_contains (lr_cancellations (ls_runtime s)) (lt_identity t)) \<and>
    (\<forall>k<length (lr_store (ls_runtime s)).
       voice_work (lr_store (ls_runtime s) ! k) = voice_permits k (llm_permits s) \<and>
       diagnostic_work (lr_store (ls_runtime s) ! k) = other_permits k (llm_permits s))"
proof -
  have sok: "llm_sys_ok s" by (rule llm.reach_inv [OF assms(1)])
  then have ok: "llm_ok (ls_views s) (mset (ls_outside s)) (ls_started s) (ls_runtime s)"
    by (simp add: llm_sys_ok_def)
  note m = mailbox_okD(1) [OF llm_okD(7) [OF ok assms(2)], of i] mailbox_okD(2) [OF llm_okD(7) [OF ok assms(2)], of i]
  have quiet: "\<not> has_task (ls_runtime s) i" if "list_ex ends_operation (events_of i m)"
    using m(1) that by (auto simp: list_all_iff list_ex_iff)
  have "\<not> hm_contains (lr_cancellations (ls_runtime s)) (lt_identity t)"
    if "hm_get (lr_tasks (ls_runtime s)) n = Some t" "lt_phase t = TaskEnding r e" for n t r e
  proof
    assume "hm_contains (lr_cancellations (ls_runtime s)) (lt_identity t)"
    then obtain k u where "hm_get (lr_tasks (ls_runtime s)) k = Some u" "lt_identity u = lt_identity t" "running (lt_phase u)"
      using llm_okD(5) [OF ok] by blast
    with llm_okD(4) [OF ok that(1)] that show False by auto
  qed
  with m(2) quiet llm_okD(5) [OF ok, of i] llm_permits_counted [OF sok] show ?thesis by (auto simp: has_task_def)
qed

text \<open>An operation that says one word and ends, on a mailbox of two.\<close>

definition small_llm :: llm_sys where
  "small_llm = \<lparr>ls_runtime = llm_with_admission small_store, ls_views = [[0]], ls_outside = [], ls_started = []\<rparr>"

definition small_llm_run :: llm_sys where
  "small_llm_run =
     (let s = in_llm (\<lambda>rt. snd (llm_register [1] 2 rt)) small_llm;
          s = s\<lparr>ls_runtime := snd (llm_start [0] True someone 7 (ls_runtime s)), ls_started := someone # ls_started s\<rparr>;
          s = in_llm (task_open True 0) (in_llm (task_route 0) s);
          s = in_llm (task_send 0) (in_llm (task_item (ItemText [104]) 0) s)
      in in_llm (task_deliver 0) (in_llm (task_item ItemFinished 0) s))"

lemma small_llm_init: "llm_init small_llm"
proof -
  let ?s = "\<lparr>sys_store = [], sys_views = [], sys_live = []\<rparr>"
  have "reach adm_sys_init adm_step ?s" by (rule reach_init) (simp add: adm_sys_init_def)
  then have "reach adm_sys_init adm_step (?s\<lparr>sys_store := small_store, sys_views := [0] # sys_views ?s\<rparr>)"
    by (rule reach_step) (rule adm_create [where n = 2 and r = 1], simp add: admission_new_def small_store_def)
  then show ?thesis
    unfolding llm_init_def by (intro exI [of _ "\<lparr>sys_store = small_store, sys_views = [[0]], sys_live = []\<rparr>"]) (simp add: small_llm_def)
qed

lemma small_llm_reach: "reach llm_init llm_step small_llm_run"
  unfolding small_llm_run_def Let_def
  by (rule reach_step, rule reach_step, rule reach_step, rule reach_step, rule reach_step, rule reach_step, rule reach_step, rule reach_step,
      rule reach_init, rule small_llm_init, rule ll_register, rule ll_start, simp add: small_llm_def, simp add: small_llm_def,
      rule ll_route, rule ll_open, rule ll_item, rule ll_send, rule ll_item, rule ll_deliver)

lemma llm_operation_protocol_witness:
  "\<exists>m. lr_mailboxes (ls_runtime small_llm_run) = [m] \<and> events_of someone m = [RuntimeTextDelta someone [104], RuntimeFinished someone] \<and>
     \<not> hm_contains (lr_cancellations (ls_runtime small_llm_run)) someone \<and> voice_work (lr_store (ls_runtime small_llm_run) ! 0) = 0"
proof -
  have "map (events_of someone) (lr_mailboxes (ls_runtime small_llm_run)) = [[RuntimeTextDelta someone [104], RuntimeFinished someone]]"
    and p: "llm_permits small_llm_run = []" "length (lr_store (ls_runtime small_llm_run)) = 1" by code_simp+
  then obtain m where m: "lr_mailboxes (ls_runtime small_llm_run) = [m]"
      "events_of someone m = [RuntimeTextDelta someone [104], RuntimeFinished someone]" by (auto simp: map_eq_Cons_conv)
  with llm_operation_protocol [OF small_llm_reach, of m someone] p show ?thesis by (simp add: voice_permits_def)
qed

section \<open>Shutdown\<close>

definition at_rest :: "llm_runtime \<Rightarrow> bool" where
  "at_rest rt \<longleftrightarrow> lr_closed rt \<and> (\<forall>n t. hm_get (lr_tasks rt) n = Some t \<longrightarrow> \<not> running (lt_phase t))"

lemma rest_tasks: "lr_closed rt' = lr_closed rt \<Longrightarrow> lr_tasks rt' = lr_tasks rt \<Longrightarrow> at_rest rt' = at_rest rt"
  by (simp add: at_rest_def)

lemma rest_task:
  assumes "at_rest rt"
  shows "task_route n rt = rt" "task_open b n rt = rt" "task_item item n rt = rt" "task_cancelled n rt = rt" "task_send n rt = rt"
    "task_timeout n rt = rt"
proof -
  have "\<not> running (lt_phase t)" if "hm_get (lr_tasks rt) n = Some t" for t using assms that by (auto simp: at_rest_def)
  then show "task_route n rt = rt" "task_open b n rt = rt" "task_item item n rt = rt" "task_cancelled n rt = rt" "task_send n rt = rt"
    "task_timeout n rt = rt"
    by (auto simp: task_route_def task_open_def task_item_def task_cancelled_def task_send_def task_timeout_def Let_def
        split: option.split task_phase.split)
qed

lemma rest_step: "llm_step s t \<Longrightarrow> llm_sys_ok s \<Longrightarrow> at_rest (ls_runtime s) \<Longrightarrow> at_rest (ls_runtime t)"
proof (induction rule: llm_step.induct)
  case (ll_start v s i in_tokio token)
  then show ?case by (auto simp: llm_start_def at_rest_def llm_drop_permit_def Let_def split: option.split)
next
  case (ll_diagnostic v s c rt)
  then show ?case by (auto simp: llm_admit_diagnostic_def at_rest_def)
next
  case (ll_invoke v s supported tag c rt)
  then show ?case by (auto simp: llm_invoke_begin_def at_rest_def split: if_splits)
next
  case (ll_deliver s n)
  have "hm_wf (lr_tasks (ls_runtime s))" using ll_deliver(1) llm_okD(1) by (simp add: llm_sys_ok_def)
  with ll_deliver(2) show ?case
    by (auto simp: task_deliver_def at_rest_def remove_task_def put_event_def keyed_simps split: option.split task_phase.split if_splits)
qed (auto simp: rest_task, (auto simp: at_rest_def llm_drop_permit_def llm_register_def llm_unregister_def llm_cancel_def
    cancel_llm_token_def llm_shutdown_acknowledged_def mailbox_take_def mailbox_close_def Let_def split: option.split)+)

text \<open>
  C18: an acknowledged shutdown of the model runtime is final. A shutdown is acknowledged only when no operation is at
  work and no permit admitted through the runtime's capacity is alive, of whatever operation, invocation or
  diagnostic. Whatever happens later, no operation is ever at work again: every start, invocation and diagnostic is
  refused, and only events of operations that had already given back their capacity are still delivered.
\<close>

theorem llm_shutdown_final:
  assumes "reach llm_init llm_step s" and "v \<in> set (ls_views s)" and "llm_shutdown_acknowledged v (ls_runtime s) = (True, rt)"
    and "llm_step\<^sup>*\<^sup>* (s\<lparr>ls_runtime := rt\<rparr>) t"
  shows "(\<forall>n u. hm_get (lr_tasks (ls_runtime s)) n = Some u \<longrightarrow> \<not> running (lt_phase u)) \<and>
    (v \<noteq> [] \<longrightarrow> (\<forall>c\<in>set (llm_permits s). \<not> set v \<subseteq> set (permit_admission c))) \<and>
    (\<forall>n u. hm_get (lr_tasks (ls_runtime t)) n = Some u \<longrightarrow> \<not> running (lt_phase u)) \<and>
    fst (llm_start w in_tokio i token (ls_runtime t)) \<noteq> Inr () \<and>
    (\<forall>c. fst (llm_invoke_begin w supported tag (ls_runtime t)) \<noteq> Inr c) \<and>
    llm_admit_diagnostic w (ls_runtime t) = None"
proof -
  have sok: "llm_sys_ok s" by (rule llm.reach_inv [OF assms(1)])
  then have ok: "llm_ok (ls_views s) (mset (ls_outside s)) (ls_started s) (ls_runtime s)" by (simp add: llm_sys_ok_def)
  have rt: "rt = (ls_runtime s)\<lparr>lr_closed := True\<rparr>" and none: "lr_cancellations (ls_runtime s) = []"
    and unused: "view_usage (lr_store (ls_runtime s)) v = 0"
    using assms(3) by (auto simp: llm_shutdown_acknowledged_def)
  have idle: "\<not> running (lt_phase u)" if "hm_get (lr_tasks (ls_runtime s)) n = Some u" for n u
    using llm_okD(5) [OF ok, of "lt_identity u"] that none by (auto simp: hm_contains_def hm_get_def)
  then have rest: "at_rest (ls_runtime (s\<lparr>ls_runtime := rt\<rparr>))" by (simp add: at_rest_def rt)
  have ok': "llm_sys_ok (s\<lparr>ls_runtime := rt\<rparr>)" using ok by (simp add: llm_sys_ok_def rt ok_fields)
  from assms(4) have "at_rest (ls_runtime t) \<and> llm_sys_ok t"
    by (induction rule: rtranclp_induct) (use rest ok' in \<open>auto intro: rest_step llm_keeps\<close>)
  then show ?thesis
    using idle unused_view [OF sok assms(2) _ unused]
    by (auto simp: at_rest_def llm_start_def llm_invoke_begin_def llm_admit_diagnostic_def Let_def split: option.split)
qed

lemma llm_shutdown_final_witness:
  "fst (llm_start [0] True someone 8 (snd (llm_shutdown_acknowledged [0] (ls_runtime small_llm)))) \<noteq> Inr () \<and>
    llm_admit_diagnostic [0] (snd (llm_shutdown_acknowledged [0] (ls_runtime small_llm))) = None"
proof -
  have r: "reach llm_init llm_step small_llm" by (rule reach_init, rule small_llm_init)
  have v: "[0] \<in> set (ls_views small_llm)" by (simp add: small_llm_def)
  have a: "llm_shutdown_acknowledged [0] (ls_runtime small_llm) = (True, snd (llm_shutdown_acknowledged [0] (ls_runtime small_llm)))"
    by (simp add: llm_shutdown_acknowledged_def small_llm_def llm_with_admission_def view_usage_def small_store_def adm_used_def)
  from llm_shutdown_final [OF r v a rtranclp.rtrancl_refl, of "[0]" True someone 8] show ?thesis by simp
qed

end
