(* ===== verification/Spec2Isabelle.thy ===== *)
theory Spec2Isabelle
  imports Capacity Lifecycle Dialogue Downlink Provider_Progress Speech_Text Protocol Tts_Diagnostic Speech_Delivery
    Writer_Theorems Session_Theorems Llm_Theorems
begin

text \<open>
  A verification development for vela-server, the voice server of this repository
  (\<open>crates/vela-server/src\<close>; every path below is relative to it).

  \<^bold>\<open>The program.\<close> A device speaks to the server over a WebSocket. Each connection has a Voice Session, an actor that
  owns all state of one conversation. Uplink audio goes to a voice activity detector and a speech recognizer; the
  transcript becomes a turn; the turn asks a language model, runs the tools the model calls, filters and segments its
  text, synthesises it and sends paced Opus packets back through the WebSocket writer. The recognizer, the detector,
  the model and the synthesiser are shared worker runtimes with their own threads, tasks and permits. The provider
  manager loads, shares, drains and unloads them within budgets. The lifecycle drains the sessions at shutdown.

  \<^bold>\<open>How to read it.\<close> Each component has its data, its operations in the order of the code, then its lemmas. The
  operations are functions on explicit state with errors as values; they are executable, so the witnesses evaluate
  them. Concurrency is a step relation: one step is one section under a lock, one semaphore or channel operation, or
  one turn of a loop, so a run of the system is an interleaving of tasks and threads. What code outside \<open>src/\<close> does
  (the socket, the clock, native models, the Opus codec, \<open>f32\<close>, \<open>serde_json\<close> parsing and printing, Unicode tables)
  is an argument of the definitions that use it.

  \<^bold>\<open>Theories and sources.\<close>
  \<^item> \<open>Prelude\<close>: integers with Rust's saturating and wrapping subtraction, the \<open>HashMap\<close> as a keyed list, the locale
    \<open>keyed_store\<close> with its interpretation \<open>hm\<close>, and the locale \<open>step_system\<close> (initial states, steps, an inductive
    invariant; its theorem \<open>reach_inv\<close> carries every safety property). \<open>Text\<close> and \<open>Json\<close>: characters as code points
    with their UTF-8 length, \<open>trim\<close>, prefixes; the JSON value.
  \<^item> \<open>Capacity\<close>: the Active Turn limiter (\<open>session/interaction/turn.rs\<close>), semaphores, the shared capacity of a
    provider (\<open>workers/admission/mod.rs\<close>), the pilot envelope (\<open>session/admission/pilot.rs\<close>) and the generation gate
    (\<open>session/interaction/generation_gate.rs\<close>). The locale \<open>slot_pool\<close> is the contract of a counted pool
    (\<open>turn_pool\<close>); \<open>adm\<close> and \<open>pil\<close> are step systems.
  \<^item> \<open>Lifecycle\<close>: \<open>lifecycle.rs\<close>, with the step system \<open>drain\<close>. \<open>Dialogue\<close>: the history and its prompt messages
    (\<open>session/interaction/turn.rs\<close>), with the step system \<open>history\<close>.
  \<^item> \<open>Audio\<close>: the segmenter of probabilities, frames, manual capture (\<open>audio/vad_segmenter.rs\<close>, \<open>audio/mod.rs\<close>,
    \<open>audio/opus.rs\<close>). \<open>Downlink\<close>: the decimator and the delivery pipeline (\<open>audio/resampler.rs\<close>,
    \<open>audio/canonical_downlink.rs\<close>).
  \<^item> \<open>Provider_Registry\<close>, \<open>Provider_Manager\<close>: \<open>services/provider/runtime\<close>. \<open>Provider_Safety\<close> is the invariant of the
    registry, \<open>Provider_Tokens\<close> and \<open>Provider_Steps\<close> relate it to the handles alive outside the lock,
    \<open>Provider_Runtime\<close> is the step system \<open>runtime\<close>, \<open>Provider_Theorems\<close> and \<open>Provider_Progress\<close> its properties.
  \<^item> \<open>Speech_Text\<close>: the JSON filter, the sentence segmenter, the sanitiser (\<open>session/speech_output/text.rs\<close>).
    \<open>Speech_Output\<close>, \<open>Speech_Delivery\<close>: the queue of segments, synthesis, pacing (\<open>session/speech_output\<close>).
  \<^item> \<open>Protocol\<close>: client messages and the device's tool catalogue (\<open>protocol/client.rs\<close>, \<open>tools/device_mcp.rs\<close>).
    \<open>Prompt\<close>: \<open>session/interaction/prompt.rs\<close>. \<open>Tool_Results\<close>: \<open>tools/builtin.rs\<close>, \<open>tools/round.rs\<close>.
  \<^item> \<open>Tts_Runtime\<close>, \<open>Tts_Safety\<close>, \<open>Tts_Theorems\<close>, \<open>Tts_Diagnostic\<close>: \<open>workers/tts\<close>, with the step system \<open>tts\<close>.
  \<^item> \<open>Stream_Workers\<close>: what the recognizer and the detector share (\<open>workers/supervision/native_threads.rs\<close>,
    \<open>workers/asr/pool.rs\<close>, \<open>workers/vad/pool.rs\<close> and the common text of \<open>workers/asr/mod.rs\<close> and \<open>workers/vad/mod.rs\<close>);
    \<open>Recognition\<close>: the two runtimes; \<open>Stream_Safety\<close>, \<open>Recognition_Theorems\<close>: their invariant, the step systems
    \<open>asr\<close> and \<open>vad\<close>, and the locale \<open>recognition_runtime\<close>, the contract the supervisor needs of a runtime,
    interpreted for both. \<open>Llm_Runtime\<close>, \<open>Llm_Theorems\<close>: \<open>workers/llm/mod.rs\<close>, with the step system \<open>llm\<close>.
  \<^item> \<open>Writer\<close>, \<open>Writer_Theorems\<close>: \<open>app/transport/websocket/writer.rs\<close> and \<open>frame.rs\<close>, with the step system \<open>wr\<close>.
  \<^item> The session (\<open>session/actor\<close>): \<open>Session_State\<close> (the record of the actor and what it tells the workers),
    \<open>Session_Core\<close> (cancellation, failure, the end of a turn), \<open>Session_Turn\<close> (a turn and its request),
    \<open>Session_Tools\<close>, \<open>Session_Listening\<close>, \<open>Session_Run\<close> (one tick, one event, the end), \<open>Session_New\<close> (construction).
    \<open>Session_Invariant\<close> is the invariant as a calculus of rules, the \<open>Session_Keeps\<close> theories apply it to every
    handler, \<open>Session_System\<close> puts the session among its writer, its workers and the other sessions,
    \<open>Session_Sample\<close> is the small session of the witnesses, \<open>Session_Closing\<close> and \<open>Session_Theorems\<close> the properties.
\<close>

text \<open>
  \<^bold>\<open>What the lemmas show.\<close>
  \<^item> Writer: no frame of a generation that was invalidated is sent, playback commands are answered exactly once and in
    order, the playback queue stays consistent.
  \<^item> Session: an interrupted turn is silent; the session is a client the writer's contract allows (the refinement that
    connects the two); its turn permit is given back; requests to the model are well formed and within the size limit;
    operation numbers are never reused; retained data is bounded; the recursion of the fail-closed path ends.
  \<^item> Workers: permits are counted exactly by what is alive, a lease or operation moves forward and ends once, its
    capacity is back before its end can be seen, a stream starts on a warmed and clean session of its own, what is past
    its deadline is quarantined and reported, and an acknowledged shutdown is final.
  \<^item> Providers: what is leased stays loaded, budgets and concurrency limits hold, the published accounting and states
    are exact, a refusal leaves no trace, no build can be stuck, loops are bounded.
  \<^item> Text, audio and protocol: the filter, the segmenter, the decimator, the delivery, the re-framing of the detector and
    the WAV file against whole-input references; parsed messages are well typed; visible tool names are unambiguous.

  \<^bold>\<open>Bounds and fuel.\<close> The lane that is full closes the session, and closing sends on lanes: that recursion is cut at
  depth \<open>FAIL_DEPTH = 4\<close>, and \<open>fail_closed_is_recursive\<close> shows that one more level changes nothing. The tool executor
  takes as fuel the calls left in the round plus one, each pass uses up one. The loop over the model's mailbox takes the
  length of the mailbox. The supervisor's two loops count the queue and the slots; \<open>supervise_queue\<close> and
  \<open>supervise_exact\<close> show that nothing is left. The segmenter's and the delivery's loops are
  \<open>partial_function (option)\<close>: \<open>None\<close> is a loop that does not end, and where they end is proved. All other loops are
  structural or have a measure. Counters the code keeps in \<open>u64\<close> are natural numbers with the code's saturating or
  checked operations written out; plain increments of identifiers are taken not to overflow except where the session's
  operation number is checked.

  \<^bold>\<open>Atomicity.\<close> Within one step the model is sequential. Four places merge what the code does in two moments: the
  writer asks the gate and writes the frame (the frame counts as sent when the gate admits it, even if the write is still
  under way when the gate closes); a pass of the supervisor has one clock reading and sees no event that arrives during
  it; a waiter leaves the registry and gives up its semaphore permit together; and a step of the session actor runs to
  its next await. The cold permit of a build is given back in a step of its own, before its completion.

  \<^bold>\<open>Not modelled.\<close> Pure input and output and what only forwards it: the HTTP application and its admin pages, the MCP
  servers and transports, the database, history and backup, configuration parsing, logging and metrics. Adapters of
  native and remote providers (\<open>providers/\<close>), the multi-account model gateway and its vendors, memory, task flow,
  knowledge, notifications and the scoring of speakers are separate subsystems behind the interfaces modelled here: a
  session sees them as answers to a spawned call. Panics of third-party provider code inside the model's task and the
  synthesiser's worker loop have no step (a panic of a recognition thread has one); measured durations, histograms and
  the operating system's scheduling of the supervisor thread are left out. The components of the manifest give the
  reason for each.
\<close>

end
